(* ===== verification/Djinn_Prelude.thy ===== *)
theory Djinn_Prelude
  imports Main "HOL-Library.AList" "HOL-Library.List_Lexorder" "HOL-Library.Char_ord"
    "HOL-Library.Multiset" "HOL-Library.Sublist"
begin

text \<open>
  Shared vocabulary of the development: Go maps as association lists with distinct keys, the
  time stamps the operations receive, decimal printing, the last elements of a list, and the
  hint collections the component theories extend.

  A Go map is an association list without duplicate keys. Go leaves the iteration order of
  a map open: a loop over a map is a loop over the list, and since every theorem is stated for
  an arbitrary list, it holds for every iteration order. The string order is the bytewise
  lexicographic one, as Go's.
\<close>

named_theorems go_map "lookup, update and key lemmas of Go maps"

type_synonym ('k, 'v) gomap = "('k \<times> 'v) list"
type_synonym gotime = int
type_synonym bytes = string

abbreviation (input) zero_time :: gotime where "zero_time \<equiv> 0"

abbreviation keys :: "('k, 'v) gomap \<Rightarrow> 'k list" where "keys m \<equiv> map fst m"
abbreviation vals :: "('k, 'v) gomap \<Rightarrow> 'v list" where "vals m \<equiv> map snd m"
abbreviation wf_map :: "('k, 'v) gomap \<Rightarrow> bool" where "wf_map m \<equiv> distinct (keys m)"
abbreviation mset_at :: "('k, 'v) gomap \<Rightarrow> 'k \<Rightarrow> 'v \<Rightarrow> ('k, 'v) gomap" where
  "mset_at m k v \<equiv> AList.update k v m"
abbreviation mdelete :: "('k, 'v) gomap \<Rightarrow> 'k \<Rightarrow> ('k, 'v) gomap" where
  "mdelete m k \<equiv> AList.delete k m"

text \<open>Reading a missing key gives the zero value.\<close>

definition mget :: "'v \<Rightarrow> ('k, 'v) gomap \<Rightarrow> 'k \<Rightarrow> 'v" where
  "mget z m k = (case map_of m k of None \<Rightarrow> z | Some v \<Rightarrow> v)"

subsection \<open>Go maps\<close>

lemma map_of_mset_at [simp, go_map]: "map_of (mset_at m k v) = (map_of m)(k \<mapsto> v)"
  by (simp add: update_conv')

lemma wf_mset_at [simp, go_map]: "wf_map m \<Longrightarrow> wf_map (mset_at m k v)"
  by (rule distinct_update)

lemma set_keys_mset_at [simp, go_map]: "fst ` set (mset_at m k v) = insert k (fst ` set m)"
  by (metis dom_map_of_conv_image_fst dom_fun_upd map_of_mset_at option.distinct(1))

lemma map_of_mdelete [simp, go_map]: "map_of (mdelete m k) = (map_of m)(k := None)"
  by (rule delete_conv')

lemma wf_mdelete [simp, go_map]: "wf_map m \<Longrightarrow> wf_map (mdelete m k)"
  by (rule distinct_delete)

lemma map_of_eq_None_keys: "map_of m k = None \<longleftrightarrow> k \<notin> set (keys m)"
  by (simp add: map_of_eq_None_iff)

lemma map_of_Some_key: "map_of m k = Some v \<Longrightarrow> k \<in> fst ` set m"
  by (force dest: map_of_SomeD)

lemma map_of_SomeI: "wf_map m \<Longrightarrow> (k, v) \<in> set m \<Longrightarrow> map_of m k = Some v"
  by (rule map_of_is_SomeI)

lemma keys_mset_at: "keys (mset_at m k v) = (if k \<in> set (keys m) then keys m else keys m @ [k])"
  by (induction m) auto

lemma keys_mset_at_member [simp]: "k \<in> fst ` set m \<Longrightarrow> keys (mset_at m k v) = keys m"
  by (simp add: keys_mset_at)

lemma mget_mset_at [simp]: "mget z (mset_at m k v) k' = (if k' = k then v else mget z m k')"
  by (simp add: mget_def)

lemma vals_in_map: "x \<in> set (vals m) \<longleftrightarrow> (\<exists>k. (k, x) \<in> set m)"
  by (auto intro: rev_image_eqI)

lemma vals_lookup: "wf_map m \<Longrightarrow> x \<in> set (vals m) \<longleftrightarrow> (\<exists>k. map_of m k = Some x)"
  by (simp only: vals_in_map) (blast dest: map_of_SomeD intro: map_of_SomeI)

lemma map_of_map_vals: "map_of (map (\<lambda>(k, v). (k, f k v)) m) k = map_option (f k) (map_of m k)"
  by (induction m) auto

lemma keys_map_vals [simp]: "keys (map (\<lambda>(k, v). (k, f k v)) m) = keys m"
  by (induction m) auto

lemma length_filter_mset_at:
  shows "length (filter (P \<circ> snd) (mset_at m k v)) + (case map_of m k of None \<Rightarrow> 0 | Some w \<Rightarrow> (if P w then 1 else 0))
    = length (filter (P \<circ> snd) m) + (if P v then 1 else 0)"
proof (induction m)
  case Nil
  show ?case by simp
next
  case (Cons a m)
  obtain k' w where a: "a = (k', w)" by force
  show ?case
  proof (cases "k' = k")
    case True
    with Cons a show ?thesis by simp
  next
    case False
    with Cons a show ?thesis by simp
  qed
qed

text \<open>What the values of a map hold together, as a multiset.\<close>

definition gather :: "('v \<Rightarrow> 'a list) \<Rightarrow> ('k, 'v) gomap \<Rightarrow> 'a multiset" where
  "gather f m = mset (concat (map f (vals m)))"

lemma gather_mset_at:
  "gather f (mset_at m k v) + (case map_of m k of None \<Rightarrow> {#} | Some w \<Rightarrow> mset (f w)) = gather f m + mset (f v)"
  by (induction m) (auto simp: gather_def ac_simps)

lemma gather_new: "map_of m k = None \<Longrightarrow> gather f (mset_at m k v) = gather f m + mset (f v)"
  using gather_mset_at [where f = f and m = m and k = k and v = v] by simp

lemma gather_idle: "map_of m k = Some w \<Longrightarrow> f w = [] \<Longrightarrow> gather f (mset_at m k v) = gather f m + mset (f v)"
  using gather_mset_at [where f = f and m = m and k = k and v = v] by simp

lemma gather_busy: "map_of m k = Some w \<Longrightarrow> f w = [x] \<Longrightarrow> gather f m + mset (f v) = add_mset x (gather f (mset_at m k v))"
  using gather_mset_at [where f = f and m = m and k = k and v = v] by simp

subsection \<open>Sorting strings and sets of strings\<close>

lemma sorted_list_eqI:
  assumes "sorted xs" "distinct xs" "sorted ys" "distinct ys" "set xs = set ys"
  shows "xs = ys"
  using assms by (metis sorted_distinct_set_unique)

lemma sort_eqI: "distinct xs \<Longrightarrow> distinct ys \<Longrightarrow> set xs = set ys \<Longrightarrow> sort xs = sort ys"
  by (metis distinct_sort set_sort sorted_list_eqI sorted_sort)

subsection \<open>The last elements of a list\<close>

definition last_n :: "nat \<Rightarrow> 'a list \<Rightarrow> 'a list" where
  "last_n n xs = drop (length xs - n) xs"

lemma length_last_n [simp]: "length (last_n n xs) = min n (length xs)"
  by (simp add: last_n_def)

lemma last_n_all [simp]: "length xs \<le> n \<Longrightarrow> last_n n xs = xs"
  by (simp add: last_n_def)

lemma last_n_0 [simp]: "last_n 0 xs = []"
  by (simp add: last_n_def)

lemma last_n_append1: "last_n (Suc n) (xs @ [x]) = last_n n xs @ [x]"
  by (simp add: last_n_def)

lemma last_n_absorb: "last_n n (last_n n xs @ ys) = last_n n (xs @ ys)"
proof (cases "length xs \<le> n")
  case True
  then show ?thesis by simp
next
  case False
  then have "length xs - n + (n + length ys - n) = length xs + length ys - n" by simp
  with False show ?thesis by (simp add: last_n_def add.commute)
qed

lemma last_n_last_n: "last_n n (last_n m xs) = last_n (min n m) xs"
proof -
  have "length xs - (length xs - m) - n + (length xs - m) = length xs - min n m" by arith
  then show ?thesis by (simp add: last_n_def)
qed

lemma set_last_n: "set (last_n n xs) \<subseteq> set xs"
  by (simp add: last_n_def set_drop_subset)

subsection \<open>Decimal printing\<close>

definition digit_char :: "nat \<Rightarrow> char" where
  "digit_char d = char_of (48 + d)"

fun nat_dec :: "nat \<Rightarrow> string" where
  "nat_dec n = (if n < 10 then [digit_char n] else nat_dec (n div 10) @ [digit_char (n mod 10)])"

declare nat_dec.simps [simp del]

definition int_dec :: "int \<Rightarrow> string" where
  "int_dec i = (if i < 0 then CHR ''-'' # nat_dec (nat (- i)) else nat_dec (nat i))"

definition digit_val :: "char \<Rightarrow> nat" where
  "digit_val c = of_char c - 48"

definition dec_val :: "string \<Rightarrow> nat" where
  "dec_val s = foldl (\<lambda>n c. 10 * n + digit_val c) 0 s"

lemma of_char_digit: "d < 10 \<Longrightarrow> (of_char (digit_char d) :: nat) = 48 + d"
  by (simp add: digit_char_def)

lemma digit_val_char [simp]: "d < 10 \<Longrightarrow> digit_val (digit_char d) = d"
  by (simp add: digit_val_def of_char_digit)

lemma dec_val_snoc [simp]: "dec_val (s @ [c]) = 10 * dec_val s + digit_val c"
  by (simp add: dec_val_def)

lemma dec_val_nat_dec [simp]: "dec_val (nat_dec n) = n"
proof (induction n rule: nat_dec.induct)
  case (1 n)
  show ?case
  proof (cases "n < 10")
    case True
    then show ?thesis by (subst nat_dec.simps) (simp add: dec_val_def)
  next
    case False
    with 1 show ?thesis by (subst nat_dec.simps) simp
  qed
qed

lemma nat_dec_inj [simp]: "nat_dec m = nat_dec n \<longleftrightarrow> m = n"
  by (metis dec_val_nat_dec)

lemma nat_dec_digits: "c \<in> set (nat_dec n) \<Longrightarrow> (of_char c :: nat) \<in> {48..57}"
proof (induction n rule: nat_dec.induct)
  case (1 n)
  have d: "(of_char (digit_char (n mod 10)) :: nat) \<in> {48..57}" by (simp add: of_char_digit)
  show ?case
  proof (cases "n < 10")
    case True
    with "1.prems" show ?thesis by (subst (asm) nat_dec.simps) (simp add: of_char_digit)
  next
    case False
    with "1.prems" have "c \<in> set (nat_dec (n div 10)) \<or> c = digit_char (n mod 10)"
      by (subst (asm) nat_dec.simps) auto
    with "1.IH" [OF False] d show ?thesis by blast
  qed
qed

lemma nat_dec_not_Nil [simp]: "nat_dec n \<noteq> []"
  by (subst nat_dec.simps) simp

lemma minus_not_in_nat_dec: "CHR ''-'' \<notin> set (nat_dec n)"
  using nat_dec_digits [of "CHR ''-''" n] by auto

lemma int_dec_inj [simp]: "int_dec i = int_dec j \<longleftrightarrow> i = j"
proof -
  have h: "nat_dec m \<noteq> CHR ''-'' # s" for m s
    using minus_not_in_nat_dec [of m] by auto
  have h': "CHR ''-'' # s \<noteq> nat_dec m" for m s
    using h [of m s] by metis
  show ?thesis by (auto simp: int_dec_def h h')
qed

lemma map_filter_set: "set (List.map_filter f xs) = {y. \<exists>x \<in> set xs. f x = Some y}"
  by (force simp: List.map_filter_def)

end
