(* ===== verification/Artifact_Template.thy ===== *)
theory Artifact_Template
  imports Djinn_Prelude
begin

text \<open>
  Package \<^verbatim>\<open>artifact\<close>, first part: the \<^verbatim>\<open>Artifact\<close> record, the templates that
  validate it and the template registry (\<^verbatim>\<open>artifact.go\<close>, \<^verbatim>\<open>template.go\<close>,
  \<^verbatim>\<open>templates.go\<close>, \<^verbatim>\<open>scratch.go\<close>).

  \<^verbatim>\<open>ComponentMap\<close> and \<^verbatim>\<open>Annotation\<close> are aliases of types of the parchment module,
  which is not in the repository: the record keeps the file list, the only part of a
  component map the package reads, and annotations are of an arbitrary type.
\<close>

type_synonym status = string

definition StatusDraft :: status where "StatusDraft = ''draft''"
definition StatusReady :: status where "StatusReady = ''ready''"
definition StatusClaimed :: status where "StatusClaimed = ''claimed''"
definition StatusInProgress :: status where "StatusInProgress = ''in_progress''"
definition StatusComplete :: status where "StatusComplete = ''complete''"
definition StatusInvalidated :: status where "StatusInvalidated = ''invalidated''"
definition StatusBlocked :: status where "StatusBlocked = ''blocked''"
definition StatusPending :: status where "StatusPending = ''pending''"
definition StatusActive :: status where "StatusActive = ''active''"
definition StatusDone :: status where "StatusDone = ''done''"

lemmas status_defs = StatusDraft_def StatusReady_def StatusClaimed_def StatusInProgress_def
  StatusComplete_def StatusInvalidated_def StatusBlocked_def StatusPending_def
  StatusActive_def StatusDone_def

record 'ann artifact =
  a_ID :: string
  a_Kind :: string
  a_Title :: string
  a_Status :: status
  a_Owner :: string
  a_Content :: string
  a_Sections :: "(string, string) gomap option"
  a_Files :: "string list"
  a_DependsOn :: "string list"
  a_Children :: "string list"
  a_Parent :: string
  a_Labels :: "string list"
  a_Annotations :: "'ann list"
  a_Version :: int
  a_Priority :: int
  a_Created :: gotime
  a_Updated :: gotime

datatype art_error =
    ErrNotFound string
  | ErrAlreadyClaimed string
  | ErrInvalidTransition status
  | ErrInvalidStatus status string
  | ErrTemplateNotFound string
  | ErrMissingSection string
  | ErrKindMismatch string string
  | ErrCustom string

text \<open>A section of an artifact; a nil map reads as the empty string.\<close>

definition section_text :: "'ann artifact \<Rightarrow> string \<Rightarrow> string" where
  "section_text a name = (case a_Sections a of None \<Rightarrow> [] | Some m \<Rightarrow> mget [] m name)"

definition set_section :: "'ann artifact \<Rightarrow> string \<Rightarrow> string \<Rightarrow> 'ann artifact" where
  "set_section a name txt =
     a\<lparr>a_Sections := Some (mset_at (case a_Sections a of None \<Rightarrow> [] | Some m \<Rightarrow> m) name txt)\<rparr>"

subsection \<open>Templates\<close>

record 'ann template =
  t_Kind :: string
  t_RequiredSections :: "string list"
  t_ValidStatuses :: "status list"
  t_IDFormat :: string
  t_Validate :: "('ann artifact \<Rightarrow> art_error option) option"

text \<open>The loop over the required sections of \<^verbatim>\<open>Template.Check\<close>: the first missing one.\<close>

fun missing_section :: "'ann artifact \<Rightarrow> string list \<Rightarrow> string option" where
  "missing_section a [] = None"
| "missing_section a (name # names) =
     (if section_text a name = [] then
        (if name = ''content'' \<and> a_Content a \<noteq> [] then missing_section a names else Some name)
      else missing_section a names)"

definition template_check :: "'ann template \<Rightarrow> 'ann artifact \<Rightarrow> art_error option" where
  "template_check t a =
     (if a_Kind a \<noteq> t_Kind t then Some (ErrKindMismatch (a_Kind a) (t_Kind t))
      else case missing_section a (t_RequiredSections t) of
        Some name \<Rightarrow> Some (ErrMissingSection name)
      | None \<Rightarrow> (case t_Validate t of None \<Rightarrow> None | Some v \<Rightarrow> v a))"

definition has_status :: "'ann template \<Rightarrow> status \<Rightarrow> bool" where
  "has_status t s = (s \<in> set (t_ValidStatuses t))"

subsection \<open>The registry\<close>

type_synonym 'ann registry = "(string, 'ann template) gomap"

definition new_template_registry :: "'ann registry" where
  "new_template_registry = []"

definition registry_register :: "'ann registry \<Rightarrow> 'ann template \<Rightarrow> 'ann registry" where
  "registry_register r t = mset_at r (t_Kind t) t"

definition registry_get :: "'ann registry \<Rightarrow> string \<Rightarrow> art_error + 'ann template" where
  "registry_get r kind =
     (case map_of r kind of None \<Rightarrow> Inl (ErrTemplateNotFound kind) | Some t \<Rightarrow> Inr t)"

definition registry_check :: "'ann registry \<Rightarrow> 'ann artifact \<Rightarrow> art_error option" where
  "registry_check r a =
     (case registry_get r (a_Kind a) of Inl e \<Rightarrow> Some e | Inr t \<Rightarrow> template_check t a)"

subsection \<open>Built-in templates\<close>

definition KindPlanSegment :: string where "KindPlanSegment = ''plan-segment''"
definition KindTask :: string where "KindTask = ''task''"
definition KindScratchPaper :: string where "KindScratchPaper = ''scratch-paper''"

definition plan_segment_template :: "'ann template" where
  "plan_segment_template = \<lparr>t_Kind = KindPlanSegment, t_RequiredSections = [],
     t_ValidStatuses = [StatusDraft, StatusReady, StatusClaimed,
       StatusInProgress, StatusComplete, StatusInvalidated],
     t_IDFormat = ''seg-%d'', t_Validate = None\<rparr>"

definition task_template :: "'ann template" where
  "task_template = \<lparr>t_Kind = KindTask, t_RequiredSections = [],
     t_ValidStatuses = [StatusPending, StatusActive, StatusDone, StatusBlocked],
     t_IDFormat = ''T-%03d'', t_Validate = None\<rparr>"

definition scratch_paper_template :: "'ann template" where
  "scratch_paper_template = \<lparr>t_Kind = KindScratchPaper, t_RequiredSections = [],
     t_ValidStatuses = [StatusDraft, StatusActive, StatusComplete],
     t_IDFormat = ''SP-%03d'', t_Validate = None\<rparr>"

definition default_registry :: "'ann registry" where
  "default_registry =
     registry_register (registry_register (registry_register new_template_registry
       plan_segment_template) task_template) scratch_paper_template"

subsection \<open>The ID format: \<^verbatim>\<open>fmt.Sprintf\<close> with one integer\<close>

text \<open>
  Of \<^verbatim>\<open>fmt\<close> the model has what an ID format uses: literal characters, one \<^verbatim>\<open>%d\<close> and
  one \<^verbatim>\<open>%0<digit>d\<close>. An unused operand is reported as \<^verbatim>\<open>fmt\<close> does.
\<close>

definition zero_pad :: "nat \<Rightarrow> int \<Rightarrow> string" where
  "zero_pad w n =
     (if n < 0 then CHR ''-'' # replicate (w - 1 - length (nat_dec (nat (- n)))) CHR ''0'' @ nat_dec (nat (- n))
      else replicate (w - length (nat_dec (nat n))) CHR ''0'' @ nat_dec (nat n))"

definition format_verb :: "string \<Rightarrow> int \<Rightarrow> string option" where
  "format_verb s n =
     (if s = [] then None
      else if hd s = CHR ''d'' then Some (int_dec n @ tl s)
      else if length s \<ge> 3 \<and> s ! 0 = CHR ''0'' \<and> s ! 2 = CHR ''d''
        then Some (zero_pad (digit_val (s ! 1)) n @ drop 3 s)
      else None)"

fun sprintf_d :: "string \<Rightarrow> int \<Rightarrow> string" where
  "sprintf_d [] n = ''%!(EXTRA int='' @ int_dec n @ '')''"
| "sprintf_d (c # s) n =
     (if c = CHR ''%'' then
        (case format_verb s n of Some out \<Rightarrow> out | None \<Rightarrow> c # sprintf_d s n)
      else c # sprintf_d s n)"

subsection \<open>Facts\<close>

lemma missing_section_None:
  "missing_section a names = None \<longleftrightarrow>
     (\<forall>n \<in> set names. section_text a n \<noteq> [] \<or> n = ''content'' \<and> a_Content a \<noteq> [])"
  by (induction names) auto

lemma registry_get_register:
  "registry_get (registry_register r t) k = (if k = t_Kind t then Inr t else registry_get r k)"
  by (simp add: registry_get_def registry_register_def)

lemma registry_check_None_get: "registry_check r a = None \<Longrightarrow> \<exists>t. registry_get r (a_Kind a) = Inr t"
  by (auto simp: registry_check_def split: sum.splits)

lemma template_check_kind: "template_check t a = None \<Longrightarrow> a_Kind a = t_Kind t"
  by (auto simp: template_check_def split: if_splits)

text \<open>The value of a padded decimal: leading zeros do not change it.\<close>

lemma foldl_zeros: "foldl (\<lambda>n c. 10 * n + digit_val c) 0 (replicate k CHR ''0'') = 0"
  by (induction k) (simp_all add: digit_val_def)

lemma dec_val_zeros: "dec_val (replicate k CHR ''0'' @ s) = dec_val s"
  by (simp add: dec_val_def foldl_zeros)

lemma dec_val_zero_pad [simp]: "0 \<le> n \<Longrightarrow> dec_val (zero_pad w n) = nat n"
  by (simp add: zero_pad_def dec_val_zeros)

lemma zero_pad_inj: "0 \<le> m \<Longrightarrow> 0 \<le> n \<Longrightarrow> zero_pad w m = zero_pad w n \<longleftrightarrow> m = n"
  by (metis dec_val_zero_pad nat_0_le)

lemma int_dec_nonneg: "0 \<le> n \<Longrightarrow> int_dec n = nat_dec (nat n)"
  by (simp add: int_dec_def)

lemma seg_id: "sprintf_d ''seg-%d'' n = ''seg-'' @ int_dec n"
  by (simp add: format_verb_def)

lemma task_id: "sprintf_d ''T-%03d'' n = ''T-'' @ zero_pad 3 n"
  by (simp add: format_verb_def digit_val_def)

lemma scratch_id: "sprintf_d ''SP-%03d'' n = ''SP-'' @ zero_pad 3 n"
  by (simp add: format_verb_def digit_val_def)

end
