(* ===== verification/Artifact_Graph.thy ===== *)
theory Artifact_Graph
  imports Artifact_Template
begin

text \<open>
  Package \<^verbatim>\<open>artifact\<close>, second part: the graph of \<^verbatim>\<open>graph.go\<close> with its creation, lifecycle,
  query, operator and counter operations and its persistence. Every operation holds the
  graph's lock, so each is one atomic function of the graph; \<^verbatim>\<open>time.Now()\<close> is the argument
  \<open>now\<close>. The pointers stored in \<^verbatim>\<open>items\<close> never leave the map, so writing through one is an
  update of the map at its key. Integers are unbounded: the counters and versions only count up.
\<close>

named_theorems graph_ops "definitions of the graph operations"

record 'ann graph =
  g_Title :: string
  g_items :: "(string, 'ann artifact) gomap"
  g_counters :: "(string, int) gomap"
  g_registry :: "'ann registry"

definition new_graph :: "string \<Rightarrow> 'ann registry \<Rightarrow> 'ann graph" where
  "new_graph title reg = \<lparr>g_Title = title, g_items = [], g_counters = [], g_registry = reg\<rparr>"

text \<open>The invariant of the item map: distinct keys, and every artifact under its own ID.\<close>

definition keyed :: "(string, 'ann artifact) gomap \<Rightarrow> bool" where
  "keyed m = (wf_map m \<and> (\<forall>k a. map_of m k = Some a \<longrightarrow> a_ID a = k))"

lemma keyed_lookup: "keyed m \<Longrightarrow> map_of m k = Some a \<Longrightarrow> a_ID a = k"
  by (simp add: keyed_def)

lemma keyed_code: "keyed m \<longleftrightarrow> wf_map m \<and> list_all (\<lambda>(k, a). a_ID a = k) m"
  unfolding keyed_def list_all_iff by (auto dest: map_of_SomeD)

lemma keyed_mset_at: "keyed m \<Longrightarrow> a_ID b = k \<Longrightarrow> keyed (mset_at m k b)"
  by (auto simp: keyed_def)

subsection \<open>Adding and reading\<close>

text \<open>\<^verbatim>\<open>Content\<close> and the section \<^verbatim>\<open>content\<close> are kept equal, each filling in for the other.\<close>

definition normalize_content :: "'ann artifact \<Rightarrow> 'ann artifact" where
  "normalize_content a0 =
     (let a1 = (if a_Content a0 \<noteq> [] \<and> section_text a0 ''content'' = []
                then set_section a0 ''content'' (a_Content a0) else a0)
      in if section_text a1 ''content'' \<noteq> [] \<and> a_Content a1 = []
         then a1\<lparr>a_Content := section_text a1 ''content''\<rparr> else a1)"

text \<open>An empty ID is filled from the kind's counter and ID format.\<close>

definition generate_id :: "'ann graph \<Rightarrow> 'ann artifact \<Rightarrow> 'ann graph \<times> 'ann artifact" where
  "generate_id g a =
     (if a_ID a \<noteq> [] then (g, a)
      else case map_of (g_registry g) (a_Kind a) of
        None \<Rightarrow> (g, a)
      | Some t \<Rightarrow>
          (let n = mget 0 (g_counters g) (a_Kind a) + 1
           in (g\<lparr>g_counters := mset_at (g_counters g) (a_Kind a) n\<rparr>,
               a\<lparr>a_ID := sprintf_d (t_IDFormat t) n\<rparr>)))"

definition add_defaults :: "gotime \<Rightarrow> 'ann artifact \<Rightarrow> 'ann artifact" where
  "add_defaults now a =
     a\<lparr>a_Status := (if a_Status a = [] then StatusDraft else a_Status a),
       a_Version := (if a_Version a = 0 then 1 else a_Version a),
       a_Created := (if a_Created a = zero_time then now else a_Created a),
       a_Updated := (if a_Updated a = zero_time then now else a_Updated a)\<rparr>"

definition graph_add :: "gotime \<Rightarrow> 'ann graph \<Rightarrow> 'ann artifact \<Rightarrow> art_error + (string \<times> 'ann graph)" where
  "graph_add now g a0 =
     (let a1 = normalize_content a0
      in case registry_check (g_registry g) a1 of
        Some e \<Rightarrow> Inl e
      | None \<Rightarrow>
          (let (g1, a2) = generate_id g a1; a3 = add_defaults now a2
           in Inr (a_ID a3, g1\<lparr>g_items := mset_at (g_items g1) (a_ID a3) a3\<rparr>)))"

definition graph_get :: "'ann graph \<Rightarrow> string \<Rightarrow> art_error + 'ann artifact" where
  "graph_get g i = (case map_of (g_items g) i of None \<Rightarrow> Inl (ErrNotFound i) | Some a \<Rightarrow> Inr a)"

definition graph_all :: "'ann graph \<Rightarrow> 'ann artifact list" where
  "graph_all g = vals (g_items g)"

subsection \<open>Status transitions\<close>

text \<open>The shape the transitions share: look the artifact up, change it or fail, store it.\<close>

definition with_item ::
    "'ann graph \<Rightarrow> string \<Rightarrow> ('ann artifact \<Rightarrow> art_error + 'ann artifact) \<Rightarrow> art_error + 'ann graph" where
  "with_item g i f =
     (case map_of (g_items g) i of
        None \<Rightarrow> Inl (ErrNotFound i)
      | Some a \<Rightarrow> (case f a of Inl e \<Rightarrow> Inl e
                   | Inr a' \<Rightarrow> Inr (g\<lparr>g_items := mset_at (g_items g) i a'\<rparr>)))"

definition graph_claim :: "gotime \<Rightarrow> 'ann graph \<Rightarrow> string \<Rightarrow> string \<Rightarrow> art_error + 'ann graph" where
  "graph_claim now g i owner = with_item g i (\<lambda>a.
     if a_Status a \<noteq> StatusReady then Inl (ErrInvalidTransition (a_Status a))
     else if a_Owner a \<noteq> [] then Inl (ErrAlreadyClaimed (a_Owner a))
     else Inr (a\<lparr>a_Owner := owner, a_Status := StatusClaimed, a_Updated := now\<rparr>))"

definition graph_start :: "gotime \<Rightarrow> 'ann graph \<Rightarrow> string \<Rightarrow> art_error + 'ann graph" where
  "graph_start now g i = with_item g i (\<lambda>a.
     if a_Status a \<noteq> StatusClaimed then Inl (ErrInvalidTransition (a_Status a))
     else Inr (a\<lparr>a_Status := StatusInProgress, a_Updated := now\<rparr>))"

definition graph_complete :: "gotime \<Rightarrow> 'ann graph \<Rightarrow> string \<Rightarrow> art_error + 'ann graph" where
  "graph_complete now g i = with_item g i (\<lambda>a.
     if a_Status a \<noteq> StatusInProgress then Inl (ErrInvalidTransition (a_Status a))
     else Inr (a\<lparr>a_Status := StatusComplete, a_Version := a_Version a + 1, a_Updated := now\<rparr>))"

definition graph_update_status :: "gotime \<Rightarrow> 'ann graph \<Rightarrow> string \<Rightarrow> status \<Rightarrow> art_error + 'ann graph" where
  "graph_update_status now g i s = with_item g i (\<lambda>a.
     case registry_get (g_registry g) (a_Kind a) of
       Inl e \<Rightarrow> Inl e
     | Inr t \<Rightarrow> (if \<not> has_status t s then Inl (ErrInvalidStatus s (a_Kind a))
                 else Inr (a\<lparr>a_Status := s, a_Updated := now\<rparr>)))"

subsection \<open>Operator input\<close>

definition graph_fill_draft :: "gotime \<Rightarrow> 'ann graph \<Rightarrow> string \<Rightarrow> string \<Rightarrow> art_error + 'ann graph" where
  "graph_fill_draft now g i txt = with_item g i (\<lambda>a.
     if a_Status a \<noteq> StatusDraft then Inl (ErrInvalidTransition (a_Status a))
     else Inr ((set_section (a\<lparr>a_Content := txt\<rparr>) ''content'' txt)
       \<lparr>a_Status := StatusReady, a_Version := a_Version a + 1, a_Updated := now\<rparr>))"

definition graph_annotate :: "gotime \<Rightarrow> 'ann graph \<Rightarrow> string \<Rightarrow> 'ann \<Rightarrow> art_error + 'ann graph" where
  "graph_annotate now g i ann = with_item g i (\<lambda>a.
     Inr (a\<lparr>a_Annotations := a_Annotations a @ [ann], a_Updated := now\<rparr>))"

definition graph_inject :: "gotime \<Rightarrow> 'ann graph \<Rightarrow> string \<Rightarrow> 'ann artifact \<Rightarrow> art_error + (string \<times> 'ann graph)" where
  "graph_inject now g parent child =
     (case map_of (g_items g) parent of
        None \<Rightarrow> Inl (ErrNotFound parent)
      | Some _ \<Rightarrow> graph_add now g (child\<lparr>a_DependsOn := a_DependsOn child @ [parent]\<rparr>))"

definition graph_reorder :: "gotime \<Rightarrow> 'ann graph \<Rightarrow> string \<Rightarrow> string list \<Rightarrow> art_error + 'ann graph" where
  "graph_reorder now g i deps = with_item g i (\<lambda>a. Inr (a\<lparr>a_DependsOn := deps, a_Updated := now\<rparr>))"

subsection \<open>Queries\<close>

definition deps_complete :: "'ann graph \<Rightarrow> 'ann artifact \<Rightarrow> bool" where
  "deps_complete g a = list_all (\<lambda>d. case map_of (g_items g) d of
       None \<Rightarrow> False | Some dep \<Rightarrow> a_Status dep = StatusComplete) (a_DependsOn a)"

definition graph_ready :: "'ann graph \<Rightarrow> 'ann artifact list" where
  "graph_ready g = filter (\<lambda>a. a_Status a = StatusReady \<and> deps_complete g a) (vals (g_items g))"

definition graph_draft_gaps :: "'ann graph \<Rightarrow> 'ann artifact list" where
  "graph_draft_gaps g = filter (\<lambda>a. a_Status a = StatusDraft) (vals (g_items g))"

definition graph_by_kind :: "'ann graph \<Rightarrow> string \<Rightarrow> 'ann artifact list" where
  "graph_by_kind g k = filter (\<lambda>a. a_Kind a = k) (vals (g_items g))"

definition graph_by_status :: "'ann graph \<Rightarrow> status \<Rightarrow> 'ann artifact list" where
  "graph_by_status g s = filter (\<lambda>a. a_Status a = s) (vals (g_items g))"

definition graph_list_sorted :: "'ann graph \<Rightarrow> 'ann artifact list" where
  "graph_list_sorted g = sort_key a_ID (vals (g_items g))"

definition counter_value :: "'ann graph \<Rightarrow> string \<Rightarrow> int" where
  "counter_value g kind = mget 0 (g_counters g) kind"

definition set_counter :: "'ann graph \<Rightarrow> string \<Rightarrow> int \<Rightarrow> 'ann graph" where
  "set_counter g kind v = g\<lparr>g_counters := mset_at (g_counters g) kind v\<rparr>"

subsection \<open>Persistence\<close>

record 'ann graph_state =
  s_Title :: string
  s_Artifacts :: "'ann artifact list"
  s_Counters :: "(string, int) gomap"

definition marshal_state :: "'ann graph \<Rightarrow> 'ann graph_state" where
  "marshal_state g = \<lparr>s_Title = g_Title g, s_Artifacts = sort_key a_ID (vals (g_items g)),
     s_Counters = g_counters g\<rparr>"

definition load_state :: "'ann graph \<Rightarrow> 'ann graph_state \<Rightarrow> 'ann graph" where
  "load_state g st = g\<lparr>g_Title := s_Title st,
     g_items := foldl (\<lambda>m a. mset_at m (a_ID a) a) [] (s_Artifacts st),
     g_counters := foldl (\<lambda>m (k, v). mset_at m k v) [] (s_Counters st)\<rparr>"

text \<open>
  \<^verbatim>\<open>Save\<close> and \<^verbatim>\<open>Load\<close> over a file system. What the operating system answers is an
  input: whether each call succeeds, and what a failed write leaves in the temporary file.
  The JSON encoder and decoder are inputs as well.
\<close>

datatype write_outcome = Written | NotOpened | Partial bytes

record os_outcome =
  mkdir_ok :: bool
  write_result :: write_outcome
  rename_ok :: bool
  remove_ok :: bool

datatype io_error = MarshalError | MkdirError | WriteTmpError | RenameError | ReadError | UnmarshalError

type_synonym filesys = "string \<Rightarrow> bytes option"

definition graph_save ::
    "('ann graph_state \<Rightarrow> bytes option) \<Rightarrow> os_outcome \<Rightarrow> 'ann graph \<Rightarrow> string \<Rightarrow> filesys \<Rightarrow> filesys \<times> io_error option" where
  "graph_save enc os g path fs =
     (case enc (marshal_state g) of
        None \<Rightarrow> (fs, Some MarshalError)
      | Some raw \<Rightarrow>
          if \<not> mkdir_ok os then (fs, Some MkdirError)
          else (let tmp = path @ ''.tmp''
            in case write_result os of
              NotOpened \<Rightarrow> (fs, Some WriteTmpError)
            | Partial part \<Rightarrow> (fs(tmp \<mapsto> part), Some WriteTmpError)
            | Written \<Rightarrow>
                if rename_ok os then ((fs(tmp := None))(path \<mapsto> raw), None)
                else (if remove_ok os then fs(tmp := None) else fs(tmp \<mapsto> raw), Some RenameError)))"

definition graph_load ::
    "(bytes \<Rightarrow> 'ann graph_state option) \<Rightarrow> filesys \<Rightarrow> 'ann graph \<Rightarrow> string \<Rightarrow> io_error + 'ann graph" where
  "graph_load dec fs g path =
     (case fs path of
        None \<Rightarrow> Inl ReadError
      | Some data \<Rightarrow> (case dec data of None \<Rightarrow> Inl UnmarshalError | Some st \<Rightarrow> Inr (load_state g st)))"

lemmas item_op_defs [graph_ops] = graph_claim_def graph_start_def graph_complete_def
  graph_update_status_def graph_fill_draft_def graph_annotate_def graph_reorder_def

end
