(* ===== verification/Artifact_Cascade.thy ===== *)
theory Artifact_Cascade
  imports Artifact_Graph
begin

text \<open>
  \<^verbatim>\<open>Graph.Cascade\<close>: the artifacts affected by a change, through dependency edges and
  through shared files, and their invalidation.

  \<^verbatim>\<open>cascadeDeps\<close> ranges over the item map while it recurses, and each range may run in another
  order: the order is the argument \<open>ord\<close>, which maps the set of affected ids at the start of
  a range and the keys to the keys in the order of that range. The recursion is nested, the
  affected ids of the inner call being those the outer loop goes on with.
\<close>

definition invalidate :: "gotime \<Rightarrow> 'ann artifact \<Rightarrow> 'ann artifact" where
  "invalidate now a =
     (if a_Status a = StatusInProgress \<or> a_Status a = StatusClaimed \<or> a_Status a = StatusReady
      then a\<lparr>a_Status := StatusInvalidated, a_Updated := now\<rparr> else a)"

definition item_ids :: "(string, 'ann artifact) gomap \<Rightarrow> string list" where
  "item_ids m = map (\<lambda>(k, a). a_ID a) m"

function (sequential) cascade_deps ::
    "(string list \<Rightarrow> string list \<Rightarrow> string list) \<Rightarrow> gotime \<Rightarrow> string \<Rightarrow> string list \<Rightarrow>
     (string, 'ann artifact) gomap \<times> string list \<Rightarrow> (string, 'ann artifact) gomap \<times> string list" where
  "cascade_deps ord now changed [] (items, aff) = (items, aff)"
| "cascade_deps ord now changed (k # ks) (items, aff) =
     (case map_of items k of
        None \<Rightarrow> cascade_deps ord now changed ks (items, aff)
      | Some a \<Rightarrow>
          (if a_ID a \<in> set aff \<or> a_ID a = changed then cascade_deps ord now changed ks (items, aff)
           else if list_ex (\<lambda>dep. dep = changed \<or> dep \<in> set aff) (a_DependsOn a)
           then cascade_deps ord now changed ks
                  (cascade_deps ord now (a_ID a) (ord (aff @ [a_ID a]) (keys items))
                     (mset_at items k (invalidate now a), aff @ [a_ID a]))
           else cascade_deps ord now changed ks (items, aff)))"
  by pat_completeness auto

subsection \<open>Termination\<close>

lemma invalidate_simps [simp]:
  "a_ID (invalidate now a) = a_ID a" "a_Kind (invalidate now a) = a_Kind a"
  "a_DependsOn (invalidate now a) = a_DependsOn a" "a_Files (invalidate now a) = a_Files a"
  "a_Owner (invalidate now a) = a_Owner a" "a_Version (invalidate now a) = a_Version a"
  by (simp_all add: invalidate_def)

lemma item_ids_mset_at:
  "map_of m k = Some a \<Longrightarrow> a_ID b = a_ID a \<Longrightarrow> item_ids (mset_at m k b) = item_ids m"
  by (induction m) (auto simp: item_ids_def split: if_splits)

lemma item_ids_in: "map_of m k = Some a \<Longrightarrow> a_ID a \<in> set (item_ids m)"
  by (force simp: item_ids_def dest: map_of_SomeD)

lemma cascade_deps_partial:
  "cascade_deps_dom (ord, now, changed, ks, st) \<Longrightarrow>
     item_ids (fst (cascade_deps ord now changed ks st)) = item_ids (fst st) \<and>
     set (snd st) \<subseteq> set (snd (cascade_deps ord now changed ks st))"
proof (induction ord now changed ks st rule: cascade_deps.pinduct)
  case (1 ord now changed items aff)
  then show ?case by (simp add: cascade_deps.psimps)
next
  case (2 ord now changed k ks items aff)
  show ?case
  proof (cases "map_of items k")
    case None
    with 2 show ?thesis by (simp add: cascade_deps.psimps)
  next
    case (Some a)
    show ?thesis
    proof (cases "a_ID a \<in> set aff \<or> a_ID a = changed")
      case True
      with 2 Some show ?thesis by (auto simp: cascade_deps.psimps)
    next
      case False
      show ?thesis
      proof (cases "list_ex (\<lambda>dep. dep = changed \<or> dep \<in> set aff) (a_DependsOn a)")
        case True
        note IH1 = 2(4) [OF Some False True] and IH2 = 2(5) [OF Some False True]
        from 2(1) Some False True IH1 IH2 show ?thesis
          by (auto simp: cascade_deps.psimps item_ids_mset_at)
      next
        case F: False
        from 2(6) [OF Some False F] 2(1) Some False F show ?thesis
          by (auto simp: cascade_deps.psimps)
      qed
    qed
  qed
qed

definition cascade_room :: "(string, 'ann artifact) gomap \<times> string list \<Rightarrow> nat" where
  "cascade_room st = card (set (item_ids (fst st)) - set (snd st))"

lemma cascade_room_le:
  "item_ids m' = item_ids m \<Longrightarrow> set aff \<subseteq> set aff' \<Longrightarrow> cascade_room (m', aff') \<le> cascade_room (m, aff)"
  by (auto simp: cascade_room_def intro!: card_mono)

lemma cascade_room_less:
  "map_of m k = Some a \<Longrightarrow> a_ID b = a_ID a \<Longrightarrow> a_ID a \<notin> set aff \<Longrightarrow>
   cascade_room (mset_at m k b, aff @ [a_ID a]) < cascade_room (m, aff)"
  by (auto simp: cascade_room_def item_ids_mset_at intro!: psubset_card_mono dest: item_ids_in)

termination cascade_deps
proof (relation "inv_image (less_than <*lex*> less_than) (\<lambda>(ord, now, changed, ks, st). (cascade_room st, length ks))",
    goal_cases)
  case 1
  show ?case by auto
next
  case (2 ord now changed k ks items aff)
  then show ?case by simp
next
  case (3 ord now changed k ks items aff a)
  then show ?case by simp
next
  case (4 ord now changed k ks items aff a)
  then show ?case using cascade_room_less [of items k a "invalidate now a" aff] by simp
next
  case (5 ord now changed k ks items aff a)
  let ?st = "(mset_at items k (invalidate now a), aff @ [a_ID a])"
  let ?r = "cascade_deps ord now (a_ID a) (ord (aff @ [a_ID a]) (keys items)) ?st"
  have "cascade_room ?r \<le> cascade_room ?st"
    using cascade_deps_partial [OF 5(4)] cascade_room_le [of "fst ?r" "fst ?st" "snd ?st" "snd ?r"] by simp
  also have "\<dots> < cascade_room (items, aff)"
    using 5 by (intro cascade_room_less) auto
  finally show ?case by simp
next
  case (6 ord now changed k ks items aff a)
  then show ?case by simp
qed

subsection \<open>Overlaps, and the operation\<close>

definition shares_file :: "'ann artifact \<Rightarrow> 'ann artifact \<Rightarrow> bool" where
  "shares_file a b = list_ex (\<lambda>f. f \<in> set (a_Files b)) (a_Files a)"

fun overlap_loop ::
    "gotime \<Rightarrow> 'ann artifact \<Rightarrow> string \<Rightarrow> string list \<Rightarrow>
     (string, 'ann artifact) gomap \<times> string list \<Rightarrow> (string, 'ann artifact) gomap \<times> string list" where
  "overlap_loop now ch changed [] st = st"
| "overlap_loop now ch changed (k # ks) (items, aff) =
     (case map_of items k of
        None \<Rightarrow> overlap_loop now ch changed ks (items, aff)
      | Some a \<Rightarrow>
          (if a_ID a = changed \<or> a_ID a \<in> set aff then overlap_loop now ch changed ks (items, aff)
           else if shares_file ch a
           then overlap_loop now ch changed ks (mset_at items k (invalidate now a), aff @ [a_ID a])
           else overlap_loop now ch changed ks (items, aff)))"

definition cascade_overlaps ::
    "(string list \<Rightarrow> string list \<Rightarrow> string list) \<Rightarrow> gotime \<Rightarrow> string \<Rightarrow>
     (string, 'ann artifact) gomap \<times> string list \<Rightarrow> (string, 'ann artifact) gomap \<times> string list" where
  "cascade_overlaps ord now changed st =
     (case map_of (fst st) changed of
        None \<Rightarrow> st
      | Some ch \<Rightarrow> if a_Files ch = [] then st
                  else overlap_loop now ch changed (ord (snd st) (keys (fst st))) st)"

definition cascade ::
    "(string list \<Rightarrow> string list \<Rightarrow> string list) \<Rightarrow> gotime \<Rightarrow> 'ann graph \<Rightarrow> string \<Rightarrow> 'ann graph \<times> string list" where
  "cascade ord now g changed =
     (case map_of (g_items g) changed of
        None \<Rightarrow> (g, [])
      | Some a \<Rightarrow>
          (let items0 = mset_at (g_items g) changed (a\<lparr>a_Version := a_Version a + 1, a_Updated := now\<rparr>);
               st1 = cascade_deps ord now changed (ord [] (keys items0)) (items0, []);
               st2 = cascade_overlaps ord now changed st1
           in (g\<lparr>g_items := fst st2\<rparr>, sort (snd st2))))"

definition overlaps :: "'ann graph \<Rightarrow> string \<Rightarrow> string \<Rightarrow> string list" where
  "overlaps g ida idb =
     (case (map_of (g_items g) ida, map_of (g_items g) idb) of
        (Some a, Some b) \<Rightarrow> sort (filter (\<lambda>f. f \<in> set (a_Files b)) (remdups (a_Files a)))
      | _ \<Rightarrow> [])"

subsection \<open>What an edge is\<close>

definition dep_edges :: "(string, 'ann artifact) gomap \<Rightarrow> (string \<times> string) set" where
  "dep_edges m = {(d, x). \<exists>a. map_of m x = Some a \<and> d \<in> set (a_DependsOn a) \<and> d \<noteq> x}"

definition is_order :: "(string list \<Rightarrow> string list \<Rightarrow> string list) \<Rightarrow> bool" where
  "is_order ord = (\<forall>aff ks. set (ord aff ks) = set ks)"

lemma dep_edges_mset_at:
  "map_of m k = Some a \<Longrightarrow> a_DependsOn b = a_DependsOn a \<Longrightarrow> dep_edges (mset_at m k b) = dep_edges m"
  by (auto simp: dep_edges_def split: if_splits)

definition inval_at :: "gotime \<Rightarrow> string set \<Rightarrow> (string, 'ann artifact) gomap \<Rightarrow> string \<Rightarrow> 'ann artifact option" where
  "inval_at now S m k = map_option (\<lambda>a. if k \<in> S then invalidate now a else a) (map_of m k)"

text \<open>Running \<^const>\<open>cascade_deps\<close>: what it keeps, and what it does to the items.\<close>

definition casc_post ::
    "gotime \<Rightarrow> (string, 'ann artifact) gomap \<times> string list \<Rightarrow> (string, 'ann artifact) gomap \<times> string list \<Rightarrow> bool" where
  "casc_post now st st' =
     (set (snd st) \<subseteq> set (snd st') \<and> keyed (fst st') \<and> keys (fst st') = keys (fst st)
      \<and> dep_edges (fst st') = dep_edges (fst st)
      \<and> (distinct (snd st) \<longrightarrow> distinct (snd st'))
      \<and> map_of (fst st') = inval_at now (set (snd st') - set (snd st)) (fst st))"

lemma casc_post_refl: "keyed (fst st) \<Longrightarrow> casc_post now st st"
  by (auto simp: casc_post_def inval_at_def fun_eq_iff option.map_ident)

lemma casc_post_trans: "casc_post now s t \<Longrightarrow> casc_post now t u \<Longrightarrow> casc_post now s u"
  by (auto simp: casc_post_def inval_at_def fun_eq_iff option.map_comp o_def intro!: option.map_cong)

lemma casc_post_mark:
  assumes "keyed items" "map_of items k = Some a" "k \<notin> set aff"
  shows "casc_post now (items, aff) (mset_at items k (invalidate now a), aff @ [k])"
proof -
  have "k \<in> fst ` set items" using assms(2) by (force dest: map_of_SomeD)
  moreover have "a_ID a = k" using assms by (simp add: keyed_lookup)
  ultimately show ?thesis
    using assms by (auto simp: casc_post_def keyed_mset_at dep_edges_mset_at inval_at_def fun_eq_iff option.map_ident)
qed

lemma cascade_deps_post: "keyed (fst st) \<Longrightarrow> casc_post now st (cascade_deps ord now changed ks st)"
proof (induction ord now changed ks st rule: cascade_deps.induct)
  case (1 ord now changed items aff)
  then show ?case by (simp add: casc_post_refl)
next
  case (2 ord now changed k ks items aff)
  show ?case
  proof (cases "map_of items k")
    case None
    with 2 show ?thesis by simp
  next
    case (Some a)
    with "2.prems" have id: "a_ID a = k" by (simp add: keyed_lookup)
    show ?thesis
    proof (cases "a_ID a \<in> set aff \<or> a_ID a = changed")
      case True
      with 2(2) [OF Some True] 2(6) Some show ?thesis by simp
    next
      case False
      show ?thesis
      proof (cases "list_ex (\<lambda>dep. dep = changed \<or> dep \<in> set aff) (a_DependsOn a)")
        case True
        let ?st1 = "(mset_at items k (invalidate now a), aff @ [a_ID a])"
        let ?st2 = "cascade_deps ord now (a_ID a) (ord (aff @ [a_ID a]) (keys items)) ?st1"
        have p1: "casc_post now (items, aff) ?st1"
          using casc_post_mark [of items k a aff now] 2(6) Some False id by simp
        then have "keyed (fst ?st1)" by (simp add: casc_post_def)
        with 2(3) [OF Some False True] have p2: "casc_post now ?st1 ?st2" by simp
        then have "keyed (fst ?st2)" by (simp add: casc_post_def)
        with 2(4) [OF Some False True] have p3: "casc_post now ?st2 (cascade_deps ord now changed ks ?st2)"
          by simp
        from casc_post_trans [OF p1 casc_post_trans [OF p2 p3]] Some False True show ?thesis by simp
      next
        case F: False
        with 2(5) [OF Some False F] 2(6) Some False show ?thesis by simp
      qed
    qed
  qed
qed


lemma casc_post_keyed: "casc_post now st st' \<Longrightarrow> keyed (fst st')"
  and casc_post_edges: "casc_post now st st' \<Longrightarrow> dep_edges (fst st') = dep_edges (fst st)"
  and casc_post_keys: "casc_post now st st' \<Longrightarrow> keys (fst st') = keys (fst st)"
  and casc_post_mono: "casc_post now st st' \<Longrightarrow> set (snd st) \<subseteq> set (snd st')"
  by (simp_all add: casc_post_def)

lemma dep_edges_dom: "(d, x) \<in> dep_edges m \<Longrightarrow> x \<in> set (keys m)"
  by (force simp: dep_edges_def dest: map_of_SomeD)

lemma trancl_Image_step:
  "(d, k) \<in> E \<Longrightarrow> d \<in> S \<Longrightarrow> E\<^sup>+ `` {k} \<subseteq> E\<^sup>+ `` S"
  by (auto intro: trancl_into_trancl2)

subsection \<open>The affected artifacts are the transitive dependents\<close>

lemma cascade_deps_sound:
  "keyed (fst st) \<Longrightarrow> set (snd (cascade_deps ord now changed ks st)) \<subseteq>
     set (snd st) \<union> (dep_edges (fst st))\<^sup>+ `` insert changed (set (snd st))"
proof (induction ord now changed ks st rule: cascade_deps.induct)
  case (1 ord now changed items aff)
  then show ?case by auto
next
  case (2 ord now changed k ks items aff)
  let ?E = "dep_edges items"
  show ?case
  proof (cases "map_of items k")
    case None
    with 2 show ?thesis by simp
  next
    case (Some a)
    with "2.prems" have id: "a_ID a = k" by (simp add: keyed_lookup)
    show ?thesis
    proof (cases "a_ID a \<in> set aff \<or> a_ID a = changed")
      case True
      with 2(2) [OF Some True] 2(6) Some show ?thesis by simp
    next
      case False
      show ?thesis
      proof (cases "list_ex (\<lambda>dep. dep = changed \<or> dep \<in> set aff) (a_DependsOn a)")
        case True
        let ?st1 = "(mset_at items k (invalidate now a), aff @ [k])"
        let ?st2 = "cascade_deps ord now k (ord (aff @ [k]) (keys items)) ?st1"
        have p1: "casc_post now (items, aff) ?st1"
          using casc_post_mark [of items k a aff now] 2(6) Some False id by simp
        have k1: "keyed (fst ?st1)" and E1: "dep_edges (fst ?st1) = ?E"
          using casc_post_keyed [OF p1] casc_post_edges [OF p1] by simp_all
        have p2: "casc_post now ?st1 ?st2" by (rule cascade_deps_post [OF k1])
        have k2: "keyed (fst ?st2)" and E2: "dep_edges (fst ?st2) = ?E"
          using casc_post_keyed [OF p2] casc_post_edges [OF p2] E1 by simp_all
        let ?S = "insert changed (set aff)"
        from True obtain d where d: "d \<in> ?S" "d \<in> set (a_DependsOn a)"
          by (auto simp: list_ex_iff)
        with False id Some have dk: "(d, k) \<in> ?E" by (auto simp: dep_edges_def)
        then have kS: "k \<in> ?E\<^sup>+ `` ?S" using d by auto
        have up: "?E\<^sup>+ `` insert k (set aff) \<subseteq> ?E\<^sup>+ `` ?S"
          using trancl_Image_step [OF dk d(1)] by auto
        have s2: "set (snd ?st2) \<subseteq> set aff \<union> ?E\<^sup>+ `` ?S"
          using 2(3) [OF Some False True] id k1 E1 kS up by auto
        have "?E\<^sup>+ `` insert changed (set (snd ?st2)) \<subseteq> ?E\<^sup>+ `` ?S"
          using s2 by (auto intro: trancl_trans)
        moreover have "set (snd (cascade_deps ord now changed ks ?st2)) \<subseteq>
            set (snd ?st2) \<union> ?E\<^sup>+ `` insert changed (set (snd ?st2))"
          using 2(4) [OF Some False True] id k2 E2 by simp
        ultimately have "set (snd (cascade_deps ord now changed ks ?st2)) \<subseteq> set aff \<union> ?E\<^sup>+ `` ?S"
          using s2 by blast
        with Some False True id show ?thesis by simp
      next
        case F: False
        with 2(5) [OF Some False F] 2(6) Some False show ?thesis by simp
      qed
    qed
  qed
qed

lemma cascade_deps_complete:
  assumes "is_order ord"
  shows "keyed (fst st) \<Longrightarrow>
    (\<forall>y \<in> set (snd (cascade_deps ord now changed ks st)) - set (snd st).
       dep_edges (fst st) `` {y} \<subseteq> set (snd (cascade_deps ord now changed ks st)))
    \<and> (\<forall>k \<in> set ks. (changed, k) \<in> dep_edges (fst st) \<longrightarrow> k \<in> set (snd (cascade_deps ord now changed ks st)))"
  using assms
proof (induction ord now changed ks st rule: cascade_deps.induct)
  case (1 ord now changed items aff)
  then show ?case by simp
next
  case (2 ord now changed k ks items aff)
  let ?E = "dep_edges items"
  note ord = 2(7)
  show ?case
  proof (cases "map_of items k")
    case None
    then have "(changed, k) \<notin> ?E" by (simp add: dep_edges_def)
    with 2(1) [OF None] 2(6) ord None show ?thesis by simp
  next
    case (Some a)
    with "2.prems" have id: "a_ID a = k" by (simp add: keyed_lookup)
    show ?thesis
    proof (cases "a_ID a \<in> set aff \<or> a_ID a = changed")
      case True
      have "casc_post now (items, aff) (cascade_deps ord now changed ks (items, aff))"
        using 2(6) by (intro cascade_deps_post)
      then have "k \<in> set (snd (cascade_deps ord now changed ks (items, aff)))" if "k \<in> set aff"
        using casc_post_mono that by fastforce
      moreover have "(changed, k) \<notin> ?E" if "k = changed" using that by (simp add: dep_edges_def)
      ultimately show ?thesis using 2(2) [OF Some True] 2(6) ord Some True id by auto
    next
      case False
      show ?thesis
      proof (cases "list_ex (\<lambda>dep. dep = changed \<or> dep \<in> set aff) (a_DependsOn a)")
        case True
        let ?st1 = "(mset_at items k (invalidate now a), aff @ [k])"
        let ?st2 = "cascade_deps ord now k (ord (aff @ [k]) (keys items)) ?st1"
        let ?st3 = "cascade_deps ord now changed ks ?st2"
        have p1: "casc_post now (items, aff) ?st1"
          using casc_post_mark [of items k a aff now] 2(6) Some False id by simp
        have k1: "keyed (fst ?st1)" and E1: "dep_edges (fst ?st1) = ?E"
          using casc_post_keyed [OF p1] casc_post_edges [OF p1] by simp_all
        have p2: "casc_post now ?st1 ?st2" by (rule cascade_deps_post [OF k1])
        have k2: "keyed (fst ?st2)" and E2: "dep_edges (fst ?st2) = ?E"
          using casc_post_keyed [OF p2] casc_post_edges [OF p2] E1 by simp_all
        have m2: "set (snd ?st1) \<subseteq> set (snd ?st2)" by (rule casc_post_mono [OF p2])
        have m3: "set (snd ?st2) \<subseteq> set (snd ?st3)"
          by (rule casc_post_mono [OF cascade_deps_post [OF k2]])
        have ks: "x \<in> set (ord (aff @ [k]) (keys items))" if "(k, x) \<in> ?E" for x
          using ord dep_edges_dom [OF that] by (simp add: is_order_def)
        have "x \<in> set (snd ?st2)" if "(k, x) \<in> ?E" for x
          using 2(3) [OF Some False True] id k1 E1 ord ks [OF that] that by simp
        then have Ek: "?E `` {k} \<subseteq> set (snd ?st2)" by blast
        have new2: "?E `` {y} \<subseteq> set (snd ?st2)" if "y \<in> set (snd ?st2)" "y \<notin> set aff" "y \<noteq> k" for y
          using 2(3) [OF Some False True] id k1 E1 ord that by auto
        have new3: "?E `` {y} \<subseteq> set (snd ?st3)" if "y \<in> set (snd ?st3)" "y \<notin> set (snd ?st2)" for y
          using 2(4) [OF Some False True] id k2 E2 ord that by auto
        have A: "?E `` {y} \<subseteq> set (snd ?st3)" if "y \<in> set (snd ?st3)" "y \<notin> set aff" for y
          using new3 [of y] new2 [of y] Ek m3 that by (cases "y = k"; cases "y \<in> set (snd ?st2)") auto
        have B: "x \<in> set (snd ?st3)" if "x \<in> set (k # ks)" "(changed, x) \<in> ?E" for x
          using 2(4) [OF Some False True] id k2 E2 ord that m2 m3 by auto
        from A B Some False True id show ?thesis by simp
      next
        case F: False
        then have "(changed, k) \<notin> ?E" using Some by (auto simp: dep_edges_def list_ex_iff)
        with 2(5) [OF Some False F] 2(6) ord Some False F show ?thesis by simp
      qed
    qed
  qed
qed

lemma cascade_deps_closure:
  assumes k: "keyed items" and o: "is_order ord"
  shows "set (snd (cascade_deps ord now ch (ord [] (keys items)) (items, []))) = (dep_edges items)\<^sup>+ `` {ch}"
    (is "set (snd ?r) = _")
proof
  show "set (snd ?r) \<subseteq> (dep_edges items)\<^sup>+ `` {ch}"
    using cascade_deps_sound [of "(items, [])" ord now ch "ord [] (keys items)"] k by simp
  have ks: "x \<in> set (ord [] (keys items))" if "(ch, x) \<in> dep_edges items" for x
    using o dep_edges_dom [OF that] by (simp add: is_order_def)
  have c: "(\<forall>y \<in> set (snd ?r). dep_edges items `` {y} \<subseteq> set (snd ?r)) \<and>
      (\<forall>x. (ch, x) \<in> dep_edges items \<longrightarrow> x \<in> set (snd ?r))"
    using cascade_deps_complete [OF o, of "(items, [])" now ch "ord [] (keys items)"] k ks by simp
  have "x \<in> set (snd ?r)" if "(ch, x) \<in> (dep_edges items)\<^sup>+" for x
    using that c by (induction rule: trancl_induct) blast+
  then show "(dep_edges items)\<^sup>+ `` {ch} \<subseteq> set (snd ?r)" by blast
qed

subsection \<open>Overlaps and the whole operation\<close>

lemma overlap_loop_post: "keyed (fst st) \<Longrightarrow> casc_post now st (overlap_loop now ch changed ks st)"
proof (induction now ch changed ks st rule: overlap_loop.induct)
  case (1 now ch changed st)
  then show ?case by (simp add: casc_post_refl)
next
  case (2 now ch changed k ks items aff)
  show ?case
  proof (cases "map_of items k")
    case None
    with 2 show ?thesis by simp
  next
    case (Some a)
    then have id: "a_ID a = k" using 2(5) by (simp add: keyed_lookup)
    show ?thesis
    proof (cases "a_ID a = changed \<or> a_ID a \<in> set aff")
      case True
      with 2(2) [OF Some True] 2(5) Some show ?thesis by simp
    next
      case False
      show ?thesis
      proof (cases "shares_file ch a")
        case True
        let ?st1 = "(mset_at items k (invalidate now a), aff @ [a_ID a])"
        have p1: "casc_post now (items, aff) ?st1"
          using casc_post_mark [of items k a aff now] 2(5) Some False id by simp
        with 2(3) [OF Some False True] casc_post_keyed [OF p1]
        have "casc_post now ?st1 (overlap_loop now ch changed ks ?st1)" by simp
        from casc_post_trans [OF p1 this] Some False True show ?thesis by simp
      next
        case F: False
        with 2(4) [OF Some False F] 2(5) Some False show ?thesis by simp
      qed
    qed
  qed
qed

definition sharing :: "(string, 'ann artifact) gomap \<Rightarrow> 'ann artifact \<Rightarrow> string \<Rightarrow> bool" where
  "sharing m ch x = (case map_of m x of None \<Rightarrow> False | Some a \<Rightarrow> shares_file ch a)"

lemma sharing_invalidate:
  "map_of m k = Some a \<Longrightarrow> sharing (mset_at m k (invalidate now a)) ch x = sharing m ch x"
  by (simp add: sharing_def shares_file_def)

lemma overlap_loop_set:
  "keyed (fst st) \<Longrightarrow> set (snd (overlap_loop now ch changed ks st)) =
     set (snd st) \<union> {k \<in> set ks. k \<noteq> changed \<and> sharing (fst st) ch k}"
proof (induction now ch changed ks st rule: overlap_loop.induct)
  case (1 now ch changed st)
  then show ?case by simp
next
  case (2 now ch changed k ks items aff)
  show ?case
  proof (cases "map_of items k")
    case None
    then have "\<not> sharing items ch k" by (simp add: sharing_def)
    with 2(1) [OF None] 2(5) None show ?thesis by auto
  next
    case (Some a)
    then have id: "a_ID a = k" using 2(5) by (simp add: keyed_lookup)
    show ?thesis
    proof (cases "a_ID a = changed \<or> a_ID a \<in> set aff")
      case True
      with 2(2) [OF Some True] 2(5) Some id show ?thesis by auto
    next
      case False
      show ?thesis
      proof (cases "shares_file ch a")
        case True
        have "keyed (mset_at items k (invalidate now a))" using 2(5) id by (simp add: keyed_mset_at)
        with 2(3) [OF Some False True] Some
        have "set (snd (overlap_loop now ch changed ks (mset_at items k (invalidate now a), aff @ [a_ID a])))
            = insert k (set aff) \<union> {x \<in> set ks. x \<noteq> changed \<and> sharing items ch x}"
          by (simp add: sharing_invalidate id)
        moreover have "sharing items ch k" using Some True by (simp add: sharing_def)
        ultimately show ?thesis using Some False True id by auto
      next
        case F: False
        then have "\<not> sharing items ch k" using Some by (simp add: sharing_def)
        with 2(4) [OF Some False F] 2(5) Some False F id show ?thesis by auto
      qed
    qed
  qed
qed

definition file_overlaps :: "(string, 'ann artifact) gomap \<Rightarrow> string \<Rightarrow> string set" where
  "file_overlaps m i = {x. x \<noteq> i \<and> (\<exists>a b. map_of m i = Some a \<and> map_of m x = Some b \<and> set (a_Files a) \<inter> set (a_Files b) \<noteq> {})}"

lemma shares_file_iff: "shares_file a b \<longleftrightarrow> set (a_Files a) \<inter> set (a_Files b) \<noteq> {}"
  by (auto simp: shares_file_def list_ex_iff)

lemma file_overlaps_alt:
  "file_overlaps m i = {x. x \<noteq> i \<and> (\<exists>A B. map_option a_Files (map_of m i) = Some A \<and>
     map_option a_Files (map_of m x) = Some B \<and> set A \<inter> set B \<noteq> {})}"
  by (auto simp: file_overlaps_def)

lemma file_overlaps_inval:
  assumes "map_of m' = inval_at now S m"
  shows "file_overlaps m' i = file_overlaps m i"
proof -
  have "map_option a_Files (map_of m' x) = map_option a_Files (map_of m x)" for x
    by (simp add: assms inval_at_def option.map_comp o_def if_distrib cong: if_cong)
  then show ?thesis by (simp add: file_overlaps_alt)
qed

lemma cascade_overlaps_post: "keyed (fst st) \<Longrightarrow> casc_post now st (cascade_overlaps ord now changed st)"
  by (auto simp: cascade_overlaps_def casc_post_refl overlap_loop_post split: option.splits)

lemma cascade_overlaps_set:
  assumes "keyed (fst st)" "is_order ord"
  shows "set (snd (cascade_overlaps ord now changed st)) = set (snd st) \<union> file_overlaps (fst st) changed"
proof (cases "map_of (fst st) changed")
  case None
  then show ?thesis by (simp add: cascade_overlaps_def file_overlaps_def)
next
  case (Some ch)
  have d: "k \<in> set (keys (fst st))" if "map_of (fst st) k = Some b" for k b
    using that by (force dest: map_of_SomeD)
  show ?thesis
    using Some assms d overlap_loop_set [OF assms(1), of now ch changed "ord (snd st) (keys (fst st))"]
    by (auto simp: cascade_overlaps_def file_overlaps_def is_order_def sharing_def shares_file_iff split: option.splits)
qed

end
