(* ===== verification/Artifact_Lifecycle.thy ===== *)
theory Artifact_Lifecycle
  imports Artifact_Cascade
begin

text \<open>
  The artifact graph as a machine: the operations as a datatype, runs of operations, the
  invariants every run keeps, and the properties of adding, claiming, cascading and saving.
\<close>

subsection \<open>Operations and runs\<close>

datatype 'ann art_op =
    OpAdd "'ann artifact"
  | OpInject string "'ann artifact"
  | OpClaim string string
  | OpStart string
  | OpComplete string
  | OpUpdateStatus string status
  | OpFillDraft string string
  | OpAnnotate string 'ann
  | OpReorder string "string list"
  | OpCascade string

text \<open>
  One operation: the graph after it (a failing operation leaves the graph as it was), and the
  ID under which it stored a new artifact, if it did.
\<close>

definition keep_on_error :: "'ann graph \<Rightarrow> art_error + 'ann graph \<Rightarrow> 'ann graph \<times> string option" where
  "keep_on_error g r = (case r of Inl _ \<Rightarrow> (g, None) | Inr g' \<Rightarrow> (g', None))"

definition stored_on_success :: "'ann graph \<Rightarrow> art_error + (string \<times> 'ann graph) \<Rightarrow> 'ann graph \<times> string option" where
  "stored_on_success g r = (case r of Inl _ \<Rightarrow> (g, None) | Inr (i, g') \<Rightarrow> (g', Some i))"

fun apply_op ::
    "(string list \<Rightarrow> string list \<Rightarrow> string list) \<Rightarrow> gotime \<Rightarrow> 'ann graph \<Rightarrow> 'ann art_op \<Rightarrow> 'ann graph \<times> string option" where
  "apply_op ord now g (OpAdd a) = stored_on_success g (graph_add now g a)"
| "apply_op ord now g (OpInject p a) = stored_on_success g (graph_inject now g p a)"
| "apply_op ord now g (OpClaim i w) = keep_on_error g (graph_claim now g i w)"
| "apply_op ord now g (OpStart i) = keep_on_error g (graph_start now g i)"
| "apply_op ord now g (OpComplete i) = keep_on_error g (graph_complete now g i)"
| "apply_op ord now g (OpUpdateStatus i s) = keep_on_error g (graph_update_status now g i s)"
| "apply_op ord now g (OpFillDraft i c) = keep_on_error g (graph_fill_draft now g i c)"
| "apply_op ord now g (OpAnnotate i x) = keep_on_error g (graph_annotate now g i x)"
| "apply_op ord now g (OpReorder i ds) = keep_on_error g (graph_reorder now g i ds)"
| "apply_op ord now g (OpCascade i) = (fst (cascade ord now g i), None)"

fun run_ops ::
    "(string list \<Rightarrow> string list \<Rightarrow> string list) \<Rightarrow> 'ann graph \<Rightarrow> (gotime \<times> 'ann art_op) list \<Rightarrow> 'ann graph \<times> string option list" where
  "run_ops ord g [] = (g, [])"
| "run_ops ord g ((now, x) # xs) =
     (let (g1, s) = apply_op ord now g x; (g2, ss) = run_ops ord g1 xs in (g2, s # ss))"

definition wf_graph :: "'ann graph \<Rightarrow> bool" where
  "wf_graph g = (keyed (g_items g) \<and> wf_map (g_counters g))"

subsection \<open>One lemma for all operations on one artifact\<close>

lemma with_item_Inr:
  "with_item g i f = Inr g' \<longleftrightarrow>
     (\<exists>a a'. map_of (g_items g) i = Some a \<and> f a = Inr a' \<and> g' = g\<lparr>g_items := mset_at (g_items g) i a'\<rparr>)"
  by (auto simp: with_item_def split: option.splits sum.splits)

lemma set_section_simps [simp]:
  "a_ID (set_section a n t) = a_ID a" "a_Kind (set_section a n t) = a_Kind a"
  "a_Owner (set_section a n t) = a_Owner a" "a_Content (set_section a n t) = a_Content a"
  "a_Status (set_section a n t) = a_Status a" "a_Version (set_section a n t) = a_Version a"
  "section_text (set_section a n t) m = (if m = n then t else section_text a m)"
  by (simp_all add: set_section_def section_text_def mget_def split: option.splits)

text \<open>What an operation on one artifact may change in it.\<close>

definition item_change :: "'ann artifact \<Rightarrow> 'ann artifact \<Rightarrow> bool" where
  "item_change a a' = (a_ID a' = a_ID a \<and> a_Kind a' = a_Kind a \<and>
     (a_Owner a' = a_Owner a \<or> a_Owner a = []) \<and> a_Version a \<le> a_Version a')"

definition items_change :: "'ann graph \<Rightarrow> 'ann graph \<Rightarrow> bool" where
  "items_change g g' = (g_registry g' = g_registry g \<and> g_counters g' = g_counters g \<and>
     keys (g_items g') = keys (g_items g) \<and>
     (\<forall>k a. map_of (g_items g) k = Some a \<longrightarrow> (\<exists>a'. map_of (g_items g') k = Some a' \<and> item_change a a')))"

lemma items_change_refl [simp]: "items_change g g"
  by (simp add: items_change_def item_change_def)

lemma items_change_with_item:
  assumes "with_item g i f = Inr g'" "\<And>a a'. f a = Inr a' \<Longrightarrow> item_change a a'"
  shows "items_change g g'"
proof -
  obtain a a' where a: "map_of (g_items g) i = Some a" "f a = Inr a'"
      and g': "g' = g\<lparr>g_items := mset_at (g_items g) i a'\<rparr>"
    using assms(1) by (auto simp: with_item_Inr)
  have "item_change a a'" using assms(2) a by blast
  moreover have "i \<in> fst ` set (g_items g)" using a(1) by (rule map_of_Some_key)
  ultimately show ?thesis using a by (auto simp: g' items_change_def item_change_def)
qed

lemma items_change_ops:
  "graph_claim now g i w = Inr g' \<Longrightarrow> items_change g g'"
  "graph_start now g i = Inr g' \<Longrightarrow> items_change g g'"
  "graph_complete now g i = Inr g' \<Longrightarrow> items_change g g'"
  "graph_update_status now g i s = Inr g' \<Longrightarrow> items_change g g'"
  "graph_fill_draft now g i c = Inr g' \<Longrightarrow> items_change g g'"
  "graph_annotate now g i x = Inr g' \<Longrightarrow> items_change g g'"
  "graph_reorder now g i ds = Inr g' \<Longrightarrow> items_change g g'"
  unfolding graph_ops
  by (erule items_change_with_item, auto simp: item_change_def split: if_splits sum.splits)+

lemma keyed_items_change: "items_change g g' \<Longrightarrow> keyed (g_items g) \<Longrightarrow> keyed (g_items g')"
  unfolding keyed_def items_change_def item_change_def
  by (metis map_of_eq_None_keys not_Some_eq option.inject)

lemma wf_items_change: "items_change g g' \<Longrightarrow> wf_graph g \<Longrightarrow> wf_graph g'"
  using keyed_items_change by (auto simp: wf_graph_def items_change_def)

subsection \<open>Cascade\<close>

definition affected_set :: "'ann graph \<Rightarrow> string \<Rightarrow> string set" where
  "affected_set g i = (dep_edges (g_items g))\<^sup>+ `` {i} \<union> file_overlaps (g_items g) i"

lemma file_overlaps_mset_at:
  "map_of m k = Some a \<Longrightarrow> a_Files b = a_Files a \<Longrightarrow> file_overlaps (mset_at m k b) i = file_overlaps m i"
  by (auto simp: file_overlaps_def split: if_splits)

lemma cascade_result:
  fixes now :: gotime and g :: "'ann graph"
  assumes wf: "wf_graph g" and o: "is_order ord" and ch: "map_of (g_items g) i = Some a"
  defines "r \<equiv> cascade ord now g i"
  shows "set (snd r) = affected_set g i" (is ?set) and "sorted (snd r)" (is ?sorted)
    and "distinct (snd r)" (is ?dist) and "keys (g_items (fst r)) = keys (g_items g)" (is ?keys)
    and "map_of (g_items (fst r)) = inval_at now (affected_set g i)
       (mset_at (g_items g) i (a\<lparr>a_Version := a_Version a + 1, a_Updated := now\<rparr>))" (is ?items)
    and "g_registry (fst r) = g_registry g" "g_counters (fst r) = g_counters g"
proof -
  let ?a' = "a\<lparr>a_Version := a_Version a + 1, a_Updated := now\<rparr>"
  let ?m = "mset_at (g_items g) i ?a'"
  have k: "keyed (g_items g)" using wf by (simp add: wf_graph_def)
  have km: "keyed ?m" using k ch by (simp add: keyed_mset_at keyed_lookup)
  have E: "dep_edges ?m = dep_edges (g_items g)" using ch by (simp add: dep_edges_mset_at)
  have F: "file_overlaps ?m i = file_overlaps (g_items g) i" using ch by (simp add: file_overlaps_mset_at)
  let ?s1 = "cascade_deps ord now i (ord [] (keys ?m)) (?m, [])"
  let ?s2 = "cascade_overlaps ord now i ?s1"
  have p1: "casc_post now (?m, []) ?s1" using km by (intro cascade_deps_post) simp
  have p2: "casc_post now ?s1 ?s2" using casc_post_keyed [OF p1] by (rule cascade_overlaps_post)
  note p = casc_post_trans [OF p1 p2]
  have r: "r = (g\<lparr>g_items := fst ?s2\<rparr>, sort (snd ?s2))"
    by (simp add: r_def cascade_def ch Let_def)
  have f1: "file_overlaps (fst ?s1) i = file_overlaps ?m i"
    using p1 by (intro file_overlaps_inval) (simp add: casc_post_def)
  have s: "set (snd ?s2) = affected_set g i"
    using cascade_overlaps_set [OF casc_post_keyed [OF p1] o, of now i]
      cascade_deps_closure [OF km o, of now i] by (simp add: f1 F E affected_set_def)
  have km': "keys ?m = keys (g_items g)" using map_of_Some_key [OF ch] by simp
  have pd: "distinct (snd ?s2)" "keys (fst ?s2) = keys ?m"
      "map_of (fst ?s2) = inval_at now (set (snd ?s2)) ?m"
    using p by (simp_all only: casc_post_def fst_conv snd_conv list.set diff_empty distinct.simps) simp_all
  show ?set ?sorted ?dist ?keys ?items "g_registry (fst r) = g_registry g" "g_counters (fst r) = g_counters g"
    using s pd km' by (simp_all add: r)
qed

lemma cascade_missing: "map_of (g_items g) i = None \<Longrightarrow> cascade ord now g i = (g, [])"
  by (simp add: cascade_def)

lemma items_change_cascade:
  assumes "wf_graph g" "is_order ord"
  shows "items_change g (fst (cascade ord now g i))"
proof (cases "map_of (g_items g) i")
  case None
  then show ?thesis by (simp add: cascade_missing)
next
  case (Some a)
  note r = cascade_result [OF assms Some, of now]
  show ?thesis
    using Some by (auto simp: items_change_def item_change_def inval_at_def r(4,5,6,7))
qed

subsection \<open>Adding\<close>

lemma normalize_content_simps [simp]:
  "a_ID (normalize_content a) = a_ID a" "a_Kind (normalize_content a) = a_Kind a"
  "a_Owner (normalize_content a) = a_Owner a"
  by (simp_all add: normalize_content_def Let_def)

lemma section_text_content [simp]: "section_text (a\<lparr>a_Content := c\<rparr>) n = section_text a n"
  by (simp add: section_text_def)

lemma normalize_content_sync:
  "a_Content (normalize_content a) = [] \<longleftrightarrow> section_text (normalize_content a) ''content'' = []"
  "section_text a ''content'' = [] \<or> a_Content a = [] \<Longrightarrow>
     section_text (normalize_content a) ''content'' = a_Content (normalize_content a)"
  by (auto simp: normalize_content_def Let_def)

lemma add_defaults_simps [simp]:
  "a_ID (add_defaults now a) = a_ID a" "a_Kind (add_defaults now a) = a_Kind a"
  by (simp_all add: add_defaults_def)

lemma graph_add_cases:
  assumes "graph_add now g a = Inr (i, g')"
  obtains t where "registry_get (g_registry g) (a_Kind a) = Inr t"
    "template_check t (normalize_content a) = None"
    "a_ID a \<noteq> [] \<Longrightarrow> i = a_ID a \<and> g_counters g' = g_counters g"
    "a_ID a = [] \<Longrightarrow> i = sprintf_d (t_IDFormat t) (counter_value g (a_Kind a) + 1) \<and>
       g_counters g' = mset_at (g_counters g) (a_Kind a) (counter_value g (a_Kind a) + 1)"
    "g_items g' = mset_at (g_items g) i (add_defaults now ((normalize_content a)\<lparr>a_ID := i\<rparr>))"
    "g_registry g' = g_registry g"
proof -
  have c: "registry_check (g_registry g) (normalize_content a) = None"
    using assms by (auto simp: graph_add_def Let_def split: option.splits)
  then obtain t where t: "registry_get (g_registry g) (a_Kind a) = Inr t"
    using registry_check_None_get [OF c] by auto
  then have tc: "template_check t (normalize_content a) = None"
    using c by (simp add: registry_check_def)
  have m: "map_of (g_registry g) (a_Kind a) = Some t"
    using t by (simp add: registry_get_def split: option.splits)
  show ?thesis
  proof (cases "a_ID a = []")
    case True
    show ?thesis
      by (rule that [OF t tc]) (use assms c m True in \<open>auto simp: graph_add_def Let_def generate_id_def counter_value_def\<close>)
  next
    case False
    have e: "(normalize_content a)\<lparr>a_ID := a_ID a\<rparr> = normalize_content a"
      using normalize_content_simps(1) [of a] by (metis (full_types) artifact.surjective artifact.update_convs(1))
    show ?thesis
      by (rule that [OF t tc]) (use assms c False in \<open>auto simp: graph_add_def Let_def generate_id_def e\<close>)
  qed
qed

lemma wf_graph_add: "graph_add now g a = Inr (i, g') \<Longrightarrow> wf_graph g \<Longrightarrow> wf_graph g'"
  by (erule graph_add_cases) (cases "a_ID a = []"; auto simp: wf_graph_def keyed_mset_at)

lemma graph_inject_add:
  "graph_inject now g p c = Inr r \<Longrightarrow> graph_add now g (c\<lparr>a_DependsOn := a_DependsOn c @ [p]\<rparr>) = Inr r"
  by (auto simp: graph_inject_def split: option.splits)

subsection \<open>Every run keeps the graph well formed\<close>

lemma apply_op_cases:
  assumes "wf_graph g" "is_order ord"
  shows "snd (apply_op ord now g x) = None \<and> items_change g (fst (apply_op ord now g x))
    \<or> (\<exists>a i g'. apply_op ord now g x = (g', Some i) \<and> graph_add now g a = Inr (i, g') \<and>
        (\<forall>c. x = OpAdd c \<longrightarrow> a_ID a = a_ID c \<and> a_Kind a = a_Kind c) \<and>
        (\<forall>p c. x = OpInject p c \<longrightarrow> a_ID a = a_ID c \<and> a_Kind a = a_Kind c))"
  using assms
  by (cases x) (auto simp: keep_on_error_def stored_on_success_def items_change_cascade
      dest: items_change_ops graph_inject_add split: sum.splits, (fastforce dest: graph_inject_add)?)

lemma wf_apply_op: "wf_graph g \<Longrightarrow> is_order ord \<Longrightarrow> wf_graph (fst (apply_op ord now g x))"
  using apply_op_cases [of g ord now x] by (auto intro: wf_items_change wf_graph_add)

lemma wf_run_ops: "wf_graph g \<Longrightarrow> is_order ord \<Longrightarrow> wf_graph (fst (run_ops ord g xs))"
proof (induction ord g xs rule: run_ops.induct)
  case (2 ord g now x xs)
  then show ?case using wf_apply_op [of g ord now x] by (auto simp: Let_def split: prod.splits)
qed simp

lemma wf_new_graph: "wf_graph (new_graph t r)"
  by (simp add: wf_graph_def new_graph_def keyed_def)


subsection \<open>Ownership is permanent\<close>

lemma owner_apply_op:
  assumes wf: "wf_graph g" and o: "is_order ord" and a: "map_of (g_items g) i = Some a" "a_Owner a \<noteq> []"
    and n: "snd (apply_op ord now g x) \<noteq> Some i"
  shows "\<exists>a'. map_of (g_items (fst (apply_op ord now g x))) i = Some a' \<and> a_Owner a' = a_Owner a"
  using apply_op_cases [OF wf o, of now x]
proof
  assume "snd (apply_op ord now g x) = None \<and> items_change g (fst (apply_op ord now g x))"
  with a show ?thesis by (force simp: items_change_def item_change_def)
next
  assume "\<exists>b j g'. apply_op ord now g x = (g', Some j) \<and> graph_add now g b = Inr (j, g') \<and>
        (\<forall>c. x = OpAdd c \<longrightarrow> a_ID b = a_ID c \<and> a_Kind b = a_Kind c) \<and>
        (\<forall>p c. x = OpInject p c \<longrightarrow> a_ID b = a_ID c \<and> a_Kind b = a_Kind c)"
  then obtain b j g' where r: "apply_op ord now g x = (g', Some j)" "graph_add now g b = Inr (j, g')" by blast
  from r(2) have "\<exists>c. g_items g' = mset_at (g_items g) j c" by (rule graph_add_cases) blast
  with a n r(1) show ?thesis by auto
qed

lemma owner_run_ops:
  assumes "wf_graph g" "is_order ord" "map_of (g_items g) i = Some a" "a_Owner a \<noteq> []"
    "Some i \<notin> set (snd (run_ops ord g xs))"
  shows "\<exists>a'. map_of (g_items (fst (run_ops ord g xs))) i = Some a' \<and> a_Owner a' = a_Owner a"
  using assms
proof (induction ord g xs arbitrary: a rule: run_ops.induct)
  case (1 ord g)
  then show ?case by simp
next
  case (2 ord g now x xs)
  obtain g1 s where x: "apply_op ord now g x = (g1, s)" by force
  with 2(6) have "s \<noteq> Some i" by (auto simp: Let_def split: prod.splits)
  with owner_apply_op [OF 2(2,3,4,5), of now x] x
  obtain a1 where a1: "map_of (g_items g1) i = Some a1" "a_Owner a1 = a_Owner a" by auto
  have "wf_graph g1" using wf_apply_op [OF 2(2,3), of now x] x by simp
  with 2(1) [OF x [symmetric] refl, of a1] 2 a1 x show ?case
    by (auto simp: Let_def split: prod.splits)
qed

lemma claim_fails_when_owned:
  "map_of (g_items g) i = Some a \<Longrightarrow> a_Owner a \<noteq> [] \<Longrightarrow> graph_claim now g i w \<noteq> Inr g'"
  by (auto simp: graph_claim_def with_item_def)

subsection \<open>Generated identifiers\<close>

definition default_format :: "string \<Rightarrow> string" where
  "default_format kind = (case map_of (default_registry :: unit registry) kind of None \<Rightarrow> [] | Some t \<Rightarrow> t_IDFormat t)"

definition default_kinds :: "string set" where
  "default_kinds = {KindPlanSegment, KindTask, KindScratchPaper}"

definition gen_inv :: "'ann graph \<Rightarrow> bool" where
  "gen_inv g = (g_registry g = default_registry \<and> (\<forall>k. 0 \<le> counter_value g k) \<and>
     (\<forall>k a. map_of (g_items g) k = Some a \<longrightarrow> a_Kind a \<in> default_kinds \<and>
        (\<exists>n. 1 \<le> n \<and> n \<le> counter_value g (a_Kind a) \<and> k = sprintf_d (default_format (a_Kind a)) n)))"

lemmas kind_defs = KindPlanSegment_def KindTask_def KindScratchPaper_def

lemma default_formats:
  "default_format KindPlanSegment = ''seg-%d''" "default_format KindTask = ''T-%03d''"
  "default_format KindScratchPaper = ''SP-%03d''"
  by (simp_all add: default_format_def default_registry_def registry_register_def new_template_registry_def
      plan_segment_template_def task_template_def scratch_paper_template_def kind_defs)

lemma default_registry_map:
  "map_of default_registry k =
     (if k = KindScratchPaper then Some scratch_paper_template else if k = KindTask then Some task_template
      else if k = KindPlanSegment then Some plan_segment_template else None)"
  by (simp add: default_registry_def registry_register_def new_template_registry_def
      plan_segment_template_def task_template_def scratch_paper_template_def)

lemma default_registry_get:
  "registry_get default_registry k = Inr t \<Longrightarrow> k \<in> default_kinds \<and> t_IDFormat t = default_format k"
  by (auto simp: registry_get_def default_registry_map default_kinds_def default_formats
      plan_segment_template_def task_template_def scratch_paper_template_def split: if_splits)

lemma default_ids_inj:
  assumes "k \<in> default_kinds" "k' \<in> default_kinds" "0 \<le> n" "0 \<le> n'"
    "sprintf_d (default_format k) n = sprintf_d (default_format k') n'"
  shows "k = k' \<and> n = n'"
  using assms by (auto simp: default_kinds_def default_formats seg_id task_id scratch_id zero_pad_inj
      simp del: sprintf_d.simps)

lemma generated_fresh:
  assumes "gen_inv g" "graph_add now g a = Inr (i, g')" "a_ID a = []"
  shows "i \<notin> set (keys (g_items g))"
proof
  assume "i \<in> set (keys (g_items g))"
  then obtain b where b: "map_of (g_items g) i = Some b"
    by (metis map_of_eq_None_keys not_Some_eq)
  from assms(2) obtain t where t: "registry_get (g_registry g) (a_Kind a) = Inr t"
    "i = sprintf_d (t_IDFormat t) (counter_value g (a_Kind a) + 1)"
    by (rule graph_add_cases) (use assms(3) in blast)
  with assms(1) have a: "a_Kind a \<in> default_kinds"
      "i = sprintf_d (default_format (a_Kind a)) (counter_value g (a_Kind a) + 1)"
    using default_registry_get [of "a_Kind a" t] by (simp_all add: gen_inv_def)
  obtain n where n: "a_Kind b \<in> default_kinds" "1 \<le> n" "n \<le> counter_value g (a_Kind b)"
      "i = sprintf_d (default_format (a_Kind b)) n"
    using assms(1) b unfolding gen_inv_def by blast
  have "0 \<le> counter_value g (a_Kind a)" using assms(1) by (simp add: gen_inv_def)
  with default_ids_inj [OF a(1) n(1), of "counter_value g (a_Kind a) + 1" n] a(2) n(2,4)
  have "a_Kind a = a_Kind b" "counter_value g (a_Kind a) + 1 = n" by auto
  with n(3) show False by simp
qed

lemma gen_inv_add:
  assumes g: "gen_inv g" and ad: "graph_add now g a = Inr (i, g')" and e: "a_ID a = []"
  shows "gen_inv g'"
proof -
  let ?n = "counter_value g (a_Kind a) + 1"
  from ad obtain t where t: "registry_get (g_registry g) (a_Kind a) = Inr t"
    "i = sprintf_d (t_IDFormat t) ?n" "g_counters g' = mset_at (g_counters g) (a_Kind a) ?n"
    "g_items g' = mset_at (g_items g) i (add_defaults now ((normalize_content a)\<lparr>a_ID := i\<rparr>))"
    "g_registry g' = g_registry g"
    by (rule graph_add_cases) (use e in blast)
  have a: "a_Kind a \<in> default_kinds" "i = sprintf_d (default_format (a_Kind a)) ?n"
    using g t(1,2) default_registry_get [of "a_Kind a" t] by (simp_all add: gen_inv_def)
  have c: "counter_value g' k = (if k = a_Kind a then ?n else counter_value g k)" for k
    by (simp add: counter_value_def t(3))
  have pos: "0 \<le> counter_value g k" for k using g by (simp add: gen_inv_def)
  have old: "\<exists>n. 1 \<le> n \<and> n \<le> counter_value g' (a_Kind b) \<and> k = sprintf_d (default_format (a_Kind b)) n"
    if "map_of (g_items g) k = Some b" for k b
    using g that unfolding gen_inv_def c by (smt (verit, best))
  show ?thesis
    unfolding gen_inv_def
  proof (intro conjI allI impI)
    show "g_registry g' = default_registry" using g t by (simp add: gen_inv_def)
    show "0 \<le> counter_value g' k" for k using pos [of k] pos [of "a_Kind a"] by (simp add: c)
    fix k b assume kb: "map_of (g_items g') k = Some b"
    show "a_Kind b \<in> default_kinds"
      using kb g a by (auto simp: t(4) gen_inv_def split: if_splits)
    show "\<exists>n. 1 \<le> n \<and> n \<le> counter_value g' (a_Kind b) \<and> k = sprintf_d (default_format (a_Kind b)) n"
    proof (cases "k = i")
      case True
      with kb have "a_Kind b = a_Kind a" by (auto simp: t(4) split: if_splits)
      with True a(2) pos [of "a_Kind a"] show ?thesis by (intro exI [of _ ?n]) (simp add: c)
    next
      case False
      with kb have "map_of (g_items g) k = Some b" by (simp add: t(4))
      then show ?thesis by (rule old)
    qed
  qed
qed

lemma gen_inv_items_change: "items_change g g' \<Longrightarrow> gen_inv g \<Longrightarrow> gen_inv g'"
proof -
  assume ic: "items_change g g'" and g: "gen_inv g"
  have "\<exists>a. map_of (g_items g) k = Some a \<and> a_Kind a = a_Kind b" if "map_of (g_items g') k = Some b" for k b
    using ic that unfolding items_change_def item_change_def
    by (metis map_of_eq_None_keys not_Some_eq option.inject)
  with g ic show "gen_inv g'"
    unfolding gen_inv_def items_change_def counter_value_def by metis
qed

fun no_explicit_id :: "'ann art_op \<Rightarrow> bool" where
  "no_explicit_id (OpAdd a) = (a_ID a = [])"
| "no_explicit_id (OpInject p a) = (a_ID a = [])"
| "no_explicit_id _ = True"

lemma gen_inv_apply_op:
  assumes "gen_inv g" "wf_graph g" "is_order ord" "no_explicit_id x"
  shows "gen_inv (fst (apply_op ord now g x))"
  using apply_op_cases [OF assms(2,3), of now x]
proof
  assume "snd (apply_op ord now g x) = None \<and> items_change g (fst (apply_op ord now g x))"
  with assms(1) show ?thesis by (blast intro: gen_inv_items_change)
next
  assume "\<exists>b j g'. apply_op ord now g x = (g', Some j) \<and> graph_add now g b = Inr (j, g') \<and>
        (\<forall>c. x = OpAdd c \<longrightarrow> a_ID b = a_ID c \<and> a_Kind b = a_Kind c) \<and>
        (\<forall>p c. x = OpInject p c \<longrightarrow> a_ID b = a_ID c \<and> a_Kind b = a_Kind c)"
  then obtain b j g' where b: "apply_op ord now g x = (g', Some j)" "graph_add now g b = Inr (j, g')"
      "\<forall>c. x = OpAdd c \<longrightarrow> a_ID b = a_ID c" "\<forall>p c. x = OpInject p c \<longrightarrow> a_ID b = a_ID c" by blast
  have "a_ID b = []" using assms(4) b by (cases x) (auto simp: keep_on_error_def split: sum.splits)
  with gen_inv_add [OF assms(1) b(2)] b(1) show ?thesis by simp
qed

lemma gen_inv_run_ops:
  assumes "gen_inv g" "wf_graph g" "is_order ord" "list_all (\<lambda>(now, x). no_explicit_id x) xs"
  shows "gen_inv (fst (run_ops ord g xs))"
  using assms
proof (induction ord g xs rule: run_ops.induct)
  case (2 ord g now x xs)
  obtain g1 s where x: "apply_op ord now g x = (g1, s)" by force
  with gen_inv_apply_op [of g ord x now] wf_apply_op [of g ord now x] 2 have "gen_inv g1" "wf_graph g1" by auto
  with 2 x show ?case by (auto simp: Let_def split: prod.splits)
qed simp

lemma gen_inv_new: "gen_inv (new_graph t default_registry)"
  by (simp add: gen_inv_def new_graph_def counter_value_def mget_def)


subsection \<open>Saving and loading\<close>

lemma mset_at_fresh: "k \<notin> fst ` set m \<Longrightarrow> mset_at m k v = m @ [(k, v)]"
  by (induction m) auto

lemma foldl_mset_at_distinct:
  "distinct (map f xs @ keys m) \<Longrightarrow> foldl (\<lambda>m x. mset_at m (f x) (h x)) m xs = m @ map (\<lambda>x. (f x, h x)) xs"
proof (induction xs arbitrary: m)
  case (Cons x xs)
  then have "mset_at m (f x) (h x) = m @ [(f x, h x)]" by (intro mset_at_fresh) auto
  moreover have "distinct (map f xs @ keys (m @ [(f x, h x)]))" using Cons.prems by auto
  ultimately show ?case using Cons.IH by simp
qed simp

lemma keyed_pairs: "keyed m \<Longrightarrow> map (\<lambda>a. (a_ID a, a)) (vals m) = m"
  unfolding keyed_code by (induction m) auto

lemma load_marshal:
  assumes "wf_graph g0"
  shows "g_Title (load_state g (marshal_state g0)) = g_Title g0"
    "map_of (g_items (load_state g (marshal_state g0))) = map_of (g_items g0)"
    "g_counters (load_state g (marshal_state g0)) = g_counters g0"
    "g_registry (load_state g (marshal_state g0)) = g_registry g"
proof -
  let ?vs = "sort_key a_ID (vals (g_items g0))"
  have k: "keyed (g_items g0)" and c: "wf_map (g_counters g0)" using assms by (simp_all add: wf_graph_def)
  have p: "map (\<lambda>a. (a_ID a, a)) (vals (g_items g0)) = g_items g0" by (rule keyed_pairs [OF k])
  then have ids: "map a_ID (vals (g_items g0)) = keys (g_items g0)"
    by (metis (no_types, lifting) fst_conv list.map_comp map_cong comp_apply)
  have wf: "wf_map (g_items g0)" using k by (simp add: keyed_def)
  have "mset (map a_ID ?vs) = mset (keys (g_items g0))" by (simp only: ids [symmetric] mset_map mset_sort)
  then have d: "distinct (map a_ID ?vs)" using wf by (metis mset_eq_imp_distinct_iff)
  have e: "g_items (load_state g (marshal_state g0)) = map (\<lambda>a. (a_ID a, a)) ?vs"
    using foldl_mset_at_distinct [of a_ID ?vs "[]" "\<lambda>a. a"] d by (simp add: load_state_def marshal_state_def)
  have "set (map (\<lambda>a. (a_ID a, a)) ?vs) = set (map (\<lambda>a. (a_ID a, a)) (vals (g_items g0)))"
    by (simp only: set_map set_sort)
  also have "\<dots> = set (g_items g0)" by (simp only: p)
  finally have s: "set (map (\<lambda>a. (a_ID a, a)) ?vs) = set (g_items g0)" .
  then show "map_of (g_items (load_state g (marshal_state g0))) = map_of (g_items g0)"
    unfolding e using d wf s by (intro map_of_inject_set [THEN iffD2]) (simp_all only: map_map comp_def fst_conv)
  show "g_counters (load_state g (marshal_state g0)) = g_counters g0"
    using foldl_mset_at_distinct [of fst "g_counters g0" "[]" snd] c
    by (simp add: load_state_def marshal_state_def case_prod_unfold)
qed (simp_all add: load_state_def marshal_state_def)

end
