(* ===== verification/Artifact_Topo.thy ===== *)
theory Artifact_Topo
  imports Artifact_Graph
begin

text \<open>
  \<^verbatim>\<open>Graph.TopoSort\<close>: Kahn's algorithm over the item map, with the artifacts of dependency
  cycles appended at the end. Reading a missing item through its nil pointer panics, which
  is the value \<^const>\<open>None\<close>; the lemmas show it never happens.
\<close>

subsection \<open>The in-degrees and the dependents\<close>

type_synonym degrees = "(string, int) gomap \<times> (string, string list) gomap"

fun count_deps ::
    "(string, 'ann artifact) gomap \<Rightarrow> string \<Rightarrow> string list \<Rightarrow> degrees \<Rightarrow> degrees" where
  "count_deps items i [] st = st"
| "count_deps items i (d # ds) (deg, dn) =
     count_deps items i ds
       (if map_of items d = None then (deg, dn)
        else (mset_at deg i (mget 0 deg i + 1), mset_at dn d (mget [] dn d @ [i])))"

fun topo_degrees ::
    "(string, 'ann artifact) gomap \<Rightarrow> (string \<times> 'ann artifact) list \<Rightarrow> degrees \<Rightarrow> degrees" where
  "topo_degrees items [] st = st"
| "topo_degrees items ((i, a) # rest) (deg, dn) =
     topo_degrees items rest
       (count_deps items i (a_DependsOn a)
         ((if map_of deg i = None then mset_at deg i 0 else deg), dn))"

subsection \<open>The main loop\<close>

fun topo_release :: "string list \<Rightarrow> (string, int) gomap \<times> string list \<Rightarrow> (string, int) gomap \<times> string list" where
  "topo_release [] st = st"
| "topo_release (c # cs) (deg, q) =
     (let n = mget 0 deg c - 1
      in topo_release cs (mset_at deg c n, if n = 0 then q @ [c] else q))"

definition positive_degrees :: "(string, int) gomap \<Rightarrow> nat" where
  "positive_degrees deg = length (filter (((<) 0) \<circ> snd) deg)"

lemma positive_degrees_mset_at:
  "positive_degrees (mset_at deg c n) + (if 0 < mget 0 deg c then 1 else 0) =
     positive_degrees deg + (if 0 < n then 1 else 0)"
  using length_filter_mset_at [where P = "(<) (0::int)" and m = deg and k = c and v = n]
  by (auto simp: positive_degrees_def mget_def split: option.splits)

lemma topo_release_measure:
  "length (snd (topo_release cs st)) + positive_degrees (fst (topo_release cs st)) =
     length (snd st) + positive_degrees (fst st)"
proof (induction cs st rule: topo_release.induct)
  case (2 c cs deg q)
  let ?n = "mget 0 deg c - 1"
  show ?case
    using "2" [OF refl] positive_degrees_mset_at [where deg = deg and c = c and n = ?n] by (auto simp: Let_def split: if_splits)
qed simp

lemma topo_release_measure':
  "(deg', q') = topo_release cs (deg, q) \<Longrightarrow> length q' + positive_degrees deg' = length q + positive_degrees deg"
  using topo_release_measure [of cs "(deg, q)"] by (metis fst_conv snd_conv)

function (sequential) topo_loop ::
    "(string, 'ann artifact) gomap \<Rightarrow> (string, string list) gomap \<Rightarrow>
     (string, int) gomap \<Rightarrow> string list \<Rightarrow> 'ann artifact list \<Rightarrow> 'ann artifact list option" where
  "topo_loop items dn deg [] out = Some out"
| "topo_loop items dn deg (i # q) out =
     (case map_of items i of
        None \<Rightarrow> None
      | Some a \<Rightarrow>
          (case topo_release (mget [] dn i) (deg, q) of
             (deg', q') \<Rightarrow> topo_loop items dn deg' (sort q') (out @ [a])))"
  by pat_completeness auto
termination
  by (relation "measure (\<lambda>(items, dn, deg, q, out). length q + positive_degrees deg)")
    (auto dest!: topo_release_measure')

definition topo_remaining :: "(string, 'ann artifact) gomap \<Rightarrow> 'ann artifact list \<Rightarrow> string list" where
  "topo_remaining items out = sort (filter (\<lambda>i. i \<notin> a_ID ` set out) (keys items))"

definition topo_sort :: "'ann graph \<Rightarrow> 'ann artifact list option" where
  "topo_sort g =
     (let items = g_items g; (deg, dn) = topo_degrees items items ([], [])
      in case topo_loop items dn deg (sort (map fst (filter (\<lambda>(i, n). n = 0) deg))) [] of
        None \<Rightarrow> None
      | Some out \<Rightarrow>
          if length out < length items
          then (case those (map (map_of items) (topo_remaining items out)) of
                  None \<Rightarrow> None | Some rest \<Rightarrow> Some (out @ rest))
          else Some out)"

subsection \<open>What the first loop computes\<close>

text \<open>The dependencies of an item that are items, and how many are still open.\<close>

definition item_deps :: "(string, 'ann artifact) gomap \<Rightarrow> string \<Rightarrow> string list" where
  "item_deps items k = (case map_of items k of None \<Rightarrow> [] | Some a \<Rightarrow> filter (\<lambda>d. map_of items d \<noteq> None) (a_DependsOn a))"

definition open_deps :: "(string, 'ann artifact) gomap \<Rightarrow> string set \<Rightarrow> string \<Rightarrow> nat" where
  "open_deps items D k = length (filter (\<lambda>d. d \<notin> D) (item_deps items k))"

lemma count_deps_deg:
  "mget 0 (fst (count_deps items i ds st)) k =
     mget 0 (fst st) k + (if k = i then int (length (filter (\<lambda>d. map_of items d \<noteq> None) ds)) else 0)"
  by (induction items i ds st rule: count_deps.induct) auto

lemma count_deps_dn:
  "count (mset (mget [] (snd (count_deps items i ds st)) d)) k =
     count (mset (mget [] (snd st) d)) k + (if k = i \<and> map_of items d \<noteq> None then count (mset ds) d else 0)"
  by (induction items i ds st rule: count_deps.induct) (auto split: if_splits)

lemma count_deps_keys:
  "i \<in> set (keys (fst st)) \<Longrightarrow> set (keys (fst (count_deps items i ds st))) = set (keys (fst st))"
  by (induction items i ds st rule: count_deps.induct) auto

lemma count_deps_wf: "wf_map (fst st) \<Longrightarrow> wf_map (fst (count_deps items i ds st))"
  by (induction items i ds st rule: count_deps.induct) auto

lemma topo_degrees_spec:
  assumes "wf_map its" "\<And>k. k \<in> set (keys its) \<Longrightarrow> mget 0 (fst st) k = 0" "wf_map (fst st)"
  shows "wf_map (fst (topo_degrees items its st)) \<and>
    set (keys (fst (topo_degrees items its st))) = set (keys (fst st)) \<union> set (keys its) \<and>
    (\<forall>k. mget 0 (fst (topo_degrees items its st)) k = mget 0 (fst st) k +
      (case map_of its k of None \<Rightarrow> 0
       | Some a \<Rightarrow> int (length (filter (\<lambda>d. map_of items d \<noteq> None) (a_DependsOn a))))) \<and>
    (\<forall>d k. count (mset (mget [] (snd (topo_degrees items its st)) d)) k = count (mset (mget [] (snd st) d)) k +
      (case map_of its k of None \<Rightarrow> 0
       | Some a \<Rightarrow> (if map_of items d \<noteq> None then count (mset (a_DependsOn a)) d else 0)))"
  using assms
proof (induction items its st rule: topo_degrees.induct)
  case (1 items st)
  then show ?case by simp
next
  case (2 items i a rest deg dn)
  let ?deg0 = "if map_of deg i = None then mset_at deg i 0 else deg"
  define st' where "st' = count_deps items i (a_DependsOn a) (?deg0, dn)"
  have i: "i \<notin> fst ` set rest" "wf_map rest" using "2.prems"(1) by auto
  have z: "mget 0 ?deg0 k = mget 0 deg k" for k by (auto simp: mget_def)
  have ki: "set (keys ?deg0) = insert i (set (keys deg))"
    using map_of_Some_key [of deg i] by (auto split: if_splits)
  have k: "fst ` set (fst st') = insert i (fst ` set deg)"
    using count_deps_keys [of i "(?deg0, dn)" items "a_DependsOn a"] ki unfolding st'_def set_map fst_conv by blast
  have w: "wf_map (fst st')" unfolding st'_def using "2.prems"(3) by (intro count_deps_wf) auto
  have d: "mget 0 (fst st') k = mget 0 deg k + (if k = i then int (length (filter (\<lambda>d. map_of items d \<noteq> None) (a_DependsOn a))) else 0)" for k
    using z by (simp add: count_deps_deg st'_def)
  have c: "count (mset (mget [] (snd st') d)) k =
      count (mset (mget [] dn d)) k + (if k = i \<and> map_of items d \<noteq> None then count (mset (a_DependsOn a)) d else 0)" for d k
    by (simp add: count_deps_dn st'_def)
  have zz: "mget 0 (fst st') k = 0" if "k \<in> set (keys rest)" for k
    using that i(1) "2.prems"(2) [of k] by (auto simp: d)
  have m: "map_of rest i = None" using i by (simp add: map_of_eq_None_iff)
  have e: "topo_degrees items ((i, a) # rest) (deg, dn) = topo_degrees items rest st'" by (simp add: st'_def)
  show ?case
    unfolding e using "2.IH" [folded st'_def, OF i(2) zz w] m by (simp add: k d c)
qed

subsection \<open>The loop\<close>

lemma topo_release_deg: "mget 0 (fst (topo_release cs st)) k = mget 0 (fst st) k - int (count (mset cs) k)"
  by (induction cs st rule: topo_release.induct) (auto simp: Let_def)

lemma topo_release_queue:
  "(\<And>k. k \<in> set cs \<Longrightarrow> int (count (mset cs) k) \<le> mget 0 (fst st) k) \<Longrightarrow> distinct (snd st) \<Longrightarrow> set (snd st) \<inter> set cs = {} \<Longrightarrow>
   distinct (snd (topo_release cs st)) \<and>
   set (snd (topo_release cs st)) = set (snd st) \<union> {k \<in> set cs. mget 0 (fst st) k = int (count (mset cs) k)}"
proof (induction cs st rule: topo_release.induct)
  case (1 st)
  then show ?case by simp
next
  case (2 c cs deg q)
  let ?n = "mget 0 deg c - 1"
  let ?deg = "mset_at deg c ?n" and ?q = "if ?n = 0 then q @ [c] else q"
  have le: "int (count (mset cs) k) \<le> mget 0 ?deg k" if "k \<in> set cs" for k
    using "2.prems"(1) [of k] that by (auto split: if_splits)
  have c: "c \<notin> set cs" if "?n = 0"
    using "2.prems"(1) [of c] that by (auto simp flip: count_mset_0_iff)
  have c': "c \<in> set cs \<or> ?n \<noteq> 0 \<Longrightarrow> ?n \<noteq> 0" using c by blast
  have "distinct ?q" "set ?q \<inter> set cs = {}" using "2.prems"(2,3) c by auto
  from "2.IH" [OF refl, of ] le this have
    "distinct (snd (topo_release cs (?deg, ?q)))"
    "set (snd (topo_release cs (?deg, ?q))) = set ?q \<union> {k \<in> set cs. mget 0 ?deg k = int (count (mset cs) k)}"
    by simp_all
  moreover have "set ?q \<union> {k \<in> set cs. mget 0 ?deg k = int (count (mset cs) k)} =
      set q \<union> {k \<in> set (c # cs). mget 0 deg k = int (count (mset (c # cs)) k)}"
    using c "2.prems"(1) [of c] by (auto split: if_splits)
  ultimately show ?case by (simp add: Let_def)
qed

text \<open>An artifact comes after the items it depends on.\<close>

fun deps_first :: "(string, 'ann artifact) gomap \<Rightarrow> string set \<Rightarrow> 'ann artifact list \<Rightarrow> bool" where
  "deps_first items seen [] = True"
| "deps_first items seen (a # as) =
     (set (item_deps items (a_ID a)) \<subseteq> seen \<and> deps_first items (insert (a_ID a) seen) as)"

lemma deps_first_append:
  "deps_first items seen (xs @ ys) \<longleftrightarrow> deps_first items seen xs \<and> deps_first items (seen \<union> a_ID ` set xs) ys"
  by (induction items seen xs rule: deps_first.induct) auto

lemma deps_first_nth:
  "deps_first items seen xs \<Longrightarrow> i < length xs \<Longrightarrow> d \<in> set (item_deps items (a_ID (xs ! i))) \<Longrightarrow>
     d \<in> seen \<or> (\<exists>j<i. a_ID (xs ! j) = d)"
proof (induction items seen xs arbitrary: i rule: deps_first.induct)
  case (2 items seen a as)
  show ?case
  proof (cases i)
    case 0
    with 2 show ?thesis by auto
  next
    case (Suc n)
    with "2.IH" [of n] "2.prems" have "d \<in> insert (a_ID a) seen \<or> (\<exists>j<n. a_ID (as ! j) = d)" by simp
    with Suc show ?thesis by fastforce
  qed
qed simp

definition topo_inv ::
    "(string, 'ann artifact) gomap \<Rightarrow> (string, int) gomap \<Rightarrow> string list \<Rightarrow> 'ann artifact list \<Rightarrow> bool" where
  "topo_inv items deg q out = (let D = a_ID ` set out; dom_ids = set (keys items) in
     (\<forall>k \<in> dom_ids. mget 0 deg k = int (open_deps items D k)) \<and> distinct q \<and> set q \<inter> D = {} \<and>
     D \<union> set q = {k \<in> dom_ids. open_deps items D k = 0} \<and>
     (\<forall>a \<in> set out. map_of items (a_ID a) = Some a) \<and> distinct (map a_ID out) \<and> deps_first items {} out)"

lemma open_deps_insert:
  "d \<notin> D \<Longrightarrow> open_deps items D k = open_deps items (insert d D) k + count (mset (item_deps items k)) d"
proof -
  have "length (filter (\<lambda>x. x \<notin> D) xs) = length (filter (\<lambda>x. x \<notin> insert d D) xs) + count (mset xs) d"
    if "d \<notin> D" for xs :: "string list" using that by (induction xs) auto
  then show "d \<notin> D \<Longrightarrow> ?thesis" by (simp add: open_deps_def)
qed

lemma open_deps_0: "open_deps items D k = 0 \<longleftrightarrow> set (item_deps items k) \<subseteq> D"
  by (auto simp: open_deps_def filter_empty_conv)

lemma item_deps_dom: "d \<in> set (item_deps items k) \<Longrightarrow> d \<in> set (keys items) \<and> k \<in> set (keys items)"
  by (cases "map_of items k"; auto simp: item_deps_def dest!: map_of_Some_key)

lemma topo_inv_step:
  assumes inv: "topo_inv items deg (i # q) out" and k: "keyed items"
    and dn: "\<And>d k. count (mset (mget [] dn d)) k = count (mset (item_deps items k)) d"
  obtains a where "map_of items i = Some a"
    "topo_inv items (fst (topo_release (mget [] dn i) (deg, q)))
       (sort (snd (topo_release (mget [] dn i) (deg, q)))) (out @ [a])"
proof -
  let ?D = "a_ID ` set out" and ?cs = "mget [] dn i"
  let ?D' = "insert i ?D"
  let ?r = "topo_release ?cs (deg, q)"
  have deg: "mget 0 deg k = int (open_deps items ?D k)" if "k \<in> fst ` set items" for k
    using inv that by (auto simp: topo_inv_def Let_def)
  have dq: "distinct (i # q)" "set (i # q) \<inter> ?D = {}"
    and q: "?D \<union> set (i # q) = {k \<in> fst ` set items. open_deps items ?D k = 0}"
    and out: "\<And>a. a \<in> set out \<Longrightarrow> map_of items (a_ID a) = Some a" "distinct (map a_ID out)" "deps_first items {} out"
    using inv by (simp_all add: topo_inv_def Let_def)
  have i: "i \<in> fst ` set items" "open_deps items ?D i = 0" using q by auto
  then obtain a where a: "map_of items i = Some a" by (metis map_of_eq_None_keys not_Some_eq set_map)
  with k have id: "a_ID a = i" by (simp add: keyed_lookup)
  have od: "open_deps items ?D k = open_deps items ?D' k + count (mset ?cs) k" for k
    using dq(2) open_deps_insert [of i ?D items k] by (simp add: dn)
  have cs: "k \<in> fst ` set items" if "k \<in> set ?cs" for k
  proof -
    have "0 < count (mset ?cs) k" using that by simp
    then have "i \<in> set (item_deps items k)" by (simp add: dn)
    then show ?thesis using item_deps_dom by fastforce
  qed
  have le: "int (count (mset ?cs) k) \<le> mget 0 (fst (deg, q)) k" if "k \<in> set ?cs" for k
    using deg [OF cs [OF that]] od [of k] by simp
  have pos: "0 < open_deps items ?D k" if "k \<in> set ?cs" for k
  proof -
    have "0 < count (mset ?cs) k" using that by simp
    with od [of k] show ?thesis by linarith
  qed
  have zero: "x \<notin> set ?cs" if "x \<in> ?D \<union> set (i # q)" for x
    using that pos [of x] unfolding q by auto
  then have disj: "set (snd (deg, q)) \<inter> set ?cs = {}" by auto
  have qr: "distinct (snd ?r)" "set (snd ?r) = set q \<union> {k \<in> set ?cs. mget 0 deg k = int (count (mset ?cs) k)}"
    using topo_release_queue [OF le _ disj] dq by simp_all
  have q': "set (snd ?r) = set q \<union> {k \<in> set ?cs. open_deps items ?D' k = 0}"
  proof -
    have "mget 0 deg k = int (count (mset ?cs) k) \<longleftrightarrow> open_deps items ?D' k = 0" if "k \<in> set ?cs" for k
      using deg [OF cs [OF that]] od [of k] by simp
    then show ?thesis unfolding qr(2) by blast
  qed
  have mono: "open_deps items ?D' k = 0" if "open_deps items ?D k = 0" for k using od [of k] that by simp
  have new: "k \<in> set ?cs" if "open_deps items ?D k \<noteq> 0" "open_deps items ?D' k = 0" for k
  proof -
    have "0 < count (mset ?cs) k" using od [of k] that by simp
    then show ?thesis by simp
  qed
  have "?D' \<union> set (snd ?r) = {k \<in> fst ` set items. open_deps items ?D' k = 0}" (is "?L = ?R")
  proof (intro set_eqI iffI)
    fix k assume "k \<in> ?L"
    then consider "k \<in> ?D \<union> set (i # q)" | "k \<in> set ?cs" "open_deps items ?D' k = 0" unfolding q' by auto
    then show "k \<in> ?R"
    proof cases
      case 1
      then have "k \<in> fst ` set items" "open_deps items ?D k = 0" unfolding q by simp_all
      then show ?thesis using mono by simp
    next
      case 2
      then show ?thesis using cs by simp
    qed
  next
    fix k assume "k \<in> ?R"
    then have k: "k \<in> fst ` set items" "open_deps items ?D' k = 0" by simp_all
    show "k \<in> ?L"
    proof (cases "open_deps items ?D k = 0")
      case True
      with k(1) have "k \<in> ?D \<union> set (i # q)" unfolding q by simp
      then show ?thesis unfolding q' by auto
    next
      case False
      then have "k \<in> set ?cs" using new k(2) by blast
      with k(2) show ?thesis unfolding q' by simp
    qed
  qed
  moreover have "set (snd ?r) \<inter> ?D' = {}"
    unfolding q' using dq zero by auto
  moreover have "mget 0 (fst ?r) k = int (open_deps items ?D' k)" if "k \<in> fst ` set items" for k
    using deg [OF that] od [of k] by (simp add: topo_release_deg)
  moreover have "deps_first items {} (out @ [a])"
    using out(3) i(2) by (simp add: deps_first_append id open_deps_0)
  moreover have "distinct (map a_ID (out @ [a]))" using out(2) dq(2) by (simp add: id)
  ultimately have "topo_inv items (fst ?r) (sort (snd ?r)) (out @ [a])"
    using qr(1) out(1) a id by (simp add: topo_inv_def Let_def)
  with a show thesis by (rule that)
qed

lemma topo_loop_spec:
  assumes "topo_inv items deg q out" "keyed items"
    "\<And>d k. count (mset (mget [] dn d)) k = count (mset (item_deps items k)) d"
  shows "\<exists>deg' out'. topo_loop items dn deg q out = Some out' \<and> topo_inv items deg' [] out'"
  using assms
proof (induction items dn deg q out rule: topo_loop.induct)
  case (1 items dn deg out)
  then show ?case by auto
next
  case (2 items dn deg i q out)
  obtain a where a: "map_of items i = Some a"
    "topo_inv items (fst (topo_release (mget [] dn i) (deg, q)))
       (sort (snd (topo_release (mget [] dn i) (deg, q)))) (out @ [a])"
    using topo_inv_step [OF "2.prems"] by blast
  obtain deg' q' where r: "topo_release (mget [] dn i) (deg, q) = (deg', q')" by force
  from "2.IH" [OF a(1) r [symmetric]] a(2) "2.prems"(2,3) show ?case by (simp add: a(1) r)
qed

subsection \<open>The whole operation\<close>

definition item_edges :: "(string, 'ann artifact) gomap \<Rightarrow> (string \<times> string) set" where
  "item_edges items = {(d, k). d \<in> set (item_deps items k)}"

lemma those_lookup:
  "set ks \<subseteq> fst ` set m \<Longrightarrow> \<exists>vs. those (map (map_of m) ks) = Some vs \<and> map (map_of m) ks = map Some vs"
proof (induction ks)
  case (Cons k ks)
  then obtain v where "map_of m k = Some v" by (metis insert_subset list.simps(15) map_of_eq_None_iff not_Some_eq)
  with Cons show ?case by auto
qed simp

lemma topo_inv_init:
  assumes "keyed items" and d: "topo_degrees items items ([], []) = (deg, dn)"
  shows "topo_inv items deg (sort (map fst (filter (\<lambda>(i, n). n = 0) deg))) []"
    and "count (mset (mget [] dn x)) k = count (mset (item_deps items k)) x"
proof -
  have wf: "wf_map items" using assms by (simp add: keyed_def)
  have s: "wf_map deg" "fst ` set deg = fst ` set items"
    and g: "\<And>k. mget 0 deg k = (case map_of items k of None \<Rightarrow> 0
       | Some a \<Rightarrow> int (length (filter (\<lambda>d. map_of items d \<noteq> None) (a_DependsOn a))))"
    and c: "\<And>d k. count (mset (mget [] dn d)) k = (case map_of items k of None \<Rightarrow> 0
       | Some a \<Rightarrow> (if map_of items d \<noteq> None then count (mset (a_DependsOn a)) d else 0))"
    using topo_degrees_spec [OF wf, of "([], [])" items] d by (simp_all add: mget_def)
  have g': "mget 0 deg k = int (open_deps items {} k)" for k
    by (simp add: g open_deps_def item_deps_def split: option.splits)
  have "set (map fst (filter (\<lambda>(i, n). n = 0) deg)) = {k \<in> fst ` set items. open_deps items {} k = 0}"
  proof -
    have "k \<in> set (map fst (filter (\<lambda>(i, n). n = 0) deg)) \<longleftrightarrow> k \<in> fst ` set deg \<and> mget 0 deg k = 0" for k
    proof -
      have "k \<in> set (map fst (filter (\<lambda>(i, n). n = 0) deg)) \<longleftrightarrow> (k, 0) \<in> set deg" by force
      also have "\<dots> \<longleftrightarrow> map_of deg k = Some 0" using s(1) by (rule map_of_eq_Some_iff [symmetric])
      also have "\<dots> \<longleftrightarrow> k \<in> fst ` set deg \<and> mget 0 deg k = 0"
        by (cases "map_of deg k") (auto simp: mget_def map_of_eq_None_iff dest: map_of_Some_key)
      finally show ?thesis .
    qed
    then show ?thesis using g' s(2) by auto
  qed
  moreover have "distinct (map fst (filter (\<lambda>(i, n). n = 0) deg))" using s(1) by (rule distinct_map_filter)
  ultimately show "topo_inv items deg (sort (map fst (filter (\<lambda>(i, n). n = 0) deg))) []"
    using g' by (simp add: topo_inv_def)
  show "count (mset (mget [] dn x)) k = count (mset (item_deps items k)) x"
    by (auto simp: c item_deps_def split: option.splits)
qed

lemma topo_sort_result:
  assumes k: "keyed (g_items g)"
  obtains out rest where "topo_sort g = Some (out @ rest)" "mset (out @ rest) = mset (vals (g_items g))"
    "deps_first (g_items g) {} out"
    "\<And>a. a \<in> set rest \<Longrightarrow> \<exists>b \<in> set rest. (a_ID b, a_ID a) \<in> item_edges (g_items g)"
    "sorted (map a_ID rest)"
proof -
  let ?items = "g_items g"
  obtain deg dn where d: "topo_degrees ?items ?items ([], []) = (deg, dn)" by force
  obtain deg' out where l: "topo_loop ?items dn deg (sort (map fst (filter (\<lambda>(i, n). n = 0) deg))) [] = Some out"
      and inv: "topo_inv ?items deg' [] out"
    using topo_loop_spec [OF topo_inv_init(1) [OF k d] k topo_inv_init(2) [OF k d]] by blast
  let ?D = "a_ID ` set out"
  have D: "?D = {k \<in> fst ` set ?items. open_deps ?items ?D k = 0}"
    and o: "\<And>a. a \<in> set out \<Longrightarrow> map_of ?items (a_ID a) = Some a" "distinct (map a_ID out)" "deps_first ?items {} out"
    using inv by (simp_all add: topo_inv_def Let_def)
  let ?ks = "topo_remaining ?items out"
  have wf: "wf_map ?items" using k by (simp add: keyed_def)
  have ks: "set ?ks = fst ` set ?items - ?D" "distinct ?ks" "sorted ?ks"
    using wf by (auto simp: topo_remaining_def)
  obtain rest where r: "those (map (map_of ?items) ?ks) = Some rest" "map (map_of ?items) ?ks = map Some rest"
    using those_lookup [of ?ks ?items] ks by auto
  have rid: "map a_ID rest = ?ks"
  proof -
    have "map (\<lambda>x. a_ID (the x)) (map (map_of ?items) ?ks) = map (\<lambda>x. x) ?ks"
      unfolding map_map
    proof (rule map_cong [OF refl])
      fix x assume "x \<in> set ?ks"
      then obtain a where "map_of ?items x = Some a"
        using ks(1) by (metis DiffD1 map_of_eq_None_iff not_Some_eq)
      with k show "((\<lambda>x. a_ID (the x)) \<circ> map_of ?items) x = x" by (simp add: keyed_lookup)
    qed
    then show ?thesis by (simp add: r(2) comp_def)
  qed
  have lk: "map_of ?items (a_ID a) = Some a" if "a \<in> set (out @ rest)" for a
  proof (cases "a \<in> set out")
    case False
    then have "a \<in> set rest" using that by simp
    then have "Some a \<in> set (map (map_of ?items) ?ks)" by (simp add: r(2))
    then show ?thesis using k by (auto simp: keyed_lookup)
  qed (use o in blast)
  have dist: "distinct (map a_ID (out @ rest))" using o(2) ks(1,2) rid by (auto simp flip: set_map)
  have "set (map a_ID (out @ rest)) = fst ` set ?items" using ks(1) D rid by (auto simp flip: set_map)
  then have ids: "set (map a_ID (out @ rest)) = set (keys ?items)" by simp
  have "set (out @ rest) = set (vals ?items)"
  proof (intro set_eqI iffI)
    fix a assume "a \<in> set (out @ rest)"
    then show "a \<in> set (vals ?items)" using lk by (meson wf vals_lookup)
  next
    fix a assume "a \<in> set (vals ?items)"
    then obtain x where x: "map_of ?items x = Some a" using wf vals_lookup by metis
    then have "x \<in> set (map a_ID (out @ rest))" unfolding ids using map_of_Some_key by simp
    then obtain b where "b \<in> set (out @ rest)" "a_ID b = x" by auto
    with lk x show "a \<in> set (out @ rest)" by fastforce
  qed
  moreover have "distinct (vals ?items)"
  proof -
    have "map a_ID (vals ?items) = keys ?items" using k by (auto simp: keyed_code list_all_iff)
    then show ?thesis using wf by (metis distinct_map)
  qed
  ultimately have ms: "mset (out @ rest) = mset (vals ?items)"
    using dist by (metis distinct_map set_eq_iff_mset_eq_distinct)
  have "topo_sort g = Some (out @ rest)"
  proof (cases "length out < length ?items")
    case True
    then show ?thesis using d l r by (simp add: topo_sort_def)
  next
    case False
    have "length (out @ rest) = length ?items" using ms by (metis length_map mset_eq_length)
    then have "length rest = 0" using False unfolding length_append by linarith
    then have "rest = []" by simp
    with False d l show ?thesis by (simp add: topo_sort_def)
  qed
  moreover have "\<exists>b \<in> set rest. (a_ID b, a_ID a) \<in> item_edges ?items" if "a \<in> set rest" for a
  proof -
    have rs: "set (map a_ID rest) = fst ` set ?items - ?D" using ks(1) rid by simp
    have "a_ID a \<in> set (map a_ID rest)" using that by simp
    then have "a_ID a \<in> fst ` set ?items" "a_ID a \<notin> ?D" unfolding rs by blast+
    then have "\<not> set (item_deps ?items (a_ID a)) \<subseteq> ?D" using D open_deps_0 by blast
    then obtain x where x: "x \<in> set (item_deps ?items (a_ID a))" "x \<notin> ?D" by blast
    then have "x \<in> set (map a_ID rest)" unfolding rs using item_deps_dom [of x ?items] by simp
    with x show ?thesis by (auto simp: item_edges_def)
  qed
  ultimately show thesis using that [of out rest] ms o(3) rid ks(3) by simp
qed

text \<open>A finite set every element of which has a predecessor in it lies on a cycle.\<close>

lemma acyclic_no_tail:
  assumes "acyclic E" "\<And>a. a \<in> set rest \<Longrightarrow> \<exists>b \<in> set rest. (f b, f a) \<in> E"
  shows "rest = []"
proof (rule ccontr)
  assume ne: "rest \<noteq> []"
  let ?F = "E \<inter> (f ` set rest) \<times> (f ` set rest)"
  have "finite ?F" by simp
  moreover have "acyclic ?F" using assms(1) by (rule acyclic_subset) blast
  ultimately have wf: "wf ?F" by (rule finite_acyclic_wf)
  obtain x where "x \<in> f ` set rest" using ne by (cases rest) auto
  from wfE_min [OF wf this] obtain z where z: "z \<in> f ` set rest" "\<And>y. (y, z) \<in> ?F \<Longrightarrow> y \<notin> f ` set rest" by blast
  from z(1) obtain a where a: "a \<in> set rest" "z = f a" by blast
  from assms(2) [OF a(1)] obtain b where b: "b \<in> set rest" "(f b, f a) \<in> E" by blast
  then have "(f b, z) \<in> ?F" using a by blast
  from z(2) [OF this] b(1) show False by blast
qed

end
