(* ===== verification/Artifact_Properties.thy ===== *)
theory Artifact_Properties
  imports Artifact_Lifecycle Artifact_Topo
begin

text \<open>
  The properties of the artifact graph, each over the definitions of the code alone, with a
  sample graph on which their hypotheses hold.
\<close>

subsection \<open>A sample graph\<close>

definition sample_artifact :: "string \<Rightarrow> string list \<Rightarrow> string list \<Rightarrow> unit artifact" where
  "sample_artifact title files deps = \<lparr>a_ID = [], a_Kind = KindPlanSegment, a_Title = title,
     a_Status = StatusReady, a_Owner = [], a_Content = title, a_Sections = None, a_Files = files,
     a_DependsOn = deps, a_Children = [], a_Parent = [], a_Labels = [], a_Annotations = [],
     a_Version = 0, a_Priority = 0, a_Created = 0, a_Updated = 0\<rparr>"

definition sample_ops :: "(gotime \<times> unit art_op) list" where
  "sample_ops = [(1, OpAdd (sample_artifact ''a'' [''x.go''] [])),
     (2, OpAdd (sample_artifact ''b'' [''y.go''] [''seg-1''])),
     (3, OpAdd (sample_artifact ''c'' [''z.go''] [''seg-2''])),
     (4, OpAdd (sample_artifact ''d'' [''w.go'', ''x.go''] [])),
     (5, OpClaim ''seg-1'' ''executor'')]"

abbreviation go_order :: "string list \<Rightarrow> string list \<Rightarrow> string list" where
  "go_order \<equiv> \<lambda>aff ks. ks"

definition sample_graph :: "unit graph" where
  "sample_graph = fst (run_ops go_order (new_graph ''plan'' default_registry) sample_ops)"

lemma go_order [simp]: "is_order go_order"
  by (simp add: is_order_def)

lemma wf_sample: "wf_graph sample_graph"
  unfolding sample_graph_def by (intro wf_run_ops wf_new_graph go_order)

lemma sample_keys: "keys (g_items sample_graph) = [''seg-1'', ''seg-2'', ''seg-3'', ''seg-4'']"
  by code_simp

lemma sample_first: "map_option a_Owner (map_of (g_items sample_graph) ''seg-1'') = Some ''executor''"
  by code_simp

lemma sample_lookup: "\<exists>a. map_of (g_items sample_graph) ''seg-1'' = Some a \<and> a_Owner a = ''executor''"
  using sample_first by auto

subsection \<open>Cascade\<close>

text \<open>Property C2: cascading a change of an artifact of the graph returns, sorted and without
  repetition, exactly the artifacts that depend on it transitively and those that share a file
  with it, whatever order Go iterates its maps in.\<close>

theorem cascade_affected:
  assumes "wf_graph g" "is_order ord" "map_of (g_items g) i = Some a"
  shows "set (snd (cascade ord now g i)) =
      {x. (i, x) \<in> (dep_edges (g_items g))\<^sup>+} \<union> file_overlaps (g_items g) i \<and>
    sorted (snd (cascade ord now g i)) \<and> distinct (snd (cascade ord now g i))"
  using cascade_result(1,2,3) [OF assms, of now] by (auto simp: affected_set_def)

theorem cascade_affected_witness:
  "set (snd (cascade go_order 9 sample_graph ''seg-1'')) =
      {x. (''seg-1'', x) \<in> (dep_edges (g_items sample_graph))\<^sup>+} \<union> file_overlaps (g_items sample_graph) ''seg-1'' \<and>
   snd (cascade go_order 9 sample_graph ''seg-1'') = [''seg-2'', ''seg-3'', ''seg-4'']"
proof
  obtain a where "map_of (g_items sample_graph) ''seg-1'' = Some a" using sample_lookup by blast
  from cascade_affected [OF wf_sample go_order this, of 9]
  show "set (snd (cascade go_order 9 sample_graph ''seg-1'')) =
      {x. (''seg-1'', x) \<in> (dep_edges (g_items sample_graph))\<^sup>+} \<union> file_overlaps (g_items sample_graph) ''seg-1''"
    by blast
  show "snd (cascade go_order 9 sample_graph ''seg-1'') = [''seg-2'', ''seg-3'', ''seg-4'']" by code_simp
qed

text \<open>Property C3: what cascading does to the graph: the changed artifact gets the next version,
  the affected artifacts that were ready, claimed or in progress become invalidated (the changed
  one among them only when it depends on itself through a cycle), every other artifact is as it
  was, and so are the registry and the counters.\<close>

theorem cascade_effect:
  assumes "wf_graph g" "is_order ord" "map_of (g_items g) i = Some a"
  shows "(\<forall>x. map_of (g_items (fst (cascade ord now g i))) x =
      map_option (\<lambda>b. if x \<in> set (snd (cascade ord now g i)) then invalidate now b else b)
        (((map_of (g_items g))(i \<mapsto> a\<lparr>a_Version := a_Version a + 1, a_Updated := now\<rparr>)) x)) \<and>
    g_registry (fst (cascade ord now g i)) = g_registry g \<and>
    g_counters (fst (cascade ord now g i)) = g_counters g"
  using cascade_result [OF assms, of now] by (simp add: inval_at_def)

theorem cascade_effect_witness:
  "\<exists>a. map_of (g_items sample_graph) ''seg-1'' = Some a \<and>
     (\<forall>x. map_of (g_items (fst (cascade go_order 9 sample_graph ''seg-1''))) x =
        map_option (\<lambda>b. if x \<in> set (snd (cascade go_order 9 sample_graph ''seg-1'')) then invalidate 9 b else b)
          (((map_of (g_items sample_graph))(''seg-1'' \<mapsto> a\<lparr>a_Version := a_Version a + 1, a_Updated := 9\<rparr>)) x))"
proof -
  obtain a where a: "map_of (g_items sample_graph) ''seg-1'' = Some a" using sample_lookup by blast
  from cascade_effect [OF wf_sample go_order a, of 9] a show ?thesis by blast
qed

subsection \<open>Claims\<close>

text \<open>Property C4: an artifact that has an owner keeps it through every sequence of operations
  that does not store another artifact under its ID, cascades and status updates included; so no
  later claim of it succeeds.\<close>

theorem claim_exclusive:
  assumes "wf_graph g" "is_order ord" "map_of (g_items g) i = Some a" "a_Owner a \<noteq> []"
    "Some i \<notin> set (snd (run_ops ord g xs))"
  shows "(\<exists>a'. map_of (g_items (fst (run_ops ord g xs))) i = Some a' \<and> a_Owner a' = a_Owner a) \<and>
    \<not> (\<exists>g'. graph_claim now (fst (run_ops ord g xs)) i w = Inr g')"
  using owner_run_ops [OF assms] claim_fails_when_owned assms(4) by (metis (no_types, lifting))

theorem claim_exclusive_witness:
  "let xs = [(6, OpStart ''seg-1''), (7, OpCascade ''seg-2''), (8, OpUpdateStatus ''seg-1'' StatusReady)] in
     \<not> (\<exists>g'. graph_claim 9 (fst (run_ops go_order sample_graph xs)) ''seg-1'' ''other'' = Inr g')"
proof -
  let ?xs = "[(6, OpStart ''seg-1''), (7, OpCascade ''seg-2''), (8, OpUpdateStatus ''seg-1'' StatusReady)] :: (gotime \<times> unit art_op) list"
  obtain a where a: "map_of (g_items sample_graph) ''seg-1'' = Some a" "a_Owner a = ''executor''"
    using sample_lookup by blast
  have "Some ''seg-1'' \<notin> set (snd (run_ops go_order sample_graph ?xs))" by code_simp
  with claim_exclusive [OF wf_sample go_order a(1), of ?xs 9 "''other''"] a(2)
  show ?thesis by (simp add: Let_def)
qed

subsection \<open>Identifiers\<close>

text \<open>In a graph with the built-in templates to which every artifact was added
  without an ID of its own, adding one more never reuses the ID of a stored artifact.\<close>

lemma generated_ids_fresh:
  assumes "is_order ord" "list_all (\<lambda>(t, x). no_explicit_id x) xs"
    "graph_add now (fst (run_ops ord (new_graph title default_registry) xs)) a = Inr (i, g')" "a_ID a = []"
  shows "i \<notin> set (keys (g_items (fst (run_ops ord (new_graph title default_registry) xs))))"
  using generated_fresh [OF gen_inv_run_ops [OF gen_inv_new wf_new_graph assms(1,2)] assms(3,4)] .

theorem generated_ids_fresh_witness:
  "map_sum id fst (graph_add 9 sample_graph (sample_artifact ''e'' [] [])) = Inr ''seg-5'' \<and>
   ''seg-5'' \<notin> set (keys (g_items sample_graph))"
proof
  show r: "map_sum id fst (graph_add 9 sample_graph (sample_artifact ''e'' [] [])) = Inr ''seg-5''" by code_simp
  then obtain g' where "graph_add 9 sample_graph (sample_artifact ''e'' [] []) = Inr (''seg-5'', g')"
    by (cases "graph_add 9 sample_graph (sample_artifact ''e'' [] [])") auto
  with generated_ids_fresh [of go_order sample_ops 9 "''plan''" "sample_artifact ''e'' [] []"]
  show "''seg-5'' \<notin> set (keys (g_items sample_graph))"
    unfolding sample_graph_def by (simp add: sample_ops_def sample_artifact_def)
qed

text \<open>With explicit IDs this fails: adding an artifact under an existing ID replaces the stored
  artifact, owner and all, and reports success.\<close>

theorem add_replaces_existing:
  "\<exists>i g'. graph_add 9 sample_graph ((sample_artifact ''other'' [] [])\<lparr>a_ID := ''seg-1''\<rparr>) = Inr (i, g') \<and>
     map_option a_Owner (map_of (g_items sample_graph) ''seg-1'') = Some ''executor'' \<and>
     map_option a_Owner (map_of (g_items g') ''seg-1'') = Some []"
proof -
  let ?r = "graph_add 9 sample_graph ((sample_artifact ''other'' [] [])\<lparr>a_ID := ''seg-1''\<rparr>)"
  have "(case ?r of Inl _ \<Rightarrow> False | Inr (i, g') \<Rightarrow> map_option a_Owner (map_of (g_items g') ''seg-1'') = Some [])"
    by code_simp
  then show ?thesis using sample_first by (auto split: sum.splits)
qed

text \<open>Property C8: every sequence of operations on a new graph keeps the item map keyed by the
  artifacts' own IDs without duplicates, and one counter per kind.\<close>

theorem runs_well_formed:
  assumes "is_order ord"
  shows "wf_graph (fst (run_ops ord (new_graph title reg) xs))"
  by (rule wf_run_ops [OF wf_new_graph assms])

theorem runs_well_formed_witness: "wf_graph (fst (run_ops go_order (new_graph ''plan'' default_registry) sample_ops))"
  by (rule runs_well_formed [OF go_order])

subsection \<open>Topological order\<close>

text \<open>Property C9: the topological sort returns every artifact exactly once without a panic; when
  the dependencies among the artifacts have no cycle, each artifact comes after every artifact it
  depends on, and otherwise the artifacts on the cycles and behind them come last, sorted by ID,
  while the ones before them are still ordered.\<close>

theorem topo_sort_correct:
  assumes "keyed (g_items g)"
  shows "\<exists>out rest. topo_sort g = Some (out @ rest) \<and> mset (out @ rest) = mset (vals (g_items g)) \<and>
    (\<forall>n < length out. \<forall>d \<in> set (a_DependsOn (out ! n)). map_of (g_items g) d \<noteq> None \<longrightarrow>
       (\<exists>m < n. a_ID (out ! m) = d)) \<and>
    sorted (map a_ID rest) \<and> (acyclic (item_edges (g_items g)) \<longrightarrow> rest = [])"
proof -
  let ?items = "g_items g"
  obtain out rest where r: "topo_sort g = Some (out @ rest)" "mset (out @ rest) = mset (vals ?items)"
    "deps_first ?items {} out" "\<And>a. a \<in> set rest \<Longrightarrow> \<exists>b \<in> set rest. (a_ID b, a_ID a) \<in> item_edges ?items"
    "sorted (map a_ID rest)" by (rule topo_sort_result [OF assms]) blast
  have "\<exists>m < n. a_ID (out ! m) = d"
    if n: "n < length out" and d: "d \<in> set (a_DependsOn (out ! n))" "map_of ?items d \<noteq> None" for n d
  proof -
    have "out ! n \<in> set (vals ?items)" using n r(2) by (metis append_Nil2 in_set_conv_nth mset_append mset_eq_setD nth_mem set_append UnI1)
    then have "map_of ?items (a_ID (out ! n)) = Some (out ! n)"
      using assms keyed_lookup by (metis keyed_def vals_lookup)
    then have "d \<in> set (item_deps ?items (a_ID (out ! n)))" using d by (simp add: item_deps_def)
    with deps_first_nth [OF r(3) n] show ?thesis by blast
  qed
  moreover have "rest = []" if ac: "acyclic (item_edges ?items)"
  proof (rule acyclic_no_tail [OF ac r(4)])
  qed
  ultimately show ?thesis using r(1,2,5) by blast
qed

lemma sample_acyclic: "acyclic (item_edges (g_items sample_graph))"
proof (rule acyclicI_order [where f = "\<lambda>s. 100 - digit_val (last s)"])
  have all: "list_all (\<lambda>k. list_all (\<lambda>d. 100 - digit_val (last k) < 100 - digit_val (last d))
      (item_deps (g_items sample_graph) k)) (keys (g_items sample_graph))" by code_simp
  fix d k assume "(d, k) \<in> item_edges (g_items sample_graph)"
  then have "d \<in> set (item_deps (g_items sample_graph) k)" by (simp add: item_edges_def)
  with item_deps_dom [OF this] all show "100 - digit_val (last k) < 100 - digit_val (last d)"
    by (auto simp: list_all_iff)
qed

theorem topo_sort_correct_witness:
  "\<exists>out. topo_sort sample_graph = Some out \<and> mset out = mset (vals (g_items sample_graph)) \<and>
     (\<forall>n < length out. \<forall>d \<in> set (a_DependsOn (out ! n)). map_of (g_items sample_graph) d \<noteq> None \<longrightarrow>
       (\<exists>m < n. a_ID (out ! m) = d)) \<and>
     map_option (map a_ID) (topo_sort sample_graph) = Some [''seg-1'', ''seg-2'', ''seg-3'', ''seg-4'']"
proof -
  have k: "keyed (g_items sample_graph)" using wf_sample by (simp add: wf_graph_def)
  have "map_option (map a_ID) (topo_sort sample_graph) = Some [''seg-1'', ''seg-2'', ''seg-3'', ''seg-4'']" by code_simp
  with topo_sort_correct [OF k] sample_acyclic show ?thesis by (metis append_Nil2)
qed

subsection \<open>Saving\<close>

text \<open>Property C10: after a successful save, loading the file into any graph succeeds and restores
  the title, every artifact under its ID and every counter, when the decoder reads back what the
  encoder wrote for this graph.\<close>

theorem save_load_roundtrip:
  assumes "wf_graph g0" "enc (marshal_state g0) = Some raw" "dec raw = Some (marshal_state g0)"
    "graph_save enc os g0 path fs = (fs', None)"
  shows "\<exists>g'. graph_load dec fs' g path = Inr g' \<and> g_Title g' = g_Title g0 \<and>
    map_of (g_items g') = map_of (g_items g0) \<and> g_counters g' = g_counters g0 \<and> g_registry g' = g_registry g"
  using assms load_marshal [OF assms(1), of g]
  by (auto simp: graph_save_def graph_load_def Let_def split: if_splits option.splits write_outcome.splits)

theorem save_load_roundtrip_witness:
  "let enc = (\<lambda>_. Some ''state''); dec = (\<lambda>_. Some (marshal_state sample_graph));
       os = \<lparr>mkdir_ok = True, write_result = Written, rename_ok = True, remove_ok = True\<rparr>;
       fs' = fst (graph_save enc os sample_graph ''plan.json'' Map.empty)
   in \<exists>g'. graph_load dec fs' (new_graph [] default_registry) ''plan.json'' = Inr g' \<and>
        map_of (g_items g') = map_of (g_items sample_graph)"
  using save_load_roundtrip [OF wf_sample, where enc = "\<lambda>_. Some ''state''" and raw = "''state''"
      and dec = "\<lambda>_. Some (marshal_state sample_graph)" and path = "''plan.json''" and fs = Map.empty
      and os = "\<lparr>mkdir_ok = True, write_result = Written, rename_ok = True, remove_ok = True\<rparr>"
      and g = "new_graph [] default_registry"]
  by (auto simp: Let_def graph_save_def)

text \<open>Saving is atomic: whatever the operating system answers, the state file holds
  afterwards either the complete encoding of the graph, and then the save reports success, or what
  it held before; no file other than it and the temporary one is touched, and the temporary one is
  gone after a success.\<close>

lemma save_atomic:
  "case graph_save enc os g path fs of (fs', r) \<Rightarrow>
     fs' path = (if r = None then enc (marshal_state g) else fs path) \<and>
     fs'(path := fs path, path @ ''.tmp'' := fs (path @ ''.tmp'')) = fs \<and>
     (if r = None then fs' (path @ ''.tmp'') = None else True)"
  by (auto simp: graph_save_def Let_def split: option.splits write_outcome.splits)

end
