(* ===== verification/Bounded_Log.thy ===== *)
theory Bounded_Log
  imports Djinn_Prelude
begin

text \<open>
  Logs that keep the most recent entries: the circular buffer that
  \<^verbatim>\<open>telemetry/trace_ring.go\<close> and \<^verbatim>\<open>telemetry/log_ring.go\<close> each declare with the fields
  \<^verbatim>\<open>cap\<close>, \<^verbatim>\<open>pos\<close> and \<^verbatim>\<open>count\<close> over a fixed array, and the interface the
  locale \<open>bounded_log\<close> states for every log of the kind.

  Indexing the empty array of a ring of capacity 0 and dividing by that capacity panic, which
  is \<^const>\<open>None\<close>. The differences Go takes before reducing modulo the capacity are never
  negative on the states of the invariant, so natural numbers do.
\<close>

record 'e ring =
  r_events :: "'e list"
  r_cap :: nat
  r_pos :: nat
  r_count :: nat

definition new_ring :: "'e \<Rightarrow> nat \<Rightarrow> 'e ring" where
  "new_ring zero capacity = \<lparr>r_events = replicate capacity zero, r_cap = capacity, r_pos = 0, r_count = 0\<rparr>"

definition ring_put :: "'e \<Rightarrow> 'e ring \<Rightarrow> 'e ring option" where
  "ring_put e r =
     (if r_pos r < length (r_events r) \<and> r_cap r \<noteq> 0
      then Some (r\<lparr>r_events := (r_events r)[r_pos r := e], r_pos := (r_pos r + 1) mod r_cap r,
             r_count := (if r_count r < r_cap r then r_count r + 1 else r_count r)\<rparr>)
      else None)"

text \<open>The \<open>n\<close> entries before the write position, oldest first.\<close>

definition ring_slice :: "nat \<Rightarrow> 'e ring \<Rightarrow> 'e list" where
  "ring_slice n r =
     map (\<lambda>i. r_events r ! (((r_pos r + r_cap r - n) mod r_cap r + i) mod r_cap r)) [0..<n]"

definition ring_walk :: "'e ring \<Rightarrow> 'e list option" where
  "ring_walk r = (if r_cap r = 0 then None else Some (ring_slice (r_count r) r))"

definition ring_last :: "int \<Rightarrow> 'e ring \<Rightarrow> 'e list option" where
  "ring_last n0 r =
     (let n = (if n0 > int (r_count r) then int (r_count r) else n0)
      in if n = 0 then Some [] else if n < 0 then None else Some (ring_slice (nat n) r))"

text \<open>The reading of \<^verbatim>\<open>log_ring.go\<close>: by cases instead of modulo the capacity.\<close>

definition ring_snapshot :: "'e ring \<Rightarrow> 'e list" where
  "ring_snapshot r =
     (if r_count r < r_cap r then take (r_count r) (r_events r)
      else drop (r_pos r) (r_events r) @ take (r_pos r) (r_events r))"

definition ring_inv :: "'e ring \<Rightarrow> bool" where
  "ring_inv r = (0 < r_cap r \<and> length (r_events r) = r_cap r \<and> r_pos r < r_cap r \<and>
     r_count r \<le> r_cap r \<and> (r_count r < r_cap r \<longrightarrow> r_pos r = r_count r))"

lemma ring_inv_new: "0 < c \<Longrightarrow> ring_inv (new_ring z c)"
  by (simp add: ring_inv_def new_ring_def)

lemma length_ring_slice [simp]: "length (ring_slice n r) = n"
  by (simp add: ring_slice_def)

lemma ring_slice_nth:
  assumes "ring_inv r" "n \<le> r_cap r" "i < n"
  shows "ring_slice n r ! i =
    (if r_pos r + i < n then r_events r ! (r_pos r + r_cap r + i - n) else r_events r ! (r_pos r + i - n))"
proof -
  let ?c = "r_cap r" and ?p = "r_pos r"
  have p: "?p < ?c" using assms(1) by (simp add: ring_inv_def)
  have "((?p + ?c - n) mod ?c + i) mod ?c = (?p + ?c - n + i) mod ?c" by (simp add: mod_add_left_eq)
  also have "\<dots> = (if ?p + i < n then ?p + ?c + i - n else ?p + i - n)"
  proof (cases "?p + i < n")
    case True
    then show ?thesis using assms by simp
  next
    case False
    then have "?p + ?c - n + i = (?p + i - n) + ?c" using assms by simp
    then have "(?p + ?c - n + i) mod ?c = (?p + i - n) mod ?c" by simp
    also have "\<dots> = ?p + i - n" using False p assms by simp
    finally show ?thesis using False by simp
  qed
  finally show ?thesis using assms by (simp add: ring_slice_def split: if_splits)
qed

lemma ring_slice_snapshot:
  assumes inv: "ring_inv r" shows "ring_slice (r_count r) r = ring_snapshot r"
proof (rule nth_equalityI)
  show "length (ring_slice (r_count r) r) = length (ring_snapshot r)"
    using inv by (auto simp: ring_inv_def ring_snapshot_def)
  fix i assume "i < length (ring_slice (r_count r) r)"
  then have i: "i < r_count r" by simp
  show "ring_slice (r_count r) r ! i = ring_snapshot r ! i"
    using inv i by (subst ring_slice_nth) (auto simp: ring_inv_def ring_snapshot_def nth_append add.commute)
qed

lemma ring_slice_last:
  assumes inv: "ring_inv r" and n: "n \<le> r_count r"
  shows "ring_slice n r = last_n n (ring_snapshot r)"
proof -
  have c: "r_count r \<le> r_cap r" using inv by (simp add: ring_inv_def)
  have "ring_slice n r = last_n n (ring_slice (r_count r) r)"
  proof (rule nth_equalityI)
    fix i assume "i < length (ring_slice n r)"
    then have i: "i < n" by simp
    then have "last_n n (ring_slice (r_count r) r) ! i = ring_slice (r_count r) r ! (r_count r - n + i)"
      using n by (simp add: last_n_def)
    then show "ring_slice n r ! i = last_n n (ring_slice (r_count r) r) ! i"
      using inv i n c by (simp add: ring_slice_nth add.assoc)
  qed (use n in simp)
  with inv show ?thesis by (simp add: ring_slice_snapshot)
qed

lemma ring_put_Some:
  assumes "ring_inv r"
  shows "\<exists>r'. ring_put e r = Some r' \<and> ring_inv r' \<and> r_cap r' = r_cap r \<and>
    ring_snapshot r' = last_n (r_cap r) (ring_snapshot r @ [e])"
proof -
  let ?r' = "r\<lparr>r_events := (r_events r)[r_pos r := e], r_pos := (r_pos r + 1) mod r_cap r,
    r_count := (if r_count r < r_cap r then r_count r + 1 else r_count r)\<rparr>"
  have put: "ring_put e r = Some ?r'" using assms by (simp add: ring_put_def ring_inv_def)
  have inv': "ring_inv ?r'" using assms by (auto simp: ring_inv_def mod_Suc)
  have "ring_snapshot ?r' = last_n (r_cap r) (ring_snapshot r @ [e])"
  proof (cases "r_count r < r_cap r")
    case True
    then have p: "r_pos r = r_count r" using assms by (simp add: ring_inv_def)
    have t: "take (Suc (r_count r)) ((r_events r)[r_count r := e]) = take (r_count r) (r_events r) @ [e]"
      using True assms by (simp add: ring_inv_def take_Suc_conv_app_nth)
    show ?thesis
    proof (cases "Suc (r_count r) = r_cap r")
      case full: True
      have z: "(r_pos r + 1) mod r_cap r = 0" using full p by simp
      have "length (r_events r) = Suc (r_count r)" using assms full by (simp add: ring_inv_def)
      then have "ring_snapshot ?r' = take (Suc (r_count r)) ((r_events r)[r_count r := e])"
        unfolding ring_snapshot_def z using True full p by simp
      also note t
      also have "take (r_count r) (r_events r) @ [e] = last_n (r_cap r) (ring_snapshot r @ [e])"
        using assms True by (simp add: ring_snapshot_def ring_inv_def)
      finally show ?thesis .
    next
      case False
      with True have l: "Suc (r_count r) < r_cap r" by simp
      have "ring_snapshot ?r' = take (Suc (r_count r)) ((r_events r)[r_count r := e])"
        unfolding ring_snapshot_def using l p by simp
      also note t
      also have "take (r_count r) (r_events r) @ [e] = last_n (r_cap r) (ring_snapshot r @ [e])"
        using assms True l by (simp add: ring_snapshot_def ring_inv_def)
      finally show ?thesis .
    qed
  next
    case False
    then have c: "r_count r = r_cap r" "length (r_events r) = r_cap r" "r_pos r < r_cap r"
      using assms by (auto simp: ring_inv_def)
    let ?p = "r_pos r" and ?es = "r_events r"
    have "last_n (r_cap r) (ring_snapshot r @ [e]) = drop 1 (ring_snapshot r @ [e])"
      using c by (simp add: ring_snapshot_def last_n_def)
    also have "\<dots> = drop (Suc ?p) ?es @ take ?p ?es @ [e]"
      using c by (simp add: ring_snapshot_def)
    finally have "last_n (r_cap r) (ring_snapshot r @ [e]) = drop (Suc ?p) ?es @ take ?p ?es @ [e]" .
    moreover have "take (Suc ?p) (?es[?p := e]) = take ?p ?es @ [e]"
      using c by (simp add: take_Suc_conv_app_nth)
    moreover have "ring_snapshot ?r' = drop (Suc ?p) ?es @ take (Suc ?p) (?es[?p := e])"
    proof (cases "Suc ?p = r_cap r")
      case True
      then have z: "(?p + 1) mod r_cap r = 0" by simp
      show ?thesis unfolding ring_snapshot_def z using False c True by simp
    next
      case l: False
      then have z: "(?p + 1) mod r_cap r = Suc ?p" using c by simp
      show ?thesis unfolding ring_snapshot_def z using False c by simp
    qed
    ultimately show ?thesis by simp
  qed
  with put inv' show ?thesis by auto
qed

lemma ring_snapshot_new: "0 < c \<Longrightarrow> ring_snapshot (new_ring z c) = []"
  by (simp add: ring_snapshot_def new_ring_def)

lemma ring_walk_snapshot: "ring_inv r \<Longrightarrow> ring_walk r = Some (ring_snapshot r)"
  by (simp add: ring_walk_def ring_slice_snapshot ring_inv_def)

lemma length_ring_snapshot: "ring_inv r \<Longrightarrow> length (ring_snapshot r) = r_count r"
  by (auto simp: ring_inv_def ring_snapshot_def)

lemma ring_last_snapshot:
  assumes "ring_inv r" "0 \<le> n"
  shows "ring_last n r = Some (last_n (nat n) (ring_snapshot r))"
  using assms ring_slice_last [OF assms(1)] length_ring_snapshot [OF assms(1)]
  by (auto simp: ring_last_def Let_def)

subsection \<open>The interface\<close>

locale bounded_log =
  fixes push :: "'e \<Rightarrow> 's \<Rightarrow> 's option"
    and contents :: "'s \<Rightarrow> 'e list"
    and capacity :: "'s \<Rightarrow> nat"
    and inv :: "'s \<Rightarrow> bool"
  assumes push_total: "inv s \<Longrightarrow> \<exists>s'. push e s = Some s'"
    and push_inv: "inv s \<Longrightarrow> push e s = Some s' \<Longrightarrow> inv s'"
    and push_capacity: "inv s \<Longrightarrow> push e s = Some s' \<Longrightarrow> capacity s' = capacity s"
    and push_contents: "inv s \<Longrightarrow> push e s = Some s' \<Longrightarrow> contents s' = last_n (capacity s) (contents s @ [e])"
    and bounded: "inv s \<Longrightarrow> length (contents s) \<le> capacity s"
begin

primrec push_all :: "'e list \<Rightarrow> 's \<Rightarrow> 's option" where
  "push_all [] s = Some s"
| "push_all (e # es) s = (case push e s of None \<Rightarrow> None | Some s' \<Rightarrow> push_all es s')"

lemma push_all_result:
  "inv s \<Longrightarrow> \<exists>s'. push_all es s = Some s' \<and> inv s' \<and> capacity s' = capacity s \<and>
     contents s' = last_n (capacity s) (contents s @ es)"
proof (induction es arbitrary: s)
  case Nil
  then show ?case using bounded by simp
next
  case (Cons e es)
  then obtain s1 where s1: "push e s = Some s1" using push_total by blast
  with Cons.prems have i: "inv s1" "capacity s1 = capacity s"
      "contents s1 = last_n (capacity s) (contents s @ [e])"
    using push_inv push_capacity push_contents by blast+
  then show ?case using Cons.IH [of s1] s1 by (simp add: last_n_absorb)
qed

lemma push_all_bounded:
  "inv s \<Longrightarrow> push_all es s = Some s' \<Longrightarrow> length (contents s') = min (capacity s) (length (contents s) + length es)"
  using push_all_result [of s es] by auto

lemma newest_present: "inv s \<Longrightarrow> push e s = Some s' \<Longrightarrow> 0 < capacity s \<Longrightarrow> last (contents s') = e"
  using push_contents [of s e s'] by (cases "capacity s") (simp_all add: last_n_append1)

end

lemma ring_putD:
  assumes "ring_inv r" "ring_put e r = Some r'"
  shows "ring_inv r'" "r_cap r' = r_cap r" "ring_snapshot r' = last_n (r_cap r) (ring_snapshot r @ [e])"
  using ring_put_Some [OF assms(1), of e] assms(2) by auto

interpretation rl: bounded_log ring_put ring_snapshot r_cap ring_inv
proof unfold_locales
  fix r :: "'a ring" and e assume r: "ring_inv r"
  show "\<exists>r'. ring_put e r = Some r'" using ring_put_Some [OF r, of e] by blast
  show "length (ring_snapshot r) \<le> r_cap r" using r by (simp add: length_ring_snapshot ring_inv_def)
qed (rule ring_putD; assumption)+

end
