(* ===== verification/Telemetry_Trace.thy ===== *)
theory Telemetry_Trace
  imports Bounded_Log
begin

text \<open>
  The trace of \<^verbatim>\<open>telemetry\<close>: events (\<^verbatim>\<open>trace_event.go\<close>), the projection that keeps the
  latest ones (\<^verbatim>\<open>trace_ring.go\<close>), the component tracers with their round trips
  (\<^verbatim>\<open>trace_tracer.go\<close>) and the archive (\<^verbatim>\<open>trace_archive.go\<close>).

  The event log a projection may be bridged to is external: \<open>trace_append\<close> also returns the
  event it emits there. Event numbers come from an atomic counter and stay far below the range
  of a 64-bit integer.
\<close>

subsection \<open>Events\<close>

record trace_event =
  e_ID :: string
  e_ParentID :: string
  e_TraceID :: string
  e_Timestamp :: gotime
  e_Component :: string
  e_Action :: string
  e_Server :: string
  e_Tool :: string
  e_Detail :: string
  e_Latency :: int
  e_Error :: bool
  e_Metadata :: "(string, string) gomap option"

definition zero_event :: trace_event where
  "zero_event = \<lparr>e_ID = [], e_ParentID = [], e_TraceID = [], e_Timestamp = zero_time, e_Component = [],
     e_Action = [], e_Server = [], e_Tool = [], e_Detail = [], e_Latency = 0, e_Error = False, e_Metadata = None\<rparr>"

definition ActionDoneSuffix :: string where "ActionDoneSuffix = ''_done''"

record ring_stats =
  st_Capacity :: nat
  st_Count :: nat
  st_Oldest :: gotime
  st_Newest :: gotime

record log_event =
  l_ID :: string
  l_ParentID :: string
  l_TraceID :: string
  l_Timestamp :: gotime
  l_Source :: string
  l_Kind :: string
  l_Data :: trace_event

definition traceToEvent :: "trace_event \<Rightarrow> log_event" where
  "traceToEvent te = \<lparr>l_ID = e_ID te, l_ParentID = e_ParentID te, l_TraceID = e_TraceID te,
     l_Timestamp = e_Timestamp te, l_Source = e_Component te, l_Kind = e_Action te, l_Data = te\<rparr>"

subsection \<open>The projection\<close>

record projection =
  p_ring :: "trace_event ring"
  p_nextID :: int
  p_traceID :: string
  p_eventLog :: bool
  p_log :: bool

definition new_projection :: "nat \<Rightarrow> projection" where
  "new_projection capacity = \<lparr>p_ring = new_ring zero_event capacity, p_nextID = 0, p_traceID = [],
     p_eventLog = False, p_log = False\<rparr>"

definition with_logger :: "projection \<Rightarrow> projection" where "with_logger r = r\<lparr>p_log := True\<rparr>"
definition with_event_log :: "projection \<Rightarrow> projection" where "with_event_log r = r\<lparr>p_eventLog := True\<rparr>"

definition trace_summary :: "projection \<Rightarrow> string \<Rightarrow> (nat \<times> nat \<times> nat) option" where
  "trace_summary r tid = map_option (\<lambda>es.
     (let mine = filter (\<lambda>e. e_TraceID e = tid) es
      in (length mine,
          length (filter (\<lambda>e. e_Action e \<in> {''agent.cognitive.think'', ''agent.cognitive.decide'',
             ''agent.cognitive.retry'', ''agent.cognitive.give_up''}) mine),
          length (filter (\<lambda>e. e_Action e = ''tool.executed'') mine)))) (ring_walk (p_ring r))"

text \<open>Setting the trace ID; the summary is what is logged when a trace ends.\<close>

definition set_trace_id :: "projection \<Rightarrow> string \<Rightarrow> projection \<times> (nat \<times> nat \<times> nat) option option" where
  "set_trace_id r tid =
     (let r' = r\<lparr>p_traceID := tid\<rparr>
      in (r', if p_traceID r \<noteq> [] \<and> tid = [] \<and> p_log r then Some (trace_summary r' (p_traceID r)) else None))"

definition event_id :: "int \<Rightarrow> string" where
  "event_id n = ''trace-'' @ int_dec n"

definition stamp_event :: "gotime \<Rightarrow> projection \<Rightarrow> trace_event \<Rightarrow> trace_event" where
  "stamp_event now r e =
     e\<lparr>e_ID := event_id (p_nextID r + 1),
       e_Timestamp := (if e_Timestamp e = zero_time then now else e_Timestamp e),
       e_TraceID := (if e_TraceID e = [] \<and> p_traceID r \<noteq> [] then p_traceID r else e_TraceID e)\<rparr>"

definition trace_append :: "gotime \<Rightarrow> trace_event \<Rightarrow> projection \<Rightarrow> (projection \<times> string \<times> log_event option) option" where
  "trace_append now e0 r =
     (let e = stamp_event now r e0
      in case ring_put e (p_ring r) of
        None \<Rightarrow> None
      | Some ring \<Rightarrow> Some (r\<lparr>p_ring := ring, p_nextID := p_nextID r + 1\<rparr>, e_ID e,
          if p_eventLog r then Some (traceToEvent e) else None))"

definition trace_last :: "int \<Rightarrow> projection \<Rightarrow> trace_event list option" where
  "trace_last n r = ring_last n (p_ring r)"

definition trace_filter :: "(trace_event \<Rightarrow> bool) \<Rightarrow> projection \<Rightarrow> trace_event list option" where
  "trace_filter P r = map_option (filter P) (ring_walk (p_ring r))"

definition trace_since :: "gotime \<Rightarrow> projection \<Rightarrow> trace_event list option" where
  "trace_since t = trace_filter (\<lambda>e. e_Timestamp e > t)"

definition trace_by_parent :: "string \<Rightarrow> projection \<Rightarrow> trace_event list option" where
  "trace_by_parent pid = trace_filter (\<lambda>e. e_ParentID e = pid)"

definition trace_by_component :: "string \<Rightarrow> projection \<Rightarrow> trace_event list option" where
  "trace_by_component c = trace_filter (\<lambda>e. e_Component e = c)"

text \<open>The loop of \<^verbatim>\<open>Get\<close> keeps the last event with the ID.\<close>

definition trace_get :: "string \<Rightarrow> projection \<Rightarrow> trace_event option option" where
  "trace_get i r = map_option (\<lambda>es. foldl (\<lambda>found e. if e_ID e = i then Some e else found) None es)
     (ring_walk (p_ring r))"

definition trace_stats :: "projection \<Rightarrow> ring_stats option" where
  "trace_stats r = (let ring = p_ring r in
     if r_count ring = 0 then Some \<lparr>st_Capacity = r_cap ring, st_Count = 0, st_Oldest = zero_time, st_Newest = zero_time\<rparr>
     else let oldest = (r_pos ring + r_cap ring - r_count ring) mod r_cap ring;
              newest = (r_pos ring + r_cap ring - 1) mod r_cap ring
          in if oldest < length (r_events ring) \<and> newest < length (r_events ring)
             then Some \<lparr>st_Capacity = r_cap ring, st_Count = r_count ring,
               st_Oldest = e_Timestamp (r_events ring ! oldest), st_Newest = e_Timestamp (r_events ring ! newest)\<rparr>
             else None)"

subsection \<open>Tracers and round trips\<close>

record round_trip =
  rt_component :: string
  rt_id :: string
  rt_parent :: string
  rt_start :: gotime
  rt_action :: string
  rt_detail :: string
  rt_server :: string
  rt_tool :: string

definition tracer_event :: "string \<Rightarrow> string \<Rightarrow> string \<Rightarrow> trace_event" where
  "tracer_event cmp action detail = zero_event\<lparr>e_Component := cmp, e_Action := action, e_Detail := detail\<rparr>"

text \<open>A tracer is nil or a component; \<^verbatim>\<open>nil\<close> starts the round trip that does nothing.\<close>

definition tracer_begin ::
    "string option \<Rightarrow> gotime \<Rightarrow> string \<Rightarrow> string \<Rightarrow> projection \<Rightarrow> (projection \<times> round_trip option) option" where
  "tracer_begin t now action detail r =
     (case t of None \<Rightarrow> Some (r, None)
      | Some cmp \<Rightarrow> map_option (\<lambda>(r', i, _). (r', Some \<lparr>rt_component = cmp, rt_id = i, rt_parent = [], rt_start = now,
            rt_action = action, rt_detail = detail, rt_server = [], rt_tool = []\<rparr>))
          (trace_append now (tracer_event cmp action detail) r))"

definition tracer_point :: "string option \<Rightarrow> gotime \<Rightarrow> string \<Rightarrow> string \<Rightarrow> projection \<Rightarrow> projection option" where
  "tracer_point t now action detail r =
     (case t of None \<Rightarrow> Some r
      | Some cmp \<Rightarrow> map_option fst (trace_append now (tracer_event cmp action detail) r))"

definition rt_with_server :: "round_trip \<Rightarrow> string \<Rightarrow> round_trip" where "rt_with_server s srv = s\<lparr>rt_server := srv\<rparr>"
definition rt_with_tool :: "round_trip \<Rightarrow> string \<Rightarrow> round_trip" where "rt_with_tool s tool = s\<lparr>rt_tool := tool\<rparr>"

definition done_event :: "round_trip \<Rightarrow> gotime \<Rightarrow> bool \<Rightarrow> trace_event" where
  "done_event s now failed = zero_event\<lparr>e_ParentID := rt_id s, e_Component := rt_component s,
     e_Action := rt_action s @ ActionDoneSuffix, e_Server := rt_server s, e_Tool := rt_tool s,
     e_Detail := rt_detail s, e_Latency := now - rt_start s, e_Error := failed\<rparr>"

definition rt_end :: "round_trip option \<Rightarrow> gotime \<Rightarrow> projection \<Rightarrow> projection option" where
  "rt_end s now r = (case s of None \<Rightarrow> Some r | Some rt \<Rightarrow> map_option fst (trace_append now (done_event rt now False) r))"

definition rt_end_with_error :: "round_trip option \<Rightarrow> gotime \<Rightarrow> projection \<Rightarrow> projection option" where
  "rt_end_with_error s now r =
     (case s of None \<Rightarrow> Some r | Some rt \<Rightarrow> map_option fst (trace_append now (done_event rt now True) r))"

definition rt_child ::
    "round_trip option \<Rightarrow> gotime \<Rightarrow> string \<Rightarrow> string \<Rightarrow> projection \<Rightarrow> (projection \<times> round_trip option) option" where
  "rt_child s now action detail r =
     (case s of None \<Rightarrow> Some (r, None)
      | Some rt \<Rightarrow> map_option (\<lambda>(r', i, _). (r', Some \<lparr>rt_component = rt_component rt, rt_id = i, rt_parent = rt_id rt,
            rt_start = now, rt_action = action, rt_detail = detail, rt_server = [], rt_tool = []\<rparr>))
          (trace_append now ((tracer_event (rt_component rt) action detail)\<lparr>e_ParentID := rt_id rt\<rparr>) r))"

subsection \<open>Archives\<close>

record archive =
  ar_CreatedAt :: gotime
  ar_Filter :: string
  ar_Events :: "trace_event list"

definition export_archive :: "gotime \<Rightarrow> projection \<Rightarrow> string \<Rightarrow> archive option" where
  "export_archive now r cmp =
     map_option (\<lambda>es. \<lparr>ar_CreatedAt = now, ar_Filter = cmp, ar_Events = es\<rparr>)
       (if cmp \<noteq> [] then trace_by_component cmp r
        else case trace_stats r of None \<Rightarrow> None | Some st \<Rightarrow> trace_last (int (st_Count st)) r)"

fun import_events :: "gotime \<Rightarrow> trace_event list \<Rightarrow> projection \<Rightarrow> projection option" where
  "import_events now [] r = Some r"
| "import_events now (e # es) r =
     (case trace_append now e r of None \<Rightarrow> None | Some (r', _) \<Rightarrow> import_events now es r')"

subsection \<open>Keys, latencies and errors per server and tool\<close>

fun splitKey :: "string \<Rightarrow> string \<times> string" where
  "splitKey [] = ([], [])"
| "splitKey (c # s) = (if c = CHR ''|'' then ([], s) else case splitKey s of (a, b) \<Rightarrow> (c # a, b))"

definition event_key :: "trace_event \<Rightarrow> string" where
  "event_key e = e_Server e @ ''|'' @ e_Tool e"

definition group_by_key :: "(trace_event \<Rightarrow> bool) \<Rightarrow> trace_event list \<Rightarrow> (string, int list) gomap" where
  "group_by_key P es = foldl (\<lambda>m e. if P e then mset_at m (event_key e) (mget [] m (event_key e) @ [e_Latency e]) else m) [] es"

definition groupLatencies :: "trace_event list \<Rightarrow> (string, int list) gomap" where
  "groupLatencies = group_by_key (\<lambda>e. e_Latency e > 0)"

definition groupEventLatencies :: "trace_event list \<Rightarrow> (string, int list) gomap" where
  "groupEventLatencies = group_by_key (\<lambda>e. e_Latency e > 0 \<and> e_Server e \<noteq> [])"

text \<open>The insertion sort of \<^verbatim>\<open>percentileDuration\<close>: the inner loop moves one element left past
  the larger ones before it; the sorted prefix is kept reversed.\<close>

fun sift_left :: "int \<Rightarrow> int list \<Rightarrow> int list" where
  "sift_left x [] = [x]"
| "sift_left x (y # ys) = (if x < y then y # sift_left x ys else x # y # ys)"

definition insertion_sort :: "int list \<Rightarrow> int list" where
  "insertion_sort xs = rev (foldl (\<lambda>done x. sift_left x done) [] xs)"

definition percentileDuration :: "int list \<Rightarrow> nat \<Rightarrow> int" where
  "percentileDuration xs pct =
     (if xs = [] then 0
      else let sorted_xs = insertion_sort xs; i = (pct * length sorted_xs) div 100
           in sorted_xs ! (if i \<ge> length sorted_xs then length sorted_xs - 1 else i))"

definition error_key :: "trace_event \<Rightarrow> string" where
  "error_key e = e_Server e @ ''.'' @ e_Tool e"

definition errorSet :: "trace_event list \<Rightarrow> string set" where
  "errorSet es = error_key ` set (filter e_Error es)"

text \<open>The parts of \<^verbatim>\<open>Diff\<close> that are not floating point: counts, medians, and the new and
  the resolved errors.\<close>

record diff_result =
  d_CountBefore :: nat
  d_CountAfter :: nat
  d_Medians :: "(string \<times> string \<times> int \<times> int) list"
  d_NewErrors :: "trace_event list"
  d_ResolvedErrors :: "trace_event list"

definition diff_archives :: "archive \<Rightarrow> archive \<Rightarrow> diff_result" where
  "diff_archives before after =
     (let bl = groupLatencies (ar_Events before); al = groupLatencies (ar_Events after) in
      \<lparr>d_CountBefore = length (ar_Events before), d_CountAfter = length (ar_Events after),
       d_Medians = map (\<lambda>(k, bv). (fst (splitKey k), snd (splitKey k), percentileDuration bv 50,
           percentileDuration (mget [] al k) 50)) (filter (\<lambda>(k, bv). mget [] al k \<noteq> []) bl),
       d_NewErrors = filter (\<lambda>e. e_Error e \<and> error_key e \<notin> errorSet (ar_Events before)) (ar_Events after),
       d_ResolvedErrors = filter (\<lambda>e. e_Error e \<and> error_key e \<notin> errorSet (ar_Events after)) (ar_Events before)\<rparr>)"

subsection \<open>Sequences of operations and the unbounded log they stand for\<close>

datatype trace_op = TAppend gotime trace_event | TSetTrace string

fun trace_step :: "trace_op \<Rightarrow> projection \<Rightarrow> projection option" where
  "trace_step (TAppend now e) r = map_option fst (trace_append now e r)"
| "trace_step (TSetTrace tid) r = Some (fst (set_trace_id r tid))"

fun trace_run :: "trace_op list \<Rightarrow> projection \<Rightarrow> projection option" where
  "trace_run [] r = Some r"
| "trace_run (x # xs) r = (case trace_step x r of None \<Rightarrow> None | Some r' \<Rightarrow> trace_run xs r')"

text \<open>The specification: a log that keeps everything, and the current trace ID.\<close>

fun log_step :: "trace_op \<Rightarrow> string \<times> trace_event list \<Rightarrow> string \<times> trace_event list" where
  "log_step (TAppend now e) (tid, es) =
     (tid, es @ [e\<lparr>e_ID := event_id (int (length es) + 1),
        e_Timestamp := (if e_Timestamp e = zero_time then now else e_Timestamp e),
        e_TraceID := (if e_TraceID e = [] then tid else e_TraceID e)\<rparr>])"
| "log_step (TSetTrace tid') (tid, es) = (tid', es)"

definition full_log :: "trace_op list \<Rightarrow> trace_event list" where
  "full_log xs = snd (fold log_step xs ([], []))"

text \<open>The simulation relation between a projection and the log.\<close>

definition trace_rel :: "projection \<Rightarrow> string \<times> trace_event list \<Rightarrow> bool" where
  "trace_rel r st = (ring_inv (p_ring r) \<and> p_traceID r = fst st \<and> p_nextID r = int (length (snd st)) \<and>
     ring_snapshot (p_ring r) = last_n (r_cap (p_ring r)) (snd st))"

lemma trace_step_rel:
  assumes "trace_rel r st"
  shows "\<exists>r'. trace_step x r = Some r' \<and> r_cap (p_ring r') = r_cap (p_ring r) \<and> trace_rel r' (log_step x st)"
proof (cases x)
  case (TAppend now e)
  obtain tid es where st: "st = (tid, es)" by force
  have inv: "ring_inv (p_ring r)" using assms by (simp add: trace_rel_def)
  obtain ring where ring: "ring_put (stamp_event now r e) (p_ring r) = Some ring"
    using rl.push_total [OF inv] by blast
  have e: "stamp_event now r e = last (snd (log_step x st))"
    using assms by (simp add: st TAppend trace_rel_def stamp_event_def)
  show ?thesis
    using assms e ring_putD [OF inv ring] ring
    by (simp add: TAppend st trace_append_def Let_def trace_rel_def last_n_absorb)
next
  case (TSetTrace tid)
  with assms show ?thesis by (cases st) (simp add: trace_rel_def set_trace_id_def Let_def)
qed

lemma trace_run_rel:
  "trace_rel r st \<Longrightarrow> \<exists>r'. trace_run xs r = Some r' \<and> r_cap (p_ring r') = r_cap (p_ring r) \<and> trace_rel r' (fold log_step xs st)"
proof (induction xs arbitrary: r st)
  case (Cons x xs)
  from trace_step_rel [OF Cons.prems, of x] Cons.IH show ?case by fastforce
qed simp

lemma trace_rel_new: "0 < c \<Longrightarrow> trace_rel (new_projection c) ([], [])"
  by (simp add: trace_rel_def new_projection_def ring_inv_new ring_snapshot_new)

lemma trace_run_new:
  assumes "0 < c"
  obtains r where "trace_run xs (new_projection c) = Some r" "ring_inv (p_ring r)"
    "ring_snapshot (p_ring r) = last_n c (full_log xs)"
  using trace_run_rel [OF trace_rel_new [OF assms], of xs]
  by (auto simp: trace_rel_def full_log_def new_projection_def new_ring_def)

text \<open>IDs count from 1, so no two events of the log share one.\<close>

lemma log_step_ids:
  "map e_ID (snd st) = map (\<lambda>i. event_id (int i + 1)) [0..<length (snd st)] \<Longrightarrow>
   map e_ID (snd (log_step x st)) = map (\<lambda>i. event_id (int i + 1)) [0..<length (snd (log_step x st))]"
  by (cases x; cases st) auto

lemma full_log_ids: "map e_ID (full_log xs) = map (\<lambda>i. event_id (int i + 1)) [0..<length (full_log xs)]"
proof -
  have "map e_ID (snd (fold log_step xs st)) = map (\<lambda>i. event_id (int i + 1)) [0..<length (snd (fold log_step xs st))]"
    if "map e_ID (snd st) = map (\<lambda>i. event_id (int i + 1)) [0..<length (snd st)]" for st
    using that by (induction xs arbitrary: st) (simp_all add: log_step_ids)
  then show ?thesis by (simp add: full_log_def)
qed

lemma event_id_inj: "event_id i = event_id j \<longleftrightarrow> i = j"
  by (simp add: event_id_def)

lemma full_log_distinct: "distinct (map e_ID (full_log xs))"
  by (simp add: full_log_ids distinct_map inj_on_def event_id_inj)

lemma foldl_find_last:
  "distinct (map f es) \<Longrightarrow> foldl (\<lambda>found e. if f e = i then Some e else found) None es = find (\<lambda>e. f e = i) es"
proof -
  have none: "i \<notin> f ` set es \<Longrightarrow> foldl (\<lambda>found e. if f e = i then Some e else found) z es = z" for z es
    by (induction es arbitrary: z) auto
  show "distinct (map f es) \<Longrightarrow> ?thesis"
  proof (induction es)
    case (Cons a es)
    show ?case
    proof (cases "f a = i")
      case True
      with Cons.prems have "i \<notin> f ` set es" by auto
      with True show ?thesis by (simp add: none)
    qed (use Cons in simp)
  qed simp
qed

lemma distinct_last_n: "distinct (map f xs) \<Longrightarrow> distinct (map f (last_n n xs))"
  by (simp add: last_n_def distinct_map inj_on_def) (meson in_set_dropD)

lemma trace_get_log:
  assumes "ring_inv (p_ring r)" "ring_snapshot (p_ring r) = last_n c (full_log xs)"
  shows "trace_get i r = Some (find (\<lambda>e. e_ID e = i) (last_n c (full_log xs)))"
  using assms distinct_last_n [OF full_log_distinct, of c xs]
  by (simp add: trace_get_def ring_walk_snapshot foldl_find_last)

lemma trace_stats_log:
  assumes "ring_inv (p_ring r)"
  shows "\<exists>st. trace_stats r = Some st \<and> st_Count st = length (ring_snapshot (p_ring r))"
proof -
  let ?g = "p_ring r"
  have "0 < r_cap ?g" "length (r_events ?g) = r_cap ?g" using assms by (simp_all add: ring_inv_def)
  then have "\<And>x. x mod r_cap ?g < length (r_events ?g)" by simp
  then show ?thesis using length_ring_snapshot [OF assms] by (simp add: trace_stats_def Let_def)
qed

lemma export_log:
  assumes "ring_inv (p_ring r)"
  shows "export_archive now r [] = Some \<lparr>ar_CreatedAt = now, ar_Filter = [], ar_Events = ring_snapshot (p_ring r)\<rparr>"
proof -
  obtain st where st: "trace_stats r = Some st" "st_Count st = length (ring_snapshot (p_ring r))"
    using trace_stats_log [OF assms] by blast
  then show ?thesis
    using ring_last_snapshot [OF assms, of "int (st_Count st)"]
    by (simp add: export_archive_def trace_last_def)
qed

subsection \<open>The percentile\<close>

lemma mset_sift_left: "mset (sift_left x ys) = add_mset x (mset ys)"
  by (induction x ys rule: sift_left.induct) auto

lemma set_sift_left: "set (sift_left x ys) = insert x (set ys)"
  by (induction x ys rule: sift_left.induct) auto

lemma sift_left_sorted: "sorted (rev ys) \<Longrightarrow> sorted (rev (sift_left x ys)) \<and> mset (sift_left x ys) = add_mset x (mset ys)"
  by (induction x ys rule: sift_left.induct) (auto simp: sorted_append mset_sift_left set_sift_left)

lemma insertion_sort_sort: "insertion_sort xs = sort xs"
proof -
  have "sorted (rev (foldl (\<lambda>done x. sift_left x done) ys xs)) \<and> mset (foldl (\<lambda>done x. sift_left x done) ys xs) = mset ys + mset xs"
    if "sorted (rev ys)" for ys
    using that
  proof (induction xs arbitrary: ys)
    case (Cons x xs)
    from sift_left_sorted [OF Cons.prems, of x] Cons.IH [of "sift_left x ys"] show ?case by simp
  qed simp
  from this [of "[]"] show ?thesis
    unfolding insertion_sort_def by (intro properties_for_sort [symmetric]) simp_all
qed

lemma percentileDuration_sort:
  "xs \<noteq> [] \<Longrightarrow> percentileDuration xs pct = sort xs ! min ((pct * length xs) div 100) (length xs - 1)"
  by (auto simp: percentileDuration_def insertion_sort_sort Let_def min_def)

lemma splitKey_key: "CHR ''|'' \<notin> set a \<Longrightarrow> splitKey (a @ ''|'' @ b) = (a, b)"
  by (induction a) auto

end
