(* ===== verification/Go_Int64.thy ===== *)
theory Go_Int64
  imports Djinn_Prelude "HOL-Library.Word" "HOL-Library.Signed_Division"
begin

text \<open>
  Go's \<^verbatim>\<open>int\<close>, \<^verbatim>\<open>int64\<close> and \<^verbatim>\<open>time.Duration\<close> on a 64-bit machine: \<^typ>\<open>64 word\<close> read with
  \<^const>\<open>sint\<close>. Used where wrap-around can happen; elsewhere the development uses
  \<^typ>\<open>int\<close> and says why.
\<close>

named_theorems int64 "reading 64-bit words as signed integers"

type_synonym int64 = "64 word"

lemma sint64_of_int_mod: "sint (of_int k :: int64) = (k + 2 ^ 63) mod 2 ^ 64 - 2 ^ 63"
  using int_word_sint [where 'a = 64, of k] by simp

lemma sint64_of_int [int64]:
  assumes "- (2 ^ 63) \<le> k" "k < 2 ^ 63"
  shows "sint (of_int k :: int64) = k"
proof -
  have "(k + 2 ^ 63) mod 2 ^ 64 = k + 2 ^ 63" using assms by (intro mod_pos_pos_trivial) simp_all
  then show ?thesis unfolding sint64_of_int_mod by simp
qed

lemma sint64 [int64]: "sint (n :: int64) = (if uint n < 2 ^ 63 then uint n else uint n - 2 ^ 64)"
proof -
  have b: "0 \<le> uint n" "uint n < 2 ^ 64" using uint_lt2p [of n] by simp_all
  have s: "sint n = (uint n + 2 ^ 63) mod 2 ^ 64 - 2 ^ 63" using sint64_of_int_mod [of "uint n"] by simp
  show ?thesis
  proof (cases "uint n < 2 ^ 63")
    case True
    then have "(uint n + 2 ^ 63) mod 2 ^ 64 = uint n + 2 ^ 63" using b by (intro mod_pos_pos_trivial) simp_all
    with s True show ?thesis by simp
  next
    case False
    have "(uint n + 2 ^ 63) mod 2 ^ 64 = (uint n - 2 ^ 63 + 2 ^ 64) mod 2 ^ 64"
      by (rule arg_cong [where f = "\<lambda>x. x mod 2 ^ 64"]) simp
    also have "\<dots> = uint n - 2 ^ 63" unfolding mod_add_self2 using b False by (intro mod_pos_pos_trivial) simp_all
    finally show ?thesis using s False by simp
  qed
qed

lemma sint64_range [int64]: "- (2 ^ 63) \<le> sint (n :: int64)" "sint (n :: int64) < 2 ^ 63"
proof -
  have b: "0 \<le> uint n" "uint n < 2 ^ 64" using uint_lt2p [of n] by simp_all
  have "(0 :: int) \<le> 2 ^ 63" "(2 :: int) ^ 64 = 2 ^ 63 + 2 ^ 63" by simp_all
  with b show "- (2 ^ 63) \<le> sint n" "sint n < 2 ^ 63"
    unfolding sint64 by (simp_all only: split: if_split) linarith+
qed

lemma of_int_sint64 [simp]: "of_int (sint (n :: int64)) = n"
  by simp

lemma sint64_nonneg_unat: "0 \<le> sint (n :: int64) \<Longrightarrow> sint n = int (unat n)"
proof -
  assume n: "0 \<le> sint n"
  have b: "0 \<le> uint n" "uint n < 2 ^ 64" using uint_lt2p [of n] by simp_all
  have "sint n = uint n" using n b unfolding sint64 by (auto split: if_splits)
  then show "sint n = int (unat n)" by simp
qed

lemma sint64_neg:
  assumes "sint n \<noteq> - (2 ^ 63)" shows "sint (- n :: int64) = - sint n"
proof -
  have "- n = of_int (- sint n)" by simp
  then show ?thesis using sint64_of_int [of "- sint n"] sint64_range [of n] assms by simp
qed

lemma sint64_min_neg: "- (of_int (- (2 ^ 63)) :: int64) = of_int (- (2 ^ 63))"
  by simp

end
