(* ===== verification/Telemetry_Health.thy ===== *)
theory Telemetry_Health
  imports Complex_Main Telemetry_Trace Go_Int64
begin

text \<open>
  The trace health analyzer (\<^verbatim>\<open>telemetry/trace_health.go\<close>) and the bridge that turns its
  alerts into signals with a cooldown (\<^verbatim>\<open>telemetry/trace_bridge.go\<close>).

  The latency multiplier is a float64 in the code; here it is a rational number, so a comparison
  whose float64 product rounds is outside the model. Loops over maps are loops over lists in
  insertion order. A latency is rendered by the time package, which is the argument \<open>dur\<close>.
\<close>

datatype severity = SeverityWarning | SeverityError | SeverityCritical

record health_alert =
  ha_Pattern :: string
  ha_Component :: string
  ha_Server :: string
  ha_Tool :: string
  ha_Severity :: severity
  ha_Detail :: string
  ha_Evidence :: "string list"

record health_config =
  hc_ConsecutiveErrors :: int
  hc_LatencyMultiplier :: rat
  hc_ErrorRatePercent :: int
  hc_Window :: int

definition DefaultHealthConfig :: health_config where
  "DefaultHealthConfig = \<lparr>hc_ConsecutiveErrors = 3, hc_LatencyMultiplier = 2, hc_ErrorRatePercent = 20,
     hc_Window = 5 * 60 * 1000000000\<rparr>"

subsection \<open>Decimal printing at 64 bits\<close>

partial_function (option) itoa :: "int64 \<Rightarrow> string option" where
  "itoa n = (if n <s 0 then Option.bind (itoa (- n)) (\<lambda>s. Some (CHR ''-'' # s))
     else if n <s 10 then Some [digit_char (unat n)]
     else Option.bind (itoa (n div 10)) (\<lambda>s. Some (s @ [digit_char (unat (n mod 10))])))"

lemma itoa_nonneg: "0 \<le> sint n \<Longrightarrow> itoa n = Some (nat_dec (unat n))"
proof (induction "unat n" arbitrary: n rule: less_induct)
  case less
  have neg: "\<not> n <s 0" using less.prems by (simp add: word_sless_alt)
  have eq: "sint n = int (unat n)" using less.prems by (rule sint64_nonneg_unat)
  show ?case
  proof (cases "unat n < 10")
    case True
    then have "int (unat n) < 10" by linarith
    then have "n <s 10" unfolding word_sless_alt eq [symmetric] by simp
    with neg True show ?thesis by (subst itoa.simps, subst nat_dec.simps) simp
  next
    case False
    then have "\<not> int (unat n) < 10" by linarith
    then have ns: "\<not> n <s 10" unfolding word_sless_alt eq [symmetric] by simp
    have d: "unat (n div 10) = unat n div 10" "unat (n mod 10) = unat n mod 10"
      by (simp_all add: unat_div unat_mod)
    have "unat (n div 10) < unat n" using False by (simp add: d)
    moreover have "0 \<le> sint (n div 10)"
    proof -
      have "unat (n div 10) \<le> unat n" unfolding d by (rule div_le_dividend)
      then have le: "uint (n div 10) \<le> uint n" by (simp add: word_le_nat_alt [symmetric] word_le_def)
      have "uint n < 2 ^ 63" using less.prems eq sint64_range(2) [of n] by (simp add: sint64 split: if_splits)
      with le have "uint (n div 10) < 2 ^ 63" by linarith
      then show ?thesis by (simp add: sint64)
    qed
    ultimately have "itoa (n div 10) = Some (nat_dec (unat n div 10))" using less.hyps by (simp add: d)
    with neg ns False show ?thesis by (subst itoa.simps, subst nat_dec.simps) (simp add: d)
  qed
qed

lemma itoa_result: "sint n \<noteq> - (2 ^ 63) \<Longrightarrow> itoa n = Some (int_dec (sint n))"
proof (cases "sint n < 0")
  case True
  assume m: "sint n \<noteq> - (2 ^ 63)"
  have "itoa (- n) = Some (nat_dec (unat (- n)))" using True sint64_neg [OF m] by (intro itoa_nonneg) simp
  moreover have "int (unat (- n)) = - sint n" using sint64_nonneg_unat [of "- n"] sint64_neg [OF m] True by simp
  then have "unat (- n) = nat (- sint n)" by linarith
  ultimately show ?thesis using True by (subst itoa.simps) (simp add: word_sless_alt int_dec_def)
next
  case False
  then have "int (unat n) = sint n" using sint64_nonneg_unat [of n] by simp
  then have "unat n = nat (sint n)" by linarith
  with False show ?thesis by (simp add: itoa_nonneg int_dec_def)
qed

lemma itoa_min: "sint n = - (2 ^ 63) \<Longrightarrow> itoa n = None"
proof -
  assume m: "sint n = - (2 ^ 63)"
  have "- n = n"
    by (metis m of_int_sint64 sint64_min_neg)
  moreover have "n <s 0" using m by (simp add: word_sless_alt)
  ultimately have e: "itoa n = Option.bind (itoa n) (\<lambda>s. Some (CHR ''-'' # s))"
    by (metis (no_types, lifting) itoa.simps)
  show ?thesis
  proof (cases "itoa n")
    case (Some s)
    with e have "s = CHR ''-'' # s" by simp
    then show ?thesis by (metis n_not_Suc_n length_Cons)
  qed
qed

subsection \<open>Consecutive errors\<close>

definition is_call_done :: "trace_event \<Rightarrow> bool" where
  "is_call_done e = (e_Server e \<noteq> [] \<and> e_Action e = ''call'' @ ActionDoneSuffix)"

definition consecutive_alert :: "trace_event \<Rightarrow> nat \<Rightarrow> string list \<Rightarrow> health_alert" where
  "consecutive_alert e n ids = \<lparr>ha_Pattern = ''consecutive_errors'', ha_Component = e_Component e,
     ha_Server = e_Server e, ha_Tool = e_Tool e, ha_Severity = SeverityError,
     ha_Detail = e_Tool e @ '' on '' @ e_Server e @ '' failed '' @ nat_dec n @ '' times consecutively'',
     ha_Evidence = ids\<rparr>"

text \<open>The streaks are kept per server and tool: the number of errors and their event IDs.\<close>

fun consecutive_loop ::
    "int \<Rightarrow> trace_event list \<Rightarrow> (string \<times> string, nat \<times> string list) gomap \<Rightarrow> health_alert list" where
  "consecutive_loop threshold [] streaks = []"
| "consecutive_loop threshold (e # es) streaks =
     (if \<not> is_call_done e then consecutive_loop threshold es streaks
      else let k = (e_Server e, e_Tool e);
               s0 = mget (0, []) streaks k;
               s = (if e_Error e then (fst s0 + 1, snd s0 @ [e_ID e]) else (0, []))
           in (if int (fst s) \<ge> threshold then [consecutive_alert e (fst s) (snd s)] else [])
              @ consecutive_loop threshold es (mset_at streaks k s))"

definition detectConsecutiveErrors :: "trace_event list \<Rightarrow> int \<Rightarrow> health_alert list" where
  "detectConsecutiveErrors events threshold =
     (if threshold \<le> 0 then [] else consecutive_loop threshold events [])"

subsection \<open>Error rate\<close>

definition rate_step :: "(string, nat \<times> nat) gomap \<Rightarrow> trace_event \<Rightarrow> (string, nat \<times> nat) gomap" where
  "rate_step m e =
     (if \<not> is_call_done e then m
      else let s = mget (0, 0) m (event_key e)
           in mset_at m (event_key e) (fst s + 1, if e_Error e then snd s + 1 else snd s))"

definition rate_alert :: "string \<Rightarrow> nat \<Rightarrow> nat \<Rightarrow> health_alert" where
  "rate_alert k n errs =
     (let server = fst (splitKey k); tool = snd (splitKey k); rate = errs * 100 div n
      in \<lparr>ha_Pattern = ''error_rate'', ha_Component = ''mcp'', ha_Server = server, ha_Tool = tool,
          ha_Severity = SeverityWarning,
          ha_Detail = tool @ '' on '' @ server @ '' error rate '' @ nat_dec rate @ ''% ('' @ nat_dec errs
            @ ''/'' @ nat_dec n @ '')'', ha_Evidence = []\<rparr>)"

definition detectErrorRate :: "trace_event list \<Rightarrow> int \<Rightarrow> health_alert list" where
  "detectErrorRate events thresholdPct =
     (if thresholdPct \<le> 0 then []
      else map (\<lambda>(k, n, errs). rate_alert k n errs)
        (filter (\<lambda>(k, n, errs). 5 \<le> n \<and> int (errs * 100 div n) \<ge> thresholdPct)
          (foldl rate_step [] events)))"

subsection \<open>Latency spikes\<close>

definition spike_alert :: "(int \<Rightarrow> string) \<Rightarrow> string \<Rightarrow> int \<Rightarrow> int \<Rightarrow> health_alert" where
  "spike_alert dur k bp rp =
     (let server = fst (splitKey k); tool = snd (splitKey k)
      in \<lparr>ha_Pattern = ''latency_spike'', ha_Component = ''mcp'', ha_Server = server, ha_Tool = tool,
          ha_Severity = SeverityWarning,
          ha_Detail = tool @ '' on '' @ server @ '' p95 spiked from '' @ dur bp @ '' to '' @ dur rp,
          ha_Evidence = []\<rparr>)"

definition spiked :: "rat \<Rightarrow> int list \<Rightarrow> int list \<Rightarrow> bool" where
  "spiked multiplier baseline recent =
     (3 \<le> length baseline \<and> 3 \<le> length recent \<and> percentileDuration baseline 95 > 0 \<and>
      of_int (percentileDuration recent 95) > of_int (percentileDuration baseline 95) * multiplier)"

definition detectLatencySpikes :: "(int \<Rightarrow> string) \<Rightarrow> trace_event list \<Rightarrow> rat \<Rightarrow> health_alert list" where
  "detectLatencySpikes dur events multiplier =
     (if multiplier \<le> 0 \<or> length events < 10 then []
      else let mid = length events div 2;
               baseline = groupEventLatencies (take mid events); recent = groupEventLatencies (drop mid events)
           in map (\<lambda>(k, b). spike_alert dur k (percentileDuration b 95) (percentileDuration (mget [] recent k) 95))
                (filter (\<lambda>(k, b). map_of recent k \<noteq> None \<and> spiked multiplier b (mget [] recent k)) baseline))"

definition analyze :: "(int \<Rightarrow> string) \<Rightarrow> gotime \<Rightarrow> projection option \<Rightarrow> health_config \<Rightarrow> health_alert list option" where
  "analyze dur now r cfg =
     (case r of None \<Rightarrow> Some []
      | Some p \<Rightarrow> map_option (\<lambda>events.
          if events = [] then []
          else detectConsecutiveErrors events (hc_ConsecutiveErrors cfg)
            @ detectErrorRate events (hc_ErrorRatePercent cfg)
            @ detectLatencySpikes dur events (hc_LatencyMultiplier cfg))
          (trace_since (if hc_Window cfg > 0 then now - hc_Window cfg else zero_time) p))"

subsection \<open>The bridge to signals\<close>

definition alert_key :: "health_alert \<Rightarrow> string" where
  "alert_key a = ha_Pattern a @ ''|'' @ ha_Server a @ ''|'' @ ha_Tool a"

definition alert_level :: "health_alert \<Rightarrow> string" where
  "alert_level a = (case ha_Severity a of SeverityError \<Rightarrow> ''red'' | SeverityCritical \<Rightarrow> ''black''
     | SeverityWarning \<Rightarrow> ''yellow'')"

text \<open>One check of the bridge: the new table of last alerts and what it emits (category, level,
  source and message).\<close>

fun bridge_check ::
    "int \<Rightarrow> gotime \<Rightarrow> health_alert list \<Rightarrow> (string, gotime) gomap \<Rightarrow>
     (string, gotime) gomap \<times> (string \<times> string \<times> string \<times> string) list" where
  "bridge_check cooldown now [] seen = (seen, [])"
| "bridge_check cooldown now (a # as) seen =
     (case map_of seen (alert_key a) of
        Some last_time \<Rightarrow>
          (if now - last_time < cooldown then bridge_check cooldown now as seen
           else let (seen', out) = bridge_check cooldown now as (mset_at seen (alert_key a) now)
                in (seen', (''performance'', alert_level a, ''trace-bridge'', ha_Detail a) # out))
      | None \<Rightarrow>
          let (seen', out) = bridge_check cooldown now as (mset_at seen (alert_key a) now)
          in (seen', (''performance'', alert_level a, ''trace-bridge'', ha_Detail a) # out))"

subsection \<open>Facts\<close>

text \<open>The calls of one server and tool, and the errors they end with.\<close>

definition calls_of :: "string \<times> string \<Rightarrow> trace_event list \<Rightarrow> trace_event list" where
  "calls_of k es = filter (\<lambda>e. is_call_done e \<and> (e_Server e, e_Tool e) = k) es"

definition error_tail :: "trace_event list \<Rightarrow> trace_event list" where
  "error_tail es = rev (takeWhile e_Error (rev es))"

definition streak_of :: "trace_event list \<Rightarrow> string \<times> string \<Rightarrow> trace_event list" where
  "streak_of es k = error_tail (calls_of k es)"

lemma streak_of_snoc:
  "streak_of (es @ [e]) k =
     (if is_call_done e \<and> (e_Server e, e_Tool e) = k
      then (if e_Error e then streak_of es k @ [e] else []) else streak_of es k)"
  by (simp add: streak_of_def calls_of_def error_tail_def)

definition consecutive_spec :: "int \<Rightarrow> trace_event list \<Rightarrow> nat \<Rightarrow> health_alert list" where
  "consecutive_spec threshold es i =
     (let e = es ! i; s = streak_of (take (Suc i) es) (e_Server e, e_Tool e)
      in if is_call_done e \<and> int (length s) \<ge> threshold then [consecutive_alert e (length s) (map e_ID s)] else [])"

lemma consecutive_loop_spec:
  assumes "\<And>k. mget (0, []) streaks k = (length (streak_of pre k), map e_ID (streak_of pre k))"
  shows "consecutive_loop threshold es streaks =
    concat (map (\<lambda>i. consecutive_spec threshold (pre @ es) (length pre + i)) [0..<length es])"
  using assms
proof (induction es arbitrary: pre streaks)
  case Nil
  then show ?case by simp
next
  case (Cons e es)
  let ?spec = "\<lambda>i. consecutive_spec threshold (pre @ e # es) i"
  have upt: "map (\<lambda>i. ?spec (length pre + i)) [0..<length (e # es)] =
      ?spec (length pre) # map (\<lambda>i. consecutive_spec threshold ((pre @ [e]) @ es) (length (pre @ [e]) + i)) [0..<length es]"
    by (simp add: upt_conv_Cons map_Suc_upt [symmetric] comp_def del: upt_Suc)
  show ?case
  proof (cases "is_call_done e")
    case False
    then have "mget (0, []) streaks k = (length (streak_of (pre @ [e]) k), map e_ID (streak_of (pre @ [e]) k))" for k
      using Cons.prems by (simp add: streak_of_snoc)
    from Cons.IH [OF this] False show ?thesis
      unfolding upt by (simp add: consecutive_spec_def Let_def)
  next
    case True
    let ?k = "(e_Server e, e_Tool e)"
    let ?s = "if e_Error e then (fst (mget (0, []) streaks ?k) + 1, snd (mget (0, []) streaks ?k) @ [e_ID e]) else (0, [])"
    have s: "?s = (length (streak_of (pre @ [e]) ?k), map e_ID (streak_of (pre @ [e]) ?k))"
      using True Cons.prems by (simp add: streak_of_snoc)
    have "mget (0, []) (mset_at streaks ?k ?s) k = (length (streak_of (pre @ [e]) k), map e_ID (streak_of (pre @ [e]) k))" for k
      using True Cons.prems s by (simp add: streak_of_snoc)
    from Cons.IH [OF this] True s show ?thesis
      unfolding upt by (simp add: consecutive_spec_def Let_def)
  qed
qed

lemma detectConsecutiveErrors_spec:
  "0 < threshold \<Longrightarrow> detectConsecutiveErrors es threshold =
     concat (map (consecutive_spec threshold es) [0..<length es])"
  using consecutive_loop_spec [of "[]" "[]" threshold es]
  by (simp add: detectConsecutiveErrors_def mget_def streak_of_def calls_of_def error_tail_def)

lemma foldl_rate_step:
  "mget (0, 0) (foldl rate_step m es) k =
     (fst (mget (0, 0) m k) + length (filter (\<lambda>e. is_call_done e \<and> event_key e = k) es),
      snd (mget (0, 0) m k) + length (filter (\<lambda>e. is_call_done e \<and> event_key e = k \<and> e_Error e) es))"
  by (induction es arbitrary: m) (auto simp: rate_step_def Let_def)

end
