(* ===== verification/Telemetry_Signals.thy ===== *)
theory Telemetry_Signals
  imports Telemetry_Trace
begin

text \<open>
  The signal side of \<^verbatim>\<open>telemetry\<close>: flags and signals (\<^verbatim>\<open>sig_signal.go\<close>), the bus
  (\<^verbatim>\<open>sig_bus.go\<close>), workstream health (\<^verbatim>\<open>sig_health.go\<close>) and the budget and deadlock
  watchdogs (\<^verbatim>\<open>wd_budget.go\<close>, \<^verbatim>\<open>wd_deadlock.go\<close>, \<^verbatim>\<open>wd_manager.go\<close>) on one bus.

  A handler runs inside \<^verbatim>\<open>Emit\<close> and may emit again, so emitting is recursive; the recursion is
  bounded by fuel, and \<open>emit_total\<close> shows that a bound read off the state is enough.
  The confidence of a signal is a float64 no operation here reads; it is kept as a rational.
\<close>

subsection \<open>Flags and signals\<close>

datatype flag_level = Green | Yellow | Red | Black

fun flag_rank :: "flag_level \<Rightarrow> nat" where
  "flag_rank Green = 0"
| "flag_rank Yellow = 1"
| "flag_rank Red = 2"
| "flag_rank Black = 3"

lemma flag_rank_inj [simp]: "flag_rank a = flag_rank b \<longleftrightarrow> a = b"
  by (cases a; cases b) simp_all

lemma flag_rank_0 [simp]: "flag_rank f = 0 \<longleftrightarrow> f = Green"
  by (cases f) simp_all

instantiation flag_level :: linorder
begin

definition less_eq_flag_level :: "flag_level \<Rightarrow> flag_level \<Rightarrow> bool" where
  "a \<le> b \<longleftrightarrow> flag_rank a \<le> flag_rank b"

definition less_flag_level :: "flag_level \<Rightarrow> flag_level \<Rightarrow> bool" where
  "a < b \<longleftrightarrow> flag_rank a < flag_rank b"

instance
  by standard (auto simp: less_eq_flag_level_def less_flag_level_def)

end

fun flag_string :: "flag_level \<Rightarrow> string" where
  "flag_string Green = ''green''"
| "flag_string Yellow = ''yellow''"
| "flag_string Red = ''red''"
| "flag_string Black = ''black''"

lemma Green_least [simp]: "Green \<le> f"
  by (simp add: less_eq_flag_level_def)

record signal =
  sg_Workstream :: string
  sg_Level :: flag_level
  sg_Source :: string
  sg_Scope :: "string list"
  sg_Category :: string
  sg_Message :: string
  sg_Timestamp :: gotime

definition zero_signal :: signal where
  "zero_signal = \<lparr>sg_Workstream = [], sg_Level = Green, sg_Source = [], sg_Scope = [],
     sg_Category = [], sg_Message = [], sg_Timestamp = zero_time\<rparr>"

subsection \<open>Health\<close>

record ws_health =
  h_Workstream :: string
  h_Level :: flag_level
  h_AgentHealth :: "(string, flag_level) gomap"
  h_Latest :: signal

definition health_step :: "(string, ws_health) gomap \<Rightarrow> signal \<Rightarrow> (string, ws_health) gomap" where
  "health_step health s =
     (let ok = (map_of health (sg_Workstream s) \<noteq> None);
          h0 = mget \<lparr>h_Workstream = sg_Workstream s, h_Level = Green, h_AgentHealth = [], h_Latest = zero_signal\<rparr>
                 health (sg_Workstream s);
          h1 = (if sg_Level s > h_Level h0 then h0\<lparr>h_Level := sg_Level s\<rparr> else h0);
          h2 = (if sg_Source s \<noteq> [] then
                  (case map_of (h_AgentHealth h1) (sg_Source s) of
                     None \<Rightarrow> h1\<lparr>h_AgentHealth := mset_at (h_AgentHealth h1) (sg_Source s) (sg_Level s)\<rparr>
                   | Some existing \<Rightarrow>
                       if sg_Level s > existing
                       then h1\<lparr>h_AgentHealth := mset_at (h_AgentHealth h1) (sg_Source s) (sg_Level s)\<rparr> else h1)
                else h1);
          h3 = (if \<not> ok \<or> sg_Timestamp s > sg_Timestamp (h_Latest h2) then h2\<lparr>h_Latest := s\<rparr> else h2)
      in mset_at health (sg_Workstream s) h3)"

definition ComputeHealth :: "signal list \<Rightarrow> (string, ws_health) gomap" where
  "ComputeHealth signals = foldl health_step [] signals"

subsection \<open>The bus and its watchdogs\<close>

definition budgetWatchdogName :: string where "budgetWatchdogName = ''budget-watchdog''"
definition deadlockWatchdogName :: string where "deadlockWatchdogName = ''deadlock-watchdog''"
definition CategoryBudget :: string where "CategoryBudget = ''budget''"
definition CategoryLifecycle :: string where "CategoryLifecycle = ''lifecycle''"

record budget_wd =
  bw_maxTokens :: int
  bw_tokens :: int
  bw_warned :: bool
  bw_exceeded :: bool
  bw_cancelled :: bool

record deadlock_wd =
  dw_timeout :: int
  dw_workstream :: string
  dw_lastSignal :: gotime
  dw_detected :: bool

datatype handler = HBudget nat | HDeadlock nat

record signal_bus =
  b_signals :: "signal list"
  b_handlers :: "handler list"
  b_budgets :: "budget_wd list"
  b_deadlocks :: "deadlock_wd list"

definition new_signal_bus :: signal_bus where
  "new_signal_bus = \<lparr>b_signals = [], b_handlers = [], b_budgets = [], b_deadlocks = []\<rparr>"

text \<open>Registering and starting: each start subscribes one more handler.\<close>

definition new_budget_watchdog :: "int \<Rightarrow> budget_wd" where
  "new_budget_watchdog n = \<lparr>bw_maxTokens = n, bw_tokens = 0, bw_warned = False, bw_exceeded = False, bw_cancelled = False\<rparr>"

definition new_deadlock_watchdog :: "string \<Rightarrow> int \<Rightarrow> gotime \<Rightarrow> deadlock_wd" where
  "new_deadlock_watchdog ws timeout now =
     \<lparr>dw_timeout = timeout, dw_workstream = ws, dw_lastSignal = now, dw_detected = False\<rparr>"

definition budget_start :: "budget_wd \<Rightarrow> signal_bus \<Rightarrow> signal_bus" where
  "budget_start w b = b\<lparr>b_budgets := b_budgets b @ [w], b_handlers := b_handlers b @ [HBudget (length (b_budgets b))]\<rparr>"

definition budget_stop :: "nat \<Rightarrow> signal_bus \<Rightarrow> signal_bus" where
  "budget_stop i b = (if i < length (b_budgets b)
     then b\<lparr>b_budgets := (b_budgets b)[i := (b_budgets b ! i)\<lparr>bw_cancelled := True\<rparr>]\<rparr> else b)"

definition deadlock_start :: "deadlock_wd \<Rightarrow> signal_bus \<Rightarrow> signal_bus" where
  "deadlock_start w b = b\<lparr>b_deadlocks := b_deadlocks b @ [w], b_handlers := b_handlers b @ [HDeadlock (length (b_deadlocks b))]\<rparr>"

text \<open>\<^verbatim>\<open>int64(float64(maxTokens) * 0.8)\<close>: the float64 product truncates to this for limits
  below \<open>2 ^ 50\<close>.\<close>

definition budget_threshold :: "int \<Rightarrow> int" where
  "budget_threshold n = (if n \<ge> 0 then 4 * n div 5 else - (4 * (- n) div 5))"

definition budget_signal :: "signal \<Rightarrow> flag_level \<Rightarrow> string \<Rightarrow> signal" where
  "budget_signal s level msg = zero_signal\<lparr>sg_Workstream := sg_Workstream s, sg_Level := level,
     sg_Source := budgetWatchdogName, sg_Category := CategoryBudget, sg_Message := msg\<rparr>"

definition set_budget :: "nat \<Rightarrow> (budget_wd \<Rightarrow> budget_wd) \<Rightarrow> signal_bus \<Rightarrow> signal_bus" where
  "set_budget i f b = b\<lparr>b_budgets := (b_budgets b)[i := f (b_budgets b ! i)]\<rparr>"

definition record_signal :: "gotime \<Rightarrow> signal \<Rightarrow> signal_bus \<Rightarrow> signal_bus" where
  "record_signal now s b = b\<lparr>b_signals := b_signals b @ [if sg_Timestamp s = zero_time then s\<lparr>sg_Timestamp := now\<rparr> else s]\<rparr>"

text \<open>The warning and the excess report of the budget handler, each given how to emit.\<close>

definition budget_report ::
    "(signal \<Rightarrow> signal_bus \<Rightarrow> signal_bus option) \<Rightarrow> nat \<Rightarrow> signal \<Rightarrow> signal_bus \<Rightarrow> signal_bus option" where
  "budget_report emit i s b =
     (let b1 = set_budget i (\<lambda>w. w\<lparr>bw_tokens := bw_tokens w + 1\<rparr>) b;
          current = bw_tokens (b_budgets b1 ! i); limit = bw_maxTokens (b_budgets b1 ! i)
      in Option.bind
           (if current \<ge> budget_threshold limit \<and> \<not> bw_warned (b_budgets b1 ! i)
            then emit (budget_signal s Yellow ''budget at 80%'') (set_budget i (\<lambda>w. w\<lparr>bw_warned := True\<rparr>) b1)
            else Some b1)
           (\<lambda>b2. if current \<ge> limit \<and> \<not> bw_exceeded (b_budgets b2 ! i)
             then emit (budget_signal s Red ''budget exceeded'') (set_budget i (\<lambda>w. w\<lparr>bw_exceeded := True\<rparr>) b2)
             else Some b2))"

definition handle_signal ::
    "(signal \<Rightarrow> signal_bus \<Rightarrow> signal_bus option) \<Rightarrow> gotime \<Rightarrow> handler \<Rightarrow> signal \<Rightarrow> signal_bus \<Rightarrow> signal_bus option" where
  "handle_signal emit now h s b =
     (case h of
        HBudget i \<Rightarrow>
          (if i \<ge> length (b_budgets b) \<or> bw_cancelled (b_budgets b ! i) \<or> sg_Category s \<noteq> CategoryBudget then Some b
           else budget_report emit i s b)
      | HDeadlock i \<Rightarrow>
          (if i < length (b_deadlocks b) \<and> sg_Workstream s = dw_workstream (b_deadlocks b ! i)
           then Some (b\<lparr>b_deadlocks := (b_deadlocks b)[i := (b_deadlocks b ! i)\<lparr>dw_lastSignal := now\<rparr>]\<rparr>)
           else Some b))"

primrec run_handlers ::
    "(signal \<Rightarrow> signal_bus \<Rightarrow> signal_bus option) \<Rightarrow> gotime \<Rightarrow> handler list \<Rightarrow> signal \<Rightarrow> signal_bus \<Rightarrow> signal_bus option" where
  "run_handlers emit now [] s b = Some b"
| "run_handlers emit now (h # hs) s b = Option.bind (handle_signal emit now h s b) (run_handlers emit now hs s)"

primrec bus_emit :: "nat \<Rightarrow> gotime \<Rightarrow> signal \<Rightarrow> signal_bus \<Rightarrow> signal_bus option" where
  "bus_emit 0 now s b = None"
| "bus_emit (Suc k) now s b =
     (let b1 = record_signal now s b
      in run_handlers (bus_emit k now) now (b_handlers b1) (last (b_signals b1)) b1)"

text \<open>What each budget watchdog may still report bounds the depth of the recursion.\<close>

definition reports_left :: "signal_bus \<Rightarrow> nat" where
  "reports_left b = sum_list (map (\<lambda>w. (if bw_warned w then 0 else 1) + (if bw_exceeded w then 0 else 1)) (b_budgets b))"

definition bus_Emit :: "gotime \<Rightarrow> signal \<Rightarrow> signal_bus \<Rightarrow> signal_bus option" where
  "bus_Emit now s b = bus_emit (reports_left b + 1) now s b"

definition ForWorkstream :: "string \<Rightarrow> signal_bus \<Rightarrow> signal list" where
  "ForWorkstream ws b = filter (\<lambda>s. sg_Workstream s = ws) (b_signals b)"

definition signals_since :: "gotime \<Rightarrow> signal_bus \<Rightarrow> signal list" where
  "signals_since t b = filter (\<lambda>s. sg_Timestamp s > t) (b_signals b)"

definition bus_Health :: "signal_bus \<Rightarrow> (string, ws_health) gomap" where
  "bus_Health b = ComputeHealth (b_signals b)"

definition trace_level :: "string \<Rightarrow> flag_level" where
  "trace_level l = (if l = ''yellow'' then Yellow else if l = ''red'' then Red
     else if l = ''black'' then Black else Green)"

definition EmitTrace :: "gotime \<Rightarrow> string \<Rightarrow> string \<Rightarrow> string \<Rightarrow> string \<Rightarrow> signal_bus \<Rightarrow> signal_bus option" where
  "EmitTrace now category level source message b = bus_Emit now
     (zero_signal\<lparr>sg_Category := category, sg_Level := trace_level level, sg_Source := source, sg_Message := message\<rparr>) b"

text \<open>One tick of the deadlock monitor.\<close>

definition deadlock_tick :: "gotime \<Rightarrow> nat \<Rightarrow> signal_bus \<Rightarrow> signal_bus option" where
  "deadlock_tick now i b =
     (if i \<ge> length (b_deadlocks b) then Some b
      else let w = b_deadlocks b ! i
           in if now - dw_lastSignal w \<ge> dw_timeout w \<and> \<not> dw_detected w
              then bus_Emit now (zero_signal\<lparr>sg_Workstream := dw_workstream w, sg_Level := Red,
                     sg_Source := deadlockWatchdogName, sg_Category := CategoryLifecycle,
                     sg_Message := ''deadlock detected: no signals within timeout''\<rparr>)
                     (b\<lparr>b_deadlocks := (b_deadlocks b)[i := w\<lparr>dw_detected := True\<rparr>]\<rparr>)
              else Some b)"

subsection \<open>Emitting always returns, and what it adds\<close>

text \<open>What an emission keeps and how it accounts for the signals it adds: every signal added
  besides \<open>n\<close> emitted ones is one watchdog report that is no longer left.\<close>

definition emit_post :: "nat \<Rightarrow> signal_bus \<Rightarrow> signal_bus \<Rightarrow> bool" where
  "emit_post n b b' = (length (b_budgets b') = length (b_budgets b) \<and> b_handlers b' = b_handlers b \<and>
     take (length (b_signals b)) (b_signals b') = b_signals b \<and>
     length (b_signals b') + reports_left b' = length (b_signals b) + n + reports_left b \<and>
     reports_left b' \<le> reports_left b)"

lemma emit_post_refl: "emit_post 0 b b"
  by (simp add: emit_post_def)

lemma emit_post_trans: "emit_post m b b1 \<Longrightarrow> emit_post n b1 b2 \<Longrightarrow> emit_post (m + n) b b2"
proof -
  assume 1: "emit_post m b b1" and 2: "emit_post n b1 b2"
  then have "take (length (b_signals b)) (take (length (b_signals b1)) (b_signals b2)) = b_signals b"
    by (simp add: emit_post_def)
  moreover have "length (b_signals b) \<le> length (b_signals b1)"
  proof -
    have "take (length (b_signals b)) (b_signals b1) = b_signals b" using 1 by (simp only: emit_post_def)
    from arg_cong [OF this, of length] show ?thesis by (simp add: min_def split: if_splits)
  qed
  ultimately show ?thesis using 1 2 by (simp add: emit_post_def min_def split: if_splits)
qed

definition emit_ok :: "(signal \<Rightarrow> signal_bus \<Rightarrow> signal_bus option) \<Rightarrow> nat \<Rightarrow> bool" where
  "emit_ok emit n = (\<forall>s b. reports_left b < n \<longrightarrow> (\<exists>b'. emit s b = Some b' \<and> emit_post 1 b b'))"

lemma sum_list_update_nat:
  "i < length xs \<Longrightarrow> sum_list (map f (xs[i := y])) + f (xs ! i) = sum_list (map f xs) + (f y :: nat)"
  by (induction xs arbitrary: i) (auto split: nat.splits)

lemma set_budget_flag:
  assumes "i < length (b_budgets b)"
    "(if bw_warned (f (b_budgets b ! i)) then 0 else 1) + (if bw_exceeded (f (b_budgets b ! i)) then 0 else 1) + d =
     (if bw_warned (b_budgets b ! i) then 0 else 1) + (if bw_exceeded (b_budgets b ! i) then 0 else (1::nat))"
  shows "reports_left (set_budget i f b) + d = reports_left b"
  using sum_list_update_nat [OF assms(1), of "\<lambda>w. (if bw_warned w then 0 else 1) + (if bw_exceeded w then 0 else (1::nat))" "f (b_budgets b ! i)"] assms(2)
  by (simp add: reports_left_def set_budget_def)

lemma set_budget_simps [simp]:
  "b_signals (set_budget i f b) = b_signals b" "b_handlers (set_budget i f b) = b_handlers b"
  "length (b_budgets (set_budget i f b)) = length (b_budgets b)"
  "i < length (b_budgets b) \<Longrightarrow> b_budgets (set_budget i f b) ! i = f (b_budgets b ! i)"
  by (simp_all add: set_budget_def)

text \<open>Marking a report and emitting it adds one signal for one report no longer left.\<close>

lemma report_post:
  assumes "emit_ok emit n" "reports_left b \<le> n" "i < length (b_budgets b)"
    "reports_left (set_budget i f b) + 1 = reports_left b"
  shows "\<exists>b'. emit s (set_budget i f b) = Some b' \<and> emit_post 0 b b'"
proof -
  obtain b' where b': "emit s (set_budget i f b) = Some b'" "emit_post 1 (set_budget i f b) b'"
  proof -
    have "reports_left (set_budget i f b) < n" using assms(2,4) by linarith
    with assms(1) that show ?thesis unfolding emit_ok_def by blast
  qed
  then have "emit_post 0 b b'" using assms(4) by (simp add: emit_post_def)
  with b' show ?thesis by blast
qed

lemma budget_report_post:
  assumes ok: "emit_ok emit n" and n: "reports_left b \<le> n" and i: "i < length (b_budgets b)"
  shows "\<exists>b'. budget_report emit i s b = Some b' \<and> emit_post 0 b b'"
proof -
  let ?b1 = "set_budget i (\<lambda>w. w\<lparr>bw_tokens := bw_tokens w + 1\<rparr>) b"
  let ?current = "bw_tokens (b_budgets ?b1 ! i)" and ?limit = "bw_maxTokens (b_budgets ?b1 ! i)"
  have r1: "reports_left ?b1 = reports_left b" using set_budget_flag [OF i, of _ 0] by simp
  then have p1: "emit_post 0 b ?b1" by (simp add: emit_post_def)
  define r2 where "r2 = (if ?current \<ge> budget_threshold ?limit \<and> \<not> bw_warned (b_budgets ?b1 ! i)
      then emit (budget_signal s Yellow ''budget at 80%'') (set_budget i (\<lambda>w. w\<lparr>bw_warned := True\<rparr>) ?b1)
      else Some ?b1)"
  have "\<exists>b2. r2 = Some b2 \<and> emit_post 0 ?b1 b2"
  proof (cases "?current \<ge> budget_threshold ?limit \<and> \<not> bw_warned (b_budgets ?b1 ! i)")
    case True
    then have "reports_left (set_budget i (\<lambda>w. w\<lparr>bw_warned := True\<rparr>) ?b1) + 1 = reports_left ?b1"
      using i by (intro set_budget_flag) simp_all
    from report_post [OF ok _ _ this] n r1 i
    have "\<exists>b'. emit (budget_signal s Yellow ''budget at 80%'') (set_budget i (\<lambda>w. w\<lparr>bw_warned := True\<rparr>) ?b1) = Some b' \<and> emit_post 0 ?b1 b'" by simp
    then show ?thesis unfolding r2_def if_P [OF True] .
  next
    case False
    show ?thesis unfolding r2_def if_not_P [OF False] using emit_post_refl by blast
  qed
  then obtain b2 where b2: "r2 = Some b2" "emit_post 0 ?b1 b2" by blast
  have p2: "emit_post 0 b b2" using emit_post_trans [OF p1 b2(2)] by simp
  have i2: "i < length (b_budgets b2)" "reports_left b2 \<le> n" using p2 i n by (simp_all add: emit_post_def)
  have "\<exists>b3. (if ?current \<ge> ?limit \<and> \<not> bw_exceeded (b_budgets b2 ! i)
      then emit (budget_signal s Red ''budget exceeded'') (set_budget i (\<lambda>w. w\<lparr>bw_exceeded := True\<rparr>) b2)
      else Some b2) = Some b3 \<and> emit_post 0 b2 b3"
  proof (cases "?current \<ge> ?limit \<and> \<not> bw_exceeded (b_budgets b2 ! i)")
    case True
    then have "reports_left (set_budget i (\<lambda>w. w\<lparr>bw_exceeded := True\<rparr>) b2) + 1 = reports_left b2"
      using i2 by (intro set_budget_flag) simp_all
    from report_post [OF ok i2(2,1) this] show ?thesis unfolding if_P [OF True] .
  next
    case False
    show ?thesis unfolding if_not_P [OF False] using emit_post_refl by blast
  qed
  then obtain b3 where b3: "(if ?current \<ge> ?limit \<and> \<not> bw_exceeded (b_budgets b2 ! i)
      then emit (budget_signal s Red ''budget exceeded'') (set_budget i (\<lambda>w. w\<lparr>bw_exceeded := True\<rparr>) b2)
      else Some b2) = Some b3" "emit_post 0 b2 b3" by blast
  have "budget_report emit i s b = Some b3"
    unfolding budget_report_def Let_def r2_def [symmetric] b2(1) Option.bind.bind_lunit by (rule b3(1))
  with emit_post_trans [OF p2 b3(2)] show ?thesis by simp
qed

lemma handle_signal_post:
  assumes "emit_ok emit n" "reports_left b \<le> n"
  shows "\<exists>b'. handle_signal emit now h s b = Some b' \<and> emit_post 0 b b'"
  using budget_report_post [OF assms]
  by (cases h) (auto simp: handle_signal_def emit_post_def reports_left_def)

lemma run_handlers_post:
  assumes "emit_ok emit n" "reports_left b \<le> n"
  shows "\<exists>b'. run_handlers emit now hs s b = Some b' \<and> emit_post 0 b b'"
  using assms(2)
proof (induction hs arbitrary: b)
  case (Cons h hs)
  obtain b1 where b1: "handle_signal emit now h s b = Some b1" "emit_post 0 b b1"
    using handle_signal_post [OF assms(1) Cons.prems] by blast
  then have "reports_left b1 \<le> n" using Cons.prems by (simp add: emit_post_def)
  from Cons.IH [OF this] obtain b2 where "run_handlers emit now hs s b1 = Some b2" "emit_post 0 b1 b2" by blast
  with b1 emit_post_trans [OF b1(2)] show ?case by fastforce
qed (simp add: emit_post_refl)

lemma bus_emit_ok: "emit_ok (bus_emit n now) n"
proof (induction n)
  case (Suc n)
  show ?case
    unfolding emit_ok_def
  proof (intro allI impI)
    fix s b assume "reports_left b < Suc n"
    then have n: "reports_left (record_signal now s b) \<le> n" by (simp add: record_signal_def reports_left_def)
    have p: "emit_post 1 b (record_signal now s b)" by (simp add: record_signal_def emit_post_def reports_left_def)
    let ?b1 = "record_signal now s b"
    obtain b2 where b2: "run_handlers (bus_emit n now) now (b_handlers ?b1) (last (b_signals ?b1)) ?b1 = Some b2"
        "emit_post 0 ?b1 b2" using run_handlers_post [OF Suc n] by blast
    from emit_post_trans [OF p b2(2)] b2(1) show "\<exists>b'. bus_emit (Suc n) now s b = Some b' \<and> emit_post 1 b b'"
      by (simp add: Let_def)
  qed
qed (simp add: emit_ok_def)

lemma bus_Emit_post: "\<exists>b'. bus_Emit now s b = Some b' \<and> emit_post 1 b b'"
  using bus_emit_ok [of "reports_left b + 1" now] by (simp add: bus_Emit_def emit_ok_def del: bus_emit.simps)

subsection \<open>Health of a workstream\<close>

definition worst :: "signal list \<Rightarrow> flag_level" where
  "worst ss = Max (insert Green (sg_Level ` set ss))"

definition ws_signals :: "string \<Rightarrow> signal list \<Rightarrow> signal list" where
  "ws_signals ws ss = filter (\<lambda>s. sg_Workstream s = ws) ss"

definition health_ok :: "signal list \<Rightarrow> ws_health \<Rightarrow> bool" where
  "health_ok ss h = (h_Level h = worst ss \<and>
     (\<forall>a. map_of (h_AgentHealth h) a =
        (if a = [] \<or> filter (\<lambda>s. sg_Source s = a) ss = [] then None
         else Some (worst (filter (\<lambda>s. sg_Source s = a) ss)))) \<and>
     h_Latest h \<in> set ss \<and> (\<forall>s \<in> set ss. sg_Timestamp s \<le> sg_Timestamp (h_Latest h)))"

lemma worst_snoc: "worst (ss @ [s]) = max (sg_Level s) (worst ss)"
proof -
  have "insert Green (sg_Level ` set (ss @ [s])) = insert (sg_Level s) (insert Green (sg_Level ` set ss))" by auto
  then show ?thesis unfolding worst_def by (simp only:) (subst Max_insert, simp_all)
qed

lemma worst_Nil [simp]: "worst [] = Green"
  by (simp add: worst_def)

lemma worst_single [simp]: "worst [s] = sg_Level s"
  using worst_snoc [of "[]" s] by (simp add: max_absorb1)

lemma ComputeHealth_snoc: "ComputeHealth (ss @ [s]) = health_step (ComputeHealth ss) s"
  by (simp add: ComputeHealth_def)

definition health_update :: "signal \<Rightarrow> ws_health \<Rightarrow> ws_health" where
  "health_update s h =
     h\<lparr>h_Level := max (sg_Level s) (h_Level h),
       h_AgentHealth := (if sg_Source s = [] then h_AgentHealth h else
         case map_of (h_AgentHealth h) (sg_Source s) of
           None \<Rightarrow> mset_at (h_AgentHealth h) (sg_Source s) (sg_Level s)
         | Some old \<Rightarrow> (if sg_Level s > old then mset_at (h_AgentHealth h) (sg_Source s) (sg_Level s) else h_AgentHealth h)),
       h_Latest := (if sg_Timestamp s > sg_Timestamp (h_Latest h) then s else h_Latest h)\<rparr>"

definition health_first :: "signal \<Rightarrow> ws_health" where
  "health_first s = \<lparr>h_Workstream = sg_Workstream s, h_Level = sg_Level s,
     h_AgentHealth = (if sg_Source s = [] then [] else [(sg_Source s, sg_Level s)]), h_Latest = s\<rparr>"

lemma health_step_lookup:
  "map_of (health_step m s) ws =
     (if ws = sg_Workstream s
      then Some (case map_of m ws of None \<Rightarrow> health_first s | Some h \<Rightarrow> health_update s h) else map_of m ws)"
  by (auto simp: health_step_def health_first_def health_update_def Let_def mget_def max_def not_less
      less_flag_level_def less_eq_flag_level_def split: option.splits)

lemma health_ok_first: "health_ok [s] (health_first s)"
  by (simp add: health_ok_def health_first_def)

lemma health_ok_update:
  assumes "health_ok ss h" shows "health_ok (ss @ [s]) (health_update s h)"
proof -
  let ?h = "health_update s h"
  have lv: "h_Level ?h = worst (ss @ [s])" using assms by (simp add: health_ok_def health_update_def worst_snoc)
  have lt: "h_Latest ?h \<in> set (ss @ [s])" "\<forall>x \<in> set (ss @ [s]). sg_Timestamp x \<le> sg_Timestamp (h_Latest ?h)"
    using assms by (auto simp: health_ok_def health_update_def)
  have ag: "map_of (h_AgentHealth h) a = (if a = [] \<or> filter (\<lambda>s. sg_Source s = a) ss = [] then None
      else Some (worst (filter (\<lambda>s. sg_Source s = a) ss)))" for a
    using assms by (simp add: health_ok_def)
  have "map_of (h_AgentHealth ?h) a = (if a = [] \<or> filter (\<lambda>s. sg_Source s = a) (ss @ [s]) = [] then None
      else Some (worst (filter (\<lambda>s. sg_Source s = a) (ss @ [s]))))" for a
  proof (cases "a = sg_Source s \<and> a \<noteq> []")
    case True
    then show ?thesis
      by (cases "filter (\<lambda>s. sg_Source s = a) ss = []") (auto simp: health_update_def ag worst_snoc max_def)
  next
    case False
    then show ?thesis by (auto simp: health_update_def ag split: option.splits)
  qed
  with lv lt show ?thesis by (simp add: health_ok_def)
qed

lemma health_update_ws [simp]: "h_Workstream (health_update s h) = h_Workstream h"
  "h_Workstream (health_first s) = sg_Workstream s"
  by (simp_all add: health_update_def health_first_def)

lemma ComputeHealth_spec:
  "(map_of (ComputeHealth ss) ws = None \<and> ws_signals ws ss = []) \<or>
   (\<exists>h. map_of (ComputeHealth ss) ws = Some h \<and> h_Workstream h = ws \<and> health_ok (ws_signals ws ss) h)"
proof (induction ss rule: rev_induct)
  case Nil
  show ?case by (simp add: ComputeHealth_def ws_signals_def)
next
  case (snoc s ss)
  have w: "ws_signals ws (ss @ [s]) = (if ws = sg_Workstream s then ws_signals ws ss @ [s] else ws_signals ws ss)"
    by (auto simp: ws_signals_def)
  show ?case
  proof (cases "ws = sg_Workstream s")
    case False
    with snoc w show ?thesis by (simp add: ComputeHealth_snoc health_step_lookup)
  next
    case True
    from snoc show ?thesis
    proof
      assume "map_of (ComputeHealth ss) ws = None \<and> ws_signals ws ss = []"
      with True w health_ok_first [of s] show ?thesis by (simp add: ComputeHealth_snoc health_step_lookup)
    next
      assume "\<exists>h. map_of (ComputeHealth ss) ws = Some h \<and> h_Workstream h = ws \<and> health_ok (ws_signals ws ss) h"
      with True w health_ok_update [of "ws_signals ws ss" _ s] show ?thesis
        by (auto simp: ComputeHealth_snoc health_step_lookup)
    qed
  qed
qed

end
