(* ===== verification/Telemetry_Properties.thy ===== *)
theory Telemetry_Properties
  imports Telemetry_Health Telemetry_Signals
begin

text \<open>The properties of tracing, trace health and signals.\<close>

subsection \<open>The trace keeps the latest events\<close>




subsection \<open>Health\<close>

text \<open>Property C12: the analyzer raises a consecutive-errors alert at exactly those finished calls
  at which the calls of the same server and tool end in a run of errors of at least the
  threshold, and the alert lists the length and the event IDs of that run.\<close>

theorem consecutive_errors_exact:
  assumes "0 < threshold"
  shows "detectConsecutiveErrors es threshold = concat (map (\<lambda>i.
    let e = es ! i; s = error_tail (calls_of (e_Server e, e_Tool e) (take (Suc i) es))
    in if is_call_done e \<and> int (length s) \<ge> threshold
       then [consecutive_alert e (length s) (map e_ID s)] else []) [0..<length es])"
  unfolding detectConsecutiveErrors_spec [OF assms]
  by (rule arg_cong [where f = concat], rule map_cong) (simp_all add: consecutive_spec_def streak_of_def Let_def)

definition sample_calls :: "trace_event list" where
  "sample_calls = map (\<lambda>(i, t, f). zero_event\<lparr>e_ID := i, e_Server := ''srv'', e_Tool := t, e_Action := ''call_done'', e_Error := f\<rparr>)
     [(''1'', ''x'', True), (''2'', ''y'', False), (''3'', ''x'', True), (''4'', ''x'', False), (''5'', ''x'', True)]"

theorem consecutive_errors_exact_witness:
  "detectConsecutiveErrors sample_calls 2 = concat (map (\<lambda>i.
    let e = sample_calls ! i; s = error_tail (calls_of (e_Server e, e_Tool e) (take (Suc i) sample_calls))
    in if is_call_done e \<and> int (length s) \<ge> 2
       then [consecutive_alert e (length s) (map e_ID s)] else []) [0..<length sample_calls]) \<and>
   map ha_Evidence (detectConsecutiveErrors sample_calls 2) = [[''1'', ''3'']]"
proof
  show "map ha_Evidence (detectConsecutiveErrors sample_calls 2) = [[''1'', ''3'']]" by code_simp
qed (rule consecutive_errors_exact, simp)

text \<open>The decimal printer of the analyzer returns the decimal of every 64-bit
  integer but the least one, on which its recursion never ends.\<close>

lemma itoa_terminates:
  "itoa n = (if sint n = - (2 ^ 63) then None else Some (int_dec (sint n)))"
  using itoa_result [of n] itoa_min [of n] by auto

text \<open>The percentile the analyzer and the archive comparison use is the element of
  the sorted latencies at the rank, and so one of them.\<close>

lemma percentile_of_sorted:
  "percentileDuration xs pct =
     (if xs = [] then 0 else sort xs ! min ((pct * length xs) div 100) (length xs - 1)) \<and>
   (xs = [] \<or> percentileDuration xs pct \<in> set xs)"
proof -
  have "sort xs ! min ((pct * length xs) div 100) (length xs - 1) \<in> set xs" if "xs \<noteq> []"
  proof -
    have "min ((pct * length xs) div 100) (length xs - 1) < length (sort xs)" using that by (cases xs) simp_all
    then show ?thesis by (metis nth_mem set_sort)
  qed
  then show ?thesis using percentileDuration_sort [of xs pct] by (auto simp: percentileDuration_def)
qed

subsection \<open>Signals\<close>


text \<open>The budget watchdog counts its own warning, a signal of the category it counts: with a
  limit of 10 the budget counts as exceeded after 9 signals of the agents.\<close>

definition budget_run :: "nat \<Rightarrow> int \<Rightarrow> signal_bus option" where
  "budget_run n limit = foldl (\<lambda>b i. Option.bind b (bus_Emit 1 (zero_signal\<lparr>sg_Category := CategoryBudget\<rparr>)))
     (Some (budget_start (new_budget_watchdog limit) new_signal_bus)) [0..<n]"

theorem budget_exceeded_early:
  "map_option (\<lambda>b. map bw_exceeded (b_budgets b)) (budget_run 9 10) = Some [True]"
  by code_simp

text \<open>The computed health lists exactly the workstreams with signals, with the worst
  level of their signals, for each named source the worst level of its signals, and as latest
  signal one whose time stamp none of them exceeds.\<close>

lemma health_worst_flag:
  "case map_of (ComputeHealth ss) ws of
     None \<Rightarrow> filter (\<lambda>s. sg_Workstream s = ws) ss = []
   | Some h \<Rightarrow> h_Workstream h = ws \<and> health_ok (filter (\<lambda>s. sg_Workstream s = ws) ss) h"
  using ComputeHealth_spec [where ss = ss and ws = ws] by (auto simp: ws_signals_def)

end
