(* ===== verification/Go_Strings.thy ===== *)
theory Go_Strings
  imports Djinn_Prelude
begin

text \<open>
  The functions of Go's package \<^verbatim>\<open>strings\<close> the program uses, on byte strings. Lower-casing
  is the one of ASCII letters; the other bytes are kept, so texts that differ from their lower
  case outside ASCII are not covered.
\<close>

named_theorems go_string "definitions of string functions"

abbreviation (input) nl :: string where "nl \<equiv> [CHR 0x0A]"

definition has_prefix :: "string \<Rightarrow> string \<Rightarrow> bool" where
  "has_prefix s p = (take (length p) s = p)"

definition has_suffix :: "string \<Rightarrow> string \<Rightarrow> bool" where
  "has_suffix s p = (length p \<le> length s \<and> drop (length s - length p) s = p)"

fun str_contains :: "string \<Rightarrow> string \<Rightarrow> bool" where
  "str_contains [] p = (p = [])"
| "str_contains (c # s) p = (has_prefix (c # s) p \<or> str_contains s p)"

text \<open>Non-overlapping occurrences of a non-empty \<open>old\<close> from the left.\<close>

function (sequential) replace_all :: "string \<Rightarrow> string \<Rightarrow> string \<Rightarrow> string" where
  "replace_all [] old new = []"
| "replace_all (c # s) old new =
     (if old \<noteq> [] \<and> has_prefix (c # s) old then new @ replace_all (drop (length old) (c # s)) old new
      else c # replace_all s old new)"
  by pat_completeness auto
termination by (relation "measure (\<lambda>(s, old, new). length s)") auto

definition lower_char :: "char \<Rightarrow> char" where
  "lower_char c = (let n = of_char c :: nat in if 65 \<le> n \<and> n \<le> 90 then char_of (n + 32) else c)"

definition to_lower :: "string \<Rightarrow> string" where
  "to_lower s = map lower_char s"

fun str_join :: "string list \<Rightarrow> string \<Rightarrow> string" where
  "str_join [] sep = []"
| "str_join [s] sep = s"
| "str_join (s # t # ss) sep = s @ sep @ str_join (t # ss) sep"

lemma has_prefix_prefix: "has_prefix s p \<longleftrightarrow> prefix p s"
  unfolding has_prefix_def prefix_def by (metis append_eq_conv_conj append_take_drop_id)

lemma has_suffix_suffix: "has_suffix s p \<longleftrightarrow> suffix p s"
proof
  assume "has_suffix s p"
  then show "suffix p s" unfolding has_suffix_def by (metis suffix_drop)
next
  assume "suffix p s"
  then show "has_suffix s p" by (auto simp: has_suffix_def suffix_def)
qed

lemma str_contains_sublist: "str_contains s p \<longleftrightarrow> sublist p s"
  by (induction s) (auto simp: has_prefix_prefix sublist_Cons_right)

lemmas str_facts [go_string] = has_prefix_prefix has_suffix_suffix str_contains_sublist

lemma has_prefix_refl [simp]: "has_prefix s s"
  by (simp add: has_prefix_def)

lemma has_prefix_append [simp]: "has_prefix (p @ s) p"
  by (simp add: has_prefix_def)

text \<open>\<^verbatim>\<open>strings.Index\<close>: the position of the first occurrence.\<close>

fun str_index :: "string \<Rightarrow> string \<Rightarrow> nat option" where
  "str_index [] p = (if p = [] then Some 0 else None)"
| "str_index (c # s) p = (if has_prefix (c # s) p then Some 0 else map_option Suc (str_index s p))"

text \<open>\<^verbatim>\<open>strings.Count\<close> of a non-empty text: occurrences that do not overlap.\<close>

function (sequential) str_count :: "string \<Rightarrow> string \<Rightarrow> nat" where
  "str_count [] p = 0"
| "str_count (c # s) p =
     (if p \<noteq> [] \<and> has_prefix (c # s) p then Suc (str_count (drop (length p) (c # s)) p) else str_count s p)"
  by pat_completeness auto
termination by (relation "measure (\<lambda>(s, p). length s)") auto

text \<open>White space of ASCII; the other spaces of Unicode are not covered.\<close>

definition is_space :: "char \<Rightarrow> bool" where
  "is_space c = ((of_char c :: nat) \<in> {9, 10, 11, 12, 13, 32})"

definition trim_by :: "(char \<Rightarrow> bool) \<Rightarrow> string \<Rightarrow> string" where
  "trim_by P s = rev (dropWhile P (rev (dropWhile P s)))"

definition trim_space :: "string \<Rightarrow> string" where
  "trim_space s = trim_by is_space s"

definition trim_suffix :: "string \<Rightarrow> string \<Rightarrow> string" where
  "trim_suffix s p = (if has_suffix s p then take (length s - length p) s else s)"

definition trim_prefix :: "string \<Rightarrow> string \<Rightarrow> string" where
  "trim_prefix s p = (if has_prefix s p then drop (length p) s else s)"

text \<open>\<^verbatim>\<open>strings.Split\<close> at a separator of one byte, and \<^verbatim>\<open>strings.Fields\<close>.\<close>

fun split_at :: "(char \<Rightarrow> bool) \<Rightarrow> string \<Rightarrow> string list" where
  "split_at P [] = [[]]"
| "split_at P (c # s) =
     (if P c then [] # split_at P s
      else case split_at P s of [] \<Rightarrow> [[c]] | w # ws \<Rightarrow> (c # w) # ws)"

definition str_split :: "string \<Rightarrow> char \<Rightarrow> string list" where
  "str_split s sep = split_at (\<lambda>c. c = sep) s"

definition str_fields :: "string \<Rightarrow> string list" where
  "str_fields s = filter (\<lambda>w. w \<noteq> []) (split_at is_space s)"

definition upper_char :: "char \<Rightarrow> char" where
  "upper_char c = (let n = of_char c :: nat in if 97 \<le> n \<and> n \<le> 122 then char_of (n - 32) else c)"

definition to_upper :: "string \<Rightarrow> string" where
  "to_upper s = map upper_char s"

text \<open>The position of the last byte that satisfies a test.\<close>

definition last_index :: "(char \<Rightarrow> bool) \<Rightarrow> string \<Rightarrow> nat option" where
  "last_index P s = (case filter (\<lambda>i. P (s ! i)) [0..<length s] of [] \<Rightarrow> None | i # is \<Rightarrow> Some (last (i # is)))"

text \<open>
  The lines \<^verbatim>\<open>bufio.Scanner\<close> gives: without line ends, the last one only when it is not empty, and none from the
  first on that does not fit the buffer of 65536 bytes.
\<close>

definition drop_cr :: "string \<Rightarrow> string" where
  "drop_cr l = (if l \<noteq> [] \<and> last l = CHR 0x0D then butlast l else l)"

definition scan_lines :: "string \<Rightarrow> string list" where
  "scan_lines s =
     (let ls = str_split s (CHR 0x0A); ls' = (if last ls = [] then butlast ls else ls)
      in map drop_cr (takeWhile (\<lambda>l. int (length l) < 65536) ls'))"

lemma split_at_not_Nil [simp]: "split_at P s \<noteq> []"
  by (induction s) (auto split: list.split)

lemma split_at_no_sep: "\<forall>w \<in> set (split_at P s). \<forall>c \<in> set w. \<not> P c"
proof (induction s)
  case (Cons c s)
  obtain w ws where "split_at P s = w # ws" by (cases "split_at P s") auto
  with Cons show ?case by simp
qed simp

lemma str_split_join: "str_join (str_split s sep) [sep] = s"
proof (induction s)
  case (Cons c s)
  obtain w ws where w: "split_at (\<lambda>c. c = sep) s = w # ws" by (cases "split_at (\<lambda>c. c = sep) s") auto
  show ?case
  proof (cases "c = sep")
    case True
    then show ?thesis using Cons by (simp add: str_split_def w)
  next
    case False
    then show ?thesis using Cons by (cases ws) (simp_all add: str_split_def w)
  qed
qed (simp add: str_split_def)

lemma split_join_at:
  "ws \<noteq> [] \<Longrightarrow> \<forall>w \<in> set ws. sep \<notin> set w \<Longrightarrow> str_split (str_join ws [sep]) sep = ws"
proof -
  have one: "sep \<notin> set w \<Longrightarrow> split_at (\<lambda>c. c = sep) w = [w]" for w
    by (induction w) auto
  have more: "sep \<notin> set w \<Longrightarrow> split_at (\<lambda>c. c = sep) (w @ sep # s) = w # split_at (\<lambda>c. c = sep) s" for w s
    by (induction w) auto
  show "ws \<noteq> [] \<Longrightarrow> \<forall>w \<in> set ws. sep \<notin> set w \<Longrightarrow> str_split (str_join ws [sep]) sep = ws"
    unfolding str_split_def by (induction ws "[sep]" rule: str_join.induct) (auto simp: one more)
qed

lemma str_index_Some:
  "str_index s p = Some i \<Longrightarrow> i + length p \<le> length s \<and> has_prefix (drop i s) p \<and> (\<forall>j<i. \<not> has_prefix (drop j s) p)"
proof (induction s arbitrary: i)
  case Nil
  then show ?case by (simp add: has_prefix_def split: if_splits)
next
  case (Cons c s)
  show ?case
  proof (cases "has_prefix (c # s) p")
    case True
    then show ?thesis using Cons.prems by (auto simp: has_prefix_prefix dest: prefix_length_le)
  next
    case False
    then obtain k where "str_index s p = Some k" "i = Suc k" using Cons.prems by auto
    then show ?thesis using Cons.IH [of k] False by (auto simp: less_Suc_eq_0_disj)
  qed
qed

lemma str_index_None: "str_index s p = None \<longleftrightarrow> \<not> str_contains s p"
  by (induction s) auto

lemma str_count_contains: "p \<noteq> [] \<Longrightarrow> 0 < str_count s p \<longleftrightarrow> str_contains s p"
proof (induction s p rule: str_count.induct)
  case (2 c s p)
  then show ?case by (cases "has_prefix (c # s) p") simp_all
qed simp

lemma str_count_0: "p \<noteq> [] \<Longrightarrow> str_count s p = 0 \<longleftrightarrow> \<not> str_contains s p"
  using str_count_contains [of p s] by linarith

lemma str_index_split:
  assumes "str_index s p = Some i"
  shows "s = take i s @ p @ drop (i + length p) s"
proof -
  have "take (length p) (drop i s) = p" using str_index_Some [OF assms] by (simp add: has_prefix_def)
  then have "drop i s = p @ drop (length p) (drop i s)" by (metis append_take_drop_id)
  then show ?thesis by (metis append_take_drop_id add.commute drop_drop)
qed

end
