(* ===== verification/Broker_Scopes.thy ===== *)
theory Broker_Scopes
  imports Go_Strings Telemetry_Signals "HOL-Library.Signed_Division"
begin

text \<open>
  The scopes of package \<^verbatim>\<open>broker\<close>: cordons and path overlap (\<^verbatim>\<open>cordon.go\<close>), the andon
  board (\<^verbatim>\<open>andon.go\<close>), units and formations with their validation and budget division
  (\<^verbatim>\<open>unit.go\<close>, \<^verbatim>\<open>disjoint.go\<close>, \<^verbatim>\<open>formation.go\<close>), the formation templates and
  their instantiation (\<^verbatim>\<open>templates.go\<close>, \<^verbatim>\<open>instantiate.go\<close>) and the routing strategies
  (\<^verbatim>\<open>router.go\<close>). Token and time budgets do not overflow here: they are only divided.
\<close>

subsection \<open>Paths\<close>

definition pathPrefix :: "string \<Rightarrow> string \<Rightarrow> bool" where
  "pathPrefix a b = (if a = b then True else has_prefix b (if has_suffix a ''/'' then a else a @ ''/''))"

definition pathsOverlap :: "string list \<Rightarrow> string list \<Rightarrow> bool" where
  "pathsOverlap a b = list_ex (\<lambda>pa. list_ex (\<lambda>pb. pathPrefix pa pb \<or> pathPrefix pb pa) b) a"

subsection \<open>Cordons\<close>

record cordon =
  c_Scope :: "string list"
  c_Reason :: string
  c_Source :: string
  c_Timestamp :: gotime
  c_Cleared :: bool

type_synonym cordon_registry = "cordon list"

definition new_cordon_registry :: cordon_registry where
  "new_cordon_registry = []"

definition cordon_set :: "gotime \<Rightarrow> string list \<Rightarrow> string \<Rightarrow> string \<Rightarrow> cordon_registry \<Rightarrow> cordon_registry" where
  "cordon_set now scope reason source r =
     r @ [\<lparr>c_Scope = scope, c_Reason = reason, c_Source = source, c_Timestamp = now, c_Cleared = False\<rparr>]"

definition cordon_clear :: "string list \<Rightarrow> cordon_registry \<Rightarrow> cordon_registry" where
  "cordon_clear scope r =
     map (\<lambda>c. if \<not> c_Cleared c \<and> pathsOverlap (c_Scope c) scope then c\<lparr>c_Cleared := True\<rparr> else c) r"

definition cordon_overlaps :: "string list \<Rightarrow> cordon_registry \<Rightarrow> cordon list" where
  "cordon_overlaps paths r = filter (\<lambda>c. \<not> c_Cleared c \<and> pathsOverlap (c_Scope c) paths) r"

definition cordon_active :: "cordon_registry \<Rightarrow> cordon list" where
  "cordon_active r = filter (\<lambda>c. \<not> c_Cleared c) r"

subsection \<open>The andon board\<close>

record andon_board =
  ab_Level :: flag_level
  ab_Workstreams :: "(string, ws_health) gomap"
  ab_Cordons :: "cordon list"

definition ComputeAndon :: "(string, ws_health) gomap \<Rightarrow> cordon list \<Rightarrow> andon_board" where
  "ComputeAndon health cordons =
     (let level = foldl (\<lambda>l h. if h_Level h > l then h_Level h else l) Green (vals health)
      in \<lparr>ab_Level = (if cordons \<noteq> [] \<and> level < Red then Red else level),
          ab_Workstreams = health, ab_Cordons = cordons\<rparr>)"

subsection \<open>Units and formations\<close>

definition RoleExecutor :: string where "RoleExecutor = ''executor''"
definition RoleReviewer :: string where "RoleReviewer = ''reviewer''"
definition RoleLead :: string where "RoleLead = ''lead''"
definition RoleObserver :: string where "RoleObserver = ''observer''"

record unit_scope =
  us_RO :: "string list option"
  us_RW :: "string list option"

record budget =
  bd_Tokens :: int
  bd_WallClock :: int

record termination_cond =
  tc_Type :: string
  tc_Target :: string

record work_cell =
  u_Role :: string
  u_Scope :: unit_scope
  u_Budget :: budget
  u_TerminatesWhen :: termination_cond
  u_Env :: "(string, string) gomap option"

definition zero_budget :: budget where
  "zero_budget = \<lparr>bd_Tokens = 0, bd_WallClock = 0\<rparr>"

definition budget_is_zero :: "budget \<Rightarrow> bool" where
  "budget_is_zero b = (bd_Tokens b = 0 \<and> bd_WallClock b = 0)"

definition go_slice :: "'a list option \<Rightarrow> 'a list" where
  "go_slice s = (case s of None \<Rightarrow> [] | Some xs \<Rightarrow> xs)"

definition rw_paths :: "work_cell \<Rightarrow> string list" where
  "rw_paths u = go_slice (us_RW (u_Scope u))"

datatype formation_error =
    ErrNoFormationName
  | ErrEmptyFormation
  | ErrEmptyRole nat
  | ErrInvalidEdgeIndex nat
  | ErrOverlappingScopes nat nat
  | ErrFormationTemplateNotFound string

definition unit_valid :: "work_cell \<Rightarrow> bool" where
  "unit_valid u = (u_Role u \<noteq> [])"

definition IsObserver :: "work_cell \<Rightarrow> bool" where
  "IsObserver u = (u_Role u = RoleObserver)"

record edge =
  ed_From :: int
  ed_To :: int
  ed_Channel :: string

record formation =
  f_Name :: string
  f_Units :: "work_cell list"
  f_Edges :: "edge list"
  f_Budget :: budget
  f_Observers :: "work_cell list"

text \<open>The two loops of \<^verbatim>\<open>ValidateScopeDisjointness\<close>.\<close>

fun overlap_from :: "nat \<Rightarrow> work_cell \<Rightarrow> nat \<Rightarrow> work_cell list \<Rightarrow> formation_error option" where
  "overlap_from i u j [] = None"
| "overlap_from i u j (v # vs) =
     (if IsObserver v then overlap_from i u (Suc j) vs
      else if pathsOverlap (rw_paths u) (rw_paths v) then Some (ErrOverlappingScopes i j)
      else overlap_from i u (Suc j) vs)"

fun scopes_disjoint :: "nat \<Rightarrow> work_cell list \<Rightarrow> formation_error option" where
  "scopes_disjoint i [] = None"
| "scopes_disjoint i (u # us) =
     (if IsObserver u then scopes_disjoint (Suc i) us
      else case overlap_from i u (Suc i) us of Some e \<Rightarrow> Some e | None \<Rightarrow> scopes_disjoint (Suc i) us)"

definition ValidateScopeDisjointness :: "work_cell list \<Rightarrow> formation_error option" where
  "ValidateScopeDisjointness units = scopes_disjoint 0 units"

fun first_empty_role :: "nat \<Rightarrow> work_cell list \<Rightarrow> formation_error option" where
  "first_empty_role i [] = None"
| "first_empty_role i (u # us) = (if unit_valid u then first_empty_role (Suc i) us else Some (ErrEmptyRole i))"

fun first_bad_edge :: "int \<Rightarrow> nat \<Rightarrow> edge list \<Rightarrow> formation_error option" where
  "first_bad_edge n i [] = None"
| "first_bad_edge n i (e # es) =
     (if ed_From e < 0 \<or> ed_From e \<ge> n \<or> ed_To e < 0 \<or> ed_To e \<ge> n then Some (ErrInvalidEdgeIndex i)
      else first_bad_edge n (Suc i) es)"

definition formation_validate :: "formation \<Rightarrow> formation_error option" where
  "formation_validate f =
     (if f_Name f = [] then Some ErrNoFormationName
      else if f_Units f = [] then Some ErrEmptyFormation
      else case first_empty_role 0 (f_Units f) of Some e \<Rightarrow> Some e
      | None \<Rightarrow> (case first_bad_edge (int (length (f_Units f))) 0 (f_Edges f) of Some e \<Rightarrow> Some e
      | None \<Rightarrow> ValidateScopeDisjointness (f_Units f)))"

definition needs_budget :: "work_cell \<Rightarrow> bool" where
  "needs_budget u = (budget_is_zero (u_Budget u) \<and> \<not> IsObserver u)"

definition DivideBudget :: "formation \<Rightarrow> formation" where
  "DivideBudget f =
     (if budget_is_zero (f_Budget f) then f
      else let n = length (filter needs_budget (f_Units f))
           in if n = 0 then f
              else let share = \<lparr>bd_Tokens = bd_Tokens (f_Budget f) sdiv int n,
                                bd_WallClock = bd_WallClock (f_Budget f) sdiv int n\<rparr>
                   in f\<lparr>f_Units := map (\<lambda>u. if needs_budget u then u\<lparr>u_Budget := share\<rparr> else u) (f_Units f)\<rparr>)"

subsection \<open>Templates\<close>

definition templateScopeVar :: string where "templateScopeVar = ''${task.scope}''"
definition defaultWorkspacePath :: string where "defaultWorkspacePath = ''/workspace''"

definition substituteVar :: "string \<Rightarrow> string \<Rightarrow> string" where
  "substituteVar s scope = replace_all s templateScopeVar scope"

definition substituteSlice :: "string list option \<Rightarrow> string \<Rightarrow> string list option" where
  "substituteSlice paths scope = map_option (map (\<lambda>p. substituteVar p scope)) paths"

definition substituteTermination :: "termination_cond \<Rightarrow> string \<Rightarrow> termination_cond" where
  "substituteTermination t scope = \<lparr>tc_Type = tc_Type t, tc_Target = substituteVar (tc_Target t) scope\<rparr>"

definition substituteUnit :: "work_cell \<Rightarrow> string \<Rightarrow> work_cell" where
  "substituteUnit u scope =
     \<lparr>u_Role = u_Role u,
      u_Scope = \<lparr>us_RO = substituteSlice (us_RO (u_Scope u)) scope, us_RW = substituteSlice (us_RW (u_Scope u)) scope\<rparr>,
      u_Budget = u_Budget u, u_TerminatesWhen = substituteTermination (u_TerminatesWhen u) scope,
      u_Env = map_option (map (\<lambda>(k, v). (k, substituteVar v scope))) (u_Env u)\<rparr>"

definition Instantiate :: "formation \<Rightarrow> string \<Rightarrow> budget \<Rightarrow> formation_error + formation" where
  "Instantiate tmpl scope totalBudget =
     (let f = DivideBudget \<lparr>f_Name = f_Name tmpl, f_Units = map (\<lambda>u. substituteUnit u scope) (f_Units tmpl),
                f_Edges = f_Edges tmpl, f_Budget = totalBudget,
                f_Observers = map (\<lambda>u. substituteUnit u scope) (f_Observers tmpl)\<rparr>
      in case formation_validate f of Some e \<Rightarrow> Inl e | None \<Rightarrow> Inr f)"

definition cell :: "string \<Rightarrow> string list option \<Rightarrow> string list option \<Rightarrow> string \<Rightarrow> string \<Rightarrow> work_cell" where
  "cell role ro rw ty target = \<lparr>u_Role = role, u_Scope = \<lparr>us_RO = ro, us_RW = rw\<rparr>, u_Budget = zero_budget,
     u_TerminatesWhen = \<lparr>tc_Type = ty, tc_Target = target\<rparr>, u_Env = None\<rparr>"

definition TemplateSolo :: formation where
  "TemplateSolo = \<lparr>f_Name = ''solo'',
     f_Units = [cell RoleExecutor (Some [defaultWorkspacePath]) (Some [templateScopeVar]) ''tests_pass'' templateScopeVar],
     f_Edges = [], f_Budget = zero_budget, f_Observers = []\<rparr>"

definition TemplateDuo :: formation where
  "TemplateDuo = \<lparr>f_Name = ''duo'',
     f_Units = [cell RoleReviewer (Some [templateScopeVar]) None ''reviewer_approves'' [],
       cell RoleExecutor (Some [defaultWorkspacePath]) (Some [templateScopeVar]) ''tests_pass'' templateScopeVar],
     f_Edges = [\<lparr>ed_From = 1, ed_To = 0, ed_Channel = ''promotion_gate''\<rparr>],
     f_Budget = zero_budget, f_Observers = []\<rparr>"

definition TemplateSquad :: formation where
  "TemplateSquad = \<lparr>f_Name = ''squad'',
     f_Units = [cell RoleLead (Some [templateScopeVar]) None ''reviewer_approves'' [],
       cell RoleExecutor (Some [defaultWorkspacePath]) (Some [templateScopeVar @ ''/area-1'']) ''tests_pass'' [],
       cell RoleExecutor (Some [defaultWorkspacePath]) (Some [templateScopeVar @ ''/area-2'']) ''tests_pass'' [],
       cell RoleExecutor (Some [defaultWorkspacePath]) (Some [templateScopeVar @ ''/area-3'']) ''tests_pass'' []],
     f_Edges = map (\<lambda>i. \<lparr>ed_From = i, ed_To = 0, ed_Channel = ''promotion_gate''\<rparr>) [1, 2, 3],
     f_Budget = zero_budget, f_Observers = []\<rparr>"

definition TemplateByName :: "string \<Rightarrow> formation_error + formation" where
  "TemplateByName name =
     (if name = ''solo'' then Inr TemplateSolo else if name = ''duo'' then Inr TemplateDuo
      else if name = ''squad'' then Inr TemplateSquad else Inl (ErrFormationTemplateNotFound name))"

subsection \<open>Routing\<close>

record broker_backend =
  be_ID :: string
  be_Role :: string
  be_Capacity :: int
  be_Load :: int

text \<open>The round-robin counter starts at zero and counts routed units; an empty backend list is the
  error.\<close>

definition flat_route :: "nat \<Rightarrow> broker_backend list \<Rightarrow> (broker_backend \<times> nat) option" where
  "flat_route nxt backends = (if backends = [] then None else Some (backends ! (nxt mod length backends), nxt + 1))"

definition chain_route :: "broker_backend list \<Rightarrow> broker_backend option" where
  "chain_route backends = (case backends of [] \<Rightarrow> None | b # _ \<Rightarrow> Some b)"

subsection \<open>Facts about paths\<close>

definition with_slash :: "string \<Rightarrow> string" where
  "with_slash a = (if has_suffix a ''/'' then a else a @ ''/'')"

lemma pathPrefix_iff: "pathPrefix a b \<longleftrightarrow> a = b \<or> prefix (with_slash a) b"
  by (simp add: pathPrefix_def with_slash_def has_prefix_prefix)

lemma with_slash_ends: "\<exists>d. with_slash a = d @ ''/''"
  by (auto simp: with_slash_def has_suffix_suffix suffix_def)

lemma with_slash_cases: "with_slash a = a \<or> with_slash a = a @ ''/''"
  by (simp add: with_slash_def)

text \<open>Two scopes that cover one path are comparable.\<close>

lemma pathPrefix_common:
  assumes "pathPrefix a p" "pathPrefix b p"
  shows "pathPrefix a b \<or> pathPrefix b a"
proof -
  have *: "pathPrefix x y \<or> pathPrefix y x" if h: "prefix (with_slash x) (with_slash y)" for x y
  proof (cases "with_slash y = y")
    case True
    with h show ?thesis by (simp add: pathPrefix_iff)
  next
    case False
    then have y: "with_slash y = y @ ''/''" using with_slash_cases by blast
    from h y consider "with_slash x = y @ ''/''" | "prefix (with_slash x) y"
      by (auto simp: prefix_snoc)
    then show ?thesis
    proof cases
      case 1
      from with_slash_cases [of x] show ?thesis
      proof
        assume "with_slash x = x"
        then have "x = with_slash y" using 1 y by simp
        then show ?thesis by (simp add: pathPrefix_iff)
      next
        assume "with_slash x = x @ ''/''"
        then have "x = y" using 1 by simp
        then show ?thesis by (simp add: pathPrefix_iff)
      qed
    next
      case 2
      then show ?thesis by (simp add: pathPrefix_iff)
    qed
  qed
  from assms show ?thesis
    unfolding pathPrefix_iff using * prefix_same_cases pathPrefix_iff by metis
qed

lemma pathsOverlap_iff: "pathsOverlap a b \<longleftrightarrow> (\<exists>x \<in> set a. \<exists>y \<in> set b. pathPrefix x y \<or> pathPrefix y x)"
  by (simp add: pathsOverlap_def list_ex_iff)

lemma pathsOverlap_sym: "pathsOverlap a b = pathsOverlap b a"
  by (auto simp: pathsOverlap_iff)

lemma pathsOverlap_common:
  "x \<in> set a \<Longrightarrow> y \<in> set b \<Longrightarrow> pathPrefix x p \<Longrightarrow> pathPrefix y p \<Longrightarrow> pathsOverlap a b"
  using pathPrefix_common unfolding pathsOverlap_iff by blast

subsection \<open>Facts about validation\<close>

lemma overlap_from_None:
  "overlap_from i u j vs = None \<longleftrightarrow> (\<forall>v \<in> set vs. IsObserver v \<or> \<not> pathsOverlap (rw_paths u) (rw_paths v))"
  by (induction vs arbitrary: j) auto

lemma scopes_disjoint_None:
  "scopes_disjoint i us = None \<longleftrightarrow>
     (\<forall>a b. a < b \<and> b < length us \<and> \<not> IsObserver (us ! a) \<and> \<not> IsObserver (us ! b) \<longrightarrow>
        \<not> pathsOverlap (rw_paths (us ! a)) (rw_paths (us ! b)))"
proof (induction us arbitrary: i)
  case Nil
  then show ?case by simp
next
  case (Cons u us)
  have split: "(\<forall>a b. a < b \<and> b < length (u # us) \<and> \<not> IsObserver ((u # us) ! a) \<and> \<not> IsObserver ((u # us) ! b) \<longrightarrow>
        \<not> pathsOverlap (rw_paths ((u # us) ! a)) (rw_paths ((u # us) ! b))) \<longleftrightarrow>
     (IsObserver u \<or> (\<forall>v \<in> set us. IsObserver v \<or> \<not> pathsOverlap (rw_paths u) (rw_paths v))) \<and>
     (\<forall>a b. a < b \<and> b < length us \<and> \<not> IsObserver (us ! a) \<and> \<not> IsObserver (us ! b) \<longrightarrow>
        \<not> pathsOverlap (rw_paths (us ! a)) (rw_paths (us ! b)))" (is "?L \<longleftrightarrow> ?H \<and> ?T")
  proof
    assume L: ?L
    have ?H using L [THEN spec [of _ 0]] by (force simp: in_set_conv_nth)
    moreover have ?T
    proof (intro allI impI)
      fix a b assume "a < b \<and> b < length us \<and> \<not> IsObserver (us ! a) \<and> \<not> IsObserver (us ! b)"
      then show "\<not> pathsOverlap (rw_paths (us ! a)) (rw_paths (us ! b))"
        using L [THEN spec [of _ "Suc a"], THEN spec [of _ "Suc b"]] by simp
    qed
    ultimately show "?H \<and> ?T" by blast
  next
    assume R: "?H \<and> ?T"
    show ?L
    proof (intro allI impI)
      fix a b assume ab: "a < b \<and> b < length (u # us) \<and> \<not> IsObserver ((u # us) ! a) \<and> \<not> IsObserver ((u # us) ! b)"
      then obtain b' where b: "b = Suc b'" by (cases b) auto
      show "\<not> pathsOverlap (rw_paths ((u # us) ! a)) (rw_paths ((u # us) ! b))"
        using R ab by (cases a) (auto simp: b)
    qed
  qed
  have step: "scopes_disjoint i (u # us) = None \<longleftrightarrow>
      (IsObserver u \<or> overlap_from i u (Suc i) us = None) \<and> scopes_disjoint (Suc i) us = None"
    by (auto split: option.splits)
  show ?case unfolding split step overlap_from_None Cons.IH [of "Suc i"] by (rule refl)
qed

lemma first_empty_role_None: "first_empty_role i us = None \<longleftrightarrow> (\<forall>u \<in> set us. u_Role u \<noteq> [])"
  by (induction us arbitrary: i) (auto simp: unit_valid_def)

lemma first_bad_edge_None:
  "first_bad_edge n i es = None \<longleftrightarrow> (\<forall>e \<in> set es. 0 \<le> ed_From e \<and> ed_From e < n \<and> 0 \<le> ed_To e \<and> ed_To e < n)"
  by (induction es arbitrary: i) auto

lemma formation_validate_None:
  "formation_validate f = None \<longleftrightarrow> f_Name f \<noteq> [] \<and> f_Units f \<noteq> [] \<and> (\<forall>u \<in> set (f_Units f). u_Role u \<noteq> []) \<and>
     (\<forall>e \<in> set (f_Edges f). 0 \<le> ed_From e \<and> ed_From e < int (length (f_Units f)) \<and>
        0 \<le> ed_To e \<and> ed_To e < int (length (f_Units f))) \<and>
     ValidateScopeDisjointness (f_Units f) = None"
  using first_empty_role_None [of 0 "f_Units f"] first_bad_edge_None [of "int (length (f_Units f))" 0 "f_Edges f"]
  by (auto simp: formation_validate_def split: option.splits)

lemma DivideBudget_simps [simp]:
  "f_Name (DivideBudget f) = f_Name f" "f_Edges (DivideBudget f) = f_Edges f"
  "map u_Role (f_Units (DivideBudget f)) = map u_Role (f_Units f)"
  "map u_Scope (f_Units (DivideBudget f)) = map u_Scope (f_Units f)"
  by (auto simp: DivideBudget_def Let_def)

subsection \<open>Instantiating the built-in templates\<close>

lemma substitute_scope [simp]: "substituteVar templateScopeVar s = s"
  by (simp add: substituteVar_def templateScopeVar_def has_prefix_def)

lemma substitute_area: "substituteVar (templateScopeVar @ ''/area-'' @ [c]) s = s @ replace_all (''/area-'' @ [c]) templateScopeVar s"
  by (simp add: substituteVar_def templateScopeVar_def has_prefix_def)

lemma replace_area: "replace_all (''/area-'' @ [c]) templateScopeVar s = ''/area-'' @ [c]"
  by (simp add: templateScopeVar_def has_prefix_def)

lemma substitute_area' [simp]:
  "substituteVar (templateScopeVar @ ''/area-'' @ [c]) s = s @ ''/area-'' @ [c]"
  unfolding substitute_area replace_area by simp

lemma squad_units:
  "map u_Scope (map (\<lambda>u. substituteUnit u s) (f_Units TemplateSquad)) =
     [\<lparr>us_RO = Some [s], us_RW = None\<rparr>,
      \<lparr>us_RO = Some [substituteVar defaultWorkspacePath s], us_RW = Some [s @ ''/area-1'']\<rparr>,
      \<lparr>us_RO = Some [substituteVar defaultWorkspacePath s], us_RW = Some [s @ ''/area-2'']\<rparr>,
      \<lparr>us_RO = Some [substituteVar defaultWorkspacePath s], us_RW = Some [s @ ''/area-3'']\<rparr>]"
  using substitute_area' [of "CHR ''1''" s] substitute_area' [of "CHR ''2''" s] substitute_area' [of "CHR ''3''" s]
  by (simp add: TemplateSquad_def cell_def substituteUnit_def substituteSlice_def)

lemma areas_disjoint:
  assumes "c \<noteq> d" "c \<noteq> CHR ''/''" "d \<noteq> CHR ''/''"
  shows "\<not> pathPrefix (s @ ''/area-'' @ [c]) (s @ ''/area-'' @ [d])"
  using assms by (simp add: pathPrefix_def has_prefix_def has_suffix_def)

lemma solo_valid:
  assumes "f_Name f = f_Name TemplateSolo" "f_Edges f = f_Edges TemplateSolo"
    "map u_Role (f_Units f) = map u_Role (f_Units TemplateSolo)"
  shows "formation_validate f = None"
proof -
  obtain a where u: "f_Units f = [a]" "u_Role a = RoleExecutor"
    using assms(3) by (auto simp: TemplateSolo_def cell_def)
  show ?thesis
    using assms by (simp add: formation_validate_None u TemplateSolo_def ValidateScopeDisjointness_def RoleExecutor_def)
qed

lemma duo_valid:
  assumes "f_Name f = f_Name TemplateDuo" "f_Edges f = f_Edges TemplateDuo"
    "map u_Role (f_Units f) = map u_Role (f_Units TemplateDuo)"
    "map u_Scope (f_Units f) = map u_Scope (map (\<lambda>u. substituteUnit u s) (f_Units TemplateDuo))"
  shows "formation_validate f = None"
proof -
  obtain a b where u: "f_Units f = [a, b]" "u_Role a = RoleReviewer" "u_Role b = RoleExecutor"
    using assms(3) by (auto simp: TemplateDuo_def cell_def)
  have "us_RW (u_Scope a) = None"
    using assms(4) by (simp add: u TemplateDuo_def cell_def substituteUnit_def substituteSlice_def)
  then have "rw_paths a = []" by (simp add: rw_paths_def go_slice_def)
  then show ?thesis
    using assms(1,2)
    by (simp add: formation_validate_None u TemplateDuo_def ValidateScopeDisjointness_def RoleExecutor_def
        RoleReviewer_def pathsOverlap_def)
qed

lemma squad_valid:
  assumes "f_Name f = f_Name TemplateSquad" "f_Edges f = f_Edges TemplateSquad"
    "map u_Role (f_Units f) = map u_Role (f_Units TemplateSquad)"
    "map u_Scope (f_Units f) = map u_Scope (map (\<lambda>u. substituteUnit u s) (f_Units TemplateSquad))"
  shows "formation_validate f = None"
proof -
  obtain a b c d where u: "f_Units f = [a, b, c, d]"
    and r: "u_Role a = RoleLead" "u_Role b = RoleExecutor" "u_Role c = RoleExecutor" "u_Role d = RoleExecutor"
    using assms(3) by (auto simp: TemplateSquad_def cell_def)
  have "rw_paths a = []" "rw_paths b = [s @ ''/area-1'']" "rw_paths c = [s @ ''/area-2'']" "rw_paths d = [s @ ''/area-3'']"
    using assms(4) unfolding squad_units u by (simp_all add: rw_paths_def go_slice_def)
  moreover have "\<not> pathPrefix (s @ ''/area-1'') (s @ ''/area-2'')" "\<not> pathPrefix (s @ ''/area-2'') (s @ ''/area-1'')"
    "\<not> pathPrefix (s @ ''/area-1'') (s @ ''/area-3'')" "\<not> pathPrefix (s @ ''/area-3'') (s @ ''/area-1'')"
    "\<not> pathPrefix (s @ ''/area-2'') (s @ ''/area-3'')" "\<not> pathPrefix (s @ ''/area-3'') (s @ ''/area-2'')"
    using areas_disjoint [of "CHR ''1''" "CHR ''2''" s] areas_disjoint [of "CHR ''2''" "CHR ''1''" s]
      areas_disjoint [of "CHR ''1''" "CHR ''3''" s] areas_disjoint [of "CHR ''3''" "CHR ''1''" s]
      areas_disjoint [of "CHR ''2''" "CHR ''3''" s] areas_disjoint [of "CHR ''3''" "CHR ''2''" s] by simp_all
  ultimately have "ValidateScopeDisjointness (f_Units f) = None"
    by (simp add: ValidateScopeDisjointness_def u pathsOverlap_def)
  then show ?thesis
    using assms(1,2) by (simp add: formation_validate_None u r TemplateSquad_def RoleExecutor_def RoleLead_def)
qed

lemma template_valid:
  assumes "tmpl = TemplateSolo \<or> tmpl = TemplateDuo \<or> tmpl = TemplateSquad"
    "f_Name f = f_Name tmpl" "f_Edges f = f_Edges tmpl" "map u_Role (f_Units f) = map u_Role (f_Units tmpl)"
    "map u_Scope (f_Units f) = map u_Scope (map (\<lambda>u. substituteUnit u s) (f_Units tmpl))"
  shows "formation_validate f = None"
  using assms solo_valid [of f] duo_valid [of f s] squad_valid [of f s] by (elim disjE) simp_all

subsection \<open>Facts about budgets, cordons and the andon level\<close>

lemma sum_share:
  assumes "\<And>u. u \<in> set us \<Longrightarrow> \<not> P u \<Longrightarrow> g u = (0::int)"
  shows "sum_list (map (\<lambda>u. if P u then k else g u) us) = int (length (filter P us)) * k"
  using assms by (induction us) (auto simp: algebra_simps)

lemma sdiv_share: "0 \<le> t \<Longrightarrow> 0 < n \<Longrightarrow> int n * (t sdiv int n) \<le> t \<and> t - int n * (t sdiv int n) < int n"
proof -
  assume t: "0 \<le> t" "0 < n"
  have e: "t sdiv int n = t div int n" using t by (cases "t = 0") (simp_all add: signed_divide_int_def)
  have m: "int n * (t div int n) + t mod int n = t" "0 \<le> t mod int n" "t mod int n < int n" using t by simp_all
  show ?thesis unfolding e using m by (intro conjI) linarith+
qed

lemma cordon_clear_overlaps: "cordon_overlaps scope (cordon_clear scope r) = []"
  by (auto simp: cordon_overlaps_def cordon_clear_def filter_empty_conv)

lemma foldl_max: "foldl (\<lambda>l h. max l (f h)) z hs = Max (insert z (f ` set hs))"
proof (induction hs arbitrary: z)
  case (Cons h hs)
  have "Max (insert (max z (f h)) (f ` set hs)) = Max (insert z (insert (f h) (f ` set hs)))"
    by (cases "hs = []") (simp_all add: max.assoc)
  with Cons.IH [of "max z (f h)"] show ?case by simp
qed simp

lemma foldl_max_level:
  "foldl (\<lambda>l (h :: ws_health). if h_Level h > l then h_Level h else l) z hs = Max (insert z (h_Level ` set hs))"
proof -
  have "(\<lambda>l (h :: ws_health). if h_Level h > l then h_Level h else l) = (\<lambda>l h. max l (h_Level h))"
    by (auto simp: fun_eq_iff max_def)
  then show ?thesis by (simp only: foldl_max)
qed

end
