(* ===== verification/Broker_Workstreams.thy ===== *)
theory Broker_Workstreams
  imports Broker_Scopes
begin

text \<open>
  The workstream registry of package \<^verbatim>\<open>broker\<close> (\<^verbatim>\<open>workstream.go\<close>) and the life of an
  intent in the broker (\<^verbatim>\<open>broker.go\<close>).

  The registry's map and its pending queue share pointers to the same records, and a status
  written through one is read through the other: records live in a heap, a pointer is an index
  of it. The per-workstream bus no operation here reads is left out. \<^verbatim>\<open>HandleIntent\<close> runs in a
  goroutine: it is split at the point where it waits for the execution, and what the plan
  factory and the orchestrator answer is an argument.
\<close>

datatype ws_status = WorkstreamRunning | WorkstreamCompleted | WorkstreamFailed | WorkstreamCanceled | WorkstreamPending

record ws_info =
  w_ID :: string
  w_IntentID :: string
  w_Action :: string
  w_Status :: ws_status
  w_Scopes :: "string list"
  w_Health :: flag_level
  w_StartedAt :: gotime
  w_EndedAt :: gotime

record ws_registry =
  wr_heap :: "ws_info list"
  wr_map :: "(string, nat) gomap"
  wr_max :: int
  wr_pending :: "nat list"

definition new_ws_registry :: "int \<Rightarrow> ws_registry" where
  "new_ws_registry n = \<lparr>wr_heap = [], wr_map = [], wr_max = n, wr_pending = []\<rparr>"

definition ws_at :: "ws_registry \<Rightarrow> nat \<Rightarrow> ws_info" where
  "ws_at r p = wr_heap r ! p"

definition activeCount :: "ws_registry \<Rightarrow> nat" where
  "activeCount r = length (filter (\<lambda>(i, p). w_Status (ws_at r p) = WorkstreamRunning) (wr_map r))"

definition ws_store :: "ws_info \<Rightarrow> ws_registry \<Rightarrow> ws_registry" where
  "ws_store info r = r\<lparr>wr_heap := wr_heap r @ [info], wr_map := mset_at (wr_map r) (w_ID info) (length (wr_heap r))\<rparr>"

definition ws_write :: "nat \<Rightarrow> (ws_info \<Rightarrow> ws_info) \<Rightarrow> ws_registry \<Rightarrow> ws_registry" where
  "ws_write p f r = r\<lparr>wr_heap := (wr_heap r)[p := f (ws_at r p)]\<rparr>"

text \<open>The result: whether the workstream was accepted, and its position in the queue.\<close>

definition TryRegister :: "ws_info \<Rightarrow> ws_registry \<Rightarrow> ws_registry \<times> bool \<times> nat" where
  "TryRegister info r =
     (if wr_max r > 0 \<and> int (activeCount r) \<ge> wr_max r
      then let r' = ws_store (info\<lparr>w_Status := WorkstreamPending\<rparr>) r
           in (r'\<lparr>wr_pending := wr_pending r @ [length (wr_heap r)]\<rparr>, False, length (wr_pending r) + 1)
      else (ws_store (info\<lparr>w_Status := WorkstreamRunning\<rparr>) r, True, 0))"

definition Register :: "ws_info \<Rightarrow> ws_registry \<Rightarrow> ws_registry" where
  "Register info r = ws_store info r"

definition Dequeue :: "gotime \<Rightarrow> ws_registry \<Rightarrow> ws_registry \<times> nat option" where
  "Dequeue now r = (case wr_pending r of [] \<Rightarrow> (r, None)
     | p # ps \<Rightarrow> (ws_write p (\<lambda>w. w\<lparr>w_Status := WorkstreamRunning, w_StartedAt := now\<rparr>) (r\<lparr>wr_pending := ps\<rparr>), Some p))"

definition ws_complete :: "gotime \<Rightarrow> string \<Rightarrow> ws_status \<Rightarrow> ws_registry \<Rightarrow> ws_registry" where
  "ws_complete now i status r = (case map_of (wr_map r) i of None \<Rightarrow> r
     | Some p \<Rightarrow> (if w_Status (ws_at r p) = WorkstreamRunning
                 then ws_write p (\<lambda>w. w\<lparr>w_Status := status, w_EndedAt := now\<rparr>) r else r))"

definition ws_get :: "string \<Rightarrow> ws_registry \<Rightarrow> ws_info option" where
  "ws_get i r = map_option (ws_at r) (map_of (wr_map r) i)"

definition ws_all :: "ws_registry \<Rightarrow> ws_info list" where
  "ws_all r = map (ws_at r) (vals (wr_map r))"

definition ws_active :: "ws_registry \<Rightarrow> ws_info list" where
  "ws_active r = filter (\<lambda>w. w_Status w = WorkstreamRunning) (ws_all r)"

definition PendingCount :: "ws_registry \<Rightarrow> nat" where
  "PendingCount r = length (wr_pending r)"

definition scopesOverlap :: "string list \<Rightarrow> string list \<Rightarrow> bool" where
  "scopesOverlap a b = list_ex (\<lambda>sa. list_ex (\<lambda>sb. sa = sb) b) a"

definition FindByScope :: "string list \<Rightarrow> ws_registry \<Rightarrow> ws_info option" where
  "FindByScope scopes r = find (\<lambda>w. w_Status w = WorkstreamRunning \<and> scopesOverlap (w_Scopes w) scopes) (ws_all r)"

subsection \<open>The broker\<close>

record broker_intent =
  in_ID :: string
  in_Action :: string

record broker_result =
  re_IntentID :: string
  re_Success :: bool
  re_Summary :: string

record broker_state =
  bk_reg :: ws_registry
  bk_running :: "(string, gotime) gomap"
  bk_results :: "broker_result list"

definition new_broker :: "int \<Rightarrow> broker_state" where
  "new_broker n = \<lparr>bk_reg = new_ws_registry (if n > 0 then n else 0), bk_running = [], bk_results = []\<rparr>"

text \<open>Up to the start of the execution: the plan, registration, and when there is no room the
  result that says so. The second component is the ID of the plan that now executes.\<close>

definition handle_begin ::
    "(broker_intent \<Rightarrow> string \<times> string list) \<Rightarrow> gotime \<Rightarrow> broker_intent \<Rightarrow> broker_state \<Rightarrow> broker_state \<times> string option" where
  "handle_begin planFactory now intent b =
     (let (plan_id, scopes) = planFactory intent;
          ws = \<lparr>w_ID = plan_id, w_IntentID = in_ID intent, w_Action = in_Action intent,
                w_Status = WorkstreamRunning, w_Scopes = scopes, w_Health = Green, w_StartedAt = now, w_EndedAt = zero_time\<rparr>;
          (reg, accepted, pos) = TryRegister ws (bk_reg b)
      in if \<not> accepted
         then (b\<lparr>bk_reg := reg, bk_results := bk_results b @ [\<lparr>re_IntentID = in_ID intent, re_Success = False,
                 re_Summary = ''queued at position '' @ nat_dec pos\<rparr>]\<rparr>, None)
         else (b\<lparr>bk_reg := reg, bk_running := mset_at (bk_running b) plan_id now\<rparr>, Some plan_id))"

text \<open>The orchestrator refuses the plan: the workstream fails and nothing is dequeued.\<close>

definition handle_refused :: "gotime \<Rightarrow> string \<Rightarrow> broker_intent \<Rightarrow> string \<Rightarrow> broker_state \<Rightarrow> broker_state" where
  "handle_refused now plan_id intent err b =
     b\<lparr>bk_reg := ws_complete now plan_id WorkstreamFailed (bk_reg b),
       bk_results := bk_results b @ [\<lparr>re_IntentID = in_ID intent, re_Success = False, re_Summary = ''execute failed: '' @ err\<rparr>],
       bk_running := mdelete (bk_running b) plan_id\<rparr>"

text \<open>The execution ended with its last event: complete, report, and dequeue the next pending
  workstream, whose intent is handled by a new goroutine.\<close>

definition handle_end ::
    "gotime \<Rightarrow> string \<Rightarrow> broker_intent \<Rightarrow> bool \<Rightarrow> string \<Rightarrow> broker_state \<Rightarrow> broker_state \<times> broker_intent option" where
  "handle_end now plan_id intent success msg b =
     (let reg1 = ws_complete now plan_id (if success then WorkstreamCompleted else WorkstreamFailed) (bk_reg b);
          (reg2, nxt) = Dequeue now reg1
      in (b\<lparr>bk_reg := reg2,
            bk_results := bk_results b @ [\<lparr>re_IntentID = in_ID intent, re_Success = success, re_Summary = msg\<rparr>],
            bk_running := mdelete (bk_running b) plan_id\<rparr>,
          map_option (\<lambda>p. \<lparr>in_ID = w_IntentID (ws_at reg2 p), in_Action = w_Action (ws_at reg2 p)\<rparr>) nxt))"

definition CancelWorkstream :: "gotime \<Rightarrow> string \<Rightarrow> broker_state \<Rightarrow> broker_state option" where
  "CancelWorkstream now i b =
     (if map_of (bk_running b) i = None then None
      else Some (b\<lparr>bk_reg := ws_complete now i WorkstreamCanceled (bk_reg b)\<rparr>))"

subsection \<open>The invariant of the registry\<close>

definition ws_inv :: "ws_registry \<Rightarrow> bool" where
  "ws_inv r = (wf_map (wr_map r) \<and> distinct (vals (wr_map r)) \<and>
     (\<forall>p \<in> set (vals (wr_map r)) \<union> set (wr_pending r). p < length (wr_heap r)) \<and> distinct (wr_pending r) \<and>
     (\<forall>p \<in> set (wr_pending r). w_Status (ws_at r p) = WorkstreamPending) \<and>
     (\<forall>i p. map_of (wr_map r) i = Some p \<longrightarrow> w_ID (ws_at r p) = i))"

lemma ws_at_store:
  "ws_at (ws_store info r) p = (if p < length (wr_heap r) then ws_at r p else if p = length (wr_heap r) then info else ws_at (ws_store info r) p)"
  by (simp add: ws_at_def ws_store_def nth_append)

lemma ws_at_write: "p < length (wr_heap r) \<Longrightarrow> ws_at (ws_write p f r) q = (if q = p then f (ws_at r p) else ws_at r q)"
  by (simp add: ws_at_def ws_write_def)

lemma ws_write_simps [simp]:
  "wr_map (ws_write p f r) = wr_map r" "wr_max (ws_write p f r) = wr_max r"
  "wr_pending (ws_write p f r) = wr_pending r" "length (wr_heap (ws_write p f r)) = length (wr_heap r)"
  by (simp_all add: ws_write_def)

lemma ws_store_simps [simp]:
  "wr_map (ws_store info r) = mset_at (wr_map r) (w_ID info) (length (wr_heap r))"
  "wr_max (ws_store info r) = wr_max r" "wr_pending (ws_store info r) = wr_pending r"
  "length (wr_heap (ws_store info r)) = Suc (length (wr_heap r))"
  by (simp_all add: ws_store_def)

lemma ws_inv_new: "ws_inv (new_ws_registry n)"
  by (simp add: ws_inv_def new_ws_registry_def)

lemma ws_at_store_old [simp]: "p < length (wr_heap r) \<Longrightarrow> ws_at (ws_store info r) p = ws_at r p"
  "ws_at (ws_store info r) (length (wr_heap r)) = info"
  by (simp_all add: ws_at_def ws_store_def nth_append)

lemma vals_mset_at_fresh:
  "distinct (vals m) \<Longrightarrow> v \<notin> set (vals m) \<Longrightarrow> distinct (vals (mset_at m k v)) \<and> set (vals (mset_at m k v)) \<subseteq> insert v (set (vals m))"
proof (induction m)
  case (Cons x m)
  then show ?case by (cases x) (auto simp: image_iff)
qed simp

lemma ws_inv_store:
  assumes "ws_inv r" shows "ws_inv (ws_store info r)"
proof -
  let ?n = "length (wr_heap r)"
  have old: "p < ?n" if "p \<in> set (vals (wr_map r)) \<union> set (wr_pending r)" for p
    using assms that by (simp add: ws_inv_def)
  have fresh: "?n \<notin> set (vals (wr_map r))" using old by blast
  have v: "distinct (vals (mset_at (wr_map r) (w_ID info) ?n))"
      "set (vals (mset_at (wr_map r) (w_ID info) ?n)) \<subseteq> insert ?n (set (vals (wr_map r)))"
    using vals_mset_at_fresh [OF _ fresh] assms by (simp_all add: ws_inv_def)
  have "w_ID (ws_at (ws_store info r) p) = i"
    if h: "map_of (wr_map (ws_store info r)) i = Some p" for i p
  proof (cases "i = w_ID info")
    case False
    then have m: "map_of (wr_map r) i = Some p" using h by simp
    then have "p \<in> set (vals (wr_map r))" by (force dest: map_of_SomeD)
    with old have "p < ?n" by blast
    then show ?thesis using m assms by (simp add: ws_inv_def)
  next
    case True
    with h have "p = ?n" by simp
    with True show ?thesis by simp
  qed
  moreover have "w_Status (ws_at (ws_store info r) p) = WorkstreamPending" if "p \<in> set (wr_pending r)" for p
    using that old [of p] assms by (simp add: ws_inv_def)
  moreover have "p < Suc ?n" if "p \<in> set (vals (wr_map (ws_store info r))) \<union> set (wr_pending r)" for p
  proof -
    have "p = ?n \<or> p \<in> set (vals (wr_map r)) \<union> set (wr_pending r)"
      using that v(2) by (simp only: ws_store_simps) blast
    then show ?thesis using less_SucI [OF old] lessI by blast
  qed
  ultimately show ?thesis
    using assms v(1) unfolding ws_inv_def by simp
qed

lemma ws_inv_write:
  assumes "ws_inv r" "p < length (wr_heap r)" "p \<notin> set (wr_pending r)" "w_ID (f (ws_at r p)) = w_ID (ws_at r p)"
  shows "ws_inv (ws_write p f r)"
  using assms by (simp add: ws_inv_def ws_at_write)

lemma ws_inv_pending:
  assumes "ws_inv r" "p < length (wr_heap r)" "p \<notin> set (wr_pending r)" "w_Status (ws_at r p) = WorkstreamPending"
  shows "ws_inv (r\<lparr>wr_pending := wr_pending r @ [p]\<rparr>)"
  using assms by (auto simp: ws_inv_def ws_at_def)

lemma ws_inv_try: "ws_inv r \<Longrightarrow> ws_inv (fst (TryRegister info r))"
proof -
  assume r: "ws_inv r"
  let ?r = "ws_store (info\<lparr>w_Status := WorkstreamPending\<rparr>) r"
  have "length (wr_heap r) \<notin> set (wr_pending r)" using r unfolding ws_inv_def by (metis UnI2 nat_neq_iff)
  then have "ws_inv (?r\<lparr>wr_pending := wr_pending ?r @ [length (wr_heap r)]\<rparr>)"
    using ws_inv_store [OF r] by (intro ws_inv_pending) simp_all
  then show ?thesis using ws_inv_store [OF r] by (simp add: TryRegister_def Let_def)
qed

lemma ws_inv_tail: "ws_inv r \<Longrightarrow> wr_pending r = p # ps \<Longrightarrow> ws_inv (r\<lparr>wr_pending := ps\<rparr>)"
  by (simp add: ws_inv_def ws_at_def)

lemma ws_inv_dequeue: "ws_inv r \<Longrightarrow> ws_inv (fst (Dequeue now r))"
proof -
  assume r: "ws_inv r"
  show ?thesis
  proof (cases "wr_pending r")
    case (Cons p ps)
    have "p < length (wr_heap r)" "p \<notin> set ps" using r Cons by (simp_all add: ws_inv_def)
    then show ?thesis
      using Cons ws_inv_write [OF ws_inv_tail [OF r Cons], of p "\<lambda>w. w\<lparr>w_Status := WorkstreamRunning, w_StartedAt := now\<rparr>"]
      by (simp add: Dequeue_def)
  qed (use r in \<open>simp add: Dequeue_def\<close>)
qed

lemma ws_inv_complete: "ws_inv r \<Longrightarrow> ws_inv (ws_complete now i st r)"
proof -
  assume r: "ws_inv r"
  show ?thesis
  proof (cases "map_of (wr_map r) i")
    case (Some p)
    then have "p \<in> set (vals (wr_map r))" by (force dest: map_of_SomeD)
    then have p: "p < length (wr_heap r)" using r unfolding ws_inv_def by blast
    have "p \<notin> set (wr_pending r)" if "w_Status (ws_at r p) = WorkstreamRunning"
      using r that unfolding ws_inv_def by force
    then show ?thesis using Some ws_inv_write [OF r p] r by (simp add: ws_complete_def)
  qed (use r in \<open>simp add: ws_complete_def\<close>)
qed

subsection \<open>Counting the running workstreams\<close>

lemma activeCount_store:
  assumes "ws_inv r"
  shows "activeCount (ws_store info r) \<le> activeCount r + (if w_Status info = WorkstreamRunning then 1 else 0)"
proof -
  let ?n = "length (wr_heap r)" and ?r = "ws_store info r"
  let ?P = "\<lambda>p. w_Status (ws_at ?r p) = WorkstreamRunning"
  have cong: "filter (?P \<circ> snd) (wr_map r) = filter (\<lambda>(i, p). w_Status (ws_at r p) = WorkstreamRunning) (wr_map r)"
  proof (rule filter_cong [OF refl])
    fix x assume "x \<in> set (wr_map r)"
    then have "snd x < ?n" using assms unfolding ws_inv_def by force
    then show "(?P \<circ> snd) x = (\<lambda>(i, p). w_Status (ws_at r p) = WorkstreamRunning) x"
      by (simp add: case_prod_beta)
  qed
  have "activeCount ?r = length (filter (?P \<circ> snd) (mset_at (wr_map r) (w_ID info) ?n))"
    by (simp add: activeCount_def case_prod_unfold comp_def)
  then have "activeCount ?r \<le> length (filter (?P \<circ> snd) (wr_map r)) + (if ?P ?n then 1 else 0)"
    using length_filter_mset_at [of ?P "w_ID info" ?n "wr_map r"] by linarith
  then show ?thesis unfolding cong by (simp add: activeCount_def)
qed

lemma length_filter_write:
  "distinct (vals m) \<Longrightarrow> p \<in> set (vals m) \<Longrightarrow>
   length (filter (\<lambda>x. if snd x = p then b else P (snd x)) m) + (if P p then 1 else 0) =
   length (filter (\<lambda>x. P (snd x)) m) + (if b then 1 else 0)"
proof (induction m)
  case (Cons x m)
  show ?case
  proof (cases "snd x = p")
    case True
    with Cons.prems have "p \<notin> set (vals m)" by auto
    then have "filter (\<lambda>x. if snd x = p then b else P (snd x)) m = filter (\<lambda>x. P (snd x)) m"
      by (intro filter_cong) (auto simp: image_iff)
    with True show ?thesis by simp
  next
    case False
    with Cons.prems have "distinct (vals m)" "p \<in> set (vals m)" by auto
    with Cons.IH False show ?thesis by simp
  qed
qed simp

lemma activeCount_write:
  assumes "ws_inv r" "p \<in> set (vals (wr_map r))"
  shows "activeCount (ws_write p f r) + (if w_Status (ws_at r p) = WorkstreamRunning then 1 else 0) =
    activeCount r + (if w_Status (f (ws_at r p)) = WorkstreamRunning then 1 else 0)"
proof -
  have p: "p < length (wr_heap r)" and d: "distinct (vals (wr_map r))"
    using assms by (auto simp: ws_inv_def)
  have "filter (\<lambda>(i, q). w_Status (ws_at (ws_write p f r) q) = WorkstreamRunning) (wr_map r) =
      filter (\<lambda>x. if snd x = p then w_Status (f (ws_at r p)) = WorkstreamRunning else w_Status (ws_at r (snd x)) = WorkstreamRunning) (wr_map r)"
    by (rule filter_cong) (auto simp: ws_at_write [OF p])
  then show ?thesis
    using length_filter_write [OF d assms(2), of "w_Status (f (ws_at r p)) = WorkstreamRunning" "\<lambda>q. w_Status (ws_at r q) = WorkstreamRunning"]
    by (simp add: activeCount_def) (simp add: case_prod_unfold)
qed

subsection \<open>Runs of registry operations\<close>

datatype reg_op = RTry ws_info | RComplete gotime string ws_status | RDequeue gotime

fun reg_step :: "reg_op \<Rightarrow> ws_registry \<Rightarrow> ws_registry" where
  "reg_step (RTry info) r = fst (TryRegister info r)"
| "reg_step (RComplete now i st) r = ws_complete now i st r"
| "reg_step (RDequeue now) r = fst (Dequeue now r)"

fun limited_op :: "reg_op \<Rightarrow> bool" where
  "limited_op (RTry info) = True"
| "limited_op (RComplete now i st) = (st \<noteq> WorkstreamRunning)"
| "limited_op (RDequeue now) = False"

lemma ws_inv_step: "ws_inv r \<Longrightarrow> ws_inv (reg_step x r)"
  by (cases x) (simp_all add: ws_inv_try ws_inv_complete ws_inv_dequeue)

lemma ws_inv_run: "ws_inv r \<Longrightarrow> ws_inv (fold reg_step xs r)"
  by (induction xs arbitrary: r) (simp_all add: ws_inv_step)

lemma activeCount_pending [simp]: "activeCount (r\<lparr>wr_pending := ps\<rparr>) = activeCount r"
  by (simp add: activeCount_def ws_at_def)

lemma try_limit:
  assumes "ws_inv r" "0 < wr_max r" "int (activeCount r) \<le> wr_max r"
  shows "int (activeCount (fst (TryRegister info r))) \<le> wr_max r"
  using activeCount_store [OF assms(1), of "info\<lparr>w_Status := WorkstreamPending\<rparr>"]
    activeCount_store [OF assms(1), of "info\<lparr>w_Status := WorkstreamRunning\<rparr>"] assms(2,3)
  by (auto simp: TryRegister_def Let_def)

lemma complete_limit:
  assumes "ws_inv r" "st \<noteq> WorkstreamRunning"
  shows "activeCount (ws_complete now i st r) \<le> activeCount r"
proof (cases "map_of (wr_map r) i")
  case (Some p)
  then have "p \<in> set (vals (wr_map r))" by (force dest: map_of_SomeD)
  from activeCount_write [OF assms(1) this, of "\<lambda>w. w\<lparr>w_Status := st, w_EndedAt := now\<rparr>"] Some assms(2)
  show ?thesis by (simp add: ws_complete_def split: if_splits)
qed (simp add: ws_complete_def)

lemma reg_step_max [simp]: "wr_max (reg_step x r) = wr_max r"
  by (cases x) (simp_all add: TryRegister_def ws_complete_def Dequeue_def Let_def split: option.splits list.splits)

lemma run_limit:
  "ws_inv r \<Longrightarrow> 0 < wr_max r \<Longrightarrow> int (activeCount r) \<le> wr_max r \<Longrightarrow> list_all limited_op xs \<Longrightarrow>
     int (activeCount (fold reg_step xs r)) \<le> wr_max r"
proof (induction xs arbitrary: r)
  case (Cons x xs)
  have "int (activeCount (reg_step x r)) \<le> wr_max r"
  proof (cases x)
    case (RTry info)
    with Cons.prems show ?thesis by (simp add: try_limit)
  next
    case (RComplete now i st)
    with Cons.prems complete_limit [of r st now i] show ?thesis by simp
  qed (use Cons.prems in simp)
  with Cons.IH [of "reg_step x r"] Cons.prems show ?case by (simp add: ws_inv_step)
qed simp

definition ended :: "ws_status \<Rightarrow> bool" where
  "ended st = (st = WorkstreamCompleted \<or> st = WorkstreamFailed \<or> st = WorkstreamCanceled)"

lemma ended_step:
  assumes "ws_inv r" "p < length (wr_heap r)" "ended (w_Status (ws_at r p))"
  shows "p < length (wr_heap (reg_step x r)) \<and> ws_at (reg_step x r) p = ws_at r p"
proof (cases x)
  case (RTry info)
  with assms show ?thesis by (auto simp: TryRegister_def Let_def) (simp_all add: ws_at_def ws_store_def nth_append)
next
  case (RComplete now i st)
  show ?thesis
  proof (cases "map_of (wr_map r) i")
    case (Some q)
    then have "q \<in> set (vals (wr_map r))" by (force dest: map_of_SomeD)
    then have "q < length (wr_heap r)" using assms(1) unfolding ws_inv_def by blast
    with assms Some RComplete show ?thesis by (auto simp: ws_complete_def ws_at_write ended_def)
  qed (use assms RComplete in \<open>simp add: ws_complete_def\<close>)
next
  case (RDequeue now)
  show ?thesis
  proof (cases "wr_pending r")
    case (Cons q ps)
    then have "q < length (wr_heap r)" "w_Status (ws_at r q) = WorkstreamPending" using assms(1) by (auto simp: ws_inv_def)
    moreover from this assms(3) have "q \<noteq> p" by (auto simp: ended_def)
    ultimately show ?thesis using assms Cons RDequeue by (simp add: Dequeue_def ws_at_def ws_write_def)
  qed (use assms RDequeue in \<open>simp add: Dequeue_def\<close>)
qed

lemma ended_run:
  "ws_inv r \<Longrightarrow> p < length (wr_heap r) \<Longrightarrow> ended (w_Status (ws_at r p)) \<Longrightarrow> ws_at (fold reg_step xs r) p = ws_at r p"
proof (induction xs arbitrary: r)
  case (Cons x xs)
  from ended_step [OF Cons.prems, of x] Cons.IH [of "reg_step x r"] Cons.prems show ?case by (simp add: ws_inv_step)
qed simp

text \<open>A dequeued workstream counts as running before it registers again.\<close>

lemma dequeue_active:
  assumes "ws_inv r" "Dequeue now r = (r', Some p)" "map_of (wr_map r) (w_ID (ws_at r p)) = Some p"
  shows "activeCount r' = activeCount r + 1"
proof -
  obtain ps where ps: "wr_pending r = p # ps"
    and r': "r' = ws_write p (\<lambda>w. w\<lparr>w_Status := WorkstreamRunning, w_StartedAt := now\<rparr>) (r\<lparr>wr_pending := ps\<rparr>)"
    using assms(2) by (auto simp: Dequeue_def split: list.splits)
  have st: "w_Status (ws_at r p) = WorkstreamPending" using assms(1) ps by (auto simp: ws_inv_def)
  have "p \<in> set (vals (wr_map r))" using assms(3) by (force dest: map_of_SomeD)
  then show ?thesis
    using activeCount_write [OF ws_inv_tail [OF assms(1) ps], of p "\<lambda>w. w\<lparr>w_Status := WorkstreamRunning, w_StartedAt := now\<rparr>"] st
    by (simp add: r') (simp add: ws_at_def)
qed

end
