(* ===== verification/Broker_Properties.thy ===== *)
theory Broker_Properties
  imports Broker_Workstreams
begin

text \<open>The properties of scopes, formations, cordons and workstreams.\<close>

subsection \<open>Disjoint scopes\<close>

text \<open>Property C14: in a formation that passes validation no path lies inside the read-write scopes
  of two units that are not observers, directory boundaries respected.\<close>

theorem valid_formation_disjoint:
  assumes "formation_validate f = None" "i < j" "j < length (f_Units f)"
    "\<not> IsObserver (f_Units f ! i)" "\<not> IsObserver (f_Units f ! j)"
    "x \<in> set (rw_paths (f_Units f ! i))" "y \<in> set (rw_paths (f_Units f ! j))"
  shows "\<not> (pathPrefix x p \<and> pathPrefix y p)"
proof -
  have "ValidateScopeDisjointness (f_Units f) = None" using assms(1) by (simp add: formation_validate_None)
  then have "\<not> pathsOverlap (rw_paths (f_Units f ! i)) (rw_paths (f_Units f ! j))"
    using assms(2-5) by (simp add: ValidateScopeDisjointness_def scopes_disjoint_None)
  with assms(6,7) pathsOverlap_common show ?thesis by blast
qed

definition two_cells :: formation where
  "two_cells = \<lparr>f_Name = ''f'', f_Units = [cell RoleExecutor None (Some [''auth'']) ''manual'' [],
     cell RoleExecutor None (Some [''api/'']) ''manual'' []], f_Edges = [], f_Budget = zero_budget, f_Observers = []\<rparr>"

theorem valid_formation_disjoint_witness:
  "\<not> (pathPrefix ''auth'' ''auth/x.go'' \<and> pathPrefix ''api/'' ''auth/x.go'')"
proof (rule valid_formation_disjoint [of two_cells 0 1])
  show "formation_validate two_cells = None" by code_simp
qed (simp_all add: two_cells_def cell_def IsObserver_def RoleExecutor_def RoleObserver_def rw_paths_def go_slice_def)

text \<open>Instantiating each built-in template succeeds for every task scope and every
  budget.\<close>

lemma templates_instantiate:
  assumes "TemplateByName name = Inr tmpl"
  shows "\<exists>f. Instantiate tmpl scope allowance = Inr f \<and> map u_Role (f_Units f) = map u_Role (f_Units tmpl)"
proof -
  let ?f = "DivideBudget \<lparr>f_Name = f_Name tmpl, f_Units = map (\<lambda>u. substituteUnit u scope) (f_Units tmpl),
    f_Edges = f_Edges tmpl, f_Budget = allowance, f_Observers = map (\<lambda>u. substituteUnit u scope) (f_Observers tmpl)\<rparr>"
  have roles: "map u_Role (f_Units ?f) = map u_Role (f_Units tmpl)"
    by (simp add: comp_def substituteUnit_def)
  have scopes: "map u_Scope (f_Units ?f) = map u_Scope (map (\<lambda>u. substituteUnit u scope) (f_Units tmpl))" by simp
  have t: "tmpl = TemplateSolo \<or> tmpl = TemplateDuo \<or> tmpl = TemplateSquad"
    using assms by (auto simp: TemplateByName_def split: if_splits)
  have "formation_validate ?f = None"
    by (rule template_valid [OF t _ _ roles scopes]) simp_all
  then show ?thesis using roles by (simp add: Instantiate_def Let_def)
qed

theorem templates_instantiate_witness:
  "\<exists>f. Instantiate TemplateSquad ''src/auth'' \<lparr>bd_Tokens = 100, bd_WallClock = 7\<rparr> = Inr f \<and>
     map u_Role (f_Units f) = map u_Role (f_Units TemplateSquad)"
  by (rule templates_instantiate [of "''squad''"]) (simp add: TemplateByName_def)

text \<open>Dividing a budget without negative parts gives every unit that needs one the
  same share, leaves the other units as they are, and the shares add up to the budget but for
  less than one unit of each part per sharer.\<close>

lemma divided_budget_bounds:
  assumes "0 \<le> bd_Tokens (f_Budget f)" "\<not> budget_is_zero (f_Budget f)" "filter needs_budget (f_Units f) \<noteq> []"
  shows "\<exists>share. f_Units (DivideBudget f) = map (\<lambda>u. if needs_budget u then u\<lparr>u_Budget := share\<rparr> else u) (f_Units f) \<and>
    int (length (filter needs_budget (f_Units f))) * bd_Tokens share \<le> bd_Tokens (f_Budget f) \<and>
    bd_Tokens (f_Budget f) - int (length (filter needs_budget (f_Units f))) * bd_Tokens share
      < int (length (filter needs_budget (f_Units f)))"
  using assms sdiv_share [OF assms(1), of "length (filter needs_budget (f_Units f))"]
  by (auto simp: DivideBudget_def Let_def)

theorem divided_budget_bounds_witness:
  "map (\<lambda>u. bd_Tokens (u_Budget u)) (f_Units (DivideBudget (two_cells\<lparr>f_Budget := \<lparr>bd_Tokens = 7, bd_WallClock = 0\<rparr>\<rparr>))) = [3, 3] \<and>
   (\<exists>share. f_Units (DivideBudget (two_cells\<lparr>f_Budget := \<lparr>bd_Tokens = 7, bd_WallClock = 0\<rparr>\<rparr>)) =
      map (\<lambda>u. if needs_budget u then u\<lparr>u_Budget := share\<rparr> else u) (f_Units two_cells))"
proof
  show "map (\<lambda>u. bd_Tokens (u_Budget u)) (f_Units (DivideBudget (two_cells\<lparr>f_Budget := \<lparr>bd_Tokens = 7, bd_WallClock = 0\<rparr>\<rparr>))) = [3, 3]"
    by code_simp
  have "filter needs_budget (f_Units two_cells) \<noteq> []"
    by (simp add: two_cells_def cell_def needs_budget_def budget_is_zero_def zero_budget_def IsObserver_def
        RoleExecutor_def RoleObserver_def)
  with divided_budget_bounds [of "two_cells\<lparr>f_Budget := \<lparr>bd_Tokens = 7, bd_WallClock = 0\<rparr>\<rparr>"]
  show "\<exists>share. f_Units (DivideBudget (two_cells\<lparr>f_Budget := \<lparr>bd_Tokens = 7, bd_WallClock = 0\<rparr>\<rparr>)) =
      map (\<lambda>u. if needs_budget u then u\<lparr>u_Budget := share\<rparr> else u) (f_Units two_cells)"
    by (auto simp: budget_is_zero_def)
qed

subsection \<open>Cordons and the andon board\<close>

text \<open>The andon level is the worst level of the workstreams, raised to red when there is
  an active cordon; and after clearing a scope no active cordon overlaps it any more.\<close>

lemma andon_and_cordons:
  "ab_Level (ComputeAndon health cordons) =
     (let worst = Max (insert Green (h_Level ` set (vals health))) in if cordons = [] then worst else max worst Red) \<and>
   cordon_overlaps scope (cordon_clear scope r) = []"
proof
  define w where "w = Max (insert Green (h_Level ` set (vals health)))"
  have "ab_Level (ComputeAndon health cordons) = (if cordons \<noteq> [] \<and> w < Red then Red else w)"
    unfolding ComputeAndon_def foldl_max_level w_def [symmetric] Let_def by simp
  then show "ab_Level (ComputeAndon health cordons) =
      (let worst = Max (insert Green (h_Level ` set (vals health))) in if cordons = [] then worst else max worst Red)"
    unfolding w_def [symmetric] by (auto simp: Let_def max_def)
  show "cordon_overlaps scope (cordon_clear scope r) = []" by (rule cordon_clear_overlaps)
qed

subsection \<open>Workstreams\<close>


definition sample_ws :: "string \<Rightarrow> ws_info" where
  "sample_ws i = \<lparr>w_ID = i, w_IntentID = i, w_Action = ''fix'', w_Status = WorkstreamRunning, w_Scopes = [],
     w_Health = Green, w_StartedAt = 1, w_EndedAt = 0\<rparr>"


text \<open>An ended workstream, completed, failed or canceled, is never changed again by any
  registration, completion or dequeuing: a late completion does not overwrite a cancelation.\<close>

lemma ended_is_final:
  assumes "p < length (wr_heap (fold reg_step xs (new_ws_registry n)))"
    "ended (w_Status (ws_at (fold reg_step xs (new_ws_registry n)) p))"
  shows "ws_at (fold reg_step (xs @ ys) (new_ws_registry n)) p = ws_at (fold reg_step xs (new_ws_registry n)) p"
  using ended_run [OF ws_inv_run [OF ws_inv_new] assms] by simp

theorem ended_is_final_witness:
  "ws_at (fold reg_step ([RTry (sample_ws ''a''), RComplete 2 ''a'' WorkstreamCanceled]
       @ [RComplete 3 ''a'' WorkstreamFailed]) (new_ws_registry 1)) 0 =
   ws_at (fold reg_step [RTry (sample_ws ''a''), RComplete 2 ''a'' WorkstreamCanceled] (new_ws_registry 1)) 0"
proof (rule ended_is_final)
  show "ended (w_Status (ws_at (fold reg_step [RTry (sample_ws ''a''), RComplete 2 ''a'' WorkstreamCanceled] (new_ws_registry 1)) 0))"
    by code_simp
qed code_simp

text \<open>The way queued work restarts loses its slot to itself: dequeuing marks the
  workstream as running, so when all but at most one slot was taken, the registration its restarted
  intent makes next is refused and puts it back at the end of the queue. With a limit of one no
  queued workstream ever starts.\<close>

lemma dequeued_is_requeued:
  assumes "0 < wr_max (fold reg_step xs (new_ws_registry n))"
    "wr_max (fold reg_step xs (new_ws_registry n)) \<le> int (activeCount (fold reg_step xs (new_ws_registry n))) + 1"
    "Dequeue now (fold reg_step xs (new_ws_registry n)) = (r', Some p)"
    "map_of (wr_map (fold reg_step xs (new_ws_registry n))) (w_ID (ws_at (fold reg_step xs (new_ws_registry n)) p)) = Some p"
  shows "\<not> fst (snd (TryRegister info r'))"
proof -
  let ?r = "fold reg_step xs (new_ws_registry n)"
  have "activeCount r' = activeCount ?r + 1"
    by (rule dequeue_active [OF ws_inv_run [OF ws_inv_new] assms(3,4)])
  moreover have "wr_max r' = wr_max ?r" using assms(3) by (auto simp: Dequeue_def split: list.splits)
  ultimately show ?thesis using assms(1,2) by (simp add: TryRegister_def Let_def)
qed

definition queue_ops :: "reg_op list" where
  "queue_ops = [RTry (sample_ws ''a''), RTry (sample_ws ''b''), RComplete 2 ''a'' WorkstreamCompleted]"

theorem dequeued_is_requeued_witness:
  "\<not> fst (snd (TryRegister (sample_ws ''b'') (fst (Dequeue 3 (fold reg_step queue_ops (new_ws_registry 1))))))"
proof (rule dequeued_is_requeued [of queue_ops 1 3 _ 1])
  show "0 < wr_max (fold reg_step queue_ops (new_ws_registry 1))" by code_simp
  show "wr_max (fold reg_step queue_ops (new_ws_registry 1)) \<le> int (activeCount (fold reg_step queue_ops (new_ws_registry 1))) + 1"
    by code_simp
  have "snd (Dequeue 3 (fold reg_step queue_ops (new_ws_registry 1))) = Some 1" by code_simp
  then show "Dequeue 3 (fold reg_step queue_ops (new_ws_registry 1)) =
      (fst (Dequeue 3 (fold reg_step queue_ops (new_ws_registry 1))), Some 1)" by (metis prod.collapse)
  show "map_of (wr_map (fold reg_step queue_ops (new_ws_registry 1)))
      (w_ID (ws_at (fold reg_step queue_ops (new_ws_registry 1)) 1)) = Some 1" by code_simp
qed

text \<open>Dequeuing does not look at the limit: with one slot, after a cancelation and a new intent two
  workstreams run.\<close>

theorem dequeue_exceeds_limit:
  "activeCount (fold reg_step [RTry (sample_ws ''a''), RTry (sample_ws ''b''), RComplete 2 ''a'' WorkstreamCanceled,
     RTry (sample_ws ''c''), RComplete 3 ''a'' WorkstreamFailed, RDequeue 3] (new_ws_registry 1)) = 2"
  by code_simp

end
