(* ===== verification/Cortex_History.thy ===== *)
theory Cortex_History
  imports Go_Strings
begin

text \<open>
  Conversations: messages with content blocks (\<^verbatim>\<open>driver/message.go\<close>), session entries
  (\<^verbatim>\<open>cortex/session.go\<close>), the history with its token budget (\<^verbatim>\<open>cortex/history.go\<close>),
  compaction and seeding (\<^verbatim>\<open>cortex/compact.go\<close>) and the repair of loaded sessions
  (\<^verbatim>\<open>cortex/sanitize.go\<close>). Texts are byte strings. Raw JSON inputs are \<^const>\<open>None\<close> for nil.
\<close>

subsection \<open>Content blocks\<close>

record tool_call =
  tl_ID :: string
  tl_Name :: string
  tl_Input :: "bytes option"

record tool_result =
  tr_ToolCallID :: string
  tr_Output :: string
  tr_IsError :: bool

record content_block =
  cb_Type :: string
  cb_Text :: string
  cb_ToolCall :: "tool_call option"
  cb_ToolResult :: "tool_result option"
  cb_Thinking :: string

definition BlockText :: string where "BlockText = ''text''"
definition BlockToolUse :: string where "BlockToolUse = ''tool_use''"
definition BlockToolResult :: string where "BlockToolResult = ''tool_result''"
definition BlockThinking :: string where "BlockThinking = ''thinking''"

definition zero_block :: content_block where
  "zero_block = \<lparr>cb_Type = [], cb_Text = [], cb_ToolCall = None, cb_ToolResult = None, cb_Thinking = []\<rparr>"

definition NewTextBlock :: "string \<Rightarrow> content_block" where
  "NewTextBlock t = zero_block\<lparr>cb_Type := BlockText, cb_Text := t\<rparr>"
definition NewToolUseBlock :: "string \<Rightarrow> string \<Rightarrow> bytes option \<Rightarrow> content_block" where
  "NewToolUseBlock i n input = zero_block\<lparr>cb_Type := BlockToolUse, cb_ToolCall := Some \<lparr>tl_ID = i, tl_Name = n, tl_Input = input\<rparr>\<rparr>"
definition NewToolResultBlock :: "string \<Rightarrow> string \<Rightarrow> bool \<Rightarrow> content_block" where
  "NewToolResultBlock i out err = zero_block\<lparr>cb_Type := BlockToolResult,
     cb_ToolResult := Some \<lparr>tr_ToolCallID = i, tr_Output = out, tr_IsError = err\<rparr>\<rparr>"
definition NewThinkingBlock :: "string \<Rightarrow> content_block" where
  "NewThinkingBlock t = zero_block\<lparr>cb_Type := BlockThinking, cb_Thinking := t\<rparr>"

definition text_content :: "string \<Rightarrow> content_block list \<Rightarrow> string" where
  "text_content content blocks =
     (if blocks = [] then content else concat (map cb_Text (filter (\<lambda>b. cb_Type b = BlockText) blocks)))"

definition tool_calls :: "content_block list \<Rightarrow> tool_call list" where
  "tool_calls blocks = List.map_filter (\<lambda>b. if cb_Type b = BlockToolUse then cb_ToolCall b else None) blocks"

definition has_tool_calls :: "content_block list \<Rightarrow> bool" where
  "has_tool_calls blocks = list_ex (\<lambda>b. cb_Type b = BlockToolUse) blocks"

definition thinking_content :: "content_block list \<Rightarrow> string" where
  "thinking_content blocks = concat (map cb_Thinking (filter (\<lambda>b. cb_Type b = BlockThinking) blocks))"

subsection \<open>Entries and history\<close>

record entry =
  en_Role :: string
  en_Content :: string
  en_Blocks :: "content_block list"
  en_Timestamp :: gotime
  en_TokenCount :: int

definition TextContent :: "entry \<Rightarrow> string" where
  "TextContent e = (if en_Blocks e = [] then en_Content e else text_content (en_Content e) (en_Blocks e))"

definition estimateTokens :: "string \<Rightarrow> int" where
  "estimateTokens txt = (let chars = int (length txt) in
     if chars = 0 then 1 else if chars div 4 = 0 then 1 else chars div 4)"

record history =
  hi_entries :: "entry list"
  hi_maxTokens :: int

definition NewHistory :: "int \<Rightarrow> history" where
  "NewHistory n = \<lparr>hi_entries = [], hi_maxTokens = n\<rparr>"

definition total_tokens :: "entry list \<Rightarrow> int" where
  "total_tokens es = sum_list (map en_TokenCount es)"

text \<open>The loop of \<^verbatim>\<open>trimIfNeeded\<close>.\<close>

fun trim_loop :: "int \<Rightarrow> entry list \<Rightarrow> entry list" where
  "trim_loop n [] = []"
| "trim_loop n (e # es) = (if total_tokens (e # es) > n \<and> es \<noteq> [] then trim_loop n es else e # es)"

definition trimIfNeeded :: "history \<Rightarrow> history" where
  "trimIfNeeded h = (if hi_maxTokens h \<le> 0 then h else h\<lparr>hi_entries := trim_loop (hi_maxTokens h) (hi_entries h)\<rparr>)"

definition count_entry :: "entry \<Rightarrow> entry" where
  "count_entry e = (if en_TokenCount e = 0 then e\<lparr>en_TokenCount := estimateTokens (TextContent e)\<rparr> else e)"

definition history_append :: "entry \<Rightarrow> history \<Rightarrow> history" where
  "history_append e h = trimIfNeeded (h\<lparr>hi_entries := hi_entries h @ [count_entry e]\<rparr>)"

definition history_clear :: "history \<Rightarrow> history" where "history_clear h = h\<lparr>hi_entries := []\<rparr>"
definition SetEntries :: "entry list \<Rightarrow> history \<Rightarrow> history" where "SetEntries es h = h\<lparr>hi_entries := es\<rparr>"

subsection \<open>Sessions\<close>

record session =
  ss_ID :: string
  ss_Name :: string
  ss_Driver :: string
  ss_Model :: string
  ss_Mode :: string
  ss_WorkDir :: string
  ss_WorkDirs :: "string list"
  ss_Workspace :: string
  ss_CreatedAt :: gotime
  ss_UpdatedAt :: gotime
  ss_History :: history

definition new_session :: "gotime \<Rightarrow> string \<Rightarrow> string \<Rightarrow> string \<Rightarrow> session" where
  "new_session now i model workDir = \<lparr>ss_ID = i, ss_Name = [], ss_Driver = [], ss_Model = model, ss_Mode = [],
     ss_WorkDir = workDir, ss_WorkDirs = [], ss_Workspace = [], ss_CreatedAt = now, ss_UpdatedAt = now,
     ss_History = NewHistory 0\<rparr>"

definition AllWorkDirs :: "session \<Rightarrow> string list" where
  "AllWorkDirs s = (if ss_WorkDirs s \<noteq> [] then ss_WorkDirs s else if ss_WorkDir s \<noteq> [] then [ss_WorkDir s] else [])"

definition session_append :: "gotime \<Rightarrow> entry \<Rightarrow> session \<Rightarrow> session" where
  "session_append now e s =
     s\<lparr>ss_History := history_append (if en_Timestamp e = zero_time then e\<lparr>en_Timestamp := now\<rparr> else e) (ss_History s),
       ss_UpdatedAt := now\<rparr>"

definition session_entries :: "session \<Rightarrow> entry list" where
  "session_entries s = hi_entries (ss_History s)"

subsection \<open>Compaction\<close>

definition DefaultKeepRecent :: nat where "DefaultKeepRecent = 4"

definition text_entry :: "string \<Rightarrow> string \<Rightarrow> entry" where
  "text_entry role content = \<lparr>en_Role = role, en_Content = content, en_Blocks = [], en_Timestamp = zero_time, en_TokenCount = 0\<rparr>"

text \<open>The first line of an entry's content, cut after 60 bytes.\<close>

definition summary_line :: "string \<Rightarrow> string" where
  "summary_line content =
     (let first = takeWhile (\<lambda>c. c \<noteq> CHR 0x0A) content
      in if length first > 60 then take 60 first @ ''...'' else first)"

definition summary_parts :: "entry list \<Rightarrow> string list" where
  "summary_parts old = map (\<lambda>e. en_Role e @ '': '' @ summary_line (en_Content e))
     (filter (\<lambda>e. summary_line (en_Content e) \<noteq> []) old)"

definition append_all :: "gotime \<Rightarrow> entry list \<Rightarrow> session \<Rightarrow> session" where
  "append_all now es s = fold (session_append now) es s"

definition Compact :: "gotime \<Rightarrow> nat \<Rightarrow> session \<Rightarrow> session \<times> nat \<times> nat" where
  "Compact now keepRecent s =
     (let before = length (session_entries s)
      in if before \<le> keepRecent then (s, before, before)
         else let entries = session_entries s; keepFrom = length entries - keepRecent;
                  parts = summary_parts (take keepFrom entries);
                  s1 = s\<lparr>ss_History := history_clear (ss_History s)\<rparr>;
                  s2 = (if parts \<noteq> [] then session_append now
                          (text_entry ''user'' (''[Compacted history]'' @ [CHR 0x0A] @ str_join parts [CHR 0x0A])) s1 else s1);
                  s3 = append_all now (drop keepFrom entries) s2
              in (s3, before, length (session_entries s3)))"

definition SeedSession :: "gotime \<Rightarrow> string \<Rightarrow> session \<Rightarrow> string \<Rightarrow> nat \<Rightarrow> session" where
  "SeedSession now newID old summary keepRecent =
     (let s0 = old\<lparr>ss_ID := newID, ss_CreatedAt := now, ss_UpdatedAt := now, ss_History := NewHistory 0\<rparr>;
          s1 = (if summary \<noteq> [] then session_append now
                  (text_entry ''user'' (''[Session context]'' @ [CHR 0x0A] @ summary)) s0 else s0);
          entries = session_entries old
      in append_all now (if keepRecent > 0 \<and> length entries > keepRecent
           then drop (length entries - keepRecent) entries else entries) s1)"

text \<open>The builder of \<^verbatim>\<open>ExtractSummaryText\<close> stops at the first line that does not fit.\<close>

fun summary_text :: "nat \<Rightarrow> string \<Rightarrow> entry list \<Rightarrow> string" where
  "summary_text maxChars sb [] = sb"
| "summary_text maxChars sb (e # es) =
     (let line = en_Role e @ '': '' @ TextContent e @ [CHR 0x0A]
      in if length sb + length line > maxChars then sb else summary_text maxChars (sb @ line) es)"

definition ExtractSummaryText :: "entry list \<Rightarrow> nat \<Rightarrow> string" where
  "ExtractSummaryText es maxChars = summary_text maxChars [] es"

subsection \<open>Repair\<close>

definition json_null :: bytes where "json_null = ''null''"

definition repair_input :: "content_block \<Rightarrow> content_block" where
  "repair_input b = (case cb_ToolCall b of
     Some call \<Rightarrow> (if cb_Type b = BlockToolUse \<and> (tl_Input call = None \<or> tl_Input call = Some json_null)
        then b\<lparr>cb_ToolCall := Some (call\<lparr>tl_Input := Some ''{}''\<rparr>)\<rparr> else b)
   | None \<Rightarrow> b)"

definition tool_use_ids :: "entry \<Rightarrow> string list" where
  "tool_use_ids e = map tl_ID (tool_calls (en_Blocks e))"

definition tool_result_ids :: "entry \<Rightarrow> string list" where
  "tool_result_ids e = map tr_ToolCallID
     (List.map_filter (\<lambda>b. if cb_Type b = BlockToolResult then cb_ToolResult b else None) (en_Blocks e))"

definition interrupted :: "string \<Rightarrow> content_block" where
  "interrupted i = NewToolResultBlock i
     (''(interrupted '' @ [CHR 0xE2, CHR 0x80, CHR 0x94] @ '' session resumed)'') True"

definition result_entry :: "string list \<Rightarrow> entry" where
  "result_entry ids = (text_entry ''user'' [])\<lparr>en_Blocks := map interrupted ids\<rparr>"

definition orphan_ids :: "entry \<Rightarrow> entry list \<Rightarrow> string list" where
  "orphan_ids e following =
     (let answered = (case following of [] \<Rightarrow> [] | n # _ \<Rightarrow> tool_result_ids n)
      in filter (\<lambda>i. i \<notin> set answered) (tool_use_ids e))"

fun repairOrphanedToolUse :: "entry list \<Rightarrow> entry list" where
  "repairOrphanedToolUse [] = []"
| "repairOrphanedToolUse (e # es) =
     e # (if orphan_ids e es \<noteq> [] then [result_entry (orphan_ids e es)] else []) @ repairOrphanedToolUse es"

definition DefaultMaxLoadEntries :: nat where "DefaultMaxLoadEntries = 200"

definition Sanitize :: "gotime \<Rightarrow> session \<Rightarrow> session \<times> bool" where
  "Sanitize now s =
     (let entries = map (\<lambda>e. e\<lparr>en_Blocks := map repair_input (en_Blocks e)\<rparr>) (session_entries s);
          fixed = repairOrphanedToolUse entries;
          repaired = (entries \<noteq> session_entries s \<or> length fixed \<noteq> length entries);
          s1 = s\<lparr>ss_History := SetEntries fixed (ss_History s)\<rparr>
      in if length fixed > DefaultMaxLoadEntries
         then (fst (Compact now DefaultKeepRecent s1), True) else (s1, repaired))"

subsection \<open>Facts about trimming\<close>

lemma trim_loop_spec:
  "es \<noteq> [] \<Longrightarrow> \<exists>k < length es. trim_loop n es = drop k es \<and>
     (total_tokens (drop k es) \<le> n \<or> Suc k = length es) \<and> (\<forall>j < k. total_tokens (drop j es) > n)"
proof (induction es)
  case (Cons e es)
  show ?case
  proof (cases "total_tokens (e # es) > n \<and> es \<noteq> []")
    case True
    with Cons.IH obtain k where k: "k < length es" "trim_loop n es = drop k es"
      "total_tokens (drop k es) \<le> n \<or> Suc k = length es" "\<forall>j < k. total_tokens (drop j es) > n" by blast
    have "\<forall>j < Suc k. total_tokens (drop j (e # es)) > n"
      using True k(4) by (auto simp: drop_Cons' )
    with True k show ?thesis by (intro exI [of _ "Suc k"]) simp
  next
    case False
    then show ?thesis by (intro exI [of _ 0]) auto
  qed
qed simp

lemma trim_loop_id: "es = [] \<or> total_tokens es \<le> n \<Longrightarrow> trim_loop n es = es"
  by (cases es) auto

lemma history_append_unlimited:
  "hi_maxTokens h \<le> 0 \<Longrightarrow> history_append e h = h\<lparr>hi_entries := hi_entries h @ [count_entry e]\<rparr>"
  by (simp add: history_append_def trimIfNeeded_def)

definition filled :: "gotime \<Rightarrow> entry \<Rightarrow> entry" where
  "filled now e = count_entry (if en_Timestamp e = zero_time then e\<lparr>en_Timestamp := now\<rparr> else e)"

lemma filled_simps [simp]:
  "en_Role (filled now e) = en_Role e" "en_Content (filled now e) = en_Content e" "en_Blocks (filled now e) = en_Blocks e"
  by (simp_all add: filled_def count_entry_def)

lemma append_all_unlimited:
  "hi_maxTokens (ss_History s) \<le> 0 \<Longrightarrow>
     session_entries (append_all now es s) = session_entries s @ map (filled now) es \<and>
     hi_maxTokens (ss_History (append_all now es s)) = hi_maxTokens (ss_History s)"
  unfolding append_all_def
proof (induction es arbitrary: s)
  case (Cons e es)
  let ?s = "session_append now e s"
  have "hi_maxTokens (ss_History ?s) \<le> 0" "session_entries ?s = session_entries s @ [filled now e]"
      "hi_maxTokens (ss_History ?s) = hi_maxTokens (ss_History s)"
    using Cons.prems by (simp_all add: session_append_def history_append_unlimited session_entries_def filled_def)
  with Cons.IH [of ?s] show ?case by simp
qed simp

lemma compact_entries:
  assumes "hi_maxTokens (ss_History s) \<le> 0" "k < length (session_entries s)"
  shows "\<exists>pre. length pre \<le> 1 \<and>
    session_entries (fst (Compact now k s)) = pre @ map (filled now) (last_n k (session_entries s))"
proof -
  let ?es = "session_entries s"
  let ?parts = "summary_parts (take (length ?es - k) ?es)"
  let ?e = "text_entry ''user'' (''[Compacted history]'' @ [CHR 0x0A] @ str_join ?parts [CHR 0x0A])"
  let ?s1 = "s\<lparr>ss_History := history_clear (ss_History s)\<rparr>"
  let ?s2 = "if ?parts \<noteq> [] then session_append now ?e ?s1 else ?s1"
  have m: "hi_maxTokens (ss_History ?s1) \<le> 0" using assms(1) by (simp add: history_clear_def)
  have one: "session_entries (append_all now [?e] ?s1) = session_entries ?s1 @ map (filled now) [?e] \<and>
      hi_maxTokens (ss_History (append_all now [?e] ?s1)) = hi_maxTokens (ss_History ?s1)"
    by (rule append_all_unlimited [OF m])
  have s2: "session_entries ?s2 = (if ?parts \<noteq> [] then [filled now ?e] else [])" "hi_maxTokens (ss_History ?s2) \<le> 0"
    using one m by (simp_all add: append_all_def session_entries_def history_clear_def)
  have "fst (Compact now k s) = append_all now (last_n k ?es) ?s2"
    using assms(2) by (simp add: Compact_def Let_def last_n_def)
  then show ?thesis
    using append_all_unlimited [OF s2(2), of now "last_n k ?es"] s2(1)
    by (intro exI [of _ "session_entries ?s2"]) simp
qed

lemma compact_short: "length (session_entries s) \<le> k \<Longrightarrow> Compact now k s = (s, length (session_entries s), length (session_entries s))"
  by (simp add: Compact_def Let_def)

subsection \<open>Facts about the repair\<close>

lemma tool_result_ids_result_entry [simp]: "tool_result_ids (result_entry ids) = ids"
  by (induction ids) (simp_all add: tool_result_ids_def result_entry_def text_entry_def interrupted_def
      NewToolResultBlock_def BlockToolResult_def List.map_filter_def)

lemma tool_use_ids_result_entry [simp]: "tool_use_ids (result_entry ids) = []"
  by (induction ids) (simp_all add: tool_use_ids_def tool_calls_def result_entry_def text_entry_def interrupted_def
      NewToolResultBlock_def BlockToolUse_def BlockToolResult_def List.map_filter_def)

text \<open>Every tool call is answered in the very next entry.\<close>

definition next_answers :: "entry list \<Rightarrow> string set" where
  "next_answers es = (case es of [] \<Rightarrow> {} | n # _ \<Rightarrow> set (tool_result_ids n))"

fun answered_next :: "entry list \<Rightarrow> bool" where
  "answered_next [] = True"
| "answered_next (e # es) = (set (tool_use_ids e) \<subseteq> next_answers es \<and> answered_next es)"

text \<open>The next entry answers all calls of an entry or none.\<close>

fun all_or_none :: "entry list \<Rightarrow> bool" where
  "all_or_none [] = True"
| "all_or_none (e # es) =
     ((set (tool_use_ids e) \<subseteq> next_answers es \<or> set (tool_use_ids e) \<inter> next_answers es = {}) \<and> all_or_none es)"

lemma orphan_ids_alt: "orphan_ids e es = filter (\<lambda>i. i \<notin> next_answers es) (tool_use_ids e)"
  by (cases es) (simp_all add: orphan_ids_def next_answers_def)

lemma orphan_ids_Nil: "orphan_ids e es = [] \<longleftrightarrow> set (tool_use_ids e) \<subseteq> next_answers es"
  by (auto simp: orphan_ids_alt filter_empty_conv)

lemma orphan_ids_all: "set (tool_use_ids e) \<inter> next_answers es = {} \<Longrightarrow> orphan_ids e es = tool_use_ids e"
  by (auto simp: orphan_ids_alt filter_id_conv)

lemma orphan_ids_next: "hd es = hd es' \<Longrightarrow> es = [] \<longleftrightarrow> es' = [] \<Longrightarrow> orphan_ids e es = orphan_ids e es'"
  by (cases es; cases es') (simp_all add: orphan_ids_def)

lemma repair_hd: "hd (repairOrphanedToolUse (e # es)) = e"
  by simp

lemma repair_Nil: "repairOrphanedToolUse es = [] \<longleftrightarrow> es = []"
  by (cases es) simp_all

lemma orphan_ids_repair: "orphan_ids e (repairOrphanedToolUse es) = orphan_ids e es"
  by (rule orphan_ids_next) (cases es, simp_all add: repair_Nil)

lemma repair_answers: "all_or_none es \<Longrightarrow> answered_next (repairOrphanedToolUse es)"
proof (induction es)
  case (Cons e es)
  show ?case
  proof (cases "orphan_ids e es = []")
    case True
    then have "set (tool_use_ids e) \<subseteq> next_answers (repairOrphanedToolUse es)"
      by (simp add: orphan_ids_Nil [symmetric] orphan_ids_repair)
    with Cons True show ?thesis by simp
  next
    case False
    with Cons.prems have all: "orphan_ids e es = tool_use_ids e" by (auto simp: orphan_ids_Nil intro: orphan_ids_all)
    have "set (tool_use_ids e) \<subseteq> next_answers (result_entry (tool_use_ids e) # repairOrphanedToolUse es)"
      by (simp add: next_answers_def)
    then show ?thesis using Cons False by (simp add: all)
  qed
qed simp

lemma repair_id: "answered_next es \<Longrightarrow> repairOrphanedToolUse es = es"
  by (induction es) (simp_all add: orphan_ids_Nil)

lemma repair_subseq: "subseq es (repairOrphanedToolUse es)"
proof (induction es)
  case (Cons e es)
  then show ?case by (simp add: list_emb_append2 subseq_Cons2)
qed simp

end
