(* ===== verification/Cortex_Relay.thy ===== *)
theory Cortex_Relay
  imports Complex_Main Cortex_History
begin

text \<open>
  The context relay: the monitor of the token usage (\<^verbatim>\<open>cortex/monitor.go\<close>) and the relay
  manager that prepares a background session and swaps to it (\<^verbatim>\<open>cortex/relay.go\<close>).

  Usage and thresholds are float64 in the code and rationals here. Drivers are numbered; whether the
  factory is set, creates a driver, starts it and accepts the replayed messages is the argument
  \<open>env\<close>, as is whether archiving succeeds. The optional workstation handoff, an interface the
  package only calls, is left out.
\<close>

datatype monitor_state = MonitorIdle | MonitorSpawning | MonitorReady | MonitorSwapping

record context_monitor =
  m_maxTokens :: int
  m_spawnAt :: rat
  m_swapAt :: rat
  m_totalIn :: int
  m_totalOut :: int
  m_state :: monitor_state

definition NewContextMonitor :: context_monitor where
  "NewContextMonitor = \<lparr>m_maxTokens = 200000, m_spawnAt = 4 / 5, m_swapAt = 19 / 20, m_totalIn = 0,
     m_totalOut = 0, m_state = MonitorIdle\<rparr>"

definition with_context_sizer :: "int option \<Rightarrow> context_monitor \<Rightarrow> context_monitor" where
  "with_context_sizer cs m = (case cs of None \<Rightarrow> m | Some cw \<Rightarrow> if cw > 0 then m\<lparr>m_maxTokens := cw\<rparr> else m)"

definition usage :: "context_monitor \<Rightarrow> rat" where
  "usage m = (if m_maxTokens m \<le> 0 then 0 else of_int (m_totalIn m + m_totalOut m) / of_int (m_maxTokens m))"

definition monitor_record :: "int \<Rightarrow> int \<Rightarrow> context_monitor \<Rightarrow> context_monitor \<times> bool" where
  "monitor_record inputTokens outputTokens m0 =
     (let m = m0\<lparr>m_totalIn := m_totalIn m0 + inputTokens, m_totalOut := m_totalOut m0 + outputTokens\<rparr>
      in if usage m \<ge> m_swapAt m \<and> m_state m = MonitorReady then (m\<lparr>m_state := MonitorSwapping\<rparr>, True)
         else if usage m \<ge> m_spawnAt m \<and> m_state m = MonitorIdle then (m\<lparr>m_state := MonitorSpawning\<rparr>, True)
         else (m, False))"

definition ShouldSpawn :: "context_monitor \<Rightarrow> bool" where
  "ShouldSpawn m = (usage m \<ge> m_spawnAt m \<and> m_state m = MonitorIdle)"

definition ShouldSwap :: "context_monitor \<Rightarrow> bool" where
  "ShouldSwap m = (usage m \<ge> m_swapAt m \<and> m_state m = MonitorReady)"

definition SetState :: "monitor_state \<Rightarrow> context_monitor \<Rightarrow> context_monitor" where
  "SetState s m = m\<lparr>m_state := s\<rparr>"

definition monitor_reset :: "context_monitor \<Rightarrow> context_monitor" where
  "monitor_reset m = m\<lparr>m_totalIn := 0, m_totalOut := 0, m_state := MonitorIdle\<rparr>"

subsection \<open>The manager\<close>

datatype relay_error = ErrNoDriverFactory | ErrNoBackup | ErrCreateDriver | ErrStartDriver | ErrSeedReplay

record relay_manager =
  rm_monitor :: context_monitor
  rm_activeSession :: session
  rm_activeDriver :: nat
  rm_backupSession :: "session option"
  rm_backupDriver :: "nat option"
  rm_queue :: "string list"
  rm_store :: bool
  rm_archived :: "session list"

record relay_env =
  v_factory :: bool
  v_created :: "nat option"
  v_started :: bool
  v_accepts :: "entry \<Rightarrow> bool"
  v_archives :: bool

definition NewRelayManager :: "context_monitor \<Rightarrow> session \<Rightarrow> nat \<Rightarrow> bool \<Rightarrow> relay_manager" where
  "NewRelayManager m s d store = \<lparr>rm_monitor = SetState MonitorIdle m, rm_activeSession = s, rm_activeDriver = d,
     rm_backupSession = None, rm_backupDriver = None, rm_queue = [], rm_store = store, rm_archived = []\<rparr>"

definition set_monitor :: "(context_monitor \<Rightarrow> context_monitor) \<Rightarrow> relay_manager \<Rightarrow> relay_manager" where
  "set_monitor f r = r\<lparr>rm_monitor := f (rm_monitor r)\<rparr>"

definition seed_backup :: "gotime \<Rightarrow> relay_manager \<Rightarrow> session" where
  "seed_backup now r =
     (let s = rm_activeSession r; entries = session_entries s;
          newID = ss_ID s @ ''-relay-'' @ int_dec (m_totalIn (rm_monitor r) + m_totalOut (rm_monitor r))
      in if length entries > DefaultKeepRecent
         then SeedSession now newID s (ExtractSummaryText (take (length entries - DefaultKeepRecent) entries) 50000) DefaultKeepRecent
         else SeedSession now newID s [] DefaultKeepRecent)"

definition spawnBackground :: "gotime \<Rightarrow> relay_env \<Rightarrow> relay_manager \<Rightarrow> relay_manager \<times> relay_error option" where
  "spawnBackground now env r =
     (if \<not> v_factory env then (r, Some ErrNoDriverFactory)
      else let backup = seed_backup now r; r1 = r\<lparr>rm_backupSession := Some backup\<rparr>
      in case v_created env of
        None \<Rightarrow> (r1, Some ErrCreateDriver)
      | Some d \<Rightarrow>
          if \<not> v_started env then (r1, Some ErrStartDriver)
          else if list_ex (\<lambda>e. en_Role e = ''user'' \<and> \<not> v_accepts env e) (session_entries backup) then (r1, Some ErrSeedReplay)
          else (set_monitor (SetState MonitorReady) (r1\<lparr>rm_backupDriver := Some d\<rparr>), None))"

definition executeSwap :: "relay_env \<Rightarrow> relay_manager \<Rightarrow> relay_manager \<times> relay_error option" where
  "executeSwap env r =
     (case (rm_backupDriver r, rm_backupSession r) of
        (Some d, Some s) \<Rightarrow>
          (set_monitor monitor_reset
             (r\<lparr>rm_activeSession := s, rm_activeDriver := d, rm_backupSession := None, rm_backupDriver := None,
                rm_archived := (if rm_store r \<and> v_archives env then rm_archived r @ [rm_activeSession r] else rm_archived r)\<rparr>), None)
      | _ \<Rightarrow> (r, Some ErrNoBackup))"

text \<open>A failed spawn falls back to compacting the active session.\<close>

definition spawn_or_compact :: "gotime \<Rightarrow> relay_env \<Rightarrow> relay_manager \<Rightarrow> relay_manager" where
  "spawn_or_compact now env r = (case spawnBackground now env r of
     (r', None) \<Rightarrow> r'
   | (r', Some _) \<Rightarrow> (set_monitor (SetState MonitorIdle) r')
       \<lparr>rm_activeSession := fst (Compact now DefaultKeepRecent (rm_activeSession r'))\<rparr>)"

definition CheckAndRelay :: "gotime \<Rightarrow> relay_env \<Rightarrow> relay_manager \<Rightarrow> relay_manager" where
  "CheckAndRelay now env r = (case m_state (rm_monitor r) of
     MonitorIdle \<Rightarrow> (if ShouldSpawn (rm_monitor r)
       then spawn_or_compact now env (set_monitor (SetState MonitorSpawning) r) else r)
   | MonitorSpawning \<Rightarrow> spawn_or_compact now env r
   | MonitorReady \<Rightarrow> (if ShouldSwap (rm_monitor r) then fst (executeSwap env r) else r)
   | MonitorSwapping \<Rightarrow> fst (executeSwap env r))"

definition QueuePrompt :: "string \<Rightarrow> relay_manager \<Rightarrow> relay_manager" where
  "QueuePrompt p r = r\<lparr>rm_queue := rm_queue r @ [p]\<rparr>"

definition DrainQueue :: "relay_manager \<Rightarrow> relay_manager \<times> string list" where
  "DrainQueue r = (r\<lparr>rm_queue := []\<rparr>, rm_queue r)"

subsection \<open>Runs\<close>

text \<open>The operations of the owner of the session and of the manager; a turn appends to the active
  session.\<close>

datatype relay_op =
    RelayTurn gotime entry
  | RelayRecord int int
  | RelayCheck gotime relay_env
  | RelayQueue string
  | RelayDrain

fun relay_step :: "relay_op \<Rightarrow> relay_manager \<Rightarrow> relay_manager" where
  "relay_step (RelayTurn now e) r = r\<lparr>rm_activeSession := session_append now e (rm_activeSession r)\<rparr>"
| "relay_step (RelayRecord i out) r = set_monitor (\<lambda>m. fst (monitor_record i out m)) r"
| "relay_step (RelayCheck now env) r = CheckAndRelay now env r"
| "relay_step (RelayQueue p) r = QueuePrompt p r"
| "relay_step RelayDrain r = fst (DrainQueue r)"

definition relay_run :: "relay_op list \<Rightarrow> relay_manager \<Rightarrow> relay_manager" where
  "relay_run xs r = fold relay_step xs r"

text \<open>The invariant: a backup exists exactly when the monitor says one is ready or being swapped in.\<close>

definition relay_inv :: "relay_manager \<Rightarrow> bool" where
  "relay_inv r = (case m_state (rm_monitor r) of
     MonitorIdle \<Rightarrow> rm_backupDriver r = None
   | MonitorSpawning \<Rightarrow> rm_backupDriver r = None
   | MonitorReady \<Rightarrow> rm_backupDriver r \<noteq> None \<and> rm_backupSession r \<noteq> None
   | MonitorSwapping \<Rightarrow> rm_backupDriver r \<noteq> None \<and> rm_backupSession r \<noteq> None)"

lemma relay_inv_new: "relay_inv (NewRelayManager m s d st)"
  by (simp add: relay_inv_def NewRelayManager_def SetState_def)

lemma spawn_or_compact_inv:
  "rm_backupDriver r = None \<Longrightarrow> relay_inv (spawn_or_compact now env r)"
  by (auto simp: spawn_or_compact_def spawnBackground_def Let_def relay_inv_def set_monitor_def SetState_def
      split: option.splits if_splits prod.splits)

lemma executeSwap_ready:
  "rm_backupDriver r = Some d \<Longrightarrow> rm_backupSession r = Some s \<Longrightarrow>
     snd (executeSwap env r) = None \<and> rm_activeSession (fst (executeSwap env r)) = s \<and>
     rm_activeDriver (fst (executeSwap env r)) = d \<and> m_state (rm_monitor (fst (executeSwap env r))) = MonitorIdle \<and>
     rm_backupDriver (fst (executeSwap env r)) = None \<and> rm_queue (fst (executeSwap env r)) = rm_queue r \<and>
     m_totalIn (rm_monitor (fst (executeSwap env r))) = 0 \<and> m_totalOut (rm_monitor (fst (executeSwap env r))) = 0"
  by (simp add: executeSwap_def set_monitor_def monitor_reset_def)

lemma executeSwap_inv: "rm_backupDriver r \<noteq> None \<Longrightarrow> rm_backupSession r \<noteq> None \<Longrightarrow> relay_inv (fst (executeSwap env r))"
  by (auto simp: executeSwap_def relay_inv_def set_monitor_def monitor_reset_def)

lemma relay_inv_check: "relay_inv r \<Longrightarrow> relay_inv (CheckAndRelay now env r)"
proof (cases "m_state (rm_monitor r)")
  case MonitorIdle
  assume r: "relay_inv r"
  with MonitorIdle have "rm_backupDriver (set_monitor (SetState MonitorSpawning) r) = None"
    by (simp add: relay_inv_def set_monitor_def)
  with r MonitorIdle show ?thesis by (simp add: CheckAndRelay_def spawn_or_compact_inv)
next
  case MonitorSpawning
  assume r: "relay_inv r"
  with MonitorSpawning have "rm_backupDriver r = None" by (simp add: relay_inv_def)
  with MonitorSpawning show ?thesis by (simp add: CheckAndRelay_def spawn_or_compact_inv)
next
  case MonitorReady
  assume r: "relay_inv r"
  with MonitorReady have "rm_backupDriver r \<noteq> None" "rm_backupSession r \<noteq> None" by (simp_all add: relay_inv_def)
  with r MonitorReady executeSwap_inv [of r env] show ?thesis by (simp add: CheckAndRelay_def)
next
  case MonitorSwapping
  assume r: "relay_inv r"
  with MonitorSwapping have "rm_backupDriver r \<noteq> None" "rm_backupSession r \<noteq> None" by (simp_all add: relay_inv_def)
  with MonitorSwapping executeSwap_inv [of r env] show ?thesis by (simp add: CheckAndRelay_def)
qed

lemma relay_inv_step: "relay_inv r \<Longrightarrow> relay_inv (relay_step x r)"
  by (cases x) (auto simp: relay_inv_check, auto simp: relay_inv_def set_monitor_def monitor_record_def Let_def
      QueuePrompt_def DrainQueue_def split: monitor_state.splits)

lemma relay_inv_run: "relay_inv r \<Longrightarrow> relay_inv (relay_run xs r)"
  unfolding relay_run_def by (induction xs arbitrary: r) (simp_all add: relay_inv_step)

text \<open>Turns, usage records and prompts after the spawn do not reach the backup.\<close>

definition is_turn :: "relay_op \<Rightarrow> bool" where
  "is_turn x = (case x of RelayTurn _ _ \<Rightarrow> True | RelayRecord _ _ \<Rightarrow> True | RelayQueue _ \<Rightarrow> True | _ \<Rightarrow> False)"

lemma turns_keep_backup:
  "list_all is_turn xs \<Longrightarrow> rm_backupSession (relay_run xs r) = rm_backupSession r \<and>
     rm_backupDriver (relay_run xs r) = rm_backupDriver r"
  unfolding relay_run_def
proof (induction xs arbitrary: r)
  case (Cons x xs)
  then have "rm_backupSession (relay_step x r) = rm_backupSession r \<and> rm_backupDriver (relay_step x r) = rm_backupDriver r"
    by (cases x) (simp_all add: is_turn_def QueuePrompt_def set_monitor_def)
  with Cons show ?case by simp
qed simp

end
