(* ===== verification/Cortex_Properties.thy ===== *)
theory Cortex_Properties
  imports Cortex_Relay
begin

text \<open>The properties of conversation history, its repair, and the context relay.\<close>

text \<open>Appending to a history with a token budget keeps the longest end of the
  conversation that fits: the result ends with the new entry, fits the budget unless it is that
  entry alone, and every longer end would exceed the budget.\<close>

lemma history_trims_to_budget:
  assumes "0 < hi_maxTokens h"
  shows "\<exists>k. let es = hi_entries h @ [count_entry e] in
    k < length es \<and> hi_entries (history_append e h) = drop k es \<and>
    (total_tokens (drop k es) \<le> hi_maxTokens h \<or> drop k es = [count_entry e]) \<and>
    (\<forall>j < k. hi_maxTokens h < total_tokens (drop j es))"
proof -
  obtain k where k: "k < length (hi_entries h @ [count_entry e])"
    "trim_loop (hi_maxTokens h) (hi_entries h @ [count_entry e]) = drop k (hi_entries h @ [count_entry e])"
    "total_tokens (drop k (hi_entries h @ [count_entry e])) \<le> hi_maxTokens h \<or> Suc k = length (hi_entries h @ [count_entry e])"
    "\<forall>j < k. total_tokens (drop j (hi_entries h @ [count_entry e])) > hi_maxTokens h"
    using trim_loop_spec [of "hi_entries h @ [count_entry e]" "hi_maxTokens h"] by blast
  moreover have "Suc k = length (hi_entries h @ [count_entry e]) \<longrightarrow> drop k (hi_entries h @ [count_entry e]) = [count_entry e]"
    by auto
  ultimately show ?thesis
    using assms by (intro exI [of _ k]) (auto simp: history_append_def trimIfNeeded_def Let_def)
qed

definition sample_history :: history where
  "sample_history = history_append (text_entry ''user'' ''hello world, hello'') (NewHistory 4)"

theorem history_trims_to_budget_witness:
  "\<exists>k. let es = hi_entries sample_history @ [count_entry (text_entry ''user'' ''and so on'')] in
    k < length es \<and> hi_entries (history_append (text_entry ''user'' ''and so on'') sample_history) = drop k es"
proof -
  have "0 < hi_maxTokens sample_history" by code_simp
  from history_trims_to_budget [OF this, of "text_entry ''user'' ''and so on''"] show ?thesis
    unfolding Let_def by blast
qed

text \<open>Compacting an unlimited session with more entries than it keeps leaves at most one
  summary entry followed by the kept entries with their role, content and blocks.\<close>

lemma compact_keeps_recent:
  assumes "hi_maxTokens (ss_History s) \<le> 0" "k < length (session_entries s)"
  shows "\<exists>pre recent. session_entries (fst (Compact now k s)) = pre @ recent \<and> length pre \<le> 1 \<and>
    map (\<lambda>e. (en_Role e, en_Content e, en_Blocks e)) recent =
    map (\<lambda>e. (en_Role e, en_Content e, en_Blocks e)) (last_n k (session_entries s))"
proof -
  obtain pre where "length pre \<le> 1"
    "session_entries (fst (Compact now k s)) = pre @ map (filled now) (last_n k (session_entries s))"
    using compact_entries [OF assms] by blast
  then show ?thesis by (intro exI [of _ pre] exI [of _ "map (filled now) (last_n k (session_entries s))"]) simp
qed

definition sample_session :: session where
  "sample_session = append_all 1 [text_entry ''user'' ''one'', text_entry ''assistant'' ''two'', text_entry ''user'' ''three'']
     (new_session 1 ''s'' ''model'' ''/w'')"

theorem compact_keeps_recent_witness:
  "\<exists>pre recent. session_entries (fst (Compact 2 1 sample_session)) = pre @ recent \<and> length pre \<le> 1 \<and>
    map (\<lambda>e. (en_Role e, en_Content e, en_Blocks e)) recent =
    map (\<lambda>e. (en_Role e, en_Content e, en_Blocks e)) (last_n 1 (session_entries sample_session))"
proof (rule compact_keeps_recent)
  show "hi_maxTokens (ss_History sample_session) \<le> 0" by code_simp
  show "1 < length (session_entries sample_session)" by code_simp
qed

text \<open>Property C15: the repair of a loaded conversation keeps its entries in order, and when each
  entry's tool calls are answered by the next entry all or not at all, every tool call of the result
  is answered by the entry right after it, and repairing again changes nothing.\<close>

theorem repair_answers_tool_calls:
  assumes "all_or_none es"
  shows "subseq es (repairOrphanedToolUse es) \<and> answered_next (repairOrphanedToolUse es) \<and>
    repairOrphanedToolUse (repairOrphanedToolUse es) = repairOrphanedToolUse es"
  using repair_subseq [of es] repair_answers [OF assms] repair_id [OF repair_answers [OF assms]] by blast

definition call_entry :: "string list \<Rightarrow> entry" where
  "call_entry ids = (text_entry ''assistant'' [])\<lparr>en_Blocks := map (\<lambda>i. NewToolUseBlock i ''Read'' (Some ''{}'')) ids\<rparr>"

theorem repair_answers_tool_calls_witness:
  "answered_next (repairOrphanedToolUse [call_entry [''a'', ''b''], text_entry ''user'' ''go on''])"
proof -
  have "all_or_none [call_entry [''a'', ''b''], text_entry ''user'' ''go on'']" by code_simp
  from repair_answers_tool_calls [OF this] show ?thesis by blast
qed

text \<open>When the next entry answers only some of the calls, the injected answers push the real ones one
  entry away: a call that had its answer loses it, and every load repairs again.\<close>

theorem repair_breaks_partial:
  "\<not> answered_next (repairOrphanedToolUse [call_entry [''a'', ''b''], result_entry [''a'']]) \<and>
   length (repairOrphanedToolUse (repairOrphanedToolUse [call_entry [''a'', ''b''], result_entry [''a'']])) = 4"
proof
  show "\<not> answered_next (repairOrphanedToolUse [call_entry [''a'', ''b''], result_entry [''a'']])" by code_simp
  show "length (repairOrphanedToolUse (repairOrphanedToolUse [call_entry [''a'', ''b''], result_entry [''a'']])) = 4" by code_simp
qed


definition good_env :: relay_env where
  "good_env = \<lparr>v_factory = True, v_created = Some 7, v_started = True, v_accepts = (\<lambda>_. True), v_archives = True\<rparr>"


definition sample_relay :: relay_manager where
  "sample_relay = NewRelayManager NewContextMonitor sample_session 1 True"



text \<open>The swap is not seamless: turns that reach the active session after the background
  session was seeded are not part of the session the swap makes active.\<close>

lemma swap_forgets_turns:
  assumes "list_all is_turn ts" "rm_backupSession r = Some b" "rm_backupDriver r = Some d"
    "m_state (rm_monitor (relay_run ts r)) = MonitorSwapping"
  shows "rm_activeSession (CheckAndRelay now env (relay_run ts r)) = b"
proof -
  have "rm_backupSession (relay_run ts r) = Some b" "rm_backupDriver (relay_run ts r) = Some d"
    using turns_keep_backup [OF assms(1), of r] assms by simp_all
  with executeSwap_ready [of "relay_run ts r" d b env] assms(4) show ?thesis by (simp add: CheckAndRelay_def)
qed

definition ready_relay :: relay_manager where
  "ready_relay = relay_run [RelayRecord 170000 0, RelayCheck 2 good_env] sample_relay"

lemmas relay_eval = relay_run_def set_monitor_def monitor_record_def CheckAndRelay_def sample_relay_def
  spawn_or_compact_def spawnBackground_def good_env_def NewRelayManager_def NewContextMonitor_def SetState_def
  usage_def Let_def list_ex_iff ready_relay_def

theorem swap_forgets_turns_witness:
  "rm_activeSession (CheckAndRelay 5 good_env
     (relay_run [RelayTurn 3 (text_entry ''user'' ''later''), RelayRecord 25000 0] ready_relay)) =
     seed_backup 2 (set_monitor (\<lambda>m. fst (monitor_record 170000 0 m)) sample_relay)"
proof (rule swap_forgets_turns)
  show "list_all is_turn [RelayTurn 3 (text_entry ''user'' ''later''), RelayRecord 25000 0]" by (simp add: is_turn_def)
  show "rm_backupSession ready_relay = Some (seed_backup 2 (set_monitor (\<lambda>m. fst (monitor_record 170000 0 m)) sample_relay))"
    "rm_backupDriver ready_relay = Some 7"
    "m_state (rm_monitor (relay_run [RelayTurn 3 (text_entry ''user'' ''later''), RelayRecord 25000 0] ready_relay)) = MonitorSwapping"
    by (simp_all add: relay_eval)
qed

end
