(* ===== verification/Cache_Layers.thy ===== *)
theory Cache_Layers
  imports Djinn_Prelude
begin

text \<open>
  The cache hierarchy of the agents (\<^verbatim>\<open>cache/cache.go\<close>, \<^verbatim>\<open>cache/mem.go\<close>,
  \<^verbatim>\<open>cache/writethrough.go\<close>). The Go interface \<^verbatim>\<open>Cache\<close> is the record
  \<open>cache_impl\<close> of its methods over a state; the write-through cache is built from two of
  them, and is one itself. The copies of byte slices the code makes are what makes values.

  What the interface promises are the locales \<open>cache_contract\<close> and, with evictions that
  really forget, \<open>evicting_cache\<close>; \<open>write_through\<close> combines an evicting first level with
  any second level and gives the contract again.
\<close>

record 'c cache_impl =
  c_Put :: "string \<Rightarrow> string \<Rightarrow> bytes \<Rightarrow> 'c \<Rightarrow> 'c"
  c_Get :: "string \<Rightarrow> string \<Rightarrow> 'c \<Rightarrow> bytes option \<times> 'c"
  c_Keys :: "string \<Rightarrow> 'c \<Rightarrow> string list"
  c_Evict :: "string \<Rightarrow> string \<Rightarrow> 'c \<Rightarrow> 'c"
  c_EvictScope :: "string \<Rightarrow> 'c \<Rightarrow> 'c"
  c_Scopes :: "'c \<Rightarrow> string list"
  c_Len :: "'c \<Rightarrow> nat"

subsection \<open>The in-memory cache\<close>

type_synonym mem_cache = "(string, (string, bytes) gomap) gomap"

definition NewMemCache :: mem_cache where
  "NewMemCache = []"

definition mc_Put :: "string \<Rightarrow> string \<Rightarrow> bytes \<Rightarrow> mem_cache \<Rightarrow> mem_cache" where
  "mc_Put scope key d c =
     (let c1 = (if map_of c scope = None then mset_at c scope [] else c)
      in mset_at c1 scope (mset_at (mget [] c1 scope) key d))"

definition mc_Get :: "string \<Rightarrow> string \<Rightarrow> mem_cache \<Rightarrow> bytes option" where
  "mc_Get scope key c = (case map_of c scope of None \<Rightarrow> None | Some m \<Rightarrow> map_of m key)"

definition mc_Keys :: "string \<Rightarrow> mem_cache \<Rightarrow> string list" where
  "mc_Keys scope c = (case map_of c scope of None \<Rightarrow> [] | Some m \<Rightarrow> keys m)"

definition mc_Evict :: "string \<Rightarrow> string \<Rightarrow> mem_cache \<Rightarrow> mem_cache" where
  "mc_Evict scope key c =
     (case map_of c scope of None \<Rightarrow> c
      | Some m \<Rightarrow> (let m' = mdelete m key
                  in if length m' = 0 then mdelete c scope else mset_at c scope m'))"

definition mc_EvictScope :: "string \<Rightarrow> mem_cache \<Rightarrow> mem_cache" where
  "mc_EvictScope scope c = mdelete c scope"

definition mc_Scopes :: "mem_cache \<Rightarrow> string list" where
  "mc_Scopes c = keys c"

definition mc_Len :: "mem_cache \<Rightarrow> nat" where
  "mc_Len c = foldl (\<lambda>n m. n + length m) 0 (vals c)"

definition mem_cache_impl :: "mem_cache cache_impl" where
  "mem_cache_impl = \<lparr>c_Put = mc_Put, c_Get = (\<lambda>scope key c. (mc_Get scope key c, c)), c_Keys = mc_Keys,
     c_Evict = mc_Evict, c_EvictScope = mc_EvictScope, c_Scopes = mc_Scopes, c_Len = mc_Len\<rparr>"

definition mc_look :: "mem_cache \<Rightarrow> string \<Rightarrow> string \<rightharpoonup> bytes" where
  "mc_look c scope key = mc_Get scope key c"

definition mc_inv :: "mem_cache \<Rightarrow> bool" where
  "mc_inv c = (wf_map c \<and> (\<forall>m \<in> set (vals c). wf_map m \<and> m \<noteq> []))"

subsection \<open>The write-through cache\<close>

record ('a, 'b) write_through =
  wt_l1 :: 'a
  wt_l2 :: 'b

definition NewWriteThrough :: "'a \<Rightarrow> 'b \<Rightarrow> ('a, 'b) write_through" where
  "NewWriteThrough l1 l2 = \<lparr>wt_l1 = l1, wt_l2 = l2\<rparr>"

definition wt_Put :: "'a cache_impl \<Rightarrow> 'b cache_impl \<Rightarrow> string \<Rightarrow> string \<Rightarrow> bytes \<Rightarrow>
    ('a, 'b) write_through \<Rightarrow> ('a, 'b) write_through" where
  "wt_Put I1 I2 scope key d w =
     (let w1 = w\<lparr>wt_l1 := c_Put I1 scope key d (wt_l1 w)\<rparr>
      in w1\<lparr>wt_l2 := c_Put I2 scope key d (wt_l2 w1)\<rparr>)"

definition wt_Get :: "'a cache_impl \<Rightarrow> 'b cache_impl \<Rightarrow> string \<Rightarrow> string \<Rightarrow>
    ('a, 'b) write_through \<Rightarrow> bytes option \<times> ('a, 'b) write_through" where
  "wt_Get I1 I2 scope key w =
     (case c_Get I1 scope key (wt_l1 w) of
        (Some d, l1) \<Rightarrow> (Some d, w\<lparr>wt_l1 := l1\<rparr>)
      | (None, l1) \<Rightarrow>
          (case c_Get I2 scope key (wt_l2 w) of
             (Some d, l2) \<Rightarrow> (Some d, w\<lparr>wt_l1 := c_Put I1 scope key d l1, wt_l2 := l2\<rparr>)
           | (None, l2) \<Rightarrow> (None, w\<lparr>wt_l1 := l1, wt_l2 := l2\<rparr>)))"

text \<open>A loop that appends what is not yet in the set \<open>seen\<close>.\<close>

fun append_unseen :: "'k list \<Rightarrow> 'k set \<times> 'k list \<Rightarrow> 'k set \<times> 'k list" where
  "append_unseen [] (seen, out) = (seen, out)"
| "append_unseen (k # ks) (seen, out) =
     (if k \<notin> seen then append_unseen ks (insert k seen, out @ [k]) else append_unseen ks (seen, out))"

definition wt_Keys :: "'a cache_impl \<Rightarrow> 'b cache_impl \<Rightarrow> string \<Rightarrow> ('a, 'b) write_through \<Rightarrow> string list" where
  "wt_Keys I1 I2 scope w =
     snd (append_unseen (c_Keys I2 scope (wt_l2 w)) (append_unseen (c_Keys I1 scope (wt_l1 w)) ({}, [])))"

definition wt_Evict :: "'a cache_impl \<Rightarrow> string \<Rightarrow> string \<Rightarrow> ('a, 'b) write_through \<Rightarrow> ('a, 'b) write_through" where
  "wt_Evict I1 scope key w = w\<lparr>wt_l1 := c_Evict I1 scope key (wt_l1 w)\<rparr>"

definition wt_EvictScope :: "'a cache_impl \<Rightarrow> string \<Rightarrow> ('a, 'b) write_through \<Rightarrow> ('a, 'b) write_through" where
  "wt_EvictScope I1 scope w = w\<lparr>wt_l1 := c_EvictScope I1 scope (wt_l1 w)\<rparr>"

definition wt_Scopes :: "'a cache_impl \<Rightarrow> 'b cache_impl \<Rightarrow> ('a, 'b) write_through \<Rightarrow> string list" where
  "wt_Scopes I1 I2 w =
     snd (append_unseen (c_Scopes I2 (wt_l2 w)) (append_unseen (c_Scopes I1 (wt_l1 w)) ({}, [])))"

definition wt_Len :: "'b cache_impl \<Rightarrow> ('a, 'b) write_through \<Rightarrow> nat" where
  "wt_Len I2 w = c_Len I2 (wt_l2 w)"

definition write_through_impl :: "'a cache_impl \<Rightarrow> 'b cache_impl \<Rightarrow> ('a, 'b) write_through cache_impl" where
  "write_through_impl I1 I2 = \<lparr>c_Put = wt_Put I1 I2, c_Get = wt_Get I1 I2, c_Keys = wt_Keys I1 I2,
     c_Evict = wt_Evict I1, c_EvictScope = wt_EvictScope I1, c_Scopes = wt_Scopes I1 I2, c_Len = wt_Len I2\<rparr>"

subsection \<open>Sequences of operations\<close>

datatype cache_op =
  OpPut string string bytes
| OpGet string string
| OpEvict string string
| OpEvictScope string

fun cache_step :: "'c cache_impl \<Rightarrow> cache_op \<Rightarrow> 'c \<Rightarrow> bytes option \<times> 'c" where
  "cache_step I (OpPut s k d) c = (None, c_Put I s k d c)"
| "cache_step I (OpGet s k) c = c_Get I s k c"
| "cache_step I (OpEvict s k) c = (None, c_Evict I s k c)"
| "cache_step I (OpEvictScope s) c = (None, c_EvictScope I s c)"

fun cache_run :: "'c cache_impl \<Rightarrow> cache_op list \<Rightarrow> 'c \<Rightarrow> bytes option list \<times> 'c" where
  "cache_run I [] c = ([], c)"
| "cache_run I (x # xs) c =
     (case cache_step I x c of (r, c1) \<Rightarrow> (case cache_run I xs c1 of (rs, c2) \<Rightarrow> (r # rs, c2)))"

type_synonym cache_spec = "string \<Rightarrow> string \<rightharpoonup> bytes"

text \<open>The abstract cache, a map; one that forgets what is evicted and one that retains it.\<close>

definition spec_put :: "string \<Rightarrow> string \<Rightarrow> bytes \<Rightarrow> cache_spec \<Rightarrow> cache_spec" where
  "spec_put s k d m = m(s := (m s)(k \<mapsto> d))"

fun forgetting_step :: "cache_op \<Rightarrow> cache_spec \<Rightarrow> bytes option \<times> cache_spec" where
  "forgetting_step (OpPut s k d) m = (None, spec_put s k d m)"
| "forgetting_step (OpGet s k) m = (m s k, m)"
| "forgetting_step (OpEvict s k) m = (None, m(s := (m s)(k := None)))"
| "forgetting_step (OpEvictScope s) m = (None, m(s := Map.empty))"

fun retaining_step :: "cache_op \<Rightarrow> cache_spec \<Rightarrow> bytes option \<times> cache_spec" where
  "retaining_step (OpPut s k d) m = (None, spec_put s k d m)"
| "retaining_step (OpGet s k) m = (m s k, m)"
| "retaining_step (OpEvict s k) m = (None, m)"
| "retaining_step (OpEvictScope s) m = (None, m)"

fun spec_run :: "(cache_op \<Rightarrow> cache_spec \<Rightarrow> bytes option \<times> cache_spec) \<Rightarrow> cache_op list \<Rightarrow> cache_spec \<Rightarrow>
    bytes option list \<times> cache_spec" where
  "spec_run f [] m = ([], m)"
| "spec_run f (x # xs) m = (case f x m of (r, m1) \<Rightarrow> (case spec_run f xs m1 of (rs, m2) \<Rightarrow> (r # rs, m2)))"

lemma spec_put_apply: "spec_put s k d m s' k' = (if s' = s \<and> k' = k then Some d else m s' k')"
  by (simp add: spec_put_def)

lemma append_unseen_result:
  "seen = set out \<Longrightarrow> distinct out \<Longrightarrow>
   fst (append_unseen ks (seen, out)) = set (snd (append_unseen ks (seen, out))) \<and>
   distinct (snd (append_unseen ks (seen, out))) \<and>
   set (snd (append_unseen ks (seen, out))) = set out \<union> set ks"
proof (induction ks arbitrary: seen out)
  case (Cons k ks)
  then show ?case using Cons.IH [of "insert k seen" "out @ [k]"] Cons.IH [of seen out] by auto
qed simp

lemma append_unseen_two:
  defines "r ys xs \<equiv> snd (append_unseen ys (append_unseen xs ({}, [])))"
  shows "distinct (r ys xs)" "set (r ys xs) = set xs \<union> set ys"
proof -
  obtain seen out where a: "append_unseen xs ({}, []) = (seen, out)" by (cases "append_unseen xs ({}, [])")
  have "seen = set out" "distinct out" "set out = set xs"
    using append_unseen_result [of "{}" "[]" xs] by (simp_all add: a)
  then show "distinct (r ys xs)" "set (r ys xs) = set xs \<union> set ys"
    using append_unseen_result [of seen out ys] by (simp_all add: a r_def)
qed

subsection \<open>The interfaces\<close>

locale cache_contract =
  fixes look :: "'c \<Rightarrow> cache_spec" and inv :: "'c \<Rightarrow> bool" and I :: "'c cache_impl"
  assumes put_inv: "inv c \<Longrightarrow> inv (c_Put I s k d c)"
    and put_look: "inv c \<Longrightarrow> look (c_Put I s k d c) = spec_put s k d (look c)"
    and get_result: "inv c \<Longrightarrow> fst (c_Get I s k c) = look c s k"
    and get_inv: "inv c \<Longrightarrow> inv (snd (c_Get I s k c))"
    and get_look: "inv c \<Longrightarrow> look (snd (c_Get I s k c)) = look c"
    and keys_dom: "inv c \<Longrightarrow> set (c_Keys I s c) = dom (look c s)"
    and keys_distinct: "inv c \<Longrightarrow> distinct (c_Keys I s c)"
    and evict_inv: "inv c \<Longrightarrow> inv (c_Evict I s k c)"
    and evict_le: "inv c \<Longrightarrow> look (c_Evict I s k c) s' \<subseteq>\<^sub>m look c s'"
    and evict_scope_inv: "inv c \<Longrightarrow> inv (c_EvictScope I s c)"
    and evict_scope_le: "inv c \<Longrightarrow> look (c_EvictScope I s c) s' \<subseteq>\<^sub>m look c s'"
    and scopes_dom: "inv c \<Longrightarrow> set (c_Scopes I c) = {s. look c s \<noteq> Map.empty}"
    and scopes_distinct: "inv c \<Longrightarrow> distinct (c_Scopes I c)"
    and len_card: "inv c \<Longrightarrow> c_Len I c = card {(s, k). look c s k \<noteq> None}"
begin

lemma step_inv: "inv c \<Longrightarrow> inv (snd (cache_step I x c))"
  by (cases x) (simp_all add: put_inv get_inv evict_inv evict_scope_inv)

lemma run_inv: "inv c \<Longrightarrow> inv (snd (cache_run I xs c))"
proof (induction xs arbitrary: c)
  case (Cons x xs)
  then show ?case using Cons.IH [OF step_inv [OF Cons.prems, of x]] by (simp add: case_prod_unfold)
qed simp

lemma run_refines:
  assumes step: "\<And>x c. inv c \<Longrightarrow> fst (cache_step I x c) = fst (f x (look c)) \<and> look (snd (cache_step I x c)) = snd (f x (look c))"
    and "inv c"
  shows "fst (cache_run I xs c) = fst (spec_run f xs (look c)) \<and> look (snd (cache_run I xs c)) = snd (spec_run f xs (look c))"
  using \<open>inv c\<close>
proof (induction xs arbitrary: c)
  case (Cons x xs)
  then show ?case using Cons.IH [OF step_inv [OF Cons.prems, of x]] step [OF Cons.prems, of x]
    by (simp add: case_prod_unfold)
qed simp

end

locale evicting_cache = cache_contract +
  assumes evict_look: "inv c \<Longrightarrow> look (c_Evict I s k c) = (look c)(s := (look c s)(k := None))"
    and evict_scope_look: "inv c \<Longrightarrow> look (c_EvictScope I s c) = (look c)(s := Map.empty)"
begin

lemma run_forgets:
  "inv c \<Longrightarrow> fst (cache_run I xs c) = fst (spec_run forgetting_step xs (look c)) \<and>
     look (snd (cache_run I xs c)) = snd (spec_run forgetting_step xs (look c))"
proof (rule run_refines)
  fix x c assume "inv c"
  then show "fst (cache_step I x c) = fst (forgetting_step x (look c)) \<and>
      look (snd (cache_step I x c)) = snd (forgetting_step x (look c))"
    by (cases x) (simp_all add: put_look get_result get_look evict_look evict_scope_look)
qed

end

text \<open>
  The first level holds part of the second level: every write goes to both, and what a read
  promotes comes from the second.
\<close>

locale write_through =
  L1: cache_contract look1 inv1 I1 + L2: cache_contract look2 inv2 I2
  for look1 :: "'a \<Rightarrow> cache_spec" and inv1 I1 and look2 :: "'b \<Rightarrow> cache_spec" and inv2 I2
begin

definition inclusive :: "('a, 'b) write_through \<Rightarrow> bool" where
  "inclusive w = (inv1 (wt_l1 w) \<and> inv2 (wt_l2 w) \<and> (\<forall>s. look1 (wt_l1 w) s \<subseteq>\<^sub>m look2 (wt_l2 w) s))"

lemma inclusiveD:
  assumes "inclusive w"
  shows "inv1 (wt_l1 w)" "inv2 (wt_l2 w)" "look1 (wt_l1 w) s \<subseteq>\<^sub>m look2 (wt_l2 w) s"
    "look1 (wt_l1 w) s k = Some d \<Longrightarrow> look2 (wt_l2 w) s k = Some d"
  using assms by (auto simp: inclusive_def map_le_def dom_def)

lemma spec_put_mono: "(\<And>s. m s \<subseteq>\<^sub>m m' s) \<Longrightarrow> spec_put s k d m s' \<subseteq>\<^sub>m spec_put s k d m' s'"
  by (auto simp: map_le_def spec_put_def)

lemma spec_put_known: "(\<And>s. m s \<subseteq>\<^sub>m m' s) \<Longrightarrow> m' s k = Some d \<Longrightarrow> spec_put s k d m s' \<subseteq>\<^sub>m m' s'"
  by (auto simp: map_le_def spec_put_def)

lemma get_inclusive:
  assumes w: "inclusive w"
  shows "fst (wt_Get I1 I2 s k w) = look2 (wt_l2 w) s k" "inclusive (snd (wt_Get I1 I2 s k w))"
    "look2 (wt_l2 (snd (wt_Get I1 I2 s k w))) = look2 (wt_l2 w)"
proof -
  note i = inclusiveD [OF w]
  obtain r1 l1 where g1: "c_Get I1 s k (wt_l1 w) = (r1, l1)" by force
  obtain r2 l2 where g2: "c_Get I2 s k (wt_l2 w) = (r2, l2)" by force
  have 1: "r1 = look1 (wt_l1 w) s k" "inv1 l1" "look1 l1 = look1 (wt_l1 w)"
    using L1.get_result [OF i(1), of s k] L1.get_inv [OF i(1), of s k] L1.get_look [OF i(1), of s k] g1 by auto
  have 2: "r2 = look2 (wt_l2 w) s k" "inv2 l2" "look2 l2 = look2 (wt_l2 w)"
    using L2.get_result [OF i(2), of s k] L2.get_inv [OF i(2), of s k] L2.get_look [OF i(2), of s k] g2 by auto
  have "fst (wt_Get I1 I2 s k w) = look2 (wt_l2 w) s k \<and> inclusive (snd (wt_Get I1 I2 s k w)) \<and>
    look2 (wt_l2 (snd (wt_Get I1 I2 s k w))) = look2 (wt_l2 w)"
  proof (cases r1)
    case (Some d)
    then show ?thesis using i 1 by (simp add: wt_Get_def g1 inclusive_def)
  next
    case None
    show ?thesis
    proof (cases r2)
      case None2: None
      then show ?thesis using i 1 2 None by (simp add: wt_Get_def g1 g2 inclusive_def)
    next
      case (Some d)
      have "spec_put s k d (look1 (wt_l1 w)) s' \<subseteq>\<^sub>m look2 (wt_l2 w) s'" for s'
        using i(3) Some 2(1) by (intro spec_put_known) auto
      moreover have "look2 (wt_l2 w) s k = Some d" using Some 2(1) by simp
      ultimately show ?thesis using i(1,2) 1(2,3) 2(2,3) None Some
        by (simp add: wt_Get_def g1 g2 inclusive_def L1.put_inv L1.put_look)
    qed
  qed
  then show "fst (wt_Get I1 I2 s k w) = look2 (wt_l2 w) s k" "inclusive (snd (wt_Get I1 I2 s k w))"
    "look2 (wt_l2 (snd (wt_Get I1 I2 s k w))) = look2 (wt_l2 w)" by auto
qed

lemma put_inclusive: "inclusive w \<Longrightarrow> inclusive (wt_Put I1 I2 s k d w)"
  by (auto simp: inclusive_def wt_Put_def L1.put_inv L2.put_inv L1.put_look L2.put_look intro!: spec_put_mono)

lemma evict_inclusive: "inclusive w \<Longrightarrow> inclusive (wt_Evict I1 s k w)"
  unfolding inclusive_def wt_Evict_def
  by (auto simp: L1.evict_inv intro: map_le_trans [OF L1.evict_le])

lemma evict_scope_inclusive: "inclusive w \<Longrightarrow> inclusive (wt_EvictScope I1 s w)"
  unfolding inclusive_def wt_EvictScope_def
  by (auto simp: L1.evict_scope_inv intro: map_le_trans [OF L1.evict_scope_le])

lemma keys_inclusive: "inclusive w \<Longrightarrow> set (wt_Keys I1 I2 s w) = dom (look2 (wt_l2 w) s)"
  using map_le_implies_dom_le [OF inclusiveD(3)]
  by (auto simp: wt_Keys_def append_unseen_two(2) L1.keys_dom L2.keys_dom inclusiveD)

lemma scopes_inclusive: "inclusive w \<Longrightarrow> set (wt_Scopes I1 I2 w) = {s. look2 (wt_l2 w) s \<noteq> Map.empty}"
proof -
  assume w: "inclusive w"
  have "look2 (wt_l2 w) s \<noteq> Map.empty" if "look1 (wt_l1 w) s \<noteq> Map.empty" for s
    using that map_le_implies_dom_le [OF inclusiveD(3) [OF w], of s] by fastforce
  then show ?thesis
    using inclusiveD [OF w] by (auto simp: wt_Scopes_def append_unseen_two(2) L1.scopes_dom L2.scopes_dom)
qed

end

sublocale write_through \<subseteq> W: cache_contract "\<lambda>w. look2 (wt_l2 w)" inclusive "write_through_impl I1 I2"
proof unfold_locales
  fix w s k d s' assume w: "inclusive w"
  note i = inclusiveD [OF w]
  let ?W = "write_through_impl I1 I2"
  show "inclusive (c_Put ?W s k d w)" using put_inclusive [OF w] by (simp add: write_through_impl_def)
  show "look2 (wt_l2 (c_Put ?W s k d w)) = spec_put s k d (look2 (wt_l2 w))"
    using i by (simp add: write_through_impl_def wt_Put_def L2.put_look)
  show "fst (c_Get ?W s k w) = look2 (wt_l2 w) s k" "inclusive (snd (c_Get ?W s k w))"
    "look2 (wt_l2 (snd (c_Get ?W s k w))) = look2 (wt_l2 w)"
    using get_inclusive [OF w] by (simp_all add: write_through_impl_def)
  show "set (c_Keys ?W s w) = dom (look2 (wt_l2 w) s)"
    using keys_inclusive [OF w] by (simp add: write_through_impl_def)
  show "distinct (c_Keys ?W s w)" "distinct (c_Scopes ?W w)"
    by (simp_all add: write_through_impl_def wt_Keys_def wt_Scopes_def append_unseen_two(1))
  show "inclusive (c_Evict ?W s k w)" "inclusive (c_EvictScope ?W s w)"
    using evict_inclusive [OF w] evict_scope_inclusive [OF w] by (simp_all add: write_through_impl_def)
  show "look2 (wt_l2 (c_Evict ?W s k w)) s' \<subseteq>\<^sub>m look2 (wt_l2 w) s'"
    "look2 (wt_l2 (c_EvictScope ?W s w)) s' \<subseteq>\<^sub>m look2 (wt_l2 w) s'"
    by (simp_all add: write_through_impl_def wt_Evict_def wt_EvictScope_def)
  show "set (c_Scopes ?W w) = {s. look2 (wt_l2 w) s \<noteq> Map.empty}"
    using scopes_inclusive [OF w] by (simp add: write_through_impl_def)
  show "c_Len ?W w = card {(s, k). look2 (wt_l2 w) s k \<noteq> None}"
    using i by (simp add: write_through_impl_def wt_Len_def L2.len_card)
qed

context write_through
begin

lemma run_retains:
  "inclusive w \<Longrightarrow>
   fst (cache_run (write_through_impl I1 I2) xs w) = fst (spec_run retaining_step xs (look2 (wt_l2 w))) \<and>
   look2 (wt_l2 (snd (cache_run (write_through_impl I1 I2) xs w))) = snd (spec_run retaining_step xs (look2 (wt_l2 w)))"
proof (rule W.run_refines)
  fix x w assume w: "inclusive w"
  show "fst (cache_step (write_through_impl I1 I2) x w) = fst (retaining_step x (look2 (wt_l2 w))) \<and>
    look2 (wt_l2 (snd (cache_step (write_through_impl I1 I2) x w))) = snd (retaining_step x (look2 (wt_l2 w)))"
    using w W.put_look [OF w] W.get_result [OF w] W.get_look [OF w]
    by (cases x) (simp_all add: write_through_impl_def wt_Evict_def wt_EvictScope_def)
qed

text \<open>Reading keys of a scope through the cache copies their entries to the first level.\<close>

lemma get_warms:
  assumes w: "inclusive w"
  shows "look1 (wt_l1 (snd (wt_Get I1 I2 s k w))) =
    (look1 (wt_l1 w))(s := look1 (wt_l1 w) s ++ (look2 (wt_l2 w) s |` {k}))"
proof -
  note i = inclusiveD [OF w]
  obtain r1 l1 where g1: "c_Get I1 s k (wt_l1 w) = (r1, l1)" by force
  obtain r2 l2 where g2: "c_Get I2 s k (wt_l2 w) = (r2, l2)" by force
  have 1: "r1 = look1 (wt_l1 w) s k" "inv1 l1" "look1 l1 = look1 (wt_l1 w)"
    using L1.get_result [OF i(1), of s k] L1.get_inv [OF i(1), of s k] L1.get_look [OF i(1), of s k] g1 by auto
  have 2: "r2 = look2 (wt_l2 w) s k"
    using L2.get_result [OF i(2), of s k] g2 by auto
  show ?thesis
  proof (cases r1)
    case (Some d)
    then have l2: "look2 (wt_l2 w) s k = Some d" using i(4) 1(1) by simp
    have "look1 (wt_l1 w) s ++ (look2 (wt_l2 w) s |` {k}) = look1 (wt_l1 w) s"
      using Some 1(1) l2 by (auto simp: map_add_def restrict_map_def fun_eq_iff split: option.splits)
    then show ?thesis using Some 1 by (simp add: wt_Get_def g1)
  next
    case None
    show ?thesis
    proof (cases r2)
      case None2: None
      then have "look2 (wt_l2 w) s |` {k} = Map.empty" using 2 by (auto simp: restrict_map_def fun_eq_iff)
      then show ?thesis using 1 None None2 by (simp add: wt_Get_def g1 g2)
    next
      case (Some d)
      then have "look2 (wt_l2 w) s |` {k} = [k \<mapsto> d]" using 2 by (auto simp: restrict_map_def fun_eq_iff)
      then show ?thesis using 1 None Some by (simp add: wt_Get_def g1 g2 L1.put_look spec_put_def)
    qed
  qed
qed

lemma reads_warm:
  "inclusive w \<Longrightarrow>
   look1 (wt_l1 (snd (cache_run (write_through_impl I1 I2) (map (OpGet s) ks) w))) =
     (look1 (wt_l1 w))(s := look1 (wt_l1 w) s ++ (look2 (wt_l2 w) s |` set ks))"
proof (induction ks arbitrary: w)
  case Nil
  then show ?case by (simp add: restrict_map_to_empty)
next
  case (Cons k ks)
  let ?w = "snd (wt_Get I1 I2 s k w)"
  have m: "m ++ (n |` {k}) ++ (n |` set ks) = m ++ (n |` insert k (set ks))" for m n :: "string \<rightharpoonup> bytes"
    by (auto simp: map_add_def restrict_map_def fun_eq_iff split: option.splits)
  have "look1 (wt_l1 (snd (cache_run (write_through_impl I1 I2) (map (OpGet s) ks) ?w))) =
    (look1 (wt_l1 ?w))(s := look1 (wt_l1 ?w) s ++ (look2 (wt_l2 w) s |` set ks))"
    using Cons.IH [OF get_inclusive(2) [OF Cons.prems]] get_inclusive(3) [OF Cons.prems] by (simp only:)
  then show ?case using get_warms [OF Cons.prems]
    by (simp add: case_prod_unfold m write_through_impl_def)
qed

lemma keys_warm:
  assumes "inclusive w" "look1 (wt_l1 w) s = Map.empty" "set ks = dom (look2 (wt_l2 w) s)"
  shows "look1 (wt_l1 (snd (cache_run (write_through_impl I1 I2) (map (OpGet s) ks) w))) s = look2 (wt_l2 w) s"
proof -
  have "m |` dom m = m" for m :: "string \<rightharpoonup> bytes" by (auto simp: restrict_map_def fun_eq_iff domIff)
  then show ?thesis using reads_warm [OF assms(1), of s ks] assms(2,3) by simp
qed

end

subsection \<open>The in-memory cache keeps the contract\<close>

lemma mc_look_simp: "mc_look c s = (case map_of c s of None \<Rightarrow> Map.empty | Some m \<Rightarrow> map_of m)"
  by (auto simp: mc_look_def mc_Get_def split: option.splits)

lemma mc_invD:
  assumes "mc_inv c" "map_of c s = Some m" shows "wf_map m" "m \<noteq> []"
  using assms by (auto simp: mc_inv_def dest!: map_of_SomeD intro: rev_image_eqI)

lemma mc_inv_lookup: "mc_inv c \<longleftrightarrow> wf_map c \<and> (\<forall>s m. map_of c s = Some m \<longrightarrow> wf_map m \<and> m \<noteq> [])"
  unfolding mc_inv_def using vals_lookup [of c] by metis

lemma mc_Put_eq: "mc_Put s k d c = mset_at (if map_of c s = None then mset_at c s [] else c) s (mset_at (mget [] c s) k d)"
  by (simp add: mc_Put_def Let_def mget_def)

lemma mc_put_lookup: "map_of (mc_Put s k d c) = (map_of c)(s \<mapsto> mset_at (mget [] c s) k d)"
  by (auto simp: mc_Put_eq fun_eq_iff)

lemma mset_at_not_Nil [simp]: "mset_at m k v \<noteq> []"
  by (metis insert_not_empty set_keys_mset_at image_empty list.set(1))

lemma mc_put_inv: "mc_inv c \<Longrightarrow> mc_inv (mc_Put s k d c)"
  unfolding mc_inv_lookup mc_put_lookup
  by (auto simp: mget_def mc_Put_eq wf_mset_at split: option.splits)

lemma mc_put_look: "mc_look (mc_Put s k d c) = spec_put s k d (mc_look c)"
  by (auto simp: fun_eq_iff spec_put_apply mc_look_simp mc_put_lookup mget_def split: option.splits)

lemma mc_evict_look: "mc_look (mc_Evict s k c) = (mc_look c)(s := (mc_look c s)(k := None))"
proof (cases "map_of c s")
  case None
  then show ?thesis by (auto simp: mc_Evict_def mc_look_simp fun_eq_iff)
next
  case (Some m)
  have "(map_of m)(k := None) = Map.empty" if "mdelete m k = []"
    using map_of_mdelete [where m = m and k = k] that by (metis map_of.simps(1))
  with Some show ?thesis by (auto simp: mc_Evict_def mc_look_simp fun_eq_iff Let_def)
qed

lemma mc_evict_inv: "mc_inv c \<Longrightarrow> mc_inv (mc_Evict s k c)"
  unfolding mc_inv_lookup
  by (auto simp: mc_Evict_def Let_def simp del: map_of_eq_Some_iff split: option.splits if_splits)

lemma mc_evict_scope_inv: "mc_inv c \<Longrightarrow> mc_inv (mc_EvictScope s c)"
  unfolding mc_inv_lookup by (auto simp: mc_EvictScope_def simp del: map_of_eq_Some_iff split: if_splits)

lemma mc_evict_scope_look: "mc_look (mc_EvictScope s c) = (mc_look c)(s := Map.empty)"
  by (auto simp: mc_EvictScope_def mc_look_simp fun_eq_iff)

lemma mc_scopes_dom: "mc_inv c \<Longrightarrow> set (mc_Scopes c) = {s. mc_look c s \<noteq> Map.empty}"
proof -
  assume i: "mc_inv c"
  have "mc_look c s \<noteq> Map.empty \<longleftrightarrow> map_of c s \<noteq> None" for s
  proof (cases "map_of c s")
    case (Some m)
    then have "m \<noteq> []" using i mc_invD(2) by blast
    then show ?thesis using Some by (cases m) (auto simp: mc_look_simp)
  qed (simp add: mc_look_simp)
  then show ?thesis by (simp add: mc_Scopes_def map_of_eq_None_keys set_eq_iff)
qed

lemma mc_Len_sum: "mc_Len c = sum_list (map length (vals c))"
proof -
  have "foldl (\<lambda>n m. n + length m) a ms = a + sum_list (map length ms)" for a and ms :: "(string, bytes) gomap list"
    by (induction ms arbitrary: a) auto
  then show ?thesis by (simp add: mc_Len_def)
qed

lemma mc_len_card: "mc_inv c \<Longrightarrow> mc_Len c = card {(s, k). mc_look c s k \<noteq> None}"
proof (induction c)
  case Nil
  then show ?case by (simp add: mc_Len_sum mc_look_simp)
next
  case (Cons a c)
  obtain s m where a: "a = (s, m)" by force
  have i: "mc_inv c" and m: "wf_map m" and s: "map_of c s = None"
    using Cons.prems by (auto simp: mc_inv_def a map_of_eq_None_keys)
  have eq: "{(s', k). mc_look (a # c) s' k \<noteq> None} = Pair s ` set (keys m) \<union> {(s', k). mc_look c s' k \<noteq> None}"
  proof -
    have "map_of m k \<noteq> None \<longleftrightarrow> k \<in> set (keys m)" for k 
      by (simp only: map_of_eq_None_keys not_not)
    moreover have "mc_look (a # c) s' k = (if s' = s then map_of m k else mc_look c s' k)" for s' k
      by (simp add: a mc_look_simp)
    moreover have "mc_look c s k = None" for k using s by (simp add: mc_look_simp)
    ultimately show ?thesis by (auto split: if_splits)
  qed
  have fin: "finite {(s', k). mc_look c s' k \<noteq> None}"
  proof (rule finite_subset)
    show "{(s', k). mc_look c s' k \<noteq> None} \<subseteq> (\<Union>p \<in> set c. Pair (fst p) ` fst ` set (snd p))"
    proof clarify
      fix s' k d assume "mc_look c s' k = Some d"
      then obtain m' where "map_of c s' = Some m'" "map_of m' k = Some d"
        by (auto simp: mc_look_simp split: option.splits)
      then show "(s', k) \<in> (\<Union>p \<in> set c. Pair (fst p) ` fst ` set (snd p))"
        using map_of_SomeD [of c s' m'] map_of_Some_key [of m' k d] by force
    qed
  qed auto
  have "card (Pair s ` set (keys m)) = length m"
    using distinct_card [OF m] by (simp add: card_image inj_on_def)
  moreover have "Pair s ` set (keys m) \<inter> {(s', k). mc_look c s' k \<noteq> None} = {}"
    using s by (auto simp: mc_look_simp)
  ultimately show ?case unfolding eq using Cons.IH [OF i] fin
    by (subst card_Un_disjoint) (simp_all add: mc_Len_sum a)
qed

lemmas mc_fields = mem_cache_impl_def cache_impl.simps

interpretation mc: evicting_cache mc_look mc_inv mem_cache_impl
proof unfold_locales
  fix c s k d s' assume c: "mc_inv c"
  show "mc_inv (c_Put mem_cache_impl s k d c)" "mc_inv (c_Evict mem_cache_impl s k c)"
    "mc_inv (c_EvictScope mem_cache_impl s c)" "mc_inv (snd (c_Get mem_cache_impl s k c))"
    using c by (simp_all add: mc_fields mc_put_inv mc_evict_inv mc_evict_scope_inv)
  show "mc_look (c_Put mem_cache_impl s k d c) = spec_put s k d (mc_look c)"
    by (simp add: mc_fields mc_put_look)
  show "fst (c_Get mem_cache_impl s k c) = mc_look c s k" "mc_look (snd (c_Get mem_cache_impl s k c)) = mc_look c"
    by (simp_all add: mc_fields mc_look_def)
  show "set (c_Keys mem_cache_impl s c) = dom (mc_look c s)"
    by (simp add: mc_fields mc_Keys_def mc_look_simp dom_map_of_conv_image_fst split: option.split)
  show "distinct (c_Keys mem_cache_impl s c)"
    using mc_invD(1) [OF c] by (simp add: mc_fields mc_Keys_def split: option.split)
  show e: "mc_look (c_Evict mem_cache_impl s k c) = (mc_look c)(s := (mc_look c s)(k := None))"
    by (simp add: mc_fields mc_evict_look)
  show es: "mc_look (c_EvictScope mem_cache_impl s c) = (mc_look c)(s := Map.empty)"
    by (simp add: mc_fields mc_evict_scope_look)
  show "mc_look (c_Evict mem_cache_impl s k c) s' \<subseteq>\<^sub>m mc_look c s'" by (simp add: e map_le_def)
  show "mc_look (c_EvictScope mem_cache_impl s c) s' \<subseteq>\<^sub>m mc_look c s'" by (simp add: es)
  show "set (c_Scopes mem_cache_impl c) = {s. mc_look c s \<noteq> Map.empty}"
    using c by (simp add: mc_fields mc_scopes_dom)
  show "distinct (c_Scopes mem_cache_impl c)" using c by (simp add: mc_fields mc_Scopes_def mc_inv_def)
  show "c_Len mem_cache_impl c = card {(s, k). mc_look c s k \<noteq> None}"
    using c by (simp add: mc_fields mc_len_card)
qed

interpretation wt: write_through mc_look mc_inv mem_cache_impl mc_look mc_inv mem_cache_impl
  by unfold_locales

end
