(* ===== verification/Key_Store.thy ===== *)
theory Key_Store
  imports Go_Strings
begin

text \<open>
  The key-value stores of \<^verbatim>\<open>store/store.go\<close>: the map of \<^verbatim>\<open>store/mem.go\<close> and the
  directory with a file per key of \<^verbatim>\<open>store/file.go\<close>. The directory is its files by name and
  the names of its sub-directories; an operating-system call that may fail takes its outcome as
  an argument. Keys are names without a path separator, so that a key's path is a file of the
  directory.

  The interface \<^verbatim>\<open>KeyStore\<close> is the locale \<open>key_store\<close>: an abstract map the operations
  act on. Both stores interpret it, which makes them indistinguishable to a client.
\<close>

datatype store_error = ErrNotFound string | StoreIO string

subsection \<open>The in-memory store\<close>

type_synonym mem_store = "(string, bytes) gomap"

definition NewMemStore :: mem_store where
  "NewMemStore = []"

definition ms_Put :: "string \<Rightarrow> bytes \<Rightarrow> mem_store \<Rightarrow> mem_store \<times> (store_error + unit)" where
  "ms_Put key d s = (mset_at s key d, Inr ())"

definition ms_Get :: "string \<Rightarrow> mem_store \<Rightarrow> store_error + bytes" where
  "ms_Get key s = (case map_of s key of None \<Rightarrow> Inl (ErrNotFound key) | Some d \<Rightarrow> Inr d)"

definition ms_List :: "mem_store \<Rightarrow> store_error + string list" where
  "ms_List s = Inr (keys s)"

definition ms_Delete :: "string \<Rightarrow> mem_store \<Rightarrow> mem_store \<times> (store_error + unit)" where
  "ms_Delete key s = (if map_of s key = None then (s, Inl (ErrNotFound key)) else (mdelete s key, Inr ()))"

definition ms_Len :: "mem_store \<Rightarrow> nat" where
  "ms_Len s = length s"

subsection \<open>The store of files\<close>

record file_store =
  fs_ext :: string
  fs_perm :: nat
  fs_files :: "(string, bytes) gomap"
  fs_subdirs :: "string list"

datatype store_option = WithExtension string | WithPermissions nat

primrec apply_store_option :: "file_store \<Rightarrow> store_option \<Rightarrow> file_store" where
  "apply_store_option s (WithExtension ext) = s\<lparr>fs_ext := ext\<rparr>"
| "apply_store_option s (WithPermissions perm) = s\<lparr>fs_perm := perm\<rparr>"

text \<open>The store over a directory that exists already holds its files; 0644 is 420.\<close>

definition NewFileStore :: "(string, bytes) gomap \<Rightarrow> string list \<Rightarrow> store_option list \<Rightarrow> file_store" where
  "NewFileStore files subdirs opts =
     foldl apply_store_option \<lparr>fs_ext = ''.json'', fs_perm = 420, fs_files = files, fs_subdirs = subdirs\<rparr> opts"

definition keyPath :: "file_store \<Rightarrow> string \<Rightarrow> string" where
  "keyPath s key = key @ fs_ext s"

text \<open>
  What \<^verbatim>\<open>os.WriteFile\<close> does: it writes everything, or it fails and leaves the file with
  part of the data (\<open>Some\<close>) or as it was (\<open>None\<close>).
\<close>

datatype file_write = WriteDone | WriteFails "bytes option"

definition fs_Put :: "file_write \<Rightarrow> bool \<Rightarrow> bool \<Rightarrow> string \<Rightarrow> bytes \<Rightarrow> file_store \<Rightarrow>
    file_store \<times> (store_error + unit)" where
  "fs_Put write rename_ok remove_ok key d s =
     (let path = keyPath s key;
          tmp = path @ ''.tmp''
      in case write of
           WriteFails None \<Rightarrow> (s, Inl (StoreIO key))
         | WriteFails (Some part) \<Rightarrow> (s\<lparr>fs_files := mset_at (fs_files s) tmp part\<rparr>, Inl (StoreIO key))
         | WriteDone \<Rightarrow>
             (let files = mset_at (fs_files s) tmp d
              in if rename_ok then (s\<lparr>fs_files := mdelete (mset_at files path d) tmp\<rparr>, Inr ())
                 else (s\<lparr>fs_files := (if remove_ok then mdelete files tmp else files)\<rparr>, Inl (StoreIO key))))"

definition fs_Get :: "bool \<Rightarrow> string \<Rightarrow> file_store \<Rightarrow> store_error + bytes" where
  "fs_Get read_ok key s =
     (case map_of (fs_files s) (keyPath s key) of
        None \<Rightarrow> Inl (ErrNotFound key)
      | Some d \<Rightarrow> if read_ok then Inr d else Inl (StoreIO key))"

text \<open>\<^verbatim>\<open>os.ReadDir\<close> lists a directory in the order of the names.\<close>

definition read_dir :: "file_store \<Rightarrow> (string \<times> bool) list" where
  "read_dir s = map (\<lambda>n. (n, n \<in> set (fs_subdirs s))) (sort (keys (fs_files s) @ fs_subdirs s))"

definition fs_List :: "bool \<Rightarrow> file_store \<Rightarrow> store_error + string list" where
  "fs_List read_ok s =
     (if \<not> read_ok then Inl (StoreIO ''list'')
      else Inr (map (\<lambda>e. trim_suffix (fst e) (fs_ext s))
             (filter (\<lambda>e. \<not> (snd e \<or> \<not> has_suffix (fst e) (fs_ext s))) (read_dir s))))"

definition fs_Delete :: "bool \<Rightarrow> string \<Rightarrow> file_store \<Rightarrow> file_store \<times> (store_error + unit)" where
  "fs_Delete remove_ok key s =
     (let path = keyPath s key
      in if map_of (fs_files s) path = None then (s, Inl (ErrNotFound key))
         else if remove_ok then (s\<lparr>fs_files := mdelete (fs_files s) path\<rparr>, Inr ())
         else (s, Inl (StoreIO key)))"

text \<open>
  The view of a client: the contents by key. The temporary name of a key is no key's path
  with the extension the program uses.
\<close>

definition fs_view :: "file_store \<Rightarrow> string \<rightharpoonup> bytes" where
  "fs_view s key = map_of (fs_files s) (keyPath s key)"

definition fs_inv :: "file_store \<Rightarrow> bool" where
  "fs_inv s = (fs_ext s = ''.json'' \<and> distinct (keys (fs_files s) @ fs_subdirs s) \<and>
     (\<forall>n \<in> set (fs_subdirs s). \<not> suffix ''.json'' n \<and> \<not> suffix ''.tmp'' n))"

subsection \<open>The interface\<close>

record 's key_store_impl =
  k_Put :: "string \<Rightarrow> bytes \<Rightarrow> 's \<Rightarrow> 's \<times> (store_error + unit)"
  k_Get :: "string \<Rightarrow> 's \<Rightarrow> store_error + bytes"
  k_List :: "'s \<Rightarrow> store_error + string list"
  k_Delete :: "string \<Rightarrow> 's \<Rightarrow> 's \<times> (store_error + unit)"

definition mem_store_impl :: "mem_store key_store_impl" where
  "mem_store_impl = \<lparr>k_Put = ms_Put, k_Get = ms_Get, k_List = ms_List, k_Delete = ms_Delete\<rparr>"

text \<open>The store of files when the operating system refuses nothing.\<close>

definition file_store_impl :: "file_store key_store_impl" where
  "file_store_impl = \<lparr>k_Put = fs_Put WriteDone True True, k_Get = fs_Get True, k_List = fs_List True,
     k_Delete = fs_Delete True\<rparr>"

datatype store_op = StPut string bytes | StGet string | StDelete string | StList
datatype store_result = ResUnit "store_error + unit" | ResData "store_error + bytes" | ResKeys "store_error + string list"

text \<open>A listing is read up to its order, which the interface leaves open.\<close>

fun store_step :: "'s key_store_impl \<Rightarrow> store_op \<Rightarrow> 's \<Rightarrow> store_result \<times> 's" where
  "store_step K (StPut k d) s = (case k_Put K k d s of (s', r) \<Rightarrow> (ResUnit r, s'))"
| "store_step K (StGet k) s = (ResData (k_Get K k s), s)"
| "store_step K (StDelete k) s = (case k_Delete K k s of (s', r) \<Rightarrow> (ResUnit r, s'))"
| "store_step K StList s = (ResKeys (map_sum id sort (k_List K s)), s)"

fun store_run :: "'s key_store_impl \<Rightarrow> store_op list \<Rightarrow> 's \<Rightarrow> store_result list" where
  "store_run K [] s = []"
| "store_run K (x # xs) s = (case store_step K x s of (r, s') \<Rightarrow> r # store_run K xs s')"

fun store_spec :: "store_op \<Rightarrow> (string \<rightharpoonup> bytes) \<Rightarrow> store_result \<times> (string \<rightharpoonup> bytes)" where
  "store_spec (StPut k d) m = (ResUnit (Inr ()), m(k \<mapsto> d))"
| "store_spec (StGet k) m = (ResData (case m k of None \<Rightarrow> Inl (ErrNotFound k) | Some d \<Rightarrow> Inr d), m)"
| "store_spec (StDelete k) m =
     (ResUnit (case m k of None \<Rightarrow> Inl (ErrNotFound k) | Some d \<Rightarrow> Inr ()), m(k := None))"
| "store_spec StList m = (ResKeys (Inr (sorted_list_of_set (dom m))), m)"

fun store_spec_run :: "store_op list \<Rightarrow> (string \<rightharpoonup> bytes) \<Rightarrow> store_result list" where
  "store_spec_run [] m = []"
| "store_spec_run (x # xs) m = (case store_spec x m of (r, m') \<Rightarrow> r # store_spec_run xs m')"

locale key_store =
  fixes view :: "'s \<Rightarrow> string \<rightharpoonup> bytes" and inv :: "'s \<Rightarrow> bool" and K :: "'s key_store_impl"
  assumes put_inv: "inv s \<Longrightarrow> inv (fst (k_Put K k d s))"
    and put_result: "inv s \<Longrightarrow> snd (k_Put K k d s) = Inr ()"
    and put_view: "inv s \<Longrightarrow> view (fst (k_Put K k d s)) = (view s)(k \<mapsto> d)"
    and get_result: "inv s \<Longrightarrow> k_Get K k s = (case view s k of None \<Rightarrow> Inl (ErrNotFound k) | Some d \<Rightarrow> Inr d)"
    and list_result: "inv s \<Longrightarrow> \<exists>ks. k_List K s = Inr ks \<and> distinct ks \<and> set ks = dom (view s)"
    and delete_inv: "inv s \<Longrightarrow> inv (fst (k_Delete K k s))"
    and delete_result: "inv s \<Longrightarrow> snd (k_Delete K k s) = (case view s k of None \<Rightarrow> Inl (ErrNotFound k) | Some d \<Rightarrow> Inr ())"
    and delete_view: "inv s \<Longrightarrow> view (fst (k_Delete K k s)) = (view s)(k := None)"
begin

lemma list_sorted: "inv s \<Longrightarrow> map_sum id sort (k_List K s) = Inr (sorted_list_of_set (dom (view s)))"
proof -
  assume "inv s"
  then obtain ks where ks: "k_List K s = Inr ks" "distinct ks" "set ks = dom (view s)"
    using list_result by blast
  then have "sort ks = sorted_list_of_set (set ks)"
    by (metis distinct_remdups_id sorted_list_of_set_sort_remdups)
  with ks show ?thesis by simp
qed

lemma step_refines:
  "inv s \<Longrightarrow> fst (store_step K x s) = fst (store_spec x (view s)) \<and>
     view (snd (store_step K x s)) = snd (store_spec x (view s)) \<and> inv (snd (store_step K x s))"
  by (cases x)
    (simp_all add: case_prod_unfold put_inv put_result put_view get_result delete_inv delete_result delete_view list_sorted)

lemma run_refines: "inv s \<Longrightarrow> store_run K xs s = store_spec_run xs (view s)"
proof (induction xs arbitrary: s)
  case (Cons x xs)
  then show ?case using step_refines [OF Cons.prems, of x] by (simp add: case_prod_unfold)
qed simp

end

subsection \<open>Both stores keep the contract\<close>

lemma dom_map_of_keys: "dom (map_of m) = set (keys m)"
  by (simp add: dom_map_of_conv_image_fst)

interpretation ms: key_store map_of "\<lambda>s. wf_map s" mem_store_impl
proof unfold_locales
  fix s :: mem_store and k d assume s: "wf_map s"
  show "wf_map (fst (k_Put mem_store_impl k d s))" "wf_map (fst (k_Delete mem_store_impl k s))"
    using s by (simp_all add: mem_store_impl_def ms_Put_def ms_Delete_def)
  show "\<exists>ks. k_List mem_store_impl s = Inr ks \<and> distinct ks \<and> set ks = dom (map_of s)"
    using s by (simp add: mem_store_impl_def ms_List_def dom_map_of_keys)
  show "map_of (fst (k_Delete mem_store_impl k s)) = (map_of s)(k := None)"
    by (simp add: mem_store_impl_def ms_Delete_def fun_upd_idem)
  show "snd (k_Delete mem_store_impl k s) = (case map_of s k of None \<Rightarrow> Inl (ErrNotFound k) | Some d \<Rightarrow> Inr ())"
    by (cases "map_of s k") (simp_all add: mem_store_impl_def ms_Delete_def)
qed (simp_all add: mem_store_impl_def ms_Put_def ms_Get_def)

lemma tmp_not_json: "k @ ''.json'' @ ''.tmp'' \<noteq> k' @ ''.json''"
  by (auto dest: arg_cong [where f = last])

lemma fs_viewI: "fs_ext s = ''.json'' \<Longrightarrow> fs_view s k = map_of (fs_files s) (k @ ''.json'')"
  by (simp add: fs_view_def keyPath_def)

lemma json_suffix: "suffix ''.json'' n \<longleftrightarrow> (\<exists>k. n = k @ ''.json'')"
  by (auto simp: suffix_def)

lemma fs_inv_files:
  assumes "fs_inv s" "distinct (keys fs)" "set (keys fs) \<subseteq> set (keys (fs_files s)) \<union> {n. suffix ''.json'' n \<or> suffix ''.tmp'' n}"
  shows "fs_inv (s\<lparr>fs_files := fs\<rparr>)"
  using assms by (auto simp: fs_inv_def)

lemma trim_json [simp]: "trim_suffix (k @ ''.json'') ''.json'' = k"
  by (simp add: trim_suffix_def has_suffix_def)

lemma set_keys_mdelete: "fst ` set (mdelete m k) = fst ` set m - {k}"
  by (metis delete_keys list.set_map set_removeAll)

lemma fs_put_inv: "fs_inv s \<Longrightarrow> fs_inv (fst (fs_Put w ren rem k d s))"
proof -
  assume s: "fs_inv s"
  have wf: "wf_map (fs_files s)" and ext: "fs_ext s = ''.json''" using s by (auto simp: fs_inv_def)
  have suf: "suffix ''.json'' (k @ ''.json'')" "suffix ''.tmp'' (k @ ''.json.tmp'')" by (auto simp: suffix_def)
  show ?thesis
    by (cases w)
      (use s wf suf in \<open>auto simp: fs_Put_def Let_def keyPath_def ext set_keys_mdelete
        intro!: fs_inv_files split: option.split\<close>)
qed

lemma fs_put_view:
  assumes "fs_ext s = ''.json''"
  shows "fs_view (fst (fs_Put w ren rem k d s)) =
    (case snd (fs_Put w ren rem k d s) of Inl _ \<Rightarrow> fs_view s | Inr _ \<Rightarrow> (fs_view s)(k \<mapsto> d))"
  using assms tmp_not_json [of k] tmp_not_json [of k, symmetric]
  by (auto simp: fs_Put_def Let_def fs_view_def keyPath_def fun_eq_iff split: file_write.split option.split)

lemma fs_list_keys:
  assumes s: "fs_inv s"
  shows "\<exists>ks. fs_List True s = Inr ks \<and> distinct ks \<and> set ks = dom (fs_view s)"
proof -
  let ?names = "filter (\<lambda>n. suffix ''.json'' n \<and> n \<notin> set (fs_subdirs s)) (sort (keys (fs_files s) @ fs_subdirs s))"
  have ext: "fs_ext s = ''.json''" and d: "distinct (keys (fs_files s) @ fs_subdirs s)" using s by (auto simp: fs_inv_def)
  have l: "fs_List True s = Inr (map (\<lambda>n. trim_suffix n ''.json'') ?names)"
    by (simp add: fs_List_def read_dir_def ext filter_map comp_def has_suffix_suffix conj_commute)
  have inj: "inj_on (\<lambda>n. trim_suffix n ''.json'') (set ?names)"
    by (auto simp: inj_on_def json_suffix)
  have "distinct ?names" using d by simp
  then have "distinct (map (\<lambda>n. trim_suffix n ''.json'') ?names)" using inj by (simp only: distinct_map)
  moreover have "set ?names = {k @ ''.json'' | k. k @ ''.json'' \<in> set (keys (fs_files s))}"
    using s by (auto simp: json_suffix fs_inv_def)
  then have "set (map (\<lambda>n. trim_suffix n ''.json'') ?names) = {k. k @ ''.json'' \<in> set (keys (fs_files s))}"
    unfolding set_map by (simp only: image_Collect trim_json) (auto simp: setcompr_eq_image image_image)
  moreover have "k \<in> dom (fs_view s) \<longleftrightarrow> k @ ''.json'' \<in> set (keys (fs_files s))" for k
    unfolding domIff fs_view_def keyPath_def ext by (simp only: map_of_eq_None_keys not_not)
  then have "dom (fs_view s) = {k. k @ ''.json'' \<in> set (keys (fs_files s))}" by blast
  ultimately show ?thesis using l by blast
qed

interpretation fs: key_store fs_view fs_inv file_store_impl
proof unfold_locales
  fix s k d assume s: "fs_inv s"
  then have ext: "fs_ext s = ''.json''" and wf: "wf_map (fs_files s)" by (auto simp: fs_inv_def)
  show "fs_inv (fst (k_Put file_store_impl k d s))" using fs_put_inv [OF s] by (simp add: file_store_impl_def)
  show r: "snd (k_Put file_store_impl k d s) = Inr ()" by (simp add: file_store_impl_def fs_Put_def Let_def)
  show "fs_view (fst (k_Put file_store_impl k d s)) = (fs_view s)(k \<mapsto> d)"
    using r fs_put_view [OF ext, of WriteDone True True k d] by (simp add: file_store_impl_def)
  show "k_Get file_store_impl k s = (case fs_view s k of None \<Rightarrow> Inl (ErrNotFound k) | Some d \<Rightarrow> Inr d)"
    by (cases "fs_view s k") (simp_all add: file_store_impl_def fs_Get_def fs_view_def)
  show "\<exists>ks. k_List file_store_impl s = Inr ks \<and> distinct ks \<and> set ks = dom (fs_view s)"
    using fs_list_keys [OF s] by (simp add: file_store_impl_def)
  show "fs_inv (fst (k_Delete file_store_impl k s))"
    using s wf by (auto simp: file_store_impl_def fs_Delete_def Let_def set_keys_mdelete intro!: fs_inv_files)
  show "snd (k_Delete file_store_impl k s) = (case fs_view s k of None \<Rightarrow> Inl (ErrNotFound k) | Some d \<Rightarrow> Inr ())"
    by (simp add: file_store_impl_def fs_Delete_def fs_view_def Let_def split: option.split)
  show "fs_view (fst (k_Delete file_store_impl k s)) = (fs_view s)(k := None)"
    by (auto simp: file_store_impl_def fs_Delete_def fs_view_def keyPath_def Let_def fun_eq_iff)
qed

end
