(* ===== verification/Hotswap_Hub.thy ===== *)
theory Hotswap_Hub
  imports Cortex_History
begin

text \<open>
  The relay between the shell and the backend (\<^verbatim>\<open>hotswap/hub.go\<close>,
  \<^verbatim>\<open>hotswap/protocol.go\<close>, the backend exchange of \<^verbatim>\<open>hotswap/swap.go\<close>).
  The hub keeps the current connection of either side and queues what it cannot deliver. Every
  connection has a relay goroutine; what the mutex does not make atomic is a separate step of
  the relay: checking the context, receiving, reading the other side's connection, sending,
  and queueing.

  A connection is a number. A send over a connection succeeds unless the hub closed it or its
  peer is gone; the record lists both, with the messages every connection accepted in order,
  and, as a ghost of the theorems, what was received and what a best-effort send dropped.
\<close>

record shell_msg =
  sm_type :: string
  sm_text :: string
  sm_toolCallID :: string
  sm_approved :: bool
  sm_cmdName :: string
  sm_cmdArgs :: "string list"

record token_usage =
  u_inputTokens :: int
  u_outputTokens :: int

record backend_msg =
  bm_type :: string
  bm_text :: string
  bm_toolCall :: "tool_call option"
  bm_toolName :: string
  bm_toolOutput :: string
  bm_isError :: bool
  bm_usage :: "token_usage option"
  bm_error :: string
  bm_model :: string
  bm_historyLen :: int
  bm_version :: int

text \<open>Where a relay goroutine is: \<open>Aimed\<close> has read a connection, \<open>Unsent\<close> must queue.\<close>

datatype 'm relay_pc = AtLoop | InRecv | Holding 'm | Aimed 'm nat | Unsent 'm | Stopped

record hub =
  h_shell :: "nat option"
  h_backend :: "nat option"
  h_shellQ :: "backend_msg list"
  h_backendQ :: "shell_msg list"
  h_shellRelay :: "nat option"
  h_backendRelay :: "nat option"
  w_canceled :: "nat list"
  w_closed :: "nat list"
  w_gone :: "nat list"
  w_fromShellPc :: "(nat, shell_msg relay_pc) gomap"
  w_fromBackendPc :: "(nat, backend_msg relay_pc) gomap"
  w_toShell :: "(nat \<times> backend_msg) list"
  w_toBackend :: "(nat \<times> shell_msg) list"
  g_fromShell :: "shell_msg list"
  g_fromBackend :: "backend_msg list"
  g_droppedToShell :: "backend_msg list"
  g_droppedToBackend :: "shell_msg list"

definition NewHub :: hub where
  "NewHub = \<lparr>h_shell = None, h_backend = None, h_shellQ = [], h_backendQ = [], h_shellRelay = None,
     h_backendRelay = None, w_canceled = [], w_closed = [], w_gone = [], w_fromShellPc = [], w_fromBackendPc = [],
     w_toShell = [], w_toBackend = [], g_fromShell = [], g_fromBackend = [], g_droppedToShell = [], g_droppedToBackend = []\<rparr>"

definition conn_ok :: "hub \<Rightarrow> nat \<Rightarrow> bool" where
  "conn_ok h t = (t \<notin> set (w_closed h) \<and> t \<notin> set (w_gone h))"

definition close_conn :: "nat \<Rightarrow> hub \<Rightarrow> hub" where
  "close_conn t h = (if t \<in> set (w_closed h) then h else h\<lparr>w_closed := t # w_closed h\<rparr>)"

definition cancel_ctx :: "nat option \<Rightarrow> hub \<Rightarrow> hub" where
  "cancel_ctx c h = (case c of None \<Rightarrow> h | Some t \<Rightarrow> h\<lparr>w_canceled := t # w_canceled h\<rparr>)"

definition SendToShell :: "nat \<Rightarrow> backend_msg \<Rightarrow> hub \<Rightarrow> hub \<times> bool" where
  "SendToShell t m h = (if conn_ok h t then (h\<lparr>w_toShell := w_toShell h @ [(t, m)]\<rparr>, True) else (h, False))"

definition SendToBackend :: "nat \<Rightarrow> shell_msg \<Rightarrow> hub \<Rightarrow> hub \<times> bool" where
  "SendToBackend t m h = (if conn_ok h t then (h\<lparr>w_toBackend := w_toBackend h @ [(t, m)]\<rparr>, True) else (h, False))"

text \<open>The best-effort sends of a registration, which ignore the error.\<close>

definition drainToShell :: "nat \<Rightarrow> hub \<Rightarrow> backend_msg \<Rightarrow> hub" where
  "drainToShell t h m =
     (case SendToShell t m h of (h', ok) \<Rightarrow>
        if ok then h' else h'\<lparr>g_droppedToShell := g_droppedToShell h' @ [m]\<rparr>)"

definition drainToBackend :: "nat \<Rightarrow> hub \<Rightarrow> shell_msg \<Rightarrow> hub" where
  "drainToBackend t h m =
     (case SendToBackend t m h of (h', ok) \<Rightarrow>
        if ok then h' else h'\<lparr>g_droppedToBackend := g_droppedToBackend h' @ [m]\<rparr>)"

definition registerShell :: "nat \<Rightarrow> hub \<Rightarrow> hub" where
  "registerShell t h =
     (let h1 = cancel_ctx (h_shellRelay h) h;
          h2 = (case h_shell h1 of None \<Rightarrow> h1 | Some old \<Rightarrow> close_conn old h1);
          h3 = h2\<lparr>h_shell := Some t\<rparr>;
          h4 = foldl (drainToShell t) h3 (h_shellQ h3);
          h5 = h4\<lparr>h_shellQ := []\<rparr>
      in h5\<lparr>h_shellRelay := Some t, w_fromShellPc := mset_at (w_fromShellPc h5) t AtLoop\<rparr>)"

definition registerBackend :: "nat \<Rightarrow> hub \<Rightarrow> hub" where
  "registerBackend t h =
     (let h1 = cancel_ctx (h_backendRelay h) h;
          h2 = (case h_backend h1 of None \<Rightarrow> h1 | Some old \<Rightarrow> close_conn old h1);
          h3 = h2\<lparr>h_backend := Some t\<rparr>;
          h4 = foldl (drainToBackend t) h3 (h_backendQ h3);
          h5 = h4\<lparr>h_backendQ := []\<rparr>
      in h5\<lparr>h_backendRelay := Some t, w_fromBackendPc := mset_at (w_fromBackendPc h5) t AtLoop\<rparr>)"

text \<open>
  A connection that \<^verbatim>\<open>Run\<close> accepted: \<open>None\<close> stands for a registration that cannot be
  decoded.
\<close>

definition readRegistration :: "string option \<Rightarrow> string option" where
  "readRegistration reg =
     (case reg of None \<Rightarrow> None
      | Some role \<Rightarrow> if role \<noteq> ''shell'' \<and> role \<noteq> ''backend'' then None else Some role)"

definition accept_conn :: "nat \<Rightarrow> string option \<Rightarrow> hub \<Rightarrow> hub" where
  "accept_conn t reg h =
     (case readRegistration reg of
        None \<Rightarrow> close_conn t h
      | Some role \<Rightarrow>
          if role = ''shell'' then registerShell t h
          else if role = ''backend'' then registerBackend t h
          else close_conn t h)"

subsection \<open>The relays\<close>

text \<open>
  One step of the relay of a connection, with what a receive returns: a message, or \<open>None\<close>
  for an error. A relay that has returned takes no step.
\<close>

definition relayShellToBackend :: "nat \<Rightarrow> shell_msg option \<Rightarrow> hub \<Rightarrow> hub option" where
  "relayShellToBackend t input h =
     (let goto = (\<lambda>pc h. h\<lparr>w_fromShellPc := mset_at (w_fromShellPc h) t pc\<rparr>)
      in case map_of (w_fromShellPc h) t of
           None \<Rightarrow> None
         | Some Stopped \<Rightarrow> None
         | Some AtLoop \<Rightarrow> Some (if t \<in> set (w_canceled h) then goto Stopped h else goto InRecv h)
         | Some InRecv \<Rightarrow>
             (case input of
                Some m \<Rightarrow> Some (goto (Holding m) (h\<lparr>g_fromShell := g_fromShell h @ [m]\<rparr>))
              | None \<Rightarrow>
                  Some (goto Stopped (if h_shell h = Some t then h\<lparr>h_shell := None\<rparr> else h)))
         | Some (Holding m) \<Rightarrow>
             Some (case h_backend h of Some b \<Rightarrow> goto (Aimed m b) h | None \<Rightarrow> goto (Unsent m) h)
         | Some (Aimed m b) \<Rightarrow>
             (case SendToBackend b m h of (h', ok) \<Rightarrow> Some (if ok then goto AtLoop h' else goto (Unsent m) h'))
         | Some (Unsent m) \<Rightarrow> Some (goto AtLoop (h\<lparr>h_backendQ := h_backendQ h @ [m]\<rparr>)))"

definition relayBackendToShell :: "nat \<Rightarrow> backend_msg option \<Rightarrow> hub \<Rightarrow> hub option" where
  "relayBackendToShell t input h =
     (let goto = (\<lambda>pc h. h\<lparr>w_fromBackendPc := mset_at (w_fromBackendPc h) t pc\<rparr>)
      in case map_of (w_fromBackendPc h) t of
           None \<Rightarrow> None
         | Some Stopped \<Rightarrow> None
         | Some AtLoop \<Rightarrow> Some (if t \<in> set (w_canceled h) then goto Stopped h else goto InRecv h)
         | Some InRecv \<Rightarrow>
             (case input of
                Some m \<Rightarrow> Some (goto (Holding m) (h\<lparr>g_fromBackend := g_fromBackend h @ [m]\<rparr>))
              | None \<Rightarrow>
                  Some (goto Stopped (if h_backend h = Some t then h\<lparr>h_backend := None\<rparr> else h)))
         | Some (Holding m) \<Rightarrow>
             Some (case h_shell h of Some s \<Rightarrow> goto (Aimed m s) h | None \<Rightarrow> goto (Unsent m) h)
         | Some (Aimed m s) \<Rightarrow>
             (case SendToShell s m h of (h', ok) \<Rightarrow> Some (if ok then goto AtLoop h' else goto (Unsent m) h'))
         | Some (Unsent m) \<Rightarrow> Some (goto AtLoop (h\<lparr>h_shellQ := h_shellQ h @ [m]\<rparr>)))"

text \<open>The part of \<^verbatim>\<open>SwapBackend\<close> under the hub's mutex.\<close>

definition SwapBackend :: "hub \<Rightarrow> hub" where
  "SwapBackend h =
     (let h1 = (case h_backend h of None \<Rightarrow> h | Some b \<Rightarrow> (close_conn b h)\<lparr>h_backend := None\<rparr>)
      in (case h_backendRelay h1 of None \<Rightarrow> h1 | Some c \<Rightarrow> (cancel_ctx (Some c) h1)\<lparr>h_backendRelay := None\<rparr>))"

definition hub_close :: "hub \<Rightarrow> hub" where
  "hub_close h =
     (let h1 = cancel_ctx (h_shellRelay h) h;
          h2 = cancel_ctx (h_backendRelay h1) h1;
          h3 = (case h_shell h2 of None \<Rightarrow> h2 | Some s \<Rightarrow> close_conn s h2)
      in (case h_backend h3 of None \<Rightarrow> h3 | Some b \<Rightarrow> close_conn b h3))"

subsection \<open>Runs\<close>

datatype hub_event =
  Accept nat "string option"
| ShellRelay nat "shell_msg option"
| BackendRelay nat "backend_msg option"
| PeerGone nat
| Swap
| CloseHub

text \<open>A connection is accepted once.\<close>

definition fresh_conn :: "hub \<Rightarrow> nat \<Rightarrow> bool" where
  "fresh_conn h t = (t \<notin> set (keys (w_fromShellPc h)) \<and> t \<notin> set (keys (w_fromBackendPc h)) \<and> t \<notin> set (w_closed h))"

fun hub_step :: "hub_event \<Rightarrow> hub \<Rightarrow> hub option" where
  "hub_step (Accept t reg) h = (if fresh_conn h t then Some (accept_conn t reg h) else None)"
| "hub_step (ShellRelay t input) h = relayShellToBackend t input h"
| "hub_step (BackendRelay t input) h = relayBackendToShell t input h"
| "hub_step (PeerGone t) h = Some (h\<lparr>w_gone := t # w_gone h\<rparr>)"
| "hub_step Swap h = Some (SwapBackend h)"
| "hub_step CloseHub h = Some (hub_close h)"

fun hub_run :: "hub_event list \<Rightarrow> hub \<Rightarrow> hub option" where
  "hub_run [] h = Some h"
| "hub_run (e # es) h = Option.bind (hub_step e h) (hub_run es)"

subsection \<open>Nothing vanishes: the account of the messages\<close>

fun held :: "'m relay_pc \<Rightarrow> 'm list" where
  "held (Holding m) = [m]"
| "held (Aimed m t) = [m]"
| "held (Unsent m) = [m]"
| "held _ = []"

definition in_flight :: "(nat, 'm relay_pc) gomap \<Rightarrow> 'm multiset" where
  "in_flight pcs = gather held pcs"

definition account_ok :: "hub \<Rightarrow> bool" where
  "account_ok h =
     (mset (g_fromShell h) = mset (map snd (w_toBackend h)) + mset (h_backendQ h) +
        in_flight (w_fromShellPc h) + mset (g_droppedToBackend h) \<and>
      mset (g_fromBackend h) = mset (map snd (w_toShell h)) + mset (h_shellQ h) +
        in_flight (w_fromBackendPc h) + mset (g_droppedToShell h))"

lemma in_flight_new: "map_of m k = None \<Longrightarrow> held v = [] \<Longrightarrow> in_flight (mset_at m k v) = in_flight m"
  by (simp add: in_flight_def gather_new)

lemma in_flight_idle:
  "map_of m k = Some w \<Longrightarrow> held w = [] \<Longrightarrow> in_flight (mset_at m k v) = in_flight m + mset (held v)"
  unfolding in_flight_def by (rule gather_idle)

lemma in_flight_busy:
  "map_of m k = Some w \<Longrightarrow> held w = [x] \<Longrightarrow> in_flight m + mset (held v) = add_mset x (in_flight (mset_at m k v))"
  unfolding in_flight_def by (rule gather_busy)

lemma close_conn_fields [simp]:
  "h_shellQ (close_conn t h) = h_shellQ h" "h_backendQ (close_conn t h) = h_backendQ h"
  "h_shell (close_conn t h) = h_shell h" "h_backend (close_conn t h) = h_backend h"
  "h_shellRelay (close_conn t h) = h_shellRelay h" "h_backendRelay (close_conn t h) = h_backendRelay h"
  "w_fromShellPc (close_conn t h) = w_fromShellPc h" "w_fromBackendPc (close_conn t h) = w_fromBackendPc h"
  "w_toShell (close_conn t h) = w_toShell h" "w_toBackend (close_conn t h) = w_toBackend h"
  "g_fromShell (close_conn t h) = g_fromShell h" "g_fromBackend (close_conn t h) = g_fromBackend h"
  "g_droppedToShell (close_conn t h) = g_droppedToShell h" "g_droppedToBackend (close_conn t h) = g_droppedToBackend h"
  "w_gone (close_conn t h) = w_gone h" "w_canceled (close_conn t h) = w_canceled h"
  "set (w_closed (close_conn t h)) = insert t (set (w_closed h))"
  by (auto simp: close_conn_def)

lemma cancel_ctx_fields [simp]:
  "h_shellQ (cancel_ctx c h) = h_shellQ h" "h_backendQ (cancel_ctx c h) = h_backendQ h"
  "h_shell (cancel_ctx c h) = h_shell h" "h_backend (cancel_ctx c h) = h_backend h"
  "h_shellRelay (cancel_ctx c h) = h_shellRelay h" "h_backendRelay (cancel_ctx c h) = h_backendRelay h"
  "w_fromShellPc (cancel_ctx c h) = w_fromShellPc h" "w_fromBackendPc (cancel_ctx c h) = w_fromBackendPc h"
  "w_toShell (cancel_ctx c h) = w_toShell h" "w_toBackend (cancel_ctx c h) = w_toBackend h"
  "g_fromShell (cancel_ctx c h) = g_fromShell h" "g_fromBackend (cancel_ctx c h) = g_fromBackend h"
  "g_droppedToShell (cancel_ctx c h) = g_droppedToShell h" "g_droppedToBackend (cancel_ctx c h) = g_droppedToBackend h"
  "w_gone (cancel_ctx c h) = w_gone h" "w_closed (cancel_ctx c h) = w_closed h"
  by (auto simp: cancel_ctx_def split: option.split)

text \<open>A drain of a queue: all of it over a good connection, none of it over a bad one.\<close>

lemma drainToBackend_all:
  "foldl (drainToBackend t) h q =
     (if conn_ok h t then h\<lparr>w_toBackend := w_toBackend h @ map (Pair t) q\<rparr>
      else h\<lparr>g_droppedToBackend := g_droppedToBackend h @ q\<rparr>)"
  by (induction q arbitrary: h) (simp_all add: drainToBackend_def SendToBackend_def conn_ok_def)

lemma drainToShell_all:
  "foldl (drainToShell t) h q =
     (if conn_ok h t then h\<lparr>w_toShell := w_toShell h @ map (Pair t) q\<rparr>
      else h\<lparr>g_droppedToShell := g_droppedToShell h @ q\<rparr>)"
  by (induction q arbitrary: h) (simp_all add: drainToShell_def SendToShell_def conn_ok_def)

lemma map_snd_Pair [simp]: "map (snd \<circ> Pair t) q = q" "image_mset snd (image_mset (Pair t) M) = M"
  by (simp_all add: comp_def multiset.map_comp)

lemma account_shell:
  assumes "account_ok h" "map_of (w_fromShellPc h) t = None" shows "account_ok (registerShell t h)"
  using assms
  by (auto simp: account_ok_def registerShell_def Let_def drainToShell_all in_flight_new ac_simps split: option.split)

lemma account_backend:
  assumes "account_ok h" "map_of (w_fromBackendPc h) t = None" shows "account_ok (registerBackend t h)"
  using assms
  by (auto simp: account_ok_def registerBackend_def Let_def drainToBackend_all in_flight_new ac_simps split: option.split)

lemma account_shell_relay:
  assumes h: "account_ok h" and s: "relayShellToBackend t input h = Some h'"
  shows "account_ok h'"
proof (cases "map_of (w_fromShellPc h) t")
  case (Some pc)
  note idle = in_flight_idle [OF Some] and busy = in_flight_busy [OF Some]
  show ?thesis
  proof (cases pc)
    case (Holding m)
    show ?thesis using h s busy [of m "Unsent m"] busy [of m "Aimed m b" for b]
      by (auto simp: relayShellToBackend_def Some Holding account_ok_def Let_def split: option.splits)
  next
    case (Aimed m b)
    show ?thesis using h s busy [of m "Unsent m"] busy [of m AtLoop]
      by (auto simp: relayShellToBackend_def Some Aimed account_ok_def Let_def SendToBackend_def split: if_splits)
  next
    case (Unsent m)
    show ?thesis using h s busy [of m AtLoop]
      by (auto simp: relayShellToBackend_def Some Unsent account_ok_def Let_def)
  qed (use h s idle in \<open>auto simp: relayShellToBackend_def Some account_ok_def Let_def split: option.splits if_splits\<close>)
qed (use s in \<open>simp add: relayShellToBackend_def\<close>)

lemma account_backend_relay:
  assumes h: "account_ok h" and s: "relayBackendToShell t input h = Some h'"
  shows "account_ok h'"
proof (cases "map_of (w_fromBackendPc h) t")
  case (Some pc)
  note idle = in_flight_idle [OF Some] and busy = in_flight_busy [OF Some]
  show ?thesis
  proof (cases pc)
    case (Holding m)
    show ?thesis using h s busy [of m "Unsent m"] busy [of m "Aimed m b" for b]
      by (auto simp: relayBackendToShell_def Some Holding account_ok_def Let_def split: option.splits)
  next
    case (Aimed m b)
    show ?thesis using h s busy [of m "Unsent m"] busy [of m AtLoop]
      by (auto simp: relayBackendToShell_def Some Aimed account_ok_def Let_def SendToShell_def split: if_splits)
  next
    case (Unsent m)
    show ?thesis using h s busy [of m AtLoop]
      by (auto simp: relayBackendToShell_def Some Unsent account_ok_def Let_def)
  qed (use h s idle in \<open>auto simp: relayBackendToShell_def Some account_ok_def Let_def split: option.splits if_splits\<close>)
qed (use s in \<open>simp add: relayBackendToShell_def\<close>)

lemma account_swap: "account_ok h \<Longrightarrow> account_ok (SwapBackend h)"
  by (auto simp: account_ok_def SwapBackend_def Let_def split: option.split)

lemma account_close: "account_ok h \<Longrightarrow> account_ok (hub_close h)"
  by (auto simp: account_ok_def hub_close_def Let_def split: option.split)

lemma account_accept: "account_ok h \<Longrightarrow> fresh_conn h t \<Longrightarrow> account_ok (accept_conn t reg h)"
  using account_shell [of h t] account_backend [of h t]
  by (auto simp: accept_conn_def readRegistration_def fresh_conn_def map_of_eq_None_keys
    account_ok_def [of "close_conn t h"] account_ok_def [of h] split: option.split)

lemma account_gone: "account_ok h \<Longrightarrow> account_ok (h\<lparr>w_gone := ts\<rparr>)"
  by (simp add: account_ok_def)

lemma account_step: "account_ok h \<Longrightarrow> hub_step e h = Some h' \<Longrightarrow> account_ok h'"
  by (cases e) (auto intro: account_accept account_shell_relay account_backend_relay account_swap account_close
    account_gone split: if_splits)

lemma account_new: "account_ok NewHub"
  by (simp add: account_ok_def NewHub_def in_flight_def gather_def)

lemma account_run: "account_ok h \<Longrightarrow> hub_run es h = Some h' \<Longrightarrow> account_ok h'"
  by (induction es arbitrary: h) (auto simp: bind_eq_Some_conv intro: account_step)

end
