(* ===== verification/Hotswap_Order.thy ===== *)
theory Hotswap_Order
  imports Hotswap_Hub
begin

text \<open>
  The order in which the hub delivers: relays that forward a message without another
  event in between deliver everything in the order received, and a connected side has nothing
  left in its queue. The program's relays do release the mutex between reading the other side's
  connection and queueing.
\<close>

text \<open>The relay of a connection, from the top of its loop until it is there again or has returned.\<close>

definition shell_paused :: "nat \<Rightarrow> hub \<Rightarrow> bool" where
  "shell_paused t h = (case map_of (w_fromShellPc h) t of Some AtLoop \<Rightarrow> True | Some Stopped \<Rightarrow> True | _ \<Rightarrow> False)"

definition backend_paused :: "nat \<Rightarrow> hub \<Rightarrow> bool" where
  "backend_paused t h = (case map_of (w_fromBackendPc h) t of Some AtLoop \<Rightarrow> True | Some Stopped \<Rightarrow> True | _ \<Rightarrow> False)"

fun drive_shell :: "nat \<Rightarrow> nat \<Rightarrow> shell_msg option \<Rightarrow> hub \<Rightarrow> hub option" where
  "drive_shell 0 t input h = None"
| "drive_shell (Suc fuel) t input h =
     Option.bind (relayShellToBackend t input h)
       (\<lambda>h'. if shell_paused t h' then Some h' else drive_shell fuel t input h')"

fun drive_backend :: "nat \<Rightarrow> nat \<Rightarrow> backend_msg option \<Rightarrow> hub \<Rightarrow> hub option" where
  "drive_backend 0 t input h = None"
| "drive_backend (Suc fuel) t input h =
     Option.bind (relayBackendToShell t input h)
       (\<lambda>h'. if backend_paused t h' then Some h' else drive_backend fuel t input h')"

text \<open>Events of which none interrupts a relay; a new connection has a peer.\<close>

fun whole_step :: "hub_event \<Rightarrow> hub \<Rightarrow> hub option" where
  "whole_step (ShellRelay t input) h = drive_shell 5 t input h"
| "whole_step (BackendRelay t input) h = drive_backend 5 t input h"
| "whole_step (Accept t reg) h = (if t \<in> set (w_gone h) then None else hub_step (Accept t reg) h)"
| "whole_step e h = hub_step e h"

fun whole_run :: "hub_event list \<Rightarrow> hub \<Rightarrow> hub option" where
  "whole_run [] h = Some h"
| "whole_run (e # es) h = Option.bind (whole_step e h) (whole_run es)"

definition idle_relay :: "'m relay_pc \<Rightarrow> bool" where
  "idle_relay pc = (case pc of AtLoop \<Rightarrow> True | Stopped \<Rightarrow> True | _ \<Rightarrow> False)"

definition fifo_ok :: "hub \<Rightarrow> bool" where
  "fifo_ok h =
     ((\<forall>t pc. map_of (w_fromShellPc h) t = Some pc \<longrightarrow> idle_relay pc) \<and>
      (\<forall>t pc. map_of (w_fromBackendPc h) t = Some pc \<longrightarrow> idle_relay pc) \<and>
      (\<forall>t. h_shell h = Some t \<longrightarrow> map_of (w_fromShellPc h) t \<noteq> None) \<and>
      (\<forall>t. h_backend h = Some t \<longrightarrow> map_of (w_fromBackendPc h) t \<noteq> None) \<and>
      map snd (w_toBackend h) @ h_backendQ h = g_fromShell h \<and>
      map snd (w_toShell h) @ h_shellQ h = g_fromBackend h \<and>
      (\<forall>t. h_backend h = Some t \<longrightarrow> conn_ok h t \<longrightarrow> h_backendQ h = []) \<and>
      (\<forall>t. h_shell h = Some t \<longrightarrow> conn_ok h t \<longrightarrow> h_shellQ h = []))"

lemma idle_relay_simps [simp]: "idle_relay AtLoop" "idle_relay Stopped"
  by (simp_all add: idle_relay_def)

subsection \<open>A whole turn of a relay\<close>

lemma mset_at_twice [simp]: "mset_at (mset_at m k a) k b = mset_at m k b"
  by (induction m) auto

lemma drive_shell_result:
  assumes "map_of (w_fromShellPc h) t = Some AtLoop"
  shows "drive_shell 5 t input h =
    (if t \<in> set (w_canceled h) then Some (h\<lparr>w_fromShellPc := mset_at (w_fromShellPc h) t Stopped\<rparr>)
     else case input of
       None \<Rightarrow> Some (h\<lparr>h_shell := (if h_shell h = Some t then None else h_shell h),
                       w_fromShellPc := mset_at (w_fromShellPc h) t Stopped\<rparr>)
     | Some m \<Rightarrow>
         (case h_backend h of
            Some b \<Rightarrow> if conn_ok h b
              then Some (h\<lparr>w_toBackend := w_toBackend h @ [(b, m)], g_fromShell := g_fromShell h @ [m],
                     w_fromShellPc := mset_at (w_fromShellPc h) t AtLoop\<rparr>)
              else Some (h\<lparr>h_backendQ := h_backendQ h @ [m], g_fromShell := g_fromShell h @ [m],
                     w_fromShellPc := mset_at (w_fromShellPc h) t AtLoop\<rparr>)
          | None \<Rightarrow> Some (h\<lparr>h_backendQ := h_backendQ h @ [m], g_fromShell := g_fromShell h @ [m],
                     w_fromShellPc := mset_at (w_fromShellPc h) t AtLoop\<rparr>)))"
  using assms
  by (simp add: eval_nat_numeral relayShellToBackend_def Let_def shell_paused_def SendToBackend_def conn_ok_def
    split: option.split)

lemma drive_backend_result:
  assumes "map_of (w_fromBackendPc h) t = Some AtLoop"
  shows "drive_backend 5 t input h =
    (if t \<in> set (w_canceled h) then Some (h\<lparr>w_fromBackendPc := mset_at (w_fromBackendPc h) t Stopped\<rparr>)
     else case input of
       None \<Rightarrow> Some (h\<lparr>h_backend := (if h_backend h = Some t then None else h_backend h),
                       w_fromBackendPc := mset_at (w_fromBackendPc h) t Stopped\<rparr>)
     | Some m \<Rightarrow>
         (case h_shell h of
            Some s \<Rightarrow> if conn_ok h s
              then Some (h\<lparr>w_toShell := w_toShell h @ [(s, m)], g_fromBackend := g_fromBackend h @ [m],
                     w_fromBackendPc := mset_at (w_fromBackendPc h) t AtLoop\<rparr>)
              else Some (h\<lparr>h_shellQ := h_shellQ h @ [m], g_fromBackend := g_fromBackend h @ [m],
                     w_fromBackendPc := mset_at (w_fromBackendPc h) t AtLoop\<rparr>)
          | None \<Rightarrow> Some (h\<lparr>h_shellQ := h_shellQ h @ [m], g_fromBackend := g_fromBackend h @ [m],
                     w_fromBackendPc := mset_at (w_fromBackendPc h) t AtLoop\<rparr>)))"
  using assms
  by (simp add: eval_nat_numeral relayBackendToShell_def Let_def backend_paused_def SendToShell_def conn_ok_def
    split: option.split)

lemma drive_stopped:
  "map_of (w_fromShellPc h) t = Some Stopped \<Longrightarrow> drive_shell 5 t input h = None"
  "map_of (w_fromShellPc h) t = None \<Longrightarrow> drive_shell 5 t input h = None"
  "map_of (w_fromBackendPc h) t = Some Stopped \<Longrightarrow> drive_backend 5 t input2 h = None"
  "map_of (w_fromBackendPc h) t = None \<Longrightarrow> drive_backend 5 t input2 h = None"
  by (simp_all add: eval_nat_numeral relayShellToBackend_def relayBackendToShell_def)

lemma fifo_drive_shell:
  assumes h: "fifo_ok h" and d: "drive_shell 5 t input h = Some h'"
  shows "fifo_ok h'"
proof (cases "map_of (w_fromShellPc h) t")
  case (Some pc)
  with h have "idle_relay pc" unfolding fifo_ok_def by blast
  then have "pc = AtLoop \<or> pc = Stopped" by (simp add: idle_relay_def split: relay_pc.splits)
  with Some d have l: "map_of (w_fromShellPc h) t = Some AtLoop" by (auto simp: drive_stopped)
  show ?thesis using d h
    by (auto simp: drive_shell_result [OF l] fifo_ok_def conn_ok_def simp flip: append_assoc
      split: if_splits option.splits)
qed (use d in \<open>simp add: drive_stopped\<close>)

lemma fifo_drive_backend:
  assumes h: "fifo_ok h" and d: "drive_backend 5 t input h = Some h'"
  shows "fifo_ok h'"
proof (cases "map_of (w_fromBackendPc h) t")
  case (Some pc)
  with h have "idle_relay pc" unfolding fifo_ok_def by blast
  then have "pc = AtLoop \<or> pc = Stopped" by (simp add: idle_relay_def split: relay_pc.splits)
  with Some d have l: "map_of (w_fromBackendPc h) t = Some AtLoop" by (auto simp: drive_stopped)
  show ?thesis using d h
    by (auto simp: drive_backend_result [OF l] fifo_ok_def conn_ok_def simp flip: append_assoc
      split: if_splits option.splits)
qed (use d in \<open>simp add: drive_stopped\<close>)

lemma fifo_registerShell:
  assumes h: "fifo_ok h" and t: "fresh_conn h t" "t \<notin> set (w_gone h)"
  shows "fifo_ok (registerShell t h)"
proof -
  have ne: "h_shell h \<noteq> Some t" using h t by (auto simp: fifo_ok_def fresh_conn_def map_of_eq_None_keys)
  have t: "t \<notin> set (w_closed h)" "t \<notin> set (w_gone h)" using t by (simp_all add: fresh_conn_def)
  show ?thesis
  proof (cases "h_shell h")
    case None
    then show ?thesis using h t by (auto simp: registerShell_def Let_def drainToShell_all fifo_ok_def conn_ok_def)
  next
    case (Some old)
    then show ?thesis using h t ne by (auto simp: registerShell_def Let_def drainToShell_all fifo_ok_def conn_ok_def)
  qed
qed

lemma fifo_registerBackend:
  assumes h: "fifo_ok h" and t: "fresh_conn h t" "t \<notin> set (w_gone h)"
  shows "fifo_ok (registerBackend t h)"
proof -
  have ne: "h_backend h \<noteq> Some t" using h t by (auto simp: fifo_ok_def fresh_conn_def map_of_eq_None_keys)
  have t: "t \<notin> set (w_closed h)" "t \<notin> set (w_gone h)" using t by (simp_all add: fresh_conn_def)
  show ?thesis
  proof (cases "h_backend h")
    case None
    then show ?thesis using h t by (auto simp: registerBackend_def Let_def drainToBackend_all fifo_ok_def conn_ok_def)
  next
    case (Some old)
    then show ?thesis using h t ne by (auto simp: registerBackend_def Let_def drainToBackend_all fifo_ok_def conn_ok_def)
  qed
qed

lemma fifo_close_conn: "fifo_ok h \<Longrightarrow> fifo_ok (close_conn t h)"
  by (auto simp: fifo_ok_def conn_ok_def)

lemma fifo_cancel: "fifo_ok h \<Longrightarrow> fifo_ok (cancel_ctx c h)"
  by (auto simp: fifo_ok_def conn_ok_def)

lemma fifo_accept:
  "fifo_ok h \<Longrightarrow> fresh_conn h t \<Longrightarrow> t \<notin> set (w_gone h) \<Longrightarrow> fifo_ok (accept_conn t reg h)"
  by (auto simp: accept_conn_def readRegistration_def intro: fifo_registerShell fifo_registerBackend fifo_close_conn
    split: option.split)

lemma fifo_no_backend:
  assumes "fifo_ok h" shows "fifo_ok (h\<lparr>h_backend := None\<rparr>)" "fifo_ok (h\<lparr>h_backendRelay := c\<rparr>)"
    "fifo_ok (h\<lparr>w_gone := x # w_gone h\<rparr>)"
  using assms by (auto simp: fifo_ok_def conn_ok_def)

lemma fifo_step:
  assumes "fifo_ok h" "whole_step e h = Some h'" shows "fifo_ok h'"
proof (cases e)
  case (Accept t reg)
  then show ?thesis using assms fifo_accept by (auto split: if_splits)
next
  case Swap
  then show ?thesis using assms
    by (auto simp: SwapBackend_def Let_def intro!: fifo_no_backend fifo_close_conn fifo_cancel split: option.split)
next
  case CloseHub
  then show ?thesis using assms
    by (auto simp: hub_close_def Let_def intro!: fifo_close_conn fifo_cancel split: option.split)
qed (use assms in \<open>auto intro: fifo_drive_shell fifo_drive_backend fifo_no_backend\<close>)

lemma fifo_run: "fifo_ok h \<Longrightarrow> whole_run es h = Some h' \<Longrightarrow> fifo_ok h'"
  by (induction es arbitrary: h) (auto simp: bind_eq_Some_conv intro: fifo_step)

lemma fifo_new: "fifo_ok NewHub"
  by (simp add: fifo_ok_def NewHub_def)

subsection \<open>The race of a relay with a registration\<close>

text \<open>
  The shell's message arrives while no backend is connected; the backend connects after the
  relay has looked and before it queues.
\<close>

definition prompt_msg :: "string \<Rightarrow> shell_msg" where
  "prompt_msg txt = \<lparr>sm_type = ''prompt'', sm_text = txt, sm_toolCallID = [], sm_approved = False, sm_cmdName = [], sm_cmdArgs = []\<rparr>"

definition race_events :: "shell_msg \<Rightarrow> hub_event list" where
  "race_events m = [Accept 1 (Some ''shell''), ShellRelay 1 None, ShellRelay 1 (Some m), ShellRelay 1 None,
     Accept 2 (Some ''backend''), ShellRelay 1 None]"

fun registers_backend :: "hub_event \<Rightarrow> bool" where
  "registers_backend (Accept t reg) = (reg = Some ''backend'')"
| "registers_backend _ = False"

lemma queue_kept_step:
  assumes s: "hub_step e h = Some h'" and e: "\<not> registers_backend e"
  shows "prefix (h_backendQ h) (h_backendQ h')"
proof (cases e)
  case (Accept t reg)
  then show ?thesis using s e
    by (auto simp: accept_conn_def readRegistration_def registerShell_def Let_def drainToShell_all
      split: option.splits if_splits)
next
  case (ShellRelay t input)
  then show ?thesis using s
    by (auto simp: relayShellToBackend_def Let_def SendToBackend_def split: option.splits relay_pc.splits if_splits)
next
  case (BackendRelay t input)
  then show ?thesis using s
    by (auto simp: relayBackendToShell_def Let_def SendToShell_def split: option.splits relay_pc.splits if_splits)
qed (use s in \<open>auto simp: SwapBackend_def hub_close_def Let_def split: option.splits\<close>)

lemma queue_kept:
  "hub_run es h = Some h' \<Longrightarrow> \<forall>e \<in> set es. \<not> registers_backend e \<Longrightarrow> prefix (h_backendQ h) (h_backendQ h')"
proof (induction es arbitrary: h)
  case (Cons e es)
  then obtain h1 where "hub_step e h = Some h1" "hub_run es h1 = Some h'" by (auto simp: bind_eq_Some_conv)
  then show ?case using Cons queue_kept_step [of e h h1] prefix_order.trans by auto
qed simp

lemma hub_run_append: "hub_run (xs @ ys) h = Option.bind (hub_run xs h) (hub_run ys)"
  by (induction xs arbitrary: h) (auto simp: bind_assoc split: Option.bind_splits)

lemma race_result:
  "\<exists>h. hub_run (race_events m) NewHub = Some h \<and> h_shell h = Some 1 \<and> h_backend h = Some 2 \<and> conn_ok h 2 \<and>
     h_backendQ h = [m] \<and> w_toBackend h = [] \<and> map_of (w_fromShellPc h) 1 = Some AtLoop"
  by (simp add: race_events_def NewHub_def fresh_conn_def accept_conn_def readRegistration_def registerShell_def
    registerBackend_def relayShellToBackend_def Let_def cancel_ctx_def conn_ok_def)

end
