(* ===== verification/Runtime_Properties.thy ===== *)
theory Runtime_Properties
  imports Cache_Layers Key_Store Hotswap_Order
begin

text \<open>
  The properties of the caches, the key-value stores and the relay between the two processes.
\<close>

text \<open>Any sequence of operations on the in-memory cache answers as a map from scopes and keys would, and its counts and listings are those of that map.\<close>

lemma mem_cache_is_map:
  shows "fst (cache_run mem_cache_impl xs NewMemCache) = fst (spec_run forgetting_step xs (\<lambda>_. Map.empty)) \<and>
    (let c = snd (cache_run mem_cache_impl xs NewMemCache); m = snd (spec_run forgetting_step xs (\<lambda>_. Map.empty))
     in (\<forall>s k. mc_Get s k c = m s k) \<and> mc_Len c = card {(s, k). m s k \<noteq> None} \<and>
        set (mc_Scopes c) = {s. m s \<noteq> Map.empty} \<and> distinct (mc_Scopes c) \<and>
        (\<forall>s. set (mc_Keys s c) = dom (m s) \<and> distinct (mc_Keys s c)))"
proof -
  have i: "mc_inv NewMemCache" and e: "mc_look NewMemCache = (\<lambda>_. Map.empty)"
    by (auto simp: mc_inv_def NewMemCache_def mc_look_simp)
  let ?c = "snd (cache_run mem_cache_impl xs NewMemCache)"
  have r: "fst (cache_run mem_cache_impl xs NewMemCache) = fst (spec_run forgetting_step xs (\<lambda>_. Map.empty))"
    "mc_look ?c = snd (spec_run forgetting_step xs (\<lambda>_. Map.empty))"
    using mc.run_forgets [OF i, of xs] by (simp_all add: e)
  have c: "mc_inv ?c" using mc.run_inv [OF i] .
  show ?thesis
    using r(1) mc.len_card [OF c] mc.scopes_dom [OF c] mc.scopes_distinct [OF c] mc.keys_dom [OF c] mc.keys_distinct [OF c]
    by (simp add: Let_def mc_fields mc_look_def flip: r(2))
qed

text \<open>A write-through cache over two empty in-memory caches answers as a map that keeps every entry, evicted or not, and counts and lists exactly these.\<close>

lemma write_through_retains:
  shows "fst (cache_run (write_through_impl mem_cache_impl mem_cache_impl) xs (NewWriteThrough NewMemCache NewMemCache)) =
      fst (spec_run retaining_step xs (\<lambda>_. Map.empty)) \<and>
    (let w = snd (cache_run (write_through_impl mem_cache_impl mem_cache_impl) xs (NewWriteThrough NewMemCache NewMemCache));
         m = snd (spec_run retaining_step xs (\<lambda>_. Map.empty))
     in (\<forall>s k. fst (wt_Get mem_cache_impl mem_cache_impl s k w) = m s k) \<and>
        wt_Len mem_cache_impl w = card {(s, k). m s k \<noteq> None} \<and>
        set (wt_Scopes mem_cache_impl mem_cache_impl w) = {s. m s \<noteq> Map.empty} \<and>
        (\<forall>s. set (wt_Keys mem_cache_impl mem_cache_impl s w) = dom (m s)) \<and>
        (\<forall>s. mc_look (wt_l1 w) s \<subseteq>\<^sub>m mc_look (wt_l2 w) s))"
proof -
  let ?W = "write_through_impl mem_cache_impl mem_cache_impl"
  let ?n = "NewWriteThrough NewMemCache NewMemCache"
  have i: "wt.inclusive ?n" and e: "mc_look (wt_l2 ?n) = (\<lambda>_. Map.empty)"
    by (auto simp: wt.inclusive_def mc_inv_def NewWriteThrough_def NewMemCache_def mc_look_simp)
  let ?w = "snd (cache_run ?W xs ?n)"
  have r: "fst (cache_run ?W xs ?n) = fst (spec_run retaining_step xs (\<lambda>_. Map.empty))"
    "mc_look (wt_l2 ?w) = snd (spec_run retaining_step xs (\<lambda>_. Map.empty))"
    using wt.run_retains [OF i, of xs] by (simp_all add: e)
  have w: "wt.inclusive ?w" using wt.W.run_inv [OF i] .
  show ?thesis
    using r(1) wt.W.len_card [OF w] wt.scopes_inclusive [OF w] wt.keys_inclusive [OF w] wt.get_inclusive(1) [OF w]
      wt.inclusiveD(3) [OF w]
    by (simp add: Let_def write_through_impl_def flip: r(2))
qed

text \<open>Whatever an agent did through its first level, a new agent with an empty first level over the same second level reads the same entries, and reading the keys of a scope restores that scope in its first level.\<close>

lemma cache_recovery:
  fixes xs :: "cache_op list"
  defines "old \<equiv> snd (cache_run (write_through_impl mem_cache_impl mem_cache_impl) xs (NewWriteThrough NewMemCache NewMemCache))"
  defines "new \<equiv> NewWriteThrough NewMemCache (wt_l2 old)"
  shows "(\<forall>s k. fst (wt_Get mem_cache_impl mem_cache_impl s k new) = fst (wt_Get mem_cache_impl mem_cache_impl s k old)) \<and>
    (\<forall>s. let warm = snd (cache_run (write_through_impl mem_cache_impl mem_cache_impl)
                    (map (OpGet s) (mc_Keys s (wt_l2 old))) new)
         in mc_look (wt_l1 warm) s = mc_look (wt_l2 old) s)"
proof -
  have i: "wt.inclusive (NewWriteThrough NewMemCache NewMemCache)"
    by (auto simp: wt.inclusive_def mc_inv_def NewWriteThrough_def NewMemCache_def mc_look_simp)
  have o: "wt.inclusive old" unfolding old_def using wt.W.run_inv [OF i] .
  have n: "wt.inclusive new" "wt_l2 new = wt_l2 old" "mc_look (wt_l1 new) s = Map.empty" for s
    using wt.inclusiveD(2) [OF o]
    by (auto simp: wt.inclusive_def new_def NewWriteThrough_def NewMemCache_def mc_inv_def mc_look_simp)
  have k: "set (mc_Keys s (wt_l2 old)) = dom (mc_look (wt_l2 old) s)" for s
    using mc.keys_dom [OF wt.inclusiveD(2) [OF o]] by (simp add: mc_fields)
  show ?thesis
    using wt.get_inclusive(1) [OF n(1)] wt.get_inclusive(1) [OF o] wt.keys_warm [OF n(1) n(3)] n(2) k
    by (simp add: Let_def)
qed





text \<open>Property C19: in every interleaving of relays, registrations, losses of connections, swaps and shutdown, each message the hub received is delivered, queued, held by a relay, or was dropped by a registration draining its queue to a broken connection; no message is made up or duplicated.\<close>

theorem hub_accounts_for_messages:
  assumes "hub_run es NewHub = Some h"
  shows "mset (g_fromShell h) = mset (map snd (w_toBackend h)) + mset (h_backendQ h) +
      in_flight (w_fromShellPc h) + mset (g_droppedToBackend h) \<and>
    mset (g_fromBackend h) = mset (map snd (w_toShell h)) + mset (h_shellQ h) +
      in_flight (w_fromBackendPc h) + mset (g_droppedToShell h)"
  using account_run [OF account_new assms] unfolding account_ok_def .

lemma hub_accounts_for_messages_witness:
  "\<exists>h. hub_run (race_events (prompt_msg ''hi'')) NewHub = Some h \<and>
     mset (g_fromShell h) = mset (map snd (w_toBackend h)) + mset (h_backendQ h) +
       in_flight (w_fromShellPc h) + mset (g_droppedToBackend h)"
  using race_result [of "prompt_msg ''hi''"] hub_accounts_for_messages [of "race_events (prompt_msg ''hi'')"] by blast



text \<open>A backend that connects after a relay has looked for one and before it queues leaves the message in the queue: the backend is connected and works, later messages overtake the message, and no event but another backend's registration takes it out of the queue.\<close>

lemma hub_race_strands_message:
  "\<exists>h. hub_run (race_events m1 @ [ShellRelay 1 None, ShellRelay 1 (Some m2), ShellRelay 1 None, ShellRelay 1 None]) NewHub = Some h \<and>
     h_backend h = Some 2 \<and> conn_ok h 2 \<and> w_toBackend h = [(2, m2)] \<and> h_backendQ h = [m1] \<and>
     (\<forall>es h'. (\<forall>e \<in> set es. \<not> registers_backend e) \<longrightarrow> hub_run es h = Some h' \<longrightarrow> prefix [m1] (h_backendQ h'))"
proof -
  have "\<exists>h. hub_run (race_events m1 @ [ShellRelay 1 None, ShellRelay 1 (Some m2), ShellRelay 1 None, ShellRelay 1 None]) NewHub = Some h \<and>
     h_backend h = Some 2 \<and> conn_ok h 2 \<and> w_toBackend h = [(2, m2)] \<and> h_backendQ h = [m1]"
    by (simp add: race_events_def NewHub_def fresh_conn_def accept_conn_def readRegistration_def registerShell_def
      registerBackend_def relayShellToBackend_def SendToBackend_def Let_def cancel_ctx_def conn_ok_def)
  then show ?thesis using queue_kept by metis
qed

lemma hub_race_strands_message_witness:
  "\<exists>h h'. h_backendQ h = [prompt_msg ''first''] \<and> hub_run [PeerGone 1, Swap] h = Some h' \<and> prefix [prompt_msg ''first''] (h_backendQ h')"
proof -
  obtain h where h: "h_backendQ h = [prompt_msg ''first'']"
    "\<forall>es h'. (\<forall>e \<in> set es. \<not> registers_backend e) \<longrightarrow> hub_run es h = Some h' \<longrightarrow> prefix [prompt_msg ''first''] (h_backendQ h')"
    using hub_race_strands_message [of "prompt_msg ''first''" "prompt_msg ''second''"] by blast
  have "\<exists>h'. hub_run [PeerGone 1, Swap] h = Some h'" by simp
  with h show ?thesis by (metis (no_types, lifting) registers_backend.simps(4,5) set_ConsD empty_iff list.set(1))
qed

end
