(* ===== verification/Graph_Walk.thy ===== *)
theory Graph_Walk
  imports Djinn_Prelude
begin

text \<open>
  The depth-first walk that the program writes twice, over the dependencies of a review and over
  the composition of roles: a set of nodes seen, and for every new node an action on an accumulator
  before its successors are walked. A node without an entry in the map has no successors.
\<close>

definition succs_of :: "('k, 'v) gomap \<Rightarrow> ('v \<Rightarrow> 'k list) \<Rightarrow> 'k \<Rightarrow> 'k list" where
  "succs_of m nxt n = (case map_of m n of None \<Rightarrow> [] | Some v \<Rightarrow> nxt v)"

text \<open>The calls of the recursive walk on a list of nodes, one after the other.\<close>

function (sequential) walk :: "('k, 'v) gomap \<Rightarrow> ('v \<Rightarrow> 'k list) \<Rightarrow> ('k \<Rightarrow> 's \<Rightarrow> 's) \<Rightarrow> 'k list \<Rightarrow>
    'k list \<times> 's \<Rightarrow> 'k list \<times> 's" where
  "walk m nxt enter [] st = st"
| "walk m nxt enter (n # ns) st =
     (if n \<in> set (fst st) then walk m nxt enter ns st
      else walk m nxt enter ns (walk m nxt enter (succs_of m nxt n) (n # fst st, enter n (snd st))))"
  by pat_completeness auto

lemma walk_seen_mono:
  "walk_dom (m, nxt, enter, ns, st) \<Longrightarrow> set (fst st) \<subseteq> set (fst (walk m nxt enter ns st))"
proof (induction rule: walk.pinduct)
  case (1 m nxt enter st)
  then show ?case by (simp add: walk.psimps)
next
  case (2 m nxt enter n ns st)
  show ?case
  proof (cases "n \<in> set (fst st)")
    case True
    with 2 show ?thesis by (simp add: walk.psimps)
  next
    case False
    let ?st = "walk m nxt enter (succs_of m nxt n) (n # fst st, enter n (snd st))"
    have "set (n # fst st) \<subseteq> set (fst ?st)" using "2.IH"(2) [OF False] by (simp only: fst_conv)
    moreover have "set (fst ?st) \<subseteq> set (fst (walk m nxt enter ns ?st))" using "2.IH"(3) [OF False] .
    moreover have "walk m nxt enter (n # ns) st = walk m nxt enter ns ?st"
      using False by (simp only: walk.psimps(2) [OF "2.hyps"] if_False)
    ultimately show ?thesis by auto
  qed
qed

definition unseen :: "('k, 'v) gomap \<Rightarrow> 'k list \<Rightarrow> nat" where
  "unseen m seen = card (set (keys m) - set seen)"

lemma unseen_mono: "set s \<subseteq> set s' \<Longrightarrow> unseen m s' \<le> unseen m s"
  unfolding unseen_def by (intro card_mono) auto

lemma unseen_enter: "n \<in> set (keys m) \<Longrightarrow> n \<notin> set s \<Longrightarrow> unseen m (n # s) < unseen m s"
  unfolding unseen_def by (rule psubset_card_mono) auto

termination walk
proof (relation "measures [\<lambda>(m, nxt, enter, ns, st). unseen m (fst st), \<lambda>(m, nxt, enter, ns, st). length ns]")
  fix m :: "('k, 'v) gomap" and nxt and enter :: "'k \<Rightarrow> 's \<Rightarrow> 's" and n ns and st :: "'k list \<times> 's"
  assume n: "n \<notin> set (fst st)"
  let ?v = "(n # fst st, enter n (snd st))"
  let ?R = "measures [\<lambda>(m :: ('k, 'v) gomap, nxt :: 'v \<Rightarrow> 'k list, enter :: 'k \<Rightarrow> 's \<Rightarrow> 's, ns :: 'k list, st :: 'k list \<times> 's). unseen m (fst st),
    \<lambda>(m, nxt, enter, ns, st). length ns]"
  show "((m, nxt, enter, succs_of m nxt n, ?v), m, nxt, enter, n # ns, st) \<in> ?R"
  proof (cases "n \<in> set (keys m)")
    case True
    then show ?thesis using unseen_enter [OF True n] by simp
  next
    case False
    then have "succs_of m nxt n = []" using map_of_eq_None_keys [of m n] by (simp add: succs_of_def)
    moreover have "unseen m (n # fst st) \<le> unseen m (fst st)" by (rule unseen_mono) auto
    ultimately show ?thesis by (cases "unseen m (n # fst st) = unseen m (fst st)") simp_all
  qed
  assume d: "walk_dom (m, nxt, enter, succs_of m nxt n, ?v)"
  have "set (fst st) \<subseteq> set (fst (walk m nxt enter (succs_of m nxt n) ?v))"
    using walk_seen_mono [OF d] by auto
  then show "((m, nxt, enter, ns, walk m nxt enter (succs_of m nxt n) ?v), m, nxt, enter, n # ns, st) \<in> ?R"
    using unseen_mono [of "fst st" "fst (walk m nxt enter (succs_of m nxt n) ?v)" m] by (simp add: le_less)
qed auto

definition walk_edges :: "('k, 'v) gomap \<Rightarrow> ('v \<Rightarrow> 'k list) \<Rightarrow> ('k \<times> 'k) set" where
  "walk_edges m nxt = {(x, y). y \<in> set (succs_of m nxt x)}"

text \<open>The new nodes, in the order they are entered, determine the accumulator.\<close>

definition entered :: "('k \<Rightarrow> 's \<Rightarrow> 's) \<Rightarrow> 'k list \<times> 's \<Rightarrow> 'k list \<times> 's \<Rightarrow> bool" where
  "entered enter st st' = (\<exists>new. fst st' = rev new @ fst st \<and> snd st' = foldl (\<lambda>s n. enter n s) (snd st) new \<and>
     (distinct (fst st) \<longrightarrow> distinct (fst st')))"

lemma entered_refl: "entered enter st st"
  unfolding entered_def by (rule exI [of _ "[]"]) simp

lemma entered_trans: "entered enter a b \<Longrightarrow> entered enter b c \<Longrightarrow> entered enter a c"
proof -
  assume "entered enter a b" "entered enter b c"
  then obtain u v where "fst b = rev u @ fst a" "snd b = foldl (\<lambda>s n. enter n s) (snd a) u"
    "fst c = rev v @ fst b" "snd c = foldl (\<lambda>s n. enter n s) (snd b) v" "distinct (fst a) \<longrightarrow> distinct (fst c)"
    unfolding entered_def by blast
  then show "entered enter a c" unfolding entered_def by (intro exI [of _ "u @ v"]) simp
qed

lemma entered_one: "n \<notin> set (fst st) \<Longrightarrow> entered enter st (n # fst st, enter n (snd st))"
  unfolding entered_def by (rule exI [of _ "[n]"]) simp

lemma walk_entered: "entered enter st (walk m nxt enter ns st)"
proof (induction m nxt enter ns st rule: walk.induct)
  case (2 m nxt enter n ns st)
  show ?case
  proof (cases "n \<in> set (fst st)")
    case True
    then show ?thesis using "2.IH"(1) by simp
  next
    case False
    show ?thesis
      using entered_trans [OF entered_one [OF False] entered_trans [OF "2.IH"(2) [OF False] "2.IH"(3) [OF False]]] False
      by simp
  qed
qed (simp add: entered_refl)

lemma walk_closed:
  "set (fst st) \<subseteq> set (fst (walk m nxt enter ns st)) \<and> set ns \<subseteq> set (fst (walk m nxt enter ns st)) \<and>
   (\<forall>x \<in> set (fst (walk m nxt enter ns st)) - set (fst st). set (succs_of m nxt x) \<subseteq> set (fst (walk m nxt enter ns st)))"
proof (induction m nxt enter ns st rule: walk.induct)
  case (2 m nxt enter n ns st)
  show ?case
  proof (cases "n \<in> set (fst st)")
    case True
    with 2 show ?thesis by auto
  next
    case False
    let ?st = "walk m nxt enter (succs_of m nxt n) (n # fst st, enter n (snd st))"
    let ?st2 = "walk m nxt enter ns ?st"
    have r: "walk m nxt enter (n # ns) st = ?st2" using False by simp
    have 1: "set (n # fst st) \<subseteq> set (fst ?st)" "set (succs_of m nxt n) \<subseteq> set (fst ?st)"
      "\<forall>x \<in> set (fst ?st) - set (n # fst st). set (succs_of m nxt x) \<subseteq> set (fst ?st)"
      using "2.IH"(2) [OF False] unfolding fst_conv by blast+
    have 3: "set (fst ?st) \<subseteq> set (fst ?st2)" "set ns \<subseteq> set (fst ?st2)"
      "\<forall>x \<in> set (fst ?st2) - set (fst ?st). set (succs_of m nxt x) \<subseteq> set (fst ?st2)"
      using "2.IH"(3) [OF False] by blast+
    have "set (succs_of m nxt x) \<subseteq> set (fst ?st2)" if "x \<in> set (fst ?st2) - set (fst st)" for x
    proof (cases "x \<in> set (fst ?st)")
      case True
      then have "set (succs_of m nxt x) \<subseteq> set (fst ?st)" using 1(2,3) that by (cases "x = n") auto
      then show ?thesis using 3(1) by blast
    qed (use 3(3) that in blast)
    then show ?thesis unfolding r using 1(1) 3(1,2) by auto
  qed
qed simp

lemma walk_sound: "set (fst (walk m nxt enter ns st)) \<subseteq> set (fst st) \<union> (walk_edges m nxt)\<^sup>* `` set ns"
proof (induction m nxt enter ns st rule: walk.induct)
  case (2 m nxt enter n ns st)
  show ?case
  proof (cases "n \<in> set (fst st)")
    case True
    then show ?thesis using 2(1) by auto
  next
    case False
    let ?E = "walk_edges m nxt"
    let ?st = "walk m nxt enter (succs_of m nxt n) (n # fst st, enter n (snd st))"
    have "?E\<^sup>* `` (set (succs_of m nxt n)) \<subseteq> ?E\<^sup>* `` {n}"
      by (auto simp: walk_edges_def intro: converse_rtrancl_into_rtrancl)
    then have "set (fst ?st) \<subseteq> set (n # fst st) \<union> ?E\<^sup>* `` {n}"
      using 2(2) [OF False] unfolding fst_conv by blast
    then have "set (fst (walk m nxt enter ns ?st)) \<subseteq> set (n # fst st) \<union> ?E\<^sup>* `` {n} \<union> ?E\<^sup>* `` set ns"
      using 2(3) [OF False] by blast
    then show ?thesis using False by auto
  qed
qed simp

text \<open>From nothing seen: every reachable node is entered once, the first node first.\<close>

lemma walk_reaches:
  fixes m nxt enter ns acc
  defines "r \<equiv> walk m nxt enter ns ([], acc)"
  shows "distinct (fst r)" "set (fst r) = (walk_edges m nxt)\<^sup>* `` set ns"
    "snd r = foldl (\<lambda>s n. enter n s) acc (rev (fst r))" "ns \<noteq> [] \<Longrightarrow> \<exists>w. rev (fst r) = hd ns # w"
proof -
  show "distinct (fst r)" "snd r = foldl (\<lambda>s n. enter n s) acc (rev (fst r))"
    using walk_entered [of enter "([], acc)" m nxt ns] by (auto simp: entered_def r_def)
  have c: "set ns \<subseteq> set (fst r)" "\<forall>x \<in> set (fst r). walk_edges m nxt `` {x} \<subseteq> set (fst r)"
    using walk_closed [of "([], acc)" m nxt enter ns] by (auto simp: walk_edges_def r_def)
  have "y \<in> set (fst r)" if "(x, y) \<in> (walk_edges m nxt)\<^sup>*" "x \<in> set ns" for x y
    using that by (induction rule: rtrancl_induct) (use c in auto)
  then show "set (fst r) = (walk_edges m nxt)\<^sup>* `` set ns"
    using walk_sound [of m nxt enter ns "([], acc)"] by (auto simp: r_def)
  show "\<exists>w. rev (fst r) = hd ns # w" if "ns \<noteq> []"
  proof -
    from that obtain n ns' where ns: "ns = n # ns'" by (cases ns) blast+
    have "r = walk m nxt enter ns' (walk m nxt enter (succs_of m nxt n) ([n], enter n acc))" by (simp add: r_def ns)
    moreover have "entered enter ([n], enter n acc) (walk m nxt enter ns' (walk m nxt enter (succs_of m nxt n) ([n], enter n acc)))"
      using entered_trans [OF walk_entered walk_entered] .
    ultimately show ?thesis by (auto simp: entered_def ns)
  qed
qed

end
