(* ===== verification/Review_Circuits.thy ===== *)
theory Review_Circuits
  imports Go_Strings Graph_Walk
begin

text \<open>
  The circuits a review walks (\<^verbatim>\<open>review/circuit.go\<close>, \<^verbatim>\<open>review/walker.go\<close>,
  \<^verbatim>\<open>review/locus_adapter.go\<close>): entry points of a dependency graph, the depth-first
  walk from each, and the stops that circuits share. The order in which Go ranges over the map
  of nodes is the argument \<open>ord\<close>, a permutation.
\<close>

record circuit_stop =
  st_ID :: string
  st_Name :: string
  st_Package :: string
  st_Changed :: bool
  st_PassThrough :: bool

record circuit =
  ci_Title :: string
  ci_EntryPoint :: string
  ci_Stops :: "circuit_stop list"
  ci_Shared :: "string list"

record entry_point =
  ep_Name :: string
  ep_Package :: string
  ep_Kind :: string

record dependency =
  dp_From :: string
  dp_To :: string
  dp_Package :: string

record locus_edge =
  le_From :: string
  le_To :: string
  le_Weight :: int

definition DepsFromLocusEdges :: "locus_edge list \<Rightarrow> dependency list" where
  "DepsFromLocusEdges es = map (\<lambda>e. \<lparr>dp_From = le_From e, dp_To = le_To e, dp_Package = le_From e\<rparr>) es"

subsection \<open>Entry points\<close>

definition entryKeywords :: "(string \<times> string) list" where
  "entryKeywords = [(''handler'', ''handler''), (''server'', ''server''), (''cmd'', ''cmd''), (''main'', ''main''),
     (''worker'', ''worker''), (''listener'', ''listener''), (''grpc'', ''handler''), (''http'', ''handler''),
     (''api'', ''handler'')]"

definition isAlphaNum :: "char \<Rightarrow> bool" where
  "isAlphaNum c = (let n = (of_char c :: nat) in (97 \<le> n \<and> n \<le> 122) \<or> (65 \<le> n \<and> n \<le> 90) \<or> (48 \<le> n \<and> n \<le> 57))"

definition matchesEntryKeyword :: "string \<Rightarrow> string \<Rightarrow> bool" where
  "matchesEntryKeyword s0 keyword =
     (let s = to_lower s0
      in case str_index s keyword of
           None \<Rightarrow> False
         | Some idx \<Rightarrow>
             if idx > 0 \<and> isAlphaNum (s ! (idx - 1)) then False
             else (let end = idx + length keyword
                   in if end < length s \<and> isAlphaNum (s ! end) then False else True))"

fun entry_kind :: "string \<Rightarrow> string \<Rightarrow> (string \<times> string) list \<Rightarrow> string option" where
  "entry_kind node pkg [] = None"
| "entry_kind node pkg ((kw, kind) # kws) =
     (if matchesEntryKeyword node kw \<or> matchesEntryKeyword pkg kw then Some kind else entry_kind node pkg kws)"

definition from_nodes :: "dependency list \<Rightarrow> (string, string) gomap" where
  "from_nodes deps = foldl (\<lambda>m d. mset_at m (dp_From d) (dp_Package d)) [] deps"

fun detect_loop :: "(string, string) gomap \<Rightarrow> string list \<Rightarrow> entry_point list \<Rightarrow> entry_point list" where
  "detect_loop [] seen entries = entries"
| "detect_loop ((node, pkg) # rest) seen entries =
     (if node \<in> set seen then detect_loop rest seen entries
      else case entry_kind node pkg entryKeywords of
             Some kind \<Rightarrow> detect_loop rest (node # seen) (entries @ [\<lparr>ep_Name = node, ep_Package = pkg, ep_Kind = kind\<rparr>])
           | None \<Rightarrow> detect_loop rest seen entries)"

definition DetectEntryPoints ::
  "((string, string) gomap \<Rightarrow> (string, string) gomap) \<Rightarrow> dependency list \<Rightarrow> entry_point list" where
  "DetectEntryPoints ord deps = detect_loop (ord (from_nodes deps)) [] []"

subsection \<open>The walk\<close>

definition last_dot :: "string \<Rightarrow> nat option" where
  "last_dot node = (case filter (\<lambda>i. node ! i = CHR ''.'') [0..<length node] of [] \<Rightarrow> None | is \<Rightarrow> Some (last is))"

definition splitNode :: "string \<Rightarrow> string \<times> string" where
  "splitNode node = (case last_dot node of None \<Rightarrow> ([], node) | Some i \<Rightarrow> (take i node, drop (i + 1) node))"

text \<open>The adjacency lists, in the order of the edges.\<close>

definition adjacency :: "dependency list \<Rightarrow> (string, dependency list) gomap" where
  "adjacency deps = foldl (\<lambda>adj d. mset_at adj (dp_From d) (mget [] adj (dp_From d) @ [d])) [] deps"

definition make_stop :: "string list \<Rightarrow> string \<Rightarrow> circuit_stop" where
  "make_stop changed node =
     (case splitNode node of (pkg, name) \<Rightarrow>
        \<lparr>st_ID = node, st_Name = name, st_Package = pkg, st_Changed = node \<in> set changed, st_PassThrough = node \<notin> set changed\<rparr>)"

definition visit_node :: "string list \<Rightarrow> string \<Rightarrow> circuit_stop list \<Rightarrow> circuit_stop list" where
  "visit_node changed node stops = stops @ [make_stop changed node]"

text \<open>The calls of \<^verbatim>\<open>dfs\<close> are those of \<^const>\<open>walk\<close>, with the edges of the node as its successors.\<close>

definition WalkCircuit :: "entry_point \<Rightarrow> dependency list \<Rightarrow> string list \<Rightarrow> circuit_stop list" where
  "WalkCircuit entry deps changed = snd (walk (adjacency deps) (map dp_To) (visit_node changed) [ep_Name entry] ([], []))"

subsection \<open>Circuits\<close>

definition hasChangedStop :: "circuit_stop list \<Rightarrow> bool" where
  "hasChangedStop stops = list_ex st_Changed stops"

text \<open>The circuits of every stop, by index, with a repetition for every occurrence.\<close>

definition stop_circuits :: "circuit list \<Rightarrow> (string, nat list) gomap" where
  "stop_circuits cs =
     foldl (\<lambda>m p. foldl (\<lambda>m s. mset_at m (st_ID s) (mget [] m (st_ID s) @ [fst p])) m (ci_Stops (snd p)))
       [] (enumerate 0 cs)"

definition markSharedStops :: "circuit list \<Rightarrow> circuit list" where
  "markSharedStops cs =
     map (\<lambda>c. foldl (\<lambda>c s. if length (mget [] (stop_circuits cs) (st_ID s)) > 1
                        then c\<lparr>ci_Shared := ci_Shared c @ [st_ID s]\<rparr> else c) c (ci_Stops c)) cs"

fun extract_loop :: "entry_point list \<Rightarrow> dependency list \<Rightarrow> string list \<Rightarrow> circuit list \<Rightarrow> circuit list" where
  "extract_loop [] deps changed circuits = circuits"
| "extract_loop (e # es) deps changed circuits =
     (let stops = WalkCircuit e deps changed
      in if \<not> hasChangedStop stops then extract_loop es deps changed circuits
         else extract_loop es deps changed
                (circuits @ [\<lparr>ci_Title = ep_Kind e @ '': '' @ ep_Name e, ci_EntryPoint = ep_Name e, ci_Stops = stops, ci_Shared = []\<rparr>]))"

definition ExtractCircuits ::
  "((string, string) gomap \<Rightarrow> (string, string) gomap) \<Rightarrow> string list \<Rightarrow> dependency list \<Rightarrow> circuit list" where
  "ExtractCircuits ord changedFiles deps =
     markSharedStops (extract_loop (DetectEntryPoints ord deps) deps changedFiles [])"

subsection \<open>The walk visits what is reachable, once\<close>

definition edges :: "dependency list \<Rightarrow> (string \<times> string) set" where
  "edges deps = (\<lambda>d. (dp_From d, dp_To d)) ` set deps"

lemma adjacency_lookup: "mget [] (adjacency deps) n = filter (\<lambda>d. dp_From d = n) deps"
proof (induction deps rule: rev_induct)
  case Nil
  show ?case by (simp add: adjacency_def mget_def)
next
  case (snoc d deps)
  then show ?case by (auto simp: adjacency_def)
qed

lemma make_stop_ID [simp]: "st_ID (make_stop changed n) = n"
  by (simp add: make_stop_def split: prod.split)

lemma visit_nodes: "foldl (\<lambda>s n. visit_node changed n s) stops ns = stops @ map (make_stop changed) ns"
  by (induction ns arbitrary: stops) (simp_all add: visit_node_def)

lemma adjacency_succs: "succs_of (adjacency deps) (map dp_To) n = map dp_To (mget [] (adjacency deps) n)"
  by (simp add: succs_of_def mget_def split: option.split)

lemma adjacency_edges: "walk_edges (adjacency deps) (map dp_To) = edges deps"
  by (auto simp: walk_edges_def adjacency_succs adjacency_lookup edges_def image_iff)

lemma circuit_stops_of:
  "WalkCircuit e deps changed =
     map (make_stop changed) (rev (fst (walk (adjacency deps) (map dp_To) (visit_node changed) [ep_Name e] ([], []))))"
  unfolding WalkCircuit_def walk_reaches(3) visit_nodes by simp

lemma circuit_walk:
  defines "stops e deps changed \<equiv> WalkCircuit e deps changed"
  shows "distinct (map st_ID (stops e deps changed))"
    "set (map st_ID (stops e deps changed)) = (edges deps)\<^sup>* `` {ep_Name e}"
    "s \<in> set (stops e deps changed) \<Longrightarrow> s = make_stop changed (st_ID s)"
    "\<exists>rest. stops e deps changed = make_stop changed (ep_Name e) # rest"
proof -
  note r = walk_reaches [where m = "adjacency deps" and nxt = "map dp_To" and enter = "visit_node changed" and
    ns = "[ep_Name e]" and acc = "[]"]
  have ids: "map st_ID (stops e deps changed) =
      rev (fst (walk (adjacency deps) (map dp_To) (visit_node changed) [ep_Name e] ([], [])))"
    unfolding stops_def circuit_stops_of by (simp add: comp_def)
  show "distinct (map st_ID (stops e deps changed))" unfolding ids using r(1) by simp
  show "set (map st_ID (stops e deps changed)) = (edges deps)\<^sup>* `` {ep_Name e}"
    unfolding ids set_rev r(2) adjacency_edges by simp
  show "s \<in> set (stops e deps changed) \<Longrightarrow> s = make_stop changed (st_ID s)"
    unfolding stops_def circuit_stops_of by auto
  from r(4) obtain w where "rev (fst (walk (adjacency deps) (map dp_To) (visit_node changed) [ep_Name e] ([], []))) = ep_Name e # w"
    by auto
  then show "\<exists>rest. stops e deps changed = make_stop changed (ep_Name e) # rest"
    unfolding stops_def circuit_stops_of by simp
qed

subsection \<open>Entry points and shared stops\<close>

lemma from_nodes_wf: "wf_map (from_nodes deps)"
proof -
  have "wf_map m \<Longrightarrow> wf_map (foldl (\<lambda>m d. mset_at m (dp_From d) (dp_Package d)) m deps)" for m
    by (induction deps arbitrary: m) simp_all
  then show ?thesis by (simp add: from_nodes_def)
qed

definition entry_of :: "string \<times> string \<Rightarrow> entry_point option" where
  "entry_of p = map_option (\<lambda>kind. \<lparr>ep_Name = fst p, ep_Package = snd p, ep_Kind = kind\<rparr>)
     (entry_kind (fst p) (snd p) entryKeywords)"

lemma detect_loop_result:
  "wf_map m \<Longrightarrow> set seen \<inter> set (keys m) = {} \<Longrightarrow> detect_loop m seen es = es @ List.map_filter entry_of m"
proof (induction m arbitrary: seen es)
  case (Cons p m)
  obtain node pkg where p: "p = (node, pkg)" by (cases p)
  have n: "node \<notin> set seen" "set seen \<inter> set (keys m) = {}" "set (node # seen) \<inter> set (keys m) = {}" "wf_map m"
    using Cons.prems by (auto simp: p)
  show ?case
  proof (cases "entry_kind node pkg entryKeywords")
    case None
    then have "entry_of p = None" by (simp add: p entry_of_def)
    then show ?thesis using None n Cons.IH [of seen es] by (simp add: p List.map_filter_simps)
  next
    case (Some kind)
    let ?e = "\<lparr>ep_Name = node, ep_Package = pkg, ep_Kind = kind\<rparr>"
    have "detect_loop (p # m) seen es = detect_loop m (node # seen) (es @ [?e])" using Some n(1) by (simp add: p)
    also have "\<dots> = (es @ [?e]) @ List.map_filter entry_of m" using Cons.IH n(3,4) by blast
    also have "entry_of p = Some ?e" using Some by (simp add: p entry_of_def)
    then have "(es @ [?e]) @ List.map_filter entry_of m = es @ List.map_filter entry_of (p # m)"
      by (simp add: List.map_filter_simps)
    finally show ?thesis .
  qed
qed (simp add: List.map_filter_simps)

lemma detect_entries:
  assumes "mset (ord (from_nodes deps)) = mset (from_nodes deps)"
  shows "DetectEntryPoints ord deps = List.map_filter entry_of (ord (from_nodes deps))"
proof -
  have "mset (keys (ord (from_nodes deps))) = mset (keys (from_nodes deps))"
    unfolding mset_map assms by (rule refl)
  then have "wf_map (ord (from_nodes deps))"
    using from_nodes_wf [of deps] mset_eq_imp_distinct_iff by blast
  then show ?thesis by (simp add: DetectEntryPoints_def detect_loop_result)
qed

lemma entry_of_name: "entry_of p = Some e \<Longrightarrow> ep_Name e = fst p"
  by (auto simp: entry_of_def)

lemma map_filter_names_sub: "ep_Name ` set (List.map_filter entry_of m) \<subseteq> fst ` set m"
proof
  fix n assume "n \<in> ep_Name ` set (List.map_filter entry_of m)"
  then obtain p e where "p \<in> set m" "entry_of p = Some e" "n = ep_Name e" by (auto simp: List.map_filter_def)
  then show "n \<in> fst ` set m" using entry_of_name [of p e] by simp
qed

lemma map_filter_names: "wf_map m \<Longrightarrow> distinct (map ep_Name (List.map_filter entry_of m))"
proof (induction m)
  case (Cons p m)
  show ?case
  proof (cases "entry_of p")
    case None
    with Cons show ?thesis by (simp add: List.map_filter_simps)
  next
    case (Some e)
    have "ep_Name e \<notin> ep_Name ` set (List.map_filter entry_of m)"
      using Cons.prems entry_of_name [OF Some] map_filter_names_sub [of m] by auto
    with Some Cons show ?thesis by (simp add: List.map_filter_simps)
  qed
qed (simp add: List.map_filter_simps)

definition circuit_of :: "dependency list \<Rightarrow> string list \<Rightarrow> entry_point \<Rightarrow> circuit" where
  "circuit_of deps changed e = \<lparr>ci_Title = ep_Kind e @ '': '' @ ep_Name e, ci_EntryPoint = ep_Name e,
     ci_Stops = WalkCircuit e deps changed, ci_Shared = []\<rparr>"

lemma extract_loop_result:
  "extract_loop es deps changed cs =
     cs @ map (circuit_of deps changed) (filter (\<lambda>e. hasChangedStop (WalkCircuit e deps changed)) es)"
  by (induction es arbitrary: cs) (simp_all add: Let_def circuit_of_def)

lemma has_changed_iff:
  "hasChangedStop (WalkCircuit e deps changed) \<longleftrightarrow> (\<exists>n \<in> set changed. (ep_Name e, n) \<in> (edges deps)\<^sup>*)"
proof -
  have c: "st_Changed s \<longleftrightarrow> st_ID s \<in> set changed" if "s \<in> set (WalkCircuit e deps changed)" for s
    using circuit_walk(3) [OF that] by (metis (no_types, lifting) circuit_stop.select_convs(4) make_stop_def case_prod_beta)
  have "hasChangedStop (WalkCircuit e deps changed) \<longleftrightarrow> (\<exists>s \<in> set (WalkCircuit e deps changed). st_ID s \<in> set changed)"
    unfolding hasChangedStop_def list_ex_iff using c by blast
  also have "\<dots> \<longleftrightarrow> (\<exists>n \<in> set (map st_ID (WalkCircuit e deps changed)). n \<in> set changed)" by simp
  also have "\<dots> \<longleftrightarrow> (\<exists>n \<in> set changed. (ep_Name e, n) \<in> (edges deps)\<^sup>*)" unfolding circuit_walk(2) by blast
  finally show ?thesis .
qed

lemma stop_circuits_inner:
  "mget [] (foldl (\<lambda>m s. mset_at m (st_ID s) (mget [] m (st_ID s) @ [i])) m stops) n =
     mget [] m n @ replicate (count_list (map st_ID stops) n) i"
  by (induction stops arbitrary: m) auto

lemma stop_circuits_length:
  "length (mget [] (stop_circuits cs) n) = sum_list (map (\<lambda>c. count_list (map st_ID (ci_Stops c)) n) cs)"
proof -
  let ?step = "\<lambda>m p. foldl (\<lambda>m s. mset_at m (st_ID s) (mget [] m (st_ID s) @ [fst p])) m (ci_Stops (snd p))"
  have "length (mget [] (foldl ?step m ps) n) =
    length (mget [] m n) + sum_list (map (\<lambda>p. count_list (map st_ID (ci_Stops (snd p))) n) ps)"
    for m and ps :: "(nat \<times> circuit) list"
    by (induction ps arbitrary: m) (simp_all add: stop_circuits_inner)
  then have "length (mget [] (stop_circuits cs) n) =
    sum_list (map (\<lambda>p. count_list (map st_ID (ci_Stops (snd p))) n) (enumerate 0 cs))"
    by (simp add: stop_circuits_def mget_def)
  also have "\<dots> = sum_list (map (\<lambda>c. count_list (map st_ID (ci_Stops c)) n) (map snd (enumerate 0 cs)))"
    by (simp only: map_map comp_def)
  finally show ?thesis by simp
qed

definition on_circuit :: "string \<Rightarrow> circuit \<Rightarrow> bool" where
  "on_circuit n c = (n \<in> set (map st_ID (ci_Stops c)))"

lemma stop_circuits_count:
  assumes "\<forall>c \<in> set cs. distinct (map st_ID (ci_Stops c))"
  shows "length (mget [] (stop_circuits cs) n) = length (filter (on_circuit n) cs)"
proof -
  have "distinct xs \<Longrightarrow> count_list xs n = (if n \<in> set xs then 1 else 0)" for xs :: "string list"
    by (induction xs) auto
  then have "sum_list (map (\<lambda>c. count_list (map st_ID (ci_Stops c)) n) cs) = sum_list (map (\<lambda>c. if on_circuit n c then 1 else 0) cs)"
    using assms by (intro arg_cong [of _ _ sum_list] map_cong) (simp_all add: on_circuit_def)
  also have "\<dots> = length (filter (on_circuit n) cs)" by (induction cs) auto
  finally show ?thesis by (simp add: stop_circuits_length)
qed

lemma mark_shared_one:
  fixes c :: circuit
  shows "foldl (\<lambda>c s. if P (st_ID s) then c\<lparr>ci_Shared := ci_Shared c @ [st_ID s]\<rparr> else c) c stops =
     c\<lparr>ci_Shared := ci_Shared c @ filter P (map st_ID stops)\<rparr>"
  by (induction stops arbitrary: c) auto

lemma mark_shared_result:
  assumes "\<forall>c \<in> set cs. distinct (map st_ID (ci_Stops c))"
  shows "markSharedStops cs =
    map (\<lambda>c. c\<lparr>ci_Shared := ci_Shared c @ filter (\<lambda>n. 1 < length (filter (on_circuit n) cs)) (map st_ID (ci_Stops c))\<rparr>) cs"
  unfolding markSharedStops_def stop_circuits_count [OF assms]
  unfolding mark_shared_one [of "\<lambda>n. 1 < length (filter (on_circuit n) cs)"] by (rule refl)

lemma extract_result:
  fixes changed :: "string list"
  assumes "mset (ord (from_nodes deps)) = mset (from_nodes deps)"
  defines "es \<equiv> filter (\<lambda>e. \<exists>n \<in> set changed. (ep_Name e, n) \<in> (edges deps)\<^sup>*) (List.map_filter entry_of (ord (from_nodes deps)))"
  shows "ExtractCircuits ord changed deps = map (\<lambda>e. (circuit_of deps changed e)\<lparr>ci_Shared :=
      filter (\<lambda>n. 1 < length (filter (\<lambda>e'. (ep_Name e', n) \<in> (edges deps)\<^sup>*) es)) (map st_ID (WalkCircuit e deps changed))\<rparr>) es"
proof -
  let ?cs = "map (circuit_of deps changed) es"
  have d: "\<forall>c \<in> set ?cs. distinct (map st_ID (ci_Stops c))" by (auto simp: circuit_of_def circuit_walk(1))
  have o: "on_circuit n (circuit_of deps changed e) \<longleftrightarrow> (ep_Name e, n) \<in> (edges deps)\<^sup>*" for n e
    unfolding on_circuit_def circuit_of_def circuit.select_convs circuit_walk(2) by simp
  have "ExtractCircuits ord changed deps = markSharedStops ?cs"
    by (simp add: ExtractCircuits_def extract_loop_result detect_entries [where ord = ord and deps = deps, OF assms(1)] has_changed_iff es_def)
  then show ?thesis
    by (simp add: mark_shared_result [OF d] filter_map comp_def o) (simp add: circuit_of_def)
qed

text \<open>A keyword that first occurs inside a word hides its later occurrence as a word.\<close>

lemma keyword_first_occurrence_only:
  "\<not> matchesEntryKeyword ''domain.main'' ''main''" "matchesEntryKeyword ''app.main'' ''main''"
  by (simp_all add: matchesEntryKeyword_def to_lower_def lower_char_def has_prefix_def isAlphaNum_def Let_def)

end
