(* ===== verification/Review_Properties.thy ===== *)
theory Review_Properties
  imports Review_Circuits
begin

text \<open>
  The properties of the review components.
\<close>

text \<open>The walk from an entry point yields each node reachable from it exactly once, starting with the entry point, whatever cycles the graph has, and flags a stop as changed exactly when it is among the changed ones.\<close>

lemma walk_visits_reachable:
  shows "distinct (map st_ID (WalkCircuit e deps changed)) \<and>
    set (map st_ID (WalkCircuit e deps changed)) = (edges deps)\<^sup>* `` {ep_Name e} \<and>
    map st_ID (take 1 (WalkCircuit e deps changed)) = [ep_Name e] \<and>
    {st_ID s |s. s \<in> set (WalkCircuit e deps changed) \<and> st_Changed s} = set changed \<inter> (edges deps)\<^sup>* `` {ep_Name e} \<and>
    {st_ID s |s. s \<in> set (WalkCircuit e deps changed) \<and> st_PassThrough s} = (edges deps)\<^sup>* `` {ep_Name e} - set changed"
proof -
  let ?w = "WalkCircuit e deps changed"
  obtain rest where f: "?w = make_stop changed (ep_Name e) # rest" using circuit_walk(4) by blast
  have ids: "st_ID ` set ?w = (edges deps)\<^sup>* `` {ep_Name e}" using circuit_walk(2) by simp
  have m: "st_Changed (make_stop changed n) \<longleftrightarrow> n \<in> set changed" "st_PassThrough (make_stop changed n) \<longleftrightarrow> n \<notin> set changed" for n
    by (simp_all add: make_stop_def case_prod_beta)
  have c: "(st_Changed s \<longleftrightarrow> st_ID s \<in> set changed) \<and> (st_PassThrough s \<longleftrightarrow> st_ID s \<notin> set changed)" if "s \<in> set ?w" for s
    using circuit_walk(3) [OF that] m by metis
  have "{st_ID s |s. s \<in> set ?w \<and> st_Changed s} = st_ID ` set ?w \<inter> set changed"
    "{st_ID s |s. s \<in> set ?w \<and> st_PassThrough s} = st_ID ` set ?w - set changed"
    using c by blast+
  moreover have "map st_ID (take 1 ?w) = [ep_Name e]" by (simp add: f)
  ultimately show ?thesis using circuit_walk(1,2) ids by auto
qed

text \<open>For every order in which the nodes are ranged over, the circuits are the walks from the detected entry points that reach changed code, in that order, and the shared stops of a circuit are exactly its stops that at least two of them reach.\<close>

lemma circuits_of_affected_entries:
  fixes changed :: "string list"
  assumes "mset (ord (from_nodes deps)) = mset (from_nodes deps)"
  defines "es \<equiv> filter (\<lambda>e. \<exists>n \<in> set changed. (ep_Name e, n) \<in> (edges deps)\<^sup>*) (List.map_filter entry_of (ord (from_nodes deps)))"
  shows "ExtractCircuits ord changed deps = map (\<lambda>e. (circuit_of deps changed e)\<lparr>ci_Shared :=
      filter (\<lambda>n. 1 < length (filter (\<lambda>e'. (ep_Name e', n) \<in> (edges deps)\<^sup>*) es)) (map st_ID (WalkCircuit e deps changed))\<rparr>) es"
  unfolding es_def using extract_result [where ord = ord and deps = deps, OF assms(1)] .

lemma circuits_of_affected_entries_witness:
  "length (ExtractCircuits rev [''repo.Save''] [\<lparr>dp_From = ''cmd.Run'', dp_To = ''repo.Save'', dp_Package = ''cmd''\<rparr>,
     \<lparr>dp_From = ''api.Get'', dp_To = ''repo.Find'', dp_Package = ''api''\<rparr>]) = 1"
proof -
  let ?deps = "[\<lparr>dp_From = ''cmd.Run'', dp_To = ''repo.Save'', dp_Package = ''cmd''\<rparr>,
     \<lparr>dp_From = ''api.Get'', dp_To = ''repo.Find'', dp_Package = ''api''\<rparr>]"
  have f: "from_nodes ?deps = [(''cmd.Run'', ''cmd''), (''api.Get'', ''api'')]" by (simp add: from_nodes_def)
  have e: "entry_of (''cmd.Run'', ''cmd'') = Some \<lparr>ep_Name = ''cmd.Run'', ep_Package = ''cmd'', ep_Kind = ''cmd''\<rparr>"
    "entry_of (''api.Get'', ''api'') = Some \<lparr>ep_Name = ''api.Get'', ep_Package = ''api'', ep_Kind = ''handler''\<rparr>"
    by (simp_all add: entry_of_def entryKeywords_def matchesEntryKeyword_def to_lower_def lower_char_def
      has_prefix_def isAlphaNum_def Let_def)
  have r: "(''cmd.Run'', ''repo.Save'') \<in> (edges ?deps)\<^sup>*" by (rule r_into_rtrancl) (simp add: edges_def)
  have "x = ''api.Get'' \<or> x = ''repo.Find''" if "(''api.Get'', x) \<in> (edges ?deps)\<^sup>*" for x
    using that by (induction rule: rtrancl_induct) (auto simp: edges_def)
  then have "(''api.Get'', ''repo.Save'') \<notin> (edges ?deps)\<^sup>*" by auto
  then show ?thesis
    using circuits_of_affected_entries [of rev ?deps "[''repo.Save'']"] r
    by (simp add: f e List.map_filter_simps)
qed

end
