(* ===== verification/Go_Paths.thy ===== *)
theory Go_Paths
  imports Go_Strings
begin

text \<open>
  The lexical functions of Go's package \<^verbatim>\<open>path/filepath\<close> on Unix paths: \<^verbatim>\<open>Clean\<close>,
  \<^verbatim>\<open>Join\<close>, \<^verbatim>\<open>Base\<close>, \<^verbatim>\<open>Dir\<close> and \<^verbatim>\<open>Ext\<close>. They do not look at the file
  system.
\<close>

abbreviation slash :: char where "slash \<equiv> CHR ''/''"

definition is_rooted :: "string \<Rightarrow> bool" where
  "is_rooted s = (s \<noteq> [] \<and> hd s = slash)"

definition path_parts :: "string \<Rightarrow> string list" where
  "path_parts s = filter (\<lambda>w. w \<noteq> [] \<and> w \<noteq> ''.'') (str_split s slash)"

text \<open>The elements kept so far are a stack; \<^verbatim>\<open>..\<close> takes the last one away.\<close>

fun clean_parts :: "bool \<Rightarrow> string list \<Rightarrow> string list \<Rightarrow> string list" where
  "clean_parts rooted [] out = rev out"
| "clean_parts rooted (w # ws) out =
     (if w = ''..'' then
        (case out of
           [] \<Rightarrow> if rooted then clean_parts rooted ws [] else clean_parts rooted ws [''..'']
         | p # ps \<Rightarrow> if p = ''..'' then clean_parts rooted ws (''..'' # out) else clean_parts rooted ws ps)
      else clean_parts rooted ws (w # out))"

definition path_clean :: "string \<Rightarrow> string" where
  "path_clean s =
     (let r = str_join (clean_parts (is_rooted s) (path_parts s) []) [slash]
      in if is_rooted s then slash # r else if r = [] then ''.'' else r)"

definition path_join :: "string list \<Rightarrow> string" where
  "path_join es = (case filter (\<lambda>e. e \<noteq> []) es of [] \<Rightarrow> [] | f # fs \<Rightarrow> path_clean (str_join (f # fs) [slash]))"

definition path_base :: "string \<Rightarrow> string" where
  "path_base s =
     (if s = [] then ''.''
      else let t = rev (dropWhile (\<lambda>c. c = slash) (rev s));
               b = (case last_index (\<lambda>c. c = slash) t of None \<Rightarrow> t | Some i \<Rightarrow> drop (i + 1) t)
           in if b = [] then [slash] else b)"

definition path_dir :: "string \<Rightarrow> string" where
  "path_dir s = path_clean (case last_index (\<lambda>c. c = slash) s of None \<Rightarrow> [] | Some i \<Rightarrow> take (i + 1) s)"

definition path_ext :: "string \<Rightarrow> string" where
  "path_ext s =
     (case last_index (\<lambda>c. c = CHR ''.'' \<or> c = slash) s of
        None \<Rightarrow> []
      | Some i \<Rightarrow> if s ! i = CHR ''.'' then drop i s else [])"

subsection \<open>What cleaning achieves\<close>

lemma clean_parts_set: "set (clean_parts rooted ws out) \<subseteq> set ws \<union> set out \<union> (if rooted then {} else {''..''})"
proof (induction rooted ws out rule: clean_parts.induct)
  case (2 rooted w ws out)
  then show ?case by (cases out) (auto split: if_splits)
qed simp

lemma clean_parts_rooted_no_dots: "''..'' \<notin> set out \<Longrightarrow> ''..'' \<notin> set (clean_parts True ws out)"
proof (induction ws arbitrary: out)
  case (Cons w ws)
  then show ?case by (cases out) auto
qed simp

lemma clean_parts_plain: "''..'' \<notin> set ws \<Longrightarrow> clean_parts rooted ws out = rev out @ ws"
  by (induction ws arbitrary: out) auto

lemma path_parts_elem: "w \<in> set (path_parts s) \<Longrightarrow> w \<noteq> [] \<and> w \<noteq> ''.'' \<and> slash \<notin> set w"
  unfolding path_parts_def str_split_def using split_at_no_sep [of "\<lambda>c. c = slash" s] by auto

definition clean_elems :: "string \<Rightarrow> string list" where
  "clean_elems s = clean_parts True (path_parts s) []"

lemma clean_elems_elem:
  assumes "w \<in> set (clean_elems s)"
  shows "w \<noteq> []" "w \<noteq> ''.''" "w \<noteq> ''..''" "slash \<notin> set w"
proof -
  have "w \<in> set (path_parts s)" using assms clean_parts_set [of True "path_parts s" "[]"] by (auto simp: clean_elems_def)
  then show "w \<noteq> []" "w \<noteq> ''.''" "slash \<notin> set w" using path_parts_elem by blast+
  show "w \<noteq> ''..''" using assms clean_parts_rooted_no_dots [of "[]"] by (auto simp: clean_elems_def)
qed

lemma path_clean_rooted: "is_rooted s \<Longrightarrow> path_clean s = slash # str_join (clean_elems s) [slash]"
  by (simp add: path_clean_def clean_elems_def Let_def)

lemma parts_of_join:
  assumes "\<forall>w \<in> set ws. w \<noteq> [] \<and> w \<noteq> ''.'' \<and> slash \<notin> set w"
  shows "path_parts (slash # str_join ws [slash]) = ws"
proof (cases "ws = []")
  case True
  then show ?thesis by (simp add: path_parts_def str_split_def)
next
  case False
  have "str_split (str_join ws [slash]) slash = ws" using assms False by (intro split_join_at) auto
  then show ?thesis using assms by (simp add: path_parts_def str_split_def filter_id_conv)
qed

text \<open>Cleaning a rooted path twice is cleaning it once, and what is left is the list of its names.\<close>

lemma clean_elems_idem: "is_rooted s \<Longrightarrow> clean_elems (path_clean s) = clean_elems s"
proof -
  assume r: "is_rooted s"
  have "path_parts (path_clean s) = clean_elems s"
    unfolding path_clean_rooted [OF r] by (rule parts_of_join) (use clean_elems_elem in blast)
  moreover have "''..'' \<notin> set (clean_elems s)" using clean_elems_elem(3) by blast
  ultimately show ?thesis by (simp add: clean_elems_def clean_parts_plain)
qed

lemma is_rooted_clean: "is_rooted s \<Longrightarrow> is_rooted (path_clean s)"
  by (simp add: path_clean_rooted) (simp add: is_rooted_def)

lemma path_clean_idem: "is_rooted s \<Longrightarrow> path_clean (path_clean s) = path_clean s"
  by (metis clean_elems_idem is_rooted_clean path_clean_rooted)

text \<open>A textual prefix is a path below only up to a separator.\<close>

definition path_below :: "string \<Rightarrow> string \<Rightarrow> bool" where
  "path_below p q = prefix (clean_elems q) (clean_elems p)"

lemma str_join_append: "xs \<noteq> [] \<Longrightarrow> ys \<noteq> [] \<Longrightarrow> str_join (xs @ ys) sep = str_join xs sep @ sep @ str_join ys sep"
  by (induction xs sep rule: str_join.induct) (auto simp: neq_Nil_conv)

lemma below_has_prefix:
  assumes "is_rooted p" "is_rooted q" "path_below p q"
  shows "has_prefix (path_clean p) (path_clean q)"
proof -
  obtain ws where w: "clean_elems p = clean_elems q @ ws" using assms(3) by (auto simp: path_below_def prefix_def)
  show ?thesis
  proof (cases "clean_elems q = [] \<or> ws = []")
    case True
    then show ?thesis using assms(1,2) w by (auto simp: path_clean_rooted has_prefix_def)
  next
    case False
    then show ?thesis using assms(1,2) w by (simp add: path_clean_rooted str_join_append has_prefix_def)
  qed
qed

end
