(* ===== verification/Policy_Enforcer.thy ===== *)
theory Policy_Enforcer
  imports Go_Paths
begin

text \<open>
  The gate of every tool call (\<^verbatim>\<open>policy/enforcer.go\<close>). The environment of a check is the
  home directory, the working directory and what \<^verbatim>\<open>filepath.EvalSymlinks\<close> answers; the
  input of a tool is the struct the check decodes from JSON, with empty fields for what is missing.
  The token has the fields of \<^verbatim>\<open>battery/policy.CapabilityToken\<close> that the check reads.
  Logging is left out.
\<close>

record capability_token =
  ct_AllowedTools :: "string list"
  ct_DeniedPaths :: "string list"
  ct_WritablePaths :: "string list"

record tool_input =
  ti_path :: string
  ti_file_path :: string
  ti_command :: string

record policy_env =
  pe_home :: "string option"
  pe_cwd :: "string option"
  pe_evalSymlinks :: "string \<Rightarrow> string option"

datatype policy_error =
  ErrDeniedTool string
| ErrDeniedPath string
| ErrDeniedBash string

definition resolve_abs :: "policy_env \<Rightarrow> string \<Rightarrow> string option" where
  "resolve_abs env p =
     (case pe_evalSymlinks env p of
        Some r \<Rightarrow> Some r
      | None \<Rightarrow>
          (case pe_evalSymlinks env (path_dir p) of
             None \<Rightarrow> Some p
           | Some d \<Rightarrow> Some (path_join [d, path_base p])))"

definition resolvePath :: "policy_env \<Rightarrow> string \<Rightarrow> string option" where
  "resolvePath env path =
     (case (if has_prefix path ''~''
            then (case pe_home env of None \<Rightarrow> None | Some h \<Rightarrow> Some (path_join [h, drop 1 path]))
            else Some path) of
        None \<Rightarrow> None
      | Some p \<Rightarrow>
          if is_rooted p then resolve_abs env (path_clean p)
          else (case pe_cwd env of None \<Rightarrow> None | Some cwd \<Rightarrow> resolve_abs env (path_join [cwd, p])))"

text \<open>How a path of the token is resolved: as it is written when it cannot be.\<close>

definition resolve_rule :: "policy_env \<Rightarrow> string \<Rightarrow> string" where
  "resolve_rule env p =
     (let r = (case resolvePath env p of None \<Rightarrow> [] | Some r \<Rightarrow> r) in if r = [] then p else r)"

definition checkFilePath :: "policy_env \<Rightarrow> capability_token \<Rightarrow> string \<Rightarrow> tool_input \<Rightarrow> policy_error option" where
  "checkFilePath env token tool inp =
     (let path = (if ti_path inp = [] then ti_file_path inp else ti_path inp)
      in if path = [] then None
         else case resolvePath env path of
           None \<Rightarrow> Some (ErrDeniedPath path)
         | Some resolved \<Rightarrow>
             if list_ex (\<lambda>d. has_prefix resolved (resolve_rule env d)) (ct_DeniedPaths token) then Some (ErrDeniedPath path)
             else if (tool = ''Write'' \<or> tool = ''Edit'') \<and> ct_WritablePaths token \<noteq> [] \<and>
                \<not> list_ex (\<lambda>w. has_prefix resolved (resolve_rule env w)) (ct_WritablePaths token)
             then Some (ErrDeniedPath path)
             else None)"

text \<open>\<^verbatim>\<open>strings.Replace\<close> of the first \<^verbatim>\<open>~\<close>.\<close>

definition expand_home :: "string \<Rightarrow> string \<Rightarrow> string" where
  "expand_home home s =
     (case str_index s ''~'' of None \<Rightarrow> s | Some i \<Rightarrow> take i s @ home @ drop (i + 1) s)"

fun bash_scan :: "policy_env \<Rightarrow> string \<Rightarrow> string list \<Rightarrow> policy_error option" where
  "bash_scan env command [] = None"
| "bash_scan env command (denied # ds) =
     (if str_contains command denied then Some (ErrDeniedBash denied)
      else case pe_home env of
        None \<Rightarrow> bash_scan env command ds
      | Some home \<Rightarrow>
          if home \<noteq> [] \<and> str_contains command (expand_home home denied) then Some (ErrDeniedBash denied)
          else bash_scan env command ds)"

definition checkBash :: "policy_env \<Rightarrow> capability_token \<Rightarrow> tool_input \<Rightarrow> policy_error option" where
  "checkBash env token inp =
     (if ti_command inp = [] then None else bash_scan env (ti_command inp) (ct_DeniedPaths token))"

definition policy_check :: "policy_env \<Rightarrow> capability_token \<Rightarrow> string \<Rightarrow> tool_input \<Rightarrow> policy_error option" where
  "policy_check env token tool inp =
     (if ct_AllowedTools token \<noteq> [] \<and> \<not> list_ex (\<lambda>t. t = tool) (ct_AllowedTools token) then Some (ErrDeniedTool tool)
      else if tool \<in> {''Write'', ''Edit'', ''Read''} then checkFilePath env token tool inp
      else if tool = ''Bash'' then checkBash env token inp
      else None)"

definition nop_check :: "policy_env \<Rightarrow> capability_token \<Rightarrow> string \<Rightarrow> tool_input \<Rightarrow> policy_error option" where
  "nop_check env token tool inp = None"

subsection \<open>What an allowed call satisfies\<close>

definition tool_path :: "tool_input \<Rightarrow> string" where
  "tool_path inp = (if ti_path inp = [] then ti_file_path inp else ti_path inp)"

lemma checkFilePath_allowed:
  "checkFilePath env token tool inp = None \<longleftrightarrow> tool_path inp = [] \<or>
     (\<exists>r. resolvePath env (tool_path inp) = Some r \<and>
        (\<forall>d \<in> set (ct_DeniedPaths token). \<not> has_prefix r (resolve_rule env d)) \<and>
        (tool \<in> {''Write'', ''Edit''} \<longrightarrow> ct_WritablePaths token = [] \<or>
           (\<exists>w \<in> set (ct_WritablePaths token). has_prefix r (resolve_rule env w))))"
  by (auto simp: checkFilePath_def tool_path_def Let_def list_ex_iff split: option.split)

lemma bash_scan_allowed:
  "bash_scan env command ds = None \<longleftrightarrow>
     (\<forall>d \<in> set ds. \<not> str_contains command d \<and>
        (\<forall>home. pe_home env = Some home \<longrightarrow> home \<noteq> [] \<longrightarrow> \<not> str_contains command (expand_home home d)))"
  by (induction ds) (auto split: option.splits)

lemma policy_check_allowed:
  "policy_check env token tool inp = None \<longleftrightarrow>
     (ct_AllowedTools token = [] \<or> tool \<in> set (ct_AllowedTools token)) \<and>
     (tool \<in> {''Write'', ''Edit'', ''Read''} \<longrightarrow> checkFilePath env token tool inp = None) \<and>
     (tool = ''Bash'' \<longrightarrow> checkBash env token inp = None)"
  by (auto simp: policy_check_def list_ex_iff)

end
