(* ===== verification/Tool_Files.thy ===== *)
theory Tool_Files
  imports Policy_Enforcer Key_Store
begin

text \<open>
  The file tools the agent calls (\<^verbatim>\<open>tools/builtin/read.go\<close>, \<^verbatim>\<open>write.go\<close>,
  \<^verbatim>\<open>edit.go\<close>), the registry and the executor that dispatch a call by its name
  (\<^verbatim>\<open>registry.go\<close>, \<^verbatim>\<open>composite.go\<close>), and the scratch paper
  (\<^verbatim>\<open>scratch_paper.go\<close>).

  A file system is the map of its files by cleaned absolute path; a relative path is taken from the
  directory of the process. What the system calls answer is an argument, as in the key stores.
  The inputs are the decoded structs.
\<close>

datatype tool_error =
  ErrEmptyInput
| ErrNoMatch string
| ErrMultipleMatches string nat
| ErrToolIO string
| ErrToolNotFound string
| ErrUnknownAction string

type_synonym file_system = "(string, bytes) gomap"

definition os_path :: "string \<Rightarrow> string \<Rightarrow> string" where
  "os_path cwd p = (if is_rooted p then path_clean p else path_join [cwd, p])"

text \<open>The path of a call: relative ones are below the work directory when there is one.\<close>

definition work_path :: "string \<Rightarrow> string \<Rightarrow> string" where
  "work_path workDir p = (if workDir \<noteq> [] \<and> \<not> is_rooted p then path_join [workDir, p] else p)"

subsection \<open>Read\<close>

record read_input =
  rd_path :: string
  rd_offset :: int
  rd_limit :: int

definition pad_left :: "nat \<Rightarrow> string \<Rightarrow> string" where
  "pad_left n s = replicate (n - length s) (CHR '' '') @ s"

definition read_lines :: "int \<Rightarrow> int \<Rightarrow> string list \<Rightarrow> string" where
  "read_lines offset limit ls =
     (let start0 = (if offset > 0 then offset - 1 else 0);
          start = (if start0 > int (length ls) then int (length ls) else start0);
          end = (if limit > 0 \<and> start + limit < int (length ls) then start + limit else int (length ls))
      in concat (map (\<lambda>i. pad_left 6 (nat_dec (i + 1)) @ [CHR 0x09] @ ls ! i @ [CHR 0x0A]) [nat start..<nat end]))"

definition read_exec :: "string \<Rightarrow> string \<Rightarrow> bool \<Rightarrow> read_input \<Rightarrow> file_system \<Rightarrow> tool_error + string" where
  "read_exec workDir cwd read_ok inp fs =
     (if rd_path inp = [] then Inl ErrEmptyInput
      else let p = work_path workDir (rd_path inp)
           in case map_of fs (os_path cwd p) of
                None \<Rightarrow> Inl (ErrToolIO p)
              | Some d \<Rightarrow> if \<not> read_ok then Inl (ErrToolIO p)
                         else Inr (read_lines (rd_offset inp) (rd_limit inp) (str_split d (CHR 0x0A))))"

subsection \<open>Write and Edit\<close>

definition os_write :: "file_write \<Rightarrow> string \<Rightarrow> bytes \<Rightarrow> file_system \<Rightarrow> file_system \<times> bool" where
  "os_write out p d fs =
     (case out of
        WriteDone \<Rightarrow> (mset_at fs p d, True)
      | WriteFails None \<Rightarrow> (fs, False)
      | WriteFails (Some part) \<Rightarrow> (mset_at fs p part, False))"

definition write_exec :: "string \<Rightarrow> string \<Rightarrow> bool \<Rightarrow> file_write \<Rightarrow> string \<Rightarrow> bytes \<Rightarrow> file_system \<Rightarrow>
    file_system \<times> (tool_error + string)" where
  "write_exec workDir cwd mkdir_ok out path content fs =
     (if path = [] then (fs, Inl ErrEmptyInput)
      else let p = work_path workDir path
           in if \<not> mkdir_ok then (fs, Inl (ErrToolIO p))
              else case os_write out (os_path cwd p) content fs of (fs', ok) \<Rightarrow>
                (fs', if ok then Inr (''wrote '' @ nat_dec (length content) @ '' bytes to '' @ p) else Inl (ErrToolIO p)))"

definition replace_first :: "string \<Rightarrow> string \<Rightarrow> string \<Rightarrow> string" where
  "replace_first s old new = (case str_index s old of None \<Rightarrow> s | Some i \<Rightarrow> take i s @ new @ drop (i + length old) s)"

definition edit_exec :: "string \<Rightarrow> string \<Rightarrow> bool \<Rightarrow> file_write \<Rightarrow> string \<Rightarrow> string \<Rightarrow> string \<Rightarrow> file_system \<Rightarrow>
    file_system \<times> (tool_error + string)" where
  "edit_exec workDir cwd read_ok out path old new fs =
     (if path = [] \<or> old = [] then (fs, Inl ErrEmptyInput)
      else let p = work_path workDir path
           in case map_of fs (os_path cwd p) of
                None \<Rightarrow> (fs, Inl (ErrToolIO p))
              | Some content \<Rightarrow>
                  if \<not> read_ok then (fs, Inl (ErrToolIO p))
                  else let n = str_count content old
                       in if n = 0 then (fs, Inl (ErrNoMatch p))
                          else if n \<noteq> 1 then (fs, Inl (ErrMultipleMatches p n))
                          else case os_write out (os_path cwd p) (replace_first content old new) fs of (fs', ok) \<Rightarrow>
                            (fs', if ok then Inr (''edited '' @ p @ '': replaced 1 occurrence'') else Inl (ErrToolIO p)))"

subsection \<open>Dispatch\<close>

text \<open>A tool is its name here; the registry knows which names are built in.\<close>

type_synonym tool_registry = "(string, string) gomap"

definition tools_register :: "string \<Rightarrow> tool_registry \<Rightarrow> tool_registry" where
  "tools_register t r = mset_at r t t"

definition tools_get :: "string \<Rightarrow> tool_registry \<Rightarrow> tool_error + string" where
  "tools_get name r = (case map_of r name of None \<Rightarrow> Inl (ErrToolNotFound name) | Some t \<Rightarrow> Inr t)"

definition new_registry :: tool_registry where
  "new_registry = foldl (\<lambda>r t. tools_register t r) [] [''Read'', ''Write'', ''Edit'', ''Bash'', ''Glob'', ''Grep'']"

definition tools_names :: "tool_registry \<Rightarrow> string list" where
  "tools_names r = keys r"

record mcp_tool =
  mt_Name :: string
  mt_RawName :: string
  mt_ServerName :: string

record composite =
  ce_builtin :: tool_registry
  ce_mcp :: "mcp_tool list option"
  ce_overrides :: "(string, string) gomap"

definition detectOverrides :: "composite \<Rightarrow> composite" where
  "detectOverrides ce =
     (case ce_mcp ce of
        None \<Rightarrow> ce
      | Some ts \<Rightarrow> foldl (\<lambda>ce t. if mt_RawName t \<in> set (keys (ce_builtin ce))
                             then ce\<lparr>ce_overrides := mset_at (ce_overrides ce) (mt_RawName t) (mt_ServerName t)\<rparr> else ce) ce ts)"

definition NewCompositeExecutor :: "tool_registry \<Rightarrow> mcp_tool list option \<Rightarrow> composite" where
  "NewCompositeExecutor r mcp = detectOverrides \<lparr>ce_builtin = r, ce_mcp = mcp, ce_overrides = []\<rparr>"

definition buildMCPIndex :: "composite \<Rightarrow> (string, string) gomap" where
  "buildMCPIndex ce = (case ce_mcp ce of None \<Rightarrow> []
     | Some ts \<Rightarrow> foldl (\<lambda>m t. mset_at m (mt_RawName t) (mt_ServerName t)) [] ts)"

text \<open>\<^verbatim>\<open>strings.SplitN\<close> at \<^verbatim>\<open>__\<close> into three parts.\<close>

definition split_mcp :: "string \<Rightarrow> (string \<times> string \<times> string) option" where
  "split_mcp name =
     (case str_index name ''__'' of
        None \<Rightarrow> None
      | Some i \<Rightarrow> (let rest = drop (i + 2) name
                 in case str_index rest ''__'' of
                      None \<Rightarrow> None
                    | Some j \<Rightarrow> Some (take i name, take j rest, drop (j + 2) rest)))"

datatype tool_route = ToMCP string string | ToBuiltin string | NoTool string

definition composite_route :: "composite \<Rightarrow> string \<Rightarrow> tool_route" where
  "composite_route ce name =
     (case map_of (ce_overrides ce) name of
        Some server \<Rightarrow> ToMCP server name
      | None \<Rightarrow>
          (case tools_get name (ce_builtin ce) of
             Inr t \<Rightarrow> ToBuiltin t
           | Inl _ \<Rightarrow>
               (case (if ce_mcp ce \<noteq> None \<and> has_prefix name ''mcp__'' then split_mcp name else None) of
                  Some (_, server, tool) \<Rightarrow> ToMCP server tool
                | None \<Rightarrow>
                    (case map_of (buildMCPIndex ce) name of
                       Some server \<Rightarrow> ToMCP server name
                     | None \<Rightarrow> NoTool name))))"

definition composite_all :: "composite \<Rightarrow> string list" where
  "composite_all ce =
     filter (\<lambda>t. map_of (ce_overrides ce) t = None) (vals (ce_builtin ce)) @
     (case ce_mcp ce of None \<Rightarrow> [] | Some ts \<Rightarrow> map mt_Name ts)"

fun unseen_names :: "string list \<Rightarrow> string list \<Rightarrow> string list" where
  "unseen_names [] names = names"
| "unseen_names (n # ns) names = (if n \<in> set names then unseen_names ns names else unseen_names ns (names @ [n]))"

definition composite_names :: "composite \<Rightarrow> string list" where
  "composite_names ce =
     sort (unseen_names (case ce_mcp ce of None \<Rightarrow> [] | Some ts \<Rightarrow> map mt_Name ts)
       (unseen_names (filter (\<lambda>n. map_of (ce_overrides ce) n = None) (tools_names (ce_builtin ce))) []))"

subsection \<open>The scratch paper\<close>

type_synonym scratch = "(string, (string, string) gomap) gomap"

definition actionToSection :: "string \<Rightarrow> tool_error + string" where
  "actionToSection action =
     (if action = ''write_understanding'' then Inr ''understanding''
      else if action = ''add_step'' then Inr ''plan''
      else if action = ''add_risk'' then Inr ''risks''
      else if action = ''append_notes'' then Inr ''notes''
      else Inl (ErrUnknownAction action))"

definition mergeContent :: "string \<Rightarrow> string \<Rightarrow> string \<Rightarrow> string" where
  "mergeContent action existing newContent =
     (if action = ''write_understanding'' then newContent
      else if action \<in> {''add_step'', ''add_risk'', ''append_notes''} then
        (if existing = [] then newContent else existing @ [CHR 0x0A] @ newContent)
      else newContent)"

text \<open>The tool without a store behind it.\<close>

definition scratch_exec :: "string \<Rightarrow> string \<Rightarrow> string \<Rightarrow> scratch \<Rightarrow> scratch \<times> (tool_error + string)" where
  "scratch_exec action sid content s =
     (if action = [] \<or> sid = [] \<or> content = [] then (s, Inl ErrEmptyInput)
      else case actionToSection action of
        Inl e \<Rightarrow> (s, Inl e)
      | Inr section \<Rightarrow>
          (let s1 = (if map_of s sid = None then mset_at s sid [] else s);
               existing = mget [] (mget [] s1 sid) section
           in (mset_at s1 sid (mset_at (mget [] s1 sid) section (mergeContent action existing content)),
               Inr (''wrote '' @ section @ '' to '' @ sid))))"

definition ReadSections :: "string \<Rightarrow> scratch \<Rightarrow> (string, string) gomap" where
  "ReadSections sid s = mget [] s sid"

definition scratch_sections :: "string \<Rightarrow> scratch \<Rightarrow> string" where
  "scratch_sections sid s =
     (case map_of s sid of
        None \<Rightarrow> ''empty scratch paper''
      | Some m \<Rightarrow>
          (let b = concat (map (\<lambda>n. case map_of m n of
                     Some c \<Rightarrow> if c \<noteq> [] then ''## '' @ n @ [CHR 0x0A] @ c @ [CHR 0x0A, CHR 0x0A] else []
                   | None \<Rightarrow> []) [''understanding'', ''plan'', ''risks'', ''notes''])
           in if length b = 0 then ''empty scratch paper'' else b))"

end
