(* ===== verification/Tool_Properties.thy ===== *)
theory Tool_Properties
  imports Tool_Files
begin

text \<open>
  The properties of the policy gate and of the file tools behind it.
\<close>

lemma edit_lookup:
  assumes "map_of fs (os_path cwd (work_path workDir path)) = Some content" "path \<noteq> []" "old \<noteq> []" "str_count content old = 1"
  shows "\<exists>pre post. content = pre @ old @ post \<and>
    edit_exec workDir cwd True WriteDone path old new fs =
      (mset_at fs (os_path cwd (work_path workDir path)) (pre @ new @ post),
       Inr (''edited '' @ work_path workDir path @ '': replaced 1 occurrence''))"
proof -
  have "str_contains content old" using str_count_contains [OF assms(3), of content] assms(4) by simp
  then obtain i where i: "str_index content old = Some i" using str_index_None [of content old] by blast
  have c: "content = take i content @ old @ drop (i + length old) content" using str_index_split [OF i] .
  show ?thesis
    by (rule exI [of _ "take i content"], rule exI [of _ "drop (i + length old) content"])
      (use c assms in \<open>simp add: edit_exec_def Let_def os_write_def replace_first_def i\<close>)
qed


abbreviation (input) plain_env :: "string \<Rightarrow> policy_env" where
  "plain_env cwd \<equiv> \<lparr>pe_home = Some ''/home/u'', pe_cwd = Some cwd, pe_evalSymlinks = Some\<rparr>"


text \<open>Environments and calls of the properties below.\<close>

definition linked_env :: policy_env where
  "linked_env = \<lparr>pe_home = Some ''/home/u'', pe_cwd = Some ''/w'',
     pe_evalSymlinks = (\<lambda>p. if p = ''/w'' \<or> p = ''/etc'' then Some p else if p = ''/w/link'' then Some ''/etc'' else None)\<rparr>"

definition path_call :: "string \<Rightarrow> tool_input" where
  "path_call p = \<lparr>ti_path = p, ti_file_path = [], ti_command = []\<rparr>"

definition path_token :: "string list \<Rightarrow> string list \<Rightarrow> capability_token" where
  "path_token denied writable = \<lparr>ct_AllowedTools = [], ct_DeniedPaths = denied, ct_WritablePaths = writable\<rparr>"

lemma policy_gaps_eval:
  "policy_check (plain_env ''/'') (path_token [] [''/work/proj'']) ''Write'' (path_call ''/work/proj-old/x'') = None"
  "\<not> path_below ''/work/proj-old/x'' ''/work/proj''"
  "policy_check linked_env (path_token [''/etc''] [''/w'']) ''Write'' (path_call ''/w/link/new/x'') = None"
  "policy_check (plain_env ''/tmp'') (path_token [''/w/.keys''] [''/tmp'']) ''Write'' (path_call ''.keys/id'') = None"
  "fst (write_exec ''/w'' ''/tmp'' True WriteDone ''.keys/id'' c fs) = mset_at fs ''/w/.keys/id'' c"
  by code_simp+

text \<open>Four ways past the gate: a sibling whose name starts like a writable tree counts as inside it; a new file two levels below a symbolic link is judged by the unresolved path; a relative path is judged from the process's directory but written below the tool's work directory, here into a denied tree; and no path of a search call is looked at.\<close>

lemma policy_gate_gaps:
  "(policy_check (plain_env ''/'') (path_token [] [''/work/proj'']) ''Write'' (path_call ''/work/proj-old/x'') = None \<and>
      \<not> path_below ''/work/proj-old/x'' ''/work/proj'') \<and>
   (pe_evalSymlinks linked_env ''/w/link'' = Some ''/etc'' \<and>
      policy_check linked_env (path_token [''/etc''] [''/w'']) ''Write'' (path_call ''/w/link/new/x'') = None) \<and>
   (policy_check (plain_env ''/tmp'') (path_token [''/w/.keys''] [''/tmp'']) ''Write'' (path_call ''.keys/id'') = None \<and>
      map_of (fst (write_exec ''/w'' ''/tmp'' True WriteDone ''.keys/id'' c fs)) ''/w/.keys/id'' = Some c) \<and>
   policy_check env (path_token denied writable) ''Grep'' inp = None"
proof -
  have "pe_evalSymlinks linked_env ''/w/link'' = Some ''/etc''" by (simp add: linked_env_def)
  moreover have "policy_check env (path_token denied writable) ''Grep'' inp = None"
    by (simp add: policy_check_def path_token_def)
  ultimately show ?thesis using policy_gaps_eval by simp
qed

text \<open>An edit that succeeds has replaced the one occurrence of the old text and nothing else; an edit that fails before it writes has changed nothing.\<close>

lemma edit_replaces_one:
  assumes "edit_exec workDir cwd read_ok out path old new fs = (fs', r)"
  shows "case r of
      Inr msg \<Rightarrow> (\<exists>content pre post. map_of fs (os_path cwd (work_path workDir path)) = Some content \<and>
         content = pre @ old @ post \<and> str_count content old = 1 \<and>
         map_of fs' = (map_of fs)(os_path cwd (work_path workDir path) \<mapsto> pre @ new @ post))
    | Inl e \<Rightarrow> (out = WriteDone \<longrightarrow> fs' = fs) \<and>
        (\<forall>q. q \<noteq> os_path cwd (work_path workDir path) \<longrightarrow> map_of fs' q = map_of fs q) \<and>
        (e = ErrNoMatch (work_path workDir path) \<longrightarrow>
           (\<exists>content. map_of fs (os_path cwd (work_path workDir path)) = Some content \<and> \<not> str_contains content old))"
proof (cases r)
  case (Inl e)
  then show ?thesis using assms
    by (auto simp: str_count_0 edit_exec_def Let_def os_write_def split: if_splits option.splits file_write.splits)
next
  case (Inr msg)
  then obtain content where c: "map_of fs (os_path cwd (work_path workDir path)) = Some content" "path \<noteq> []" "old \<noteq> []"
      "str_count content old = 1" "read_ok" "out = WriteDone"
    using assms by (auto simp: edit_exec_def Let_def os_write_def split: if_splits option.splits file_write.splits)
  from edit_lookup [OF c(1-4), of new] obtain pre post where p: "content = pre @ old @ post"
    "edit_exec workDir cwd True WriteDone path old new fs =
      (mset_at fs (os_path cwd (work_path workDir path)) (pre @ new @ post),
       Inr (''edited '' @ work_path workDir path @ '': replaced 1 occurrence''))" by blast
  then have "fs' = mset_at fs (os_path cwd (work_path workDir path)) (pre @ new @ post)"
    using assms c(5,6) by simp
  then have "map_of fs' = (map_of fs)(os_path cwd (work_path workDir path) \<mapsto> pre @ new @ post)"
    by (simp only: map_of_mset_at)
  then show ?thesis unfolding Inr sum.case using c p(1) by blast
qed

lemma edit_replaces_one_witness:
  "fst (edit_exec ''/w'' ''/'' True WriteDone ''a'' ''old'' ''new'' [(''/w/a'', ''an old one'')]) = [(''/w/a'', ''an new one'')]"
proof -
  have e: "edit_exec ''/w'' ''/'' True WriteDone ''a'' ''old'' ''new'' [(''/w/a'', ''an old one'')] =
    ([(''/w/a'', ''an new one'')], Inr ''edited /w/a: replaced 1 occurrence'')" by code_simp
  show ?thesis using edit_replaces_one [OF e] e by simp
qed

end
