(* ===== verification/Exec_Staffing.thy ===== *)
theory Exec_Staffing
  imports Go_Strings Complex_Main
begin

text \<open>
  Who may run, and in which gear (\<^verbatim>\<open>uniform/execution/gear.go\<close>, \<^verbatim>\<open>triage.go\<close>,
  \<^verbatim>\<open>capacity.go\<close>, \<^verbatim>\<open>slot.go\<close>). A gear is the string the code has, so that the
  default branches are reachable; budgets and costs are rationals.
\<close>

subsection \<open>Gears\<close>

type_synonym gear = string

definition GearNone :: gear where "GearNone = ''N''"
definition GearRead :: gear where "GearRead = ''R''"
definition GearPlan :: gear where "GearPlan = ''P''"
definition GearE0 :: gear where "GearE0 = ''E0''"
definition GearE1 :: gear where "GearE1 = ''E1''"
definition GearE2 :: gear where "GearE2 = ''E2''"
definition GearE3 :: gear where "GearE3 = ''E3''"
definition GearAuto :: gear where "GearAuto = ''A''"

lemmas gear_defs = GearNone_def GearRead_def GearPlan_def GearE0_def GearE1_def GearE2_def GearE3_def GearAuto_def

definition allGears :: "gear list" where
  "allGears = [GearNone, GearRead, GearPlan, GearE0, GearE1, GearE2, GearE3, GearAuto]"

record gear_state =
  gs_Current :: gear
  gs_Executors :: int
  gs_Support :: "string list"

definition support_plan :: "gear \<Rightarrow> string list" where
  "support_plan g =
     (if g = GearE1 then [''inspector'']
      else if g = GearE2 then [''scheduler'', ''inspector'']
      else if g = GearE3 then [''auditor'', ''scheduler'', ''inspector'']
      else [])"

definition ParseGear :: "string \<Rightarrow> string + gear" where
  "ParseGear s =
     (let upper = to_upper (trim_space s)
      in case filter (\<lambda>g. g = upper) allGears of g # _ \<Rightarrow> Inr g | [] \<Rightarrow> Inl s)"

definition gear_executors :: "gear \<Rightarrow> int" where
  "gear_executors g = (if g = GearE1 then 1 else if g = GearE2 then 2 else if g = GearE3 then 3 else 0)"

definition gear_state_with :: "(gear \<Rightarrow> string list) \<Rightarrow> gear \<Rightarrow> gear_state" where
  "gear_state_with plan g = \<lparr>gs_Current = g, gs_Executors = gear_executors g, gs_Support = plan g\<rparr>"

definition gear_state_of :: "gear \<Rightarrow> gear_state" where
  "gear_state_of g = gear_state_with support_plan g"

definition ClassifyPromptComplexity :: "string \<Rightarrow> gear" where
  "ClassifyPromptComplexity prompt =
     (let lower = to_lower prompt;
          has = (\<lambda>kws. list_ex (str_contains lower) kws)
      in if has [''overhaul'', ''rewrite'', ''migrate'', ''migration''] then GearE3
         else if has [''refactor'', ''restructure''] then
           (if has [''multiple files'', ''across'', ''all files'', ''entire'', ''codebase''] then GearE2 else GearE1)
         else if has [''implement'', ''create'', ''build'', ''add'', ''write''] then GearE1
         else if has [''fix'', ''typo'', ''rename'', ''update'', ''change'', ''tweak''] then GearE0
         else if has [''design'', ''plan'', ''spec'', ''architecture'', ''proposal''] then GearPlan
         else if length (str_fields lower) < 10 \<and> str_contains prompt ''?'' then GearRead
         else GearE0)"

subsection \<open>Triage\<close>

datatype triage_state = TriageIdle | TriageAnalyzing | TriageRouting | TriageReady

record triage_decision =
  td_State :: triage_state
  td_SuggestedGear :: gear
  td_Reason :: string

definition gearRank :: "gear \<Rightarrow> int" where
  "gearRank g =
     (if g = GearNone then 0 else if g = GearRead then 1 else if g = GearPlan then 2 else if g = GearE0 then 3
      else if g = GearE1 then 4 else if g = GearE2 then 5 else if g = GearE3 then 6 else if g = GearAuto then 3 else 0)"

definition constrainForBudget :: "gear \<Rightarrow> gear \<Rightarrow> gear" where
  "constrainForBudget suggested ceiling_gear = (if gearRank suggested > gearRank ceiling_gear then ceiling_gear else suggested)"

definition gearReason :: "gear \<Rightarrow> string" where
  "gearReason g =
     (if g = GearRead then ''short question -> R'' else if g = GearPlan then ''design/plan prompt -> P''
      else if g = GearE0 then ''small change -> E0'' else if g = GearE1 then ''implementation task -> E1''
      else if g = GearE2 then ''complex refactor -> E2'' else if g = GearE3 then ''major overhaul -> E3''
      else ''default -> '' @ g)"

definition TriagePrompt :: "string \<Rightarrow> gear \<Rightarrow> rat \<Rightarrow> triage_decision" where
  "TriagePrompt prompt currentGear budget =
     (let suggested = ClassifyPromptComplexity prompt;
          reason = gearReason suggested;
          (g, r) =
            (if budget \<le> 0 then
               (let capped = constrainForBudget suggested GearRead
                in if capped \<noteq> suggested then (capped, reason @ '' [budget exhausted, downshift to '' @ capped @ '']'')
                   else (suggested, reason))
             else if budget < 1 / 2 then
               (let capped = constrainForBudget suggested GearE0
                in if capped \<noteq> suggested then (capped, reason @ '' [low budget, capped at '' @ capped @ '']'')
                   else (suggested, reason))
             else (suggested, reason))
      in \<lparr>td_State = TriageReady, td_SuggestedGear = g, td_Reason = r\<rparr>)"

definition DotForState :: "triage_state \<Rightarrow> string" where
  "DotForState s = (case s of TriageIdle \<Rightarrow> ''green'' | TriageAnalyzing \<Rightarrow> ''yellow'' | TriageRouting \<Rightarrow> ''blue''
     | TriageReady \<Rightarrow> ''white'')"

subsection \<open>Capacity\<close>

datatype capacity_error = ErrCapacityZero | ErrCapacityNegative

record capacity =
  ac_cap :: int
  ac_running :: int

definition NewAgentCapacity :: "int \<Rightarrow> capacity" where
  "NewAgentCapacity n = \<lparr>ac_cap = (if n < 0 then 0 else n), ac_running = 0\<rparr>"

definition SetCap :: "int \<Rightarrow> capacity \<Rightarrow> capacity \<times> (capacity_error + unit)" where
  "SetCap n ac = (if n < 0 then (ac, Inl ErrCapacityNegative) else (ac\<lparr>ac_cap := n\<rparr>, Inr ()))"

definition capacity_inc :: "capacity \<Rightarrow> capacity" where
  "capacity_inc ac = ac\<lparr>ac_cap := ac_cap ac + 1\<rparr>"

definition capacity_dec :: "capacity \<Rightarrow> capacity \<times> (capacity_error + unit)" where
  "capacity_dec ac = (if ac_cap ac \<le> 0 then (ac, Inl ErrCapacityZero) else (ac\<lparr>ac_cap := ac_cap ac - 1\<rparr>, Inr ()))"

definition CanSpawn :: "capacity \<Rightarrow> bool" where
  "CanSpawn ac = (ac_running ac < ac_cap ac)"

definition Acquire :: "capacity \<Rightarrow> capacity \<times> bool" where
  "Acquire ac = (if ac_running ac \<ge> ac_cap ac then (ac, False) else (ac\<lparr>ac_running := ac_running ac + 1\<rparr>, True))"

definition Release :: "capacity \<Rightarrow> capacity" where
  "Release ac = (if ac_running ac > 0 then ac\<lparr>ac_running := ac_running ac - 1\<rparr> else ac)"

definition ExcessRunning :: "capacity \<Rightarrow> int" where
  "ExcessRunning ac = (if ac_running ac > ac_cap ac then ac_running ac - ac_cap ac else 0)"

definition capacity_string :: "capacity \<Rightarrow> string" where
  "capacity_string ac = int_dec (ac_running ac) @ ''/'' @ int_dec (ac_cap ac)"

datatype capacity_op = CapSet int | CapInc | CapDec | CapAcquire | CapRelease

fun capacity_step :: "capacity_op \<Rightarrow> capacity \<Rightarrow> capacity" where
  "capacity_step (CapSet n) ac = fst (SetCap n ac)"
| "capacity_step CapInc ac = capacity_inc ac"
| "capacity_step CapDec ac = fst (capacity_dec ac)"
| "capacity_step CapAcquire ac = fst (Acquire ac)"
| "capacity_step CapRelease ac = Release ac"

subsection \<open>Slots\<close>

record slot_budget =
  sb_MaxTokens :: int
  sb_MaxCost :: rat
  sb_MaxDuration :: int

record agent_slot =
  sl_Role :: string
  sl_Model :: string
  sl_Priority :: int
  sl_Capabilities :: "string list"
  sl_Budget :: slot_budget
  sl_SpawnOn :: "string list"

record slot_table =
  st_Slots :: "agent_slot list"
  st_Capacity :: int

definition DefaultSlotTable :: slot_table where
  "DefaultSlotTable = \<lparr>st_Slots = [\<lparr>sl_Role = ''gensec'', sl_Model = [], sl_Priority = 100,
     sl_Capabilities = [''WorkTracking'', ''SignalBroadcasting'', ''MemoryRecall''],
     sl_Budget = \<lparr>sb_MaxTokens = 0, sb_MaxCost = 0, sb_MaxDuration = 0\<rparr>, sl_SpawnOn = []\<rparr>], st_Capacity = 1\<rparr>"

definition ForRole :: "string \<Rightarrow> slot_table \<Rightarrow> agent_slot option" where
  "ForRole role t = List.find (\<lambda>s. sl_Role s = role) (st_Slots t)"

definition slot_roles :: "slot_table \<Rightarrow> string list" where
  "slot_roles t = map sl_Role (st_Slots t)"

definition swap_at :: "nat \<Rightarrow> 'a list \<Rightarrow> 'a list" where
  "swap_at j xs = xs[Suc j := xs ! j, j := xs ! Suc j]"

text \<open>The inner loop of the sort: the element at an index moves left past larger ones.\<close>

fun sink :: "agent_slot list \<Rightarrow> nat \<Rightarrow> agent_slot list" where
  "sink xs 0 = xs"
| "sink xs (Suc j) = (if sl_Priority (xs ! Suc j) < sl_Priority (xs ! j) then sink (swap_at j xs) j else xs)"

definition sort_slots :: "agent_slot list \<Rightarrow> agent_slot list" where
  "sort_slots xs = foldl sink xs [1..<length xs]"

definition KillOrder :: "int \<Rightarrow> slot_table \<Rightarrow> string list" where
  "KillOrder threshold t = map sl_Role (sort_slots (filter (\<lambda>s. sl_Priority s < threshold) (st_Slots t)))"

definition SlotsForSignal :: "string \<Rightarrow> slot_table \<Rightarrow> agent_slot list" where
  "SlotsForSignal signal t = filter (\<lambda>s. list_ex (\<lambda>x. x = signal) (sl_SpawnOn s)) (st_Slots t)"

subsection \<open>The sort is stable\<close>

lemma swap_at_append: "length ys = j \<Longrightarrow> swap_at j (ys @ a # b # rest) = ys @ b # a # rest"
  by (simp add: swap_at_def nth_append list_update_append)

lemma sink_inserts:
  "sorted (map sl_Priority ys) \<Longrightarrow> sink (ys @ x # rest) (length ys) =
     filter (\<lambda>y. sl_Priority y \<le> sl_Priority x) ys @ x # filter (\<lambda>y. sl_Priority x < sl_Priority y) ys @ rest"
proof (induction ys arbitrary: rest rule: rev_induct)
  case (snoc y ys)
  have s: "sorted (map sl_Priority ys)" "\<forall>z \<in> set ys. sl_Priority z \<le> sl_Priority y"
    using snoc.prems by (auto simp: sorted_append)
  show ?case
  proof (cases "sl_Priority x < sl_Priority y")
    case True
    have "sink ((ys @ [y]) @ x # rest) (length (ys @ [y])) = sink (ys @ x # y # rest) (length ys)"
      using True by (simp add: nth_append swap_at_append)
    then show ?thesis using snoc.IH [OF s(1), of "y # rest"] True by simp
  next
    case False
    then have "\<forall>z \<in> set ys. sl_Priority z \<le> sl_Priority x" using s(2) by auto
    moreover have "sink ((ys @ [y]) @ x # rest) (length (ys @ [y])) = (ys @ [y]) @ x # rest"
      using False by (simp add: nth_append)
    ultimately show ?thesis using False by (auto simp: filter_id_conv filter_empty_conv not_less)
  qed
qed simp

lemma insert_sort_key:
  fixes f :: "'a \<Rightarrow> 'b :: linorder"
  shows "sort_key f (ys @ [x]) = filter (\<lambda>y. f y \<le> f x) (sort_key f ys) @ x # filter (\<lambda>y. f x < f y) (sort_key f ys)"
proof (rule properties_for_sort_key)
  let ?s = "sort_key f ys"
  let ?r = "filter (\<lambda>y. f y \<le> f x) ?s @ x # filter (\<lambda>y. f x < f y) ?s"
  have m: "mset (filter (\<lambda>y. f y \<le> f x) ?s) + mset (filter (\<lambda>y. f x < f y) ?s) = mset ys"
    using multiset_partition [of "mset ?s" "\<lambda>y. f y \<le> f x"] by (simp add: not_le)
  then show "mset ?r = mset (ys @ [x])" by simp
  have "sorted (map f (filter P ?s))" for P using sorted_sort_key [of f ys] by (metis sorted_filter)
  then show "sorted (map f ?r)" by (auto simp: sorted_append)
  fix k assume "k \<in> set ?r"
  have st: "filter (\<lambda>y. f k = f y) ?s = filter (\<lambda>y. f k = f y) ys"
    using sort_key_stable [of f "f k" ys] by (metis (mono_tags, lifting) filter_cong)
  show "filter (\<lambda>y. f k = f y) ?r = filter (\<lambda>y. f k = f y) (ys @ [x])"
  proof (cases "f k \<le> f x")
    case True
    then have "filter (\<lambda>y. f k = f y) (filter (\<lambda>y. f y \<le> f x) ?s) = filter (\<lambda>y. f k = f y) ?s"
      "filter (\<lambda>y. f k = f y) (filter (\<lambda>y. f x < f y) ?s) = []"
      by (auto intro!: filter_cong simp: filter_empty_conv simp flip: not_le)
    then show ?thesis using st by (cases "f k = f x") simp_all
  next
    case False
    then have "filter (\<lambda>y. f k = f y) (filter (\<lambda>y. f y \<le> f x) ?s) = []"
      "filter (\<lambda>y. f k = f y) (filter (\<lambda>y. f x < f y) ?s) = filter (\<lambda>y. f k = f y) ?s"
      by (auto intro!: filter_cong simp: filter_empty_conv not_le)
    then show ?thesis using st False by auto
  qed
qed

lemma sort_slots_prefix:
  "n \<le> length xs \<Longrightarrow> foldl sink xs [1..<n] = sort_key sl_Priority (take n xs) @ drop n xs"
proof (induction n)
  case (Suc n)
  show ?case
  proof (cases "n = 0")
    case True
    then show ?thesis using Suc.prems by (cases xs) auto
  next
    case False
    let ?s = "sort_key sl_Priority (take n xs)"
    have l: "length ?s = n" using Suc.prems by simp
    have "foldl sink xs [1..<Suc n] = sink (foldl sink xs [1..<n]) n" using False by simp
    also have "\<dots> = sink (?s @ drop n xs) n" using Suc by simp
    also have "drop n xs = xs ! n # drop (Suc n) xs" using Suc.prems by (simp add: Cons_nth_drop_Suc)
    also have "sink (?s @ xs ! n # drop (Suc n) xs) n = sort_key sl_Priority (take n xs @ [xs ! n]) @ drop (Suc n) xs"
    proof -
      have "sorted (map sl_Priority ?s)" by (rule sorted_sort_key)
      note sink_inserts [OF this, of "xs ! n" "drop (Suc n) xs", unfolded l]
      then show ?thesis unfolding insert_sort_key by simp
    qed
    also have "take n xs @ [xs ! n] = take (Suc n) xs" using Suc.prems by (simp add: take_Suc_conv_app_nth)
    finally show ?thesis .
  qed
qed simp

lemma sort_slots_stable: "sort_slots xs = sort_key sl_Priority xs"
  using sort_slots_prefix [of "length xs" xs] by (simp add: sort_slots_def)

subsection \<open>Capacity and triage\<close>

definition capacity_ok :: "capacity \<Rightarrow> bool" where
  "capacity_ok ac = (0 \<le> ac_cap ac \<and> 0 \<le> ac_running ac)"

definition lowers_cap :: "capacity_op \<Rightarrow> bool" where
  "lowers_cap c = (case c of CapSet n \<Rightarrow> True | CapDec \<Rightarrow> True | _ \<Rightarrow> False)"

lemma capacity_step_ok: "capacity_ok ac \<Longrightarrow> capacity_ok (capacity_step c ac)"
  by (cases c) (auto simp: capacity_ok_def SetCap_def capacity_inc_def capacity_dec_def Acquire_def Release_def)

lemma capacity_run_ok: "capacity_ok ac \<Longrightarrow> capacity_ok (fold capacity_step cs ac)"
  by (induction cs arbitrary: ac) (auto intro: capacity_step_ok)

lemma capacity_new_ok: "capacity_ok (NewAgentCapacity n)"
  by (simp add: capacity_ok_def NewAgentCapacity_def)

lemma capacity_step_bound:
  assumes "ac_running ac \<le> ac_cap ac" "\<not> lowers_cap c"
  shows "ac_running (capacity_step c ac) \<le> ac_cap (capacity_step c ac)"
  using assms by (cases c) (auto simp: lowers_cap_def capacity_inc_def Acquire_def Release_def)

lemma capacity_run_bound:
  "ac_running ac \<le> ac_cap ac \<Longrightarrow> \<forall>c \<in> set cs. \<not> lowers_cap c \<Longrightarrow>
   ac_running (fold capacity_step cs ac) \<le> ac_cap (fold capacity_step cs ac)"
  by (induction cs arbitrary: ac) (auto intro: capacity_step_bound)

text \<open>An excess never grows but by lowering the capacity.\<close>

lemma excess_step:
  assumes "capacity_ok ac" "\<not> lowers_cap c" shows "ExcessRunning (capacity_step c ac) \<le> ExcessRunning ac"
  using assms by (cases c) (auto simp: lowers_cap_def ExcessRunning_def capacity_ok_def capacity_inc_def Acquire_def Release_def)

lemma constrain_rank: "gearRank (constrainForBudget g c) \<le> gearRank c"
  by (simp add: constrainForBudget_def)

lemma triage_gear:
  "td_SuggestedGear (TriagePrompt p g b) =
     (if b \<le> 0 then constrainForBudget (ClassifyPromptComplexity p) GearRead
      else if b < 1 / 2 then constrainForBudget (ClassifyPromptComplexity p) GearE0
      else ClassifyPromptComplexity p)"
  by (simp add: TriagePrompt_def Let_def)

lemma classify_valid: "ClassifyPromptComplexity p \<in> {GearE3, GearE2, GearE1, GearE0, GearPlan, GearRead}"
  by (simp add: ClassifyPromptComplexity_def Let_def)

lemma gear_ranks: "gearRank GearRead = 1" "gearRank GearE0 = 3"
  by code_simp+

lemma triage_ranks:
  "b \<le> 0 \<Longrightarrow> gearRank (td_SuggestedGear (TriagePrompt p g b)) \<le> 1"
  "b < 1 / 2 \<Longrightarrow> gearRank (td_SuggestedGear (TriagePrompt p g b)) \<le> 3"
  using constrain_rank [of "ClassifyPromptComplexity p" GearRead] constrain_rank [of "ClassifyPromptComplexity p" GearE0]
  unfolding triage_gear gear_ranks by auto

lemma parse_gear_all: "list_all (\<lambda>g. ParseGear (to_lower g) = Inr g \<and> ParseGear ('' '' @ g) = Inr g) allGears"
  by code_simp

end
