(* ===== verification/Exec_Pool.thy ===== *)
theory Exec_Pool
  imports Djinn_Prelude
begin

text \<open>
  The pool of chat drivers (\<^verbatim>\<open>uniform/execution/driver_pool.go\<close>). \<^verbatim>\<open>GetOrCreate\<close> looks
  a driver up under the mutex, makes and starts one without it, and looks again before it stores
  it; each of these is a step of its caller. A driver is a number the factory hands out once; the
  record keeps, beside the pool, where the callers are and which drivers were started and stopped.
\<close>

datatype pool_pc = Creating string | Starting string nat | Returned string nat | Failed string

record driver_pool =
  dp_drivers :: "(string, nat) gomap"
  dp_active :: string
  w_callers :: "(nat, pool_pc) gomap"
  w_made :: "nat list"
  w_started :: "nat list"
  w_stopped :: "nat list"

definition NewDriverPool :: driver_pool where
  "NewDriverPool = \<lparr>dp_drivers = [], dp_active = [], w_callers = [], w_made = [], w_started = [], w_stopped = []\<rparr>"

definition pool_key :: "string \<Rightarrow> string \<Rightarrow> string" where
  "pool_key driverName model = driverName @ ''/'' @ model"

definition goto_pc :: "nat \<Rightarrow> pool_pc \<Rightarrow> driver_pool \<Rightarrow> driver_pool" where
  "goto_pc c pc p = p\<lparr>w_callers := mset_at (w_callers p) c pc\<rparr>"

definition pool_lookup :: "nat \<Rightarrow> string \<Rightarrow> string \<Rightarrow> driver_pool \<Rightarrow> driver_pool option" where
  "pool_lookup c driverName model p =
     (let key = pool_key driverName model
      in if map_of (w_callers p) c \<noteq> None then None
         else Some (case map_of (dp_drivers p) key of
           Some d \<Rightarrow> goto_pc c (Returned key d) (p\<lparr>dp_active := key\<rparr>)
         | None \<Rightarrow> goto_pc c (Creating key) p))"

text \<open>The factory answers with a new driver or an error, and the driver starts or does not.\<close>

definition pool_create :: "nat \<Rightarrow> nat option \<Rightarrow> bool \<Rightarrow> driver_pool \<Rightarrow> driver_pool option" where
  "pool_create c made start_ok p =
     (case map_of (w_callers p) c of
        Some (Creating key) \<Rightarrow>
          (case made of
             None \<Rightarrow> Some (goto_pc c (Failed key) p)
           | Some d \<Rightarrow>
               if d \<in> set (w_made p) then None
               else let p1 = p\<lparr>w_made := d # w_made p\<rparr>
                    in Some (if start_ok then goto_pc c (Starting key d) (p1\<lparr>w_started := d # w_started p1\<rparr>)
                             else goto_pc c (Failed key) p1))
      | _ \<Rightarrow> None)"

definition pool_insert :: "nat \<Rightarrow> driver_pool \<Rightarrow> driver_pool option" where
  "pool_insert c p =
     (case map_of (w_callers p) c of
        Some (Starting key d) \<Rightarrow>
          Some (case map_of (dp_drivers p) key of
            Some existing \<Rightarrow> goto_pc c (Returned key existing) (p\<lparr>w_stopped := d # w_stopped p, dp_active := key\<rparr>)
          | None \<Rightarrow> goto_pc c (Returned key d) (p\<lparr>dp_drivers := mset_at (dp_drivers p) key d, dp_active := key\<rparr>))
      | _ \<Rightarrow> None)"

definition pool_active :: "driver_pool \<Rightarrow> nat option" where
  "pool_active p = map_of (dp_drivers p) (dp_active p)"

definition StopAll :: "driver_pool \<Rightarrow> driver_pool" where
  "StopAll p =
     (let p1 = foldl (\<lambda>p e. p\<lparr>w_stopped := snd e # w_stopped p, dp_drivers := mdelete (dp_drivers p) (fst e)\<rparr>) p (dp_drivers p)
      in p1\<lparr>dp_active := []\<rparr>)"

definition pool_count :: "driver_pool \<Rightarrow> nat" where
  "pool_count p = length (dp_drivers p)"

datatype pool_event =
  PLookup nat string string
| PCreate nat "nat option" bool
| PInsert nat
| PStopAll

fun pool_step :: "pool_event \<Rightarrow> driver_pool \<Rightarrow> driver_pool option" where
  "pool_step (PLookup c n m) p = pool_lookup c n m p"
| "pool_step (PCreate c d ok) p = pool_create c d ok p"
| "pool_step (PInsert c) p = pool_insert c p"
| "pool_step PStopAll p = Some (StopAll p)"

fun pool_run :: "pool_event list \<Rightarrow> driver_pool \<Rightarrow> driver_pool option" where
  "pool_run [] p = Some p"
| "pool_run (e # es) p = Option.bind (pool_step e p) (pool_run es)"

subsection \<open>Every started driver is in the pool, stopped, or held by its caller\<close>

fun pc_driver :: "pool_pc \<Rightarrow> nat list" where
  "pc_driver (Starting key d) = [d]"
| "pc_driver _ = []"

definition pool_ok :: "driver_pool \<Rightarrow> bool" where
  "pool_ok p =
     (wf_map (dp_drivers p) \<and> distinct (w_started p) \<and> set (w_started p) \<subseteq> set (w_made p) \<and>
      mset (w_started p) = mset (w_stopped p) + mset (vals (dp_drivers p)) + gather pc_driver (w_callers p))"

lemma goto_pc_fields [simp]:
  "dp_drivers (goto_pc c pc p) = dp_drivers p" "w_started (goto_pc c pc p) = w_started p" "w_made (goto_pc c pc p) = w_made p"
  "w_stopped (goto_pc c pc p) = w_stopped p" "w_callers (goto_pc c pc p) = mset_at (w_callers p) c pc"
  by (simp_all add: goto_pc_def)

lemma pool_lookup_ok: "pool_ok p \<Longrightarrow> pool_lookup c n m p = Some p' \<Longrightarrow> pool_ok p'"
  by (auto simp: pool_lookup_def Let_def pool_ok_def gather_new split: if_splits option.splits)

lemma pool_create_ok:
  assumes p: "pool_ok p" and s: "pool_create c made ok p = Some p'" shows "pool_ok p'"
proof -
  from s obtain key where k: "map_of (w_callers p) c = Some (Creating key)"
    by (auto simp: pool_create_def split: option.splits pool_pc.splits)
  show ?thesis using p s
    by (auto simp: pool_create_def k Let_def pool_ok_def gather_idle [OF k] split: option.splits if_splits)
qed

lemma vals_insert: "map_of m k = None \<Longrightarrow> mset (vals (mset_at m k v)) = add_mset v (mset (vals m))"
  by (induction m) (auto split: if_splits)

lemma pool_insert_ok:
  assumes p: "pool_ok p" and s: "pool_insert c p = Some p'" shows "pool_ok p'"
proof -
  from s obtain key d where k: "map_of (w_callers p) c = Some (Starting key d)"
    by (auto simp: pool_insert_def split: option.splits pool_pc.splits)
  have g: "gather pc_driver (w_callers p) = add_mset d (gather pc_driver (mset_at (w_callers p) c (Returned key x)))" for x
    using gather_busy [OF k, of pc_driver d "Returned key x"] by simp
  show ?thesis
  proof (cases "map_of (dp_drivers p) key")
    case None
    then have "p' = goto_pc c (Returned key d) (p\<lparr>dp_drivers := mset_at (dp_drivers p) key d, dp_active := key\<rparr>)"
      using s by (simp add: pool_insert_def k)
    then show ?thesis using p g [of d] vals_insert [OF None, of d] by (simp add: pool_ok_def del: map_map mset_map)
  next
    case (Some e)
    then have "p' = goto_pc c (Returned key e) (p\<lparr>w_stopped := d # w_stopped p, dp_active := key\<rparr>)"
      using s by (simp add: pool_insert_def k)
    then show ?thesis using p g [of e] by (simp add: pool_ok_def)
  qed
qed

lemma stop_all_result:
  assumes "wf_map (dp_drivers p)"
  shows "StopAll p = p\<lparr>w_stopped := rev (vals (dp_drivers p)) @ w_stopped p, dp_drivers := [], dp_active := []\<rparr>"
proof -
  let ?f = "\<lambda>p e. p\<lparr>w_stopped := snd e # w_stopped p, dp_drivers := mdelete (dp_drivers p) (fst e)\<rparr>"
  have "wf_map m \<Longrightarrow> dp_drivers q = m \<Longrightarrow>
    foldl ?f q m = q\<lparr>w_stopped := rev (vals m) @ w_stopped q, dp_drivers := []\<rparr>" for m and q :: driver_pool
  proof (induction m arbitrary: q)
    case (Cons e m)
    obtain k d where e: "e = (k, d)" by (cases e)
    have "mdelete (dp_drivers q) k = m" using Cons.prems by (simp add: e delete_id)
    then show ?case using Cons by (simp add: e)
  qed simp
  then show ?thesis using assms by (simp add: StopAll_def)
qed

lemma stop_all_ok: "pool_ok p \<Longrightarrow> pool_ok (StopAll p)"
  by (simp add: pool_ok_def stop_all_result)

lemma pool_step_ok: "pool_ok p \<Longrightarrow> pool_step e p = Some p' \<Longrightarrow> pool_ok p'"
  by (cases e) (auto intro: pool_lookup_ok pool_create_ok pool_insert_ok stop_all_ok)

lemma pool_run_ok: "pool_ok p \<Longrightarrow> pool_run es p = Some p' \<Longrightarrow> pool_ok p'"
  by (induction es arbitrary: p) (auto simp: bind_eq_Some_conv intro: pool_step_ok)

lemma pool_new_ok: "pool_ok NewDriverPool"
  by (simp add: pool_ok_def NewDriverPool_def gather_def)

text \<open>Until the pool is emptied, a key keeps its driver, and every caller was given it.\<close>

definition pool_agrees :: "driver_pool \<Rightarrow> bool" where
  "pool_agrees p = (\<forall>c key d. map_of (w_callers p) c = Some (Returned key d) \<longrightarrow> map_of (dp_drivers p) key = Some d)"

lemma pool_agrees_step:
  assumes "pool_agrees p" "pool_step e p = Some p'" "e \<noteq> PStopAll"
  shows "pool_agrees p'"
  using assms
  by (cases e) (auto simp: pool_agrees_def pool_lookup_def pool_create_def pool_insert_def Let_def
    split: if_splits option.splits pool_pc.splits)

lemma pool_agrees_run: "pool_agrees p \<Longrightarrow> pool_run es p = Some p' \<Longrightarrow> PStopAll \<notin> set es \<Longrightarrow> pool_agrees p'"
  by (induction es arbitrary: p) (auto simp: bind_eq_Some_conv intro: pool_agrees_step)

end
