(* ===== verification/Exec_Properties.thy ===== *)
theory Exec_Properties
  imports Exec_Staffing Exec_Pool
begin

text \<open>
  The properties of the execution layer: the driver pool, the agent capacity, the kill order and
  the triage of prompts.
\<close>

text \<open>Property C24: in every interleaving of callers each started driver is in the pool under one key, was stopped once, or is still held by the caller about to store it; and until the pool is emptied all callers that asked for a key were given one driver, the pool's.\<close>

theorem driver_pool_accounts:
  assumes "pool_run es NewDriverPool = Some p"
  shows "mset (w_started p) = mset (w_stopped p) + mset (vals (dp_drivers p)) + gather pc_driver (w_callers p) \<and>
    distinct (w_started p) \<and> wf_map (dp_drivers p) \<and>
    (PStopAll \<notin> set es \<longrightarrow> (\<forall>c key d. map_of (w_callers p) c = Some (Returned key d) \<longrightarrow> map_of (dp_drivers p) key = Some d))"
proof -
  have "pool_agrees NewDriverPool" by (simp add: pool_agrees_def NewDriverPool_def)
  then have "PStopAll \<notin> set es \<Longrightarrow> pool_agrees p" using assms by (blast intro: pool_agrees_run)
  then show ?thesis using pool_run_ok [OF pool_new_ok assms] unfolding pool_ok_def pool_agrees_def by blast
qed

lemma driver_pool_accounts_witness:
  "\<exists>p. pool_run [PLookup 1 ''d'' ''m'', PLookup 2 ''d'' ''m'', PCreate 1 (Some 10) True, PCreate 2 (Some 20) True,
       PInsert 2, PInsert 1] NewDriverPool = Some p \<and> w_stopped p = [10] \<and>
     mset (w_started p) = mset [10] + mset (vals (dp_drivers p)) + gather pc_driver (w_callers p)"
proof -
  let ?es = "[PLookup 1 ''d'' ''m'', PLookup 2 ''d'' ''m'', PCreate 1 (Some 10) True, PCreate 2 (Some 20) True, PInsert 2, PInsert 1]"
  obtain p where p: "pool_run ?es NewDriverPool = Some p" "w_stopped p = [10]"
    by (simp add: pool_lookup_def pool_create_def pool_insert_def pool_key_def goto_pc_def NewDriverPool_def Let_def)
  then show ?thesis using driver_pool_accounts [OF p(1)] by auto
qed

text \<open>The kill order lists the roles of the slots below the threshold by rising priority, equal priorities in the order of the file.\<close>

lemma kill_order_by_priority:
  "KillOrder threshold t = map sl_Role (sort_key sl_Priority (filter (\<lambda>s. sl_Priority s < threshold) (st_Slots t)))"
  by (simp add: KillOrder_def sort_slots_stable)

text \<open>In every run the cap and the number of running agents stay non-negative; agents exceed the cap only by lowering it, an agent is admitted exactly when one more fits, and otherwise an excess only shrinks; an exhausted budget admits no gear above reading and a low one no gear above E0.\<close>

lemma capacity_and_triage:
  assumes "capacity_ok ac"
  shows "capacity_ok (fold capacity_step cs ac) \<and>
    (ac_running ac \<le> ac_cap ac \<longrightarrow> (\<forall>c \<in> set cs. \<not> lowers_cap c) \<longrightarrow>
       ac_running (fold capacity_step cs ac) \<le> ac_cap (fold capacity_step cs ac)) \<and>
    (snd (Acquire ac) \<longleftrightarrow> CanSpawn ac) \<and> (\<not> lowers_cap c \<longrightarrow> ExcessRunning (capacity_step c ac) \<le> ExcessRunning ac) \<and>
    (b \<le> 0 \<longrightarrow> gearRank (td_SuggestedGear (TriagePrompt p g b)) \<le> gearRank GearRead) \<and>
    (b < 1 / 2 \<longrightarrow> gearRank (td_SuggestedGear (TriagePrompt p g b)) \<le> gearRank GearE0)"
proof -
  have "snd (Acquire ac) \<longleftrightarrow> CanSpawn ac" by (auto simp: Acquire_def CanSpawn_def)
  then show ?thesis
    using capacity_run_ok [OF assms] capacity_run_bound [of ac cs] excess_step [OF assms] triage_ranks [of b p g]
    by (simp add: gear_ranks)
qed

lemma capacity_and_triage_witness:
  "ac_running (fold capacity_step [CapAcquire, CapInc, CapAcquire] (NewAgentCapacity 1)) \<le> 2 \<and>
   gearRank (td_SuggestedGear (TriagePrompt ''rewrite all'' GearE3 0)) \<le> gearRank GearRead"
proof -
  have e: "NewAgentCapacity 1 = \<lparr>ac_cap = 1, ac_running = 0\<rparr>" by (simp add: NewAgentCapacity_def)
  have c: "ac_cap (fold capacity_step [CapAcquire, CapInc, CapAcquire] (NewAgentCapacity 1)) = 2"
    by (simp add: NewAgentCapacity_def Acquire_def capacity_inc_def)
  show ?thesis
    using capacity_and_triage [OF capacity_new_ok [of 1], of "[CapAcquire, CapInc, CapAcquire]" CapInc 0 "''rewrite all''" GearE3]
    unfolding c by (simp add: e lowers_cap_def)
qed

end
