(* ===== verification/Uniform_Rbac.thy ===== *)
theory Uniform_Rbac
  imports Go_Strings Graph_Walk
begin

text \<open>
  Capabilities, composable roles, tool requirements and the uniform an agent is given
  (\<^verbatim>\<open>uniform/capability.go\<close>, \<^verbatim>\<open>uniform/tool_requirements.go\<close>,
  \<^verbatim>\<open>uniform/uniform.go\<close>). A capability is the string it is in the code. The set of
  capabilities is collected in a Go map, so the order in which it is listed is the argument
  \<open>ord\<close>, a permutation.
\<close>

type_synonym capability_name = string

definition CapRead :: capability_name where "CapRead = ''read''"
definition CapWrite :: capability_name where "CapWrite = ''write''"
definition CapCode :: capability_name where "CapCode = ''code''"
definition CapVCS :: capability_name where "CapVCS = ''vcs''"
definition CapObserve :: capability_name where "CapObserve = ''observe''"
definition CapCoordinate :: capability_name where "CapCoordinate = ''coordinate''"
definition CapWork :: capability_name where "CapWork = ''work''"
definition CapShell :: capability_name where "CapShell = ''shell''"
definition CapCommunicate :: capability_name where "CapCommunicate = ''communicate''"

lemmas cap_defs = CapRead_def CapWrite_def CapCode_def CapVCS_def CapObserve_def CapCoordinate_def CapWork_def
  CapShell_def CapCommunicate_def

definition BuiltinCapabilities :: "capability_name list" where
  "BuiltinCapabilities = [CapRead, CapWrite, CapCode, CapVCS, CapObserve, CapCoordinate, CapWork, CapShell, CapCommunicate]"

subsection \<open>Roles\<close>

record role_def =
  rd_Name :: string
  rd_Composes :: "string list"
  rd_Capabilities :: "capability_name list"

type_synonym role_registry = "(string, role_def) gomap"

definition NewRoleRegistry :: "role_def list \<Rightarrow> role_registry" where
  "NewRoleRegistry defs = foldl (\<lambda>m d. mset_at m (rd_Name d) d) [] defs"

definition grant_role :: "role_registry \<Rightarrow> string \<Rightarrow> (capability_name, bool) gomap \<Rightarrow> (capability_name, bool) gomap" where
  "grant_role roles name caps =
     (case map_of roles name of None \<Rightarrow> caps | Some d \<Rightarrow> foldl (\<lambda>m c. mset_at m c True) caps (rd_Capabilities d))"

text \<open>The calls of \<^verbatim>\<open>resolve\<close> on a list of roles, with one map of the roles seen.\<close>

definition resolve_roles :: "role_registry \<Rightarrow> string list \<Rightarrow> (capability_name, bool) gomap" where
  "resolve_roles roles names = snd (walk roles rd_Composes (grant_role roles) names ([], []))"

type_synonym cap_order = "capability_name list \<Rightarrow> capability_name list"

definition Resolve :: "cap_order \<Rightarrow> role_registry \<Rightarrow> string \<Rightarrow> capability_name list" where
  "Resolve ord roles roleName = ord (keys (resolve_roles roles [roleName]))"

definition ResolvePersona :: "cap_order \<Rightarrow> role_registry \<Rightarrow> string list \<Rightarrow> capability_name list" where
  "ResolvePersona ord roles roleNames = ord (keys (resolve_roles roles roleNames))"

definition HasCapability :: "capability_name list \<Rightarrow> capability_name \<Rightarrow> bool" where
  "HasCapability caps target = list_ex (\<lambda>c. c = target) caps"

definition DefaultRoles :: "role_def list" where
  "DefaultRoles = [
     \<lparr>rd_Name = ''agent'', rd_Composes = [], rd_Capabilities = [CapCommunicate, CapWork]\<rparr>,
     \<lparr>rd_Name = ''developer'', rd_Composes = [''agent''], rd_Capabilities = [CapRead, CapWrite, CapCode, CapVCS]\<rparr>,
     \<lparr>rd_Name = ''architect'', rd_Composes = [''agent''], rd_Capabilities = [CapRead, CapCode, CapObserve, CapCoordinate]\<rparr>,
     \<lparr>rd_Name = ''qa'', rd_Composes = [''agent''], rd_Capabilities = [CapRead, CapCode]\<rparr>,
     \<lparr>rd_Name = ''operations'', rd_Composes = [''agent''], rd_Capabilities = [CapRead, CapObserve]\<rparr>,
     \<lparr>rd_Name = ''manager'', rd_Composes = [''agent''], rd_Capabilities = [CapObserve, CapCoordinate]\<rparr>,
     \<lparr>rd_Name = ''director'', rd_Composes = [''manager''], rd_Capabilities = [CapShell]\<rparr>,
     \<lparr>rd_Name = ''operator'', rd_Composes = [''developer'', ''architect'', ''qa'', ''operations''], rd_Capabilities = [CapShell]\<rparr>]"

subsection \<open>Tool requirements\<close>

type_synonym tool_requirements = "(string, capability_name list) gomap"

definition require_tool :: "string \<Rightarrow> capability_name list \<Rightarrow> tool_requirements \<Rightarrow> tool_requirements" where
  "require_tool toolName caps r = mset_at r toolName caps"

definition Requires :: "tool_requirements \<Rightarrow> string \<Rightarrow> capability_name list" where
  "Requires r toolName = mget [] r toolName"

definition cap_set :: "capability_name list \<Rightarrow> (capability_name, bool) gomap" where
  "cap_set caps = foldl (\<lambda>m c. mset_at m c True) [] caps"

definition tool_allowed :: "tool_requirements \<Rightarrow> string \<Rightarrow> capability_name list \<Rightarrow> bool" where
  "tool_allowed r toolName agentCaps =
     (let required = Requires r toolName
      in if required = [] then True
         else list_all (\<lambda>req. mget False (cap_set agentCaps) req) required)"

fun filter_loop :: "tool_requirements \<Rightarrow> (capability_name, bool) gomap \<Rightarrow> string list \<Rightarrow> string list \<Rightarrow> string list" where
  "filter_loop r capSet [] allowed = allowed"
| "filter_loop r capSet (name # names) allowed =
     (let required = Requires r name
      in if required = [] then filter_loop r capSet names (allowed @ [name])
         else if list_all (\<lambda>req. mget False capSet req) required then filter_loop r capSet names (allowed @ [name])
         else filter_loop r capSet names allowed)"

definition filter_tools :: "tool_requirements \<Rightarrow> string list \<Rightarrow> capability_name list \<Rightarrow> string list" where
  "filter_tools r toolNames agentCaps = filter_loop r (cap_set agentCaps) toolNames []"

definition DefaultToolRequirements :: tool_requirements where
  "DefaultToolRequirements = foldl (\<lambda>r (t, c). require_tool t [c] r) []
     [(''Read'', CapRead), (''Glob'', CapRead), (''Grep'', CapRead), (''Write'', CapWrite), (''Edit'', CapWrite),
      (''Symbol'', CapCode), (''Build'', CapCode), (''Test'', CapCode), (''Lint'', CapCode), (''arch'', CapCode),
      (''git'', CapVCS), (''observe'', CapObserve), (''latency'', CapObserve), (''reconcile'', CapObserve),
      (''assignment'', CapCoordinate), (''plan'', CapWork), (''Bash'', CapShell), (''discourse'', CapCommunicate),
      (''scratch_paper'', CapCommunicate), (''render'', CapCommunicate)]"

subsection \<open>The uniform\<close>

record uniform =
  un_persona :: string
  un_roles :: "string list"
  un_capabilities :: "capability_name list"
  un_tools :: "string list"
  un_denied :: "string list"
  un_mode :: string
  un_model :: string
  un_prompt :: string
  un_warnings :: "string list"

text \<open>The bytes of the dash the messages use.\<close>

definition em_dash :: string where
  "em_dash = [CHR 0xE2, CHR 0x80, CHR 0x94]"

definition NewUniform :: "cap_order \<Rightarrow> string \<Rightarrow> string list \<Rightarrow> role_registry \<Rightarrow> tool_requirements \<Rightarrow> string list \<Rightarrow>
    string \<Rightarrow> string \<Rightarrow> string \<Rightarrow> uniform" where
  "NewUniform ord persona roles registry requirements availableTools mode model prompt =
     (let caps = ResolvePersona ord registry roles;
          tools = filter_tools requirements availableTools caps;
          denied = filter (\<lambda>t. \<not> tool_allowed requirements t caps) availableTools;
          warnings1 = (if length caps = 0
            then [''no capabilities resolved for persona '' @ persona @ '' '' @ em_dash @ '' check role definitions''] else []);
          warnings2 = (if length caps > 0 \<and> length tools = 0
            then warnings1 @ [''all tools filtered out for persona '' @ persona @ '' '' @ em_dash @
                   '' no tools require only these capabilities''] else warnings1);
          warnings = foldl (\<lambda>ws r. if length (Resolve ord registry r) = 0
            then ws @ [''unknown role '' @ r @ '' for persona '' @ persona] else ws) warnings2 roles
      in \<lparr>un_persona = persona, un_roles = roles, un_capabilities = caps, un_tools = tools, un_denied = denied,
          un_mode = mode, un_model = model, un_prompt = prompt, un_warnings = warnings\<rparr>)"

definition uniform_has_capability :: "uniform \<Rightarrow> capability_name \<Rightarrow> bool" where
  "uniform_has_capability u c = HasCapability (un_capabilities u) c"

definition HasTool :: "uniform \<Rightarrow> string \<Rightarrow> bool" where
  "HasTool u name = list_ex (\<lambda>t. t = name) (un_tools u)"

definition SystemContext :: "uniform \<Rightarrow> string" where
  "SystemContext u =
     (if un_prompt u = [] \<and> length (un_tools u) = 0 then []
      else (if un_prompt u \<noteq> [] then un_prompt u @ [CHR 0x0A, CHR 0x0A] else []) @
           (if length (un_tools u) > 0
            then ''You have access to these tools: '' @
                 concat (map (\<lambda>(i, t). (if i > 0 then '', '' else []) @ t) (enumerate 0 (un_tools u))) @
                 ''.'' @ [CHR 0x0A] @ ''Do not attempt to use tools not listed above.''
            else []))"

subsection \<open>What a role gives and what a tool needs\<close>

definition own_caps :: "role_registry \<Rightarrow> string \<Rightarrow> capability_name set" where
  "own_caps roles n = (case map_of roles n of None \<Rightarrow> {} | Some d \<Rightarrow> set (rd_Capabilities d))"

definition composes :: "role_registry \<Rightarrow> (string \<times> string) set" where
  "composes roles = walk_edges roles rd_Composes"

definition persona_caps :: "role_registry \<Rightarrow> string list \<Rightarrow> capability_name set" where
  "persona_caps roles names = (\<Union>n \<in> (composes roles)\<^sup>* `` set names. own_caps roles n)"

lemma set_true: "set (keys (foldl (\<lambda>m c. mset_at m c True) m cs)) = set (keys m) \<union> set cs"
  by (induction cs arbitrary: m) auto

lemma mget_true: "mget False (foldl (\<lambda>m c. mset_at m c True) m cs) k \<longleftrightarrow> k \<in> set cs \<or> mget False m k"
  by (induction cs arbitrary: m) auto

lemma cap_set_iff: "mget False (cap_set caps) c \<longleftrightarrow> c \<in> set caps"
  by (simp add: cap_set_def mget_true) (simp add: mget_def)

lemma wf_true: "wf_map m \<Longrightarrow> wf_map (foldl (\<lambda>m c. mset_at m c True) m cs)"
  by (induction cs arbitrary: m) auto

lemma grant_role_keys: "set (keys (grant_role roles n caps)) = set (keys caps) \<union> own_caps roles n"
  unfolding grant_role_def own_caps_def by (cases "map_of roles n") (simp_all add: set_true del: set_map)

lemma grant_role_wf: "wf_map caps \<Longrightarrow> wf_map (grant_role roles n caps)"
  by (simp add: grant_role_def wf_true split: option.split)

lemma grants:
  "set (keys (foldl (\<lambda>s n. grant_role roles n s) caps ns)) = set (keys caps) \<union> (\<Union>n \<in> set ns. own_caps roles n)"
  "wf_map caps \<Longrightarrow> wf_map (foldl (\<lambda>s n. grant_role roles n s) caps ns)"
  by (induction ns arbitrary: caps) (simp_all add: grant_role_keys grant_role_wf Un_assoc del: set_map)

lemma resolve_roles_keys: "set (keys (resolve_roles roles names)) = persona_caps roles names"
  unfolding resolve_roles_def walk_reaches(3) grants(1) set_rev walk_reaches(2) persona_caps_def composes_def by simp

lemma resolve_roles_wf: "wf_map (resolve_roles roles names)"
  unfolding resolve_roles_def walk_reaches(3) by (rule grants(2)) simp

lemma resolve_persona_set:
  assumes "\<And>xs. mset (ord xs) = mset xs"
  shows "set (ResolvePersona ord roles names) = persona_caps roles names" "distinct (ResolvePersona ord roles names)"
proof -
  have "set (ord xs) = set xs" for xs using assms [of xs] mset_eq_setD by blast
  then show "set (ResolvePersona ord roles names) = persona_caps roles names"
    unfolding ResolvePersona_def using resolve_roles_keys by simp
  show "distinct (ResolvePersona ord roles names)"
    unfolding ResolvePersona_def using assms resolve_roles_wf mset_eq_imp_distinct_iff by metis
qed

lemma tool_allowed_iff: "tool_allowed r t caps \<longleftrightarrow> set (Requires r t) \<subseteq> set caps"
  by (auto simp: tool_allowed_def Let_def list_all_iff cap_set_iff)

lemma filter_loop_eq: "filter_loop r (cap_set caps) ts acc = acc @ filter (\<lambda>t. tool_allowed r t caps) ts"
  by (induction ts arbitrary: acc) (simp_all add: tool_allowed_def Let_def)

lemma filter_tools_eq: "filter_tools r ts caps = filter (\<lambda>t. tool_allowed r t caps) ts"
  by (simp add: filter_tools_def filter_loop_eq)

lemma persona_caps_mono: "set names \<subseteq> set names' \<Longrightarrow> persona_caps roles names \<subseteq> persona_caps roles names'"
  unfolding persona_caps_def by (intro UN_mono Image_mono) auto

lemma persona_caps_union: "persona_caps roles names = (\<Union>n \<in> set names. persona_caps roles [n])"
  unfolding persona_caps_def by auto

text \<open>The capabilities of a role are its own and those of the roles it composes.\<close>

lemma persona_caps_step: "persona_caps roles [n] = own_caps roles n \<union> persona_caps roles (succs_of roles rd_Composes n)"
proof -
  have "(composes roles)\<^sup>* `` {n} = {n} \<union> (composes roles)\<^sup>* `` set (succs_of roles rd_Composes n)"
    by (auto simp: composes_def walk_edges_def elim: converse_rtranclE intro: converse_rtrancl_into_rtrancl)
  then show ?thesis by (simp add: persona_caps_def)
qed

lemma unknown_warnings: "foldl (\<lambda>ws r. if P r then ws @ [f r] else ws) ws rs = ws @ map f (filter P rs)"
  by (induction rs arbitrary: ws) simp_all

lemma tools_text: "concat (map (\<lambda>(i, t). (if i > 0 then '', '' else []) @ t) (enumerate k ts)) =
    (if k > 0 \<and> ts \<noteq> [] then '', '' else []) @ str_join ts '', ''"
proof (induction ts arbitrary: k)
  case (Cons t ts)
  then show ?case by (cases ts) simp_all
qed simp

lemma default_caps_eval:
  "map (\<lambda>d. (rd_Name d, keys (resolve_roles (NewRoleRegistry DefaultRoles) [rd_Name d]))) DefaultRoles =
   [(''agent'', [CapCommunicate, CapWork]),
    (''developer'', [CapRead, CapWrite, CapCode, CapVCS, CapCommunicate, CapWork]),
    (''architect'', [CapRead, CapCode, CapObserve, CapCoordinate, CapCommunicate, CapWork]),
    (''qa'', [CapRead, CapCode, CapCommunicate, CapWork]),
    (''operations'', [CapRead, CapObserve, CapCommunicate, CapWork]),
    (''manager'', [CapObserve, CapCoordinate, CapCommunicate, CapWork]),
    (''director'', [CapShell, CapObserve, CapCoordinate, CapCommunicate, CapWork]),
    (''operator'', [CapShell, CapRead, CapWrite, CapCode, CapVCS, CapCommunicate, CapWork, CapObserve, CapCoordinate])]"
  by code_simp

end
