(* ===== verification/Uniform_Staff.thy ===== *)
theory Uniform_Staff
  imports Go_Strings Go_Paths Exec_Staffing Uniform_Rbac
begin

text \<open>
  The staff: its configuration, the clearance of its roles, the pipeline and the assignments
  (\<^verbatim>\<open>uniform/role.go\<close>, \<^verbatim>\<open>uniform/clearance.go\<close>, \<^verbatim>\<open>uniform/scheduler.go\<close>,
  \<^verbatim>\<open>uniform/operation.go\<close>, \<^verbatim>\<open>uniform/assignment.go\<close>, the role manager of
  \<^verbatim>\<open>uniform/ports.go\<close>, \<^verbatim>\<open>uniform/gates.go\<close>, \<^verbatim>\<open>uniform/persona\<close>). The files a
  configuration refers to are the argument \<open>read_file\<close>; the YAML reader is the argument
  \<open>parse\<close>.
\<close>

subsection \<open>Configuration\<close>

record staff_role =
  ro_Name :: string
  ro_Prompt :: string
  ro_Mode :: string
  ro_ToolCapabilities :: "string list"
  ro_Model :: string

record tool_capability =
  tc_Name :: string
  tc_Description :: string
  tc_Backend :: string
  tc_Tools :: "string list"

record staff_config =
  sc_Roles :: "staff_role list"
  sc_ToolCapabilities :: "tool_capability list"
  sc_ToolCategories :: "(string, string list) gomap"

datatype staff_error =
  ErrRoleCapability string string
| ErrCategoryCapability string string
| ErrRoleNotFound
| ErrToolNotAllowed string string

text \<open>A list as a map by name: the last of the same name stays.\<close>

definition by_name :: "('a \<Rightarrow> string) \<Rightarrow> 'a list \<Rightarrow> (string, 'a) gomap" where
  "by_name name xs = foldl (\<lambda>m x. mset_at m (name x) x) [] xs"

definition RoleMap :: "staff_config \<Rightarrow> (string, staff_role) gomap" where
  "RoleMap c = by_name ro_Name (sc_Roles c)"

definition ToolCapabilityMap :: "staff_config \<Rightarrow> (string, tool_capability) gomap" where
  "ToolCapabilityMap c = by_name tc_Name (sc_ToolCapabilities c)"

definition RoleNames :: "staff_config \<Rightarrow> string list" where
  "RoleNames c = sort (map ro_Name (sc_Roles c))"

definition mcp_form :: "string \<Rightarrow> string \<Rightarrow> string" where
  "mcp_form backend toolName = ''mcp__'' @ backend @ ''__'' @ toolName"

definition exposed_tools :: "tool_capability \<Rightarrow> string list" where
  "exposed_tools tc = concat (map (\<lambda>t. t # (if tc_Backend tc \<noteq> [] \<and> tc_Backend tc \<noteq> ''builtin''
     then [mcp_form (tc_Backend tc) t] else [])) (tc_Tools tc))"

definition ResolveToolNames :: "staff_config \<Rightarrow> string list \<Rightarrow> string list" where
  "ResolveToolNames c capNames =
     (let capMap = ToolCapabilityMap c
      in foldl (\<lambda>tools name. case map_of capMap name of None \<Rightarrow> tools | Some tc \<Rightarrow> tools @ exposed_tools tc) [] capNames)"

fun validate_caps :: "(string, tool_capability) gomap \<Rightarrow> (string \<Rightarrow> staff_error) \<Rightarrow> string list \<Rightarrow> staff_error option" where
  "validate_caps capMap err [] = None"
| "validate_caps capMap err (c # cs) = (if map_of capMap c = None then Some (err c) else validate_caps capMap err cs)"

fun validate_roles :: "(string, tool_capability) gomap \<Rightarrow> staff_role list \<Rightarrow> staff_error option" where
  "validate_roles capMap [] = None"
| "validate_roles capMap (r # rs) =
     (case validate_caps capMap (ErrRoleCapability (ro_Name r)) (ro_ToolCapabilities r) of
        Some e \<Rightarrow> Some e | None \<Rightarrow> validate_roles capMap rs)"

fun validate_categories :: "(string, tool_capability) gomap \<Rightarrow> (string, string list) gomap \<Rightarrow> staff_error option" where
  "validate_categories capMap [] = None"
| "validate_categories capMap ((stage, caps) # cats) =
     (case validate_caps capMap (ErrCategoryCapability stage) caps of
        Some e \<Rightarrow> Some e | None \<Rightarrow> validate_categories capMap cats)"

definition Validate :: "staff_config \<Rightarrow> staff_error option" where
  "Validate c =
     (let capMap = ToolCapabilityMap c
      in case validate_roles capMap (sc_Roles c) of
           Some e \<Rightarrow> Some e | None \<Rightarrow> validate_categories capMap (sc_ToolCategories c))"

text \<open>The first entry of the same name is replaced; without one the entry is appended.\<close>

fun replace_named :: "('a \<Rightarrow> string) \<Rightarrow> 'a \<Rightarrow> 'a list \<Rightarrow> 'a list \<times> bool" where
  "replace_named name x [] = ([], False)"
| "replace_named name x (y # ys) =
     (if name y = name x then (x # ys, True) else (case replace_named name x ys of (zs, found) \<Rightarrow> (y # zs, found)))"

definition overlay_one :: "('a \<Rightarrow> string) \<Rightarrow> 'a list \<Rightarrow> 'a \<Rightarrow> 'a list" where
  "overlay_one name res x = (case replace_named name x res of (ys, found) \<Rightarrow> if found then ys else ys @ [x])"

definition overlay_named :: "('a \<Rightarrow> string) \<Rightarrow> 'a list \<Rightarrow> 'a list \<Rightarrow> 'a list" where
  "overlay_named name base over =
     foldl (overlay_one name) base over"

definition MergeConfig :: "staff_config \<Rightarrow> staff_config \<Rightarrow> staff_config" where
  "MergeConfig base over =
     \<lparr>sc_Roles = overlay_named ro_Name (sc_Roles base) (sc_Roles over),
      sc_ToolCapabilities = overlay_named tc_Name (sc_ToolCapabilities base) (sc_ToolCapabilities over),
      sc_ToolCategories = foldl (\<lambda>m (k, v). mset_at m k v)
        (foldl (\<lambda>m (k, v). mset_at m k v) [] (sc_ToolCategories base)) (sc_ToolCategories over)\<rparr>"

definition resolvePrompt :: "(string \<Rightarrow> bytes option) \<Rightarrow> string \<Rightarrow> string \<Rightarrow> string" where
  "resolvePrompt read_file baseDir prompt =
     (if prompt = [] then []
      else if CHR 0x0A \<in> set prompt then prompt
      else let path = (if is_rooted prompt then prompt else path_join [baseDir, prompt])
           in case read_file path of None \<Rightarrow> prompt | Some d \<Rightarrow> d)"

definition LoadConfig :: "(string \<Rightarrow> bytes option) \<Rightarrow> (bytes \<Rightarrow> staff_config option) \<Rightarrow> string \<Rightarrow> staff_config option" where
  "LoadConfig read_file parse path =
     Option.bind (read_file path) (\<lambda>data. Option.bind (parse data) (\<lambda>cfg.
       Some (cfg\<lparr>sc_Roles := map (\<lambda>r. r\<lparr>ro_Prompt := resolvePrompt read_file (path_dir path) (ro_Prompt r)\<rparr>) (sc_Roles cfg)\<rparr>)))"

definition defaultPrompt :: "string \<Rightarrow> string" where
  "defaultPrompt role =
     (case map_of [
        (''gensec'', ''You are the General Secretary '' @ em_dash @ '' second in command. Respond conversationally to greetings and questions. Only capture needs when the operator expresses one (I need X, fix Y, add Z). You do NOT write code or call tools.''),
        (''auditor'', ''You are the Auditor '' @ em_dash @ '' adversarial quality gate. Review artifacts, find gaps, challenge assumptions. Stamp or return. You do NOT write code.''),
        (''scheduler'', ''You are the Scheduler '' @ em_dash @ '' work planner. Read specs, analyze coupling, construct task batches with dependency edges. You do NOT write code.''),
        (''executor'', ''You are the Executor '' @ em_dash @ '' the one who writes code. Implement the assigned task, follow acceptance criteria, write tests, signal done when complete.''),
        (''inspector'', ''You are the Inspector '' @ em_dash @ '' quality reviewer. Review implementation against spec and architecture. Approve or reject with specific feedback. You do NOT write code.'')] role of
        Some p \<Rightarrow> p | None \<Rightarrow> ''You are the '' @ role @ ''.'')"

definition default_role :: "string \<Rightarrow> string \<Rightarrow> string list \<Rightarrow> staff_role" where
  "default_role n mode caps = \<lparr>ro_Name = n, ro_Prompt = defaultPrompt n, ro_Mode = mode, ro_ToolCapabilities = caps, ro_Model = []\<rparr>"

definition DefaultConfig :: staff_config where
  "DefaultConfig = \<lparr>
     sc_Roles = [
       default_role ''gensec'' ''plan'' [''WorkTracking'', ''IssueTracking'', ''SignalBroadcasting'', ''MemoryRecall''],
       default_role ''auditor'' ''plan'' [''WorkTracking'', ''RuleResolution'', ''MemoryRecall''],
       default_role ''scheduler'' ''plan'' [''WorkTracking'', ''ArchitectureAnalysis'', ''MemoryRecall''],
       default_role ''executor'' ''agent'' [''WorkTracking'', ''FileEditing'', ''ShellExecution'', ''FileSearching'',
         ''QualityGating'', ''MemoryRecall'', ''WebSearching''],
       default_role ''inspector'' ''plan'' [''FileEditing'', ''QualityGating'', ''ArchitectureAnalysis'', ''RuleResolution'', ''MemoryRecall'']],
     sc_ToolCapabilities = [
       \<lparr>tc_Name = ''WorkTracking'', tc_Description = ''Create, list, update work artifacts and dependency graphs'', tc_Backend = ''scribe'', tc_Tools = [''artifact'', ''graph'', ''admin'']\<rparr>,
       \<lparr>tc_Name = ''IssueTracking'', tc_Description = ''Issue management across platforms'', tc_Backend = ''emcee'', tc_Tools = [''emcee'', ''emcee_manage'']\<rparr>,
       \<lparr>tc_Name = ''RuleResolution'', tc_Description = ''Resolve coding rules and conventions'', tc_Backend = ''lex'', tc_Tools = [''lexicon'']\<rparr>,
       \<lparr>tc_Name = ''ArchitectureAnalysis'', tc_Description = ''Architecture analysis, coupling, and dependency graphs'', tc_Backend = ''locus'', tc_Tools = [''codograph'', ''analysis'']\<rparr>,
       \<lparr>tc_Name = ''FileEditing'', tc_Description = ''Read, write, and edit source files in the workspace'', tc_Backend = ''builtin'', tc_Tools = [''Read'', ''Write'', ''Edit'']\<rparr>,
       \<lparr>tc_Name = ''ShellExecution'', tc_Description = ''Execute shell commands'', tc_Backend = ''builtin'', tc_Tools = [''Bash'']\<rparr>,
       \<lparr>tc_Name = ''FileSearching'', tc_Description = ''Find files by pattern and search content by regex'', tc_Backend = ''builtin'', tc_Tools = [''Glob'', ''Grep'']\<rparr>,
       \<lparr>tc_Name = ''QualityGating'', tc_Description = ''CI health, test results, and quality checks'', tc_Backend = ''limes'', tc_Tools = [''run'', ''status'', ''results'']\<rparr>,
       \<lparr>tc_Name = ''SignalBroadcasting'', tc_Description = ''Emit and receive pipeline signals'', tc_Backend = ''builtin'', tc_Tools = []\<rparr>,
       \<lparr>tc_Name = ''MemoryRecall'', tc_Description = ''Search and retrieve conversation history'', tc_Backend = ''builtin'', tc_Tools = []\<rparr>,
       \<lparr>tc_Name = ''WebSearching'', tc_Description = ''Web search and page retrieval'', tc_Backend = ''gundog'', tc_Tools = []\<rparr>],
     sc_ToolCategories = [
       (''plan'', [''WorkTracking'', ''IssueTracking'', ''RuleResolution'', ''MemoryRecall'']),
       (''code'', [''ArchitectureAnalysis'', ''FileEditing'', ''FileSearching'', ''WebSearching'']),
       (''build'', [''ShellExecution'']), (''test'', [''QualityGating'']), (''release'', []), (''deploy'', []),
       (''operate'', []), (''monitor'', [''SignalBroadcasting''])]\<rparr>"

definition LoadConfigChain :: "(string \<Rightarrow> bytes option) \<Rightarrow> (bytes \<Rightarrow> staff_config option) \<Rightarrow> string list \<Rightarrow> staff_config" where
  "LoadConfigChain read_file parse paths =
     foldl (\<lambda>base path. case LoadConfig read_file parse path of None \<Rightarrow> base | Some over \<Rightarrow> MergeConfig base over)
       DefaultConfig paths"

subsection \<open>Clearance\<close>

text \<open>The tools of the executor behind the clearance are the argument \<open>backend\<close>.\<close>

record tool_clearance =
  cl_config :: staff_config
  cl_role :: string
  cl_allowed :: "(string, bool) gomap"

definition allow_capability :: "(string, tool_capability) gomap \<Rightarrow> (string, bool) gomap \<Rightarrow> string \<Rightarrow> (string, bool) gomap" where
  "allow_capability capMap allowed capName =
     (case map_of capMap capName of
        None \<Rightarrow> allowed
      | Some tc \<Rightarrow> foldl (\<lambda>m toolName.
          let m1 = mset_at m toolName True
          in if tc_Backend tc \<noteq> [] \<and> tc_Backend tc \<noteq> ''builtin''
             then mset_at m1 (mcp_form (tc_Backend tc) toolName) True else m1) allowed (tc_Tools tc))"

definition SetRole :: "string \<Rightarrow> tool_clearance \<Rightarrow> tool_clearance" where
  "SetRole role r =
     (let r1 = r\<lparr>cl_role := role, cl_allowed := []\<rparr>
      in case map_of (RoleMap (cl_config r)) role of
           None \<Rightarrow> r1
         | Some roleDef \<Rightarrow> r1\<lparr>cl_allowed :=
             foldl (allow_capability (ToolCapabilityMap (cl_config r))) [] (ro_ToolCapabilities roleDef)\<rparr>)"

definition NewToolClearance :: "staff_config \<Rightarrow> string \<Rightarrow> tool_clearance" where
  "NewToolClearance cfg initialRole = SetRole initialRole \<lparr>cl_config = cfg, cl_role = [], cl_allowed = []\<rparr>"

definition clearance_execute :: "(string \<Rightarrow> 's \<Rightarrow> 's \<times> 'r) \<Rightarrow> string \<Rightarrow> tool_clearance \<Rightarrow> 's \<Rightarrow> 's \<times> (staff_error + 'r)" where
  "clearance_execute exec name r s =
     (if \<not> mget False (cl_allowed r) name then (s, Inl (ErrToolNotAllowed name (cl_role r)))
      else (case exec name s of (s', x) \<Rightarrow> (s', Inr x)))"

definition clearance_all :: "string list \<Rightarrow> tool_clearance \<Rightarrow> string list" where
  "clearance_all backend r = filter (\<lambda>t. mget False (cl_allowed r) t) backend"

definition clearance_names :: "string list \<Rightarrow> tool_clearance \<Rightarrow> string list" where
  "clearance_names backend r = map (\<lambda>t. t) (clearance_all backend r)"

subsection \<open>The role manager\<close>

record role_manager =
  rm_roles :: "(string, staff_role) gomap"
  rm_current :: string

definition NewPromptRoleManager :: "staff_config \<Rightarrow> role_manager" where
  "NewPromptRoleManager cfg = \<lparr>rm_roles = RoleMap cfg, rm_current = ''gensec''\<rparr>"

definition switch_role :: "string \<Rightarrow> role_manager \<Rightarrow> role_manager \<times> (staff_error + unit)" where
  "switch_role role m =
     (if map_of (rm_roles m) role = None then (m, Inl ErrRoleNotFound) else (m\<lparr>rm_current := role\<rparr>, Inr ()))"

definition current_role :: "role_manager \<Rightarrow> staff_role" where
  "current_role m = mget \<lparr>ro_Name = [], ro_Prompt = [], ro_Mode = [], ro_ToolCapabilities = [], ro_Model = []\<rparr> (rm_roles m) (rm_current m)"

definition available_roles :: "role_manager \<Rightarrow> staff_role list" where
  "available_roles m = vals (rm_roles m)"

subsection \<open>Pipeline and operations\<close>

datatype pipeline_signal =
  SignalPromptReceived | SignalNeedCaptured | SignalSpecStamped | SignalTasksPlanned | SignalExecutorDone
| SignalGatePassed | SignalGateFailed | SignalInspectorApproved | SignalInspectorRejected

record transition =
  tr_Signal :: pipeline_signal
  tr_FromRole :: string
  tr_ToRole :: string

definition DefaultFallbackRole :: string where
  "DefaultFallbackRole = ''gensec''"

definition any_transition :: "pipeline_signal \<Rightarrow> string \<Rightarrow> transition" where
  "any_transition s role = \<lparr>tr_Signal = s, tr_FromRole = [], tr_ToRole = role\<rparr>"

definition DefaultTransitions :: "transition list" where
  "DefaultTransitions =
     [any_transition SignalPromptReceived DefaultFallbackRole, any_transition SignalNeedCaptured ''auditor'',
      any_transition SignalSpecStamped ''scheduler'', any_transition SignalTasksPlanned ''executor'',
      any_transition SignalExecutorDone [], any_transition SignalGatePassed ''inspector'',
      any_transition SignalGateFailed ''executor'', any_transition SignalInspectorApproved DefaultFallbackRole,
      any_transition SignalInspectorRejected ''executor'']"

definition NextRole :: "pipeline_signal \<Rightarrow> transition list option \<Rightarrow> string" where
  "NextRole sig transitions =
     (let table = (case transitions of None \<Rightarrow> DefaultTransitions | Some t \<Rightarrow> t)
      in case List.find (\<lambda>t. tr_Signal t = sig) table of Some t \<Rightarrow> tr_ToRole t | None \<Rightarrow> DefaultFallbackRole)"

type_synonym operation = string

definition OpAsk :: operation where "OpAsk = ''ask''"
definition OpPlan :: operation where "OpPlan = ''plan''"
definition OpAgent :: operation where "OpAgent = ''agent''"

definition ParseOperation :: "string \<Rightarrow> (operation \<times> bool)" where
  "ParseOperation s = (case List.find (\<lambda>op. op = s) [OpAsk, OpPlan, OpAgent] of Some op \<Rightarrow> (op, True) | None \<Rightarrow> ([], False))"

definition IsInterrupting :: "operation \<Rightarrow> bool" where "IsInterrupting op = (op = OpAgent)"
definition IsCascading :: "operation \<Rightarrow> bool" where "IsCascading op = (op = OpPlan)"

definition next_operation :: "operation \<Rightarrow> operation" where
  "next_operation op = (if op = OpAsk then OpPlan else if op = OpPlan then OpAgent else OpAsk)"

definition DefaultOperation :: operation where "DefaultOperation = OpAgent"

subsection \<open>Maps by name\<close>

lemma by_name_Nil [simp]: "by_name name [] = []"
  by (simp add: by_name_def)

lemma by_name_snoc [simp]: "by_name name (xs @ [x]) = mset_at (by_name name xs) (name x) x"
  by (simp add: by_name_def)

lemma by_name_append: "map_of (by_name name (xs @ ys)) = map_of (by_name name xs) ++ map_of (by_name name ys)"
proof (induction ys rule: rev_induct)
  case (snoc y ys)
  have "by_name name (xs @ ys @ [y]) = mset_at (by_name name (xs @ ys)) (name y) y"
    using by_name_snoc [of name "xs @ ys" y] by simp
  then show ?case using snoc by (simp only: by_name_snoc map_of_mset_at map_add_upd append_assoc)
qed simp

lemma by_name_Cons: "map_of (by_name name (x # xs)) = [name x \<mapsto> x] ++ map_of (by_name name xs)"
  using by_name_append [of name "[x]" xs] by_name_snoc [of name "[]" x] by simp

lemma by_name_dom: "dom (map_of (by_name name xs)) = name ` set xs"
proof (induction xs rule: rev_induct)
  case (snoc x xs)
  then show ?case by (simp only: by_name_snoc map_of_mset_at dom_fun_upd) simp
qed simp

lemma by_name_mem: "map_of (by_name name xs) n = Some x \<Longrightarrow> x \<in> set xs \<and> name x = n"
proof (induction xs rule: rev_induct)
  case (snoc y xs)
  then show ?case by (auto split: if_splits)
qed simp

lemma replace_named_found: "snd (replace_named name x ys) \<longleftrightarrow> name x \<in> name ` set ys"
  by (induction ys) (auto split: prod.splits)

lemma replace_named_names: "map name (fst (replace_named name x ys)) = map name ys"
  by (induction ys) (auto split: prod.splits)

lemma replace_named_set: "set (fst (replace_named name x ys)) \<subseteq> insert x (set ys)"
  by (induction ys) (auto split: prod.splits)

lemma replace_named_lookup:
  "distinct (map name ys) \<Longrightarrow> name x \<in> name ` set ys \<Longrightarrow>
   map_of (by_name name (fst (replace_named name x ys))) = (map_of (by_name name ys))(name x \<mapsto> x)"
proof (induction ys)
  case (Cons y ys)
  show ?case
  proof (cases "name y = name x")
    case True
    then have "name x \<notin> dom (map_of (by_name name ys))" using Cons.prems by (simp add: by_name_dom)
    then show ?thesis using True unfolding by_name_Cons by (auto simp: by_name_Cons map_add_def fun_eq_iff split: option.split)
  next
    case False
    then have "map_of (by_name name (fst (replace_named name x ys))) = (map_of (by_name name ys))(name x \<mapsto> x)"
      using Cons by auto
    then show ?thesis using False by (simp add: by_name_Cons case_prod_beta)
  qed
qed simp

lemma overlay_one_props:
  "name ` set (overlay_one name res x) = insert (name x) (name ` set res)"
  "set (overlay_one name res x) \<subseteq> insert x (set res)"
  "distinct (map name res) \<Longrightarrow> distinct (map name (overlay_one name res x))"
proof -
  have n: "name ` set (fst (replace_named name x res)) = name ` set res"
    using arg_cong [OF replace_named_names [of name x res], of set] by simp
  obtain ys found where r: "replace_named name x res = (ys, found)" by force
  have f: "found \<longleftrightarrow> name x \<in> name ` set res" "map name ys = map name res" "set ys \<subseteq> insert x (set res)"
    "name ` set ys = name ` set res"
    using replace_named_found [of name x res] replace_named_names [of name x res] replace_named_set [of name x res] n
    by (simp_all add: r)
  have o: "overlay_one name res x = (if found then ys else ys @ [x])" by (simp add: overlay_one_def r)
  show "name ` set (overlay_one name res x) = insert (name x) (name ` set res)"
    unfolding o using f(1,4) by auto
  show "set (overlay_one name res x) \<subseteq> insert x (set res)" unfolding o using f(3) by auto
  show "distinct (map name (overlay_one name res x))" if "distinct (map name res)"
  proof (cases found)
    case True
    then show ?thesis unfolding o using that f(2) by simp
  next
    case False
    then have "name x \<notin> name ` set ys" using f(1,4) by blast
    moreover have "distinct (map name ys)" unfolding f(2) by (rule that)
    ultimately show ?thesis unfolding o using False by simp
  qed
qed

lemma overlay_one_lookup:
  assumes d: "distinct (map name res)"
  shows "map_of (by_name name (overlay_one name res x)) = (map_of (by_name name res))(name x \<mapsto> x)"
proof (cases "name x \<in> name ` set res")
  case True
  then show ?thesis using replace_named_lookup [OF d True] replace_named_found [of name x res]
    by (simp add: overlay_one_def case_prod_beta)
next
  case False
  have "fst (replace_named name x ys) = ys" if "name x \<notin> name ` set ys" for ys
    using that by (induction ys) (auto split: prod.splits)
  then show ?thesis using False replace_named_found [of name x res]
    by (simp add: overlay_one_def case_prod_beta by_name_append)
qed

lemma overlay_names: "name ` set (overlay_named name base over) = name ` set base \<union> name ` set over"
  unfolding overlay_named_def by (induction over arbitrary: base) (auto simp: overlay_one_props(1))

lemma overlay_set: "set (overlay_named name base over) \<subseteq> set base \<union> set over"
  unfolding overlay_named_def
proof (induction over arbitrary: base)
  case (Cons x over)
  have "set (foldl (overlay_one name) (overlay_one name base x) over) \<subseteq> set (overlay_one name base x) \<union> set over"
    by (rule Cons.IH)
  moreover have "set (overlay_one name base x) \<subseteq> insert x (set base)" by (rule overlay_one_props(2))
  ultimately show ?case unfolding foldl_Cons list.set by blast
qed simp

lemma overlay_distinct: "distinct (map name base) \<Longrightarrow> distinct (map name (overlay_named name base over))"
  unfolding overlay_named_def by (induction over arbitrary: base) (simp_all only: foldl.simps overlay_one_props(3))

lemma overlay_lookup:
  "distinct (map name base) \<Longrightarrow>
   map_of (by_name name (overlay_named name base over)) = map_of (by_name name base) ++ map_of (by_name name over)"
  unfolding overlay_named_def
proof (induction over arbitrary: base)
  case (Cons x over)
  have "map_of (by_name name (foldl (overlay_one name) (overlay_one name base x) over)) =
      map_of (by_name name (overlay_one name base x)) ++ map_of (by_name name over)"
    by (rule Cons.IH [OF overlay_one_props(3) [OF Cons.prems]])
  then show ?case unfolding overlay_one_lookup [OF Cons.prems] by (simp add: by_name_Cons fun_eq_iff map_add_def split: option.split)
qed simp

subsection \<open>Validity and clearance\<close>

lemma validate_caps_None: "validate_caps m f cs = None \<longleftrightarrow> set cs \<subseteq> dom (map_of m)"
  by (induction cs) auto

lemma validate_roles_None: "validate_roles m rs = None \<longleftrightarrow> (\<forall>r \<in> set rs. set (ro_ToolCapabilities r) \<subseteq> dom (map_of m))"
proof (induction rs)
  case (Cons r rs)
  have "validate_roles m (r # rs) = None \<longleftrightarrow>
      validate_caps m (ErrRoleCapability (ro_Name r)) (ro_ToolCapabilities r) = None \<and> validate_roles m rs = None"
    by (simp split: option.split)
  then show ?case unfolding Cons.IH validate_caps_None by simp
qed simp

lemma validate_categories_None: "validate_categories m cats = None \<longleftrightarrow> (\<forall>v \<in> set (vals cats). set v \<subseteq> dom (map_of m))"
proof (induction cats)
  case (Cons c cats)
  obtain stage caps where c: "c = (stage, caps)" by force
  have "validate_categories m (c # cats) = None \<longleftrightarrow>
      validate_caps m (ErrCategoryCapability stage) caps = None \<and> validate_categories m cats = None"
    by (simp add: c split: option.split)
  then show ?case unfolding Cons.IH validate_caps_None by (simp add: c)
qed simp

lemma validate_None:
  "Validate c = None \<longleftrightarrow>
     (\<forall>r \<in> set (sc_Roles c). set (ro_ToolCapabilities r) \<subseteq> tc_Name ` set (sc_ToolCapabilities c)) \<and>
     (\<forall>v \<in> set (vals (sc_ToolCategories c)). set v \<subseteq> tc_Name ` set (sc_ToolCapabilities c))"
proof -
  have "Validate c = None \<longleftrightarrow> validate_roles (ToolCapabilityMap c) (sc_Roles c) = None \<and>
      validate_categories (ToolCapabilityMap c) (sc_ToolCategories c) = None"
    by (simp add: Validate_def Let_def split: option.split)
  then show ?thesis
    unfolding validate_roles_None validate_categories_None by (simp only: ToolCapabilityMap_def by_name_dom)
qed

lemma vals_merge: "set (vals (foldl (\<lambda>m (k, v). mset_at m k v) m kvs)) \<subseteq> set (vals m) \<union> set (vals kvs)"
proof (induction kvs arbitrary: m)
  case (Cons kv kvs)
  obtain k v where kv: "kv = (k, v)" by force
  have "set (vals (mset_at m k v)) \<subseteq> insert v (set (vals m))" by (induction m) auto
  then show ?case using Cons [of "mset_at m k v"] by (auto simp: kv simp del: set_map)
qed simp

lemma merge_valid: "Validate base = None \<Longrightarrow> Validate over = None \<Longrightarrow> Validate (MergeConfig base over) = None"
proof -
  assume v: "Validate base = None" "Validate over = None"
  let ?n = "\<lambda>c. tc_Name ` set (sc_ToolCapabilities c)"
  have n: "?n (MergeConfig base over) = ?n base \<union> ?n over" by (simp add: MergeConfig_def overlay_names)
  have "set (vals (sc_ToolCategories (MergeConfig base over))) \<subseteq> set (vals (sc_ToolCategories base)) \<union> set (vals (sc_ToolCategories over))"
    unfolding MergeConfig_def staff_config.select_convs
    using vals_merge [of "foldl (\<lambda>m (k, v). mset_at m k v) [] (sc_ToolCategories base)" "sc_ToolCategories over"]
      vals_merge [of "[]" "sc_ToolCategories base"] by auto
  moreover have "set (sc_Roles (MergeConfig base over)) \<subseteq> set (sc_Roles base) \<union> set (sc_Roles over)"
    by (simp add: MergeConfig_def overlay_set)
  ultimately show "Validate (MergeConfig base over) = None"
    using v unfolding validate_None n by blast
qed

lemma allow_capability_mem:
  "mget False (allow_capability m a c) t \<longleftrightarrow>
     mget False a t \<or> (\<exists>tc. map_of m c = Some tc \<and> t \<in> set (exposed_tools tc))"
proof (cases "map_of m c")
  case None
  then show ?thesis by (simp add: allow_capability_def)
next
  case (Some tc)
  have "mget False (foldl (\<lambda>m toolName. let m1 = mset_at m toolName True
          in if tc_Backend tc \<noteq> [] \<and> tc_Backend tc \<noteq> ''builtin''
             then mset_at m1 (mcp_form (tc_Backend tc) toolName) True else m1) a ts) t \<longleftrightarrow>
      mget False a t \<or> t \<in> set (concat (map (\<lambda>t. t # (if tc_Backend tc \<noteq> [] \<and> tc_Backend tc \<noteq> ''builtin''
        then [mcp_form (tc_Backend tc) t] else [])) ts))" for ts
    by (induction ts arbitrary: a) (auto simp: Let_def)
  then show ?thesis by (simp add: allow_capability_def Some exposed_tools_def)
qed

lemma resolve_tools_mem:
  "t \<in> set (ResolveToolNames c caps) \<longleftrightarrow> (\<exists>n \<in> set caps. \<exists>tc. map_of (ToolCapabilityMap c) n = Some tc \<and> t \<in> set (exposed_tools tc))"
proof -
  have "t \<in> set (foldl (\<lambda>tools name. case map_of m name of None \<Rightarrow> tools | Some tc \<Rightarrow> tools @ exposed_tools tc) acc caps) \<longleftrightarrow>
      t \<in> set acc \<or> (\<exists>n \<in> set caps. \<exists>tc. map_of m n = Some tc \<and> t \<in> set (exposed_tools tc))" for acc and m :: "(string, tool_capability) gomap"
    by (induction caps arbitrary: acc) (auto split: option.splits)
  then show ?thesis by (simp add: ResolveToolNames_def Let_def)
qed

lemma set_role_allowed:
  "mget False (cl_allowed (SetRole role r)) t \<longleftrightarrow>
     (case map_of (RoleMap (cl_config r)) role of None \<Rightarrow> False
      | Some d \<Rightarrow> t \<in> set (ResolveToolNames (cl_config r) (ro_ToolCapabilities d)))"
proof -
  have "mget False (foldl (allow_capability m) a caps) t \<longleftrightarrow>
      mget False a t \<or> (\<exists>n \<in> set caps. \<exists>tc. map_of m n = Some tc \<and> t \<in> set (exposed_tools tc))" for a m caps
    by (induction caps arbitrary: a) (auto simp: allow_capability_mem)
  then show ?thesis
    by (simp add: SetRole_def Let_def resolve_tools_mem mget_def split: option.split)
qed

lemma set_role_fields [simp]: "cl_config (SetRole role r) = cl_config r" "cl_role (SetRole role r) = role"
  by (simp_all add: SetRole_def Let_def split: option.split)

lemma default_config_valid: "Validate DefaultConfig = None"
  by code_simp

end
