(* ===== verification/Uniform_Properties.thy ===== *)
theory Uniform_Properties
  imports Uniform_Staff
begin

text \<open>
  The properties of the access control of the staff: uniforms, clearances and configurations.
\<close>

text \<open>Property C5: whatever cycles the role compositions have, the capabilities of a uniform are the union over the roles reachable from the persona's, its tools are exactly the available ones that require no other capability, the denied ones are the rest, and there is no warning exactly when every role gives a capability and some tool is left.\<close>

theorem uniform_least_privilege:
  fixes ord persona roles registry requirements available mode model prompt
  assumes "\<And>xs. mset (ord xs) = mset xs"
  defines "u \<equiv> NewUniform ord persona roles registry requirements available mode model prompt"
  shows "set (un_capabilities u) = persona_caps registry roles \<and> distinct (un_capabilities u) \<and>
    un_tools u = filter (\<lambda>t. set (Requires requirements t) \<subseteq> persona_caps registry roles) available \<and>
    un_denied u = filter (\<lambda>t. \<not> set (Requires requirements t) \<subseteq> persona_caps registry roles) available \<and>
    (un_warnings u = [] \<longleftrightarrow> persona_caps registry roles \<noteq> {} \<and> un_tools u \<noteq> [] \<and>
       (\<forall>r \<in> set roles. persona_caps registry [r] \<noteq> {}))"
proof -
  note c = resolve_persona_set [OF assms(1)]
  have n: "ResolvePersona ord registry names = [] \<longleftrightarrow> persona_caps registry names = {}" for names
    using c(1) [of registry names] by auto
  have r: "Resolve ord registry r = ResolvePersona ord registry [r]" for r
    by (simp add: Resolve_def ResolvePersona_def)
  show ?thesis
    by (simp add: u_def NewUniform_def Let_def filter_tools_eq tool_allowed_iff c unknown_warnings n r filter_empty_conv)
qed

lemma uniform_least_privilege_witness:
  "un_tools (NewUniform rev ''p'' [''a''] (NewRoleRegistry
     [\<lparr>rd_Name = ''a'', rd_Composes = [''b''], rd_Capabilities = []\<rparr>, \<lparr>rd_Name = ''b'', rd_Composes = [''a''], rd_Capabilities = [''x'']\<rparr>])
     [(''t'', [''x'']), (''s'', [''y''])] [''s'', ''t'', ''u''] [] [] []) = [''t'', ''u'']"
proof -
  let ?R = "NewRoleRegistry
     [\<lparr>rd_Name = ''a'', rd_Composes = [''b''], rd_Capabilities = []\<rparr>, \<lparr>rd_Name = ''b'', rd_Composes = [''a''], rd_Capabilities = [''x'']\<rparr>]"
  have "keys (resolve_roles ?R [''a'']) = [''x'']" by code_simp
  then have "persona_caps ?R [''a''] = {''x''}" using resolve_roles_keys [of ?R "[''a'']"] by simp
  then show ?thesis
    using uniform_least_privilege [of rev "''p''" "[''a'']" ?R "[(''t'', [''x'']), (''s'', [''y''])]" "[''s'', ''t'', ''u'']" "[]" "[]" "[]"]
    by (simp add: Requires_def mget_def)
qed

lemma default_duties_eval:
  "list_all (\<lambda>n. (HasCapability (keys (resolve_roles (NewRoleRegistry DefaultRoles) [n])) CapShell = (n = ''director'' \<or> n = ''operator'')) \<and>
     (HasCapability (keys (resolve_roles (NewRoleRegistry DefaultRoles) [n])) CapWrite = (n = ''developer'' \<or> n = ''operator'')))
     (map rd_Name DefaultRoles)"
  "Requires DefaultToolRequirements ''Bash'' = [CapShell]" "Requires DefaultToolRequirements ''Write'' = [CapWrite]"
  "keys (NewRoleRegistry DefaultRoles) = map rd_Name DefaultRoles"
  "list_all (\<lambda>n. n \<in> set (map rd_Name DefaultRoles)) [''director'', ''operator'', ''developer'']"
  by code_simp+

lemma default_duties_role:
  "CapShell \<in> persona_caps (NewRoleRegistry DefaultRoles) [n] \<longleftrightarrow> n = ''director'' \<or> n = ''operator''"
  "CapWrite \<in> persona_caps (NewRoleRegistry DefaultRoles) [n] \<longleftrightarrow> n = ''developer'' \<or> n = ''operator''"
proof -
  let ?R = "NewRoleRegistry DefaultRoles"
  have m: "c \<in> persona_caps ?R [n] \<longleftrightarrow> HasCapability (keys (resolve_roles ?R [n])) c" for c
    using resolve_roles_keys [of ?R "[n]"] by (auto simp: HasCapability_def list_ex_iff)
  have k: "map_of ?R n = None \<longleftrightarrow> n \<notin> set (map rd_Name DefaultRoles)"
    by (simp only: map_of_eq_None_keys default_duties_eval(4))
  show "CapShell \<in> persona_caps ?R [n] \<longleftrightarrow> n = ''director'' \<or> n = ''operator''"
    "CapWrite \<in> persona_caps ?R [n] \<longleftrightarrow> n = ''developer'' \<or> n = ''operator''"
  proof (atomize (full), cases "n \<in> set (map rd_Name DefaultRoles)")
    case True
    then show "(CapShell \<in> persona_caps ?R [n] \<longleftrightarrow> n = ''director'' \<or> n = ''operator'') \<and>
      (CapWrite \<in> persona_caps ?R [n] \<longleftrightarrow> n = ''developer'' \<or> n = ''operator'')"
      unfolding m using default_duties_eval(1) unfolding list_all_iff by blast
  next
    case False
    then have "persona_caps ?R [n] = {}"
      unfolding persona_caps_step using k by (simp add: own_caps_def succs_of_def persona_caps_def)
    moreover have "n \<noteq> ''director''" "n \<noteq> ''operator''" "n \<noteq> ''developer''"
      using False default_duties_eval(5) unfolding list_all_iff by auto
    ultimately show "(CapShell \<in> persona_caps ?R [n] \<longleftrightarrow> n = ''director'' \<or> n = ''operator'') \<and>
      (CapWrite \<in> persona_caps ?R [n] \<longleftrightarrow> n = ''developer'' \<or> n = ''operator'')" by simp
  qed
qed

text \<open>With the default roles and requirements, a shell is given exactly to a persona with the role of director or operator and the writing of files exactly to one with that of developer or operator; a tool without an entry is given to everyone.\<close>

lemma default_duties:
  fixes ord t persona roles available mode model prompt
  assumes "\<And>xs. mset (ord xs) = mset xs" "t \<notin> fst ` set DefaultToolRequirements"
  defines "u \<equiv> NewUniform ord persona roles (NewRoleRegistry DefaultRoles) DefaultToolRequirements available mode model prompt"
  shows "(HasTool u ''Bash'' \<longleftrightarrow> ''Bash'' \<in> set available \<and> (''director'' \<in> set roles \<or> ''operator'' \<in> set roles)) \<and>
    (HasTool u ''Write'' \<longleftrightarrow> ''Write'' \<in> set available \<and> (''developer'' \<in> set roles \<or> ''operator'' \<in> set roles)) \<and>
    (HasTool u t \<longleftrightarrow> t \<in> set available)"
proof -
  let ?P = "persona_caps (NewRoleRegistry DefaultRoles) roles"
  have h: "HasTool u x \<longleftrightarrow> x \<in> set available \<and> set (Requires DefaultToolRequirements x) \<subseteq> ?P" for x
    using resolve_persona_set(1) [OF assms(1), of "NewRoleRegistry DefaultRoles" roles]
    by (auto simp: HasTool_def list_ex_iff u_def NewUniform_def Let_def filter_tools_eq tool_allowed_iff)
  have "CapShell \<in> ?P \<longleftrightarrow> ''director'' \<in> set roles \<or> ''operator'' \<in> set roles"
    "CapWrite \<in> ?P \<longleftrightarrow> ''developer'' \<in> set roles \<or> ''operator'' \<in> set roles"
    unfolding persona_caps_union [of _ roles] using default_duties_role by auto
  moreover have "Requires DefaultToolRequirements t = []"
    using assms(2) map_of_eq_None_keys [of DefaultToolRequirements t] by (simp add: Requires_def mget_def)
  ultimately show ?thesis using h [of "''Bash''"] h [of "''Write''"] h [of t] by (simp add: default_duties_eval(2,3))
qed

lemma default_duties_witness:
  "HasTool (NewUniform rev ''p'' [''qa''] (NewRoleRegistry DefaultRoles) DefaultToolRequirements [''Bash'', ''mcp__scribe__artifact''] [] [] [])
     ''mcp__scribe__artifact'' \<and>
   \<not> HasTool (NewUniform rev ''p'' [''qa''] (NewRoleRegistry DefaultRoles) DefaultToolRequirements [''Bash'', ''mcp__scribe__artifact''] [] [] [])
     ''Bash''"
proof -
  have "''mcp__scribe__artifact'' \<notin> fst ` set DefaultToolRequirements" by code_simp
  then show ?thesis
    using default_duties [of rev "''mcp__scribe__artifact''" "''p''" "[''qa'']" "[''Bash'', ''mcp__scribe__artifact'']" "[]" "[]" "[]"]
    by simp
qed

text \<open>Property C25: after a change of role the clearance forwards exactly the calls of the tools that the capabilities of the role expose, under their plain or prefixed names, and refuses every other call without touching the backend; an unknown role has no tools.\<close>

theorem clearance_exact:
  fixes r :: tool_clearance and role :: string
  defines "cleared name \<equiv> (case map_of (RoleMap (cl_config r)) role of None \<Rightarrow> False
    | Some d \<Rightarrow> name \<in> set (ResolveToolNames (cl_config r) (ro_ToolCapabilities d)))"
  shows "clearance_execute exec name (SetRole role r) s =
      (if cleared name then (fst (exec name s), Inr (snd (exec name s))) else (s, Inl (ErrToolNotAllowed name role))) \<and>
    clearance_names backend (SetRole role r) = filter cleared backend"
  unfolding cleared_def clearance_names_def clearance_all_def set_role_allowed [symmetric]
  by (simp add: clearance_execute_def case_prod_beta)

lemma merge_maps:
  assumes "distinct (map ro_Name (sc_Roles b))" "distinct (map tc_Name (sc_ToolCapabilities b))"
  shows "map_of (RoleMap (MergeConfig b c)) = map_of (RoleMap b) ++ map_of (RoleMap c)"
    "map_of (ToolCapabilityMap (MergeConfig b c)) = map_of (ToolCapabilityMap b) ++ map_of (ToolCapabilityMap c)"
    "distinct (map ro_Name (sc_Roles (MergeConfig b c)))" "distinct (map tc_Name (sc_ToolCapabilities (MergeConfig b c)))"
proof -
  show "map_of (RoleMap (MergeConfig b c)) = map_of (RoleMap b) ++ map_of (RoleMap c)"
    "map_of (ToolCapabilityMap (MergeConfig b c)) = map_of (ToolCapabilityMap b) ++ map_of (ToolCapabilityMap c)"
    using assms by (simp_all add: RoleMap_def ToolCapabilityMap_def MergeConfig_def overlay_lookup)
  show "distinct (map ro_Name (sc_Roles (MergeConfig b c)))" "distinct (map tc_Name (sc_ToolCapabilities (MergeConfig b c)))"
    using assms by (simp_all add: MergeConfig_def overlay_distinct)
qed

text \<open>A chain of configurations gives every role and every capability its definition in the last readable file that has one, the defaults where none has, and it is valid when every file read is.\<close>

lemma config_chain_overlays:
  fixes read_file parse paths
  defines "loaded \<equiv> List.map_filter (LoadConfig read_file parse) paths"
    and "chain \<equiv> LoadConfigChain read_file parse paths"
  shows "map_of (RoleMap chain) = foldl (++) (map_of (RoleMap DefaultConfig)) (map (\<lambda>c. map_of (RoleMap c)) loaded) \<and>
    map_of (ToolCapabilityMap chain) =
      foldl (++) (map_of (ToolCapabilityMap DefaultConfig)) (map (\<lambda>c. map_of (ToolCapabilityMap c)) loaded) \<and>
    ((\<forall>c \<in> set loaded. Validate c = None) \<longrightarrow> Validate chain = None)"
proof -
  have e: "chain = foldl MergeConfig DefaultConfig loaded"
  proof -
    have "foldl (\<lambda>base path. case LoadConfig read_file parse path of None \<Rightarrow> base | Some over \<Rightarrow> MergeConfig base over) b paths =
        foldl MergeConfig b (List.map_filter (LoadConfig read_file parse) paths)" for b
      by (induction paths arbitrary: b) (simp_all add: List.map_filter_simps split: option.split)
    then show ?thesis by (simp add: chain_def loaded_def LoadConfigChain_def)
  qed
  have m: "distinct (map ro_Name (sc_Roles b)) \<Longrightarrow> distinct (map tc_Name (sc_ToolCapabilities b)) \<Longrightarrow>
      map_of (RoleMap (foldl MergeConfig b cs)) = foldl (++) (map_of (RoleMap b)) (map (\<lambda>c. map_of (RoleMap c)) cs) \<and>
      map_of (ToolCapabilityMap (foldl MergeConfig b cs)) =
        foldl (++) (map_of (ToolCapabilityMap b)) (map (\<lambda>c. map_of (ToolCapabilityMap c)) cs)" for b cs
  proof (induction cs arbitrary: b)
    case (Cons c cs)
    note mm = merge_maps [OF Cons.prems, of c]
    show ?case using Cons.IH [OF mm(3,4)] unfolding foldl_Cons list.map mm(1,2) .
  qed simp
  have v: "Validate b = None \<Longrightarrow> \<forall>c \<in> set cs. Validate c = None \<Longrightarrow> Validate (foldl MergeConfig b cs) = None" for b cs
    by (induction cs arbitrary: b) (simp_all add: merge_valid)
  have "distinct (map ro_Name (sc_Roles DefaultConfig))" "distinct (map tc_Name (sc_ToolCapabilities DefaultConfig))"
    by code_simp+
  then show ?thesis unfolding e using m [of DefaultConfig loaded] v [OF default_config_valid, of loaded] by blast
qed

lemma config_chain_overlays_witness:
  "Validate (LoadConfigChain (\<lambda>p. if p = ''/a'' then Some ''x'' else None)
     (\<lambda>d. Some \<lparr>sc_Roles = [default_role ''gensec'' ''agent'' [''Lint'']],
        sc_ToolCapabilities = [\<lparr>tc_Name = ''Lint'', tc_Description = [], tc_Backend = ''builtin'', tc_Tools = [''lint'']\<rparr>],
        sc_ToolCategories = []\<rparr>) [''/missing'', ''/a'']) = None"
proof -
  let ?rf = "\<lambda>p. if p = ''/a'' then Some ''x'' else None"
  let ?c = "\<lparr>sc_Roles = [default_role ''gensec'' ''agent'' [''Lint'']],
        sc_ToolCapabilities = [\<lparr>tc_Name = ''Lint'', tc_Description = [], tc_Backend = ''builtin'', tc_Tools = [''lint'']\<rparr>],
        sc_ToolCategories = []\<rparr>"
  have "list_all (\<lambda>c. Validate c = None) (List.map_filter (LoadConfig ?rf (\<lambda>d. Some ?c)) [''/missing'', ''/a''])"
    by code_simp
  then show ?thesis using config_chain_overlays [of ?rf "\<lambda>d. Some ?c" "[''/missing'', ''/a'']"]
    unfolding list_all_iff by blast
qed

end
