(* ===== verification/Go_Format.thy ===== *)
theory Go_Format
  imports Go_Strings Complex_Main
begin

text \<open>
  Formatting of numbers as Go's \<^verbatim>\<open>fmt\<close> prints them, on rationals for the floating-point numbers of the program, and the filling of columns.
\<close>

subsection \<open>Numbers\<close>

definition round_half_even :: "rat \<Rightarrow> int" where
  "round_half_even q =
     (let f = \<lfloor>q\<rfloor>; d = q - of_int f
      in if d < 1 / 2 then f else if d > 1 / 2 then f + 1 else if even f then f else f + 1)"

definition fmt_percent0 :: "rat \<Rightarrow> string" where
  "fmt_percent0 q = (let r = round_half_even q in if q < 0 \<and> r = 0 then ''-0'' else int_dec r)"

text \<open>Conversion to an integer truncates.\<close>

definition int_trunc :: "rat \<Rightarrow> int" where
  "int_trunc x = (if x < 0 then - \<lfloor>- x\<rfloor> else \<lfloor>x\<rfloor>)"

definition fill_left :: "nat \<Rightarrow> char \<Rightarrow> string \<Rightarrow> string" where
  "fill_left w c s = replicate (w - length s) c @ s"

definition fill_right :: "nat \<Rightarrow> char \<Rightarrow> string \<Rightarrow> string" where
  "fill_right w c s = s @ replicate (w - length s) c"

text \<open>A number with \<open>n\<close> places after the point.\<close>

definition fmt_fixed :: "nat \<Rightarrow> rat \<Rightarrow> string" where
  "fmt_fixed n q =
     (let r = nat (round_half_even (\<bar>q\<bar> * 10 ^ n))
      in (if q < 0 then ''-'' else []) @ nat_dec (r div 10 ^ n) @ (if n = 0 then [] else ''.'' @ fill_left n (CHR ''0'') (nat_dec (r mod 10 ^ n))))"

text \<open>Repeating a string a negative number of times panics.\<close>

definition str_repeat :: "string \<Rightarrow> int \<Rightarrow> string option" where
  "str_repeat s n = (if n < 0 then None else Some (concat (replicate (nat n) s)))"

subsection \<open>Facts\<close>

lemma int_trunc_bounds: "0 \<le> x \<Longrightarrow> 0 \<le> int_trunc x \<and> of_int (int_trunc x) \<le> x"
  by (auto simp: int_trunc_def)

lemma int_trunc_neg: "x \<le> - 1 \<Longrightarrow> int_trunc x < 0"
proof -
  assume a: "x \<le> - 1"
  have "1 \<le> \<lfloor>- x\<rfloor>" using a by (simp add: le_floor_iff)
  then show ?thesis using a by (simp add: int_trunc_def)
qed

lemma length_fill [simp]: "length (fill_left w c s) = max w (length s)" "length (fill_right w c s) = max w (length s)"
  by (simp_all add: fill_left_def fill_right_def)

lemma repeat_None [simp]: "str_repeat s n = None \<longleftrightarrow> n < 0"
  by (simp add: str_repeat_def)

lemma repeat_length: "str_repeat s n = Some r \<Longrightarrow> length r = nat n * length s"
  by (auto simp: str_repeat_def length_concat sum_list_replicate split: if_splits)

lemma round_nonneg: "0 \<le> q \<Longrightarrow> 0 \<le> round_half_even q"
  by (simp add: round_half_even_def Let_def)

lemma round_near: "\<bar>of_int (round_half_even q) - q\<bar> \<le> 1 / 2"
proof -
  have "of_int \<lfloor>q\<rfloor> \<le> q" "q < of_int \<lfloor>q\<rfloor> + 1" by linarith+
  then show ?thesis by (simp add: round_half_even_def Let_def abs_if; linarith)
qed

end
