(* ===== verification/Uniform_Control.thy ===== *)
theory Uniform_Control
  imports Telemetry_Signals Go_Format Uniform_Rbac
begin

text \<open>
  The control of agents by signals (\<^verbatim>\<open>uniform/control\<close>): decisions and zones, the prompts,
  and the interpreter that listens on the signal bus. The agent it asks, the JSON reader and the
  current state it shows are arguments. Percentages are rationals, printed rounded to the nearest
  integer, halves to even.
\<close>

subsection \<open>Decisions\<close>

record decision =
  de_Action :: string
  de_Reason :: string
  de_Confidence :: rat
  de_Pillar :: string

definition ActionContinue :: string where "ActionContinue = ''continue''"

definition fence :: string where "fence = [CHR 0x60, CHR 0x60, CHR 0x60]"

definition stripMarkdownFences :: "string \<Rightarrow> string" where
  "stripMarkdownFences s0 =
     (let s = trim_space s0
      in if \<not> has_prefix s fence then s
         else trim_space (str_join (filter (\<lambda>line. \<not> has_prefix (trim_space line) fence) (str_split s (CHR 0x0A))) [CHR 0x0A]))"

text \<open>The reader gives the fields of a decision, the missing ones empty, or fails.\<close>

definition ParseDecision :: "(string \<Rightarrow> decision option) \<Rightarrow> string \<Rightarrow> string \<Rightarrow> decision \<times> bool" where
  "ParseDecision unmarshal response pillar =
     (case unmarshal (stripMarkdownFences response) of
        None \<Rightarrow> (\<lparr>de_Action = ActionContinue, de_Reason = ''failed to parse GenSec response: '' @ response,
                  de_Confidence = 0, de_Pillar = pillar\<rparr>, False)
      | Some d \<Rightarrow> (d\<lparr>de_Pillar := pillar\<rparr>, True))"

datatype zone = ZoneGreen | ZoneYellow | ZoneOrange | ZoneRed

fun zone_string :: "zone \<Rightarrow> string" where
  "zone_string ZoneGreen = ''green''"
| "zone_string ZoneYellow = ''yellow''"
| "zone_string ZoneOrange = ''orange''"
| "zone_string ZoneRed = ''red''"

fun ZoneFromLevel :: "flag_level \<Rightarrow> zone" where
  "ZoneFromLevel Green = ZoneGreen"
| "ZoneFromLevel Yellow = ZoneYellow"
| "ZoneFromLevel Red = ZoneOrange"
| "ZoneFromLevel Black = ZoneRed"

record audit_entry =
  ae_Timestamp :: gotime
  ae_Signal :: signal
  ae_Zone :: zone
  ae_Decision :: decision
  ae_OperatorOverride :: "string option"

definition audit_since :: "gotime \<Rightarrow> audit_entry list \<Rightarrow> audit_entry list" where
  "audit_since t al = filter (\<lambda>e. ae_Timestamp e > t) al"

subsection \<open>Prompts\<close>

record signal_context =
  sx_TasksTotal :: int
  sx_TasksDone :: int
  sx_BudgetPct :: rat
  sx_ActiveGear :: string
  sx_RecentSignals :: "signal list"
  sx_DriftScore :: rat
  sx_DriftViolation :: string
  sx_TraceEvidence :: string

definition empty_context :: signal_context where
  "empty_context = \<lparr>sx_TasksTotal = 0, sx_TasksDone = 0, sx_BudgetPct = 0, sx_ActiveGear = [], sx_RecentSignals = [],
     sx_DriftScore = 0, sx_DriftViolation = [], sx_TraceEvidence = []\<rparr>"

definition task_line :: "signal_context \<Rightarrow> string" where
  "task_line c = ''  Tasks: '' @ int_dec (sx_TasksDone c) @ ''/'' @ int_dec (sx_TasksTotal c) @ '' done'' @ nl"

definition gear_line :: "signal_context \<Rightarrow> string" where
  "gear_line c = ''  Current gear: '' @ sx_ActiveGear c @ nl"

definition option_line :: "string \<Rightarrow> string \<Rightarrow> string" where
  "option_line name what = ''  '' @ name @ em_dash @ '' '' @ what @ nl"

definition formatBudgetPrompt :: "signal_context \<Rightarrow> string" where
  "formatBudgetPrompt c = ''CONTEXT:'' @ nl @ ''  Budget usage: '' @ fmt_percent0 (sx_BudgetPct c * 100) @ ''%'' @ nl @
     task_line c @ gear_line c @ nl @ ''OPTIONS:'' @ nl @
     option_line ''continue  '' ''keep working, budget is manageable'' @ option_line ''skip      '' ''skip expensive remaining tasks'' @
     option_line ''throttle  '' ''downshift gear to reduce cost'' @ option_line ''abort     '' ''stop all work, budget critical''"

definition formatDriftPrompt :: "signal_context \<Rightarrow> string" where
  "formatDriftPrompt c = ''CONTEXT:'' @ nl @ ''  Structure score: '' @ fmt_percent0 (sx_DriftScore c) @ ''/100'' @ nl @
     (if sx_DriftViolation c \<noteq> [] then ''  Worst violation: '' @ sx_DriftViolation c @ nl else []) @ task_line c @ nl @
     ''OPTIONS:'' @ nl @ option_line ''continue  '' ''drift is acceptable for current phase'' @
     option_line ''re_scope  '' ''narrow scope to reduce drift'' @ option_line ''re_plan   '' ''revise plan to address violations'' @
     option_line ''cordon    '' ''pause and escalate to operator''"

definition formatPerformancePrompt :: "signal_context \<Rightarrow> string" where
  "formatPerformancePrompt c = ''CONTEXT:'' @ nl @ gear_line c @ task_line c @ nl @ ''OPTIONS:'' @ nl @
     option_line ''continue  '' ''bottleneck is transient'' @ option_line ''throttle  '' ''reduce parallelism or tool usage'' @
     option_line ''relay     '' ''context relay to fresh agent'' @ option_line ''cordon    '' ''pause and escalate to operator''"

definition formatLifecyclePrompt :: "signal_context \<Rightarrow> string" where
  "formatLifecyclePrompt c = ''CONTEXT:'' @ nl @ gear_line c @ task_line c @ nl @ ''OPTIONS:'' @ nl @
     option_line ''continue  '' ''lifecycle event is expected'' @ option_line ''re_plan   '' ''agent failure requires new approach'' @
     option_line ''abort     '' ''unrecoverable failure''"

definition formatGenericPrompt :: "signal_context \<Rightarrow> string" where
  "formatGenericPrompt c = ''CONTEXT:'' @ nl @ gear_line c @ task_line c @ nl @ ''OPTIONS:'' @ nl @
     option_line ''continue  '' ''no action needed'' @ option_line ''cordon    '' ''pause and escalate to operator''"

definition FormatSignalPrompt :: "signal \<Rightarrow> signal_context \<Rightarrow> string" where
  "FormatSignalPrompt s c =
     ''SIGNAL INTERPRETATION REQUEST'' @ nl @ nl @ ''Category: '' @ sg_Category s @ nl @ ''Level: '' @ flag_string (sg_Level s) @ nl @
     ''Source: '' @ sg_Source s @ nl @ ''Message: '' @ sg_Message s @ nl @ nl @
     (if sg_Category s = ''budget'' then formatBudgetPrompt c else if sg_Category s = ''drift'' then formatDriftPrompt c
      else if sg_Category s = ''performance'' then formatPerformancePrompt c
      else if sg_Category s = ''lifecycle'' then formatLifecyclePrompt c else formatGenericPrompt c) @
     (if sx_TraceEvidence c \<noteq> [] then nl @ ''TRACE EVIDENCE:'' @ nl @ sx_TraceEvidence c @ nl else []) @
     nl @ ''Respond with JSON only: {'' @ [CHR 0x22] @ ''action'' @ [CHR 0x22] @ '': '' @ [CHR 0x22] @ ''<action>'' @ [CHR 0x22] @ '', '' @
     [CHR 0x22] @ ''reason'' @ [CHR 0x22] @ '': '' @ [CHR 0x22] @ ''<reason>'' @ [CHR 0x22] @ '', '' @
     [CHR 0x22] @ ''confidence'' @ [CHR 0x22] @ '': <0.0-1.0>}''"

subsection \<open>The interpreter\<close>

text \<open>
  What the interpreter is wired to: the agent asked (an error is its text), the JSON reader and
  the provider of the current state, if one is set.
\<close>

record interp_env =
  ie_ask :: "string \<Rightarrow> string + string"
  ie_unmarshal :: "string \<Rightarrow> decision option"
  ie_context :: "signal_context option"

text \<open>
  The handlers that the interpreter has registered on the bus, whether it runs, the audit log and
  the prompts asked so far. The callback of the operator gets each audit entry.
\<close>

record interpreter =
  si_handlers :: nat
  si_running :: bool
  si_audit :: "audit_entry list"
  si_asked :: "string list"

definition NewSignalInterpreter :: interpreter where
  "NewSignalInterpreter = \<lparr>si_handlers = 0, si_running = False, si_audit = [], si_asked = []\<rparr>"

definition interp_start :: "interpreter \<Rightarrow> interpreter" where
  "interp_start si = (if si_running si then si else si\<lparr>si_running := True, si_handlers := si_handlers si + 1\<rparr>)"

definition interp_stop :: "interpreter \<Rightarrow> interpreter" where
  "interp_stop si = si\<lparr>si_running := False\<rparr>"

definition interpreterSource :: string where "interpreterSource = ''signal-interpreter''"

definition interp_signal :: "gotime \<Rightarrow> signal \<Rightarrow> flag_level \<Rightarrow> string \<Rightarrow> signal" where
  "interp_signal now s level msg = \<lparr>sg_Workstream = sg_Workstream s, sg_Level = level, sg_Source = interpreterSource,
     sg_Scope = [], sg_Category = ''lifecycle'', sg_Message = msg, sg_Timestamp = now\<rparr>"

definition applyDecision :: "gotime \<Rightarrow> decision \<Rightarrow> signal \<Rightarrow> signal list" where
  "applyDecision now d s = [interp_signal now s Green (''decision: '' @ de_Action d @ '' '' @ em_dash @ '' '' @ de_Reason d)]"

definition routeDecision :: "gotime \<Rightarrow> zone \<Rightarrow> decision \<Rightarrow> signal \<Rightarrow> signal list" where
  "routeDecision now z d s =
     (case z of
        ZoneGreen \<Rightarrow> []
      | ZoneYellow \<Rightarrow> applyDecision now d s
      | ZoneOrange \<Rightarrow> applyDecision now d s
      | ZoneRed \<Rightarrow> [interp_signal now s Red (''cordon: '' @ de_Pillar d @ '' '' @ em_dash @ '' '' @ de_Reason d)])"

definition handleSignal :: "gotime \<Rightarrow> interp_env \<Rightarrow> signal \<Rightarrow> interpreter \<Rightarrow> interpreter \<times> signal list" where
  "handleSignal now env s si =
     (if sg_Source s = interpreterSource then (si, [])
      else let z = ZoneFromLevel (sg_Level s)
           in if z = ZoneGreen then (si, [])
              else if \<not> si_running si then (si, [])
              else (let ctx = (case ie_context env of None \<Rightarrow> empty_context | Some c \<Rightarrow> c);
                        prompt = FormatSignalPrompt s ctx;
                        si1 = si\<lparr>si_asked := si_asked si @ [prompt]\<rparr>
                    in case ie_ask env prompt of
                         Inl err \<Rightarrow> (si1, [interp_signal now s Yellow (''GenSec Ask failed: '' @ err)])
                       | Inr response \<Rightarrow>
                           (let d = fst (ParseDecision (ie_unmarshal env) response (sg_Category s));
                                entry = \<lparr>ae_Timestamp = now, ae_Signal = s, ae_Zone = z, ae_Decision = d, ae_OperatorOverride = None\<rparr>
                            in (si1\<lparr>si_audit := si_audit si1 @ [entry]\<rparr>, routeDecision now z d s))))"

text \<open>
  Emitting a signal runs every registered handler in turn; what a handler emits is emitted inside
  it. The fuel bounds the nesting; the log is what went over the bus, in order.
\<close>

primrec interp_emit :: "nat \<Rightarrow> gotime \<Rightarrow> interp_env \<Rightarrow> signal \<Rightarrow> interpreter \<times> signal list \<Rightarrow> (interpreter \<times> signal list) option" where
  "interp_emit 0 now env s st = None"
| "interp_emit (Suc fuel) now env s st =
     fold (\<lambda>_ acc. Option.bind acc (\<lambda>(si, sent). case handleSignal now env s si of (si1, es) \<Rightarrow>
         fold (\<lambda>e acc. Option.bind acc (interp_emit fuel now env e)) es (Some (si1, sent))))
       [0..<si_handlers (fst st)] (Some (fst st, snd st @ [s]))"

subsection \<open>What the interpreter may do\<close>

lemma own_signal: "sg_Source e = interpreterSource \<Longrightarrow> interp_emit (Suc fuel) now env e (si, sent) = Some (si, sent @ [e])"
proof -
  assume e: "sg_Source e = interpreterSource"
  have "fold (\<lambda>_ acc. Option.bind acc (\<lambda>(si, sent). case handleSignal now env e si of (si1, es) \<Rightarrow>
      fold (\<lambda>e acc. Option.bind acc (interp_emit fuel now env e)) es (Some (si1, sent)))) xs (Some (si, l)) = Some (si, l)"
    for xs :: "nat list" and l
    by (induction xs) (simp_all add: handleSignal_def e)
  then show ?thesis by simp
qed

lemma handled_source: "e \<in> set (snd (handleSignal now env s si)) \<Longrightarrow> sg_Source e = interpreterSource"
  by (auto simp: handleSignal_def Let_def routeDecision_def applyDecision_def interp_signal_def
    split: if_splits sum.splits zone.splits)

lemma emit_own:
  "\<forall>e \<in> set es. sg_Source e = interpreterSource \<Longrightarrow>
   fold (\<lambda>e acc. Option.bind acc (interp_emit (Suc fuel) now env e)) es (Some (si, sent)) = Some (si, sent @ es)"
  by (induction es arbitrary: sent) (simp_all add: own_signal del: interp_emit.simps)

text \<open>With two units of fuel an emission always returns; each handler adds what it emits.\<close>

fun handlers_run :: "nat \<Rightarrow> gotime \<Rightarrow> interp_env \<Rightarrow> signal \<Rightarrow> interpreter \<times> signal list \<Rightarrow> interpreter \<times> signal list" where
  "handlers_run 0 now env s st = st"
| "handlers_run (Suc n) now env s (si, sent) =
     (case handleSignal now env s si of (si1, es) \<Rightarrow> handlers_run n now env s (si1, sent @ es))"

lemma interp_emit_returns:
  "interp_emit (Suc (Suc fuel)) now env s (si, sent) = Some (handlers_run (si_handlers si) now env s (si, sent @ [s]))"
proof -
  have "fold (\<lambda>_ acc. Option.bind acc (\<lambda>(si, sent). case handleSignal now env s si of (si1, es) \<Rightarrow>
      fold (\<lambda>e acc. Option.bind acc (interp_emit (Suc fuel) now env e)) es (Some (si1, sent)))) xs (Some (si, l)) =
      Some (handlers_run (length xs) now env s (si, l))" for xs :: "nat list" and si l
  proof (induction xs arbitrary: si l)
    case (Cons x xs)
    obtain si1 es where h: "handleSignal now env s si = (si1, es)" by force
    have "\<forall>e \<in> set es. sg_Source e = interpreterSource" using handled_source [of _ now env s si] h by auto
    then have "fold (\<lambda>e acc. Option.bind acc (interp_emit (Suc fuel) now env e)) es (Some (si1, l)) = Some (si1, l @ es)"
      by (rule emit_own)
    then show ?case using Cons [of si1 "l @ es"] by (simp add: h del: interp_emit.simps)
  qed simp
  from this [of "[0..<si_handlers si]" si "sent @ [s]"]
  show ?thesis unfolding interp_emit.simps(2) length_upt by (simp only: diff_zero fst_conv snd_conv)
qed

lemma handlers_fields: "si_handlers (fst (handleSignal now env s si)) = si_handlers si"
  "si_running (fst (handleSignal now env s si)) = si_running si"
  by (simp_all add: handleSignal_def Let_def split: sum.split)

lemma handle_ignored:
  "sg_Source s = interpreterSource \<or> sg_Level s = Green \<or> \<not> si_running si \<Longrightarrow> handleSignal now env s si = (si, [])"
  by (auto simp: handleSignal_def Let_def)

lemma handlers_ignored:
  "sg_Source s = interpreterSource \<or> sg_Level s = Green \<or> \<not> si_running si \<Longrightarrow> handlers_run n now env s (si, sent) = (si, sent)"
  by (induction n) (simp_all add: handle_ignored)

text \<open>A running interpreter asks once per registered handler.\<close>

definition answer :: "gotime \<Rightarrow> interp_env \<Rightarrow> signal \<Rightarrow> signal list" where
  "answer now env s =
     (let prompt = FormatSignalPrompt s (case ie_context env of None \<Rightarrow> empty_context | Some c \<Rightarrow> c)
      in case ie_ask env prompt of
           Inl err \<Rightarrow> [interp_signal now s Yellow (''GenSec Ask failed: '' @ err)]
         | Inr response \<Rightarrow> routeDecision now (ZoneFromLevel (sg_Level s))
             (fst (ParseDecision (ie_unmarshal env) response (sg_Category s))) s)"

lemma handle_answers:
  assumes "sg_Source s \<noteq> interpreterSource" "sg_Level s \<noteq> Green" "si_running si"
  shows "snd (handleSignal now env s si) = answer now env s"
    "length (si_asked (fst (handleSignal now env s si))) = length (si_asked si) + 1"
proof -
  have "ZoneFromLevel (sg_Level s) \<noteq> ZoneGreen" using assms(2) by (cases "sg_Level s") simp_all
  then show "snd (handleSignal now env s si) = answer now env s"
    "length (si_asked (fst (handleSignal now env s si))) = length (si_asked si) + 1"
    using assms by (simp_all add: handleSignal_def answer_def Let_def split: sum.split)
qed

lemma handlers_answer:
  assumes "sg_Source s \<noteq> interpreterSource" "sg_Level s \<noteq> Green" "si_running si"
  shows "snd (handlers_run n now env s (si, sent)) = sent @ concat (replicate n (answer now env s)) \<and>
    length (si_asked (fst (handlers_run n now env s (si, sent)))) = length (si_asked si) + n"
  using assms(3)
proof (induction n arbitrary: si sent)
  case (Suc n)
  have r: "si_running (fst (handleSignal now env s si))" using Suc.prems handlers_fields by simp
  show ?case
    using Suc.IH [OF r, of "sent @ answer now env s"] handle_answers [OF assms(1,2) Suc.prems, of now env]
    by (simp add: case_prod_beta)
qed simp

lemma black_is_never_applied:
  "sg_Level s = Black \<Longrightarrow> e \<in> set (answer now env s) \<Longrightarrow> sg_Level e \<noteq> Green \<and> \<not> has_prefix (sg_Message e) ''decision: ''"
  by (auto simp: answer_def Let_def routeDecision_def interp_signal_def has_prefix_def split: sum.splits)

end
