(* ===== verification/Uniform_Plans.thy ===== *)
theory Uniform_Plans
  imports Uniform_Staff Uniform_Control Artifact_Graph
begin

text \<open>
  Assignments of agents (\<^verbatim>\<open>uniform/assignment.go\<close>, \<^verbatim>\<open>uniform/persona\<close>), the composite
  quality gate (\<^verbatim>\<open>uniform/gates.go\<close>) and the strategies that refine a plan
  (\<^verbatim>\<open>uniform/planning\<close>). The agent that is asked is an argument; an error is its text.
\<close>

subsection \<open>Personas and styles\<close>

definition RolePersona :: "(string, string) gomap" where
  "RolePersona = [(''gensec'', ''Herald''), (''executor'', ''Seeker''), (''inspector'', ''Specter''), (''manager'', ''Weaver''),
     (''auditor'', ''Bulwark''), (''scheduler'', ''Challenger''), (''externalizer'', ''Sentinel''), (''investigator'', ''Abyss'')]"

text \<open>The archetypes are of another module: looking one up by name is an argument.\<close>

definition resolve_archetype :: "(string \<Rightarrow> 'a option) \<Rightarrow> string \<Rightarrow> 'a option" where
  "resolve_archetype by_archetype role = (case map_of RolePersona role of None \<Rightarrow> None | Some n \<Rightarrow> by_archetype n)"

definition AllRolePersonas :: "(string \<Rightarrow> 'a option) \<Rightarrow> (string, 'a) gomap" where
  "AllRolePersonas by_archetype =
     foldl (\<lambda>m (role, n). case by_archetype n of None \<Rightarrow> m | Some p \<Rightarrow> mset_at m role p) [] RolePersona"

type_synonym style_prefs = "(string, string) gomap"

definition NewMapCommunicationStyle :: style_prefs where
  "NewMapCommunicationStyle = [(''density'', ''sparse''), (''structure'', ''bullet''), (''tone'', ''casual''), (''icons'', ''ascii''),
     (''timestamps'', ''failures''), (''names'', ''role''), (''failure_detail'', ''full''), (''success_detail'', ''silent'')]"

definition style_get :: "string \<Rightarrow> style_prefs \<Rightarrow> string" where "style_get k s = mget [] s k"
definition style_set :: "string \<Rightarrow> string \<Rightarrow> style_prefs \<Rightarrow> style_prefs" where "style_set k v s = mset_at s k v"

subsection \<open>Assignments\<close>

record assignment_scope =
  as_ReadPaths :: "string list"
  as_WritePaths :: "string list"

record assignment =
  ag_Role :: string
  ag_Mode :: string
  ag_Capabilities :: "string list"
  ag_Budget :: slot_budget
  ag_Scope :: assignment_scope
  ag_Persona :: string
  ag_Model :: string

definition no_budget :: slot_budget where
  "no_budget = \<lparr>sb_MaxTokens = 0, sb_MaxCost = 0, sb_MaxDuration = 0\<rparr>"

definition no_scope :: assignment_scope where
  "no_scope = \<lparr>as_ReadPaths = [], as_WritePaths = []\<rparr>"

definition zero_role :: staff_role where
  "zero_role = \<lparr>ro_Name = [], ro_Prompt = [], ro_Mode = [], ro_ToolCapabilities = [], ro_Model = []\<rparr>"

definition PrimordialGenSec :: assignment where
  "PrimordialGenSec =
     (let gensec = mget zero_role (RoleMap DefaultConfig) ''gensec''
      in \<lparr>ag_Role = ''gensec'', ag_Mode = ''auto'', ag_Capabilities = ro_ToolCapabilities gensec, ag_Budget = no_budget,
          ag_Scope = \<lparr>as_ReadPaths = [''/''], as_WritePaths = [''/'']\<rparr>, ag_Persona = mget [] RolePersona ''gensec'',
          ag_Model = ro_Model gensec\<rparr>)"

definition brokerCapabilities :: "string list" where
  "brokerCapabilities = [''WorkTracking'', ''IssueTracking'', ''SignalBroadcasting'', ''MemoryRecall'']"

definition secretaryCapabilities :: "string list" where
  "secretaryCapabilities = [''WorkTracking'', ''FileEditing'', ''ShellExecution'', ''FileSearching'', ''QualityGating'', ''MemoryRecall'']"

definition broker_assignment :: assignment where
  "broker_assignment = \<lparr>ag_Role = ''gensec'', ag_Mode = ''agent'', ag_Capabilities = brokerCapabilities, ag_Budget = no_budget,
     ag_Scope = \<lparr>as_ReadPaths = [''/''], as_WritePaths = []\<rparr>, ag_Persona = mget [] RolePersona ''gensec'', ag_Model = []\<rparr>"

definition Secretary :: "assignment_scope \<Rightarrow> assignment" where
  "Secretary scope = \<lparr>ag_Role = ''executor'', ag_Mode = ''agent'', ag_Capabilities = secretaryCapabilities, ag_Budget = no_budget,
     ag_Scope = scope, ag_Persona = mget [] RolePersona ''executor'', ag_Model = []\<rparr>"

definition PlanAssignments :: "(gear \<Rightarrow> string list) \<Rightarrow> gear \<Rightarrow> assignment list" where
  "PlanAssignments plan g =
     (let roles = RoleMap DefaultConfig
      in map (\<lambda>r. case map_of roles r of
             None \<Rightarrow> \<lparr>ag_Role = r, ag_Mode = ''plan'', ag_Capabilities = [], ag_Budget = no_budget, ag_Scope = no_scope,
                      ag_Persona = [], ag_Model = []\<rparr>
           | Some role \<Rightarrow> \<lparr>ag_Role = r, ag_Mode = ro_Mode role, ag_Capabilities = ro_ToolCapabilities role, ag_Budget = no_budget,
                      ag_Scope = no_scope, ag_Persona = mget [] RolePersona r, ag_Model = ro_Model role\<rparr>) (plan g))"

subsection \<open>The composite gate\<close>

record diagnostic =
  di_Source :: string
  di_Level :: string
  di_Message :: string

record gate_result =
  gr_Passed :: bool
  gr_Diagnostics :: "diagnostic list"

record check_result =
  cr_name :: string
  cr_passed :: bool
  cr_diagnostics :: "diagnostic list"
  cr_err :: "string option"

text \<open>An optional check is skipped (\<open>None\<close>), passes (\<open>Some None\<close>) or fails with an error.\<close>

definition build_result :: "string + gate_result \<Rightarrow> check_result" where
  "build_result b = (case b of
      Inl err \<Rightarrow> \<lparr>cr_name = ''build'', cr_passed = False, cr_diagnostics = [], cr_err = Some err\<rparr>
    | Inr gr \<Rightarrow> \<lparr>cr_name = ''build'', cr_passed = gr_Passed gr, cr_diagnostics = gr_Diagnostics gr, cr_err = None\<rparr>)"

definition optional_result :: "string \<Rightarrow> string \<Rightarrow> string option option \<Rightarrow> check_result list" where
  "optional_result name source c = (case c of
      None \<Rightarrow> []
    | Some (Some err) \<Rightarrow> [\<lparr>cr_name = name, cr_passed = False,
        cr_diagnostics = [\<lparr>di_Source = source, di_Level = ''error'', di_Message = err\<rparr>], cr_err = None\<rparr>]
    | Some None \<Rightarrow> [\<lparr>cr_name = name, cr_passed = True, cr_diagnostics = [], cr_err = None\<rparr>])"

definition gate_results :: "string + gate_result \<Rightarrow> string option option \<Rightarrow> string option option \<Rightarrow> check_result list" where
  "gate_results build arch spec = build_result build # optional_result ''arch'' ''locus'' arch @ optional_result ''spec'' ''scribe'' spec"

fun aggregate_gate :: "check_result list \<Rightarrow> bool \<Rightarrow> diagnostic list \<Rightarrow> string + gate_result" where
  "aggregate_gate [] passed diags = Inr \<lparr>gr_Passed = passed, gr_Diagnostics = diags\<rparr>"
| "aggregate_gate (r # rs) passed diags =
     (case cr_err r of
        Some err \<Rightarrow> Inl (cr_name r @ '' check error: '' @ err)
      | None \<Rightarrow> aggregate_gate rs (passed \<and> cr_passed r) (diags @ cr_diagnostics r))"

text \<open>The checks run in parallel; \<open>order\<close> is the order in which they finish.\<close>

definition triple_gate :: "(check_result list \<Rightarrow> check_result list) \<Rightarrow> string + gate_result \<Rightarrow> string option option \<Rightarrow>
    string option option \<Rightarrow> string + gate_result" where
  "triple_gate order build arch spec = aggregate_gate (order (gate_results build arch spec)) True []"

subsection \<open>Refining plans\<close>

datatype plan_strategy = DirectPlanStrategy | DialecticPlanStrategy

definition challenge_prompt :: "string \<Rightarrow> string" where
  "challenge_prompt plan = ''PLAN REVIEW '' @ em_dash @ '' Challenge this plan. Find gaps, risks, missing dependencies, '' @
     ''scope creep, architectural violations. Be adversarial.'' @ [CHR 0x0A, CHR 0x0A] @ ''PLAN:'' @ [CHR 0x0A] @ plan"

definition synthesis_prompt :: "string \<Rightarrow> string \<Rightarrow> string" where
  "synthesis_prompt plan challenge = ''PLAN SYNTHESIS '' @ em_dash @ '' Reconcile the original plan with the challenges. '' @
     ''Keep what survives scrutiny, fix what doesn'' @ [CHR 0x27] @ ''t. Output the refined plan.'' @ [CHR 0x0A, CHR 0x0A] @
     ''ORIGINAL PLAN:'' @ [CHR 0x0A] @ plan @ [CHR 0x0A, CHR 0x0A] @ ''CHALLENGES:'' @ [CHR 0x0A] @ challenge"

fun strategy_name :: "plan_strategy \<Rightarrow> string" where
  "strategy_name DirectPlanStrategy = ''direct''"
| "strategy_name DialecticPlanStrategy = ''dialectic''"

fun Refine :: "(string \<Rightarrow> string + string) \<Rightarrow> plan_strategy \<Rightarrow> string \<Rightarrow> string" where
  "Refine ask DirectPlanStrategy plan = plan"
| "Refine ask DialecticPlanStrategy plan =
     (case ask (challenge_prompt plan) of
        Inl err \<Rightarrow> plan
      | Inr challenge \<Rightarrow> (case ask (synthesis_prompt plan challenge) of Inl err \<Rightarrow> plan | Inr synthesis \<Rightarrow> synthesis))"

definition PlanStrategyForGear :: "gear \<Rightarrow> bool \<Rightarrow> plan_strategy" where
  "PlanStrategyForGear g has_asker =
     (if g = GearE2 \<or> g = GearE3 \<or> g = GearAuto then if has_asker then DialecticPlanStrategy else DirectPlanStrategy
      else DirectPlanStrategy)"

record 'ann adaptive =
  ad_inner :: plan_strategy
  ad_store :: "'ann graph option"
  ad_threshold :: rat

definition NewAdaptiveStrategy :: "plan_strategy \<Rightarrow> 'ann graph option \<Rightarrow> rat \<Rightarrow> 'ann adaptive" where
  "NewAdaptiveStrategy inner store threshold =
     \<lparr>ad_inner = inner, ad_store = store, ad_threshold = (if threshold \<le> 0 then 1 / 5 else threshold)\<rparr>"

definition adaptive_name :: "'ann adaptive \<Rightarrow> string" where
  "adaptive_name a = ''adaptive('' @ strategy_name (ad_inner a) @ '')''"

definition adaptive_refine :: "(string \<Rightarrow> string + string) \<Rightarrow> 'ann adaptive \<Rightarrow> string \<Rightarrow> string" where
  "adaptive_refine ask a plan = Refine ask (ad_inner a) plan"

definition drift_prompt :: "nat \<Rightarrow> nat \<Rightarrow> nat \<Rightarrow> rat \<Rightarrow> rat \<Rightarrow> string \<Rightarrow> string" where
  "drift_prompt n completed blocked drift threshold plan =
     ''ADAPTIVE CHECKPOINT '' @ em_dash @ '' Plan drift detected.'' @ [CHR 0x0A, CHR 0x0A] @
     ''Tasks: '' @ nat_dec n @ '' total, '' @ nat_dec completed @ '' completed, '' @ nat_dec blocked @ '' blocked/failed (drift: '' @
     fmt_percent0 (drift * 100) @ ''%)'' @ [CHR 0x0A] @ ''Threshold: '' @ fmt_percent0 (threshold * 100) @ ''%'' @ [CHR 0x0A, CHR 0x0A] @
     ''Current plan:'' @ [CHR 0x0A] @ plan @ [CHR 0x0A, CHR 0x0A] @ ''Propose a revised plan that addresses the blocked tasks. '' @
     ''Keep completed work, re-scope or re-order the remaining tasks.''"

text \<open>The result is an error, or the revised plan and whether there was drift.\<close>

definition adaptive_checkpoint :: "(string \<Rightarrow> string + string) option \<Rightarrow> 'ann adaptive \<Rightarrow> string \<Rightarrow> string + (string \<times> bool)" where
  "adaptive_checkpoint asker a currentPlan =
     (case (ad_store a, asker) of
        (Some g, Some ask) \<Rightarrow>
          (let tasks = graph_list_sorted g
           in if tasks = [] then Inr ([], False)
              else (let completed = length (filter (\<lambda>t. a_Status t = ''completed'' \<or> a_Status t = ''done'') tasks);
                        blocked = length (filter (\<lambda>t. a_Status t = ''blocked'' \<or> a_Status t = ''failed'') tasks);
                        drift = of_nat blocked / of_nat (length tasks)
                    in if drift < ad_threshold a then Inr ([], False)
                       else (case ask (drift_prompt (length tasks) completed blocked drift (ad_threshold a) currentPlan) of
                               Inl err \<Rightarrow> Inl (''adaptive checkpoint: '' @ err) | Inr revised \<Rightarrow> Inr (revised, True))))
      | _ \<Rightarrow> Inr ([], False))"

subsection \<open>The gate does not depend on the order of its checks\<close>

lemma aggregate_ok:
  "\<forall>r \<in> set rs. cr_err r = None \<Longrightarrow>
   aggregate_gate rs p ds = Inr \<lparr>gr_Passed = (p \<and> (\<forall>r \<in> set rs. cr_passed r)), gr_Diagnostics = ds @ concat (map cr_diagnostics rs)\<rparr>"
  by (induction rs arbitrary: p ds) auto

lemma aggregate_err:
  "\<forall>r \<in> set rs. r \<noteq> b \<longrightarrow> cr_err r = None \<Longrightarrow> b \<in> set rs \<Longrightarrow> cr_err b = Some e \<Longrightarrow>
   aggregate_gate rs p ds = Inl (cr_name b @ '' check error: '' @ e)"
proof (induction rs arbitrary: p ds)
  case (Cons r rs)
  show ?case
  proof (cases "cr_err r")
    case None
    then have "b \<noteq> r" using Cons.prems(3) by (metis option.distinct(1))
    then have "b \<in> set rs" using Cons.prems(2) by simp
    then show ?thesis using Cons.IH Cons.prems None by simp
  next
    case (Some e')
    then have "r = b" using Cons.prems(1) by auto
    then show ?thesis using Cons.prems(3) by simp
  qed
qed simp

lemma optional_no_err: "r \<in> set (optional_result n s c) \<Longrightarrow> cr_err r = None"
proof (cases c)
  case (Some x)
  then show "r \<in> set (optional_result n s c) \<Longrightarrow> cr_err r = None" by (cases x) (simp_all add: optional_result_def)
qed (simp add: optional_result_def)

lemma optional_passed: "(\<forall>r \<in> set (optional_result n s c). cr_passed r) \<longleftrightarrow> (\<forall>e. c \<noteq> Some (Some e))"
proof (cases c)
  case (Some x)
  then show ?thesis by (cases x) (simp_all add: optional_result_def)
qed (simp add: optional_result_def)

text \<open>The verdict of the composite gate does not depend on the order in which its checks finish: a
  build that could not run is the gate's error, otherwise the gate passes exactly when the build passed and neither
  optional check failed, with every diagnostic exactly once; only the order of the diagnostics may differ.\<close>

lemma triple_gate_result:
  assumes "mset (order (gate_results build arch spec)) = mset (gate_results build arch spec)"
  shows "case build of
      Inl err \<Rightarrow> triple_gate order build arch spec = Inl (''build check error: '' @ err)
    | Inr gr \<Rightarrow> \<exists>ds. triple_gate order build arch spec = Inr \<lparr>gr_Passed = (gr_Passed gr \<and> (\<forall>e. arch \<noteq> Some (Some e)) \<and> (\<forall>e. spec \<noteq> Some (Some e))),
        gr_Diagnostics = ds\<rparr> \<and> mset ds = mset (concat (map cr_diagnostics (gate_results build arch spec)))"
proof -
  let ?rs = "order (gate_results build arch spec)"
  have s: "set ?rs = set (gate_results build arch spec)" using assms mset_eq_setD by blast
  show ?thesis
  proof (cases build)
    case (Inl err)
    have "aggregate_gate ?rs True [] = Inl (cr_name (build_result build) @ '' check error: '' @ err)"
    proof (rule aggregate_err)
      show "\<forall>r \<in> set ?rs. r \<noteq> build_result build \<longrightarrow> cr_err r = None"
        unfolding s unfolding gate_results_def list.set set_append Ball_def using optional_no_err by blast
      show "build_result build \<in> set ?rs" unfolding s by (simp add: gate_results_def)
    qed (simp add: Inl build_result_def)
    then show ?thesis by (simp add: Inl triple_gate_def build_result_def)
  next
    case (Inr gr)
    have "\<forall>r \<in> set ?rs. cr_err r = None"
      unfolding s unfolding gate_results_def list.set set_append
      using optional_no_err by (simp add: Inr build_result_def ball_Un)
    note a = aggregate_ok [OF this, of True "[]"]
    have "(\<forall>r \<in> set ?rs. cr_passed r) \<longleftrightarrow> gr_Passed gr \<and> (\<forall>e. arch \<noteq> Some (Some e)) \<and> (\<forall>e. spec \<noteq> Some (Some e))"
      unfolding s using optional_passed [of "''arch''" "''locus''" arch] optional_passed [of "''spec''" "''scribe''" spec]
      by (simp add: gate_results_def Inr build_result_def ball_Un)
    moreover have "mset (concat (map cr_diagnostics ?rs)) = mset (concat (map cr_diagnostics (gate_results build arch spec)))"
    proof -
      have "mset (concat (map f xs)) = (\<Sum>x \<in># mset xs. mset (f x))" for f :: "check_result \<Rightarrow> diagnostic list" and xs
        by (induction xs) simp_all
      then show ?thesis by (simp only: assms)
    qed
    ultimately show ?thesis using a by (simp add: Inr triple_gate_def)
  qed
qed

lemma triple_gate_result_witness:
  "\<exists>ds. triple_gate rev (Inr \<lparr>gr_Passed = True, gr_Diagnostics = []\<rparr>) (Some (Some ''cycle'')) None =
     Inr \<lparr>gr_Passed = False, gr_Diagnostics = ds\<rparr> \<and> mset ds = {#\<lparr>di_Source = ''locus'', di_Level = ''error'', di_Message = ''cycle''\<rparr>#}"
  using triple_gate_result [of rev "Inr \<lparr>gr_Passed = True, gr_Diagnostics = []\<rparr>" "Some (Some ''cycle'')" None]
  by (simp add: gate_results_def build_result_def optional_result_def)

end
