(* ===== verification/Uniform_Memory.thy ===== *)
theory Uniform_Memory
  imports Go_Strings
begin

text \<open>
  The memory of the roles (\<^verbatim>\<open>uniform/memory/memory.go\<close>) and the registry of messages the
  operator has to answer (\<^verbatim>\<open>uniform/collab/roundtrip.go\<close>). The index of the memory holds
  pointers into the slices; an entry is never changed in place, so the index holds the entry. The
  clock is an argument.
\<close>

definition pad_zero :: "nat \<Rightarrow> string \<Rightarrow> string" where
  "pad_zero n s = replicate (n - length s) (CHR ''0'') @ s"

record mem_entry =
  en_ID :: string
  en_Speaker :: string
  en_Role :: string
  en_Content :: string
  en_Timestamp :: gotime

record role_memory =
  mm_slices :: "(string, mem_entry list) gomap"
  mm_briefing :: "mem_entry list"
  mm_nextID :: nat
  mm_allByID :: "(string, mem_entry) gomap"

definition NewRoleMemory :: role_memory where
  "NewRoleMemory = \<lparr>mm_slices = [], mm_briefing = [], mm_nextID = 0, mm_allByID = []\<rparr>"

definition msg_id :: "nat \<Rightarrow> string" where "msg_id n = ''MSG-'' @ pad_zero 4 (nat_dec n)"
definition brf_id :: "nat \<Rightarrow> string" where "brf_id n = ''BRF-'' @ pad_zero 4 (nat_dec n)"

definition stamp_entry :: "gotime \<Rightarrow> mem_entry \<Rightarrow> mem_entry" where
  "stamp_entry now e = (if en_Timestamp e = zero_time then e\<lparr>en_Timestamp := now\<rparr> else e)"

definition memory_append :: "gotime \<Rightarrow> string \<Rightarrow> mem_entry \<Rightarrow> role_memory \<Rightarrow> role_memory \<times> string" where
  "memory_append now role e m =
     (let n = mm_nextID m + 1;
          e1 = stamp_entry now (e\<lparr>en_ID := msg_id n, en_Speaker := role\<rparr>)
      in (m\<lparr>mm_nextID := n, mm_slices := mset_at (mm_slices m) role (mget [] (mm_slices m) role @ [e1]),
            mm_allByID := mset_at (mm_allByID m) (en_ID e1) e1\<rparr>, en_ID e1))"

definition memory_history :: "string \<Rightarrow> role_memory \<Rightarrow> mem_entry list" where
  "memory_history role m = mget [] (mm_slices m) role"

definition AppendBriefing :: "gotime \<Rightarrow> mem_entry \<Rightarrow> role_memory \<Rightarrow> role_memory \<times> string" where
  "AppendBriefing now e m =
     (let n = mm_nextID m + 1;
          e1 = stamp_entry now (e\<lparr>en_ID := brf_id n\<rparr>)
      in (m\<lparr>mm_nextID := n, mm_briefing := mm_briefing m @ [e1], mm_allByID := mset_at (mm_allByID m) (en_ID e1) e1\<rparr>, en_ID e1))"

definition memory_get :: "string \<Rightarrow> role_memory \<Rightarrow> mem_entry option" where
  "memory_get i m = map_of (mm_allByID m) i"

text \<open>The order in which the roles are ranged over is the argument \<open>ord\<close>.\<close>

definition memory_search :: "((string, mem_entry list) gomap \<Rightarrow> (string, mem_entry list) gomap) \<Rightarrow> string \<Rightarrow> role_memory \<Rightarrow>
    mem_entry list" where
  "memory_search ord query m =
     (let q = to_lower query; hit = (\<lambda>e. str_contains (to_lower (en_Content e)) q)
      in filter hit (concat (vals (ord (mm_slices m)))) @ filter hit (mm_briefing m))"

definition memory_context :: "string \<Rightarrow> role_memory \<Rightarrow> mem_entry list" where
  "memory_context role m = mm_briefing m @ mget [] (mm_slices m) role"

definition GetSlice :: "string \<Rightarrow> role_memory \<Rightarrow> mem_entry list" where
  "GetSlice role m = mget [] (mm_slices m) role"

definition seed_entry :: "gotime \<Rightarrow> string \<Rightarrow> role_memory \<times> mem_entry list \<Rightarrow> mem_entry \<Rightarrow> role_memory \<times> mem_entry list" where
  "seed_entry now role st e =
     (case st of (m, seeded) \<Rightarrow>
        let e1 = (if en_Speaker e = [] then e\<lparr>en_Speaker := role\<rparr> else e);
            m1 = (if en_ID e1 = [] then m\<lparr>mm_nextID := mm_nextID m + 1\<rparr> else m);
            e2 = (if en_ID e1 = [] then e1\<lparr>en_ID := msg_id (mm_nextID m1)\<rparr> else e1);
            e3 = stamp_entry now e2
        in (m1\<lparr>mm_allByID := mset_at (mm_allByID m1) (en_ID e3) e3\<rparr>, seeded @ [e3]))"

definition SeedSlice :: "gotime \<Rightarrow> string \<Rightarrow> mem_entry list \<Rightarrow> role_memory \<Rightarrow> role_memory" where
  "SeedSlice now role entries m =
     (case foldl (seed_entry now role) (m, []) entries of (m1, seeded) \<Rightarrow>
        m1\<lparr>mm_slices := mset_at (mm_slices m1) role seeded\<rparr>)"

definition memory_clear :: "string \<Rightarrow> role_memory \<Rightarrow> role_memory" where
  "memory_clear role m =
     m\<lparr>mm_allByID := foldl (\<lambda>ix e. mdelete ix (en_ID e)) (mm_allByID m) (mget [] (mm_slices m) role),
       mm_slices := mdelete (mm_slices m) role\<rparr>"

definition SliceLen :: "string \<Rightarrow> role_memory \<Rightarrow> nat" where
  "SliceLen role m = length (mget [] (mm_slices m) role)"

definition memory_len :: "role_memory \<Rightarrow> nat" where
  "memory_len m = foldl (\<lambda>n s. n + length s) (length (mm_briefing m)) (vals (mm_slices m))"

datatype memory_op =
  MAppend gotime string mem_entry
| MBriefing gotime mem_entry
| MSeed gotime string "mem_entry list"
| MClear string

fun memory_step :: "role_memory \<Rightarrow> memory_op \<Rightarrow> role_memory" where
  "memory_step m (MAppend now role e) = fst (memory_append now role e m)"
| "memory_step m (MBriefing now e) = fst (AppendBriefing now e m)"
| "memory_step m (MSeed now role es) = SeedSlice now role es m"
| "memory_step m (MClear role) = memory_clear role m"

subsection \<open>Messages for the operator\<close>

record pending_message =
  pm_ID :: string
  pm_Content :: string
  pm_Received :: gotime
  pm_Acknowledged :: bool
  pm_Responded :: bool

record round_trips =
  rt_messages :: "(string, pending_message) gomap"
  rt_nextID :: nat

definition NewRoundTripRegistry :: round_trips where
  "NewRoundTripRegistry = \<lparr>rt_messages = [], rt_nextID = 0\<rparr>"

definition message_id :: "nat \<Rightarrow> string" where "message_id n = ''msg-'' @ nat_dec n"

definition register_message :: "gotime \<Rightarrow> string \<Rightarrow> round_trips \<Rightarrow> round_trips \<times> string" where
  "register_message now content r =
     (let n = rt_nextID r + 1; i = message_id n
      in (r\<lparr>rt_nextID := n, rt_messages := mset_at (rt_messages r) i
            \<lparr>pm_ID = i, pm_Content = content, pm_Received = now, pm_Acknowledged = False, pm_Responded = False\<rparr>\<rparr>, i))"

definition Acknowledge :: "string \<Rightarrow> round_trips \<Rightarrow> round_trips" where
  "Acknowledge i r = (case map_of (rt_messages r) i of None \<Rightarrow> r
     | Some msg \<Rightarrow> r\<lparr>rt_messages := mset_at (rt_messages r) i (msg\<lparr>pm_Acknowledged := True\<rparr>)\<rparr>)"

definition Respond :: "string \<Rightarrow> round_trips \<Rightarrow> round_trips" where
  "Respond i r = (case map_of (rt_messages r) i of None \<Rightarrow> r
     | Some msg \<Rightarrow> r\<lparr>rt_messages := mset_at (rt_messages r) i (msg\<lparr>pm_Responded := True\<rparr>)\<rparr>)"

definition Pending :: "round_trips \<Rightarrow> pending_message list" where
  "Pending r = filter (\<lambda>msg. \<not> pm_Responded msg) (vals (rt_messages r))"

definition operator_pending_count :: "round_trips \<Rightarrow> nat" where
  "operator_pending_count r = foldl (\<lambda>n msg. if \<not> pm_Responded msg then n + 1 else n) 0 (vals (rt_messages r))"

subsection \<open>Generated names\<close>

lemma dec_val_pad: "dec_val (replicate k (CHR ''0'') @ s) = dec_val s"
proof (induction s rule: rev_induct)
  case Nil
  have "dec_val (replicate k (CHR ''0'')) = 0"
    by (induction k) (simp_all add: dec_val_def digit_val_def)
  then show ?case by (simp add: dec_val_def)
next
  case (snoc c s)
  then show ?case by (simp flip: append_assoc)
qed

lemma pad_zero_inj: "pad_zero k (nat_dec m) = pad_zero k (nat_dec n) \<longleftrightarrow> m = n"
  by (metis dec_val_nat_dec dec_val_pad pad_zero_def)

lemma mem_ids [simp]: "msg_id m = msg_id n \<longleftrightarrow> m = n" "brf_id m = brf_id n \<longleftrightarrow> m = n" "msg_id m \<noteq> brf_id n" "brf_id m \<noteq> msg_id n"
  "msg_id n \<noteq> []" "brf_id n \<noteq> []"
  by (simp_all add: msg_id_def brf_id_def pad_zero_inj)

lemma gather_delete:
  "wf_map m \<Longrightarrow> gather f (mdelete m k) + (case map_of m k of None \<Rightarrow> {#} | Some v \<Rightarrow> mset (f v)) = gather f m"
  by (induction m) (auto simp: gather_def delete_id ac_simps dest: map_of_Some_key)

subsection \<open>The index knows every entry, under names that are never reused\<close>

definition entry_ids :: "role_memory \<Rightarrow> string multiset" where
  "entry_ids m = mset (map en_ID (mm_briefing m)) + gather (map en_ID) (mm_slices m)"

definition entries_of :: "role_memory \<Rightarrow> mem_entry set" where
  "entries_of m = set (mm_briefing m) \<union> (\<Union>r. set (mget [] (mm_slices m) r))"

definition issued :: "nat \<Rightarrow> string set" where
  "issued n = (\<Union>k \<in> {1..n}. {msg_id k, brf_id k})"

definition index_ok :: "role_memory \<Rightarrow> bool" where
  "index_ok m = (\<forall>i e. map_of (mm_allByID m) i = Some e \<longrightarrow> en_ID e = i \<and> i \<in> issued (mm_nextID m))"

definition memory_ok :: "role_memory \<Rightarrow> bool" where
  "memory_ok m =
     (wf_map (mm_slices m) \<and> (\<forall>i. count (entry_ids m) i \<le> 1) \<and>
      (\<forall>e \<in> entries_of m. map_of (mm_allByID m) (en_ID e) = Some e) \<and> index_ok m)"

lemma issued_mono: "m \<le> n \<Longrightarrow> issued m \<subseteq> issued n"
  unfolding issued_def by auto

lemma issued_next: "issued (Suc n) = {msg_id (Suc n), brf_id (Suc n)} \<union> issued n"
  by (auto simp: issued_def atLeastAtMostSuc_conv)

lemma issued_fresh: "msg_id (Suc n) \<notin> issued n" "brf_id (Suc n) \<notin> issued n"
  by (auto simp: issued_def)

lemma entry_ids_set:
  assumes "wf_map (mm_slices m)" shows "set_mset (entry_ids m) = en_ID ` entries_of m"
proof -
  have "(\<Union>es \<in> set (vals (mm_slices m)). set es) = (\<Union>r. set (mget [] (mm_slices m) r))"
  proof (rule set_eqI)
    fix x
    have "x \<in> (\<Union>es \<in> set (vals (mm_slices m)). set es) \<longleftrightarrow> (\<exists>r es. map_of (mm_slices m) r = Some es \<and> x \<in> set es)"
      unfolding UN_iff vals_lookup [OF assms] Bex_def by blast
    also have "\<dots> \<longleftrightarrow> x \<in> (\<Union>r. set (mget [] (mm_slices m) r))"
    proof -
      have "x \<in> set (mget [] (mm_slices m) r) \<longleftrightarrow> (\<exists>es. map_of (mm_slices m) r = Some es \<and> x \<in> set es)" for r
        by (cases "map_of (mm_slices m) r") (simp_all add: mget_def del: map_of_eq_Some_iff)
      then show ?thesis by (simp only: UN_iff) blast
    qed
    finally show "x \<in> (\<Union>es \<in> set (vals (mm_slices m)). set es) \<longleftrightarrow> x \<in> (\<Union>r. set (mget [] (mm_slices m) r))" .
  qed
  moreover have "set_mset (gather (map en_ID) (mm_slices m)) = en_ID ` (\<Union>es \<in> set (vals (mm_slices m)). set es)"
    by (auto simp: gather_def)
  ultimately show ?thesis by (simp add: entry_ids_def entries_of_def image_Un)
qed

lemma ids_known: "memory_ok m \<Longrightarrow> i \<in># entry_ids m \<Longrightarrow> i \<in> issued (mm_nextID m)"
proof -
  assume m: "memory_ok m" and "i \<in># entry_ids m"
  then obtain e where "e \<in> entries_of m" "i = en_ID e" using entry_ids_set [of m] unfolding memory_ok_def by blast
  then have "map_of (mm_allByID m) i = Some e" using m unfolding memory_ok_def by blast
  then show "i \<in> issued (mm_nextID m)" using m unfolding memory_ok_def index_ok_def by blast
qed

lemma slice_ids:
  "gather (map en_ID) (mset_at M role es) + mset (map en_ID (mget [] M role)) = gather (map en_ID) M + mset (map en_ID es)"
  using gather_mset_at [where f = "map en_ID" and m = M and k = role and v = es] by (simp add: mget_def split: option.splits)

lemma stamp_entry_ID [simp]: "en_ID (stamp_entry now e) = en_ID e"
  by (simp add: stamp_entry_def)

text \<open>A new entry under a fresh name.\<close>

lemma memory_ok_new:
  assumes m: "memory_ok m" and i: "en_ID e \<in> {msg_id (Suc (mm_nextID m)), brf_id (Suc (mm_nextID m))}"
    and m': "mm_nextID m' = Suc (mm_nextID m)" "mm_allByID m' = mset_at (mm_allByID m) (en_ID e) e" "wf_map (mm_slices m')"
    "entry_ids m' = add_mset (en_ID e) (entry_ids m)" "entries_of m' = insert e (entries_of m)"
  shows "memory_ok m'"
proof -
  have f: "en_ID e \<notin> issued (mm_nextID m)" using i issued_fresh by auto
  then have n: "en_ID e \<notin># entry_ids m" using ids_known [OF m] by blast
  have "count (entry_ids m') j \<le> 1" for j
    using m n by (auto simp: m'(4) memory_ok_def not_in_iff)
  moreover have "map_of (mm_allByID m') (en_ID x) = Some x" if "x \<in> entries_of m'" for x
  proof (cases "x = e")
    case True
    then show ?thesis by (simp add: m'(2))
  next
    case False
    then have x: "x \<in> entries_of m" using that m'(5) by simp
    have "en_ID x \<in># entry_ids m" using x entry_ids_set [of m] m unfolding memory_ok_def by blast
    then have "en_ID x \<noteq> en_ID e" using n by auto
    then show ?thesis using m x by (simp add: m'(2) memory_ok_def)
  qed
  moreover have "index_ok m'"
    using m i unfolding memory_ok_def index_ok_def m'(1,2) issued_next map_of_mset_at by auto
  ultimately show ?thesis using m'(3) unfolding memory_ok_def by blast
qed

lemma append_ok: "memory_ok m \<Longrightarrow> memory_ok (fst (memory_append now role e m))"
proof -
  assume m: "memory_ok m"
  let ?e = "stamp_entry now (e\<lparr>en_ID := msg_id (Suc (mm_nextID m)), en_Speaker := role\<rparr>)"
  have r: "fst (memory_append now role e m) =
      m\<lparr>mm_nextID := Suc (mm_nextID m), mm_slices := mset_at (mm_slices m) role (mget [] (mm_slices m) role @ [?e]),
        mm_allByID := mset_at (mm_allByID m) (en_ID ?e) ?e\<rparr>"
    by (simp add: memory_append_def Let_def)
  show ?thesis unfolding r
  proof (rule memory_ok_new [OF m, of ?e])
    show "entries_of (m\<lparr>mm_nextID := Suc (mm_nextID m), mm_slices := mset_at (mm_slices m) role (mget [] (mm_slices m) role @ [?e]),
        mm_allByID := mset_at (mm_allByID m) (en_ID ?e) ?e\<rparr>) = insert ?e (entries_of m)"
      by (auto simp: entries_of_def split: if_splits)
  qed (use m slice_ids [where M = "mm_slices m" and role = role and es = "mget [] (mm_slices m) role @ [?e]"] in
    \<open>simp_all add: memory_ok_def entry_ids_def ac_simps\<close>)
qed

lemma briefing_ok: "memory_ok m \<Longrightarrow> memory_ok (fst (AppendBriefing now e m))"
  by (rule memory_ok_new [where m = m and e = "stamp_entry now (e\<lparr>en_ID := brf_id (Suc (mm_nextID m))\<rparr>)"])
    (auto simp: AppendBriefing_def Let_def memory_ok_def entry_ids_def entries_of_def)

lemma index_delete: "map_of (foldl (\<lambda>ix e. mdelete ix (en_ID e)) ix es) i = (if i \<in> en_ID ` set es then None else map_of ix i)"
  by (induction es arbitrary: ix) auto

lemma clear_ok:
  assumes m: "memory_ok m" shows "memory_ok (memory_clear role m)"
proof -
  let ?m = "memory_clear role m" and ?es = "mget [] (mm_slices m) role"
  have w: "wf_map (mm_slices m)" using m by (simp add: memory_ok_def)
  have ids: "entry_ids ?m + mset (map en_ID ?es) = entry_ids m"
    using gather_delete [OF w, of "map en_ID" role]
    by (simp add: entry_ids_def memory_clear_def mget_def ac_simps split: option.splits)
  have c: "count (entry_ids m) j = count (entry_ids ?m) j + count (mset (map en_ID ?es)) j" for j
    unfolding ids [symmetric] by simp
  have w': "wf_map (mm_slices ?m)" using w by (simp add: memory_clear_def)
  have sub: "x \<in> entries_of m" if "x \<in> entries_of ?m" for x
    using that by (auto simp: entries_of_def memory_clear_def mget_def split: if_splits option.splits)
  have k: "map_of (mm_allByID ?m) (en_ID x) = Some x" if x: "x \<in> entries_of ?m" for x
  proof -
    have "0 < count (entry_ids ?m) (en_ID x)"
      using x entry_ids_set [OF w'] by (metis count_greater_zero_iff imageI)
    then have "count (mset (map en_ID ?es)) (en_ID x) = 0"
      using c [of "en_ID x"] m unfolding memory_ok_def by (metis add_is_1 One_nat_def le_Suc_eq le_zero_eq not_gr_zero add_is_0)
    then have "en_ID x \<notin> en_ID ` set ?es" by (metis count_eq_zero_iff set_map set_mset_mset)
    then show ?thesis using m sub [OF x] by (simp add: memory_clear_def index_delete memory_ok_def)
  qed
  have "index_ok ?m"
    using m unfolding memory_ok_def index_ok_def by (simp add: memory_clear_def index_delete)
  moreover have "count (entry_ids ?m) j \<le> 1" for j
    using c [of j] m unfolding memory_ok_def by (metis le_add1 le_trans)
  ultimately show ?thesis using w' k unfolding memory_ok_def by blast
qed

text \<open>Seeding a slice with entries that have no name yet.\<close>

lemma seed_fold:
  assumes "index_ok m" "\<forall>e \<in> set es. en_ID e = []" "foldl (seed_entry now role) (m, []) es = (m1, seeded)"
  shows "mm_slices m1 = mm_slices m \<and> mm_briefing m1 = mm_briefing m \<and> mm_nextID m \<le> mm_nextID m1 \<and> index_ok m1 \<and>
    (\<forall>e \<in> set seeded. map_of (mm_allByID m1) (en_ID e) = Some e \<and> en_ID e \<in> issued (mm_nextID m1) - issued (mm_nextID m)) \<and>
    distinct (map en_ID seeded) \<and> (\<forall>i \<in> issued (mm_nextID m). map_of (mm_allByID m1) i = map_of (mm_allByID m) i)"
  using assms(2,3)
proof (induction es arbitrary: m1 seeded rule: rev_induct)
  case Nil
  then show ?case using assms(1) by simp
next
  case (snoc x es)
  obtain m0 sd where f: "foldl (seed_entry now role) (m, []) es = (m0, sd)" by force
  have IH: "mm_slices m0 = mm_slices m" "mm_briefing m0 = mm_briefing m" "mm_nextID m \<le> mm_nextID m0" "index_ok m0"
    "\<forall>e \<in> set sd. map_of (mm_allByID m0) (en_ID e) = Some e \<and> en_ID e \<in> issued (mm_nextID m0) - issued (mm_nextID m)"
    "distinct (map en_ID sd)" "\<forall>i \<in> issued (mm_nextID m). map_of (mm_allByID m0) i = map_of (mm_allByID m) i"
  proof -
    have "\<forall>e \<in> set es. en_ID e = []" using snoc.prems(1) by simp
    note h = snoc.IH [OF this f]
    show "mm_slices m0 = mm_slices m" "mm_briefing m0 = mm_briefing m" "mm_nextID m \<le> mm_nextID m0" "index_ok m0"
      "\<forall>e \<in> set sd. map_of (mm_allByID m0) (en_ID e) = Some e \<and> en_ID e \<in> issued (mm_nextID m0) - issued (mm_nextID m)"
      "distinct (map en_ID sd)" "\<forall>i \<in> issued (mm_nextID m). map_of (mm_allByID m0) i = map_of (mm_allByID m) i"
      using h by blast+
  qed
  let ?i = "msg_id (Suc (mm_nextID m0))"
  have x: "en_ID x = []" using snoc.prems(1) by simp
  have "seed_entry now role (m0, sd) x = (m1, seeded)" using snoc.prems(2) by (simp add: f)
  then obtain e where r: "m1 = m0\<lparr>mm_nextID := Suc (mm_nextID m0), mm_allByID := mset_at (mm_allByID m0) ?i e\<rparr>"
    "seeded = sd @ [e]" "en_ID e = ?i"
    using x by (auto simp: seed_entry_def Let_def)
  have s: "issued (mm_nextID m) \<subseteq> issued (mm_nextID m0)" using issued_mono IH(3) .
  then have fr: "?i \<notin> issued (mm_nextID m0)" "?i \<notin> issued (mm_nextID m)" using issued_fresh by blast+
  have "index_ok m1" using IH(4) r(3) unfolding index_ok_def r(1) by (auto simp: issued_next)
  moreover have n: "\<forall>a \<in> set sd. en_ID a \<noteq> ?i" using IH(5) fr(1) by (metis DiffD1)
  moreover have "\<forall>a \<in> set sd. map_of (mm_allByID m1) (en_ID a) = Some a \<and> en_ID a \<in> issued (mm_nextID m1) - issued (mm_nextID m)"
  proof
    fix a assume a: "a \<in> set sd"
    then have "en_ID a \<noteq> ?i" using n by blast
    then show "map_of (mm_allByID m1) (en_ID a) = Some a \<and> en_ID a \<in> issued (mm_nextID m1) - issued (mm_nextID m)"
      using IH(5) a by (simp add: r(1) issued_next)
  qed
  moreover have "map_of (mm_allByID m1) ?i = Some e \<and> ?i \<in> issued (mm_nextID m1) - issued (mm_nextID m)"
    using fr(2) by (simp add: r(1) issued_next)
  moreover have "\<forall>i \<in> issued (mm_nextID m). map_of (mm_allByID m1) i = map_of (mm_allByID m) i"
    using IH(7) fr(2) by (auto simp: r(1))
  moreover have "distinct (map en_ID seeded)" using IH(6) n by (auto simp: r(2,3))
  ultimately show ?case using IH(1-3) by (simp add: r)
qed

lemma seed_ok:
  assumes m: "memory_ok m" and es: "\<forall>e \<in> set es. en_ID e = []" shows "memory_ok (SeedSlice now role es m)"
proof -
  obtain m1 sd where f: "foldl (seed_entry now role) (m, []) es = (m1, sd)" by force
  have "index_ok m" using m by (simp add: memory_ok_def)
  note r = seed_fold [OF this es f]
  let ?m = "m1\<lparr>mm_slices := mset_at (mm_slices m1) role sd\<rparr>"
  have e: "SeedSlice now role es m = ?m" by (simp add: SeedSlice_def f)
  have w: "wf_map (mm_slices ?m)" using m r by (simp add: memory_ok_def)
  have "entry_ids ?m + mset (map en_ID (mget [] (mm_slices m) role)) = entry_ids m + mset (map en_ID sd)"
    using slice_ids [where M = "mm_slices m" and role = role and es = sd] r by (simp add: entry_ids_def ac_simps)
  then have c: "count (entry_ids ?m) j \<le> count (entry_ids m) j + count (mset (map en_ID sd)) j" for j
    by (metis count_union le_add1)
  have "count (entry_ids ?m) j \<le> 1" for j
  proof (cases "j \<in> issued (mm_nextID m)")
    case True
    then have "count (mset (map en_ID sd)) j = 0" using r by (metis DiffE count_mset_0_iff imageE set_map)
    then show ?thesis using c [of j] m unfolding memory_ok_def by (metis add.right_neutral le_trans)
  next
    case False
    then have "count (entry_ids m) j = 0" using ids_known [OF m] by (metis not_in_iff)
    moreover have "count (mset (map en_ID sd)) j \<le> 1" using r by (simp add: distinct_count_atmost_1)
    ultimately show ?thesis using c [of j] by linarith
  qed
  moreover have "map_of (mm_allByID ?m) (en_ID x) = Some x" if "x \<in> entries_of ?m" for x
  proof -
    have "x \<in> set sd \<or> x \<in> entries_of m" using that r by (auto simp: entries_of_def split: if_splits)
    then show ?thesis
    proof
      assume "x \<in> entries_of m"
      then have "map_of (mm_allByID m) (en_ID x) = Some x" using m by (simp add: memory_ok_def)
      moreover from this have "en_ID x \<in> issued (mm_nextID m)" using m unfolding memory_ok_def index_ok_def by blast
      ultimately show ?thesis using r by simp
    qed (use r in simp)
  qed
  moreover have "index_ok ?m" using r by (simp add: index_ok_def)
  ultimately show ?thesis using w unfolding e memory_ok_def by blast
qed

definition unnamed_seed :: "memory_op \<Rightarrow> bool" where
  "unnamed_seed c = (case c of MSeed now role es \<Rightarrow> \<forall>e \<in> set es. en_ID e = [] | _ \<Rightarrow> True)"

lemma memory_run_ok: "memory_ok m \<Longrightarrow> \<forall>c \<in> set cs. unnamed_seed c \<Longrightarrow> memory_ok (foldl memory_step m cs)"
proof (induction cs arbitrary: m)
  case (Cons c cs)
  have "memory_ok (memory_step m c)" using Cons.prems
    by (cases c) (auto simp: unnamed_seed_def intro: append_ok briefing_ok seed_ok clear_ok)
  then show ?case using Cons by simp
qed simp

lemma memory_new_ok: "memory_ok NewRoleMemory"
  by (simp add: memory_ok_def NewRoleMemory_def entry_ids_def entries_of_def gather_def index_ok_def mget_def)

subsection \<open>Roles do not see each other\<close>

lemma other_role_slice:
  "r' \<noteq> r \<Longrightarrow> memory_history r' (memory_step m (MAppend now r e)) = memory_history r' m"
  "r' \<noteq> r \<Longrightarrow> memory_history r' (memory_step m (MClear r)) = memory_history r' m"
  "memory_history r' (memory_step m (MBriefing now e)) = memory_history r' m"
  by (simp_all add: memory_history_def memory_append_def memory_clear_def AppendBriefing_def Let_def mget_def)

lemma operator_pending: "operator_pending_count r = length (Pending r)"
proof -
  have "foldl (\<lambda>n msg. if \<not> pm_Responded msg then n + 1 else n) k ms = k + length (filter (\<lambda>msg. \<not> pm_Responded msg) ms)" for k ms
    by (induction ms arbitrary: k) simp_all
  from this [of 0 "vals (rt_messages r)"] show ?thesis by (simp only: operator_pending_count_def Pending_def add_0)
qed

lemma memory_len_ids: "wf_map (mm_slices m) \<Longrightarrow> memory_len m = size (entry_ids m)"
proof -
  have "foldl (\<lambda>n s. n + length s) k ss = k + length (concat ss)" for k and ss :: "mem_entry list list"
    by (induction ss arbitrary: k) simp_all
  moreover have "size (mset (concat (map (map en_ID) ss))) = length (concat ss)" for ss :: "mem_entry list list"
    by (induction ss) simp_all
  ultimately show ?thesis by (simp only: memory_len_def entry_ids_def gather_def size_union size_mset length_map)
qed

text \<open>An entry that a seeding replaced is still found by its name.\<close>

lemma seeded_over_entry_stays:
  "memory_get ''MSG-0001'' (SeedSlice 1 ''r'' [] (fst (memory_append 1 ''r'' e NewRoleMemory))) \<noteq> None"
  "memory_history ''r'' (SeedSlice 1 ''r'' [] (fst (memory_append 1 ''r'' e NewRoleMemory))) = []"
proof -
  have "msg_id 1 = ''MSG-0001''" by code_simp
  then show "memory_get ''MSG-0001'' (SeedSlice 1 ''r'' [] (fst (memory_append 1 ''r'' e NewRoleMemory))) \<noteq> None"
    by (simp add: memory_get_def SeedSlice_def memory_append_def NewRoleMemory_def Let_def)
qed (simp add: memory_history_def SeedSlice_def)

end
