(* ===== verification/Tool_Stores.thy ===== *)
theory Tool_Stores
  imports Artifact_Graph Key_Store Uniform_Memory
begin

text \<open>
  The stores the tools keep: the forums of conversations (\<^verbatim>\<open>tools/discourse.go\<close>), the
  clipboard (\<^verbatim>\<open>tools/clip.go\<close>) and the atomic save they share
  (\<^verbatim>\<open>tools/persist.go\<close>). The clock, the JSON coder and the outcome of each call of the
  operating system are arguments.
\<close>

subsection \<open>Forums\<close>

datatype discourse_error = ErrForumNotFound | ErrTopicNotFound | ErrThreadNotFound | ErrInvalidStatus

record thread_message =
  tm_Role :: string
  tm_Content :: string
  tm_Timestamp :: gotime

record disc_thread =
  th_ID :: string
  th_Messages :: "thread_message list"
  th_Status :: string
  th_Created :: gotime
  th_Updated :: gotime

record disc_topic =
  to_ID :: string
  to_Title :: string
  to_Kind :: string
  to_Status :: string
  to_Threads :: "disc_thread list"
  to_Created :: gotime
  to_Updated :: gotime

record forum =
  fo_Scope :: string
  fo_Topics :: "disc_topic list"

record discourse =
  ds_forums :: "(string, forum) gomap"
  ds_nextIDs :: "(string, nat) gomap"

definition TopicDraft :: string where "TopicDraft = ''draft''"
definition TopicStash :: string where "TopicStash = ''stash''"
definition TopicActive :: string where "TopicActive = ''active''"
definition TopicComplete :: string where "TopicComplete = ''complete''"
definition TopicArchived :: string where "TopicArchived = ''archived''"
definition ThreadActive :: string where "ThreadActive = ''active''"

lemmas topic_states = TopicDraft_def TopicStash_def TopicActive_def TopicComplete_def TopicArchived_def

definition NewDiscourseStore :: discourse where
  "NewDiscourseStore = \<lparr>ds_forums = [], ds_nextIDs = []\<rparr>"

definition open_forum :: "string \<Rightarrow> discourse \<Rightarrow> discourse \<times> forum" where
  "open_forum scope d =
     (case map_of (ds_forums d) scope of
        Some f \<Rightarrow> (d, f)
      | None \<Rightarrow> let f = \<lparr>fo_Scope = scope, fo_Topics = []\<rparr> in (d\<lparr>ds_forums := mset_at (ds_forums d) scope f\<rparr>, f))"

definition GetForum :: "string \<Rightarrow> discourse \<Rightarrow> discourse \<times> forum" where
  "GetForum scope d = open_forum scope d"

definition discourse_id :: "string \<Rightarrow> nat \<Rightarrow> string" where
  "discourse_id namespace n = namespace @ ''-'' @ pad_zero 3 (nat_dec n)"

definition next_disc_id :: "string \<Rightarrow> discourse \<Rightarrow> discourse \<times> string" where
  "next_disc_id namespace d =
     (let n = mget 0 (ds_nextIDs d) namespace + 1
      in (d\<lparr>ds_nextIDs := mset_at (ds_nextIDs d) namespace n\<rparr>, discourse_id namespace n))"

definition put_forum :: "string \<Rightarrow> forum \<Rightarrow> discourse \<Rightarrow> discourse" where
  "put_forum scope f d = d\<lparr>ds_forums := mset_at (ds_forums d) scope f\<rparr>"

definition CreateTopic :: "gotime \<Rightarrow> string \<Rightarrow> string \<Rightarrow> string \<Rightarrow> discourse \<Rightarrow> discourse \<times> disc_topic" where
  "CreateTopic now scope title kind d =
     (case open_forum scope d of (d1, f) \<Rightarrow>
        case next_disc_id ''D'' d1 of (d2, i) \<Rightarrow>
          let t = \<lparr>to_ID = i, to_Title = title, to_Kind = kind, to_Status = TopicDraft, to_Threads = [],
                   to_Created = now, to_Updated = now\<rparr>
          in (put_forum scope (f\<lparr>fo_Topics := fo_Topics f @ [t]\<rparr>) d2, t))"

definition GetTopic :: "string \<Rightarrow> string \<Rightarrow> discourse \<Rightarrow> disc_topic option" where
  "GetTopic scope topicID d =
     (case map_of (ds_forums d) scope of None \<Rightarrow> None | Some f \<Rightarrow> List.find (\<lambda>t. to_ID t = topicID) (fo_Topics f))"

text \<open>The first element with the name is changed, through its pointer.\<close>

fun change_first :: "('a \<Rightarrow> bool) \<Rightarrow> ('a \<Rightarrow> 'a) \<Rightarrow> 'a list \<Rightarrow> 'a list" where
  "change_first P f [] = []"
| "change_first P f (x # xs) = (if P x then f x # xs else x # change_first P f xs)"

definition valid_topic_status :: "string \<Rightarrow> bool" where
  "valid_topic_status s = (s \<in> {TopicDraft, TopicStash, TopicActive, TopicComplete, TopicArchived})"

definition UpdateTopicStatus :: "gotime \<Rightarrow> string \<Rightarrow> string \<Rightarrow> string \<Rightarrow> discourse \<Rightarrow> discourse \<times> (discourse_error + unit)" where
  "UpdateTopicStatus now scope topicID status d =
     (case map_of (ds_forums d) scope of
        None \<Rightarrow> (d, Inl ErrForumNotFound)
      | Some f \<Rightarrow>
          if \<not> valid_topic_status status then (d, Inl ErrInvalidStatus)
          else if List.find (\<lambda>t. to_ID t = topicID) (fo_Topics f) = None then (d, Inl ErrTopicNotFound)
          else (put_forum scope (f\<lparr>fo_Topics := change_first (\<lambda>t. to_ID t = topicID)
                  (\<lambda>t. t\<lparr>to_Status := status, to_Updated := now\<rparr>) (fo_Topics f)\<rparr>) d, Inr ()))"

definition CreateThread :: "gotime \<Rightarrow> string \<Rightarrow> string \<Rightarrow> discourse \<Rightarrow> discourse \<times> (discourse_error + disc_thread)" where
  "CreateThread now scope topicID d =
     (case map_of (ds_forums d) scope of
        None \<Rightarrow> (d, Inl ErrForumNotFound)
      | Some f \<Rightarrow>
          if List.find (\<lambda>t. to_ID t = topicID) (fo_Topics f) = None then (d, Inl ErrTopicNotFound)
          else (case next_disc_id ''TH'' d of (d1, i) \<Rightarrow>
            let th = \<lparr>th_ID = i, th_Messages = [], th_Status = ThreadActive, th_Created = now, th_Updated = now\<rparr>
            in (put_forum scope (f\<lparr>fo_Topics := change_first (\<lambda>t. to_ID t = topicID)
                  (\<lambda>t. t\<lparr>to_Threads := to_Threads t @ [th], to_Updated := now\<rparr>) (fo_Topics f)\<rparr>) d1, Inr th)))"

definition add_message :: "gotime \<Rightarrow> string \<Rightarrow> string \<Rightarrow> disc_thread \<Rightarrow> disc_thread" where
  "add_message now role content th =
     th\<lparr>th_Messages := th_Messages th @ [\<lparr>tm_Role = role, tm_Content = content, tm_Timestamp = now\<rparr>], th_Updated := now\<rparr>"

definition AppendMessage :: "gotime \<Rightarrow> string \<Rightarrow> string \<Rightarrow> string \<Rightarrow> string \<Rightarrow> string \<Rightarrow> discourse \<Rightarrow>
    discourse \<times> (discourse_error + unit)" where
  "AppendMessage now scope topicID threadID role content d =
     (case map_of (ds_forums d) scope of
        None \<Rightarrow> (d, Inl ErrForumNotFound)
      | Some f \<Rightarrow>
          (case List.find (\<lambda>t. to_ID t = topicID) (fo_Topics f) of
             None \<Rightarrow> (d, Inl ErrTopicNotFound)
           | Some topic \<Rightarrow>
               if List.find (\<lambda>th. th_ID th = threadID) (to_Threads topic) = None then (d, Inl ErrThreadNotFound)
               else (put_forum scope (f\<lparr>fo_Topics := change_first (\<lambda>t. to_ID t = topicID)
                  (\<lambda>t. t\<lparr>to_Threads := change_first (\<lambda>th. th_ID th = threadID) (add_message now role content) (to_Threads t),
                         to_Updated := now\<rparr>) (fo_Topics f)\<rparr>) d, Inr ())))"

definition StaleTopics :: "gotime \<Rightarrow> string \<Rightarrow> int \<Rightarrow> discourse \<Rightarrow> disc_topic list" where
  "StaleTopics now scope threshold d =
     (case map_of (ds_forums d) scope of None \<Rightarrow> []
      | Some f \<Rightarrow> filter (\<lambda>t. \<not> (to_Status t = TopicComplete \<or> to_Status t = TopicArchived) \<and> to_Updated t < now - threshold)
          (fo_Topics f))"

definition OpenTopicCount :: "string \<Rightarrow> discourse \<Rightarrow> nat" where
  "OpenTopicCount scope d =
     (case map_of (ds_forums d) scope of None \<Rightarrow> 0
      | Some f \<Rightarrow> foldl (\<lambda>n t. if to_Status t = TopicDraft \<or> to_Status t = TopicStash \<or> to_Status t = TopicActive then n + 1 else n)
          0 (fo_Topics f))"

record discourse_state =
  dst_Forums :: "forum list"
  dst_NextIDs :: "(string, nat) gomap option"

definition marshal_discourse :: "discourse \<Rightarrow> discourse_state" where
  "marshal_discourse d = \<lparr>dst_Forums = sort_key fo_Scope (vals (ds_forums d)), dst_NextIDs = Some (ds_nextIDs d)\<rparr>"

definition load_discourse :: "discourse_state \<Rightarrow> discourse" where
  "load_discourse st = \<lparr>ds_forums = foldl (\<lambda>m f. mset_at m (fo_Scope f) f) [] (dst_Forums st),
     ds_nextIDs = (case dst_NextIDs st of None \<Rightarrow> [] | Some m \<Rightarrow> m)\<rparr>"

text \<open>The save that stores share; \<open>raw\<close> is the marshalled state, if it can be marshalled.\<close>

definition atomicSaveJSON :: "bytes option \<Rightarrow> os_outcome \<Rightarrow> string \<Rightarrow> filesys \<Rightarrow> filesys \<times> io_error option" where
  "atomicSaveJSON raw_data os path fs =
     (case raw_data of
        None \<Rightarrow> (fs, Some MarshalError)
      | Some raw \<Rightarrow>
          if \<not> mkdir_ok os then (fs, Some MkdirError)
          else (let tmp = path @ ''.tmp''
            in case write_result os of
              NotOpened \<Rightarrow> (fs, Some WriteTmpError)
            | Partial part \<Rightarrow> (fs(tmp \<mapsto> part), Some WriteTmpError)
            | Written \<Rightarrow>
                if rename_ok os then ((fs(tmp := None))(path \<mapsto> raw), None)
                else (if remove_ok os then fs(tmp := None) else fs(tmp \<mapsto> raw), Some RenameError)))"

definition discourse_save :: "(discourse_state \<Rightarrow> bytes option) \<Rightarrow> os_outcome \<Rightarrow> string \<Rightarrow> discourse \<Rightarrow> filesys \<Rightarrow>
    filesys \<times> io_error option" where
  "discourse_save enc os path d fs = atomicSaveJSON (enc (marshal_discourse d)) os path fs"

definition discourse_load :: "(bytes \<Rightarrow> discourse_state option) \<Rightarrow> string \<Rightarrow> filesys \<Rightarrow> discourse \<Rightarrow> discourse \<times> io_error option" where
  "discourse_load dec path fs d =
     (case fs path of None \<Rightarrow> (d, Some ReadError)
      | Some data \<Rightarrow> (case dec data of None \<Rightarrow> (d, Some UnmarshalError) | Some st \<Rightarrow> (load_discourse st, None)))"

subsection \<open>The clipboard\<close>

datatype clip_error = ErrClipNotFound | ErrEmptyKey | ClipIO

text \<open>The clips are the files of a directory; a name of one or two dots is a directory.\<close>

type_synonym clipboard = "(string, bytes) gomap"

definition clip_name :: "string \<Rightarrow> string" where
  "clip_name key = replace_all (replace_all key ''/'' ''_'') [CHR 0x5C] ''_''"

definition clip_set :: "file_write \<Rightarrow> string \<Rightarrow> bytes \<Rightarrow> clipboard \<Rightarrow> clipboard \<times> (clip_error + unit)" where
  "clip_set write key v c =
     (if key = [] then (c, Inl ErrEmptyKey)
      else if clip_name key \<in> {''.'', ''..''} then (c, Inl ClipIO)
      else case write of
          WriteDone \<Rightarrow> (mset_at c (clip_name key) v, Inr ())
        | WriteFails None \<Rightarrow> (c, Inl ClipIO)
        | WriteFails (Some part) \<Rightarrow> (mset_at c (clip_name key) part, Inl ClipIO))"

definition clip_get :: "bool \<Rightarrow> string \<Rightarrow> clipboard \<Rightarrow> clip_error + bytes" where
  "clip_get read_ok key c =
     (if key = [] then Inl ErrEmptyKey
      else if clip_name key \<in> {''.'', ''..''} then Inl ClipIO
      else case map_of c (clip_name key) of None \<Rightarrow> Inl ErrClipNotFound | Some d \<Rightarrow> if read_ok then Inr d else Inl ClipIO)"

definition clip_delete :: "bool \<Rightarrow> string \<Rightarrow> clipboard \<Rightarrow> clipboard \<times> (clip_error + unit)" where
  "clip_delete ok key c =
     (if key = [] then (c, Inl ErrEmptyKey)
      else if clip_name key \<in> {''.'', ''..''} then (c, Inl ClipIO)
      else if map_of c (clip_name key) = None then (c, Inl ErrClipNotFound)
      else if ok then (mdelete c (clip_name key), Inr ()) else (c, Inl ClipIO))"

definition clip_list :: "bool \<Rightarrow> clipboard \<Rightarrow> clip_error + string list" where
  "clip_list read_ok c = (if read_ok then Inr (sort (keys c)) else Inl ClipIO)"

datatype discourse_op =
  DForum string
| DTopic gotime string string string
| DStatus gotime string string string
| DThread gotime string string
| DMessage gotime string string string string string

fun discourse_step :: "discourse \<Rightarrow> discourse_op \<Rightarrow> discourse" where
  "discourse_step d (DForum scope) = fst (GetForum scope d)"
| "discourse_step d (DTopic now scope title kind) = fst (CreateTopic now scope title kind d)"
| "discourse_step d (DStatus now scope topicID status) = fst (UpdateTopicStatus now scope topicID status d)"
| "discourse_step d (DThread now scope topicID) = fst (CreateThread now scope topicID d)"
| "discourse_step d (DMessage now scope topicID threadID role content) = fst (AppendMessage now scope topicID threadID role content d)"

subsection \<open>Forums are well typed\<close>

lemma find_change:
  assumes "List.find P xs = Some x"
  obtains us vs where "xs = us @ x # vs" "\<And>f. change_first P f xs = us @ f x # vs" "P x" "\<forall>u \<in> set us. \<not> P u"
proof -
  have "\<exists>us vs. xs = us @ x # vs \<and> (\<forall>f. change_first P f xs = us @ f x # vs) \<and> P x \<and> (\<forall>u \<in> set us. \<not> P u)"
    using assms
  proof (induction xs)
    case (Cons y ys)
    show ?case
    proof (cases "P y")
      case True
      then show ?thesis using Cons.prems by (intro exI [of _ "[]"] exI [of _ ys]) simp
    next
      case False
      then have "List.find P ys = Some x" using Cons.prems by simp
      then obtain us vs where "ys = us @ x # vs" "\<forall>f. change_first P f ys = us @ f x # vs" "P x" "\<forall>u \<in> set us. \<not> P u"
        using Cons.IH by blast
      then show ?thesis using False by (intro exI [of _ "y # us"] exI [of _ vs]) simp
    qed
  qed simp
  then show ?thesis using that by blast
qed

definition topic_ok :: "disc_topic \<Rightarrow> bool" where
  "topic_ok t = (valid_topic_status (to_Status t) \<and> (\<forall>th \<in> set (to_Threads t). th_Status th = ThreadActive))"

definition topic_ids :: "discourse \<Rightarrow> string multiset" where
  "topic_ids d = gather (\<lambda>f. map to_ID (fo_Topics f)) (ds_forums d)"

definition forum_threads :: "forum \<Rightarrow> string list" where
  "forum_threads f = concat (map (\<lambda>t. map th_ID (to_Threads t)) (fo_Topics f))"

definition thread_ids :: "discourse \<Rightarrow> string multiset" where
  "thread_ids d = gather forum_threads (ds_forums d)"

definition ids_fresh :: "string \<Rightarrow> string multiset \<Rightarrow> discourse \<Rightarrow> bool" where
  "ids_fresh ns ids d = ((\<forall>i. count ids i \<le> 1) \<and> set_mset ids \<subseteq> discourse_id ns ` {1..mget 0 (ds_nextIDs d) ns})"

definition discourse_ok :: "discourse \<Rightarrow> bool" where
  "discourse_ok d = (wf_map (ds_forums d) \<and>
     (\<forall>s f. map_of (ds_forums d) s = Some f \<longrightarrow> fo_Scope f = s \<and> (\<forall>t \<in> set (fo_Topics f). topic_ok t)) \<and>
     ids_fresh ''D'' (topic_ids d) d \<and> ids_fresh ''TH'' (thread_ids d) d)"

lemma discourse_id_inj: "discourse_id ns m = discourse_id ns n \<longleftrightarrow> m = n"
  by (simp add: discourse_id_def pad_zero_inj)

lemma ids_fresh_same: "mget 0 (ds_nextIDs d') ns = mget 0 (ds_nextIDs d) ns \<Longrightarrow> ids_fresh ns ids d' = ids_fresh ns ids d"
  by (simp add: ids_fresh_def)

lemma ids_fresh_next:
  assumes "ids_fresh ns ids d" "mget 0 (ds_nextIDs d') ns = mget 0 (ds_nextIDs d) ns + 1"
  shows "ids_fresh ns (add_mset (discourse_id ns (mget 0 (ds_nextIDs d) ns + 1)) ids) d'"
proof -
  let ?n = "mget 0 (ds_nextIDs d) ns"
  have "discourse_id ns (?n + 1) \<notin> discourse_id ns ` {1..?n}" by (auto simp: discourse_id_inj)
  then have "discourse_id ns (?n + 1) \<notin># ids" using assms(1) unfolding ids_fresh_def by blast
  then have "count (add_mset (discourse_id ns (?n + 1)) ids) i \<le> 1" for i
    using assms(1) by (auto simp: ids_fresh_def not_in_iff)
  moreover have "set_mset (add_mset (discourse_id ns (?n + 1)) ids) \<subseteq> discourse_id ns ` {1..?n + 1}"
    using assms(1) unfolding ids_fresh_def set_mset_add_mset_insert by (auto simp: image_iff) force+
  ultimately show ?thesis using assms(2) unfolding ids_fresh_def by simp
qed

lemma gather_put:
  assumes "map_of m k = Some w" "mset (f v) = A + mset (f w)" shows "gather f (mset_at m k v) = A + gather f m"
  using gather_mset_at [where f = f and m = m and k = k and v = v] assms by (simp add: ac_simps)

lemma open_forum_facts:
  assumes "discourse_ok d" "open_forum scope d = (d', f)"
  shows "discourse_ok d' \<and> map_of (ds_forums d') scope = Some f \<and> ds_nextIDs d' = ds_nextIDs d"
proof (cases "map_of (ds_forums d) scope")
  case None
  then have d': "d' = d\<lparr>ds_forums := mset_at (ds_forums d) scope f\<rparr>" "f = \<lparr>fo_Scope = scope, fo_Topics = []\<rparr>"
    using assms(2) by (auto simp: open_forum_def Let_def)
  have "topic_ids d' = topic_ids d" "thread_ids d' = thread_ids d"
    using None by (simp_all add: d' topic_ids_def thread_ids_def gather_new forum_threads_def)
  then show ?thesis using assms(1) by (auto simp: d' discourse_ok_def ids_fresh_def)
next
  case (Some g)
  then show ?thesis using assms by (simp add: open_forum_def)
qed

lemma put_forum_ok:
  assumes d: "discourse_ok d" "map_of (ds_forums d) scope = Some f"
    and f': "fo_Scope f' = fo_Scope f" "\<forall>t \<in> set (fo_Topics f'). topic_ok t"
    "mset (map to_ID (fo_Topics f')) = T + mset (map to_ID (fo_Topics f))" "mset (forum_threads f') = H + mset (forum_threads f)"
    and e: "ids_fresh ''D'' (T + topic_ids d) (d\<lparr>ds_nextIDs := ns\<rparr>)" "ids_fresh ''TH'' (H + thread_ids d) (d\<lparr>ds_nextIDs := ns\<rparr>)"
  shows "discourse_ok (put_forum scope f' (d\<lparr>ds_nextIDs := ns\<rparr>))"
proof -
  let ?d = "put_forum scope f' (d\<lparr>ds_nextIDs := ns\<rparr>)"
  have fs: "ds_forums ?d = mset_at (ds_forums d) scope f'" by (simp add: put_forum_def)
  have "topic_ids ?d = T + topic_ids d" "thread_ids ?d = H + thread_ids d"
    using gather_put [where m = "ds_forums d" and k = scope and f = "\<lambda>f. map to_ID (fo_Topics f)", OF d(2) f'(3)]
      gather_put [where m = "ds_forums d" and k = scope, OF d(2) f'(4)]
    by (simp_all only: topic_ids_def thread_ids_def fs)
  moreover have "ids_fresh n i ?d = ids_fresh n i (d\<lparr>ds_nextIDs := ns\<rparr>)" for n i
    by (simp add: ids_fresh_def put_forum_def)
  ultimately show ?thesis using d f'(1,2) e by (auto simp: discourse_ok_def put_forum_def)
qed

lemma create_topic_ok: assumes "discourse_ok d" shows "discourse_ok (fst (CreateTopic now scope title kind d))"
proof -
  obtain d1 f where o: "open_forum scope d = (d1, f)" by force
  note f = open_forum_facts [OF assms o]
  let ?n = "mget 0 (ds_nextIDs d1) ''D'' + 1"
  let ?t = "\<lparr>to_ID = discourse_id ''D'' ?n, to_Title = title, to_Kind = kind, to_Status = TopicDraft, to_Threads = [],
    to_Created = now, to_Updated = now\<rparr>"
  let ?ns = "mset_at (ds_nextIDs d1) ''D'' ?n"
  have r: "fst (CreateTopic now scope title kind d) = put_forum scope (f\<lparr>fo_Topics := fo_Topics f @ [?t]\<rparr>) (d1\<lparr>ds_nextIDs := ?ns\<rparr>)"
    by (simp add: CreateTopic_def o next_disc_id_def Let_def)
  show ?thesis unfolding r
  proof (rule put_forum_ok [where T = "{#discourse_id ''D'' ?n#}" and H = "{#}"])
    show "ids_fresh ''D'' ({#discourse_id ''D'' ?n#} + topic_ids d1) (d1\<lparr>ds_nextIDs := ?ns\<rparr>)"
      using f ids_fresh_next [of "''D''" "topic_ids d1" d1 "d1\<lparr>ds_nextIDs := ?ns\<rparr>"] by (simp add: discourse_ok_def)
    have "ids_fresh ''TH'' (thread_ids d1) d1" using f unfolding discourse_ok_def by blast
    then show "ids_fresh ''TH'' ({#} + thread_ids d1) (d1\<lparr>ds_nextIDs := ?ns\<rparr>)"
      using ids_fresh_same [of "d1\<lparr>ds_nextIDs := ?ns\<rparr>" "''TH''" d1 "thread_ids d1"] by simp
  qed (use f in \<open>auto simp: discourse_ok_def topic_ok_def valid_topic_status_def forum_threads_def\<close>)
qed

text \<open>A change of one topic that keeps its name.\<close>

lemma change_topic_ok:
  assumes d: "discourse_ok d" and s: "map_of (ds_forums d) scope = Some f" and t: "List.find (\<lambda>t. to_ID t = topicID) (fo_Topics f) = Some t"
    and g: "to_ID (g t) = to_ID t" "topic_ok (g t)" "mset (map th_ID (to_Threads (g t))) = H + mset (map th_ID (to_Threads t))"
    and e: "ids_fresh ''D'' (topic_ids d) (d\<lparr>ds_nextIDs := ns\<rparr>)" "ids_fresh ''TH'' (H + thread_ids d) (d\<lparr>ds_nextIDs := ns\<rparr>)"
  shows "discourse_ok (put_forum scope (f\<lparr>fo_Topics := change_first (\<lambda>t. to_ID t = topicID) g (fo_Topics f)\<rparr>) (d\<lparr>ds_nextIDs := ns\<rparr>))"
proof -
  obtain us vs where c: "fo_Topics f = us @ t # vs" "change_first (\<lambda>t. to_ID t = topicID) g (fo_Topics f) = us @ g t # vs"
    using find_change [OF t] by metis
  have ok: "\<forall>t \<in> set (fo_Topics f). topic_ok t" using d s unfolding discourse_ok_def by blast
  show ?thesis
  proof (rule put_forum_ok [OF d s, where T = "{#}" and H = H])
    show "ids_fresh ''D'' ({#} + topic_ids d) (d\<lparr>ds_nextIDs := ns\<rparr>)" using e(1) by simp
    show "\<forall>t \<in> set (fo_Topics (f\<lparr>fo_Topics := change_first (\<lambda>t. to_ID t = topicID) g (fo_Topics f)\<rparr>)). topic_ok t"
      using ok g(2) unfolding c(1) by (auto simp: c(2) [unfolded c(1)])
    show "mset (map to_ID (fo_Topics (f\<lparr>fo_Topics := change_first (\<lambda>t. to_ID t = topicID) g (fo_Topics f)\<rparr>))) =
        {#} + mset (map to_ID (fo_Topics f))"
      using g(1) by (simp add: c(2)) (simp add: c(1))
    show "mset (forum_threads (f\<lparr>fo_Topics := change_first (\<lambda>t. to_ID t = topicID) g (fo_Topics f)\<rparr>)) = H + mset (forum_threads f)"
      using g(3) by (simp add: forum_threads_def c(2)) (simp add: c(1) ac_simps)
  qed (simp_all add: e)
qed

lemma found_topic_ok:
  "discourse_ok d \<Longrightarrow> map_of (ds_forums d) scope = Some f \<Longrightarrow> List.find P (fo_Topics f) = Some t \<Longrightarrow> topic_ok t"
  unfolding discourse_ok_def by (metis find_change in_set_conv_decomp)

lemma change_thread_ids:
  "map th_ID (change_first P (add_message now role content) ths) = map th_ID ths"
  "\<forall>th \<in> set ths. th_Status th = ThreadActive \<Longrightarrow>
   \<forall>th \<in> set (change_first P (add_message now role content) ths). th_Status th = ThreadActive"
  by (induction ths) (auto simp: add_message_def)

lemma discourse_step_ok: assumes d: "discourse_ok d" shows "discourse_ok (discourse_step d c)"
proof -
  have same: "ids_fresh ''D'' (topic_ids d) (d\<lparr>ds_nextIDs := ds_nextIDs d\<rparr>)" "ids_fresh ''TH'' ({#} + thread_ids d) (d\<lparr>ds_nextIDs := ds_nextIDs d\<rparr>)"
    using d by (simp_all add: discourse_ok_def)
  show ?thesis
  proof (cases c)
    case (DForum scope)
    then show ?thesis using open_forum_facts [OF d, of scope] by (cases "open_forum scope d") (simp add: GetForum_def)
  next
    case (DTopic now scope title kind)
    then show ?thesis using create_topic_ok [OF d] by simp
  next
    case (DStatus now scope i st)
    show ?thesis
    proof (cases "fst (UpdateTopicStatus now scope i st d) = d")
      case True
      then show ?thesis using d DStatus by simp
    next
      case False
      then obtain f t where f: "map_of (ds_forums d) scope = Some f" "List.find (\<lambda>t. to_ID t = i) (fo_Topics f) = Some t" "valid_topic_status st"
        by (fastforce simp: UpdateTopicStatus_def split: option.splits if_splits)
      have "discourse_ok (put_forum scope (f\<lparr>fo_Topics := change_first (\<lambda>t. to_ID t = i)
          (\<lambda>t. t\<lparr>to_Status := st, to_Updated := now\<rparr>) (fo_Topics f)\<rparr>) (d\<lparr>ds_nextIDs := ds_nextIDs d\<rparr>))"
        by (rule change_topic_ok [OF d f(1,2), where H = "{#}"]) (use f(3) found_topic_ok [OF d f(1,2)] same in \<open>auto simp: topic_ok_def\<close>)
      then show ?thesis using f DStatus by (simp add: UpdateTopicStatus_def)
    qed
  next
    case (DThread now scope i)
    show ?thesis
    proof (cases "fst (CreateThread now scope i d) = d")
      case True
      then show ?thesis using d DThread by simp
    next
      case False
      then obtain f t where f: "map_of (ds_forums d) scope = Some f" "List.find (\<lambda>t. to_ID t = i) (fo_Topics f) = Some t"
        by (fastforce simp: CreateThread_def split: option.splits if_splits)
      let ?n = "mget 0 (ds_nextIDs d) ''TH'' + 1"
      let ?ns = "mset_at (ds_nextIDs d) ''TH'' ?n"
      let ?th = "\<lparr>th_ID = discourse_id ''TH'' ?n, th_Messages = [], th_Status = ThreadActive, th_Created = now, th_Updated = now\<rparr>"
      have "discourse_ok (put_forum scope (f\<lparr>fo_Topics := change_first (\<lambda>t. to_ID t = i)
          (\<lambda>t. t\<lparr>to_Threads := to_Threads t @ [?th], to_Updated := now\<rparr>) (fo_Topics f)\<rparr>) (d\<lparr>ds_nextIDs := ?ns\<rparr>))"
      proof (rule change_topic_ok [OF d f, where H = "{#discourse_id ''TH'' ?n#}"])
        show "ids_fresh ''TH'' ({#discourse_id ''TH'' ?n#} + thread_ids d) (d\<lparr>ds_nextIDs := ?ns\<rparr>)"
          using d ids_fresh_next [of "''TH''" "thread_ids d" d "d\<lparr>ds_nextIDs := ?ns\<rparr>"] by (simp add: discourse_ok_def)
        show "ids_fresh ''D'' (topic_ids d) (d\<lparr>ds_nextIDs := ?ns\<rparr>)" using d by (simp add: discourse_ok_def ids_fresh_def)
      qed (use found_topic_ok [OF d f] in \<open>auto simp: topic_ok_def\<close>)
      then show ?thesis using f DThread by (simp add: CreateThread_def next_disc_id_def Let_def)
    qed
  next
    case (DMessage now scope i j role content)
    show ?thesis
    proof (cases "fst (AppendMessage now scope i j role content d) = d")
      case True
      then show ?thesis using d DMessage by simp
    next
      case False
      then obtain f t where f: "map_of (ds_forums d) scope = Some f" "List.find (\<lambda>t. to_ID t = i) (fo_Topics f) = Some t"
        "List.find (\<lambda>th. th_ID th = j) (to_Threads t) \<noteq> None"
        by (fastforce simp: AppendMessage_def split: option.splits if_splits)
      have "discourse_ok (put_forum scope (f\<lparr>fo_Topics := change_first (\<lambda>t. to_ID t = i)
          (\<lambda>t. t\<lparr>to_Threads := change_first (\<lambda>th. th_ID th = j) (add_message now role content) (to_Threads t), to_Updated := now\<rparr>)
          (fo_Topics f)\<rparr>) (d\<lparr>ds_nextIDs := ds_nextIDs d\<rparr>))"
        by (rule change_topic_ok [OF d f(1,2), where H = "{#}"])
          (use found_topic_ok [OF d f(1,2)] same change_thread_ids in \<open>auto simp: topic_ok_def\<close>)
      then show ?thesis using f DMessage d by (simp add: AppendMessage_def)
    qed
  qed
qed

lemma discourse_run_ok: "discourse_ok d \<Longrightarrow> discourse_ok (foldl discourse_step d cs)"
  by (induction cs arbitrary: d) (auto intro: discourse_step_ok)

lemma discourse_new_ok: "discourse_ok NewDiscourseStore"
  by (simp add: discourse_ok_def NewDiscourseStore_def topic_ids_def thread_ids_def gather_def ids_fresh_def)

subsection \<open>Threads only grow\<close>

definition messages_of :: "discourse \<Rightarrow> string \<Rightarrow> string \<Rightarrow> string \<Rightarrow> thread_message list" where
  "messages_of d scope i j =
     (case GetTopic scope i d of None \<Rightarrow> []
      | Some t \<Rightarrow> (case List.find (\<lambda>th. th_ID th = j) (to_Threads t) of None \<Rightarrow> [] | Some th \<Rightarrow> th_Messages th))"

lemma find_change_first:
  assumes "\<And>x. key (f x) = key x"
  shows "List.find (\<lambda>x. key x = k) (change_first (\<lambda>x. key x = k') f xs) =
    map_option (\<lambda>x. if k = k' then f x else x) (List.find (\<lambda>x. key x = k) xs)"
  by (induction xs) (auto simp: assms option.map_ident)

lemma find_Some: "List.find P xs = Some x \<Longrightarrow> x \<in> set xs \<and> P x"
  by (induction xs) (auto split: if_splits)

lemma find_append: "List.find P (xs @ ys) = (case List.find P xs of None \<Rightarrow> List.find P ys | Some x \<Rightarrow> Some x)"
  by (induction xs) auto

lemma get_topic_put:
  "map_of (ds_forums d) s = Some f \<Longrightarrow>
   GetTopic scope i (put_forum s f' d') =
     (if scope = s then List.find (\<lambda>t. to_ID t = i) (fo_Topics f') else GetTopic scope i d')"
  by (simp add: GetTopic_def put_forum_def)

lemma messages_grow_topic:
  assumes "map_of (ds_forums d) s = Some f" "ds_forums d' = ds_forums d"
    and "\<And>t. to_ID (g t) = to_ID t"
    and "\<And>t. prefix (case List.find (\<lambda>th. th_ID th = j) (to_Threads t) of None \<Rightarrow> [] | Some th \<Rightarrow> th_Messages th)
          (case List.find (\<lambda>th. th_ID th = j) (to_Threads (g t)) of None \<Rightarrow> [] | Some th \<Rightarrow> th_Messages th)"
  shows "prefix (messages_of d scope i j)
    (messages_of (put_forum s (f\<lparr>fo_Topics := change_first (\<lambda>t. to_ID t = i') g (fo_Topics f)\<rparr>) d') scope i j)"
proof (cases "scope = s")
  case True
  then have "GetTopic scope i (put_forum s (f\<lparr>fo_Topics := change_first (\<lambda>t. to_ID t = i') g (fo_Topics f)\<rparr>) d') =
      map_option (\<lambda>x. if i = i' then g x else x) (GetTopic scope i d)"
    using assms(1) find_change_first [of to_ID g i i' "fo_Topics f", OF assms(3)] by (simp add: GetTopic_def put_forum_def)
  then show ?thesis using assms(4) by (simp add: messages_of_def split: option.split)
next
  case False
  then show ?thesis using assms(2) by (simp add: messages_of_def GetTopic_def put_forum_def)
qed

lemma messages_grow: "prefix (messages_of d scope i j) (messages_of (discourse_step d c) scope i j)"
proof (cases c)
  case (DForum s)
  then show ?thesis
    by (auto simp: GetForum_def open_forum_def messages_of_def GetTopic_def Let_def split: option.splits)
next
  case (DTopic now s title kind)
  then show ?thesis
    by (auto simp: CreateTopic_def open_forum_def next_disc_id_def messages_of_def GetTopic_def put_forum_def find_append Let_def
      split: option.splits)
next
  case (DStatus now s i' st)
  show ?thesis
  proof (cases "fst (UpdateTopicStatus now s i' st d) = d")
    case True
    then show ?thesis by (simp add: DStatus)
  next
    case False
    then obtain f where f: "map_of (ds_forums d) s = Some f" "fst (UpdateTopicStatus now s i' st d) =
        put_forum s (f\<lparr>fo_Topics := change_first (\<lambda>t. to_ID t = i') (\<lambda>t. t\<lparr>to_Status := st, to_Updated := now\<rparr>) (fo_Topics f)\<rparr>) d"
      by (auto simp: UpdateTopicStatus_def split: option.splits if_splits)
    show ?thesis unfolding DStatus discourse_step.simps f(2) by (rule messages_grow_topic [OF f(1)]) simp_all
  qed
next
  case (DThread now s i')
  show ?thesis
  proof (cases "fst (CreateThread now s i' d) = d")
    case True
    then show ?thesis by (simp add: DThread)
  next
    case False
    then obtain f t where f: "map_of (ds_forums d) s = Some f" "List.find (\<lambda>t. to_ID t = i') (fo_Topics f) = Some t"
      by (fastforce simp: CreateThread_def split: option.splits if_splits)
    define th where "th = \<lparr>th_ID = snd (next_disc_id ''TH'' d), th_Messages = [], th_Status = ThreadActive, th_Created = now, th_Updated = now\<rparr>"
    have e: "fst (CreateThread now s i' d) = put_forum s (f\<lparr>fo_Topics := change_first (\<lambda>t. to_ID t = i')
          (\<lambda>t. t\<lparr>to_Threads := to_Threads t @ [th], to_Updated := now\<rparr>) (fo_Topics f)\<rparr>) (fst (next_disc_id ''TH'' d))"
      by (simp add: CreateThread_def f th_def Let_def case_prod_beta)
    show ?thesis unfolding DThread discourse_step.simps e
      by (rule messages_grow_topic [OF f(1)]) (auto simp: next_disc_id_def Let_def find_append th_def split: option.split)
  qed
next
  case (DMessage now s i' j' role content)
  show ?thesis
  proof (cases "fst (AppendMessage now s i' j' role content d) = d")
    case True
    then show ?thesis by (simp add: DMessage)
  next
    case False
    then obtain f where f: "map_of (ds_forums d) s = Some f" "fst (AppendMessage now s i' j' role content d) =
        put_forum s (f\<lparr>fo_Topics := change_first (\<lambda>t. to_ID t = i')
          (\<lambda>t. t\<lparr>to_Threads := change_first (\<lambda>th. th_ID th = j') (add_message now role content) (to_Threads t), to_Updated := now\<rparr>)
          (fo_Topics f)\<rparr>) d"
      by (auto simp: AppendMessage_def split: option.splits if_splits)
    have k: "th_ID (add_message now role content th) = th_ID th" for th by (simp add: add_message_def)
    show ?thesis unfolding DMessage discourse_step.simps f(2)
    proof (rule messages_grow_topic [OF f(1) refl])
      show "prefix (case List.find (\<lambda>th. th_ID th = j) (to_Threads t) of None \<Rightarrow> [] | Some th \<Rightarrow> th_Messages th)
        (case List.find (\<lambda>th. th_ID th = j) (to_Threads (t\<lparr>to_Threads := change_first (\<lambda>th. th_ID th = j') (add_message now role content) (to_Threads t),
           to_Updated := now\<rparr>)) of None \<Rightarrow> [] | Some th \<Rightarrow> th_Messages th)" for t
        by (auto simp: find_change_first [of th_ID, OF k] add_message_def split: option.split)
    qed simp
  qed
qed

lemma messages_grow_run: "prefix (messages_of d scope i j) (messages_of (foldl discourse_step d cs) scope i j)"
proof (induction cs arbitrary: d)
  case (Cons c cs)
  show ?case using prefix_order.trans [OF messages_grow Cons [of "discourse_step d c"]] by simp
qed simp

subsection \<open>Saving, loading and the clipboard\<close>

lemma load_forums:
  assumes "wf_map m" "\<forall>s f. map_of m s = Some f \<longrightarrow> fo_Scope f = s"
  shows "map_of (foldl (\<lambda>m f. mset_at m (fo_Scope f) f) [] (sort_key fo_Scope (vals m))) = map_of m"
proof
  fix s
  let ?fs = "sort_key fo_Scope (vals m)"
  have "map_of (foldl (\<lambda>m f. mset_at m (fo_Scope f) f) a fs) s =
      (case List.find (\<lambda>f. fo_Scope f = s) (rev fs) of None \<Rightarrow> map_of a s | Some f \<Rightarrow> Some f)" for a fs
    by (induction fs arbitrary: a rule: rev_induct) (auto split: option.split)
  from this [of "[]" ?fs]
  have l: "map_of (foldl (\<lambda>m f. mset_at m (fo_Scope f) f) [] ?fs) s = List.find (\<lambda>f. fo_Scope f = s) (rev ?fs)"
    by (simp split: option.split)
  have "List.find (\<lambda>f. fo_Scope f = s) (rev ?fs) = map_of m s"
  proof (cases "map_of m s")
    case None
    have "fo_Scope f \<noteq> s" if "f \<in> set (rev ?fs)" for f
    proof -
      from that obtain k where "map_of m k = Some f" unfolding set_rev set_sort vals_lookup [OF assms(1)] by blast
      then show ?thesis using assms(2) None by auto
    qed
    then have "List.find (\<lambda>f. fo_Scope f = s) (rev ?fs) = None" unfolding find_None_iff by blast
    then show ?thesis using None by simp
  next
    case (Some f)
    then have "f \<in> set (rev ?fs)" "fo_Scope f = s"
      using assms(2) unfolding set_rev set_sort vals_lookup [OF assms(1)] by blast+
    then have "List.find (\<lambda>f. fo_Scope f = s) (rev ?fs) \<noteq> None" unfolding find_None_iff by blast
    then obtain g where g: "List.find (\<lambda>f. fo_Scope f = s) (rev ?fs) = Some g" by blast
    have "g \<in> set (vals m)" "fo_Scope g = s" using find_Some [OF g] by (simp_all only: set_rev set_sort)
    then obtain k where "map_of m k = Some g" unfolding vals_lookup [OF assms(1)] by blast
    then have "map_of m s = Some g" using assms(2) \<open>fo_Scope g = s\<close> by auto
    then show ?thesis using g by simp
  qed
  then show "map_of (foldl (\<lambda>m f. mset_at m (fo_Scope f) f) [] ?fs) s = map_of m s" using l by (rule trans [rotated])
qed

lemma discourse_roundtrip:
  assumes "discourse_ok d"
  shows "map_of (ds_forums (load_discourse (marshal_discourse d))) = map_of (ds_forums d)"
    "ds_nextIDs (load_discourse (marshal_discourse d)) = ds_nextIDs d"
  using load_forums [of "ds_forums d"] assms by (simp_all add: discourse_ok_def load_discourse_def marshal_discourse_def)

lemma clip_get_set:
  "key \<noteq> [] \<Longrightarrow> clip_name key \<notin> {''.'', ''..''} \<Longrightarrow> clip_get True key (fst (clip_set WriteDone key v c)) = Inr v"
  "clip_name key' \<noteq> clip_name key \<Longrightarrow> clip_get ok key' (fst (clip_set out key v c)) = clip_get ok key' c"
  by (auto simp: clip_get_def clip_set_def split: file_write.split option.split)

text \<open>Keys that differ in a separator only share a clip.\<close>

lemma clip_keys_collide: "clip_get True ''a_b'' (fst (clip_set WriteDone ''a/b'' v c)) = Inr v"
proof -
  have "clip_name ''a/b'' = ''a_b''" "clip_name ''a_b'' = ''a_b''" by code_simp+
  then show ?thesis by (simp add: clip_get_def clip_set_def)
qed

end
