(* ===== verification/Quality_Monitor.thy ===== *)
theory Quality_Monitor
  imports Go_Paths Complex_Main
begin

text \<open>
  The measurement of agents: tool latencies (\<^verbatim>\<open>tools/latency.go\<close>), agent metrics, the
  cordon and the police, bottlenecks, accountability and waste
  (\<^verbatim>\<open>uniform/quality\<close>). Costs and ratios are rationals, durations nanoseconds. A detail
  that the code formats into a text is the values it prints.
\<close>

subsection \<open>Latencies\<close>

type_synonym latency_tracker = "(string, int list) gomap"

definition latency_record :: "string \<Rightarrow> int \<Rightarrow> latency_tracker \<Rightarrow> latency_tracker" where
  "latency_record tool d t = mset_at t tool (mget [] t tool @ [d])"

definition latency_percentile :: "int list \<Rightarrow> rat \<Rightarrow> int" where
  "latency_percentile samples p =
     (let n = length samples
      in if n = 0 then 0
         else let idx = nat \<lfloor>of_nat (n - 1) * p\<rfloor>; idx = (if idx \<ge> n then n - 1 else idx)
              in sort samples ! idx)"

definition P50 :: "string \<Rightarrow> latency_tracker \<Rightarrow> int" where "P50 tool t = latency_percentile (mget [] t tool) (1 / 2)"
definition P95 :: "string \<Rightarrow> latency_tracker \<Rightarrow> int" where "P95 tool t = latency_percentile (mget [] t tool) (95 / 100)"
definition latency_count :: "string \<Rightarrow> latency_tracker \<Rightarrow> nat" where "latency_count tool t = length (mget [] t tool)"
definition AllTools :: "latency_tracker \<Rightarrow> string list" where "AllTools t = sort (keys t)"

subsection \<open>Metrics\<close>

record agent_metrics =
  am_AgentID :: string
  am_Role :: string
  am_RoundTrips :: int
  am_TotalIn :: int
  am_TotalOut :: int
  am_Cost :: rat
  am_GatePasses :: int
  am_GateFails :: int
  am_TTFT :: "int list"
  am_RTT :: "int list"

definition NewAgentMetrics :: "string \<Rightarrow> string \<Rightarrow> agent_metrics" where
  "NewAgentMetrics agentID role = \<lparr>am_AgentID = agentID, am_Role = role, am_RoundTrips = 0, am_TotalIn = 0, am_TotalOut = 0,
     am_Cost = 0, am_GatePasses = 0, am_GateFails = 0, am_TTFT = [], am_RTT = []\<rparr>"

definition RecordRoundTrip :: "int \<Rightarrow> int \<Rightarrow> int \<Rightarrow> int \<Rightarrow> agent_metrics \<Rightarrow> agent_metrics" where
  "RecordRoundTrip ttft rtt tokensIn tokensOut m = m\<lparr>am_RoundTrips := am_RoundTrips m + 1, am_TotalIn := am_TotalIn m + tokensIn,
     am_TotalOut := am_TotalOut m + tokensOut, am_TTFT := am_TTFT m @ [ttft], am_RTT := am_RTT m @ [rtt]\<rparr>"

definition RecordGateResult :: "bool \<Rightarrow> agent_metrics \<Rightarrow> agent_metrics" where
  "RecordGateResult passed m =
     (if passed then m\<lparr>am_GatePasses := am_GatePasses m + 1\<rparr> else m\<lparr>am_GateFails := am_GateFails m + 1\<rparr>)"

text \<open>Division of integers rounds towards zero.\<close>

definition go_div :: "int \<Rightarrow> int \<Rightarrow> int" where
  "go_div a b = (if a < 0 then - ((- a) div b) else a div b)"

definition avgDuration :: "int list \<Rightarrow> int" where
  "avgDuration ds = (if ds = [] then 0 else go_div (foldl (+) 0 ds) (int (length ds)))"

definition TPM :: "agent_metrics \<Rightarrow> rat" where
  "TPM m =
     (if am_RTT m = [] then 0
      else let recent = (if length (am_RTT m) > 10 then drop (length (am_RTT m) - 10) (am_RTT m) else am_RTT m);
               totalDuration = foldl (+) 0 recent
           in if totalDuration = 0 then 0
              else (let minutes = of_int totalDuration / 60000000000;
                        sampleFraction = of_nat (length recent) / of_nat (length (am_RTT m))
                    in of_int (am_TotalIn m + am_TotalOut m) * sampleFraction / minutes))"

definition AvgTTFT :: "agent_metrics \<Rightarrow> int" where "AvgTTFT m = avgDuration (am_TTFT m)"
definition AvgRTT :: "agent_metrics \<Rightarrow> int" where "AvgRTT m = avgDuration (am_RTT m)"

definition GatePassRate :: "agent_metrics \<Rightarrow> rat" where
  "GatePassRate m = (let n = am_GatePasses m + am_GateFails m in if n = 0 then 0 else of_int (am_GatePasses m) / of_int n)"

subsection \<open>Cordon and police\<close>

datatype cordon_reason = CordonTokenBudget | CordonCostBudget | CordonTimeBudget | CordonContextRedline | CordonGateLoop
| CordonSilence | CordonBlastRadius

record agent_cordon =
  co_Reason :: cordon_reason
  co_AgentID :: string
  co_Detail :: string
  co_Timestamp :: gotime

record cordon_config =
  cc_MaxTokens :: int
  cc_MaxCost :: rat
  cc_MaxDuration :: int
  cc_ContextRedline :: rat
  cc_MaxGateRetries :: int
  cc_SilenceTimeout :: int
  cc_MaxFilesChanged :: int

definition DefaultCordonConfig :: cordon_config where
  "DefaultCordonConfig = \<lparr>cc_MaxTokens = 0, cc_MaxCost = 0, cc_MaxDuration = 0, cc_ContextRedline = 0, cc_MaxGateRetries = 3,
     cc_SilenceTimeout = 30000000000, cc_MaxFilesChanged = 50\<rparr>"

definition cordon_for :: "gotime \<Rightarrow> cordon_reason \<Rightarrow> string \<Rightarrow> agent_metrics \<Rightarrow> agent_cordon" where
  "cordon_for now r detail m = \<lparr>co_Reason = r, co_AgentID = am_AgentID m, co_Detail = detail, co_Timestamp = now\<rparr>"

definition CheckCordon :: "gotime \<Rightarrow> agent_metrics option \<Rightarrow> cordon_config \<Rightarrow> agent_cordon option" where
  "CheckCordon now metrics config =
     (case metrics of
        None \<Rightarrow> None
      | Some m \<Rightarrow>
          if cc_MaxTokens config > 0 \<and> am_TotalIn m + am_TotalOut m > cc_MaxTokens config
          then Some (cordon_for now CordonTokenBudget ''total tokens exceeded budget'' m)
          else if cc_MaxCost config > 0 \<and> am_Cost m > cc_MaxCost config
          then Some (cordon_for now CordonCostBudget ''cost exceeded budget'' m)
          else if cc_MaxGateRetries config > 0 \<and> am_GateFails m > cc_MaxGateRetries config
          then Some (cordon_for now CordonGateLoop ''gate failures exceeded max retries'' m)
          else None)"

datatype violation_detail = TokenUsage int int | CostUsage rat rat | GateFailures int int | CallsPerTrip rat

record violation =
  vi_Kind :: string
  vi_AgentID :: string
  vi_Detail :: violation_detail
  vi_Severity :: string
  vi_Timestamp :: gotime

record agent_police =
  po_violations :: "violation list"
  po_config :: cordon_config

definition NewAgentPolice :: "cordon_config \<Rightarrow> agent_police" where
  "NewAgentPolice config = \<lparr>po_violations = [], po_config = config\<rparr>"

definition SeverityWarning :: string where "SeverityWarning = ''warning''"
definition SeverityCritical :: string where "SeverityCritical = ''critical''"

definition latency_calls :: "latency_tracker \<Rightarrow> int" where
  "latency_calls l = foldl (\<lambda>n tool. n + int (latency_count tool l)) 0 (AllTools l)"

definition violation_for :: "gotime \<Rightarrow> string \<Rightarrow> violation_detail \<Rightarrow> string \<Rightarrow> agent_metrics \<Rightarrow> violation" where
  "violation_for now kind detail severity m =
     \<lparr>vi_Kind = kind, vi_AgentID = am_AgentID m, vi_Detail = detail, vi_Severity = severity, vi_Timestamp = now\<rparr>"

definition found_violations :: "gotime \<Rightarrow> cordon_config \<Rightarrow> agent_metrics \<Rightarrow> latency_tracker option \<Rightarrow> violation list" where
  "found_violations now c m latency =
     (let tokens = am_TotalIn m + am_TotalOut m
      in (if cc_MaxTokens c > 0 \<and> tokens > cc_MaxTokens c
          then [violation_for now ''budget_exceeded'' (TokenUsage tokens (cc_MaxTokens c)) SeverityCritical m] else []) @
         (if cc_MaxCost c > 0 \<and> am_Cost m > cc_MaxCost c
          then [violation_for now ''budget_exceeded'' (CostUsage (am_Cost m) (cc_MaxCost c)) SeverityCritical m] else []) @
         (if cc_MaxGateRetries c > 0 \<and> am_GateFails m > cc_MaxGateRetries c
          then [violation_for now ''gate_loop'' (GateFailures (am_GateFails m) (cc_MaxGateRetries c)) SeverityWarning m] else []) @
         (case latency of None \<Rightarrow> []
          | Some l \<Rightarrow> if am_RoundTrips m > 0 \<and> of_int (latency_calls l) / of_int (am_RoundTrips m) > (20 :: rat)
              then [violation_for now ''tool_spam'' (CallsPerTrip (of_int (latency_calls l) / of_int (am_RoundTrips m))) SeverityWarning m]
              else []))"

definition Observe :: "gotime \<Rightarrow> agent_metrics option \<Rightarrow> latency_tracker option \<Rightarrow> agent_police \<Rightarrow> agent_police \<times> violation list" where
  "Observe now metrics latency p =
     (case metrics of
        None \<Rightarrow> (p, [])
      | Some m \<Rightarrow> let found = found_violations now (po_config p) m latency
                in (if found \<noteq> [] then p\<lparr>po_violations := po_violations p @ found\<rparr> else p, found))"

definition police_report :: "agent_police \<Rightarrow> violation list" where "police_report p = po_violations p"
definition ViolationCount :: "agent_police \<Rightarrow> nat" where "ViolationCount p = length (po_violations p)"

subsection \<open>Bottlenecks\<close>

datatype bottleneck_detail = SlowTool string int | TTFTSpike int int | GateFailureCount int | IdleRatio rat | ToolCallsPerTrip rat

record bottleneck =
  bo_Kind :: string
  bo_Agent :: string
  bo_Detail :: bottleneck_detail

definition bottleneck_of :: "agent_metrics \<Rightarrow> string \<Rightarrow> bottleneck_detail \<Rightarrow> bottleneck" where
  "bottleneck_of m kind d = \<lparr>bo_Kind = kind, bo_Agent = am_AgentID m, bo_Detail = d\<rparr>"

definition DetectBottlenecks :: "agent_metrics option \<Rightarrow> latency_tracker option \<Rightarrow> bottleneck list" where
  "DetectBottlenecks metrics latency =
     (case metrics of
        None \<Rightarrow> []
      | Some m \<Rightarrow>
         (case latency of None \<Rightarrow> []
          | Some l \<Rightarrow> map (\<lambda>t. bottleneck_of m ''tool_latency'' (SlowTool t (P95 t l))) (filter (\<lambda>t. P95 t l > 2000000000) (AllTools l))) @
         (if length (am_TTFT m) \<ge> 2
          then let avg = avgDuration (butlast (am_TTFT m)); l = last (am_TTFT m)
               in if avg > 0 \<and> l > 10 * avg then [bottleneck_of m ''rate_limit'' (TTFTSpike l avg)] else []
          else []) @
         (if am_GateFails m > 3 then [bottleneck_of m ''gate_loop'' (GateFailureCount (am_GateFails m))] else []) @
         (if am_TTFT m \<noteq> [] \<and> am_RTT m \<noteq> []
          then let avgT = avgDuration (am_TTFT m); avgR = avgDuration (am_RTT m)
               in if avgR > 0 \<and> of_int avgT / of_int avgR > (1 / 2 :: rat)
                  then [bottleneck_of m ''idle_wait'' (IdleRatio (of_int avgT / of_int avgR))] else []
          else []) @
         (case latency of None \<Rightarrow> []
          | Some l \<Rightarrow> if am_RoundTrips m > 0 \<and> of_int (latency_calls l) / of_int (am_RoundTrips m) > (20 :: rat)
              then [bottleneck_of m ''tool_spam'' (ToolCallsPerTrip (of_int (latency_calls l) / of_int (am_RoundTrips m)))] else []))"

subsection \<open>Accountability\<close>

record accountability_metric =
  ac_Kind :: string
  ac_Attempted :: int
  ac_Approved :: int
  ac_Denied :: int

record accountability =
  aa_agentID :: string
  aa_metrics :: "(string, accountability_metric) gomap"

definition NewAgentAccountability :: "string \<Rightarrow> accountability" where
  "NewAgentAccountability agentID = \<lparr>aa_agentID = agentID, aa_metrics = []\<rparr>"

definition ComplianceRate :: "accountability_metric \<Rightarrow> rat" where
  "ComplianceRate m = (if ac_Attempted m = 0 then 1 else of_int (ac_Approved m) / of_int (ac_Attempted m))"

definition metric_or_new :: "string \<Rightarrow> accountability \<Rightarrow> accountability_metric" where
  "metric_or_new kind a = mget \<lparr>ac_Kind = kind, ac_Attempted = 0, ac_Approved = 0, ac_Denied = 0\<rparr> (aa_metrics a) kind"

definition acc_record :: "string \<Rightarrow> accountability \<Rightarrow> accountability" where
  "acc_record kind a = (let m = metric_or_new kind a
     in a\<lparr>aa_metrics := mset_at (aa_metrics a) kind (m\<lparr>ac_Attempted := ac_Attempted m + 1\<rparr>)\<rparr>)"

definition acc_approve :: "string \<Rightarrow> accountability \<Rightarrow> accountability" where
  "acc_approve kind a = (let m = metric_or_new kind a
     in a\<lparr>aa_metrics := mset_at (aa_metrics a) kind (m\<lparr>ac_Approved := ac_Approved m + 1\<rparr>)\<rparr>)"

definition acc_deny :: "string \<Rightarrow> accountability \<Rightarrow> accountability" where
  "acc_deny kind a = (let m = metric_or_new kind a
     in a\<lparr>aa_metrics := mset_at (aa_metrics a) kind (m\<lparr>ac_Denied := ac_Denied m + 1\<rparr>)\<rparr>)"

definition acc_rate :: "string \<Rightarrow> accountability \<Rightarrow> rat" where
  "acc_rate kind a = (case map_of (aa_metrics a) kind of None \<Rightarrow> 1 | Some m \<Rightarrow> ComplianceRate m)"

definition OverallRate :: "accountability \<Rightarrow> rat" where
  "OverallRate a = (if length (aa_metrics a) = 0 then 1
     else foldl (\<lambda>s m. s + ComplianceRate m) 0 (vals (aa_metrics a)) / of_nat (length (aa_metrics a)))"

definition acc_metric :: "string \<Rightarrow> accountability \<Rightarrow> accountability_metric option" where
  "acc_metric kind a = map_of (aa_metrics a) kind"

definition acc_kinds :: "accountability \<Rightarrow> string list" where
  "acc_kinds a = keys (aa_metrics a)"

subsection \<open>Waste\<close>

datatype waste_kind = WasteOverproduction | WasteWaiting | WasteTransportation | WasteOverProcessing | WasteInventory | WasteMotion | WasteDefect

definition AllWasteKinds :: "waste_kind list" where
  "AllWasteKinds = [WasteOverproduction, WasteWaiting, WasteTransportation, WasteOverProcessing, WasteInventory, WasteMotion, WasteDefect]"

datatype waste_reason = ToolReturnedError | DuplicateAccess string | IdleFor int | PackageSwitch string string

record waste_record =
  wr_Tool :: string
  wr_Kind :: waste_kind
  wr_Reason :: waste_reason
  wr_Timestamp :: gotime

record waste_classifier =
  wc_records :: "waste_record list"
  wc_readCache :: "(string, bool) gomap"
  wc_lastPkg :: string
  wc_lastCall :: gotime
  wc_totalCalls :: nat

definition NewWasteClassifier :: waste_classifier where
  "NewWasteClassifier = \<lparr>wc_records = [], wc_readCache = [], wc_lastPkg = [], wc_lastCall = zero_time, wc_totalCalls = 0\<rparr>"

definition fileTools :: "(string, bool) gomap" where
  "fileTools = [(''Read'', True), (''Glob'', True), (''Grep'', True), (''Edit'', True)]"

definition quote_char :: string where "quote_char = [CHR 0x22]"

definition value_after :: "string \<Rightarrow> string \<Rightarrow> string option" where
  "value_after inp key =
     (case str_index inp (quote_char @ key @ quote_char) of
        None \<Rightarrow> None
      | Some idx \<Rightarrow> let rest = drop (idx + length key + 2) inp
          in (case str_index rest quote_char of
                None \<Rightarrow> None
              | Some colonIdx \<Rightarrow> let rest' = drop (colonIdx + 1) rest
                  in (case str_index rest' quote_char of None \<Rightarrow> None | Some endIdx \<Rightarrow> Some (take endIdx rest'))))"

definition extractPath :: "string \<Rightarrow> string" where
  "extractPath inp = (case value_after inp ''file_path'' of Some p \<Rightarrow> p
     | None \<Rightarrow> (case value_after inp ''path'' of Some p \<Rightarrow> p | None \<Rightarrow> []))"

definition classifyTransportation :: "gotime \<Rightarrow> string \<Rightarrow> string \<Rightarrow> waste_classifier \<Rightarrow> waste_classifier \<times> waste_record option" where
  "classifyTransportation now toolName inp wc =
     (if \<not> mget False fileTools toolName then (wc, None)
      else let path = extractPath inp
           in if path = [] then (wc, None)
              else if mget False (wc_readCache wc) path
              then (wc, Some \<lparr>wr_Tool = toolName, wr_Kind = WasteTransportation, wr_Reason = DuplicateAccess path, wr_Timestamp = now\<rparr>)
              else (wc\<lparr>wc_readCache := mset_at (wc_readCache wc) path True\<rparr>, None))"

definition classifyMotion :: "gotime \<Rightarrow> string \<Rightarrow> string \<Rightarrow> waste_classifier \<Rightarrow> waste_record option" where
  "classifyMotion now toolName inp wc =
     (if \<not> mget False fileTools toolName then None
      else let path = extractPath inp
           in if path = [] then None
              else let pkg = path_dir path
                   in if wc_lastPkg wc \<noteq> [] \<and> pkg \<noteq> wc_lastPkg wc
                      then Some \<lparr>wr_Tool = toolName, wr_Kind = WasteMotion, wr_Reason = PackageSwitch (wc_lastPkg wc) pkg, wr_Timestamp = now\<rparr>
                      else None)"

definition updatePkgTracking :: "string \<Rightarrow> string \<Rightarrow> waste_classifier \<Rightarrow> waste_classifier" where
  "updatePkgTracking toolName inp wc =
     (if \<not> mget False fileTools toolName then wc
      else let path = extractPath inp in if path = [] then wc else wc\<lparr>wc_lastPkg := path_dir path\<rparr>)"

definition ClassifyCall :: "gotime \<Rightarrow> string \<Rightarrow> string \<Rightarrow> bool \<Rightarrow> int \<Rightarrow> waste_classifier \<Rightarrow> waste_classifier \<times> waste_record option" where
  "ClassifyCall now toolName inp isError elapsed wc =
     (let wc1 = wc\<lparr>wc_totalCalls := wc_totalCalls wc + 1\<rparr>;
          r1 = (if isError then Some \<lparr>wr_Tool = toolName, wr_Kind = WasteDefect, wr_Reason = ToolReturnedError, wr_Timestamp = now\<rparr> else None);
          (wc2, r2) = (if r1 = None then classifyTransportation now toolName inp wc1 else (wc1, r1));
          idleTime = now - elapsed - wc_lastCall wc2;
          r3 = (if r2 = None \<and> wc_lastCall wc2 \<noteq> zero_time \<and> idleTime > 5000000000
                then Some \<lparr>wr_Tool = toolName, wr_Kind = WasteWaiting, wr_Reason = IdleFor (idleTime - idleTime mod 1000000), wr_Timestamp = now\<rparr>
                else r2);
          r4 = (if r3 = None then classifyMotion now toolName inp wc2 else r3);
          wc3 = updatePkgTracking toolName inp (wc2\<lparr>wc_lastCall := now\<rparr>)
      in (case r4 of None \<Rightarrow> wc3 | Some r \<Rightarrow> wc3\<lparr>wc_records := wc_records wc3 @ [r]\<rparr>, r4))"

record waste_metrics =
  wm_Total :: nat
  wm_ByKind :: "(waste_kind, nat) gomap"
  wm_WasteRate :: rat

definition waste_metrics_of :: "waste_classifier \<Rightarrow> waste_metrics" where
  "waste_metrics_of wc = \<lparr>wm_Total = length (wc_records wc),
     wm_ByKind = foldl (\<lambda>m r. mset_at m (wr_Kind r) (mget 0 m (wr_Kind r) + 1)) [] (wc_records wc),
     wm_WasteRate = (if wc_totalCalls wc > 0 then of_nat (length (wc_records wc)) / of_nat (wc_totalCalls wc) else 0)\<rparr>"

subsection \<open>Waste, call by call\<close>

record waste_call =
  ca_now :: gotime
  ca_tool :: string
  ca_input :: string
  ca_error :: bool
  ca_elapsed :: int

definition waste_step :: "waste_classifier \<Rightarrow> waste_call \<Rightarrow> waste_classifier" where
  "waste_step wc c = fst (ClassifyCall (ca_now c) (ca_tool c) (ca_input c) (ca_error c) (ca_elapsed c) wc)"

text \<open>A successful call of a file tool on a path.\<close>

definition accesses :: "waste_call \<Rightarrow> string \<Rightarrow> bool" where
  "accesses c p = (\<not> ca_error c \<and> mget False fileTools (ca_tool c) \<and> extractPath (ca_input c) = p \<and> p \<noteq> [])"

lemma transportation_facts:
  "snd (classifyTransportation now tool inp wc) = None \<or>
     (\<exists>r. snd (classifyTransportation now tool inp wc) = Some r \<and> wr_Kind r = WasteTransportation)"
  "snd (classifyTransportation now tool inp wc) \<noteq> None \<longleftrightarrow>
     mget False fileTools tool \<and> extractPath inp \<noteq> [] \<and> mget False (wc_readCache wc) (extractPath inp)"
  "mget False (wc_readCache (fst (classifyTransportation now tool inp wc))) p \<longleftrightarrow>
     mget False (wc_readCache wc) p \<or> (mget False fileTools tool \<and> extractPath inp \<noteq> [] \<and> p = extractPath inp)"
  "wc_records (fst (classifyTransportation now tool inp wc)) = wc_records wc"
  "wc_totalCalls (fst (classifyTransportation now tool inp wc)) = wc_totalCalls wc"
  by (auto simp: classifyTransportation_def Let_def)

lemma track_fields [simp]:
  "wc_readCache (updatePkgTracking tool inp wc) = wc_readCache wc" "wc_records (updatePkgTracking tool inp wc) = wc_records wc"
  "wc_totalCalls (updatePkgTracking tool inp wc) = wc_totalCalls wc"
  by (simp_all add: updatePkgTracking_def Let_def)

lemma motion_kind: "classifyMotion now tool inp wc = Some r \<Longrightarrow> wr_Kind r = WasteMotion"
  by (auto simp: classifyMotion_def Let_def split: if_splits)

lemma classify_cache:
  "wc_readCache (fst (ClassifyCall now tool inp err el wc)) =
     (if err then wc_readCache wc
      else wc_readCache (fst (classifyTransportation now tool inp (wc\<lparr>wc_totalCalls := wc_totalCalls wc + 1\<rparr>))))"
  by (auto simp: ClassifyCall_def Let_def case_prod_beta split: option.split)

lemma classify_count:
  "wc_totalCalls (fst (ClassifyCall now tool inp err el wc)) = wc_totalCalls wc + 1"
  "wc_records (fst (ClassifyCall now tool inp err el wc)) =
     wc_records wc @ (case snd (ClassifyCall now tool inp err el wc) of None \<Rightarrow> [] | Some r \<Rightarrow> [r])"
  by (auto simp: ClassifyCall_def Let_def case_prod_beta transportation_facts(4,5) split: option.split)

lemma classify_kind:
  "(\<exists>r. snd (ClassifyCall now tool inp err el wc) = Some r \<and> wr_Kind r = WasteTransportation) \<longleftrightarrow>
     \<not> err \<and> mget False fileTools tool \<and> extractPath inp \<noteq> [] \<and> mget False (wc_readCache wc) (extractPath inp)"
proof -
  let ?wc = "wc\<lparr>wc_totalCalls := wc_totalCalls wc + 1\<rparr>"
  let ?t = "snd (classifyTransportation now tool inp ?wc)"
  note f = transportation_facts(1,2) [of now tool inp ?wc]
  show ?thesis
  proof (cases "err")
    case True
    then show ?thesis by (simp add: ClassifyCall_def Let_def)
  next
    case False
    show ?thesis
    proof (cases ?t)
      case None
      then have "wr_Kind r \<noteq> WasteTransportation" if "snd (ClassifyCall now tool inp err el wc) = Some r" for r
        using that False by (auto simp: ClassifyCall_def Let_def case_prod_beta split: if_splits dest: motion_kind)
      then show ?thesis using None f(2) False by auto
    next
      case (Some r)
      then have "snd (ClassifyCall now tool inp err el wc) = Some r"
        using False by (simp add: ClassifyCall_def Let_def case_prod_beta)
      then show ?thesis using Some f False by auto
    qed
  qed
qed

lemma waste_cache: "mget False (wc_readCache (foldl waste_step NewWasteClassifier cs)) p \<longleftrightarrow> (\<exists>c \<in> set cs. accesses c p)"
proof (induction cs rule: rev_induct)
  case Nil
  show ?case by (simp add: NewWasteClassifier_def mget_def)
next
  case (snoc c cs)
  let ?w = "foldl waste_step NewWasteClassifier cs"
  have "mget False (wc_readCache (waste_step ?w c)) p \<longleftrightarrow> mget False (wc_readCache ?w) p \<or> accesses c p"
    by (auto simp: waste_step_def classify_cache transportation_facts(3) accesses_def)
  then show ?case using snoc by auto
qed

lemma waste_counts:
  "wc_totalCalls (foldl waste_step NewWasteClassifier cs) = length cs"
  "length (wc_records (foldl waste_step NewWasteClassifier cs)) \<le> length cs"
  by (induction cs rule: rev_induct) (auto simp: NewWasteClassifier_def waste_step_def classify_count split: option.split)

lemma kinds_counted:
  "mget 0 (wm_ByKind (waste_metrics_of wc)) k = length (filter (\<lambda>r. wr_Kind r = k) (wc_records wc))"
proof -
  have "mget 0 (foldl (\<lambda>m r. mset_at m (wr_Kind r) (mget 0 m (wr_Kind r) + 1)) a rs) k =
      mget 0 a k + length (filter (\<lambda>r. wr_Kind r = k) rs)" for rs and a :: "(waste_kind, nat) gomap"
    by (induction rs arbitrary: a) auto
  from this [of "[]" "wc_records wc"] show ?thesis by (simp add: waste_metrics_of_def mget_def)
qed

subsection \<open>Cordons and violations\<close>

lemma cordon_iff_violation: "CheckCordon now (Some m) c = None \<longleftrightarrow> found_violations now c m None = []"
  by (simp add: CheckCordon_def found_violations_def Let_def)

lemma gate_fails_total: "am_GateFails (fold RecordGateResult rs m) = am_GateFails m + int (length (filter Not rs))"
  by (induction rs arbitrary: m) (simp_all add: RecordGateResult_def)

lemma percentile_member:
  assumes "samples \<noteq> []" shows "latency_percentile samples p \<in> set samples"
proof -
  define i where "i = nat \<lfloor>of_nat (length samples - 1) * p\<rfloor>"
  have "(if i \<ge> length samples then length samples - 1 else i) < length (sort samples)"
    using assms by (cases samples) auto
  then have "sort samples ! (if i \<ge> length samples then length samples - 1 else i) \<in> set (sort samples)" by (rule nth_mem)
  moreover have "latency_percentile samples p = sort samples ! (if i \<ge> length samples then length samples - 1 else i)"
    using assms unfolding latency_percentile_def Let_def i_def by (simp only: length_0_conv if_False)
  ultimately show ?thesis by simp
qed

end
