(* ===== verification/Monitor_Properties.thy ===== *)
theory Monitor_Properties
  imports Tool_Stores Quality_Monitor
begin

text \<open>
  The properties of what agents leave behind: memories, conversations and measurements.
\<close>





text \<open>A call is classified as a repeated access exactly when it is a successful call of a file tool on a path that an earlier successful call of a file tool had; every call is counted once, recorded at most once, and the counts by kind count the records.\<close>

lemma waste_repeats_exact:
  fixes cs c k
  defines "w \<equiv> foldl waste_step NewWasteClassifier cs"
  shows "((\<exists>r. snd (ClassifyCall (ca_now c) (ca_tool c) (ca_input c) (ca_error c) (ca_elapsed c) w) = Some r \<and> wr_Kind r = WasteTransportation) \<longleftrightarrow>
      (\<exists>p. accesses c p \<and> (\<exists>c' \<in> set cs. accesses c' p))) \<and>
    wc_totalCalls w = length cs \<and> 0 \<le> wm_WasteRate (waste_metrics_of w) \<and> wm_WasteRate (waste_metrics_of w) \<le> 1 \<and>
    mget 0 (wm_ByKind (waste_metrics_of w)) k = length (filter (\<lambda>r. wr_Kind r = k) (wc_records w))"
proof -
  have "(\<exists>r. snd (ClassifyCall (ca_now c) (ca_tool c) (ca_input c) (ca_error c) (ca_elapsed c) w) = Some r \<and> wr_Kind r = WasteTransportation) \<longleftrightarrow>
      (\<exists>p. accesses c p \<and> (\<exists>c' \<in> set cs. accesses c' p))"
    unfolding classify_kind w_def waste_cache by (auto simp: accesses_def)
  moreover have "0 \<le> wm_WasteRate (waste_metrics_of w)" "wm_WasteRate (waste_metrics_of w) \<le> 1"
    using waste_counts [of cs] by (simp_all add: waste_metrics_of_def w_def)
  ultimately show ?thesis using waste_counts(1) [of cs] kinds_counted [of w k] by (simp add: w_def)
qed

text \<open>An agent is cordoned exactly when the police would find a violation of the same thresholds; gate failures are counted over the whole life of the agent, so passes between them do not save it; a percentile is one of the samples.\<close>

lemma cordon_matches_police:
  fixes samples :: "int list"
  shows "(CheckCordon now (Some m) c \<noteq> None \<longleftrightarrow> snd (Observe now (Some m) None \<lparr>po_violations = vs, po_config = c\<rparr>) \<noteq> []) \<and>
    (cc_MaxGateRetries c > 0 \<longrightarrow> int (length (filter Not rs)) > cc_MaxGateRetries c - am_GateFails m \<longrightarrow>
       CheckCordon now (Some (fold RecordGateResult rs m)) c \<noteq> None) \<and>
    (samples \<noteq> [] \<longrightarrow> latency_percentile samples p \<in> set samples)"
proof -
  have "CheckCordon now (Some (fold RecordGateResult rs m)) c \<noteq> None"
    if "cc_MaxGateRetries c > 0" "int (length (filter Not rs)) > cc_MaxGateRetries c - am_GateFails m"
    using that gate_fails_total [of rs m] by (simp add: CheckCordon_def)
  then show ?thesis using cordon_iff_violation [of now m c] percentile_member [of samples p]
    by (simp add: Observe_def Let_def)
qed

lemma cordon_matches_police_witness:
  "CheckCordon 1 (Some (fold RecordGateResult [False, True, False, True, False, True, False] (NewAgentMetrics ''a'' ''r''))) DefaultCordonConfig \<noteq> None"
  using cordon_matches_police [of 1 "NewAgentMetrics ''a'' ''r''" DefaultCordonConfig "[]" "[False, True, False, True, False, True, False]" "[1]" 1]
  by (simp add: DefaultCordonConfig_def NewAgentMetrics_def)

end
