(* ===== verification/Control_Properties.thy ===== *)
theory Control_Properties
  imports Uniform_Control
begin

text \<open>
  The property of the signal interpreter: every emission comes to an end, what is answered, and
  what a signal of the highest level can never bring about.
\<close>

text \<open>Emitting a signal always returns, although the interpreter emits on the bus it listens to. Its
  own signals, green ones and any signal while it is stopped change nothing. Any other signal is answered once by
  each handler registered on the bus; the answer to a black signal is never an applied decision. Starting
  again after a stop registers a second handler, so from then on every signal is asked and answered twice.\<close>

lemma interpreter_zones:
  "\<exists>si' sent'. interp_emit (Suc (Suc fuel)) now env s (si, sent) = Some (si', sent') \<and>
     (if sg_Source s = interpreterSource \<or> sg_Level s = Green \<or> \<not> si_running si then si' = si \<and> sent' = sent @ [s]
      else sent' = sent @ [s] @ concat (replicate (si_handlers si) (answer now env s)) \<and>
        length (si_asked si') = length (si_asked si) + si_handlers si) \<and>
     (if sg_Level s = Black then list_all (\<lambda>e. sg_Level e \<in> {Yellow, Red}) (answer now env s) else True) \<and>
     si_handlers (interp_start (interp_stop (interp_start NewSignalInterpreter))) = 2"
proof -
  obtain si' sent' where h: "handlers_run (si_handlers si) now env s (si, sent @ [s]) = (si', sent')" by force
  have "interp_emit (Suc (Suc fuel)) now env s (si, sent) = Some (si', sent')"
    by (simp only: interp_emit_returns h)
  moreover have "if sg_Source s = interpreterSource \<or> sg_Level s = Green \<or> \<not> si_running si then si' = si \<and> sent' = sent @ [s]
      else sent' = sent @ [s] @ concat (replicate (si_handlers si) (answer now env s)) \<and>
        length (si_asked si') = length (si_asked si) + si_handlers si"
  proof (cases "sg_Source s = interpreterSource \<or> sg_Level s = Green \<or> \<not> si_running si")
    case True
    then show ?thesis using handlers_ignored [OF True, of "si_handlers si" now env "sent @ [s]"] h by simp
  next
    case False
    then show ?thesis using handlers_answer [of s si "si_handlers si" now env "sent @ [s]"] h by simp
  qed
  moreover have "if sg_Level s = Black then list_all (\<lambda>e. sg_Level e \<in> {Yellow, Red}) (answer now env s) else True"
    by (auto simp: answer_def Let_def routeDecision_def interp_signal_def split: sum.split)
  moreover have "si_handlers (interp_start (interp_stop (interp_start NewSignalInterpreter))) = 2" by code_simp
  ultimately show ?thesis by blast
qed

lemma interpreter_zones_witness:
  "(let s = \<lparr>sg_Workstream = ''w'', sg_Level = Red, sg_Source = ''watchdog'', sg_Scope = [], sg_Category = ''budget'', sg_Message = ''m'', sg_Timestamp = 1\<rparr>;
        env = \<lparr>ie_ask = (\<lambda>_. Inl ''down''), ie_unmarshal = (\<lambda>_. None), ie_context = None\<rparr>
    in interp_emit (Suc (Suc 0)) 1 env s (NewSignalInterpreter, []) = Some (NewSignalInterpreter, [s]))"
proof -
  define s where "s = \<lparr>sg_Workstream = ''w'', sg_Level = Red, sg_Source = ''watchdog'', sg_Scope = [], sg_Category = ''budget'', sg_Message = ''m'', sg_Timestamp = 1\<rparr>"
  define env where "env = \<lparr>ie_ask = (\<lambda>_ :: string. Inl ''down'' :: string + string), ie_unmarshal = (\<lambda>_ :: string. None :: decision option), ie_context = None\<rparr>"
  have "\<not> si_running NewSignalInterpreter" by (simp add: NewSignalInterpreter_def)
  then have "interp_emit (Suc (Suc 0)) 1 env s (NewSignalInterpreter, []) = Some (NewSignalInterpreter, [] @ [s])"
    using interpreter_zones [of 0 1 env s NewSignalInterpreter "[]"] by auto
  then show ?thesis unfolding Let_def s_def env_def by (simp only: append_Nil)
qed

end
