(* ===== verification/Import_Cycles.thy ===== *)
theory Import_Cycles
  imports Graph_Walk
begin

text \<open>
  The search for import cycles (\<^verbatim>\<open>tools/arch.go\<close>, \<^verbatim>\<open>findCycles\<close>): Tarjan's algorithm for
  strongly connected components, with its numbers, low links and stack. The stack is kept with its
  top first. The closure \<^verbatim>\<open>strongConnect\<close> is the record of the variables it captures, passed
  along; \<open>connect\<close> is its loop over the successors of a node.
\<close>

record tarjan =
  tj_index :: nat
  tj_stack :: "string list"
  tj_onStack :: "(string, bool) gomap"
  tj_indices :: "(string, nat) gomap"
  tj_lowlink :: "(string, nat) gomap"
  tj_visited :: "string list"
  tj_sccs :: "string list list"

abbreviation num :: "tarjan \<Rightarrow> string \<Rightarrow> nat" where "num st v \<equiv> mget 0 (tj_indices st) v"
abbreviation low :: "tarjan \<Rightarrow> string \<Rightarrow> nat" where "low st v \<equiv> mget 0 (tj_lowlink st) v"
abbreviation succs :: "(string, string list) gomap \<Rightarrow> string \<Rightarrow> string list" where "succs adj v \<equiv> mget [] adj v"

definition tarjan_start :: tarjan where
  "tarjan_start = \<lparr>tj_index = 0, tj_stack = [], tj_onStack = [], tj_indices = [], tj_lowlink = [], tj_visited = [], tj_sccs = []\<rparr>"

definition enter_node :: "string \<Rightarrow> tarjan \<Rightarrow> tarjan" where
  "enter_node v st = st\<lparr>tj_indices := mset_at (tj_indices st) v (tj_index st), tj_lowlink := mset_at (tj_lowlink st) v (tj_index st),
     tj_index := tj_index st + 1, tj_visited := v # tj_visited st, tj_stack := v # tj_stack st,
     tj_onStack := mset_at (tj_onStack st) v True\<rparr>"

definition lower :: "string \<Rightarrow> nat \<Rightarrow> tarjan \<Rightarrow> tarjan" where
  "lower v n st = (if n < low st v then st\<lparr>tj_lowlink := mset_at (tj_lowlink st) v n\<rparr> else st)"

text \<open>Popping the stack down to the root of the component.\<close>

fun pop_until :: "string \<Rightarrow> string list \<Rightarrow> string list \<Rightarrow> (string, bool) gomap \<Rightarrow> string list \<times> string list \<times> (string, bool) gomap" where
  "pop_until v [] scc on = ([], scc, on)"
| "pop_until v (w # stack) scc on =
     (let on' = mset_at on w False; scc' = scc @ [w]
      in if w = v then (stack, scc', on') else pop_until v stack scc' on')"

definition finish_node :: "(string, string list) gomap \<Rightarrow> string \<Rightarrow> tarjan \<Rightarrow> tarjan" where
  "finish_node adj v st =
     (if low st v = num st v then
        (case pop_until v (tj_stack st) [] (tj_onStack st) of (stack, scc, on) \<Rightarrow>
           let st1 = st\<lparr>tj_stack := stack, tj_onStack := on\<rparr>
           in if length scc > 1 then st1\<lparr>tj_sccs := tj_sccs st1 @ [sort scc]\<rparr>
              else if length scc = 1 \<and> list_ex (\<lambda>d. d = hd scc) (succs adj (hd scc)) then st1\<lparr>tj_sccs := tj_sccs st1 @ [scc]\<rparr>
              else st1)
      else st)"

function (sequential) connect :: "(string, string list) gomap \<Rightarrow> string \<Rightarrow> string list \<Rightarrow> tarjan \<Rightarrow> tarjan" where
  "connect adj v [] st = st"
| "connect adj v (w # ws) st =
     (if w \<notin> set (tj_visited st) then
        (let st1 = finish_node adj w (connect adj w (succs adj w) (enter_node w st))
         in connect adj v ws (lower v (low st1 w) st1))
      else if mget False (tj_onStack st) w then connect adj v ws (lower v (num st w) st)
      else connect adj v ws st)"
  by pat_completeness auto

lemma finish_visited [simp]: "tj_visited (finish_node adj v st) = tj_visited st"
  by (simp add: finish_node_def Let_def split: prod.split)

lemma lower_visited [simp]: "tj_visited (lower v n st) = tj_visited st"
  by (simp add: lower_def)

lemma enter_visited [simp]: "tj_visited (enter_node v st) = v # tj_visited st"
  by (simp add: enter_node_def)

lemma connect_visited_mono:
  "connect_dom (adj, v, ws, st) \<Longrightarrow> set (tj_visited st) \<subseteq> set (tj_visited (connect adj v ws st))"
proof (induction rule: connect.pinduct)
  case (1 adj v st)
  then show ?case by (simp add: connect.psimps)
next
  case (2 adj v w ws st)
  show ?case
  proof (cases "w \<in> set (tj_visited st)")
    case True
    show ?thesis
    proof (cases "mget False (tj_onStack st) w")
      case on: True
      have "connect adj v (w # ws) st = connect adj v ws (lower v (num st w) st)"
        using True on by (simp add: connect.psimps(2) [OF "2.hyps"])
      then show ?thesis using "2.IH"(3) True on by simp
    next
      case off: False
      have "connect adj v (w # ws) st = connect adj v ws st"
        using True off by (simp add: connect.psimps(2) [OF "2.hyps"])
      then show ?thesis using "2.IH"(4) True off by simp
    qed
  next
    case False
    let ?st1 = "finish_node adj w (connect adj w (succs adj w) (enter_node w st))"
    have "connect adj v (w # ws) st = connect adj v ws (lower v (low ?st1 w) ?st1)"
      using False by (simp add: connect.psimps(2) [OF "2.hyps"] Let_def)
    moreover have "set (tj_visited st) \<subseteq> set (tj_visited ?st1)" using "2.IH"(1) [OF False] by simp
    moreover have "set (tj_visited (lower v (low ?st1 w) ?st1)) \<subseteq> set (tj_visited (connect adj v ws (lower v (low ?st1 w) ?st1)))"
      using "2.IH"(2) [OF False refl] .
    ultimately show ?thesis by simp
  qed
qed

text \<open>A node without successors is left at once, so the nodes with successors bound the recursion.\<close>

definition open_nodes :: "(string, string list) gomap \<Rightarrow> tarjan \<Rightarrow> nat" where
  "open_nodes adj st = card (set (keys adj) - set (tj_visited st))"

lemma open_nodes_mono: "set (tj_visited st) \<subseteq> set (tj_visited st') \<Longrightarrow> open_nodes adj st' \<le> open_nodes adj st"
  unfolding open_nodes_def by (intro card_mono) auto

lemma open_nodes_enter:
  "w \<in> set (keys adj) \<Longrightarrow> w \<notin> set (tj_visited st) \<Longrightarrow> open_nodes adj (enter_node w st) < open_nodes adj st"
  unfolding open_nodes_def by (rule psubset_card_mono) auto

lemma succs_no_key: "w \<notin> set (keys adj) \<Longrightarrow> succs adj w = []"
  using map_of_eq_None_keys [of adj w] by (simp add: mget_def)

termination connect
proof (relation "measures [\<lambda>(adj, v, ws, st). open_nodes adj st, \<lambda>(adj, v, ws, st). length ws]")
  let ?R = "measures [\<lambda>(adj, v, ws, st). open_nodes adj st, \<lambda>(adj :: (string, string list) gomap, v :: string, ws :: string list, st :: tarjan). length ws]"
  fix adj :: "(string, string list) gomap" and v w :: string and ws and st :: tarjan
  assume w: "w \<notin> set (tj_visited st)"
  have e: "open_nodes adj (enter_node w st) \<le> open_nodes adj st" by (rule open_nodes_mono) auto
  show "((adj, w, succs adj w, enter_node w st), adj, v, w # ws, st) \<in> ?R"
  proof (cases "w \<in> set (keys adj)")
    case True
    then show ?thesis using open_nodes_enter [OF True w] by simp
  next
    case False
    then show ?thesis using e succs_no_key [OF False] by (simp add: le_less)
  qed
  fix x assume x: "x = finish_node adj w (connect adj w (succs adj w) (enter_node w st))"
    and d: "connect_dom (adj, w, succs adj w, enter_node w st)"
  have "set (tj_visited st) \<subseteq> set (tj_visited x)" using connect_visited_mono [OF d] by (auto simp: x)
  then have "open_nodes adj (lower v (low x w) x) \<le> open_nodes adj st"
    by (intro open_nodes_mono) simp
  then show "((adj, v, ws, lower v (low x w) x), adj, v, w # ws, st) \<in> ?R"
    by (simp add: le_less)
qed (auto simp: open_nodes_def)

definition strongConnect :: "(string, string list) gomap \<Rightarrow> string \<Rightarrow> tarjan \<Rightarrow> tarjan" where
  "strongConnect adj v st = finish_node adj v (connect adj v (succs adj v) (enter_node v st))"

definition findCycles :: "(string, string list) gomap \<Rightarrow> string list list" where
  "findCycles adj =
     tj_sccs (fold (\<lambda>n st. if n \<notin> set (tj_visited st) then strongConnect adj n st else st) (sort (keys adj)) tarjan_start)"

subsection \<open>The invariant of the search\<close>

definition import_edges :: "(string, string list) gomap \<Rightarrow> (string \<times> string) set" where
  "import_edges adj = {(x, y). y \<in> set (succs adj x)}"

abbreviation reaches :: "(string, string list) gomap \<Rightarrow> string \<Rightarrow> string \<Rightarrow> bool" where
  "reaches adj x y \<equiv> (x, y) \<in> (import_edges adj)\<^sup>*"

definition scc_of :: "(string, string list) gomap \<Rightarrow> string \<Rightarrow> string set" where
  "scc_of adj x = {y. reaches adj x y \<and> reaches adj y x}"

definition cyclic :: "(string, string list) gomap \<Rightarrow> string \<Rightarrow> bool" where
  "cyclic adj x = ((x, x) \<in> (import_edges adj)\<^sup>+)"

text \<open>The nodes that are visited and no longer on the stack.\<close>

definition settled :: "tarjan \<Rightarrow> string set" where
  "settled st = set (tj_visited st) - set (tj_stack st)"

definition sccs_ok :: "(string, string list) gomap \<Rightarrow> tarjan \<Rightarrow> bool" where
  "sccs_ok adj st = (set ` set (tj_sccs st) = scc_of adj ` {x \<in> settled st. cyclic adj x} \<and>
     distinct (map set (tj_sccs st)) \<and> (\<forall>c \<in> set (tj_sccs st). sorted c \<and> distinct c))"

text \<open>The set of nodes whose calls are under way is \<open>gray\<close>.\<close>

definition tarjan_ok :: "(string, string list) gomap \<Rightarrow> string set \<Rightarrow> tarjan \<Rightarrow> bool" where
  "tarjan_ok adj gray st =
     (distinct (tj_stack st) \<and> set (tj_stack st) \<subseteq> set (tj_visited st) \<and>
      (\<forall>w. mget False (tj_onStack st) w \<longleftrightarrow> w \<in> set (tj_stack st)) \<and>
      (\<forall>x \<in> set (tj_visited st). num st x < tj_index st) \<and>
      sorted_wrt (\<lambda>a b. num st b < num st a) (tj_stack st) \<and> gray \<subseteq> set (tj_stack st) \<and>
      (\<forall>x \<in> settled st. \<forall>y \<in> set (succs adj x). y \<in> settled st) \<and>
      (\<forall>x \<in> set (tj_visited st) - gray. \<forall>y \<in> set (succs adj x). y \<in> set (tj_visited st)) \<and>
      (\<forall>x \<in> set (tj_stack st). \<forall>y \<in> set (tj_stack st). num st x \<le> num st y \<longrightarrow> reaches adj x y) \<and>
      (\<forall>y \<in> set (tj_stack st). \<exists>x \<in> gray. num st x \<le> num st y \<and> reaches adj y x) \<and>
      sccs_ok adj st)"

text \<open>What holds of a node \<open>v\<close> after the successors \<open>ds\<close>, with the part \<open>new\<close> of the stack above it.\<close>

definition node_ok :: "(string, string list) gomap \<Rightarrow> string \<Rightarrow> string list \<Rightarrow> string list \<Rightarrow> string list \<Rightarrow> tarjan \<Rightarrow> bool" where
  "node_ok adj v ds new old st =
     (tj_stack st = new @ v # old \<and> set ds \<subseteq> set (tj_visited st) \<and> low st v \<le> num st v \<and>
      (\<exists>y \<in> set (tj_stack st). num st y = low st v \<and> reaches adj v y) \<and>
      (\<forall>a \<in> set new. \<forall>y \<in> set (succs adj a). y \<in> set (v # old) \<longrightarrow> low st v \<le> num st y) \<and>
      (\<forall>y \<in> set ds. y \<in> set (v # old) \<longrightarrow> low st v \<le> num st y))"

text \<open>What a call keeps of the nodes visited before it, other than \<open>v\<close>.\<close>

definition keeps :: "string set \<Rightarrow> tarjan \<Rightarrow> tarjan \<Rightarrow> bool" where
  "keeps S st st' = (set (tj_visited st) \<subseteq> set (tj_visited st') \<and>
     (\<forall>x \<in> set (tj_visited st). num st' x = num st x \<and> (x \<notin> S \<longrightarrow> low st' x = low st x)))"

lemma keeps_trans: "keeps S a b \<Longrightarrow> keeps T b c \<Longrightarrow> T \<inter> set (tj_visited a) \<subseteq> S \<Longrightarrow> keeps S a c"
  unfolding keeps_def by (metis IntI subset_iff)

lemma pop_until_spec:
  "v \<notin> set new \<Longrightarrow> pop_until v (new @ v # old) scc on =
     (old, scc @ new @ [v], foldl (\<lambda>m w. mset_at m w False) on (new @ [v]))"
  by (induction new arbitrary: scc on) (auto simp: Let_def)

lemma mget_false: "mget False (foldl (\<lambda>m w. mset_at m w False) on ws) x \<longleftrightarrow> x \<notin> set ws \<and> mget False on x"
  by (induction ws arbitrary: on) auto

lemma reach_succ: "y \<in> set (succs adj x) \<Longrightarrow> reaches adj x y"
  by (rule r_into_rtrancl) (simp add: import_edges_def)

subsection \<open>Entering a node and lowering its link\<close>

lemma lower_fields [simp]:
  "tj_stack (lower v n st) = tj_stack st" "tj_onStack (lower v n st) = tj_onStack st" "tj_indices (lower v n st) = tj_indices st"
  "tj_sccs (lower v n st) = tj_sccs st" "tj_index (lower v n st) = tj_index st"
  "low (lower v n st) x = (if x = v then min (low st v) n else low st x)"
  by (simp_all add: lower_def)

lemma lower_ok [simp]: "tarjan_ok adj gray (lower v n st) = tarjan_ok adj gray st"
  by (simp add: tarjan_ok_def settled_def sccs_ok_def)

lemma lower_keeps: "keeps {v} st (lower v n st)"
  by (simp add: keeps_def)

lemma enter_fields [simp]:
  "tj_stack (enter_node v st) = v # tj_stack st" "tj_index (enter_node v st) = tj_index st + 1" "tj_sccs (enter_node v st) = tj_sccs st"
  "num (enter_node v st) x = (if x = v then tj_index st else num st x)"
  "low (enter_node v st) x = (if x = v then tj_index st else low st x)"
  "mget False (tj_onStack (enter_node v st)) x \<longleftrightarrow> x = v \<or> mget False (tj_onStack st) x"
  by (simp_all add: enter_node_def)

lemma tarjan_okD:
  assumes "tarjan_ok adj gray st"
  shows "distinct (tj_stack st)" "set (tj_stack st) \<subseteq> set (tj_visited st)" "mget False (tj_onStack st) w \<longleftrightarrow> w \<in> set (tj_stack st)"
    "x \<in> set (tj_visited st) \<Longrightarrow> num st x < tj_index st" "sorted_wrt (\<lambda>a b. num st b < num st a) (tj_stack st)"
    "gray \<subseteq> set (tj_stack st)" "x \<in> settled st \<Longrightarrow> y \<in> set (succs adj x) \<Longrightarrow> y \<in> settled st"
    "x \<in> set (tj_visited st) \<Longrightarrow> x \<notin> gray \<Longrightarrow> y \<in> set (succs adj x) \<Longrightarrow> y \<in> set (tj_visited st)"
    "x \<in> set (tj_stack st) \<Longrightarrow> y \<in> set (tj_stack st) \<Longrightarrow> num st x \<le> num st y \<Longrightarrow> reaches adj x y"
    "y \<in> set (tj_stack st) \<Longrightarrow> \<exists>x \<in> gray. num st x \<le> num st y \<and> reaches adj y x" "sccs_ok adj st"
  using assms unfolding tarjan_ok_def by blast+

lemma tarjan_okI:
  assumes "distinct (tj_stack st)" "set (tj_stack st) \<subseteq> set (tj_visited st)" "\<And>w. mget False (tj_onStack st) w \<longleftrightarrow> w \<in> set (tj_stack st)"
    "\<And>x. x \<in> set (tj_visited st) \<Longrightarrow> num st x < tj_index st" "sorted_wrt (\<lambda>a b. num st b < num st a) (tj_stack st)"
    "gray \<subseteq> set (tj_stack st)" "\<And>x y. x \<in> settled st \<Longrightarrow> y \<in> set (succs adj x) \<Longrightarrow> y \<in> settled st"
    "\<And>x y. x \<in> set (tj_visited st) \<Longrightarrow> x \<notin> gray \<Longrightarrow> y \<in> set (succs adj x) \<Longrightarrow> y \<in> set (tj_visited st)"
    "\<And>x y. x \<in> set (tj_stack st) \<Longrightarrow> y \<in> set (tj_stack st) \<Longrightarrow> num st x \<le> num st y \<Longrightarrow> reaches adj x y"
    "\<And>y. y \<in> set (tj_stack st) \<Longrightarrow> \<exists>x \<in> gray. num st x \<le> num st y \<and> reaches adj y x" "sccs_ok adj st"
  shows "tarjan_ok adj gray st"
  using assms unfolding tarjan_ok_def by blast

lemma enter_ok:
  assumes ok: "tarjan_ok adj gray st" and v: "v \<notin> set (tj_visited st)" and g: "\<forall>g \<in> gray. reaches adj g v"
  shows "tarjan_ok adj (insert v gray) (enter_node v st)" "node_ok adj v [] [] (tj_stack st) (enter_node v st)"
    "keeps {} st (enter_node v st)"
proof -
  let ?st = "enter_node v st"
  note o = tarjan_okD [OF ok]
  have ns: "v \<notin> set (tj_stack st)" using v o(2) by blast
  have num: "num ?st x = num st x" "num st x < tj_index st" if "x \<in> set (tj_stack st)" for x
    using that ns o(2,4) by auto
  have set: "settled ?st = settled st" using v by (auto simp: settled_def)
  show "node_ok adj v [] [] (tj_stack st) ?st" by (simp add: node_ok_def)
  show "keeps {} st ?st" using v by (auto simp: keeps_def)
  show "tarjan_ok adj (insert v gray) ?st" unfolding tarjan_ok_def
  proof (intro conjI)
    show "distinct (tj_stack ?st)" using ns o(1) by simp
    show "set (tj_stack ?st) \<subseteq> set (tj_visited ?st)" using o(2) by auto
    show "\<forall>w. mget False (tj_onStack ?st) w \<longleftrightarrow> w \<in> set (tj_stack ?st)" using o(3) by simp
    show "\<forall>x \<in> set (tj_visited ?st). num ?st x < tj_index ?st" using o(4) by (auto simp: less_SucI)
    have "sorted_wrt (\<lambda>a b. num ?st b < num ?st a) (tj_stack st)"
      using o(5) by (rule sorted_wrt_mono_rel [rotated]) (use ns in auto)
    then show "sorted_wrt (\<lambda>a b. num ?st b < num ?st a) (tj_stack ?st)" using num ns by auto
    show "insert v gray \<subseteq> set (tj_stack ?st)" using o(6) by auto
    show "\<forall>x \<in> settled ?st. \<forall>y \<in> set (succs adj x). y \<in> settled ?st" using o(7) unfolding set by blast
    show "\<forall>x \<in> set (tj_visited ?st) - insert v gray. \<forall>y \<in> set (succs adj x). y \<in> set (tj_visited ?st)"
      using o(8) by auto
    show "\<forall>x \<in> set (tj_stack ?st). \<forall>y \<in> set (tj_stack ?st). num ?st x \<le> num ?st y \<longrightarrow> reaches adj x y"
    proof (intro ballI impI)
      fix x y assume x: "x \<in> set (tj_stack ?st)" and y: "y \<in> set (tj_stack ?st)" and le: "num ?st x \<le> num ?st y"
      show "reaches adj x y"
      proof (cases "x = v")
        case True
        then have "y = v" using le y num by fastforce
        then show ?thesis using True by simp
      next
        case xv: False
        show ?thesis
        proof (cases "y = v")
          case True
          from xv x obtain g where "g \<in> gray" "reaches adj x g" using o(10) by auto
          then show ?thesis using g True by (metis rtrancl_trans)
        next
          case False
          then show ?thesis using xv x y le o(9) by auto
        qed
      qed
    qed
    show "\<forall>y \<in> set (tj_stack ?st). \<exists>x \<in> insert v gray. num ?st x \<le> num ?st y \<and> reaches adj y x"
    proof
      fix y assume y: "y \<in> set (tj_stack ?st)"
      show "\<exists>x \<in> insert v gray. num ?st x \<le> num ?st y \<and> reaches adj y x"
      proof (cases "y = v")
        case False
        then obtain x where x: "x \<in> gray" "num st x \<le> num st y" "reaches adj y x" using y o(10) by auto
        moreover have "x \<noteq> v" using x(1) o(6) ns by blast
        ultimately show ?thesis using False by auto
      qed simp
    qed
    show "sccs_ok adj ?st" using o(11) by (simp add: sccs_ok_def set)
  qed
qed

lemma see_settled:
  "node_ok adj v ds new old st \<Longrightarrow> w \<in> set (tj_visited st) \<Longrightarrow> w \<notin> set (tj_stack st) \<Longrightarrow> node_ok adj v (ds @ [w]) new old st"
  by (auto simp: node_ok_def)

lemma node_okD:
  assumes "node_ok adj v ds new old st"
  shows "tj_stack st = new @ v # old" "set ds \<subseteq> set (tj_visited st)" "low st v \<le> num st v"
    "\<exists>y \<in> set (tj_stack st). num st y = low st v \<and> reaches adj v y"
    "a \<in> set new \<Longrightarrow> y \<in> set (succs adj a) \<Longrightarrow> y \<in> set (v # old) \<Longrightarrow> low st v \<le> num st y"
    "y \<in> set ds \<Longrightarrow> y \<in> set (v # old) \<Longrightarrow> low st v \<le> num st y"
  using assms unfolding node_ok_def by blast+

lemma low_lowered:
  assumes "\<exists>y \<in> S. num st y = low st v \<and> reaches adj v y" "\<exists>y \<in> S. num st y = n \<and> reaches adj v y"
  shows "\<exists>y \<in> S. num st y = min (low st v) n \<and> reaches adj v y"
  using assms by (auto simp: min_def)

lemma see_stacked:
  assumes n: "node_ok adj v ds new old st" and w: "w \<in> set (tj_stack st)" "w \<in> set (tj_visited st)" "reaches adj v w"
  shows "node_ok adj v (ds @ [w]) new old (lower v (num st w) st)"
proof -
  note o = node_okD [OF n]
  have ex: "\<exists>y \<in> set (tj_stack st). num st y = min (low st v) (num st w) \<and> reaches adj v y"
    using w by (intro low_lowered [OF o(4)] bexI [of _ w]) auto
  show ?thesis unfolding node_ok_def lower_fields lower_visited if_True refl
  proof (intro conjI)
    show "set (ds @ [w]) \<subseteq> set (tj_visited st)" using o(2) w(2) by simp
  next
    show "(\<exists>y \<in> set (tj_stack st). num st y = (if v = v then min (low st v) (num st w) else low st v) \<and> reaches adj v y)"
      using ex by simp
  next
    show "\<forall>a \<in> set new. \<forall>y \<in> set (succs adj a). y \<in> set (v # old) \<longrightarrow> (if v = v then min (low st v) (num st w) else low st v) \<le> num st y"
      using o(5) by (auto simp: min.coboundedI1)
  next
    show "\<forall>y \<in> set (ds @ [w]). y \<in> set (v # old) \<longrightarrow> (if v = v then min (low st v) (num st w) else low st v) \<le> num st y"
      using o(6) by (auto simp: min.coboundedI1)
  qed (use o(1,3) in \<open>simp_all add: min.coboundedI1\<close>)
qed

subsection \<open>Leaving a node\<close>

lemma finish_low:
  assumes "low st v \<noteq> num st v"
  shows "finish_node adj v st = st"
  using assms by (simp add: finish_node_def)

lemma finish_root:
  assumes "low st v = num st v" "tj_stack st = new @ v # old" "v \<notin> set new"
  shows "tj_stack (finish_node adj v st) = old"
    "tj_onStack (finish_node adj v st) = foldl (\<lambda>m w. mset_at m w False) (tj_onStack st) (new @ [v])"
    "tj_sccs (finish_node adj v st) = tj_sccs st @
       (if new \<noteq> [] then [sort (new @ [v])] else if v \<in> set (succs adj v) then [[v]] else [])"
  using assms pop_until_spec [OF assms(3), of old "[]" "tj_onStack st"]
  by (auto simp: finish_node_def Let_def list_ex_iff)

lemma finish_fields [simp]:
  "tj_indices (finish_node adj v st) = tj_indices st" "tj_lowlink (finish_node adj v st) = tj_lowlink st"
  "tj_index (finish_node adj v st) = tj_index st"
  by (simp_all add: finish_node_def Let_def split: prod.split)

text \<open>What the invariant says of the part of the stack above \<open>v\<close>.\<close>

lemma stack_above:
  assumes ok: "tarjan_ok adj (insert v gray) st" and n: "tj_stack st = new @ v # old" and g: "gray \<subseteq> set old"
  shows "v \<notin> set new" "v \<notin> set old" "set new \<inter> set old = {}" "x \<in> set old \<Longrightarrow> num st x < num st v"
    "x \<in> set new \<Longrightarrow> num st v < num st x" "x \<in> set new \<Longrightarrow> x \<notin> insert v gray"
    "x \<in> set new \<Longrightarrow> reaches adj v x" "x \<in> set new \<Longrightarrow> reaches adj x v"
proof -
  note o = tarjan_okD [OF ok]
  show d: "v \<notin> set new" "v \<notin> set old" "set new \<inter> set old = {}" using o(1) n by auto
  show lt: "x \<in> set old \<Longrightarrow> num st x < num st v" for x using o(5) n by (auto simp: sorted_wrt_append)
  show gt: "x \<in> set new \<Longrightarrow> num st v < num st x" for x using o(5) n by (auto simp: sorted_wrt_append)
  show "x \<in> set new \<Longrightarrow> x \<notin> insert v gray" using d g by blast
  show "x \<in> set new \<Longrightarrow> reaches adj v x" using o(9) [of v x] gt [of x] n by simp
  assume x: "x \<in> set new"
  then have "x \<in> set (tj_stack st)" using n by simp
  from o(10) [OF this] obtain y where y: "y \<in> insert v gray" "reaches adj x y" by blast
  have "reaches adj y v"
  proof (cases "y = v")
    case False
    then have "y \<in> set old" using y(1) g by blast
    then show ?thesis using o(9) [of y v] lt [of y] n by simp
  qed simp
  then show "reaches adj x v" using y(2) by (rule rtrancl_trans [rotated])
qed

lemma reach_closed:
  assumes "reaches adj x y" "x \<in> S" "\<And>a b. a \<in> S \<Longrightarrow> b \<in> set (succs adj a) \<Longrightarrow> b \<in> S"
  shows "y \<in> S"
  using assms(1,2) by (induction rule: rtrancl_induct) (auto simp: import_edges_def intro: assms(3))

lemma scc_of_eq: "y \<in> scc_of adj x \<Longrightarrow> scc_of adj y = scc_of adj x"
  by (auto simp: scc_of_def intro: rtrancl_trans)

lemma cyclic_two: "y \<in> scc_of adj x \<Longrightarrow> y \<noteq> x \<Longrightarrow> cyclic adj x"
  unfolding scc_of_def cyclic_def by (auto dest: rtranclD intro: trancl_trans)

lemma cyclic_one:
  assumes "scc_of adj v = {v}"
  shows "cyclic adj v \<longleftrightarrow> v \<in> set (succs adj v)"
proof
  assume "cyclic adj v"
  then obtain w where w: "(v, w) \<in> import_edges adj" "reaches adj w v" unfolding cyclic_def by (auto dest: tranclD)
  then have "w \<in> scc_of adj v" by (auto simp: scc_of_def)
  then have "w = v" using assms by simp
  then show "v \<in> set (succs adj v)" using w(1) by (simp add: import_edges_def)
qed (auto simp: cyclic_def import_edges_def)

lemma finish_ok_low:
  assumes ok: "tarjan_ok adj (insert v gray) st" and n: "node_ok adj v (succs adj v) new old st" and g: "gray \<subseteq> set old"
    and low: "low st v < num st v"
  shows "tarjan_ok adj gray st"
proof -
  note o = tarjan_okD [OF ok] and m = node_okD [OF n]
  note a = stack_above [OF ok m(1) g]
  obtain y where y: "y \<in> set (tj_stack st)" "num st y = low st v" "reaches adj v y" using m(4) by blast
  obtain x where x: "x \<in> insert v gray" "num st x \<le> num st y" "reaches adj y x" using o(10) [OF y(1)] by blast
  have xv: "x \<noteq> v" using x(2) y(2) low by auto
  have base: "\<exists>x \<in> gray. num st x \<le> num st z \<and> reaches adj z x" if z: "z \<in> set (tj_stack st)" for z
  proof -
    obtain u where u: "u \<in> insert v gray" "num st u \<le> num st z" "reaches adj z u" using o(10) [OF z] by blast
    show ?thesis
    proof (cases "u = v")
      case True
      have "reaches adj z x" using u(3) y(3) x(3) unfolding True by (meson rtrancl_trans)
      moreover have "num st x \<le> num st z" using u(2) x(2) y(2) low unfolding True by linarith
      ultimately show ?thesis using x(1) xv by blast
    next
      case False
      then show ?thesis using u by blast
    qed
  qed
  have vis: "y \<in> set (tj_visited st)" if "x \<in> set (tj_visited st)" "x \<notin> gray" "y \<in> set (succs adj x)" for x y
    using that o(8) [of x y] m(2) by (cases "x = v") auto
  have sub: "gray \<subseteq> set (tj_stack st)" using o(6) by blast
  show ?thesis by (rule tarjan_okI) (fact o(1) o(2) o(3) o(4) o(5) sub o(7) vis o(9) base o(11))+
qed

text \<open>A root leaves a whole component behind.\<close>

lemma root_component:
  assumes ok: "tarjan_ok adj (insert v gray) st" and n: "node_ok adj v (succs adj v) new old st" and g: "gray \<subseteq> set old"
    and root: "low st v = num st v"
  shows "\<And>x y. x \<in> insert v (set new) \<union> settled st \<Longrightarrow> y \<in> set (succs adj x) \<Longrightarrow> y \<in> insert v (set new) \<union> settled st"
    "scc_of adj v = insert v (set new)"
proof -
  note o = tarjan_okD [OF ok] and m = node_okD [OF n]
  note a = stack_above [OF ok m(1) g]
  show cl: "y \<in> insert v (set new) \<union> settled st" if x: "x \<in> insert v (set new) \<union> settled st" and y: "y \<in> set (succs adj x)" for x y
  proof (cases "x \<in> settled st")
    case True
    then show ?thesis using o(7) y by blast
  next
    case False
    then have xn: "x = v \<or> x \<in> set new" using x by blast
    have "x \<in> set (tj_visited st)" using xn o(2) m(1) by auto
    then have vis: "y \<in> set (tj_visited st)" using o(8) [of x y] y m(2) a(6) [of x] xn by (cases "x = v") auto
    show ?thesis
    proof (rule ccontr)
      assume ny: "\<not> ?thesis"
      then have "y \<in> set (tj_stack st)" using vis by (simp add: settled_def)
      then have old: "y \<in> set old" using ny m(1) by auto
      have "low st v \<le> num st y" using xn m(5) [of x y] m(6) [of y] y old by auto
      then show False using a(4) [OF old] root by simp
    qed
  qed
  have vs: "v \<notin> settled st" using m(1) by (simp add: settled_def)
  show "scc_of adj v = insert v (set new)"
  proof
    show "insert v (set new) \<subseteq> scc_of adj v" using a(7,8) by (auto simp: scc_of_def)
    show "scc_of adj v \<subseteq> insert v (set new)"
    proof
      fix y assume y: "y \<in> scc_of adj v"
      have "y \<in> insert v (set new) \<union> settled st"
        using y by (intro reach_closed [of v y adj, OF _ _ cl]) (auto simp: scc_of_def)
      moreover have "y \<notin> settled st"
      proof
        assume "y \<in> settled st"
        then have "v \<in> settled st" using y by (intro reach_closed [of y v adj, OF _ _ o(7)]) (auto simp: scc_of_def)
        then show False using vs by simp
      qed
      ultimately show "y \<in> insert v (set new)" by blast
    qed
  qed
qed

lemma sccs_ok_add:
  assumes ok: "sccs_ok adj st" and new: "scc_of adj v = set (new @ [v])" and d: "distinct (new @ [v])" and fresh: "v \<notin> settled st"
    and cl: "\<And>x y. x \<in> settled st \<Longrightarrow> y \<in> set (succs adj x) \<Longrightarrow> y \<in> settled st"
    and set': "settled st' = insert v (set new) \<union> settled st"
    and sccs': "tj_sccs st' = tj_sccs st @ (if new \<noteq> [] then [sort (new @ [v])] else if v \<in> set (succs adj v) then [[v]] else [])"
  shows "sccs_ok adj st'"
proof -
  let ?add = "if new \<noteq> [] then [sort (new @ [v])] else if v \<in> set (succs adj v) then [[v]] else []"
  have scc: "scc_of adj x = scc_of adj v" if "x \<in> insert v (set new)" for x using that scc_of_eq [of x adj v] new by auto
  have cyc: "cyclic adj x \<longleftrightarrow> ?add \<noteq> []" if x: "x \<in> insert v (set new)" for x
  proof (cases "new = []")
    case True
    then show ?thesis using x cyclic_one [of adj v] new by simp
  next
    case False
    then have "hd new \<in> set new" "hd new \<noteq> v" using d by (auto simp: neq_Nil_conv)
    then obtain y where y: "y \<in> insert v (set new)" "y \<noteq> x" by (cases "x = v") auto
    then have "cyclic adj x" using scc [OF x] new by (intro cyclic_two [of y]) auto
    then show ?thesis using False by simp
  qed
  have sets: "set ` set ?add = scc_of adj ` {x \<in> insert v (set new). cyclic adj x}"
  proof (cases "?add = []")
    case True
    then have "{x \<in> insert v (set new). cyclic adj x} = {}" using cyc by blast
    then show ?thesis unfolding True by simp
  next
    case False
    then have "{x \<in> insert v (set new). cyclic adj x} = insert v (set new)" using cyc by blast
    moreover have "scc_of adj ` insert v (set new) = {insert v (set new)}" using scc new by auto
    moreover have "set ` set ?add = {insert v (set new)}" using False by (auto split: if_splits)
    ultimately show ?thesis by simp
  qed
  have split: "{x \<in> settled st'. cyclic adj x} = {x \<in> settled st. cyclic adj x} \<union> {x \<in> insert v (set new). cyclic adj x}"
    using set' by blast
  have old: "c \<subseteq> settled st" if "c \<in> set ` set (tj_sccs st)" for c
  proof -
    obtain x where x: "x \<in> settled st" "c = scc_of adj x" using \<open>c \<in> _\<close> ok unfolding sccs_ok_def by auto
    show ?thesis unfolding x(2) using x(1) cl by (auto simp: scc_of_def intro: reach_closed)
  qed
  have "set c \<noteq> set e" if "c \<in> set (tj_sccs st)" "e \<in> set ?add" for c e
  proof -
    have "v \<in> set e" using that(2) by (auto split: if_splits)
    then show ?thesis using old [of "set c"] that(1) fresh by blast
  qed
  then have "set ` set (tj_sccs st) \<inter> set ` set ?add = {}" by blast
  moreover have "distinct (map set (tj_sccs st))" using ok by (simp add: sccs_ok_def)
  moreover have "distinct (map set ?add)" by simp
  ultimately have dis: "distinct (map set (tj_sccs st'))"
    unfolding sccs' by (simp only: map_append distinct_append set_map)
  show ?thesis unfolding sccs_ok_def split image_Un
  proof (intro conjI)
    show "set ` set (tj_sccs st') = scc_of adj ` {x \<in> settled st. cyclic adj x} \<union> scc_of adj ` {x \<in> insert v (set new). cyclic adj x}"
      using ok unfolding sccs' set_append image_Un sets by (simp add: sccs_ok_def)
    show "\<forall>c \<in> set (tj_sccs st'). sorted c \<and> distinct c"
      using ok d unfolding sccs' sccs_ok_def by (auto split: if_splits)
  qed (rule dis)
qed

lemma finish_ok_root:
  assumes ok: "tarjan_ok adj (insert v gray) st" and n: "node_ok adj v (succs adj v) new old st" and g: "gray \<subseteq> set old"
    and root: "low st v = num st v"
  shows "tarjan_ok adj gray (finish_node adj v st)" "tj_stack (finish_node adj v st) = old"
proof -
  let ?st = "finish_node adj v st"
  note o = tarjan_okD [OF ok] and m = node_okD [OF n]
  note a = stack_above [OF ok m(1) g] and c = root_component [OF ok n g root]
  note f = finish_root [OF root m(1) a(1), of adj]
  show stk: "tj_stack ?st = old" by (fact f(1))
  have set: "settled ?st = insert v (set new) \<union> settled st"
    using a(1-3) o(2) m(1) by (auto simp: settled_def stk)
  have vs: "v \<notin> settled st" using m(1) by (simp add: settled_def)
  have sub: "set old \<subseteq> set (tj_stack st)" using m(1) by auto
  show "tarjan_ok adj gray ?st"
  proof (rule tarjan_okI, unfold stk set finish_visited finish_fields)
    show "distinct old" using o(1) m(1) by simp
    show "set old \<subseteq> set (tj_visited st)" using o(2) sub by blast
    show "mget False (tj_onStack ?st) w \<longleftrightarrow> w \<in> set old" for w
      unfolding f(2) mget_false using o(3) [of w] a(1-3) m(1) by auto
    show "num st x < tj_index st" if "x \<in> set (tj_visited st)" for x using o(4) that by blast
    show "sorted_wrt (\<lambda>a b. num st b < num st a) old" using o(5) m(1) by (simp add: sorted_wrt_append)
    show "gray \<subseteq> set old" by (fact g)
    show "y \<in> insert v (set new) \<union> settled st" if "x \<in> insert v (set new) \<union> settled st" "y \<in> set (succs adj x)" for x y
      using that by (rule c(1))
    show "y \<in> set (tj_visited st)" if "x \<in> set (tj_visited st)" "x \<notin> gray" "y \<in> set (succs adj x)" for x y
      using that o(8) [of x y] m(2) by (cases "x = v") auto
    show "reaches adj x y" if "x \<in> set old" "y \<in> set old" "num st x \<le> num st y" for x y
      using that sub by (intro o(9)) auto
    show "\<exists>x \<in> gray. num st x \<le> num st y \<and> reaches adj y x" if y: "y \<in> set old" for y
    proof -
      obtain x where x: "x \<in> insert v gray" "num st x \<le> num st y" "reaches adj y x" using o(10) [of y] y sub by blast
      then have "x \<noteq> v" using a(4) [OF y] by auto
      then show ?thesis using x by blast
    qed
    have d: "distinct (new @ [v])" using o(1) m(1) a(1) by simp
    have sv: "scc_of adj v = set (new @ [v])" using c(2) by simp
    show "sccs_ok adj ?st" by (rule sccs_ok_add [OF o(11) sv d vs o(7) set f(3)])
  qed
qed

text \<open>Both ways of leaving a node, for the caller \<open>p\<close> that visited it.\<close>

lemma finish_ok:
  assumes ok: "tarjan_ok adj (insert v gray) st" and n: "node_ok adj v (succs adj v) new old st" and g: "gray \<subseteq> set old"
  shows "tarjan_ok adj gray (finish_node adj v st)"
    "tj_stack (finish_node adj v st) = (if low st v = num st v then old else new @ v # old)"
proof -
  have "low st v \<le> num st v" using node_okD(3) [OF n] .
  then consider "low st v = num st v" | "low st v < num st v" by linarith
  then have "tarjan_ok adj gray (finish_node adj v st) \<and> tj_stack (finish_node adj v st) = (if low st v = num st v then old else new @ v # old)"
  proof cases
    case 1
    then show ?thesis using finish_ok_root [OF ok n g 1] by simp
  next
    case 2
    then show ?thesis using finish_ok_low [OF ok n g 2] finish_low [of st v adj] node_okD(1) [OF n] by simp
  qed
  then show "tarjan_ok adj gray (finish_node adj v st)"
    "tj_stack (finish_node adj v st) = (if low st v = num st v then old else new @ v # old)" by blast+
qed

lemma finish_keeps: "keeps {} st (finish_node adj v st)"
  by (simp add: keeps_def)

lemma see_new:
  assumes p: "node_ok adj p ds new old st" and pw: "reaches adj p w" "w \<notin> set (tj_visited st)"
    and ok: "tarjan_ok adj gray st" and ok2: "tarjan_ok adj (insert w gray) st2"
    and n: "node_ok adj w (succs adj w) neww (new @ p # old) st2" and k: "keeps {} st st2"
    and stk: "tj_stack st1 = (if low st2 w = num st2 w then new @ p # old else neww @ w # new @ p # old)"
    and same: "tj_visited st1 = tj_visited st2" "tj_indices st1 = tj_indices st2" "tj_lowlink st1 = tj_lowlink st2"
  shows "\<exists>new'. node_ok adj p (ds @ [w]) new' old (lower p (low st1 w) st1)"
proof -
  note o = node_okD [OF p] and m = node_okD [OF n] and vis = tarjan_okD(2) [OF ok]
  have inst: "x \<in> set (tj_stack st)" if "x \<in> set new \<or> x \<in> set (p # old)" for x using that o(1) by auto
  have sn: "num st1 x = num st x" if "x \<in> set (tj_stack st)" for x using that vis k same unfolding keeps_def by auto
  have pst: "p \<in> set (tj_stack st)" using o(1) by simp
  have lp: "low st1 p = low st p" using pst vis k same unfolding keeps_def by auto
  have wvis: "w \<in> set (tj_visited st2)" using tarjan_okD(2) [OF ok2] m(1) by auto
  have dsv: "set (ds @ [w]) \<subseteq> set (tj_visited st1)" using o(2) k wvis same unfolding keeps_def by auto
  have wold: "w \<notin> set (p # old)" using pw(2) vis inst by blast
  let ?st = "lower p (low st1 w) st1"
  have le: "low ?st p \<le> num ?st p" "low ?st p \<le> low st p" "low ?st p \<le> low st1 w"
    using o(3) sn [OF pst] lp by (auto simp: min.coboundedI1)
  have dsl: "low ?st p \<le> num ?st y" if y: "y \<in> set (ds @ [w])" "y \<in> set (p # old)" for y
  proof -
    have "y \<in> set ds" using y wold by auto
    then show ?thesis using le(2) o(6) [OF _ y(2)] sn [of y] inst [of y] y(2) by fastforce
  qed
  have newl: "low ?st p \<le> num ?st y" if "a \<in> set new" "y \<in> set (succs adj a)" "y \<in> set (p # old)" for a y
    using le(2) o(5) [OF that] sn [of y] inst [of y] that(3) by fastforce
  obtain y0 where y0: "y0 \<in> set (tj_stack st)" "num st y0 = low st p" "reaches adj p y0" using o(4) by blast
  have sub: "set (tj_stack st) \<subseteq> set (tj_stack st1)" using stk o(1) by auto
  have ex0: "\<exists>y \<in> set (tj_stack st1). num st1 y = low st1 p \<and> reaches adj p y" using y0 sub sn lp by force
  show ?thesis
  proof (cases "low st2 w = num st2 w")
    case True
    have "num st2 p < num st2 w" using tarjan_okD(5) [OF ok2] m(1) by (simp add: sorted_wrt_append)
    then have "low st1 p \<le> low st1 w" using True same o(3) lp sn [OF pst] by simp
    then have low: "low ?st p = low st1 p" by simp
    have "node_ok adj p (ds @ [w]) new old ?st"
      unfolding node_ok_def using stk True dsv le(1) ex0 newl dsl low by auto
    then show ?thesis ..
  next
    case False
    have "\<exists>y \<in> set (tj_stack st1). num st1 y = low st1 w \<and> reaches adj p y"
      using m(4) m(1) stk False same pw(1) by (auto intro: rtrancl_trans)
    then have ex: "\<exists>y \<in> set (tj_stack ?st). num ?st y = low ?st p \<and> reaches adj p y"
      using low_lowered [OF ex0] by simp
    have suc: "low ?st p \<le> num ?st y" if a: "a \<in> set (neww @ w # new)" and y: "y \<in> set (succs adj a)" "y \<in> set (p # old)" for a y
    proof (cases "a \<in> set new")
      case True
      then show ?thesis using newl y by blast
    next
      case False
      then have "low st2 w \<le> num st2 y" using a m(5) [of a y] m(6) [of y] y by auto
      then show ?thesis using le(3) same by simp
    qed
    have "node_ok adj p (ds @ [w]) (neww @ w # new) old ?st"
      unfolding node_ok_def
    proof (intro conjI ballI impI)
      show "tj_stack ?st = (neww @ w # new) @ p # old" using stk False by simp
      show "set (ds @ [w]) \<subseteq> set (tj_visited ?st)" using dsv by simp
    qed (use le(1) ex suc dsl in blast)+
    then show ?thesis ..
  qed
qed

subsection \<open>The whole search\<close>

lemma connect_ok:
  "tarjan_ok adj (insert v gray) st \<Longrightarrow> gray \<subseteq> set old \<Longrightarrow> \<forall>g \<in> gray. reaches adj g v \<Longrightarrow> node_ok adj v ds new old st \<Longrightarrow>
   set ws \<subseteq> set (succs adj v) \<Longrightarrow>
   \<exists>new'. tarjan_ok adj (insert v gray) (connect adj v ws st) \<and> node_ok adj v (ds @ ws) new' old (connect adj v ws st) \<and>
      keeps {v} st (connect adj v ws st)"
proof (induction adj v ws st arbitrary: gray ds new old rule: connect.induct)
  case (1 adj v st)
  then show ?case by (auto simp: keeps_def)
next
  case (2 adj v w ws st)
  have vw: "reaches adj v w" using "2.prems"(5) by (intro reach_succ) simp
  have ws: "set ws \<subseteq> set (succs adj v)" using "2.prems"(5) by simp
  show ?case
  proof (cases "w \<in> set (tj_visited st)")
    case vis: True
    show ?thesis
    proof (cases "mget False (tj_onStack st) w")
      case True
      then have "w \<in> set (tj_stack st)" using tarjan_okD(3) [OF "2.prems"(1)] by blast
      from see_stacked [OF "2.prems"(4) this vis vw]
      have n: "node_ok adj v (ds @ [w]) new old (lower v (num st w) st)" .
      have ok: "tarjan_ok adj (insert v gray) (lower v (num st w) st)" using "2.prems"(1) by simp
      have vis': "\<not> w \<notin> set (tj_visited st)" using vis by simp
      obtain new' where new': "tarjan_ok adj (insert v gray) (connect adj v ws (lower v (num st w) st))"
        "node_ok adj v ((ds @ [w]) @ ws) new' old (connect adj v ws (lower v (num st w) st))"
        "keeps {v} (lower v (num st w) st) (connect adj v ws (lower v (num st w) st))"
        using "2.IH"(3) [OF vis' True ok "2.prems"(2,3) n ws] by blast
      have "keeps {v} st (connect adj v ws (lower v (num st w) st))"
        using keeps_trans [OF lower_keeps new'(3)] by blast
      then show ?thesis using new' vis True by auto
    next
      case False
      then have "w \<notin> set (tj_stack st)" using tarjan_okD(3) [OF "2.prems"(1)] by blast
      from see_settled [OF "2.prems"(4) vis this] have n: "node_ok adj v (ds @ [w]) new old st" .
      have vis': "\<not> w \<notin> set (tj_visited st)" using vis by simp
      show ?thesis using "2.IH"(4) [OF vis' False "2.prems"(1-3) n ws] vis False by simp
    qed
  next
    case False
    let ?st2 = "connect adj w (succs adj w) (enter_node w st)"
    let ?st1 = "finish_node adj w ?st2"
    let ?lo = "lower v (low ?st1 w) ?st1"
    have stk: "tj_stack st = new @ v # old" using node_okD(1) [OF "2.prems"(4)] .
    have reach: "\<forall>g \<in> insert v gray. reaches adj g w" using "2.prems"(3) vw by (auto intro: rtrancl_trans)
    note e = enter_ok [OF "2.prems"(1) False reach]
    have old: "insert v gray \<subseteq> set (tj_stack st)" using tarjan_okD(6) [OF "2.prems"(1)] .
    obtain neww where w: "tarjan_ok adj (insert w (insert v gray)) ?st2" "node_ok adj w (succs adj w) neww (tj_stack st) ?st2"
      "keeps {w} (enter_node w st) ?st2"
      using "2.IH"(1) [OF False e(1) old reach e(2) subset_refl] by auto
    have k2: "keeps {} st ?st2" by (rule keeps_trans [OF e(3) w(3)]) (use False in auto)
    have k1: "keeps {} st ?st1" by (rule keeps_trans [OF k2 finish_keeps]) simp
    note f = finish_ok [OF w(1,2) old]
    obtain new1 where n1: "node_ok adj v (ds @ [w]) new1 old ?lo"
      using see_new [OF "2.prems"(4) vw False "2.prems"(1) w(1) w(2) [unfolded stk] k2 f(2) [unfolded stk]] by auto
    have ok1: "tarjan_ok adj (insert v gray) ?lo" using f(1) by simp
    obtain new' where new': "tarjan_ok adj (insert v gray) (connect adj v ws ?lo)"
      "node_ok adj v ((ds @ [w]) @ ws) new' old (connect adj v ws ?lo)" "keeps {v} ?lo (connect adj v ws ?lo)"
      using "2.IH"(2) [OF False refl ok1 "2.prems"(2,3) n1 ws] by blast
    have "keeps {} st ?lo \<or> keeps {v} st ?lo" using keeps_trans [OF k1 lower_keeps [of v ?st1 "low ?st1 w"]] k1
      by (auto simp: keeps_def)
    then have "keeps {v} st ?lo" by (auto simp: keeps_def)
    then have "keeps {v} st (connect adj v ws ?lo)" using keeps_trans [OF _ new'(3)] by blast
    then show ?thesis using new' False by (auto simp: Let_def)
  qed
qed

definition search_ok :: "(string, string list) gomap \<Rightarrow> tarjan \<Rightarrow> bool" where
  "search_ok adj st = (tarjan_ok adj {} st \<and> tj_stack st = [])"

lemma strongConnect_ok:
  assumes s: "search_ok adj st" and v: "v \<notin> set (tj_visited st)"
  shows "search_ok adj (strongConnect adj v st)" "insert v (set (tj_visited st)) \<subseteq> set (tj_visited (strongConnect adj v st))"
proof -
  let ?st2 = "connect adj v (succs adj v) (enter_node v st)"
  have ok: "tarjan_ok adj {} st" and stk: "tj_stack st = []" using s by (simp_all add: search_ok_def)
  have g: "\<forall>g \<in> {}. reaches adj g v" by simp
  note e = enter_ok [OF ok v g]
  obtain new where n: "tarjan_ok adj (insert v {}) ?st2" "node_ok adj v (succs adj v) new [] ?st2" "keeps {v} (enter_node v st) ?st2"
    using connect_ok [OF e(1) _ g e(2) subset_refl] by (auto simp: stk)
  note f = finish_ok [OF n(1,2)]
  have f1: "tarjan_ok adj {} (strongConnect adj v st)" using f(1) by (simp add: strongConnect_def)
  have "tj_stack (strongConnect adj v st) = []"
  proof (cases "tj_stack (strongConnect adj v st)")
    case (Cons y ys)
    then show ?thesis using tarjan_okD(10) [OF f1, of y] by simp
  qed
  then show "search_ok adj (strongConnect adj v st)" using f1 by (simp add: search_ok_def)
  show "insert v (set (tj_visited st)) \<subseteq> set (tj_visited (strongConnect adj v st))"
    using n(3) by (auto simp: strongConnect_def keeps_def)
qed

lemma search_fold_ok:
  "search_ok adj st \<Longrightarrow>
   (let st' = fold (\<lambda>n st. if n \<notin> set (tj_visited st) then strongConnect adj n st else st) ns st
    in search_ok adj st' \<and> set ns \<union> set (tj_visited st) \<subseteq> set (tj_visited st'))"
proof (induction ns arbitrary: st)
  case (Cons n ns)
  show ?case
  proof (cases "n \<in> set (tj_visited st)")
    case True
    then show ?thesis using Cons.IH [OF Cons.prems] by (auto simp: Let_def)
  next
    case False
    note c = strongConnect_ok [OF Cons.prems False]
    from Cons.IH [OF c(1)] c(2) show ?thesis using False by (auto simp: Let_def)
  qed
qed simp

lemma cyclic_key: "cyclic adj x \<Longrightarrow> x \<in> set (keys adj)"
  unfolding cyclic_def using succs_no_key [of x adj]
  by (cases "x \<in> set (keys adj)") (auto dest!: tranclD simp: import_edges_def simp del: set_map)

lemma findCycles_components:
  "set ` set (findCycles adj) = scc_of adj ` {x. cyclic adj x}" "distinct (map set (findCycles adj))"
  "c \<in> set (findCycles adj) \<Longrightarrow> sorted c \<and> distinct c"
proof -
  let ?st = "fold (\<lambda>n st. if n \<notin> set (tj_visited st) then strongConnect adj n st else st) (sort (keys adj)) tarjan_start"
  have "search_ok adj tarjan_start"
    by (simp add: search_ok_def tarjan_ok_def tarjan_start_def settled_def sccs_ok_def mget_def)
  then have s: "search_ok adj ?st" "set (keys adj) \<subseteq> set (tj_visited ?st)"
    using search_fold_ok [of adj tarjan_start "sort (keys adj)"] by (auto simp: Let_def)
  then have "set (keys adj) \<subseteq> settled ?st" by (simp add: settled_def search_ok_def)
  then have "{x \<in> settled ?st. cyclic adj x} = {x. cyclic adj x}" using cyclic_key by blast
  then show "set ` set (findCycles adj) = scc_of adj ` {x. cyclic adj x}" "distinct (map set (findCycles adj))"
    "c \<in> set (findCycles adj) \<Longrightarrow> sorted c \<and> distinct c"
    using s(1) by (simp_all add: findCycles_def search_ok_def tarjan_ok_def sccs_ok_def)
qed

text \<open>Property C28: the cycles reported for an import graph are exactly its strongly connected components
  that contain a cycle, each once, as a sorted list without repetitions; so a package lies on an import
  cycle exactly when some reported cycle names it, two packages share a reported cycle exactly when each
  reaches the other, and nothing is reported exactly when the graph has no cycle.\<close>

theorem cycles_are_components:
  "set ` set (findCycles adj) = scc_of adj ` {x. cyclic adj x} \<and> distinct (map set (findCycles adj)) \<and>
   list_all (\<lambda>c. sorted c \<and> distinct c) (findCycles adj) \<and>
   (cyclic adj x \<longleftrightarrow> x \<in> \<Union> (set ` set (findCycles adj))) \<and> (findCycles adj = [] \<longleftrightarrow> acyclic (import_edges adj))"
proof -
  note f = findCycles_components [where adj = adj]
  have "x \<in> \<Union> (set ` set (findCycles adj)) \<longleftrightarrow> (\<exists>y. cyclic adj y \<and> x \<in> scc_of adj y)" by (auto simp: f(1))
  also have "\<dots> \<longleftrightarrow> cyclic adj x"
  proof
    assume "\<exists>y. cyclic adj y \<and> x \<in> scc_of adj y"
    then obtain y where y: "cyclic adj y" "reaches adj x y" "reaches adj y x" by (auto simp: scc_of_def)
    then show "cyclic adj x" unfolding cyclic_def by (meson rtrancl_trancl_trancl trancl_rtrancl_trancl)
  qed (auto simp: scc_of_def)
  finally have mem: "cyclic adj x \<longleftrightarrow> x \<in> \<Union> (set ` set (findCycles adj))" by blast
  have "findCycles adj = [] \<longleftrightarrow> {x. cyclic adj x} = {}" using f(1) by auto
  then have "findCycles adj = [] \<longleftrightarrow> acyclic (import_edges adj)" by (simp add: acyclic_def cyclic_def)
  then show ?thesis using f mem by (simp add: list_all_iff)
qed

end
