(* ===== verification/Tool_Reports.thy ===== *)
theory Tool_Reports
  imports Import_Cycles Artifact_Graph Go_Strings Complex_Main
begin

text \<open>
  The reports of package \<^verbatim>\<open>tools\<close>: the summary of a \<^verbatim>\<open>go test -json\<close> run (\<^verbatim>\<open>testparse.go\<close>), the import
  graph and its layers (\<^verbatim>\<open>arch.go\<close>), the drift of the three pillars (\<^verbatim>\<open>reconcile.go\<close>), the parsed output
  of git (\<^verbatim>\<open>git.go\<close>), the environment snapshot (\<^verbatim>\<open>env.go\<close>) and format conversion (\<^verbatim>\<open>format.go\<close>). What a
  program that was run printed is an argument, as are the JSON and YAML codecs and \<^verbatim>\<open>strconv.ParseFloat\<close>.
  Scores and seconds are exact rationals.
\<close>

subsection \<open>Test runs\<close>

record test_failure =
  tf_Name :: string
  tf_Package :: string
  tf_Output :: string

record test_result =
  tr_Suite :: string
  tr_Passed :: nat
  tr_Failed :: nat
  tr_Skipped :: nat
  tr_Coverage :: rat
  tr_Duration :: int
  tr_Failures :: "test_failure list"

definition test_total :: "test_result \<Rightarrow> nat" where
  "test_total r = tr_Passed r + tr_Failed r + tr_Skipped r"

record test_event =
  te_Action :: string
  te_Package :: string
  te_Test :: string
  te_Output :: string
  te_Elapsed :: rat

definition parseCoverage :: "(string \<Rightarrow> rat option) \<Rightarrow> string \<Rightarrow> rat" where
  "parseCoverage parse_float text =
     (case str_index text ''coverage: '' of
        None \<Rightarrow> 0
      | Some i \<Rightarrow> (let s = drop (i + length ''coverage: '') text
          in case str_index s ''%'' of
               None \<Rightarrow> 0
             | Some p \<Rightarrow> (case parse_float (take p s) of None \<Rightarrow> 0 | Some v \<Rightarrow> v)))"

text \<open>The loop's variables: the result, the output per test and the longest elapsed time.\<close>

record test_scan =
  ts_result :: test_result
  ts_outputs :: "((string \<times> string), string list) gomap"
  ts_maxElapsed :: rat

definition test_scan_start :: test_scan where
  "test_scan_start = \<lparr>ts_result = \<lparr>tr_Suite = [], tr_Passed = 0, tr_Failed = 0, tr_Skipped = 0, tr_Coverage = 0, tr_Duration = 0,
     tr_Failures = []\<rparr>, ts_outputs = [], ts_maxElapsed = 0\<rparr>"

definition package_event :: "(string \<Rightarrow> rat option) \<Rightarrow> test_event \<Rightarrow> test_scan \<Rightarrow> test_scan" where
  "package_event parse_float evt sc =
     (let r = ts_result sc;
          r1 = (if tr_Suite r = [] then r\<lparr>tr_Suite := te_Package evt\<rparr> else r);
          m = (if te_Elapsed evt > ts_maxElapsed sc then te_Elapsed evt else ts_maxElapsed sc);
          cov = parseCoverage parse_float (te_Output evt);
          r2 = (if te_Action evt = ''output'' \<and> cov > 0 then r1\<lparr>tr_Coverage := cov\<rparr> else r1)
      in sc\<lparr>ts_result := r2, ts_maxElapsed := m\<rparr>)"

definition test_step :: "test_event \<Rightarrow> test_scan \<Rightarrow> test_scan" where
  "test_step evt sc =
     (let key = (te_Package evt, te_Test evt); r = ts_result sc
      in if te_Action evt = ''output''
         then sc\<lparr>ts_outputs := mset_at (ts_outputs sc) key (mget [] (ts_outputs sc) key @ [te_Output evt])\<rparr>
         else if te_Action evt = ''pass'' then sc\<lparr>ts_result := r\<lparr>tr_Passed := tr_Passed r + 1\<rparr>\<rparr>
         else if te_Action evt = ''fail''
         then sc\<lparr>ts_result := r\<lparr>tr_Failed := tr_Failed r + 1,
                tr_Failures := tr_Failures r @ [\<lparr>tf_Name = te_Test evt, tf_Package = te_Package evt,
                  tf_Output = str_join (mget [] (ts_outputs sc) key) []\<rparr>]\<rparr>\<rparr>
         else if te_Action evt = ''skip'' then sc\<lparr>ts_result := r\<lparr>tr_Skipped := tr_Skipped r + 1\<rparr>\<rparr>
         else sc)"

definition package_level :: "test_event \<Rightarrow> bool" where
  "package_level evt = (te_Test evt = [] \<and> te_Package evt \<noteq> [])"

definition scan_event :: "(string \<Rightarrow> rat option) \<Rightarrow> test_event \<Rightarrow> test_scan \<Rightarrow> test_scan" where
  "scan_event parse_float evt sc = (if package_level evt then package_event parse_float evt sc else test_step evt sc)"

definition scan_line :: "(string \<Rightarrow> test_event option) \<Rightarrow> (string \<Rightarrow> rat option) \<Rightarrow> string \<Rightarrow> test_scan \<Rightarrow> test_scan" where
  "scan_line decode parse_float raw sc =
     (let line = trim_space raw
      in if line = [] then sc
         else case decode line of None \<Rightarrow> sc | Some evt \<Rightarrow> scan_event parse_float evt sc)"

text \<open>\<^verbatim>\<open>bufio.Scanner\<close> stops with an error at a line that does not fit its buffer of 64 KiB.\<close>

abbreviation scan_limit :: nat where "scan_limit \<equiv> 65536"

definition ParseGoTestJSON :: "(string \<Rightarrow> test_event option) \<Rightarrow> (string \<Rightarrow> rat option) \<Rightarrow> string \<Rightarrow> test_result option" where
  "ParseGoTestJSON decode parse_float data =
     (let ls = str_split data (CHR 0x0A); short = takeWhile (\<lambda>l. length l < scan_limit) ls;
          sc = fold (scan_line decode parse_float) short test_scan_start
      in if length short < length ls then None
         else Some ((ts_result sc)\<lparr>tr_Duration :=
           (let d = ts_maxElapsed sc * 1000000000 in if d < 0 then - \<lfloor>- d\<rfloor> else \<lfloor>d\<rfloor>)\<rparr>))"

subsection \<open>The import graph\<close>

record go_list_package =
  gl_ImportPath :: string
  gl_Name :: string
  gl_Imports :: "string list"
  gl_GoFiles :: "string list"

record package_info =
  pi_Path :: string
  pi_Name :: string
  pi_Imports :: "string list"
  pi_Files :: nat

record arch_report =
  ar_Packages :: "package_info list"
  ar_Cycles :: "string list list"
  ar_FanIn :: "(string, nat) gomap"
  ar_FanOut :: "(string, nat) gomap"

text \<open>\<^verbatim>\<open>More\<close> looks at the next byte that is not white space; decoding a value takes at least one byte.\<close>

definition dec_more :: "string \<Rightarrow> bool" where
  "dec_more rest = (case dropWhile is_space rest of [] \<Rightarrow> False | c # _ \<Rightarrow> c \<noteq> CHR '']'' \<and> c \<noteq> CHR ''}'')"

function parseGoListJSON :: "(string \<Rightarrow> (go_list_package \<times> string) option) \<Rightarrow> string \<Rightarrow> go_list_package list option" where
  "parseGoListJSON decode rest =
     (if dec_more rest then
        (case decode rest of
           None \<Rightarrow> None
         | Some (p, rest') \<Rightarrow>
             if length rest' < length rest then map_option ((#) p) (parseGoListJSON decode rest') else None)
      else Some [])"
  by pat_completeness auto
termination by (relation "measure (\<lambda>(decode, rest). length rest)") auto

declare parseGoListJSON.simps [simp del]

definition bump :: "string \<Rightarrow> (string, nat) gomap \<Rightarrow> (string, nat) gomap" where
  "bump k m = mset_at m k (mget 0 m k + 1)"

text \<open>One package of the loop: its internal imports, the fan counts and its adjacency.\<close>

definition add_package :: "string list \<Rightarrow> go_list_package \<Rightarrow> arch_report \<times> (string, string list) gomap \<Rightarrow> arch_report \<times> (string, string list) gomap" where
  "add_package internal p acc =
     (case acc of (r, adj) \<Rightarrow>
        let imps = filter (\<lambda>i. i \<in> set internal) (gl_Imports p)
        in (r\<lparr>ar_FanIn := fold bump imps (ar_FanIn r),
              ar_FanOut := mset_at (ar_FanOut r) (gl_ImportPath p) (length imps),
              ar_Packages := ar_Packages r @ [\<lparr>pi_Path = gl_ImportPath p, pi_Name = gl_Name p, pi_Imports = imps,
                pi_Files = length (gl_GoFiles p)\<rparr>]\<rparr>,
            mset_at adj (gl_ImportPath p) imps))"

definition missing_zero :: "string \<Rightarrow> (string, nat) gomap \<Rightarrow> (string, nat) gomap" where
  "missing_zero k m = (case map_of m k of None \<Rightarrow> mset_at m k 0 | Some _ \<Rightarrow> m)"

definition import_adjacency :: "go_list_package list \<Rightarrow> (string, string list) gomap" where
  "import_adjacency pkgs =
     snd (fold (add_package (map gl_ImportPath pkgs)) pkgs (\<lparr>ar_Packages = [], ar_Cycles = [], ar_FanIn = [], ar_FanOut = []\<rparr>, []))"

definition analyze_packages :: "go_list_package list \<Rightarrow> arch_report" where
  "analyze_packages pkgs =
     (let internal = map gl_ImportPath pkgs;
          (r, adj) = fold (add_package internal) pkgs (\<lparr>ar_Packages = [], ar_Cycles = [], ar_FanIn = [], ar_FanOut = []\<rparr>, [])
      in r\<lparr>ar_FanIn := fold missing_zero internal (ar_FanIn r), ar_Cycles := findCycles adj,
           ar_Packages := sort_key pi_Path (ar_Packages r)\<rparr>)"

definition AnalyzeImports :: "string option \<Rightarrow> (string \<Rightarrow> (go_list_package \<times> string) option) \<Rightarrow> arch_report option" where
  "AnalyzeImports out decode =
     (case out of None \<Rightarrow> None | Some printed \<Rightarrow> map_option analyze_packages (parseGoListJSON decode printed))"

definition layer_index :: "string list \<Rightarrow> (string, nat) gomap" where
  "layer_index layers = fold (\<lambda>(i, l) m. mset_at m l i) (enumerate 0 layers) []"

definition packageLayer :: "string list \<Rightarrow> string \<Rightarrow> (string \<times> nat) option" where
  "packageLayer layers path =
     map_option (\<lambda>l. (l, mget 0 (layer_index layers) l)) (List.find (\<lambda>l. str_contains path l) layers)"

definition violation_text :: "string \<Rightarrow> string \<Rightarrow> string \<Rightarrow> string \<Rightarrow> string" where
  "violation_text path src imp dst = path @ '' ('' @ src @ '' layer) imports '' @ imp @ '' ('' @ dst @ '' layer)''"

definition CheckLayerViolations :: "arch_report \<Rightarrow> string list \<Rightarrow> string list" where
  "CheckLayerViolations report layers =
     (if length layers < 2 then []
      else sort (concat (map (\<lambda>pkg.
        case packageLayer layers (pi_Path pkg) of
          None \<Rightarrow> []
        | Some (srcLayer, srcIdx) \<Rightarrow>
            concat (map (\<lambda>imp. case packageLayer layers imp of
                None \<Rightarrow> []
              | Some (dstLayer, dstIdx) \<Rightarrow>
                  if srcIdx < dstIdx then [violation_text (pi_Path pkg) srcLayer imp dstLayer] else []) (pi_Imports pkg)))
        (ar_Packages report))))"

subsection \<open>Drift\<close>

record pillar_score =
  ps_Name :: string
  ps_Score :: rat
  ps_Summary :: string
  ps_Details :: "string list"

record drift_report =
  dr_Functionality :: pillar_score
  dr_Structure :: pillar_score
  dr_Performance :: pillar_score
  dr_TasksToConvergence :: nat

definition clampScore :: "rat \<Rightarrow> rat" where
  "clampScore v = max 0 (min 100 v)"

text \<open>The counts printed are lengths of lists, so they are not the one integer without a negation.\<close>

fun format_digits :: "nat \<Rightarrow> string \<Rightarrow> string" where
  "format_digits n s = (if n > 0 then format_digits (n div 10) (digit_char (n mod 10) # s) else s)"

declare format_digits.simps [simp del]

definition formatInt :: "int \<Rightarrow> string" where
  "formatInt n =
     (if n = 0 then ''0''
      else let s = format_digits (nat \<bar>n\<bar>) [] in if n < 0 then CHR ''-'' # s else s)"

definition formatFraction :: "nat \<Rightarrow> nat \<Rightarrow> string \<Rightarrow> string" where
  "formatFraction part whole unit = formatInt (int part) @ ''/'' @ formatInt (int whole) @ '' '' @ unit"

definition formatCount :: "nat \<Rightarrow> string \<Rightarrow> string" where
  "formatCount n unit = formatInt (int n) @ '' '' @ unit"

definition no_score :: "string \<Rightarrow> string \<Rightarrow> pillar_score" where
  "no_score name summary = \<lparr>ps_Name = name, ps_Score = 100, ps_Summary = summary, ps_Details = []\<rparr>"

definition computeFunctionality :: "'ann graph option \<Rightarrow> pillar_score" where
  "computeFunctionality tasks =
     (case tasks of None \<Rightarrow> no_score ''functionality'' ''no tasks''
      | Some g \<Rightarrow>
          (let all = graph_list_sorted g
           in if length all = 0 then no_score ''functionality'' ''no tasks''
              else let done = length (filter (\<lambda>t. a_Status t = StatusDone) all)
                in \<lparr>ps_Name = ''functionality'', ps_Score = clampScore (of_nat done / of_nat (length all) * 100),
                    ps_Summary = formatFraction done (length all) ''specs'',
                    ps_Details = map (\<lambda>t. a_ID t @ '': '' @ a_Status t) (filter (\<lambda>t. a_Status t \<noteq> StatusDone) all)\<rparr>))"

definition cycle_detail :: "string list \<Rightarrow> string" where
  "cycle_detail cyc = foldl (\<lambda>d (i, pkg). (if i > 0 then d @ '' -> '' else d) @ pkg) [] (enumerate 0 cyc)"

definition computeStructure :: "arch_report option \<Rightarrow> pillar_score" where
  "computeStructure arch =
     (case arch of None \<Rightarrow> no_score ''structure'' ''no analysis''
      | Some a \<Rightarrow>
          \<lparr>ps_Name = ''structure'', ps_Score = clampScore (100 - of_nat (length (ar_Cycles a) * 10)),
           ps_Summary = formatCount (length (ar_Cycles a)) ''cycles'', ps_Details = map cycle_detail (ar_Cycles a)\<rparr>)"

definition ComputeStructureWithViolations :: "arch_report option \<Rightarrow> string list \<Rightarrow> pillar_score" where
  "ComputeStructureWithViolations arch violations =
     (case arch of None \<Rightarrow> no_score ''structure'' ''no analysis''
      | Some a \<Rightarrow>
          \<lparr>ps_Name = ''structure'', ps_Score = clampScore (100 - of_nat (length (ar_Cycles a) * 10 + length violations * 5)),
           ps_Summary = formatCount (length (ar_Cycles a)) ''cycles'' @ '', '' @ formatCount (length violations) ''violations'',
           ps_Details = map cycle_detail (ar_Cycles a) @ violations\<rparr>)"

definition computePerformance :: "test_result option \<Rightarrow> pillar_score" where
  "computePerformance test =
     (case test of None \<Rightarrow> no_score ''performance'' ''no tests''
      | Some r \<Rightarrow>
          (if tr_Passed r + tr_Failed r = 0 then no_score ''performance'' ''no tests''
           else \<lparr>ps_Name = ''performance'',
                 ps_Score = clampScore (of_nat (tr_Passed r) / of_nat (tr_Passed r + tr_Failed r) * 100),
                 ps_Summary = formatCount (tr_Failed r) ''failing'',
                 ps_Details = map (\<lambda>f. tf_Package f @ ''/'' @ tf_Name f) (tr_Failures r)\<rparr>))"

definition countNonDone :: "'ann graph option \<Rightarrow> nat" where
  "countNonDone tasks =
     (case tasks of None \<Rightarrow> 0 | Some g \<Rightarrow> length (filter (\<lambda>t. a_Status t \<noteq> StatusDone) (graph_list_sorted g)))"

definition ComputeDrift :: "'ann graph option \<Rightarrow> arch_report option \<Rightarrow> test_result option \<Rightarrow> drift_report" where
  "ComputeDrift tasks arch test =
     \<lparr>dr_Functionality = computeFunctionality tasks, dr_Structure = computeStructure arch,
      dr_Performance = computePerformance test, dr_TasksToConvergence = countNonDone tasks\<rparr>"

subsection \<open>Git\<close>

record file_change =
  fc_Path :: string
  fc_Status :: string

record git_status =
  gs_Branch :: string
  gs_Clean :: bool
  gs_Staged :: "file_change list"
  gs_Unstaged :: "file_change list"
  gs_Untracked :: "string list"

definition statusLetter :: "char \<Rightarrow> string" where
  "statusLetter c =
     (if c = CHR ''M'' then ''modified'' else if c = CHR ''A'' then ''added'' else if c = CHR ''D'' then ''deleted''
      else if c = CHR ''R'' then ''renamed'' else if c = CHR ''C'' then ''copied'' else if c = CHR ''U'' then ''unmerged''
      else [c])"

text \<open>Slicing a line of two bytes from its third one panics; the result \<open>None\<close> is the panic.\<close>

definition status_line :: "string \<Rightarrow> git_status option \<Rightarrow> git_status option" where
  "status_line l st =
     (case st of None \<Rightarrow> None
      | Some s \<Rightarrow>
          (if length l < 2 \<or> has_prefix l ''##'' then Some s
           else if length l < 3 then None
           else let x = l ! 0; y = l ! 1; path = trim_space (drop 3 l);
                  s1 = s\<lparr>gs_Clean := False\<rparr>;
                  s2 = (if x \<noteq> CHR '' '' \<and> x \<noteq> CHR ''?''
                        then s1\<lparr>gs_Staged := gs_Staged s1 @ [\<lparr>fc_Path = path, fc_Status = statusLetter x\<rparr>]\<rparr> else s1);
                  s3 = (if y \<noteq> CHR '' '' \<and> y \<noteq> CHR ''?''
                        then s2\<lparr>gs_Unstaged := gs_Unstaged s2 @ [\<lparr>fc_Path = path, fc_Status = statusLetter y\<rparr>]\<rparr> else s2)
                in Some (if x = CHR ''?'' \<and> y = CHR ''?'' then s3\<lparr>gs_Untracked := gs_Untracked s3 @ [path]\<rparr> else s3)))"

datatype git_error = GitFailed | GitPanic

definition currentBranch :: "string option \<Rightarrow> string" where
  "currentBranch out = (case out of None \<Rightarrow> [] | Some s \<Rightarrow> trim_space s)"

definition git_status_of :: "string option \<Rightarrow> string option \<Rightarrow> git_error + git_status" where
  "git_status_of branch_out out =
     (case out of None \<Rightarrow> Inl GitFailed
      | Some s \<Rightarrow>
          (case fold status_line (str_split s (CHR 0x0A))
                  (Some \<lparr>gs_Branch = currentBranch branch_out, gs_Clean = True, gs_Staged = [], gs_Unstaged = [], gs_Untracked = []\<rparr>) of
             None \<Rightarrow> Inl GitPanic | Some st \<Rightarrow> Inr st))"

record commit =
  co_Hash :: string
  co_Author :: string
  co_Date :: int
  co_Subject :: string

text \<open>\<^verbatim>\<open>strings.SplitN\<close> at a byte, into at most \<open>n\<close> parts.\<close>

fun split_n :: "nat \<Rightarrow> char \<Rightarrow> string \<Rightarrow> string list" where
  "split_n 0 sep s = []"
| "split_n (Suc 0) sep s = [s]"
| "split_n (Suc (Suc n)) sep s =
     (case dropWhile (\<lambda>c. c \<noteq> sep) s of
        [] \<Rightarrow> [s]
      | _ # rest \<Rightarrow> takeWhile (\<lambda>c. c \<noteq> sep) s # split_n (Suc n) sep rest)"

text \<open>\<^verbatim>\<open>strconv.ParseInt\<close> to base 10 with its error ignored: no number is 0, one out of range its bound.\<close>

definition parse_int :: "string \<Rightarrow> int" where
  "parse_int s =
     (let neg = (s \<noteq> [] \<and> hd s = CHR ''-''); ds = (if s \<noteq> [] \<and> (hd s = CHR ''-'' \<or> hd s = CHR ''+'') then tl s else s)
      in if ds = [] \<or> \<not> list_all (\<lambda>c. (of_char c :: nat) \<in> {48..57}) ds then 0
         else let n = int (dec_val ds)
           in if neg then max (- (2 ^ 63)) (- n) else min (2 ^ 63 - 1) n)"

definition log_line :: "string \<Rightarrow> commit list" where
  "log_line l =
     (if l = [] then []
      else case split_n 4 (CHR 0x09) l of
        [h, a, e, s] \<Rightarrow> [\<lparr>co_Hash = h, co_Author = a, co_Date = parse_int e, co_Subject = s\<rparr>]
      | _ \<Rightarrow> [])"

definition git_log_of :: "string option \<Rightarrow> git_error + commit list" where
  "git_log_of out =
     (case out of None \<Rightarrow> Inl GitFailed
      | Some s \<Rightarrow> Inr (concat (map log_line (str_split (trim_space s) (CHR 0x0A)))))"

subsection \<open>The environment and format conversion\<close>

record env_snapshot =
  es_GitBranch :: string
  es_UncommittedFiles :: nat
  es_GoVersion :: string
  es_Hostname :: string
  es_WorkingDir :: string
  es_MisbahDaemon :: bool

definition gitUncommittedCount :: "string option \<Rightarrow> nat" where
  "gitUncommittedCount out =
     (case out of None \<Rightarrow> 0
      | Some s \<Rightarrow> (let ls = str_split (trim_space s) (CHR 0x0A) in if length ls = 1 \<and> hd ls = [] then 0 else length ls))"

definition misbahReachable :: "string \<Rightarrow> (string \<Rightarrow> bool) \<Rightarrow> bool" where
  "misbahReachable env_socket dial =
     dial (if env_socket = [] then ''/run/misbah/permission.sock'' else env_socket)"

definition Snapshot :: "string option \<Rightarrow> string option \<Rightarrow> string \<Rightarrow> string \<Rightarrow> string \<Rightarrow> string \<Rightarrow> (string \<Rightarrow> bool) \<Rightarrow> env_snapshot" where
  "Snapshot branch_out status_out version host dir env_socket dial =
     \<lparr>es_GitBranch = currentBranch branch_out, es_UncommittedFiles = gitUncommittedCount status_out, es_GoVersion = version,
      es_Hostname = host, es_WorkingDir = dir, es_MisbahDaemon = misbahReachable env_socket dial\<rparr>"

datatype convert_error = ParseFailed string | SerializeFailed string | ErrUnsupportedFormat string

definition Convert :: "(string \<Rightarrow> 'v option) \<Rightarrow> (string \<Rightarrow> 'v option) \<Rightarrow> ('v \<Rightarrow> string option) \<Rightarrow> ('v \<Rightarrow> string option) \<Rightarrow>
    string \<Rightarrow> string \<Rightarrow> string \<Rightarrow> convert_error + string" where
  "Convert json_in yaml_in json_out yaml_out data src dst =
     (if src = dst then Inr data
      else if src \<noteq> ''json'' \<and> src \<noteq> ''yaml'' then Inl (ErrUnsupportedFormat src)
      else case (if src = ''json'' then json_in data else yaml_in data) of
        None \<Rightarrow> Inl (ParseFailed src)
      | Some v \<Rightarrow>
          (if dst \<noteq> ''json'' \<and> dst \<noteq> ''yaml'' then Inl (ErrUnsupportedFormat dst)
           else case (if dst = ''json'' then json_out v else yaml_out v) of
             None \<Rightarrow> Inl (SerializeFailed dst) | Some text' \<Rightarrow> Inr text'))"

end
