(* ===== verification/Report_Properties.thy ===== *)
theory Report_Properties
  imports Tool_Reports
begin

text \<open>Properties of the reports: test runs, the import graph, drift and the git log.\<close>

subsection \<open>Test runs\<close>

text \<open>The events of a run, and what its failures should be: with each failing test the output it printed before.\<close>

definition run_events :: "(string \<Rightarrow> test_event option) \<Rightarrow> string \<Rightarrow> test_event list" where
  "run_events decode data =
     List.map_filter (\<lambda>l. if trim_space l = [] then None else decode (trim_space l)) (str_split data (CHR 0x0A))"

definition printed_by :: "test_event \<Rightarrow> test_event list \<Rightarrow> string" where
  "printed_by e before =
     concat (map te_Output (filter (\<lambda>o'. te_Action o' = ''output'' \<and> te_Package o' = te_Package e \<and> te_Test o' = te_Test e) before))"

fun failures_of :: "test_event list \<Rightarrow> test_event list \<Rightarrow> test_failure list" where
  "failures_of before [] = []"
| "failures_of before (e # es) =
     (if te_Action e = ''fail'' then [\<lparr>tf_Name = te_Test e, tf_Package = te_Package e, tf_Output = printed_by e before\<rparr>] else [])
     @ failures_of (before @ [e]) es"

definition acted :: "string \<Rightarrow> test_event list \<Rightarrow> nat" where
  "acted a es = length (filter (\<lambda>e. te_Action e = a) es)"

lemma acted_simps [simp]:
  "acted a [] = 0" "acted a (e # es) = (if te_Action e = a then Suc (acted a es) else acted a es)"
  by (simp_all add: acted_def)

lemma join_empty: "str_join ss [] = concat ss"
  by (induction ss "[] :: string" rule: str_join.induct) auto

lemma fold_scan_line:
  "fold (scan_line decode pf) ls sc =
   fold (scan_event pf) (List.map_filter (\<lambda>l. if trim_space l = [] then None else decode (trim_space l)) ls) sc"
  by (induction ls arbitrary: sc) (auto simp: scan_line_def Let_def map_filter_simps split: option.split)

definition outputs_ok :: "test_event list \<Rightarrow> test_scan \<Rightarrow> bool" where
  "outputs_ok before sc = (\<forall>e. concat (mget [] (ts_outputs sc) (te_Package e, te_Test e)) = printed_by e before)"

lemma package_event_fields:
  "ts_outputs (package_event pf e sc) = ts_outputs sc"
  "tr_Passed (ts_result (package_event pf e sc)) = tr_Passed (ts_result sc)"
  "tr_Failed (ts_result (package_event pf e sc)) = tr_Failed (ts_result sc)"
  "tr_Skipped (ts_result (package_event pf e sc)) = tr_Skipped (ts_result sc)"
  "tr_Failures (ts_result (package_event pf e sc)) = tr_Failures (ts_result sc)"
  by (simp_all add: package_event_def Let_def)

lemma outputs_step: "outputs_ok before sc \<Longrightarrow> outputs_ok (before @ [e]) (test_step e sc)"
  by (auto simp: outputs_ok_def test_step_def Let_def printed_by_def)

lemma test_step_fields:
  "tr_Passed (ts_result (test_step e sc)) = tr_Passed (ts_result sc) + acted ''pass'' [e]"
  "tr_Failed (ts_result (test_step e sc)) = tr_Failed (ts_result sc) + acted ''fail'' [e]"
  "tr_Skipped (ts_result (test_step e sc)) = tr_Skipped (ts_result sc) + acted ''skip'' [e]"
  by (simp_all add: test_step_def Let_def)

lemma test_step_failures:
  "outputs_ok before sc \<Longrightarrow> tr_Failures (ts_result (test_step e sc)) = tr_Failures (ts_result sc) @ failures_of before [e]"
  by (simp add: test_step_def Let_def join_empty outputs_ok_def)

lemma failures_of_append: "failures_of before (xs @ ys) = failures_of before xs @ failures_of (before @ xs) ys"
  by (induction xs arbitrary: before) auto

lemma scan_events:
  "outputs_ok before sc \<Longrightarrow>
   (let sc' = fold (scan_event pf) es sc; ts = filter (\<lambda>e. \<not> package_level e) es; r = ts_result sc; r' = ts_result sc'
    in tr_Passed r' = tr_Passed r + acted ''pass'' ts \<and> tr_Failed r' = tr_Failed r + acted ''fail'' ts \<and>
       tr_Skipped r' = tr_Skipped r + acted ''skip'' ts \<and> tr_Failures r' = tr_Failures r @ failures_of before ts)"
proof (induction es arbitrary: before sc)
  case (Cons e es)
  show ?case
  proof (cases "package_level e")
    case True
    have "outputs_ok before (scan_event pf e sc)"
      using Cons.prems True by (simp add: outputs_ok_def scan_event_def package_event_fields)
    from Cons.IH [OF this] show ?thesis using True by (simp add: scan_event_def package_event_fields Let_def)
  next
    case False
    have "outputs_ok (before @ [e]) (scan_event pf e sc)"
      using outputs_step [OF Cons.prems] False by (simp add: scan_event_def)
    from Cons.IH [OF this] test_step_failures [OF Cons.prems, of e] show ?thesis
      using False by (simp add: scan_event_def test_step_fields Let_def)
  qed
qed simp

lemma failures_count: "length (failures_of before es) = acted ''fail'' es"
  by (induction es arbitrary: before) auto

lemma takeWhile_all_iff: "length (takeWhile P xs) < length xs \<longleftrightarrow> \<not> list_all P xs"
  by (induction xs) auto

text \<open>A run whose lines all fit the scanner's buffer is summarised exactly: as many tests passed,
  failed and were skipped as there are such events of single tests, and each failed test is listed in order with
  what it printed before it failed. A longer line makes the whole summary an error. The events of packages count for
  none of these, so a package that does not build is no failure.\<close>

lemma test_report_exact:
  "case ParseGoTestJSON decode pf data of
     None \<Rightarrow> list_ex (\<lambda>l. scan_limit \<le> length l) (str_split data (CHR 0x0A))
   | Some r \<Rightarrow>
       (let ts = filter (\<lambda>e. \<not> package_level e) (run_events decode data)
        in tr_Passed r = acted ''pass'' ts \<and> tr_Failed r = acted ''fail'' ts \<and> tr_Skipped r = acted ''skip'' ts \<and>
           tr_Failures r = failures_of [] ts \<and> length (tr_Failures r) = tr_Failed r \<and>
           list_all (\<lambda>l. length l < scan_limit) (str_split data (CHR 0x0A)))"
proof (cases "list_all (\<lambda>l. length l < scan_limit) (str_split data (CHR 0x0A))")
  case True
  then have all: "takeWhile (\<lambda>l. length l < scan_limit) (str_split data (CHR 0x0A)) = str_split data (CHR 0x0A)"
    by (simp add: list_all_iff)
  have "outputs_ok [] test_scan_start" by (simp add: outputs_ok_def test_scan_start_def printed_by_def mget_def)
  from scan_events [OF this, of pf "run_events decode data"] show ?thesis
    using True by (simp add: ParseGoTestJSON_def Let_def all fold_scan_line run_events_def test_scan_start_def failures_count)
next
  case False
  then show ?thesis using takeWhile_all_iff [of "\<lambda>l. length l < scan_limit" "str_split data (CHR 0x0A)"]
    by (auto simp: ParseGoTestJSON_def Let_def list_all_iff list_ex_iff not_less)
qed

subsection \<open>Drift\<close>

lemma clamp_range: "0 \<le> clampScore v" "clampScore v \<le> 100"
  by (simp_all add: clampScore_def)

lemma share_full:
  assumes "k \<le> n" "n > 0"
  shows "clampScore (of_nat k / of_nat n * 100) = 100 \<longleftrightarrow> k = n"
proof
  assume "clampScore (of_nat k / of_nat n * 100) = 100"
  then have "of_nat k / of_nat n * (100 :: rat) \<ge> 100" unfolding clampScore_def by (auto simp: max_def min_def split: if_splits)
  then have "of_nat k \<ge> (of_nat n :: rat)" using assms(2) by (simp add: field_simps)
  then show "k = n" using assms(1) by simp
qed (use assms in \<open>simp add: clampScore_def\<close>)

lemma penalty_full: "clampScore (100 - of_nat k) = 100 \<longleftrightarrow> k = 0"
  by (auto simp: clampScore_def max_def min_def)

lemma functionality_full: "ps_Score (computeFunctionality tasks) = 100 \<longleftrightarrow> countNonDone tasks = 0"
proof (cases tasks)
  case (Some g)
  let ?all = "graph_list_sorted g"
  have sum: "length (filter (\<lambda>t. a_Status t = StatusDone) ?all) + length (filter (\<lambda>t. a_Status t \<noteq> StatusDone) ?all) = length ?all"
    by (rule sum_length_filter_compl)
  show ?thesis
  proof (cases "length ?all = 0")
    case False
    then have "ps_Score (computeFunctionality tasks) = 100 \<longleftrightarrow> length (filter (\<lambda>t. a_Status t = StatusDone) ?all) = length ?all"
      using share_full [of "length (filter (\<lambda>t. a_Status t = StatusDone) ?all)" "length ?all"]
      by (simp add: Some computeFunctionality_def Let_def)
    then show ?thesis using sum by (auto simp: Some countNonDone_def)
  qed (simp add: Some computeFunctionality_def countNonDone_def Let_def no_score_def)
qed (simp add: computeFunctionality_def countNonDone_def no_score_def)

lemma performance_full: "ps_Score (computePerformance (Some r)) = 100 \<longleftrightarrow> tr_Failed r = 0"
proof (cases "tr_Passed r + tr_Failed r = 0")
  case False
  then show ?thesis using share_full [of "tr_Passed r" "tr_Passed r + tr_Failed r"]
    by (auto simp: computePerformance_def simp del: of_nat_add)
qed (simp add: computePerformance_def no_score_def)

lemma adjacency_of_analysis: "ar_Cycles (analyze_packages pkgs) = findCycles (import_adjacency pkgs)"
  by (simp add: analyze_packages_def import_adjacency_def Let_def split: prod.split)

text \<open>Every pillar of a drift report scores between 0 and 100; the first is full exactly when no task
  is open, the second exactly when the import graph analysed has no cycle, the third exactly when no test failed; and
  violations lower the structure score further by five each.\<close>

lemma drift_scores:
  "(let dr = ComputeDrift tasks (Some (analyze_packages pkgs)) (Some r);
        viol = ComputeStructureWithViolations (Some (analyze_packages pkgs)) vs
    in list_all (\<lambda>p. 0 \<le> ps_Score p \<and> ps_Score p \<le> 100) [dr_Functionality dr, dr_Structure dr, dr_Performance dr, viol] \<and>
       (ps_Score (dr_Functionality dr) = 100 \<longleftrightarrow> dr_TasksToConvergence dr = 0) \<and>
       (ps_Score (dr_Structure dr) = 100 \<longleftrightarrow> acyclic (import_edges (import_adjacency pkgs))) \<and>
       (ps_Score viol = 100 \<longleftrightarrow> acyclic (import_edges (import_adjacency pkgs)) \<and> vs = []) \<and>
       (ps_Score (dr_Performance dr) = 100 \<longleftrightarrow> tr_Failed r = 0))"
proof -
  have bounds: "0 \<le> ps_Score (computeFunctionality tasks)" "ps_Score (computeFunctionality tasks) \<le> 100"
    "0 \<le> ps_Score (computePerformance (Some r))" "ps_Score (computePerformance (Some r)) \<le> 100"
    by (simp_all add: computeFunctionality_def computePerformance_def no_score_def clamp_range Let_def split: option.split)
  let ?adj = "import_adjacency pkgs"
  have none: "findCycles (import_adjacency pkgs) = [] \<longleftrightarrow> acyclic (import_edges (import_adjacency pkgs))"
    using findCycles_components(1) [where adj = ?adj] by (auto simp: acyclic_def cyclic_def)
  show ?thesis
    using bounds functionality_full [of tasks] performance_full [of r]
      penalty_full [of "length (findCycles (import_adjacency pkgs)) * 10"]
      penalty_full [of "length (findCycles (import_adjacency pkgs)) * 10 + length vs * 5"]
    by (simp add: ComputeDrift_def Let_def computeStructure_def ComputeStructureWithViolations_def clamp_range
        adjacency_of_analysis none)
qed

subsection \<open>The import graph\<close>

lemma fold_bump: "mget 0 (fold bump ks m) k = mget 0 m k + count_list ks k"
  by (induction ks arbitrary: m) (auto simp: bump_def)

abbreviation inner :: "string list \<Rightarrow> go_list_package \<Rightarrow> string list" where
  "inner internal p \<equiv> filter (\<lambda>i. i \<in> set internal) (gl_Imports p)"

abbreviation package_entry :: "string list \<Rightarrow> go_list_package \<Rightarrow> package_info" where
  "package_entry internal p \<equiv> \<lparr>pi_Path = gl_ImportPath p, pi_Name = gl_Name p, pi_Imports = inner internal p,
     pi_Files = length (gl_GoFiles p)\<rparr>"

lemma add_packages:
  "fold (add_package internal) ps (r, adj) =
     (r\<lparr>ar_FanIn := fold bump (concat (map (inner internal) ps)) (ar_FanIn r),
        ar_FanOut := fold (\<lambda>p m. mset_at m (gl_ImportPath p) (length (inner internal p))) ps (ar_FanOut r),
        ar_Packages := ar_Packages r @ map (package_entry internal) ps\<rparr>,
      fold (\<lambda>p m. mset_at m (gl_ImportPath p) (inner internal p)) ps adj)"
  by (induction ps arbitrary: r adj) (simp_all add: add_package_def Let_def)

lemma fold_missing_zero: "mget 0 (fold missing_zero ks m) k = (mget 0 m k :: nat)"
  by (induction ks arbitrary: m) (auto simp: missing_zero_def mget_def split: option.split)

lemma fold_missing_keys: "set (keys (fold missing_zero ks m)) = set ks \<union> set (keys m)"
proof (induction ks arbitrary: m)
  case (Cons k ks)
  show ?case
  proof (cases "map_of m k")
    case (Some v)
    then show ?thesis using Cons map_of_Some_key [of m k v] by (auto simp: missing_zero_def)
  qed (use Cons in \<open>auto simp: missing_zero_def\<close>)
qed simp

lemma fold_set_lookup:
  "distinct (map f ps) \<Longrightarrow> p \<in> set ps \<Longrightarrow> map_of (fold (\<lambda>p m. mset_at m (f p) (h p)) ps m) (f p) = Some (h p)"
proof -
  have other: "k \<notin> f ` set ps \<Longrightarrow> map_of (fold (\<lambda>p m. mset_at m (f p) (h p)) ps m) k = map_of m k" for k ps m
    by (induction ps arbitrary: m) auto
  show "distinct (map f ps) \<Longrightarrow> p \<in> set ps \<Longrightarrow> ?thesis"
    by (induction ps arbitrary: m) (auto simp: other)
qed

text \<open>The report on a module has one entry per package, sorted by path, with the imports inside the
  module only; a package's fan-in is the number of imports of it in all entries, and it is listed for every package;
  its fan-out is the number of its own internal imports.\<close>

lemma import_report_exact:
  assumes "distinct (map gl_ImportPath pkgs)" "p \<in> set pkgs"
  shows "(let r = analyze_packages pkgs; internal = map gl_ImportPath pkgs in
      mset (ar_Packages r) = mset (map (package_entry internal) pkgs) \<and> sorted (map pi_Path (ar_Packages r)) \<and>
      mget 0 (ar_FanIn r) q = count_list (concat (map pi_Imports (map (package_entry internal) pkgs))) q \<and>
      set internal \<subseteq> set (keys (ar_FanIn r)) \<and>
      map_of (ar_FanOut r) (gl_ImportPath p) = Some (length (inner internal p)) \<and>
      map_of (import_adjacency pkgs) (gl_ImportPath p) = Some (inner internal p))"
  using fold_set_lookup [OF assms, of "\<lambda>p. length (inner (map gl_ImportPath pkgs) p)" "[]"]
    fold_set_lookup [OF assms, of "inner (map gl_ImportPath pkgs)" "[]"]
  by (simp add: analyze_packages_def import_adjacency_def Let_def add_packages fold_missing_zero fold_missing_keys fold_bump comp_def mget_def [of _ "[]"]
      del: set_map)

lemma import_report_exact_witness:
  "(let a = \<lparr>gl_ImportPath = ''m/a'', gl_Name = ''a'', gl_Imports = [''m/b'', ''fmt''], gl_GoFiles = [''a.go'']\<rparr>;
        b = \<lparr>gl_ImportPath = ''m/b'', gl_Name = ''b'', gl_Imports = [''m/a''], gl_GoFiles = []\<rparr>
    in map_of (ar_FanOut (analyze_packages [b, a])) ''m/a'' = Some 1 \<and> mget 0 (ar_FanIn (analyze_packages [b, a])) ''m/a'' = 1)"
proof -
  define a where "a = \<lparr>gl_ImportPath = ''m/a'', gl_Name = ''a'', gl_Imports = [''m/b'', ''fmt''], gl_GoFiles = [''a.go'']\<rparr>"
  define b where "b = \<lparr>gl_ImportPath = ''m/b'', gl_Name = ''b'', gl_Imports = [''m/a''], gl_GoFiles = [] :: string list\<rparr>"
  have d: "distinct (map gl_ImportPath [b, a])" and m: "a \<in> set [b, a]" by (simp_all add: a_def b_def)
  from import_report_exact [OF d m, of "''m/a''"] show ?thesis
    by (simp add: Let_def a_def b_def)
qed

subsection \<open>The git log\<close>

definition log_text :: "commit list \<Rightarrow> string" where
  "log_text cs = concat (map (\<lambda>c. co_Hash c @ [CHR 0x09] @ co_Author c @ [CHR 0x09] @ int_dec (co_Date c) @ [CHR 0x09] @ co_Subject c @ [CHR 0x0A]) cs)"

definition log_ok :: "commit list \<Rightarrow> bool" where
  "log_ok cs = (list_all (\<lambda>c. co_Hash c \<noteq> [] \<and> list_all (\<lambda>x. x \<noteq> CHR 0x09 \<and> \<not> is_space x) (co_Hash c) \<and>
       CHR 0x09 \<notin> set (co_Author c) \<and> CHR 0x0A \<notin> set (co_Author c @ co_Subject c) \<and>
       - (2 ^ 63) \<le> co_Date c \<and> co_Date c < 2 ^ 63) cs \<and>
     (cs \<noteq> [] \<longrightarrow> co_Subject (last cs) \<noteq> [] \<and> \<not> is_space (last (co_Subject (last cs)))))"

lemma parse_int_dec: "- (2 ^ 63) \<le> i \<Longrightarrow> i < 2 ^ 63 \<Longrightarrow> parse_int (int_dec i) = i"
proof -
  have dig: "list_all (\<lambda>c. 48 \<le> (of_char c :: nat) \<and> (of_char c :: nat) \<le> 57) (nat_dec n)" for n
    using nat_dec_digits by (auto simp: list_all_iff)
  have hd: "hd (nat_dec n) \<noteq> CHR ''-''" "hd (nat_dec n) \<noteq> CHR ''+''" for n
    using nat_dec_digits [of "hd (nat_dec n)" n] by auto
  assume "- (2 ^ 63) \<le> i" "i < 2 ^ 63"
  then show ?thesis by (cases "i < 0") (simp_all add: parse_int_def int_dec_def Let_def dig hd)
qed

lemma int_dec_no_space: "c \<in> set (int_dec i) \<Longrightarrow> \<not> is_space c"
  using nat_dec_digits [of c] by (fastforce simp: int_dec_def is_space_def split: if_splits)

lemma split_n_at: "sep \<notin> set w \<Longrightarrow> split_n (Suc (Suc n)) sep (w @ sep # rest) = w # split_n (Suc n) sep rest"
proof -
  assume w: "sep \<notin> set w"
  then have d: "dropWhile (\<lambda>c. c \<noteq> sep) (w @ sep # rest) = sep # rest" by (subst dropWhile_append2) auto
  have t: "takeWhile (\<lambda>c. c \<noteq> sep) (w @ sep # rest) = w" using w by (subst takeWhile_append2) auto
  show ?thesis by (simp add: d t)
qed

definition log_text_line :: "commit \<Rightarrow> string" where
  "log_text_line c = co_Hash c @ CHR 0x09 # co_Author c @ CHR 0x09 # int_dec (co_Date c) @ CHR 0x09 # co_Subject c"

lemma log_line_text:
  assumes "co_Hash c \<noteq> []" "CHR 0x09 \<notin> set (co_Hash c)" "CHR 0x09 \<notin> set (co_Author c)" "- (2 ^ 63) \<le> co_Date c" "co_Date c < 2 ^ 63"
  shows "log_line (log_text_line c) = [c]"
proof -
  have d: "CHR 0x09 \<notin> set (int_dec (co_Date c))" using int_dec_no_space [of "CHR 0x09"] by (auto simp: is_space_def)
  have four: "(4 :: nat) = Suc (Suc (Suc (Suc 0)))" by simp
  have "split_n 4 (CHR 0x09) (log_text_line c) = [co_Hash c, co_Author c, int_dec (co_Date c), co_Subject c]"
    unfolding four log_text_line_def split_n_at [OF assms(2)] split_n_at [OF assms(3)] split_n_at [OF d] by simp
  then show ?thesis using assms by (simp add: log_line_def parse_int_dec log_text_line_def)
qed

lemma trim_space_nl:
  assumes "s \<noteq> []" "\<not> is_space (hd s)" "\<not> is_space (last s)"
  shows "trim_space (s @ [CHR 0x0A]) = s"
proof -
  have nl: "is_space (CHR 0x0A)" by (simp add: is_space_def)
  have "dropWhile is_space (s @ [CHR 0x0A]) = s @ [CHR 0x0A]" using assms by (cases s) auto
  moreover have "dropWhile is_space (rev s) = rev s"
    using assms(1,3) by (cases s rule: rev_cases) auto
  ultimately show ?thesis using nl by (simp add: trim_space_def trim_by_def)
qed

lemma log_text_join: "cs \<noteq> [] \<Longrightarrow> log_text cs = str_join (map log_text_line cs) [CHR 0x0A] @ [CHR 0x0A]"
proof (induction cs)
  case (Cons c cs)
  then show ?case by (cases cs) (simp_all add: log_text_def log_text_line_def)
qed simp

lemma join_ends:
  "cs \<noteq> [] \<Longrightarrow> \<forall>c \<in> set cs. co_Hash c \<noteq> [] \<Longrightarrow> co_Subject (last cs) \<noteq> [] \<Longrightarrow>
   (let s = str_join (map log_text_line cs) [CHR 0x0A] in s \<noteq> [] \<and> hd s = hd (co_Hash (hd cs)) \<and> last s = last (co_Subject (last cs)))"
proof (induction cs)
  case (Cons c cs)
  then show ?case by (cases cs) (auto simp: log_text_line_def Let_def)
qed simp

text \<open>The log that git prints for commits with one-line fields is read back as these commits, provided
  the subject of the last one is not empty: an empty last subject is trimmed away with its separator, and that commit
  is dropped.\<close>

lemma git_log_roundtrip:
  "(log_ok cs \<longrightarrow> git_log_of (Some (log_text cs)) = Inr cs) \<and>
   git_log_of (Some (log_text [\<lparr>co_Hash = ''a1'', co_Author = ''x'', co_Date = 5, co_Subject = ''s''\<rparr>,
     \<lparr>co_Hash = ''b2'', co_Author = ''x'', co_Date = 4, co_Subject = []\<rparr>])) =
   Inr [\<lparr>co_Hash = ''a1'', co_Author = ''x'', co_Date = 5, co_Subject = ''s''\<rparr>]"
proof (intro conjI impI)
  assume ok: "log_ok cs"
  show "git_log_of (Some (log_text cs)) = Inr cs"
  proof (cases "cs = []")
    case True
    then show ?thesis by (simp add: log_text_def git_log_of_def trim_space_def trim_by_def str_split_def log_line_def)
  next
    case False
    have c: "co_Hash c \<noteq> [] \<and> (\<forall>x \<in> set (co_Hash c). x \<noteq> CHR 0x09 \<and> \<not> is_space x) \<and> CHR 0x09 \<notin> set (co_Author c) \<and>
      CHR 0x0A \<notin> set (co_Author c @ co_Subject c) \<and> - (2 ^ 63) \<le> co_Date c \<and> co_Date c < 2 ^ 63" if "c \<in> set cs" for c
      using ok that by (auto simp: log_ok_def list_all_iff)
    have line: "log_line (log_text_line x) = [x]" if "x \<in> set cs" for x
      using c [OF that] by (intro log_line_text) auto
    have nl: "is_space (CHR 0x0A)" by (simp add: is_space_def)
    have one: "CHR 0x0A \<notin> set (log_text_line x)" if "x \<in> set cs" for x
      using c [OF that] nl int_dec_no_space [of "CHR 0x0A" "co_Date x"] by (auto simp: log_text_line_def)
    let ?s = "str_join (map log_text_line cs) [CHR 0x0A]"
    have hd: "hd cs \<in> set cs" using False by simp
    have "?s \<noteq> []" "hd ?s = hd (co_Hash (hd cs))" "last ?s = last (co_Subject (last cs))"
      using join_ends [OF False] c ok False by (auto simp: Let_def log_ok_def)
    moreover have "\<not> is_space (hd (co_Hash (hd cs)))" using c [OF hd] by simp
    moreover have "\<not> is_space (last (co_Subject (last cs)))" using ok False by (simp add: log_ok_def)
    ultimately have t: "trim_space (log_text cs) = ?s" unfolding log_text_join [OF False] by (intro trim_space_nl) simp_all
    have sp: "str_split ?s (CHR 0x0A) = map log_text_line cs"
      by (rule split_join_at) (use False one in auto)
    have "concat (map log_line (map log_text_line cs)) = cs"
      using line by (induction cs) (simp_all add: \<open>cs \<noteq> []\<close>)
    then show ?thesis by (simp only: git_log_of_def option.case t sp)
  qed
qed code_simp

lemma git_log_roundtrip_witness:
  "git_log_of (Some (log_text [\<lparr>co_Hash = ''c3'', co_Author = ''a b'', co_Date = - 7, co_Subject = ''one two''\<rparr>])) =
   Inr [\<lparr>co_Hash = ''c3'', co_Author = ''a b'', co_Date = - 7, co_Subject = ''one two''\<rparr>]"
proof -
  have "log_ok [\<lparr>co_Hash = ''c3'', co_Author = ''a b'', co_Date = - 7, co_Subject = ''one two''\<rparr>]" by code_simp
  then show ?thesis using git_log_roundtrip by blast
qed

end
