(* ===== verification/Agent_Loop.thy ===== *)
theory Agent_Loop
  imports Cortex_History
begin

text \<open>
  The agentic loop (\<^verbatim>\<open>agent/loop.go\<close>), its modes (\<^verbatim>\<open>agent/mode.go\<close>) and the woven planning context
  (\<^verbatim>\<open>agent/weave.go\<close>). The driver, the tools, the envelope, the policy enforcer with its token and the
  operator who approves are arguments that answer and change a state \<open>'w\<close> of their own; the clock reads it.
  Tracing and logging are left out.
\<close>

subsection \<open>Modes\<close>

datatype agent_mode = ModeAsk | ModePlan | ModeAgent | ModeAuto

definition modeNames :: "(string \<times> agent_mode) list" where
  "modeNames = [(''ask'', ModeAsk), (''plan'', ModePlan), (''agent'', ModeAgent), (''auto'', ModeAuto)]"

fun mode_string :: "agent_mode \<Rightarrow> string" where
  "mode_string ModeAsk = ''ask''"
| "mode_string ModePlan = ''plan''"
| "mode_string ModeAgent = ''agent''"
| "mode_string ModeAuto = ''auto''"

text \<open>An unknown name is an error.\<close>

definition ParseMode :: "string \<Rightarrow> agent_mode option" where
  "ParseMode s = map_option snd (List.find (\<lambda>(n, m). n = s) modeNames)"

definition mode_tools_enabled :: "agent_mode \<Rightarrow> bool" where
  "mode_tools_enabled m = (m = ModeAgent \<or> m = ModeAuto)"

definition AutoApprove :: "tool_call \<Rightarrow> bool" where "AutoApprove call = True"
definition DenyAll :: "tool_call \<Rightarrow> bool" where "DenyAll call = False"
definition ApproveByName :: "string list \<Rightarrow> tool_call \<Rightarrow> bool" where "ApproveByName allowed call = (tl_Name call \<in> set allowed)"

definition DefaultApprove :: "agent_mode \<Rightarrow> (tool_call \<Rightarrow> bool) option" where
  "DefaultApprove m = (if m = ModeAuto then Some AutoApprove else if m = ModeAgent then Some DenyAll else None)"

fun mode_next :: "agent_mode \<Rightarrow> agent_mode" where
  "mode_next ModeAsk = ModePlan"
| "mode_next ModePlan = ModeAgent"
| "mode_next ModeAgent = ModeAuto"
| "mode_next ModeAuto = ModeAsk"

subsection \<open>The stream of a response\<close>

record chat_usage =
  us_InputTokens :: int
  us_OutputTokens :: int

record stream_event =
  sv_Type :: string
  sv_Text :: string
  sv_Thinking :: string
  sv_ToolCall :: "tool_call option"
  sv_Usage :: "chat_usage option"
  sv_Error :: string

datatype agent_error = SendFailed string | ChatFailed string | ErrMaxTurnsExceeded string | SendResultsFailed string

datatype handler_event =
  OnText string
| OnThinking string
| OnToolCall tool_call
| OnToolResult string string string bool
| OnDone "chat_usage option"
| OnError agent_error

record collected =
  cl_text :: string
  cl_thinking :: string
  cl_toolCalls :: "tool_call list"
  cl_usage :: "chat_usage option"

text \<open>The loop over the events: it stops at an error. The second result is what the handler saw.\<close>

fun collect_events :: "stream_event list \<Rightarrow> collected \<Rightarrow> (agent_error + collected) \<times> handler_event list" where
  "collect_events [] c = (Inr c, [])"
| "collect_events (e # es) c =
     (if sv_Type e = ''text'' then
        (case collect_events es (c\<lparr>cl_text := cl_text c @ sv_Text e\<rparr>) of (r, hs) \<Rightarrow> (r, OnText (sv_Text e) # hs))
      else if sv_Type e = ''thinking'' then
        (case collect_events es (c\<lparr>cl_thinking := cl_thinking c @ sv_Thinking e\<rparr>) of (r, hs) \<Rightarrow> (r, OnThinking (sv_Thinking e) # hs))
      else if sv_Type e = ''tool_use'' then
        (case sv_ToolCall e of
           None \<Rightarrow> collect_events es c
         | Some call \<Rightarrow>
             (case collect_events es (c\<lparr>cl_toolCalls := cl_toolCalls c @ [call]\<rparr>) of (r, hs) \<Rightarrow> (r, OnToolCall call # hs)))
      else if sv_Type e = ''done'' then
        (case collect_events es (c\<lparr>cl_usage := sv_Usage e\<rparr>) of (r, hs) \<Rightarrow> (r, OnDone (sv_Usage e) # hs))
      else if sv_Type e = ''error'' then
        (Inl (ErrMaxTurnsExceeded (sv_Error e)), [OnError (ErrMaxTurnsExceeded (sv_Error e))])
      else collect_events es c)"

definition response_blocks :: "collected \<Rightarrow> content_block list" where
  "response_blocks c =
     (if cl_thinking c \<noteq> [] then [NewThinkingBlock (cl_thinking c)] else []) @
     (if cl_text c \<noteq> [] then [NewTextBlock (cl_text c)] else []) @
     map (\<lambda>call. NewToolUseBlock (tl_ID call) (tl_Name call) (tl_Input call)) (cl_toolCalls c)"

definition collectResponse :: "stream_event list \<Rightarrow> (agent_error + collected) \<times> handler_event list" where
  "collectResponse events = collect_events events \<lparr>cl_text = [], cl_thinking = [], cl_toolCalls = [], cl_usage = None\<rparr>"

subsection \<open>The configuration and its partners\<close>

text \<open>An answer is an error with its text, or a result.\<close>

record 'w agent_env =
  ev_Send :: "string \<Rightarrow> 'w \<Rightarrow> string option \<times> 'w"
  ev_Chat :: "'w \<Rightarrow> (string + stream_event list) \<times> 'w"
  ev_AppendAssistant :: "content_block list \<Rightarrow> 'w \<Rightarrow> 'w"
  ev_SendRich :: "content_block list \<Rightarrow> 'w \<Rightarrow> string option \<times> 'w"
  ev_Execute :: "string \<Rightarrow> bytes option \<Rightarrow> 'w \<Rightarrow> (string + string) \<times> 'w"
  ev_Envelope :: "(string \<Rightarrow> bytes option \<Rightarrow> 'w \<Rightarrow> (string + string) \<times> 'w) option"
  ev_Enforce :: "(string \<Rightarrow> bytes option \<Rightarrow> 'w \<Rightarrow> string option \<times> 'w) option"
  ev_Approve :: "(tool_call \<Rightarrow> 'w \<Rightarrow> bool \<times> 'w) option"
  ev_Now :: "'w \<Rightarrow> gotime"

record agent_config =
  cf_MaxTurns :: int
  cf_ToolsEnabled :: bool
  cf_Mode :: agent_mode
  cf_ContextLimit :: int
  cf_Handler :: bool

record 'w loop_state =
  lo_session :: session
  lo_world :: 'w
  lo_events :: "handler_event list"

definition tell :: "agent_config \<Rightarrow> handler_event list \<Rightarrow> 'w loop_state \<Rightarrow> 'w loop_state" where
  "tell cfg hs st = (if cf_Handler cfg then st\<lparr>lo_events := lo_events st @ hs\<rparr> else st)"

definition append_entry :: "'w agent_env \<Rightarrow> string \<Rightarrow> string \<Rightarrow> content_block list \<Rightarrow> 'w loop_state \<Rightarrow> 'w loop_state" where
  "append_entry env role content blocks st =
     st\<lparr>lo_session := session_append (ev_Now env (lo_world st))
          \<lparr>en_Role = role, en_Content = content, en_Blocks = blocks, en_Timestamp = zero_time, en_TokenCount = 0\<rparr> (lo_session st)\<rparr>"

subsection \<open>Executing tool calls\<close>

definition truncate_output :: "string \<Rightarrow> string" where
  "truncate_output out = (if int (length out) > 50000 then take 50000 out @ [CHR 0x0A] @ ''... (truncated)'' else out)"

definition truncateForDisplay :: "string \<Rightarrow> string" where
  "truncateForDisplay s = (if length s \<le> 200 then s else take 200 s @ ''...'')"

text \<open>What is done with the answer of a tool or of the envelope.\<close>

definition tool_answer :: "agent_config \<Rightarrow> tool_call \<Rightarrow> string + string \<Rightarrow> 'w loop_state \<Rightarrow> content_block list \<Rightarrow> 'w loop_state \<times> content_block list" where
  "tool_answer cfg call res st blocks =
     (let isError = (case res of Inl _ \<Rightarrow> True | Inr _ \<Rightarrow> False);
          out = truncate_output (case res of Inl err \<Rightarrow> err | Inr s \<Rightarrow> s)
      in (tell cfg [OnToolResult (tl_ID call) (tl_Name call) (truncateForDisplay out) isError] st,
          blocks @ [NewToolResultBlock (tl_ID call) out isError]))"

definition refuse :: "agent_config \<Rightarrow> tool_call \<Rightarrow> string \<Rightarrow> string \<Rightarrow> 'w loop_state \<Rightarrow> content_block list \<Rightarrow> 'w loop_state \<times> content_block list" where
  "refuse cfg call shown out st blocks =
     (tell cfg [OnToolResult (tl_ID call) (tl_Name call) shown True] st, blocks @ [NewToolResultBlock (tl_ID call) out True])"

definition enforce_call :: "'w agent_env \<Rightarrow> tool_call \<Rightarrow> 'w loop_state \<Rightarrow> string option \<times> 'w loop_state" where
  "enforce_call env call st =
     (case ev_Enforce env of None \<Rightarrow> (None, st)
      | Some check \<Rightarrow> (case check (tl_Name call) (tl_Input call) (lo_world st) of (e, w) \<Rightarrow> (e, st\<lparr>lo_world := w\<rparr>)))"

definition approve_call :: "'w agent_env \<Rightarrow> tool_call \<Rightarrow> 'w loop_state \<Rightarrow> bool \<times> 'w loop_state" where
  "approve_call env call st =
     (case ev_Approve env of None \<Rightarrow> (True, st)
      | Some approve \<Rightarrow> (case approve call (lo_world st) of (b, w) \<Rightarrow> (b, st\<lparr>lo_world := w\<rparr>)))"

definition execute_call :: "'w agent_env \<Rightarrow> agent_config \<Rightarrow> tool_call \<Rightarrow> 'w loop_state \<times> content_block list \<Rightarrow> 'w loop_state \<times> content_block list" where
  "execute_call env cfg call acc =
     (case acc of (st, blocks) \<Rightarrow>
        case ev_Envelope env of
          Some run \<Rightarrow>
            (case run (tl_Name call) (tl_Input call) (lo_world st) of (res, w) \<Rightarrow> tool_answer cfg call res (st\<lparr>lo_world := w\<rparr>) blocks)
        | None \<Rightarrow>
            (case enforce_call env call st of (denied, st1) \<Rightarrow>
               case denied of
                 Some err \<Rightarrow> refuse cfg call ''denied by policy'' (''denied by policy: '' @ err) st1 blocks
               | None \<Rightarrow>
                   (case approve_call env call st1 of (ok, st2) \<Rightarrow>
                      if \<not> ok then refuse cfg call ''denied'' ''tool call denied by operator'' st2 blocks
                      else (case ev_Execute env (tl_Name call) (tl_Input call) (lo_world st2) of (res, w) \<Rightarrow>
                              tool_answer cfg call res (st2\<lparr>lo_world := w\<rparr>) blocks))))"

definition executeTools :: "'w agent_env \<Rightarrow> agent_config \<Rightarrow> tool_call list \<Rightarrow> 'w loop_state \<Rightarrow> 'w loop_state \<times> content_block list" where
  "executeTools env cfg calls st = fold (execute_call env cfg) calls (st, [])"

subsection \<open>Weaving planning context\<close>

definition stop_words :: "string list" where
  "stop_words = [''the'', ''a'', ''an'', ''is'', ''are'', ''was'', ''were'', ''be'', ''been'', ''being'', ''have'', ''has'', ''had'', ''do'', ''does'',
     ''did'', ''will'', ''would'', ''could'', ''should'', ''may'', ''might'', ''shall'', ''can'', ''need'', ''to'', ''of'', ''in'', ''for'', ''on'',
     ''with'', ''at'', ''by'', ''from'', ''as'', ''into'', ''through'', ''about'', ''this'', ''that'', ''it'', ''its'', ''i'', ''we'', ''me'', ''my'',
     ''and'', ''or'', ''but'', ''not'', ''no'', ''all'', ''how'', ''what'', ''which'', ''let'', ''please'', ''implement'', ''create'', ''make'']"

definition keyword_cutset :: "char list" where
  "keyword_cutset = ''.,!?()[]{}'' @ [CHR 0x22, CHR 0x27]"

fun keyword_loop :: "string list \<Rightarrow> string list \<Rightarrow> string list" where
  "keyword_loop [] kws = kws"
| "keyword_loop (w # ws) kws =
     (let t = trim_by (\<lambda>c. c \<in> set keyword_cutset) w
      in if length t < 3 \<or> t \<in> set stop_words then keyword_loop ws kws
         else if length (kws @ [t]) \<ge> 5 then kws @ [t] else keyword_loop ws (kws @ [t]))"

definition extractKeywords :: "string \<Rightarrow> string" where
  "extractKeywords prompt = str_join (keyword_loop (str_fields (to_lower prompt)) []) '' ''"

text \<open>A JSON string as \<^verbatim>\<open>encoding/json\<close> writes it: the escapes of ASCII; other bytes stand for themselves.\<close>

definition hex_char :: "nat \<Rightarrow> char" where
  "hex_char d = (if d < 10 then char_of (48 + d) else char_of (87 + d))"

definition json_char :: "char \<Rightarrow> string" where
  "json_char c =
     (let n = (of_char c :: nat); bs = CHR 0x5C
      in if n = 34 \<or> n = 92 then [bs, c] else if n = 8 then [bs, CHR ''b''] else if n = 12 then [bs, CHR ''f'']
         else if n = 10 then [bs, CHR ''n''] else if n = 13 then [bs, CHR ''r''] else if n = 9 then [bs, CHR ''t'']
         else if n < 32 \<or> n = 60 \<or> n = 62 \<or> n = 38 then [bs] @ ''u00'' @ [hex_char (n div 16), hex_char (n mod 16)]
         else [c])"

definition json_string :: "string \<Rightarrow> string" where
  "json_string s = CHR 0x22 # concat (map json_char s) @ [CHR 0x22]"

definition json_field :: "string \<Rightarrow> string \<Rightarrow> string" where
  "json_field k v = json_string k @ '':'' @ v"

definition json_strings :: "string list \<Rightarrow> string" where
  "json_strings ss = ''['' @ str_join (map json_string ss) '','' @ '']''"

definition json_object :: "(string \<times> string) list \<Rightarrow> string" where
  "json_object pairs = ''{'' @ str_join (map (\<lambda>(k, v). json_field k v) pairs) '','' @ ''}''"

record capability_query =
  cq_ToolName :: string
  cq_BuildInput :: "string \<Rightarrow> string"
  cq_WrapResult :: "string \<Rightarrow> string"

definition wrap_section :: "string \<Rightarrow> string \<Rightarrow> string" where
  "wrap_section tag result = ''<'' @ tag @ ''>'' @ [CHR 0x0A] @ result @ [CHR 0x0A] @ ''</'' @ tag @ ''>''"

definition DefaultCapabilityQueries :: "capability_query list" where
  "DefaultCapabilityQueries =
     [\<lparr>cq_ToolName = ''artifact'',
       cq_BuildInput = (\<lambda>keywords. json_object [(''action'', json_string ''list''),
          (''fields'', json_strings [''id'', ''title'', ''status'', ''kind'']), (''limit'', ''10''), (''query'', json_string keywords), (''top'', ''10'')]),
       cq_WrapResult = (\<lambda>result. if result = [] \<or> result = ''(0 artifacts)'' then [] else wrap_section ''work-context'' result)\<rparr>,
      \<lparr>cq_ToolName = ''lexicon'',
       cq_BuildInput = (\<lambda>keywords. json_object [(''action'', json_string ''resolve''), (''budget'', ''2000''),
          (''keywords'', json_strings (str_fields keywords))]),
       cq_WrapResult = (\<lambda>result. if result = [] then [] else wrap_section ''rules-context'' result)\<rparr>]"

definition weave_query :: "'w agent_env \<Rightarrow> string \<Rightarrow> capability_query \<Rightarrow> string list \<times> 'w \<Rightarrow> string list \<times> 'w" where
  "weave_query env keywords q acc =
     (case acc of (sections, w) \<Rightarrow>
        case ev_Execute env (cq_ToolName q) (Some (cq_BuildInput q keywords)) w of (res, w1) \<Rightarrow>
          case res of
            Inl _ \<Rightarrow> (sections, w1)
          | Inr result \<Rightarrow> (let section = cq_WrapResult q result in if section \<noteq> [] then (sections @ [section], w1) else (sections, w1)))"

definition AutoWeaveContext :: "'w agent_env \<Rightarrow> string \<Rightarrow> 'w \<Rightarrow> string \<times> 'w" where
  "AutoWeaveContext env prompt w =
     (let keywords = extractKeywords prompt
      in if keywords = [] then (prompt, w)
         else case fold (weave_query env keywords) DefaultCapabilityQueries ([], w) of (sections, w1) \<Rightarrow>
           if sections = [] then (prompt, w1)
           else (wrap_section ''planning-context'' (str_join sections [CHR 0x0A, CHR 0x0A]) @ [CHR 0x0A, CHR 0x0A] @ prompt, w1))"

subsection \<open>The loop\<close>

text \<open>Four fifths of the context limit, cut to an integer.\<close>

definition compact_limit :: "agent_config \<Rightarrow> int" where
  "compact_limit cfg =
     (let l = (if cf_ContextLimit cfg = 0 then 200000 else cf_ContextLimit cfg)
      in if l < 0 then - ((4 * - l) div 5) else (4 * l) div 5)"

definition auto_compact :: "'w agent_env \<Rightarrow> agent_config \<Rightarrow> 'w loop_state \<Rightarrow> 'w loop_state" where
  "auto_compact env cfg st =
     (if total_tokens (session_entries (lo_session st)) > compact_limit cfg
      then st\<lparr>lo_session := fst (Compact (ev_Now env (lo_world st)) DefaultKeepRecent (lo_session st))\<rparr> else st)"

definition send_results :: "'w agent_env \<Rightarrow> content_block list \<Rightarrow> 'w loop_state \<Rightarrow> string option \<times> 'w loop_state" where
  "send_results env blocks st = (case ev_SendRich env blocks (lo_world st) of (e, w) \<Rightarrow> (e, st\<lparr>lo_world := w\<rparr>))"

text \<open>The turns still allowed, the text of the last response; the result is a text and an error.\<close>

primrec agent_turns :: "nat \<Rightarrow> 'w agent_env \<Rightarrow> agent_config \<Rightarrow> string \<Rightarrow> 'w loop_state \<Rightarrow> (string \<times> agent_error option) \<times> 'w loop_state" where
  "agent_turns 0 env cfg finalText st = ((finalText, None), st)"
| "agent_turns (Suc n) env cfg finalText st0 =
     (let st = auto_compact env cfg st0
      in case ev_Chat env (lo_world st) of (ans, w) \<Rightarrow>
        let st1 = st\<lparr>lo_world := w\<rparr>
        in case ans of
          Inl err \<Rightarrow> (([], Some (ChatFailed err)), st1)
        | Inr events \<Rightarrow>
            (case collectResponse events of (res, hs) \<Rightarrow>
               let st2 = tell cfg hs st1
               in case res of
                 Inl err \<Rightarrow> (([], Some err), st2)
               | Inr resp \<Rightarrow>
                   (let blocks = response_blocks resp;
                        st3 = append_entry env ''assistant'' (cl_text resp) blocks st2;
                        st4 = st3\<lparr>lo_world := ev_AppendAssistant env blocks (lo_world st3)\<rparr>
                    in if cl_toolCalls resp = [] \<or> \<not> cf_ToolsEnabled cfg then ((cl_text resp, None), st4)
                       else (case executeTools env cfg (cl_toolCalls resp) st4 of (st5, results) \<Rightarrow>
                          case send_results env results st5 of (e, st6) \<Rightarrow>
                            case e of
                              Some err \<Rightarrow> ((cl_text resp, Some (SendResultsFailed err)), st6)
                            | None \<Rightarrow> agent_turns n env cfg (cl_text resp) (append_entry env ''user'' [] results st6)))))"

definition max_turns :: "agent_config \<Rightarrow> nat" where
  "max_turns cfg = (if cf_MaxTurns cfg = 0 then 20 else nat (cf_MaxTurns cfg))"

definition agent_run :: "'w agent_env \<Rightarrow> agent_config \<Rightarrow> string \<Rightarrow> 'w loop_state \<Rightarrow> (string \<times> agent_error option) \<times> 'w loop_state" where
  "agent_run env cfg userPrompt st =
     (case (if cf_Mode cfg = ModePlan then AutoWeaveContext env userPrompt (lo_world st) else (userPrompt, lo_world st)) of (prompt, w) \<Rightarrow>
        let st1 = append_entry env ''user'' prompt [] (st\<lparr>lo_world := w\<rparr>)
        in case ev_Send env prompt (lo_world st1) of (e, w1) \<Rightarrow>
          let st2 = st1\<lparr>lo_world := w1\<rparr>
          in case e of
            Some err \<Rightarrow> (([], Some (SendFailed err)), st2)
          | None \<Rightarrow> agent_turns (max_turns cfg) env cfg [] st2)"

end
