(* ===== verification/Agent_Properties.thy ===== *)
theory Agent_Properties
  imports Agent_Loop
begin

text \<open>
  The protocol of the agentic loop, stated on what its partners see: the partners are watched, that is,
  every call of them is written down with its answer.
\<close>

datatype agent_act =
  ASend
| AChat
| AAppend "content_block list"
| ASendRich "content_block list"
| AExecute string "bytes option"
| AEnvelope string "bytes option"
| ACheck string "bytes option" bool
| AApprove tool_call bool

definition watch :: "('r \<Rightarrow> agent_act) \<Rightarrow> ('w \<Rightarrow> 'r \<times> 'w) \<Rightarrow> 'w \<times> agent_act list \<Rightarrow> 'r \<times> ('w \<times> agent_act list)" where
  "watch a f wl = (case f (fst wl) of (r, w) \<Rightarrow> (r, (w, snd wl @ [a r])))"

definition watched :: "'w agent_env \<Rightarrow> ('w \<times> agent_act list) agent_env" where
  "watched env = \<lparr>ev_Send = (\<lambda>p. watch (\<lambda>_. ASend) (ev_Send env p)), ev_Chat = watch (\<lambda>_. AChat) (ev_Chat env),
     ev_AppendAssistant = (\<lambda>bs wl. (ev_AppendAssistant env bs (fst wl), snd wl @ [AAppend bs])),
     ev_SendRich = (\<lambda>bs. watch (\<lambda>_. ASendRich bs) (ev_SendRich env bs)),
     ev_Execute = (\<lambda>n i. watch (\<lambda>_. AExecute n i) (ev_Execute env n i)),
     ev_Envelope = map_option (\<lambda>run n i. watch (\<lambda>_. AEnvelope n i) (run n i)) (ev_Envelope env),
     ev_Enforce = map_option (\<lambda>check n i. watch (\<lambda>e. ACheck n i (e = None)) (check n i)) (ev_Enforce env),
     ev_Approve = map_option (\<lambda>approve c. watch (AApprove c) (approve c)) (ev_Approve env),
     ev_Now = (\<lambda>wl. ev_Now env (fst wl))\<rparr>"

abbreviation acts :: "('w \<times> agent_act list) loop_state \<Rightarrow> agent_act list" where "acts st \<equiv> snd (lo_world st)"

subsection \<open>Guards before tools\<close>

text \<open>What has to come right before the execution of a call: the consent of the enforcer and of the operator, where there is one.\<close>

definition guards :: "'w agent_env \<Rightarrow> tool_call \<Rightarrow> agent_act list" where
  "guards env c = (case ev_Enforce env of None \<Rightarrow> [] | Some _ \<Rightarrow> [ACheck (tl_Name c) (tl_Input c) True]) @
     (case ev_Approve env of None \<Rightarrow> [] | Some _ \<Rightarrow> [AApprove c True])"

definition guarded :: "'w agent_env \<Rightarrow> agent_act list \<Rightarrow> bool" where
  "guarded env l = (\<forall>pre n i post. l = pre @ AExecute n i # post \<longrightarrow>
     (\<exists>c. tl_Name c = n \<and> tl_Input c = i \<and> suffix (guards env c) pre))"

lemma guarded_Nil [simp]: "guarded env []"
  by (simp add: guarded_def)


subsection \<open>Answers to calls\<close>

definition result_ids :: "content_block list \<Rightarrow> string list" where
  "result_ids bs = List.map_filter (\<lambda>b. map_option tr_ToolCallID (cb_ToolResult b)) bs"

definition answers :: "content_block list \<Rightarrow> content_block list \<Rightarrow> bool" where
  "answers bs rs = (result_ids rs = map tl_ID (tool_calls bs))"

text \<open>
  The conversation with the driver: \<open>Some None\<close> when nothing is open, \<open>Some (Some bs)\<close> when the calls of \<open>bs\<close>
  wait for their results, \<open>None\<close> when it went wrong.
\<close>

fun pair_step :: "agent_act \<Rightarrow> content_block list option option \<Rightarrow> content_block list option option" where
  "pair_step a None = None"
| "pair_step AChat (Some s) = (if s = None then Some None else None)"
| "pair_step (AAppend bs) (Some s) = (if s = None then Some (if tool_calls bs = [] then None else Some bs) else None)"
| "pair_step (ASendRich rs) (Some s) = (case s of None \<Rightarrow> None | Some bs \<Rightarrow> if answers bs rs then Some None else None)"
| "pair_step a (Some s) = Some s"

definition conversation :: "agent_act list \<Rightarrow> content_block list option option" where
  "conversation l = fold pair_step l (Some None)"

lemma conversation_snoc [simp]: "conversation (l @ [a]) = pair_step a (conversation l)"
  by (simp add: conversation_def)

fun runs_tool :: "agent_act \<Rightarrow> bool" where
  "runs_tool (AExecute n i) = True"
| "runs_tool (AEnvelope n i) = True"
| "runs_tool a = False"

definition chats :: "agent_act list \<Rightarrow> nat" where "chats l = length (filter (\<lambda>a. a = AChat) l)"
definition tool_runs :: "agent_act list \<Rightarrow> nat" where "tool_runs l = length (filter runs_tool l)"

lemma counts_snoc [simp]:
  "chats (l @ [a]) = (if a = AChat then Suc (chats l) else chats l)"
  "tool_runs (l @ [a]) = (if runs_tool a then Suc (tool_runs l) else tool_runs l)"
  by (simp_all add: chats_def tool_runs_def)



subsection \<open>Steps of the loop under watch\<close>

lemma tell_fields [simp]: "lo_session (tell cfg hs st) = lo_session st" "lo_world (tell cfg hs st) = lo_world st"
  by (simp_all add: tell_def)

lemma append_entry_world [simp]: "lo_world (append_entry env r c bs st) = lo_world st"
  by (simp add: append_entry_def)

lemma auto_compact_world [simp]: "lo_world (auto_compact env cfg st) = lo_world st"
  by (simp add: auto_compact_def)






lemma result_ids_snoc [simp]: "result_ids (bs @ [NewToolResultBlock i out err]) = result_ids bs @ [i]"
  by (simp add: result_ids_def List.map_filter_def NewToolResultBlock_def zero_block_def)






text \<open>A driver that asks for the same tool in every turn, and an operator who approves.\<close>

definition busy_env :: "nat agent_env" where
  "busy_env = \<lparr>ev_Send = (\<lambda>p w. (None, w)),
     ev_Chat = (\<lambda>w. (Inr [\<lparr>sv_Type = ''tool_use'', sv_Text = [], sv_Thinking = [],
        sv_ToolCall = Some \<lparr>tl_ID = ''t1'', tl_Name = ''Read'', tl_Input = Some ''{}''\<rparr>, sv_Usage = None, sv_Error = []\<rparr>], w + 1)),
     ev_AppendAssistant = (\<lambda>bs w. w), ev_SendRich = (\<lambda>bs w. (None, w)), ev_Execute = (\<lambda>n i w. (Inr ''ok'', w)),
     ev_Envelope = None, ev_Enforce = Some (\<lambda>n i w. (None, w)), ev_Approve = Some (\<lambda>c w. (True, w)), ev_Now = (\<lambda>w. 1)\<rparr>"

definition busy_config :: "bool \<Rightarrow> agent_mode \<Rightarrow> agent_config" where
  "busy_config enabled m = \<lparr>cf_MaxTurns = 1, cf_ToolsEnabled = enabled, cf_Mode = m, cf_ContextLimit = 0, cf_Handler = False\<rparr>"

definition busy_run :: "bool \<Rightarrow> (string \<times> agent_error option) \<times> (nat \<times> agent_act list) loop_state" where
  "busy_run enabled = agent_run (watched busy_env) (busy_config enabled ModeAgent) ''go''
     \<lparr>lo_session = new_session 1 ''s'' ''m'' ''/w'', lo_world = (0, []), lo_events = []\<rparr>"


text \<open>
  Using up the turns is not reported: the text of the last turn is returned without an error, while the error
  named after it is what an error of the stream is wrapped in. And when tools are disabled, a call that the model
  makes all the same stays in the conversation without an answer.
\<close>

lemma turn_limit_is_silent:
  "snd (fst (busy_run True)) = None \<and> chats (acts (snd (busy_run True))) = 1 \<and>
   conversation (acts (snd (busy_run False))) = Some (Some (response_blocks \<lparr>cl_text = [], cl_thinking = [],
     cl_toolCalls = [\<lparr>tl_ID = ''t1'', tl_Name = ''Read'', tl_Input = Some ''{}''\<rparr>], cl_usage = None\<rparr>)) \<and>
   snd (fst (busy_run False)) = None \<and>
   fst (collectResponse [\<lparr>sv_Type = ''error'', sv_Text = [], sv_Thinking = [], sv_ToolCall = None, sv_Usage = None, sv_Error = ''reset''\<rparr>]) =
     Inl (ErrMaxTurnsExceeded ''reset'')"
  by (intro conjI; code_simp)

text \<open>In plan mode two tools run without the policy or the operator being asked, although tools are disabled.\<close>

lemma plan_weave_ungated:
  "tool_runs (acts (snd (agent_run (watched (busy_env\<lparr>ev_Enforce := Some (\<lambda>n i w. (Some ''no'', w)), ev_Approve := Some (\<lambda>c w. (False, w))\<rparr>))
     (busy_config False ModePlan) ''refactor parser'' \<lparr>lo_session = new_session 1 ''s'' ''m'' ''/w'', lo_world = (0, []), lo_events = []\<rparr>))) = 2"
  by code_simp

end
