(* ===== verification/Hook_Dispatch.thy ===== *)
theory Hook_Dispatch
  imports Go_Strings
begin

text \<open>
  Hooks (\<^verbatim>\<open>hook/hook.go\<close>, \<^verbatim>\<open>convert.go\<close>, \<^verbatim>\<open>slots.go\<close>) and their dispatcher (\<^verbatim>\<open>hook/dispatcher.go\<close>): the
  gate before a tool call, the recorder after it, and the reactions to events. The event log is of another
  module: what the dispatcher emits is kept in order, and an event emitted reaches the dispatcher when it has
  subscribed. The YAML reader and the shell are arguments; logging is left out.
\<close>

subsection \<open>Hooks and their validation\<close>

record hook_matcher =
  hm_Tool :: string
  hm_Kind :: string

record hook_action =
  ha_Deny :: string
  ha_Emit :: string
  ha_SpawnSlot :: string
  ha_Shell :: string

record hook =
  hk_Name :: string
  hk_On :: string
  hk_Match :: hook_matcher
  hk_Action :: hook_action
  hk_Scope :: string

definition PhasePreToolUse :: string where "PhasePreToolUse = ''pre_tool_use''"
definition PhasePostToolUse :: string where "PhasePostToolUse = ''post_tool_use''"
definition PhaseEvent :: string where "PhaseEvent = ''event''"

definition no_action :: hook_action where
  "no_action = \<lparr>ha_Deny = [], ha_Emit = [], ha_SpawnSlot = [], ha_Shell = []\<rparr>"

definition any_match :: hook_matcher where "any_match = \<lparr>hm_Tool = [], hm_Kind = []\<rparr>"

datatype hook_error =
  ErrHookParse string
| ErrHookNameRequired nat
| ErrDuplicateName string
| ErrUnknownPhase string string
| ErrNoAction string

fun validate_hooks :: "nat \<Rightarrow> string list \<Rightarrow> hook list \<Rightarrow> hook_error option" where
  "validate_hooks i seen [] = None"
| "validate_hooks i seen (h # hs) =
     (if hk_Name h = [] then Some (ErrHookNameRequired i)
      else if hk_Name h \<in> set seen then Some (ErrDuplicateName (hk_Name h))
      else if hk_On h \<noteq> PhasePreToolUse \<and> hk_On h \<noteq> PhasePostToolUse \<and> hk_On h \<noteq> PhaseEvent
      then Some (ErrUnknownPhase (hk_On h) (hk_Name h))
      else if hk_Action h = no_action then Some (ErrNoAction (hk_Name h))
      else validate_hooks (i + 1) (hk_Name h # seen) hs)"

definition ParseHooks :: "(string \<Rightarrow> string + hook list) \<Rightarrow> string \<Rightarrow> hook_error + hook list" where
  "ParseHooks unmarshal data =
     (case unmarshal data of
        Inl err \<Rightarrow> Inl (ErrHookParse err)
      | Inr hs \<Rightarrow> (case validate_hooks 0 [] hs of Some e \<Rightarrow> Inl e | None \<Rightarrow> Inr hs))"

definition MatchesTool :: "hook_matcher \<Rightarrow> string \<Rightarrow> bool" where
  "MatchesTool m tool = (if hm_Tool m = [] \<or> hm_Tool m = ''*'' then True else hm_Tool m = tool)"

record sig_event =
  se_Timestamp :: gotime
  se_TraceID :: string
  se_Source :: string
  se_Kind :: string

definition MatchesEvent :: "hook_matcher \<Rightarrow> sig_event \<Rightarrow> bool" where
  "MatchesEvent m e = (if hm_Kind m \<noteq> [] \<and> hm_Kind m \<noteq> se_Kind e then False else True)"

definition MatchesScope :: "hook \<Rightarrow> string \<Rightarrow> bool" where
  "MatchesScope h source =
     (if hk_Scope h = [] then True
      else if length source < length (hk_Scope h) then source = hk_Scope h
      else take (length (hk_Scope h)) source = hk_Scope h)"

subsection \<open>Hooks made from other configurations\<close>

record legacy_hook =
  lh_Command :: string
  lh_Tools :: "string list"

definition legacy_tool :: "legacy_hook \<Rightarrow> string" where
  "legacy_tool h = (if length (lh_Tools h) = 1 then lh_Tools h ! 0 else ''*'')"

definition legacy_convert :: "string \<Rightarrow> string \<Rightarrow> nat \<times> legacy_hook \<Rightarrow> hook" where
  "legacy_convert name phase ih =
     (case ih of (i, h) \<Rightarrow>
        \<lparr>hk_Name = name @ nat_dec i, hk_On = phase, hk_Match = any_match\<lparr>hm_Tool := legacy_tool h\<rparr>,
         hk_Action = no_action\<lparr>ha_Shell := lh_Command h\<rparr>, hk_Scope = []\<rparr>)"

definition ConvertLegacy :: "legacy_hook list \<Rightarrow> legacy_hook list \<Rightarrow> hook list" where
  "ConvertLegacy pre post =
     map (legacy_convert ''legacy-pre-'' PhasePreToolUse) (enumerate 0 pre) @
     map (legacy_convert ''legacy-post-'' PhasePostToolUse) (enumerate 0 post)"

record slot_spawn =
  sp_Role :: string
  sp_SpawnOn :: "string list"

definition SlotsToHooks :: "slot_spawn list \<Rightarrow> hook list" where
  "SlotsToHooks slots =
     concat (map (\<lambda>slot. map (\<lambda>sig. \<lparr>hk_Name = ''spawn-'' @ sp_Role slot @ ''-on-'' @ sig, hk_On = PhaseEvent,
        hk_Match = any_match\<lparr>hm_Kind := sig\<rparr>, hk_Action = no_action\<lparr>ha_SpawnSlot := sp_Role slot\<rparr>, hk_Scope = []\<rparr>) (sp_SpawnOn slot)) slots)"

subsection \<open>The dispatcher\<close>

record dispatcher =
  ed_hooks :: "hook list"
  ed_preHooks :: "hook list"
  ed_postHooks :: "hook list"
  ed_eventHooks :: "hook list"
  ed_eventLog :: bool
  ed_spawnFn :: bool
  ed_subscribed :: bool
  ed_dispatched :: nat
  ed_denied :: nat

definition index_hooks :: "dispatcher \<Rightarrow> dispatcher" where
  "index_hooks d = d\<lparr>ed_preHooks := filter (\<lambda>h. hk_On h = PhasePreToolUse) (ed_hooks d),
     ed_postHooks := filter (\<lambda>h. hk_On h = PhasePostToolUse) (ed_hooks d),
     ed_eventHooks := filter (\<lambda>h. hk_On h = PhaseEvent) (ed_hooks d)\<rparr>"

definition new_dispatcher :: "hook list \<Rightarrow> bool \<Rightarrow> bool \<Rightarrow> dispatcher" where
  "new_dispatcher hooks eventLog spawnFn =
     (let d = index_hooks \<lparr>ed_hooks = hooks, ed_preHooks = [], ed_postHooks = [], ed_eventHooks = [], ed_eventLog = eventLog,
            ed_spawnFn = spawnFn, ed_subscribed = False, ed_dispatched = 0, ed_denied = 0\<rparr>
      in if eventLog \<and> length (ed_eventHooks d) > 0 then d\<lparr>ed_subscribed := True\<rparr> else d)"

definition reload_hooks :: "hook list \<Rightarrow> dispatcher \<Rightarrow> dispatcher" where
  "reload_hooks hooks d = index_hooks (d\<lparr>ed_hooks := hooks\<rparr>)"

definition dispatcher_hooks :: "dispatcher \<Rightarrow> hook list" where "dispatcher_hooks d = ed_hooks d"

text \<open>A shell command ends with a code and its output, or fails otherwise.\<close>

datatype shell_end = ShellExit int string | ShellFailed

definition runShell :: "(hook \<Rightarrow> string \<Rightarrow> string \<Rightarrow> shell_end) \<Rightarrow> hook \<Rightarrow> string \<Rightarrow> string \<Rightarrow> bool \<times> string" where
  "runShell sh h tool inp =
     (case sh h tool inp of
        ShellFailed \<Rightarrow> (True, [])
      | ShellExit n out \<Rightarrow>
          if n = 2 then (False, if out = [] then ''denied by hook '' @ hk_Name h else out) else (True, []))"

record verdict =
  vd_Allowed :: bool
  vd_Reason :: string

definition incDispatched :: "dispatcher \<Rightarrow> dispatcher" where "incDispatched d = d\<lparr>ed_dispatched := ed_dispatched d + 1\<rparr>"
definition incDenied :: "dispatcher \<Rightarrow> dispatcher" where "incDenied d = d\<lparr>ed_denied := ed_denied d + 1\<rparr>"

fun check_hooks :: "(hook \<Rightarrow> string \<Rightarrow> string \<Rightarrow> shell_end) \<Rightarrow> string \<Rightarrow> string \<Rightarrow> hook list \<Rightarrow> dispatcher \<Rightarrow> dispatcher \<times> verdict" where
  "check_hooks sh tool inp [] d = (d, \<lparr>vd_Allowed = True, vd_Reason = []\<rparr>)"
| "check_hooks sh tool inp (h # hs) d =
     (if \<not> MatchesTool (hk_Match h) tool then check_hooks sh tool inp hs d
      else let d1 = incDispatched d; r = (if ha_Shell (hk_Action h) \<noteq> [] then runShell sh h tool inp else (True, []))
        in if \<not> fst r then (incDenied d1, \<lparr>vd_Allowed = False, vd_Reason = snd r\<rparr>)
           else if ha_Deny (hk_Action h) \<noteq> [] then (incDenied d1, \<lparr>vd_Allowed = False, vd_Reason = ha_Deny (hk_Action h)\<rparr>)
           else check_hooks sh tool inp hs d1)"

definition hook_check :: "(hook \<Rightarrow> string \<Rightarrow> string \<Rightarrow> shell_end) \<Rightarrow> string \<Rightarrow> string \<Rightarrow> dispatcher \<Rightarrow> dispatcher \<times> verdict" where
  "hook_check sh tool inp d = check_hooks sh tool inp (ed_preHooks d) d"

text \<open>The recorder: the events it emits.\<close>

definition hook_event :: "gotime \<Rightarrow> string \<Rightarrow> string \<Rightarrow> sig_event" where
  "hook_event now kind trace = \<lparr>se_Timestamp = now, se_TraceID = trace, se_Source = ''hook'', se_Kind = kind\<rparr>"

definition hook_record :: "gotime \<Rightarrow> string \<Rightarrow> dispatcher \<Rightarrow> sig_event list" where
  "hook_record now tool d =
     map (\<lambda>h. hook_event now (ha_Emit (hk_Action h)) [])
       (filter (\<lambda>h. MatchesTool (hk_Match h) tool \<and> ha_Emit (hk_Action h) \<noteq> [] \<and> ed_eventLog d) (ed_postHooks d))"

text \<open>An event makes actions; an action emits an event, spawns a slot, or both.\<close>

definition handleEvent :: "dispatcher \<Rightarrow> sig_event \<Rightarrow> (hook \<times> sig_event) list" where
  "handleEvent d e = map (\<lambda>h. (h, e)) (filter (\<lambda>h. MatchesEvent (hk_Match h) e \<and> MatchesScope h (se_Source e)) (ed_eventHooks d))"

definition executeAction :: "gotime \<Rightarrow> dispatcher \<Rightarrow> hook \<times> sig_event \<Rightarrow> sig_event list \<times> string list" where
  "executeAction now d he =
     (case he of (h, e) \<Rightarrow>
        ((if ha_Emit (hk_Action h) \<noteq> [] \<and> ed_eventLog d then [hook_event now (ha_Emit (hk_Action h)) (se_TraceID e)] else []),
         (if ha_SpawnSlot (hk_Action h) \<noteq> [] \<and> ed_spawnFn d then [ha_SpawnSlot (hk_Action h)] else [])))"

text \<open>The log with the actions that are still to run, of which any may run next.\<close>

record hook_system =
  hs_log :: "sig_event list"
  hs_pending :: "(hook \<times> sig_event) list"
  hs_spawned :: "string list"

definition system_emit :: "dispatcher \<Rightarrow> sig_event \<Rightarrow> hook_system \<Rightarrow> hook_system" where
  "system_emit d e s = s\<lparr>hs_log := hs_log s @ [e],
     hs_pending := hs_pending s @ (if ed_subscribed d then handleEvent d e else [])\<rparr>"

definition run_pending :: "gotime \<Rightarrow> dispatcher \<Rightarrow> nat \<Rightarrow> hook_system \<Rightarrow> hook_system" where
  "run_pending now d i s =
     (if i < length (hs_pending s) then
        (case executeAction now d (hs_pending s ! i) of (es, roles) \<Rightarrow>
           fold (system_emit d) es (s\<lparr>hs_pending := take i (hs_pending s) @ drop (i + 1) (hs_pending s), hs_spawned := hs_spawned s @ roles\<rparr>))
      else s)"

subsection \<open>The stub of the tests\<close>

record stub_dispatcher =
  sd_checks :: "(string \<times> string) list"
  sd_records :: "(string \<times> string \<times> int) list"
  sd_denyTool :: "(string, string) gomap"

definition NewStubDispatcher :: stub_dispatcher where
  "NewStubDispatcher = \<lparr>sd_checks = [], sd_records = [], sd_denyTool = []\<rparr>"

definition stub_SetDeny :: "string \<Rightarrow> string \<Rightarrow> stub_dispatcher \<Rightarrow> stub_dispatcher" where
  "stub_SetDeny tool reason s = s\<lparr>sd_denyTool := mset_at (sd_denyTool s) tool reason\<rparr>"

definition stub_Check :: "string \<Rightarrow> string \<Rightarrow> stub_dispatcher \<Rightarrow> stub_dispatcher \<times> verdict" where
  "stub_Check tool inp s =
     (s\<lparr>sd_checks := sd_checks s @ [(tool, inp)]\<rparr>,
      case map_of (sd_denyTool s) tool of Some reason \<Rightarrow> \<lparr>vd_Allowed = False, vd_Reason = reason\<rparr> | None \<Rightarrow> \<lparr>vd_Allowed = True, vd_Reason = []\<rparr>)"

definition stub_Record :: "string \<Rightarrow> string \<Rightarrow> int \<Rightarrow> stub_dispatcher \<Rightarrow> stub_dispatcher" where
  "stub_Record tool out elapsed s = s\<lparr>sd_records := sd_records s @ [(tool, out, elapsed)]\<rparr>"

subsection \<open>Validation\<close>

lemma validate_hooks_None:
  "validate_hooks i seen hs = None \<longleftrightarrow>
     distinct (map hk_Name hs) \<and> set seen \<inter> set (map hk_Name hs) = {} \<and> [] \<notin> set (map hk_Name hs) \<and>
     (\<forall>h \<in> set hs. hk_On h \<in> {PhasePreToolUse, PhasePostToolUse, PhaseEvent} \<and> hk_Action h \<noteq> no_action)"
  by (induction hs arbitrary: i seen) auto

lemma phases_differ: "PhasePreToolUse \<noteq> PhasePostToolUse" "PhasePreToolUse \<noteq> PhaseEvent" "PhasePostToolUse \<noteq> PhaseEvent"
  by (simp_all add: PhasePreToolUse_def PhasePostToolUse_def PhaseEvent_def)

subsection \<open>The gate\<close>

text \<open>Whether a hook denies a call, and for what reason.\<close>

definition hook_denial :: "(hook \<Rightarrow> string \<Rightarrow> string \<Rightarrow> shell_end) \<Rightarrow> string \<Rightarrow> string \<Rightarrow> hook \<Rightarrow> string option" where
  "hook_denial sh tool inp h =
     (if \<not> MatchesTool (hk_Match h) tool then None
      else if ha_Shell (hk_Action h) \<noteq> [] \<and> \<not> fst (runShell sh h tool inp) then Some (snd (runShell sh h tool inp))
      else if ha_Deny (hk_Action h) \<noteq> [] then Some (ha_Deny (hk_Action h)) else None)"

lemma check_hooks_result:
  "snd (check_hooks sh tool inp hs d) =
     (case List.find (\<lambda>h. hook_denial sh tool inp h \<noteq> None) hs of
        None \<Rightarrow> \<lparr>vd_Allowed = True, vd_Reason = []\<rparr>
      | Some h \<Rightarrow> \<lparr>vd_Allowed = False, vd_Reason = the (hook_denial sh tool inp h)\<rparr>)"
  by (induction hs arbitrary: d) (simp_all add: hook_denial_def Let_def)

lemma check_hooks_stats:
  "ed_denied (fst (check_hooks sh tool inp hs d)) = ed_denied d + (if vd_Allowed (snd (check_hooks sh tool inp hs d)) then 0 else 1) \<and>
   ed_hooks (fst (check_hooks sh tool inp hs d)) = ed_hooks d \<and> ed_preHooks (fst (check_hooks sh tool inp hs d)) = ed_preHooks d"
  by (induction hs arbitrary: d) (auto simp: Let_def incDispatched_def incDenied_def)

lemma check_hooks_dispatched:
  "ed_dispatched (fst (check_hooks sh tool inp hs d)) \<le> ed_dispatched d + length (filter (\<lambda>h. MatchesTool (hk_Match h) tool) hs)"
proof (induction hs arbitrary: d)
  case (Cons h hs)
  show ?case using Cons [of d] Cons [of "incDispatched d"] by (auto simp: Let_def incDispatched_def incDenied_def)
qed simp

subsection \<open>Reactions that feed on themselves\<close>

definition wakes :: "dispatcher \<Rightarrow> hook \<Rightarrow> hook \<Rightarrow> bool" where
  "wakes d h h' = (ha_Emit (hk_Action h) \<noteq> [] \<and> ed_eventLog d \<and>
     MatchesEvent (hk_Match h') (hook_event 0 (ha_Emit (hk_Action h)) []) \<and> MatchesScope h' ''hook'')"

lemma matches_hook_event: "MatchesEvent m (hook_event now k t) = MatchesEvent m (hook_event 0 k [])"
  by (simp add: MatchesEvent_def hook_event_def)

lemma woken: "h' \<in> set (ed_eventHooks d) \<Longrightarrow> wakes d h h' \<Longrightarrow>
   (h', hook_event now (ha_Emit (hk_Action h)) t) \<in> set (handleEvent d (hook_event now (ha_Emit (hk_Action h)) t))"
  using matches_hook_event [of "hk_Match h'" now] by (auto simp: handleEvent_def wakes_def hook_event_def)

lemma handled_hooks: "(h, e) \<in> set (handleEvent d e') \<Longrightarrow> h \<in> set (ed_eventHooks d) \<and> e = e'"
  by (auto simp: handleEvent_def)

lemma run_pending_quiet:
  assumes "\<forall>h \<in> set (ed_eventHooks d). \<forall>h' \<in> set (ed_eventHooks d). \<not> wakes d h h'"
    and "\<forall>p \<in> set (hs_pending s). fst p \<in> set (ed_eventHooks d)" and i: "i < length (hs_pending s)"
  shows "hs_pending (run_pending now d i s) = take i (hs_pending s) @ drop (i + 1) (hs_pending s)"
proof -
  obtain h e where p: "hs_pending s ! i = (h, e)" by force
  have h: "h \<in> set (ed_eventHooks d)" using assms(2) nth_mem [OF i] p by fastforce
  show ?thesis
  proof (cases "ha_Emit (hk_Action h) \<noteq> [] \<and> ed_eventLog d")
    case True
    have "handleEvent d (hook_event now (ha_Emit (hk_Action h)) (se_TraceID e)) = []" (is "?w = []")
    proof (rule ccontr)
      assume "?w \<noteq> []"
      then obtain h' e' where w: "(h', e') \<in> set ?w" by (cases ?w) auto
      from handled_hooks [OF w] have h': "h' \<in> set (ed_eventHooks d)" by simp
      from w have "MatchesEvent (hk_Match h') (hook_event now (ha_Emit (hk_Action h)) (se_TraceID e))
        \<and> MatchesScope h' ''hook''" by (auto simp: handleEvent_def hook_event_def)
      then have "wakes d h h'" using True by (simp add: wakes_def matches_hook_event [where now = now])
      then show False using assms(1) h h' by blast
    qed
    then show ?thesis using True i p by (simp add: run_pending_def executeAction_def system_emit_def)
  next
    case False
    then show ?thesis using i p by (auto simp: run_pending_def executeAction_def)
  qed
qed

end
