(* ===== verification/Watch_Scores.thy ===== *)
theory Watch_Scores
  imports Complex_Main Telemetry_Trace Go_Strings "HOL-Library.Signed_Division"
begin

text \<open>
  The readers of the event log: the observer (\<^verbatim>\<open>observe/\<close>) with its stub, the referee that scores a
  run (\<^verbatim>\<open>referee/\<close>), and the undo manager (\<^verbatim>\<open>undo/\<close>). The event log and the workspace space are of
  other modules: what \<^verbatim>\<open>Since\<close> and \<^verbatim>\<open>Len\<close> return are arguments, and resetting a space is a
  function that gives the space after it and an error or none.
\<close>

subsection \<open>Observing\<close>

text \<open>An event; its data is a trace event or something else.\<close>

record obs_event =
  ob_TraceID :: string
  ob_Timestamp :: gotime
  ob_Source :: string
  ob_Kind :: string
  ob_Data :: "trace_event option"

record trace_line =
  tl_Timestamp :: gotime
  tl_Source :: string
  tl_Kind :: string
  tl_Summary :: string
  tl_Duration :: int
  tl_TraceID :: string

record health_report =
  hr_AgentsAlive :: nat
  hr_BudgetUsed :: rat
  hr_LastActivity :: gotime
  hr_StuckAgents :: "string list"
  hr_Errors :: nat

record trace_opts =
  to_Last :: int
  to_Kind :: string
  to_Source :: string
  to_TraceID :: string

definition formatSummary :: "obs_event \<Rightarrow> string" where
  "formatSummary e = (if ob_Kind e \<noteq> [] then ''['' @ ob_Source e @ ''] '' @ ob_Kind e else ob_Source e)"

definition trace_line_of :: "obs_event \<Rightarrow> trace_line" where
  "trace_line_of e =
     (let line = \<lparr>tl_Timestamp = ob_Timestamp e, tl_Source = ob_Source e, tl_Kind = ob_Kind e,
            tl_Summary = formatSummary e, tl_Duration = 0, tl_TraceID = ob_TraceID e\<rparr>
      in (case ob_Data e of
            None \<Rightarrow> line
          | Some te \<Rightarrow>
              line\<lparr>tl_Duration := e_Latency te sdiv 1000000,
                   tl_Summary := (if tl_Summary line = [] then e_Detail te else tl_Summary line)\<rparr>))"

definition trace_limit :: "trace_opts \<Rightarrow> nat" where
  "trace_limit opts = (if to_Last opts \<le> 0 then 50 else nat (to_Last opts))"

fun trace_lines :: "trace_opts \<Rightarrow> obs_event list \<Rightarrow> trace_line list" where
  "trace_lines opts [] = []"
| "trace_lines opts (e # es) =
     (if to_Kind opts \<noteq> [] \<and> ob_Kind e \<noteq> to_Kind opts then trace_lines opts es
      else if to_Source opts \<noteq> [] \<and> ob_Source e \<noteq> to_Source opts then trace_lines opts es
      else if to_TraceID opts \<noteq> [] \<and> ob_TraceID e \<noteq> to_TraceID opts then trace_lines opts es
      else trace_line_of e # trace_lines opts es)"

definition observer_Trace :: "obs_event list \<Rightarrow> trace_opts \<Rightarrow> trace_line list" where
  "observer_Trace events opts =
     (let lines = trace_lines opts events
      in if length lines > trace_limit opts then drop (length lines - trace_limit opts) lines else lines)"

definition see_source :: "(string, gotime) gomap \<Rightarrow> obs_event \<Rightarrow> (string, gotime) gomap" where
  "see_source lastSeen e =
     (if ob_Source e \<noteq> [] \<and> ob_Timestamp e > mget zero_time lastSeen (ob_Source e)
      then mset_at lastSeen (ob_Source e) (ob_Timestamp e) else lastSeen)"

definition obs_error :: "obs_event \<Rightarrow> bool" where
  "obs_error e = (case ob_Data e of Some te \<Rightarrow> e_Error te | None \<Rightarrow> False)"

definition report_source :: "gotime \<Rightarrow> int \<Rightarrow> health_report \<Rightarrow> string \<times> gotime \<Rightarrow> health_report" where
  "report_source now stuckTimeout report st =
     (case st of (source, ts) \<Rightarrow>
        let r = (if ts > hr_LastActivity report then report\<lparr>hr_LastActivity := ts\<rparr> else report)
        in if now - ts > stuckTimeout then r\<lparr>hr_StuckAgents := hr_StuckAgents r @ [source]\<rparr> else r)"

definition observer_Health :: "gotime \<Rightarrow> int \<Rightarrow> obs_event list \<Rightarrow> health_report" where
  "observer_Health now stuckTimeout events =
     (let lastSeen = foldl see_source [] events
      in foldl (report_source now stuckTimeout)
           \<lparr>hr_AgentsAlive = length lastSeen, hr_BudgetUsed = 0, hr_LastActivity = zero_time, hr_StuckAgents = [],
            hr_Errors = length (filter obs_error events)\<rparr> lastSeen)"

record stub_observer =
  so_traces :: "trace_line list"
  so_health :: health_report
  so_TraceCalls :: nat
  so_HealthCalls :: nat

definition NewStubObserver :: "gotime \<Rightarrow> stub_observer" where
  "NewStubObserver now = \<lparr>so_traces = [], so_health = \<lparr>hr_AgentsAlive = 0, hr_BudgetUsed = 0, hr_LastActivity = now,
     hr_StuckAgents = [], hr_Errors = 0\<rparr>, so_TraceCalls = 0, so_HealthCalls = 0\<rparr>"

definition stub_Trace :: "trace_opts \<Rightarrow> stub_observer \<Rightarrow> stub_observer \<times> trace_line list" where
  "stub_Trace opts s =
     (let r0 = so_traces s;
          r1 = (if to_Kind opts \<noteq> [] then filter (\<lambda>t. tl_Kind t = to_Kind opts) r0 else r0);
          r2 = (if to_Source opts \<noteq> [] then filter (\<lambda>t. tl_Source t = to_Source opts) r1 else r1);
          r3 = (if to_TraceID opts \<noteq> [] then filter (\<lambda>t. tl_TraceID t = to_TraceID opts) r2 else r2);
          lim = trace_limit opts
      in (s\<lparr>so_TraceCalls := so_TraceCalls s + 1\<rparr>, if length r3 > lim then drop (length r3 - lim) r3 else r3))"

definition stub_Health :: "stub_observer \<Rightarrow> stub_observer \<times> health_report" where
  "stub_Health s = (s\<lparr>so_HealthCalls := so_HealthCalls s + 1\<rparr>, so_health s)"

definition SeedTrace :: "trace_line list \<Rightarrow> stub_observer \<Rightarrow> stub_observer" where
  "SeedTrace ls s = s\<lparr>so_traces := so_traces s @ ls\<rparr>"

definition SeedHealth :: "health_report \<Rightarrow> stub_observer \<Rightarrow> stub_observer" where
  "SeedHealth h s = s\<lparr>so_health := h\<rparr>"

subsection \<open>Scoring\<close>

record scorecard_rule =
  sr_On :: string
  sr_Weight :: int
  sr_Condition :: string

record scorecard =
  sc_Name :: string
  sc_Threshold :: int
  sc_DefaultWeight :: int
  sc_UnknownEventWeight :: int
  sc_Rules :: "scorecard_rule list"

datatype scorecard_error = ErrScorecardParse string | ErrScorecardName

definition ParseScorecard :: "(string \<Rightarrow> string + scorecard) \<Rightarrow> string \<Rightarrow> scorecard_error + scorecard" where
  "ParseScorecard unmarshal data =
     (case unmarshal data of
        Inl err \<Rightarrow> Inl (ErrScorecardParse err)
      | Inr sc \<Rightarrow> if sc_Name sc = [] then Inl ErrScorecardName else Inr sc)"

definition ruleIndex :: "scorecard \<Rightarrow> (string, scorecard_rule) gomap" where
  "ruleIndex sc = foldl (\<lambda>idx r. mset_at idx (sr_On r) r) [] (sc_Rules sc)"

record scored_event =
  sv_Timestamp :: gotime
  sv_Kind :: string
  sv_Source :: string
  sv_Weight :: int
  sv_Rule :: string

record referee =
  rf_scorecard :: scorecard
  rf_ruleIdx :: "(string, scorecard_rule) gomap"
  rf_score :: int
  rf_events :: "scored_event list"

record bucket_stats =
  bk_Count :: nat
  bk_TotalWeight :: int

record referee_result =
  rr_Name :: string
  rr_Pass :: bool
  rr_Score :: int
  rr_Threshold :: int
  rr_Events :: "scored_event list"
  rr_Buckets :: "(string, bucket_stats) gomap"

definition new_referee :: "scorecard \<Rightarrow> referee" where
  "new_referee sc = \<lparr>rf_scorecard = sc, rf_ruleIdx = ruleIndex sc, rf_score = 0, rf_events = []\<rparr>"

definition event_weight :: "referee \<Rightarrow> string \<Rightarrow> int \<times> string" where
  "event_weight r kind =
     (case map_of (rf_ruleIdx r) kind of
        Some sr \<Rightarrow> (sr_Weight sr, ''matched'')
      | None \<Rightarrow>
          if sc_DefaultWeight (rf_scorecard r) \<noteq> 0 then (sc_DefaultWeight (rf_scorecard r), ''default'')
          else (sc_UnknownEventWeight (rf_scorecard r), ''unknown''))"

definition scoreEvent :: "referee \<Rightarrow> obs_event \<Rightarrow> referee" where
  "scoreEvent r e =
     (case event_weight r (ob_Kind e) of (weight, rule) \<Rightarrow>
        r\<lparr>rf_score := rf_score r + weight,
          rf_events := rf_events r @ [\<lparr>sv_Timestamp = ob_Timestamp e, sv_Kind = ob_Kind e, sv_Source = ob_Source e, sv_Weight = weight, sv_Rule = rule\<rparr>]\<rparr>)"

definition referee_score :: "referee \<Rightarrow> int" where "referee_score r = rf_score r"

definition add_bucket :: "(string, bucket_stats) gomap \<Rightarrow> scored_event \<Rightarrow> (string, bucket_stats) gomap" where
  "add_bucket buckets e =
     (let b = mget \<lparr>bk_Count = 0, bk_TotalWeight = 0\<rparr> buckets (sv_Kind e)
      in mset_at buckets (sv_Kind e) \<lparr>bk_Count = bk_Count b + 1, bk_TotalWeight = bk_TotalWeight b + sv_Weight e\<rparr>)"

definition referee_Result :: "referee \<Rightarrow> referee_result" where
  "referee_Result r = \<lparr>rr_Name = sc_Name (rf_scorecard r), rr_Pass = (rf_score r \<ge> sc_Threshold (rf_scorecard r)), rr_Score = rf_score r,
     rr_Threshold = sc_Threshold (rf_scorecard r), rr_Events = rf_events r, rr_Buckets = foldl add_bucket [] (rf_events r)\<rparr>"

definition referee_Reset :: "referee \<Rightarrow> referee" where
  "referee_Reset r = r\<lparr>rf_score := 0, rf_events := []\<rparr>"

definition workspace_event :: "gotime \<Rightarrow> bool \<Rightarrow> obs_event" where
  "workspace_event now pass = \<lparr>ob_TraceID = [], ob_Timestamp = now, ob_Source = ''referee'',
     ob_Kind = (if pass then ''workspace.check.pass'' else ''workspace.check.fail''), ob_Data = None\<rparr>"

subsection \<open>Checkpoints\<close>

record checkpoint =
  cp_Index :: int
  cp_Name :: string
  cp_Timestamp :: gotime

record space_manager =
  sm_checkpoints :: "checkpoint list"
  sm_current :: int

datatype undo_error = ErrInvalidIndex int nat | ErrSpaceReset string

definition NewSpaceManager :: space_manager where
  "NewSpaceManager = \<lparr>sm_checkpoints = [], sm_current = - 1\<rparr>"

definition take_checkpoint :: "gotime \<Rightarrow> nat \<Rightarrow> string \<Rightarrow> space_manager \<Rightarrow> space_manager \<times> int" where
  "take_checkpoint now len name m =
     (m\<lparr>sm_checkpoints := sm_checkpoints m @ [\<lparr>cp_Index = int len, cp_Name = name, cp_Timestamp = now\<rparr>], sm_current := int len\<rparr>, int len)"

definition undo_rollback :: "nat \<Rightarrow> (int \<Rightarrow> 'e list) \<Rightarrow> ('w \<Rightarrow> 'w \<times> string option) \<Rightarrow> int \<Rightarrow> space_manager \<Rightarrow> 'w
    \<Rightarrow> space_manager \<times> 'w \<times> (undo_error + 'e list)" where
  "undo_rollback len since reset index m space =
     (if index < 0 \<or> index > int len then (m, space, Inl (ErrInvalidIndex index len))
      else let undone = since index
        in if length undone = 0 then (m, space, Inr [])
           else (case reset space of
                   (space', Some err) \<Rightarrow> (m, space', Inl (ErrSpaceReset err))
                 | (space', None) \<Rightarrow> (m\<lparr>sm_current := index\<rparr>, space', Inr undone)))"

definition undo_current :: "space_manager \<Rightarrow> int" where "undo_current m = sm_current m"
definition undo_checkpoints :: "space_manager \<Rightarrow> checkpoint list" where "undo_checkpoints m = sm_checkpoints m"

record 'e stub_manager =
  um_checkpoints :: "checkpoint list"
  um_current :: int
  um_RollbackEvents :: "'e list option"
  um_RollbackError :: "string option"
  um_CheckpointCalls :: "string list"
  um_RollbackCalls :: "int list"

definition NewStubManager :: "'e stub_manager" where
  "NewStubManager = \<lparr>um_checkpoints = [], um_current = - 1, um_RollbackEvents = None, um_RollbackError = None, um_CheckpointCalls = [], um_RollbackCalls = []\<rparr>"

definition stub_checkpoint :: "nat \<Rightarrow> string \<Rightarrow> 'e stub_manager \<Rightarrow> 'e stub_manager \<times> int" where
  "stub_checkpoint len name s =
     (s\<lparr>um_checkpoints := um_checkpoints s @ [\<lparr>cp_Index = int len, cp_Name = name, cp_Timestamp = zero_time\<rparr>],
        um_current := int len, um_CheckpointCalls := um_CheckpointCalls s @ [name]\<rparr>, int len)"

definition stub_rollback :: "(int \<Rightarrow> 'e list) \<Rightarrow> int \<Rightarrow> 'e stub_manager \<Rightarrow> 'e stub_manager \<times> (string + 'e list)" where
  "stub_rollback since index s =
     (let s1 = s\<lparr>um_RollbackCalls := um_RollbackCalls s @ [index]\<rparr>
      in case um_RollbackError s of
           Some err \<Rightarrow> (s1, Inl err)
         | None \<Rightarrow> (s1\<lparr>um_current := index\<rparr>, Inr (case um_RollbackEvents s of Some es \<Rightarrow> es | None \<Rightarrow> since index)))"

subsection \<open>The observer and its stub\<close>

lemma trace_line_of_sel [simp]:
  "tl_Kind (trace_line_of e) = ob_Kind e" "tl_Source (trace_line_of e) = ob_Source e" "tl_TraceID (trace_line_of e) = ob_TraceID e"
  by (simp_all add: trace_line_of_def Let_def split: option.split)

text \<open>The test of an option that is empty when it asks for nothing.\<close>

definition opt_eq :: "string \<Rightarrow> string \<Rightarrow> bool" where "opt_eq wanted s = (wanted = [] \<or> s = wanted)"

lemma trace_lines_filter:
  "trace_lines opts es = map trace_line_of (filter (\<lambda>e. opt_eq (to_Kind opts) (ob_Kind e) \<and> opt_eq (to_Source opts) (ob_Source e)
     \<and> opt_eq (to_TraceID opts) (ob_TraceID e)) es)"
  by (induction es) (auto simp: opt_eq_def)

lemma stub_filters:
  "(let r1 = (if a \<noteq> [] then filter (\<lambda>t. f t = a) ts else ts); r2 = (if b \<noteq> [] then filter (\<lambda>t. g t = b) r1 else r1);
        r3 = (if c \<noteq> [] then filter (\<lambda>t. h t = c) r2 else r2) in r3)
     = filter (\<lambda>t. opt_eq a (f t) \<and> opt_eq b (g t) \<and> opt_eq c (h t)) ts"
  by (auto simp: Let_def opt_eq_def conj_ac)

lemma observer_Trace_last:
  "observer_Trace events opts = last_n (trace_limit opts) (map trace_line_of (filter (\<lambda>e. opt_eq (to_Kind opts) (ob_Kind e)
     \<and> opt_eq (to_Source opts) (ob_Source e) \<and> opt_eq (to_TraceID opts) (ob_TraceID e)) events))"
  by (simp add: observer_Trace_def trace_lines_filter last_n_def Let_def)

lemma stub_Trace_last:
  "snd (stub_Trace opts s) = last_n (trace_limit opts) (filter (\<lambda>t. opt_eq (to_Kind opts) (tl_Kind t)
     \<and> opt_eq (to_Source opts) (tl_Source t) \<and> opt_eq (to_TraceID opts) (tl_TraceID t)) (so_traces s))"
  using stub_filters [where a = "to_Kind opts" and b = "to_Source opts" and c = "to_TraceID opts" and f = tl_Kind and g = tl_Source
      and h = tl_TraceID and ts = "so_traces s"]
  by (auto simp: stub_Trace_def Let_def last_n_def)

subsection \<open>What is alive and what is stuck\<close>

lemma see_sources_wf: "wf_map m \<Longrightarrow> wf_map (foldl see_source m es)"
  by (induction es arbitrary: m) (auto simp: see_source_def)

lemma Max_insert_later: "finite S \<Longrightarrow> Max (insert (if b > a then b else a) S) = Max (insert a (insert b S))" for a b :: int
  by (cases "S = {}") (auto simp: max_def)

lemma see_sources_lookup:
  "mget 0 (foldl see_source m es) s = (if s = [] then mget 0 m s else Max (insert (mget 0 m s) (ob_Timestamp ` set (filter (\<lambda>e. ob_Source e = s) es))))"
proof (induction es arbitrary: m)
  case (Cons e es)
  show ?case using Cons [of "see_source m e"] Max_insert_later [where S = "ob_Timestamp ` {x \<in> set es. ob_Source x = s}" and b = "ob_Timestamp e" and a = "mget 0 m s"]
    by (auto simp: see_source_def)
qed simp

lemma report_sources:
  "hr_StuckAgents (foldl (report_source now t) r ls) = hr_StuckAgents r @ map fst (filter (\<lambda>p. now - snd p > t) ls) \<and>
   hr_LastActivity (foldl (report_source now t) r ls) = Max (insert (hr_LastActivity r) (snd ` set ls)) \<and>
   hr_AgentsAlive (foldl (report_source now t) r ls) = hr_AgentsAlive r \<and> hr_Errors (foldl (report_source now t) r ls) = hr_Errors r"
proof (induction ls arbitrary: r)
  case (Cons p ls)
  obtain s ts where p: "p = (s, ts)" by force
  show ?case using Cons [of "report_source now t r p"] Max_insert_later [where S = "snd ` set ls" and b = ts and a = "hr_LastActivity r"]
    by (auto simp: p report_source_def Let_def)
qed simp

subsection \<open>The balance of a score\<close>

definition referee_ok :: "referee \<Rightarrow> bool" where
  "referee_ok r = (rf_ruleIdx r = ruleIndex (rf_scorecard r) \<and> rf_score r = sum_list (map sv_Weight (rf_events r)) \<and>
     (\<forall>e \<in> set (rf_events r). (sv_Weight e, sv_Rule e) = event_weight r (sv_Kind e)))"

lemma event_weight_frame: "rf_ruleIdx r = rf_ruleIdx r' \<Longrightarrow> rf_scorecard r = rf_scorecard r' \<Longrightarrow> event_weight r = event_weight r'"
  by (simp add: event_weight_def fun_eq_iff split: option.split)

lemma scoreEvent_ok: "referee_ok r \<Longrightarrow> referee_ok (scoreEvent r e)"
  using event_weight_frame [of "scoreEvent r e" r]
  by (auto simp: referee_ok_def scoreEvent_def split: prod.splits)

lemma referee_runs_ok: "referee_ok r \<Longrightarrow> referee_ok (foldl scoreEvent r es)"
  by (induction es arbitrary: r) (simp_all add: scoreEvent_ok)

lemma ruleIndex_lookup: "map_of (ruleIndex sc) k = List.find (\<lambda>r. sr_On r = k) (rev (sc_Rules sc))"
proof -
  have "map_of (foldl (\<lambda>idx r. mset_at idx (sr_On r) r) m rs) k =
      (case List.find (\<lambda>r. sr_On r = k) (rev rs) of Some r \<Rightarrow> Some r | None \<Rightarrow> map_of m k)" for m rs
    by (induction rs rule: rev_induct) (auto simp: find_None_iff split: option.splits)
  from this [of "[]" "sc_Rules sc"] show ?thesis by (simp add: ruleIndex_def split: option.splits)
qed

lemma buckets_wf: "wf_map m \<Longrightarrow> wf_map (foldl add_bucket m es)"
  by (induction es arbitrary: m) (simp_all add: add_bucket_def Let_def)

lemma no_such_kind: "k \<notin> sv_Kind ` set es \<Longrightarrow> filter (\<lambda>e. sv_Kind e = k) es = []"
  by (auto simp: filter_empty_conv)

lemma buckets_lookup:
  "map_of (foldl add_bucket [] es) k =
     (if k \<in> sv_Kind ` set es
      then Some \<lparr>bk_Count = length (filter (\<lambda>e. sv_Kind e = k) es), bk_TotalWeight = sum_list (map sv_Weight (filter (\<lambda>e. sv_Kind e = k) es))\<rparr>
      else None)"
proof (induction es arbitrary: k rule: rev_induct)
  case (snoc e es)
  then show ?case by (auto simp: add_bucket_def mget_def Let_def no_such_kind)
qed simp

lemma bucket_update_sum:
  "sum_list (map bk_TotalWeight (vals (mset_at m k v))) + bk_TotalWeight (mget \<lparr>bk_Count = 0, bk_TotalWeight = 0\<rparr> m k) =
     sum_list (map bk_TotalWeight (vals m)) + bk_TotalWeight (v :: bucket_stats)"
  by (induction m) (auto simp: mget_def)

lemma add_bucket_sum: "sum_list (map bk_TotalWeight (vals (add_bucket m e))) = sum_list (map bk_TotalWeight (vals m)) + sv_Weight e"
proof -
  let ?b = "mget \<lparr>bk_Count = 0, bk_TotalWeight = 0\<rparr> m (sv_Kind e)"
  show ?thesis
    using bucket_update_sum [where m = m and k = "sv_Kind e" and v = "\<lparr>bk_Count = bk_Count ?b + 1, bk_TotalWeight = bk_TotalWeight ?b + sv_Weight e\<rparr>"]
    by (simp only: add_bucket_def Let_def bucket_stats.select_convs)
qed

lemma buckets_sum: "sum_list (map bk_TotalWeight (vals (foldl add_bucket [] es))) = sum_list (map sv_Weight es)"
proof (induction es rule: rev_induct)
  case (snoc e es)
  then show ?case using add_bucket_sum [of "foldl add_bucket [] es" e] by (simp only: foldl_append foldl.simps map_append sum_list_append list.map sum_list_simps)
qed simp

subsection \<open>Rolling back\<close>

lemma rollback_indifferent:
  assumes "since i \<noteq> []" "since j \<noteq> []" "0 \<le> i" "i \<le> int len" "0 \<le> j" "j \<le> int len" "reset space = (space', None)"
  shows "fst (snd (undo_rollback len since reset i m space)) = fst (snd (undo_rollback len since reset j m space))"
    and "sm_checkpoints (fst (undo_rollback len since reset i m space)) = sm_checkpoints m"
    and "snd (snd (undo_rollback len since reset i m space)) = Inr (since i)"
  using assms by (simp_all add: undo_rollback_def)

end
