(* ===== verification/Sandbox_Rooms.thy ===== *)
theory Sandbox_Rooms
  imports Artifact_Template Go_Strings
begin

text \<open>
  Where agents work (\<^verbatim>\<open>sandbox/\<close>): the policy of \<^verbatim>\<open>sandbox.json\<close>, the registry of backends, the
  backend over Mirage spaces, the translation of paths, and the workstations with their manager;
  the forum and the assignments the tests use (\<^verbatim>\<open>discourse/\<close>, \<^verbatim>\<open>assignment/\<close>); the errors of
  providers (\<^verbatim>\<open>driver/errors.go\<close>). The codecs of JSON, the spaces and the commands that run in
  them are arguments.
\<close>

subsection \<open>The policy\<close>

record sandbox_policy =
  po_AllowedCommands :: "string list"
  po_DeniedPaths :: "string list"
  po_AllowNetwork :: bool

datatype sandbox_policy_error = ErrPolicyNotFound | ErrPolicyRead string | ErrPolicyParse string

text \<open>What reading the file gave: it is missing, it failed otherwise, or its bytes.\<close>

datatype file_read = FileMissing | ReadFailed string | FileBytes string

definition LoadPolicy :: "file_read \<Rightarrow> (string \<Rightarrow> string + sandbox_policy) \<Rightarrow> sandbox_policy_error + sandbox_policy" where
  "LoadPolicy r unmarshal =
     (case r of
        FileMissing \<Rightarrow> Inl ErrPolicyNotFound
      | ReadFailed err \<Rightarrow> Inl (ErrPolicyRead err)
      | FileBytes data \<Rightarrow> (case unmarshal data of Inl err \<Rightarrow> Inl (ErrPolicyParse err) | Inr p \<Rightarrow> Inr p))"

fun any_prefix :: "string \<Rightarrow> string list \<Rightarrow> bool" where
  "any_prefix s [] = False"
| "any_prefix s (p # ps) = (if has_prefix s p then True else any_prefix s ps)"

definition AllowCommand :: "sandbox_policy \<Rightarrow> string \<Rightarrow> bool" where
  "AllowCommand p cmd = (if length (po_AllowedCommands p) = 0 then True else any_prefix cmd (po_AllowedCommands p))"

definition AllowPath :: "sandbox_policy \<Rightarrow> string \<Rightarrow> bool" where
  "AllowPath p path = (\<not> any_prefix path (po_DeniedPaths p))"

subsection \<open>Backends\<close>

definition register_backend :: "string \<Rightarrow> 'b \<Rightarrow> (string, 'b) gomap \<Rightarrow> (string, 'b) gomap" where
  "register_backend name factory backends = mset_at backends name factory"

datatype 'e backend_error = ErrBackendNotFound string "string list" | ErrBackendFailed 'e

definition available_backends :: "(string, 'b) gomap \<Rightarrow> string list" where
  "available_backends backends = map fst backends"

definition get_backend :: "string \<Rightarrow> (string, unit \<Rightarrow> 'e + 's) gomap \<Rightarrow> 'e backend_error + 's" where
  "get_backend name backends =
     (case map_of backends name of
        None \<Rightarrow> Inl (ErrBackendNotFound name (available_backends backends))
      | Some factory \<Rightarrow> (case factory () of Inl e \<Rightarrow> Inl (ErrBackendFailed e) | Inr s \<Rightarrow> Inr s))"

subsection \<open>The Mirage backend\<close>

record 's mirage_sandbox =
  mi_spaces :: "(string, 's) gomap"
  mi_nextID :: nat

record exec_result =
  er_ExitCode :: int
  er_Stdout :: string
  er_Stderr :: string

datatype mirage_error = ErrNoRepos | ErrCreateSpace string | ErrUnknownHandle string | ErrEmptyCommand | ErrDestroySpace string

definition NewMirageSandbox :: "'s mirage_sandbox" where "NewMirageSandbox = \<lparr>mi_spaces = [], mi_nextID = 0\<rparr>"

definition mirage_Create :: "(string \<Rightarrow> string + 's) \<Rightarrow> string list \<Rightarrow> 's mirage_sandbox \<Rightarrow> 's mirage_sandbox \<times> (mirage_error + string)" where
  "mirage_Create create repos m =
     (if length repos = 0 then (m, Inl ErrNoRepos)
      else (case create (repos ! 0) of
              Inl err \<Rightarrow> (m, Inl (ErrCreateSpace err))
            | Inr space \<Rightarrow>
                let n = mi_nextID m + 1; handle = ''mirage-'' @ nat_dec n
                in (m\<lparr>mi_nextID := n, mi_spaces := mset_at (mi_spaces m) handle space\<rparr>, Inr handle)))"

definition mirage_Destroy :: "('s \<Rightarrow> string option) \<Rightarrow> string \<Rightarrow> 's mirage_sandbox \<Rightarrow> 's mirage_sandbox \<times> mirage_error option" where
  "mirage_Destroy destroy handle m =
     (case map_of (mi_spaces m) handle of
        None \<Rightarrow> (m, Some (ErrUnknownHandle handle))
      | Some space \<Rightarrow> (m\<lparr>mi_spaces := mdelete (mi_spaces m) handle\<rparr>, map_option ErrDestroySpace (destroy space)))"

text \<open>A command ends well, with an exit code, or fails before it runs; with what it printed.\<close>

datatype run_error = RunOk | RunExit int | RunFailed string

definition extractExitCode :: "run_error \<Rightarrow> int" where
  "extractExitCode err =
     (case err of RunOk \<Rightarrow> 0 | RunExit code \<Rightarrow> if code > 0 \<and> code < 256 then code else 1 | RunFailed _ \<Rightarrow> 0)"

text \<open>The text of an error that is not an exit code.\<close>

definition run_text :: "run_error \<Rightarrow> string" where
  "run_text err = (case err of RunFailed s \<Rightarrow> s | _ \<Rightarrow> [])"

definition mirage_Exec :: "('s \<Rightarrow> string list \<Rightarrow> int \<Rightarrow> run_error \<times> string \<times> string) \<Rightarrow> string \<Rightarrow> string list \<Rightarrow> int \<Rightarrow> 's mirage_sandbox
    \<Rightarrow> exec_result \<times> mirage_error option" where
  "mirage_Exec run handle cmd timeout m =
     (case map_of (mi_spaces m) handle of
        None \<Rightarrow> (\<lparr>er_ExitCode = 1, er_Stdout = [], er_Stderr = []\<rparr>, Some (ErrUnknownHandle handle))
      | Some space \<Rightarrow>
          if length cmd = 0 then (\<lparr>er_ExitCode = 1, er_Stdout = [], er_Stderr = []\<rparr>, Some ErrEmptyCommand)
          else (case run space cmd timeout of (err, out, errs) \<Rightarrow>
            let exitCode = extractExitCode err
            in if err \<noteq> RunOk \<and> exitCode = 0 then (\<lparr>er_ExitCode = 1, er_Stdout = [], er_Stderr = run_text err\<rparr>, None)
               else (\<lparr>er_ExitCode = exitCode, er_Stdout = out, er_Stderr = errs\<rparr>, None)))"

definition mirage_Space :: "string \<Rightarrow> 's mirage_sandbox \<Rightarrow> 's option" where
  "mirage_Space handle m = map_of (mi_spaces m) handle"

subsection \<open>Paths inside the jail\<close>

text \<open>A parsed input maps keys to strings or to other values.\<close>

definition translate_key :: "string \<Rightarrow> string \<Rightarrow> (string, string + 'j) gomap \<times> bool \<Rightarrow> string \<Rightarrow> (string, string + 'j) gomap \<times> bool" where
  "translate_key hostWorkDir jailMount pc key =
     (case pc of (params, changed) \<Rightarrow>
        (case map_of params key of
           Some (Inl v) \<Rightarrow>
             if has_prefix v hostWorkDir then (mset_at params key (Inl (jailMount @ trim_prefix v hostWorkDir)), True) else (params, changed)
         | _ \<Rightarrow> (params, changed)))"

definition TranslatePath :: "(string \<Rightarrow> (string, string + 'j) gomap option) \<Rightarrow> ((string, string + 'j) gomap \<Rightarrow> string option)
    \<Rightarrow> string \<Rightarrow> string \<Rightarrow> string \<Rightarrow> string" where
  "TranslatePath unmarshal marshal inp hostWorkDir jailMount =
     (if length inp = 0 \<or> hostWorkDir = [] \<or> jailMount = [] then inp
      else (case unmarshal inp of
              None \<Rightarrow> inp
            | Some params \<Rightarrow>
                (case foldl (translate_key hostWorkDir jailMount) (params, False) [''file_path'', ''path''] of (params', changed) \<Rightarrow>
                   if \<not> changed then inp else (case marshal params' of None \<Rightarrow> inp | Some out \<Rightarrow> out))))"

subsection \<open>Workstations\<close>

record workstation =
  ws_ID :: string
  ws_TaskID :: string
  ws_Agent :: string
  ws_Created :: gotime

datatype ws_error = ErrWorkstationOccupied string | ErrWorkstationNotFound string

definition NewWorkstation :: "gotime \<Rightarrow> string \<Rightarrow> string \<Rightarrow> workstation" where
  "NewWorkstation now i taskID = \<lparr>ws_ID = i, ws_TaskID = taskID, ws_Agent = [], ws_Created = now\<rparr>"

definition IsVacant :: "workstation \<Rightarrow> bool" where "IsVacant w = (ws_Agent w = [])"

definition ws_Attach :: "string \<Rightarrow> workstation \<Rightarrow> workstation \<times> ws_error option" where
  "ws_Attach agentID w =
     (if ws_Agent w \<noteq> [] then (w, Some (ErrWorkstationOccupied (ws_Agent w))) else (w\<lparr>ws_Agent := agentID\<rparr>, None))"

definition ws_Detach :: "workstation \<Rightarrow> workstation \<times> string" where
  "ws_Detach w = (w\<lparr>ws_Agent := []\<rparr>, ws_Agent w)"

text \<open>
  The manager maps names to pointers, which are the positions of the workstations made so far: a
  workstation lives on for those who hold its pointer when it is released.
\<close>

record ws_manager =
  wm_workstations :: "(string, nat) gomap"
  wm_heap :: "workstation list"
  wm_counter :: nat

definition NewWorkstationManager :: ws_manager where
  "NewWorkstationManager = \<lparr>wm_workstations = [], wm_heap = [], wm_counter = 0\<rparr>"

definition wm_Create :: "gotime \<Rightarrow> string \<Rightarrow> ws_manager \<Rightarrow> ws_manager \<times> nat" where
  "wm_Create now taskID m =
     (let n = wm_counter m + 1; i = ''WS-'' @ zero_pad 3 (int n); p = length (wm_heap m)
      in (\<lparr>wm_workstations = mset_at (wm_workstations m) i p, wm_heap = wm_heap m @ [NewWorkstation now i taskID], wm_counter = n\<rparr>, p))"

definition wm_Get :: "string \<Rightarrow> ws_manager \<Rightarrow> nat option" where "wm_Get i m = map_of (wm_workstations m) i"

definition wm_Release :: "string \<Rightarrow> ws_manager \<Rightarrow> ws_manager" where
  "wm_Release i m = (if map_of (wm_workstations m) i \<noteq> None then m\<lparr>wm_workstations := mdelete (wm_workstations m) i\<rparr> else m)"

definition wm_List :: "ws_manager \<Rightarrow> nat list" where "wm_List m = vals (wm_workstations m)"

text \<open>Assigning looks the workstation up and then attaches to it, in two critical sections.\<close>

definition assign_lookup :: "string \<Rightarrow> ws_manager \<Rightarrow> ws_error + nat" where
  "assign_lookup i m = (case map_of (wm_workstations m) i of None \<Rightarrow> Inl (ErrWorkstationNotFound i) | Some p \<Rightarrow> Inr p)"

definition attach_at :: "nat \<Rightarrow> string \<Rightarrow> ws_manager \<Rightarrow> ws_manager \<times> ws_error option" where
  "attach_at p agentID m = (case ws_Attach agentID (wm_heap m ! p) of (w, e) \<Rightarrow> (m\<lparr>wm_heap := (wm_heap m)[p := w]\<rparr>, e))"

definition detach_at :: "nat \<Rightarrow> ws_manager \<Rightarrow> ws_manager \<times> string" where
  "detach_at p m = (case ws_Detach (wm_heap m ! p) of (w, former) \<Rightarrow> (m\<lparr>wm_heap := (wm_heap m)[p := w]\<rparr>, former))"

definition wm_Assign :: "string \<Rightarrow> string \<Rightarrow> ws_manager \<Rightarrow> ws_manager \<times> ws_error option" where
  "wm_Assign i agentID m =
     (case assign_lookup i m of Inl e \<Rightarrow> (m, Some e) | Inr p \<Rightarrow> attach_at p agentID m)"

text \<open>What the callers do, one critical section at a time, whoever they are.\<close>

datatype ws_event =
  WCreated nat
| WReleased string
| WAttached nat string
| WRefused nat string
| WDetached nat string

inductive ws_step :: "ws_manager \<Rightarrow> ws_event \<Rightarrow> ws_manager \<Rightarrow> bool" where
  step_create: "wm_Create now task m = (m', p) \<Longrightarrow> ws_step m (WCreated p) m'"
| step_release: "ws_step m (WReleased i) (wm_Release i m)"
| step_attach: "p < length (wm_heap m) \<Longrightarrow> attach_at p a m = (m', None) \<Longrightarrow> ws_step m (WAttached p a) m'"
| step_refuse: "p < length (wm_heap m) \<Longrightarrow> attach_at p a m = (m', Some e) \<Longrightarrow> ws_step m (WRefused p a) m'"
| step_detach: "p < length (wm_heap m) \<Longrightarrow> detach_at p m = (m', f) \<Longrightarrow> ws_step m (WDetached p f) m'"

inductive ws_run :: "ws_event list \<Rightarrow> ws_manager \<Rightarrow> bool" where
  run_start: "ws_run [] NewWorkstationManager"
| run_step: "ws_run es m \<Longrightarrow> ws_step m e m' \<Longrightarrow> ws_run (es @ [e]) m'"

subsection \<open>The stubs of forum and assignments\<close>

record fmsg =
  fm_From :: string
  fm_Content :: string
  fm_Time :: gotime

record fthread =
  ft_ID :: string
  ft_Topic :: string
  ft_Messages :: "fmsg list"

record stub_forum =
  sf_threads :: "(string, fthread) gomap"
  sf_topics :: "(string, string list) gomap"
  sf_nextID :: nat

definition NewStubForum :: stub_forum where "NewStubForum = \<lparr>sf_threads = [], sf_topics = [], sf_nextID = 0\<rparr>"

definition stamp_msg :: "gotime \<Rightarrow> fmsg \<Rightarrow> fmsg" where
  "stamp_msg now msg = (if fm_Time msg = zero_time then msg\<lparr>fm_Time := now\<rparr> else msg)"

definition forum_Post :: "gotime \<Rightarrow> string \<Rightarrow> fmsg \<Rightarrow> stub_forum \<Rightarrow> stub_forum \<times> string" where
  "forum_Post now topic msg f =
     (let n = sf_nextID f + 1; i = ''thread-'' @ nat_dec n
      in (\<lparr>sf_threads = mset_at (sf_threads f) i \<lparr>ft_ID = i, ft_Topic = topic, ft_Messages = [stamp_msg now msg]\<rparr>,
           sf_topics = mset_at (sf_topics f) topic (mget [] (sf_topics f) topic @ [i]), sf_nextID = n\<rparr>, i))"

definition forum_Reply :: "gotime \<Rightarrow> string \<Rightarrow> fmsg \<Rightarrow> stub_forum \<Rightarrow> stub_forum \<times> string option" where
  "forum_Reply now i msg f =
     (case map_of (sf_threads f) i of
        None \<Rightarrow> (f, Some (''discourse: thread not found: '' @ i))
      | Some t \<Rightarrow> (f\<lparr>sf_threads := mset_at (sf_threads f) i (t\<lparr>ft_Messages := ft_Messages t @ [stamp_msg now msg]\<rparr>)\<rparr>, None))"

definition forum_Threads :: "string \<Rightarrow> stub_forum \<Rightarrow> fthread list" where
  "forum_Threads topic f = List.map_filter (map_of (sf_threads f)) (mget [] (sf_topics f) topic)"

definition ThreadCount :: "stub_forum \<Rightarrow> nat" where "ThreadCount f = length (sf_threads f)"

definition Assigned :: string where "Assigned = ''assigned''"
definition InProgress :: string where "InProgress = ''in_progress''"
definition AssignDone :: string where "AssignDone = ''done''"
definition AssignFailed :: string where "AssignFailed = ''failed''"

record agent_assignment =
  as_ID :: string
  as_AgentID :: string
  as_Task :: string
  as_Status :: string
  as_Result :: string

record assign_manager =
  am_assignments :: "(string, agent_assignment) gomap"
  am_nextID :: nat

definition NewAssignManager :: assign_manager where "NewAssignManager = \<lparr>am_assignments = [], am_nextID = 0\<rparr>"

text \<open>The name ends in the character numbered from zero, encoded in UTF-8, here up to 79.\<close>

definition assign_task :: "(nat \<Rightarrow> string) \<Rightarrow> string \<Rightarrow> string \<Rightarrow> assign_manager \<Rightarrow> assign_manager \<times> string" where
  "assign_task utf8 agentID task m =
     (let n = am_nextID m + 1; i = agentID @ ''-'' @ utf8 (48 + n)
      in (\<lparr>am_assignments = mset_at (am_assignments m) i \<lparr>as_ID = i, as_AgentID = agentID, as_Task = task, as_Status = Assigned, as_Result = []\<rparr>,
           am_nextID = n\<rparr>, i))"

definition update_assignment :: "string \<Rightarrow> string \<Rightarrow> string \<Rightarrow> assign_manager \<Rightarrow> assign_manager" where
  "update_assignment i st res m =
     (case map_of (am_assignments m) i of
        Some a \<Rightarrow> m\<lparr>am_assignments := mset_at (am_assignments m) i (a\<lparr>as_Status := st, as_Result := res\<rparr>)\<rparr>
      | None \<Rightarrow> m)"

definition list_assignments :: "string \<Rightarrow> assign_manager \<Rightarrow> agent_assignment list" where
  "list_assignments st m = filter (\<lambda>a. as_Status a = st) (vals (am_assignments m))"

subsection \<open>Errors of providers\<close>

record driver_error =
  de_StatusCode :: int
  de_Retryable :: bool
  de_Provider :: string
  de_RequestID :: string
  de_Message :: string

definition driver_error_text :: "driver_error \<Rightarrow> string" where
  "driver_error_text e =
     (let base = de_Provider e @ '': '' @ int_dec (de_StatusCode e) @ '': '' @ de_Message e
      in if de_RequestID e \<noteq> [] then base @ '' (request_id='' @ de_RequestID e @ '')'' else base)"

definition ClassifyRetryable :: "int \<Rightarrow> bool" where
  "ClassifyRetryable statusCode = (if statusCode = 429 then True else if statusCode = 408 then True else if statusCode \<ge> 500 then True else False)"

definition validation_error_text :: "string \<Rightarrow> string \<Rightarrow> string" where
  "validation_error_text fld msg = ''validation: '' @ fld @ '': '' @ msg"

subsection \<open>Tenancy\<close>

text \<open>The tenant of a workstation after what happened, newest event first.\<close>

fun tenant :: "nat \<Rightarrow> ws_event list \<Rightarrow> string" where
  "tenant p [] = []"
| "tenant p (WAttached q a # es) = (if q = p then a else tenant p es)"
| "tenant p (WDetached q f # es) = (if q = p then [] else tenant p es)"
| "tenant p (_ # es) = tenant p es"

text \<open>Whether an event may follow, and so each of a run.\<close>

fun orderly :: "ws_event list \<Rightarrow> bool" where
  "orderly [] = True"
| "orderly (WAttached p a # es) = (tenant p es = [] \<and> orderly es)"
| "orderly (WRefused p a # es) = (tenant p es \<noteq> [] \<and> orderly es)"
| "orderly (WDetached p f # es) = (f = tenant p es \<and> orderly es)"
| "orderly (_ # es) = orderly es"

inductive_cases ws_stepE: "ws_step m e m'"

definition rooms_ok :: "ws_manager \<Rightarrow> ws_event list \<Rightarrow> bool" where
  "rooms_ok m es =
     (wm_counter m = length (wm_heap m) \<and> (\<forall>p < length (wm_heap m). ws_ID (wm_heap m ! p) = ''WS-'' @ zero_pad 3 (int (p + 1))) \<and>
      (\<forall>p < length (wm_heap m). ws_Agent (wm_heap m ! p) = tenant p es) \<and> (\<forall>p \<ge> length (wm_heap m). tenant p es = []) \<and>
      (\<forall>(i, p) \<in> set (wm_workstations m). p < length (wm_heap m) \<and> ws_ID (wm_heap m ! p) = i) \<and> wf_map (wm_workstations m) \<and> orderly es)"

lemma attach_at_simps:
  "fst (attach_at p a m) = m\<lparr>wm_heap := (wm_heap m)[p := (if ws_Agent (wm_heap m ! p) = [] then (wm_heap m ! p)\<lparr>ws_Agent := a\<rparr> else wm_heap m ! p)]\<rparr>"
  "snd (attach_at p a m) = (if ws_Agent (wm_heap m ! p) = [] then None else Some (ErrWorkstationOccupied (ws_Agent (wm_heap m ! p))))"
  by (simp_all add: attach_at_def ws_Attach_def)

lemma detach_at_simps: "detach_at p m = (m\<lparr>wm_heap := (wm_heap m)[p := (wm_heap m ! p)\<lparr>ws_Agent := []\<rparr>]\<rparr>, ws_Agent (wm_heap m ! p))"
  by (simp add: detach_at_def ws_Detach_def)

lemma mset_at_members: "(k', v') \<in> set (mset_at m k v) \<Longrightarrow> (k', v') = (k, v) \<or> (k', v') \<in> set m"
  by (induction m) (auto split: if_splits)

lemma rooms_ok_create: "rooms_ok m es \<Longrightarrow> wm_Create now task m = (m', p) \<Longrightarrow> rooms_ok m' (WCreated p # es)"
  by (fastforce simp: rooms_ok_def wm_Create_def Let_def NewWorkstation_def nth_append less_Suc_eq dest: mset_at_members)

lemma rooms_ok_heap:
  assumes "rooms_ok m es" "p < length (wm_heap m)" "ws_ID w = ws_ID (wm_heap m ! p)" "ws_Agent w = tenant p es'"
    "\<forall>q. q \<noteq> p \<longrightarrow> tenant q es' = tenant q es" "orderly es'"
  shows "rooms_ok (m\<lparr>wm_heap := (wm_heap m)[p := w]\<rparr>) es'"
  using assms by (fastforce simp: rooms_ok_def nth_list_update)

lemma rooms_ok_step: "ws_step m e m' \<Longrightarrow> rooms_ok m es \<Longrightarrow> rooms_ok m' (e # es)"
proof (induction m e m' rule: ws_step.induct)
  case (step_create now task m m' p)
  from step_create.prems step_create.hyps show ?case by (rule rooms_ok_create)
next
  case (step_release m i)
  then show ?case by (auto simp: rooms_ok_def wm_Release_def AList.delete_eq split: if_splits intro: distinct_map_filter)
next
  case (step_attach p m a m')
  then have v: "ws_Agent (wm_heap m ! p) = []" and m': "m' = m\<lparr>wm_heap := (wm_heap m)[p := (wm_heap m ! p)\<lparr>ws_Agent := a\<rparr>]\<rparr>"
    using attach_at_simps [of p a m] by (auto split: if_splits)
  show ?case unfolding m' using step_attach v by (intro rooms_ok_heap [where es = es]) (auto simp: rooms_ok_def)
next
  case (step_refuse p m a m' e)
  then have v: "ws_Agent (wm_heap m ! p) \<noteq> []" and m': "m' = m"
    using attach_at_simps [of p a m] by (auto split: if_splits)
  show ?case unfolding m' using step_refuse v by (auto simp: rooms_ok_def)
next
  case (step_detach p m m' f)
  then have m': "m' = m\<lparr>wm_heap := (wm_heap m)[p := (wm_heap m ! p)\<lparr>ws_Agent := []\<rparr>]\<rparr>" and f: "f = ws_Agent (wm_heap m ! p)"
    by (auto simp: detach_at_simps)
  show ?case unfolding m' using step_detach f by (intro rooms_ok_heap [where es = es]) (auto simp: rooms_ok_def)
qed

lemma rooms_ok_run: "ws_run es m \<Longrightarrow> rooms_ok m (rev es)"
proof (induction rule: ws_run.induct)
  case run_start
  show ?case by (simp add: rooms_ok_def NewWorkstationManager_def)
next
  case (run_step es m e m')
  then show ?case by (simp add: rooms_ok_step)
qed

lemma orderly_split: "orderly (ys @ e # xs) \<Longrightarrow> orderly (e # xs)"
  by (induction ys rule: orderly.induct) auto

text \<open>A prefix does not stop at the end of a directory, so a neighbour is translated too.\<close>

lemma translate_neighbour:
  "translate_key ''/home/u/app'' ''/workspace'' ([(''path'', Inl ''/home/u/apple/x'')], False) ''path'' = ([(''path'', Inl ''/workspacele/x'' :: string + unit)], True)"
  by (simp add: translate_key_def has_prefix_def trim_prefix_def)

end
