(* ===== verification/Support_Properties.thy ===== *)
theory Support_Properties
  imports Hook_Dispatch Watch_Scores Sandbox_Rooms
begin

text \<open>
  What the hooks, the readers of the event log and the workstations guarantee, and what hooks and
  checkpoints do not.
\<close>

subsection \<open>Hooks\<close>

text \<open>Property C29: the gate of the hooks gives the verdict of the first matching hook that denies the call, by
  its shell command or else by its own reason, and allows the call when no hook does; it counts one denial
  for a denied call and none for another, and changes no hook.\<close>

theorem hook_gate_exact:
  "snd (hook_check sh tool inp d) =
     (case List.find (\<lambda>h. hook_denial sh tool inp h \<noteq> None) (ed_preHooks d) of
        None \<Rightarrow> \<lparr>vd_Allowed = True, vd_Reason = []\<rparr>
      | Some h \<Rightarrow> \<lparr>vd_Allowed = False, vd_Reason = the (hook_denial sh tool inp h)\<rparr>)
   \<and> ed_denied (fst (hook_check sh tool inp d)) = ed_denied d + (if vd_Allowed (snd (hook_check sh tool inp d)) then 0 else 1)
   \<and> ed_preHooks (fst (hook_check sh tool inp d)) = ed_preHooks d
   \<and> ed_dispatched (fst (hook_check sh tool inp d)) \<le> ed_dispatched d + length (filter (\<lambda>h. MatchesTool (hk_Match h) tool) (ed_preHooks d))"
  unfolding hook_check_def
  by (intro conjI check_hooks_result check_hooks_dispatched check_hooks_stats [THEN conjunct1] check_hooks_stats [THEN conjunct2, THEN conjunct2])

lemma reload_never_subscribes:
  "ed_subscribed (reload_hooks hooks (new_dispatcher [] hasLog sp)) = False"
  by (simp add: reload_hooks_def new_dispatcher_def index_hooks_def Let_def)

lemma convert_widens: "hm_Tool (hk_Match (legacy_convert n p (i, \<lparr>lh_Command = c, lh_Tools = [''Read'', ''Grep'']\<rparr>))) = ''*''"
  by (simp add: legacy_convert_def legacy_tool_def)

text \<open>The actions a run of the pending ones, one chosen at each step, still leaves.\<close>

fun run_choices :: "gotime \<Rightarrow> dispatcher \<Rightarrow> nat list \<Rightarrow> hook_system \<Rightarrow> hook_system" where
  "run_choices now d [] s = s"
| "run_choices now d (i # is) s = run_choices now d is (run_pending now d i s)"

definition from_hooks :: "dispatcher \<Rightarrow> hook_system \<Rightarrow> bool" where
  "from_hooks d s = (\<forall>p \<in> set (hs_pending s). fst p \<in> set (ed_eventHooks d))"

definition choices_ok :: "nat list \<Rightarrow> nat \<Rightarrow> bool" where
  "choices_ok is n = (length is = n \<and> (\<forall>k < n. is ! k < n - k))"

lemma choices_ok_tl: "choices_ok (i # js) n \<Longrightarrow> choices_ok js (n - 1)"
  unfolding choices_ok_def by (auto dest: spec [of _ "Suc _"])

lemma quiet_step:
  assumes "\<forall>h \<in> set (ed_eventHooks d). \<forall>h' \<in> set (ed_eventHooks d). \<not> wakes d h h'" "from_hooks d s" "i < length (hs_pending s)"
  shows "length (hs_pending (run_pending now d i s)) = length (hs_pending s) - 1 \<and> from_hooks d (run_pending now d i s)"
  using run_pending_quiet [OF assms(1) assms(2) [unfolded from_hooks_def] assms(3), of now] assms
  by (auto simp: from_hooks_def dest: in_set_takeD in_set_dropD)

lemma quiet_run:
  assumes "\<forall>h \<in> set (ed_eventHooks d). \<forall>h' \<in> set (ed_eventHooks d). \<not> wakes d h h'" "from_hooks d s" "choices_ok is (length (hs_pending s))"
  shows "hs_pending (run_choices now d is s) = []"
  using assms(2,3)
proof (induction "is" arbitrary: s)
  case (Cons i js)
  have i: "i < length (hs_pending s)" using Cons.prems(2) by (force simp: choices_ok_def)
  have "choices_ok js (length (hs_pending (run_pending now d i s)))"
    using choices_ok_tl [OF Cons.prems(2)] quiet_step [OF assms(1) Cons.prems(1) i, of now] by simp
  then show ?case using Cons.IH quiet_step [OF assms(1) Cons.prems(1) i, of now] by simp
qed (simp add: choices_ok_def)

lemma feedback_step:
  assumes "h \<in> set (ed_eventHooks d)" "wakes d h h" "ed_subscribed d" "fst ` set (hs_pending s) \<inter> {h} \<noteq> {}" "i < length (hs_pending s)"
  shows "h \<in> fst ` set (hs_pending (run_pending now d i s))"
proof (cases "fst (hs_pending s ! i) = h")
  case True
  obtain e where p: "hs_pending s ! i = (h, e)" using True by (cases "hs_pending s ! i") simp
  let ?e = "hook_event now (ha_Emit (hk_Action h)) (se_TraceID e)"
  have w: "(h, ?e) \<in> set (handleEvent d ?e)" using woken assms(1,2) by blast
  have m: "ha_Emit (hk_Action h) \<noteq> [] \<and> ed_eventLog d" using assms(2) by (simp add: wakes_def)
  have "(h, ?e) \<in> set (hs_pending (run_pending now d i s))"
    using m w p assms(3,5) by (simp add: run_pending_def executeAction_def system_emit_def)
  then show ?thesis by force
next
  case False
  have keep: "set (take i (hs_pending s) @ drop (i + 1) (hs_pending s)) \<subseteq> set (hs_pending (run_pending now d i s))"
    using assms(5) by (auto simp: run_pending_def executeAction_def system_emit_def split: prod.splits)
  obtain p where p: "p \<in> set (hs_pending s)" "fst p = h" using assms(4) by auto
  have "p \<in> set (take i (hs_pending s) @ drop (i + 1) (hs_pending s))"
    using p False id_take_nth_drop [OF assms(5)] by (metis Suc_eq_plus1 Un_iff set_ConsD set_append)
  then show ?thesis using keep p by force
qed

text \<open>Property C30: when no event hook emits an event that matches an event hook, the actions an event started come
  to an end after as many steps as there were, whichever is run first; an event hook that matches the event it emits itself is
  pending for ever once it is.\<close>

theorem hook_feedback:
  "((\<forall>h \<in> set (ed_eventHooks d). \<forall>h' \<in> set (ed_eventHooks d). \<not> wakes d h h') \<and> from_hooks d s \<and> choices_ok is (length (hs_pending s)) \<longrightarrow>
      hs_pending (run_choices now d is s) = [])
   \<and> (h \<in> set (ed_eventHooks d) \<and> wakes d h h \<and> ed_subscribed d \<and> h \<in> fst ` set (hs_pending s) \<and> i < length (hs_pending s) \<longrightarrow>
      h \<in> fst ` set (hs_pending (run_pending now d i s)))"
  using quiet_run feedback_step [where h = h and d = d and s = s and i = i and now = now] by auto

definition ping_hook :: "hook" where
  "ping_hook = \<lparr>hk_Name = ''ping'', hk_On = PhaseEvent, hk_Match = any_match, hk_Action = no_action\<lparr>ha_Emit := ''pong''\<rparr>, hk_Scope = []\<rparr>"

definition ping_event :: sig_event where "ping_event = \<lparr>se_Timestamp = 1, se_TraceID = [], se_Source = ''x'', se_Kind = ''y''\<rparr>"
definition ping_dispatcher :: dispatcher where "ping_dispatcher = new_dispatcher [ping_hook] True False"
definition ping_system :: hook_system where "ping_system = system_emit ping_dispatcher ping_event \<lparr>hs_log = [], hs_pending = [], hs_spawned = []\<rparr>"

lemma hook_feedback_witness:
  "ping_hook \<in> fst ` set (hs_pending (run_pending 2 ping_dispatcher 0 ping_system)) \<and>
   hs_pending (run_choices 2 (new_dispatcher [] True False) [] \<lparr>hs_log = [], hs_pending = [], hs_spawned = []\<rparr>) = []"
proof
  have "ping_hook \<in> set (ed_eventHooks ping_dispatcher) \<and> wakes ping_dispatcher ping_hook ping_hook \<and> ed_subscribed ping_dispatcher \<and>
      ping_hook \<in> fst ` set (hs_pending ping_system) \<and> 0 < length (hs_pending ping_system)"
    by code_simp
  then show "ping_hook \<in> fst ` set (hs_pending (run_pending 2 ping_dispatcher 0 ping_system))"
    using hook_feedback [of ping_dispatcher ping_system "[]" 2 ping_hook 0] by blast
  show "hs_pending (run_choices 2 (new_dispatcher [] True False) [] \<lparr>hs_log = [], hs_pending = [], hs_spawned = []\<rparr>) = []"
    using hook_feedback [of "new_dispatcher [] True False" "\<lparr>hs_log = [], hs_pending = [], hs_spawned = []\<rparr>" "[]"]
    by (simp add: new_dispatcher_def index_hooks_def from_hooks_def choices_ok_def Let_def)
qed

subsection \<open>Workstations\<close>

text \<open>Property C31: in every interleaving of callers a workstation is handed to an agent only while nobody is its tenant and refused
  only while somebody is, who leaves it is its tenant, each keeps the agent that came last and has not left, and
  no two workstations have one name.\<close>

theorem workstation_tenancy:
  assumes "ws_run es m"
  shows "(\<forall>xs p a ys. es = xs @ WAttached p a # ys \<longrightarrow> tenant p (rev xs) = [])
    \<and> (\<forall>xs p a ys. es = xs @ WRefused p a # ys \<longrightarrow> tenant p (rev xs) \<noteq> [])
    \<and> (\<forall>xs p f ys. es = xs @ WDetached p f # ys \<longrightarrow> f = tenant p (rev xs))
    \<and> (\<forall>p < length (wm_heap m). ws_Agent (wm_heap m ! p) = tenant p (rev es))
    \<and> distinct (map ws_ID (wm_heap m))"
proof -
  have ok: "rooms_ok m (rev es)" by (rule rooms_ok_run [OF assms])
  have o: "orderly (e # rev xs)" if "es = xs @ e # ys" for e xs ys
    using ok orderly_split [of "rev ys" e "rev xs"] that by (simp add: rooms_ok_def)
  have d: "distinct (map ws_ID (wm_heap m))"
    using ok by (auto simp: rooms_ok_def distinct_conv_nth zero_pad_inj)
  show ?thesis using o [where e = "WAttached _ _"] o [where e = "WRefused _ _"] o [where e = "WDetached _ _"] ok d
    by (auto simp: rooms_ok_def)
qed

lemma first_room: "wm_Create 7 ''T'' NewWorkstationManager =
    (\<lparr>wm_workstations = [(''WS-001'', 0)], wm_heap = [\<lparr>ws_ID = ''WS-001'', ws_TaskID = ''T'', ws_Agent = [], ws_Created = 7\<rparr>], wm_counter = 1\<rparr>, 0)"
  by code_simp

definition one_room :: "string \<Rightarrow> bool \<Rightarrow> ws_manager" where
  "one_room a managed = \<lparr>wm_workstations = (if managed then [(''WS-001'', 0)] else []),
     wm_heap = [\<lparr>ws_ID = ''WS-001'', ws_TaskID = ''T'', ws_Agent = a, ws_Created = 7\<rparr>], wm_counter = 1\<rparr>"

lemma room_run: "ws_run [WCreated 0] (one_room [] True)"
  using run_step [OF run_start step_create [OF first_room]] by (simp add: one_room_def)

lemma late_room_run: "ws_run [WCreated 0, WReleased ''WS-001'', WAttached 0 ''a''] (one_room ''a'' False)"
proof -
  have r: "wm_Release ''WS-001'' (one_room [] True) = one_room [] False" by code_simp
  have a: "attach_at 0 ''a'' (one_room [] False) = (one_room ''a'' False, None)" by code_simp
  have "0 < length (wm_heap (one_room [] False))" by (simp add: one_room_def)
  from step_attach [OF this a] have "ws_step (one_room [] False) (WAttached 0 ''a'') (one_room ''a'' False)" .
  from run_step [OF run_step [OF room_run step_release [where i = "''WS-001''"], unfolded r] this] show ?thesis by simp
qed

lemma workstation_tenancy_witness: "tenant 0 (rev [WCreated 0, WReleased ''WS-001'']) = []"
  using workstation_tenancy [OF late_room_run, THEN conjunct1, rule_format, of "[WCreated 0, WReleased ''WS-001'']" 0 "''a''" "[]"] by simp

text \<open>A caller that looked a workstation up before it is released attaches to it afterwards.\<close>

lemma assign_after_release:
  "assign_lookup ''WS-001'' (one_room [] True) = Inr 0 \<and> wm_Release ''WS-001'' (one_room [] True) = one_room [] False \<and>
   attach_at 0 ''a'' (one_room [] False) = (one_room ''a'' False, None) \<and> wm_List (one_room ''a'' False) = []"
  by code_simp

subsection \<open>The observer, the referee and the undo manager\<close>

text \<open>The stub answers a query of the trace as the observer does.\<close>

lemma observer_stub_agrees:
  "snd (stub_Trace opts (SeedTrace (map trace_line_of events) (NewStubObserver now))) = observer_Trace events opts"
  by (simp add: stub_Trace_last observer_Trace_last SeedTrace_def NewStubObserver_def filter_map o_def)

lemma observer_health_exact:
  "hr_StuckAgents (observer_Health now t es) = map fst (filter (\<lambda>p. now - snd p > t) (foldl see_source [] es)) \<and>
   hr_LastActivity (observer_Health now t es) = Max (insert 0 (snd ` set (foldl see_source [] es))) \<and>
   hr_Errors (observer_Health now t es) = length (filter obs_error es)"
  using report_sources [where ls = "foldl see_source [] es"] by (simp add: observer_Health_def Let_def)

lemma referee_events: "rr_Events (referee_Result r) = rf_events r"
  and referee_pass: "rr_Pass (referee_Result r) \<longleftrightarrow> sc_Threshold (rf_scorecard r) \<le> rr_Score (referee_Result r)"
  by (simp_all add: referee_Result_def)

lemma first_weight: "fst (event_weight (new_referee sc) kind) = (case List.find (\<lambda>ru. sr_On ru = kind) (rev (sc_Rules sc)) of
    Some ru \<Rightarrow> sr_Weight ru | None \<Rightarrow> if sc_DefaultWeight sc \<noteq> 0 then sc_DefaultWeight sc else sc_UnknownEventWeight sc)"
  by (auto simp: event_weight_def new_referee_def ruleIndex_lookup split: option.split)

text \<open>The score of a referee is the sum of the weights of its events, in the order they came, and of the totals of its
  buckets; the weight of an event is that of the last rule for its kind, else the default weight unless that is zero, else the weight of unknown events;
  a bucket counts the events of its kind; and the run passes just when the score reaches the threshold.\<close>

lemma referee_balance:
  "let r = foldl scoreEvent (new_referee sc) es; res = referee_Result r in
     map sv_Kind (rr_Events res) = map ob_Kind es \<and> rr_Score res = sum_list (map sv_Weight (rr_Events res))
   \<and> rr_Score res = sum_list (map bk_TotalWeight (vals (rr_Buckets res)))
   \<and> map sv_Weight (rr_Events res) = map (\<lambda>e. case List.find (\<lambda>ru. sr_On ru = ob_Kind e) (rev (sc_Rules sc)) of
         Some ru \<Rightarrow> sr_Weight ru
       | None \<Rightarrow> if sc_DefaultWeight sc \<noteq> 0 then sc_DefaultWeight sc else sc_UnknownEventWeight sc) es
   \<and> map_of (rr_Buckets res) k = (if k \<in> ob_Kind ` set es then Some \<lparr>bk_Count = length (filter (\<lambda>e. ob_Kind e = k) es),
         bk_TotalWeight = sum_list (map sv_Weight (filter (\<lambda>e. sv_Kind e = k) (rr_Events res)))\<rparr> else None)
   \<and> (rr_Pass res \<longleftrightarrow> sc_Threshold sc \<le> rr_Score res)"
proof -
  let ?r = "foldl scoreEvent (new_referee sc) es"
  have ok: "referee_ok ?r" by (rule referee_runs_ok) (simp add: referee_ok_def new_referee_def)
  have run: "map sv_Kind (rf_events (foldl scoreEvent r es)) = map sv_Kind (rf_events r) @ map ob_Kind es \<and>
     rf_scorecard (foldl scoreEvent r es) = rf_scorecard r \<and>
     map sv_Weight (rf_events (foldl scoreEvent r es)) = map sv_Weight (rf_events r) @ map (\<lambda>e. fst (event_weight r (ob_Kind e))) es" for r
  proof (induction es arbitrary: r)
    case (Cons e es)
    have "event_weight (scoreEvent r e) = event_weight r" by (rule event_weight_frame) (simp_all add: scoreEvent_def split: prod.split)
    then show ?case using Cons [of "scoreEvent r e"] by (simp add: scoreEvent_def split: prod.split)
  qed simp
  have kinds: "map sv_Kind (rf_events ?r) = map ob_Kind es" and card: "rf_scorecard ?r = sc"
    and ws: "map sv_Weight (rf_events ?r) = map (\<lambda>e. fst (event_weight (new_referee sc) (ob_Kind e))) es"
    using run [of "new_referee sc"] by (simp_all add: new_referee_def)
  have n: "length (filter (\<lambda>e. sv_Kind e = k) (rf_events ?r)) = length (filter (\<lambda>e. ob_Kind e = k) es)"
    using arg_cong [OF kinds, of "\<lambda>xs. length (filter (\<lambda>x. x = k) xs)"] by (simp add: filter_map o_def)
  have s: "sv_Kind ` set (rf_events ?r) = ob_Kind ` set es" using arg_cong [OF kinds, of set] by simp
  have b: "map_of (rr_Buckets (referee_Result ?r)) k = (if k \<in> ob_Kind ` set es then Some \<lparr>bk_Count = length (filter (\<lambda>e. ob_Kind e = k) es),
      bk_TotalWeight = sum_list (map sv_Weight (filter (\<lambda>e. sv_Kind e = k) (rr_Events (referee_Result ?r))))\<rparr> else None)"
    by (simp add: referee_Result_def buckets_lookup n s)
  have t: "rr_Score (referee_Result ?r) = sum_list (map sv_Weight (rr_Events (referee_Result ?r)))"
    using ok by (simp add: referee_Result_def referee_ok_def)
  then have u: "rr_Score (referee_Result ?r) = sum_list (map bk_TotalWeight (vals (rr_Buckets (referee_Result ?r))))"
    unfolding referee_Result_def referee_result.select_convs buckets_sum .
  show ?thesis unfolding Let_def
    using t u b kinds [folded referee_events] ws [folded referee_events, unfolded first_weight] card
    by (intro conjI) (simp_all only: referee_pass)
qed

text \<open>The default weight wins over the weight of unknown events for an event no rule lists.\<close>

lemma default_for_unlisted:
  "event_weight (new_referee \<lparr>sc_Name = ''x'', sc_Threshold = 0, sc_DefaultWeight = 1, sc_UnknownEventWeight = - 5, sc_Rules = []\<rparr>) ''weird'' = (1, ''default'')"
  by code_simp

text \<open>Rolling back resets the whole space whichever checkpoint is named, drops no checkpoint, and reports the same events again.\<close>

lemma rollback_is_reset:
  assumes "since i \<noteq> []" "since j \<noteq> []" "0 \<le> i" "i \<le> int len" "0 \<le> j" "j \<le> int len" "reset sp = (sp', None)" "reset sp' = (sp', None)"
  shows "case undo_rollback len since reset i m sp of (m1, s1, r1) \<Rightarrow> case undo_rollback len since reset j m sp of (m2, s2, r2) \<Rightarrow>
     s1 = s2 \<and> sm_checkpoints m1 = sm_checkpoints m \<and> snd (snd (undo_rollback len since reset i m1 s1)) = r1"
  using assms by (simp add: undo_rollback_def)

end
