(* ===== verification/Tui_Focus.thy ===== *)
theory Tui_Focus
  imports Bounded_Log Go_Strings
begin

text \<open>
  What the operator looks at: the focus over nested panels (\<^verbatim>\<open>tui/core/panel.go\<close>), what the agent is told of it
  (\<^verbatim>\<open>tui/sight.go\<close>, \<^verbatim>\<open>sight_manager.go\<close>, and where the prompt takes it in, \<^verbatim>\<open>repl/model_handlers.go\<close>), and the
  small stores of the terminal: alerts, annotations, key bindings, key routing and the limit on hints
  (\<^verbatim>\<open>tui/alert_queue.go\<close>, \<^verbatim>\<open>annotation.go\<close>, \<^verbatim>\<open>keybind.go\<close>, \<^verbatim>\<open>keypress.go\<close>, \<^verbatim>\<open>handler.go\<close>).

  A panel is the number of its pointer; its ID and its children are functions of it. An index out of range
  panics, which is \<^const>\<open>None\<close>.
\<close>

subsection \<open>The focus manager\<close>

record focus_manager =
  fm_panels :: "nat list"
  fm_active :: int
  fm_stack :: "(nat list \<times> int) list"
  fm_focused :: "nat \<Rightarrow> bool"

definition set_focus :: "nat \<Rightarrow> bool \<Rightarrow> focus_manager \<Rightarrow> focus_manager" where
  "set_focus p b f = f\<lparr>fm_focused := (fm_focused f)(p := b)\<rparr>"

definition panel_at :: "focus_manager \<Rightarrow> nat option" where
  "panel_at f = (if 0 \<le> fm_active f \<and> fm_active f < int (length (fm_panels f)) then Some (fm_panels f ! nat (fm_active f)) else None)"

text \<open>Panels are made without focus.\<close>

definition NewFocusManager :: "nat list \<Rightarrow> focus_manager" where
  "NewFocusManager panels =
     (let f = \<lparr>fm_panels = panels, fm_active = 0, fm_stack = [], fm_focused = (\<lambda>_. False)\<rparr>
      in if length panels > 0 then set_focus (panels ! 0) True f else f)"

definition fm_Active :: "focus_manager \<Rightarrow> nat option" where
  "fm_Active f = (if fm_active f < int (length (fm_panels f)) then panel_at f else None)"

text \<open>Take the focus from the active panel, move, and give it to the panel that is active then.\<close>

definition refocus :: "(focus_manager \<Rightarrow> focus_manager) \<Rightarrow> focus_manager \<Rightarrow> focus_manager option" where
  "refocus move f =
     (case panel_at f of
        None \<Rightarrow> None
      | Some p \<Rightarrow>
          let f' = move (set_focus p False f)
          in (case panel_at f' of None \<Rightarrow> None | Some q \<Rightarrow> Some (set_focus q True f')))"

definition fm_Cycle :: "focus_manager \<Rightarrow> focus_manager option" where
  "fm_Cycle f =
     (if length (fm_panels f) = 0 then Some f
      else refocus (\<lambda>f. f\<lparr>fm_active := (fm_active f + 1) mod int (length (fm_panels f))\<rparr>) f)"

definition fm_FocusUp :: "focus_manager \<Rightarrow> focus_manager option" where
  "fm_FocusUp f =
     (if length (fm_panels f) = 0 then Some f
      else refocus (\<lambda>f. let a = fm_active f - 1 in f\<lparr>fm_active := (if a < 0 then int (length (fm_panels f)) - 1 else a)\<rparr>) f)"

definition fm_FocusPanel :: "int \<Rightarrow> focus_manager \<Rightarrow> focus_manager option" where
  "fm_FocusPanel idx f =
     (if idx < 0 \<or> idx \<ge> int (length (fm_panels f)) then Some f else refocus (\<lambda>f. f\<lparr>fm_active := idx\<rparr>) f)"

fun index_of :: "('a \<Rightarrow> bool) \<Rightarrow> 'a list \<Rightarrow> nat option" where
  "index_of P [] = None"
| "index_of P (x # xs) = (if P x then Some 0 else map_option Suc (index_of P xs))"

definition fm_SetPanels :: "(nat \<Rightarrow> string) \<Rightarrow> nat list \<Rightarrow> focus_manager \<Rightarrow> focus_manager option" where
  "fm_SetPanels pid panels f =
     (case (if fm_active f < int (length (fm_panels f)) then map_option (\<lambda>p. (pid p, set_focus p False f)) (panel_at f) else Some ([], f)) of
        None \<Rightarrow> None
      | Some (currentID, f1) \<Rightarrow>
          let f2 = f1\<lparr>fm_panels := panels, fm_active := (case index_of (\<lambda>p. pid p = currentID) panels of Some i \<Rightarrow> int i | None \<Rightarrow> 0)\<rparr>
          in if length panels > 0 then map_option (\<lambda>p. set_focus p True f2) (panel_at f2) else Some f2)"

definition fm_Dive :: "(nat \<Rightarrow> nat list) \<Rightarrow> focus_manager \<Rightarrow> (focus_manager \<times> bool) option" where
  "fm_Dive kids f =
     (if fm_active f \<ge> int (length (fm_panels f)) then Some (f, False)
      else (case panel_at f of
              None \<Rightarrow> None
            | Some p \<Rightarrow>
                if length (kids p) = 0 then Some (f, False)
                else map_option (\<lambda>f'. (f', True))
                       (refocus (\<lambda>f. f\<lparr>fm_panels := kids p, fm_active := 0\<rparr>) (f\<lparr>fm_stack := fm_stack f @ [(fm_panels f, fm_active f)]\<rparr>))))"

definition fm_Climb :: "focus_manager \<Rightarrow> (focus_manager \<times> bool) option" where
  "fm_Climb f =
     (if length (fm_stack f) = 0 then Some (f, False)
      else map_option (\<lambda>f'. (f', True))
             (refocus (\<lambda>f. case last (fm_stack f) of (panels, active) \<Rightarrow>
                f\<lparr>fm_stack := butlast (fm_stack f), fm_panels := panels, fm_active := active\<rparr>) f))"

definition fm_Count :: "focus_manager \<Rightarrow> nat" where "fm_Count f = length (fm_panels f)"
definition fm_Depth :: "focus_manager \<Rightarrow> nat" where "fm_Depth f = length (fm_stack f)"

datatype focus_op = FCycle | FUp | FPanel int | FSet "nat list" | FDive | FClimb

fun focus_step :: "(nat \<Rightarrow> string) \<Rightarrow> (nat \<Rightarrow> nat list) \<Rightarrow> focus_op \<Rightarrow> focus_manager \<Rightarrow> focus_manager option" where
  "focus_step pid kids FCycle f = fm_Cycle f"
| "focus_step pid kids FUp f = fm_FocusUp f"
| "focus_step pid kids (FPanel i) f = fm_FocusPanel i f"
| "focus_step pid kids (FSet ps) f = fm_SetPanels pid ps f"
| "focus_step pid kids FDive f = map_option fst (fm_Dive kids f)"
| "focus_step pid kids FClimb f = map_option fst (fm_Climb f)"

fun focus_run :: "(nat \<Rightarrow> string) \<Rightarrow> (nat \<Rightarrow> nat list) \<Rightarrow> focus_op list \<Rightarrow> focus_manager \<Rightarrow> focus_manager option" where
  "focus_run pid kids [] f = Some f"
| "focus_run pid kids (x # xs) f = Option.bind (focus_step pid kids x f) (focus_run pid kids xs)"

definition FocusDepths :: "nat \<Rightarrow> int \<Rightarrow> int list" where
  "FocusDepths n focusedIdx = map (\<lambda>i. let d = int i - focusedIdx in if d < 0 then - d else d) [0..<n]"

subsection \<open>What the agent sees\<close>

record sight_field =
  sg_Key :: string
  sg_Value :: string
  sg_Sensitive :: bool

record cell_sight =
  cs_PanelID :: string
  cs_CellID :: string
  cs_CellTitle :: string
  cs_Kind :: string
  cs_Fields :: "sight_field list"

definition sight_empty :: "cell_sight \<Rightarrow> bool" where
  "sight_empty fc = (cs_PanelID fc = [] \<and> cs_CellID fc = [])"

text \<open>\<^verbatim>\<open>%q\<close>: the ASCII characters as \<^verbatim>\<open>strconv.Quote\<close> prints them; bytes of other characters are kept.\<close>

definition hex_digit :: "nat \<Rightarrow> char" where "hex_digit n = char_of (if n < 10 then 48 + n else 87 + n)"

definition quote_byte :: "char \<Rightarrow> string" where
  "quote_byte c =
     (let n = of_char c :: nat
      in if n = 34 then [CHR 0x5C, CHR 0x22] else if n = 92 then [CHR 0x5C, CHR 0x5C]
         else if n = 7 then [CHR 0x5C, CHR ''a''] else if n = 8 then [CHR 0x5C, CHR ''b''] else if n = 12 then [CHR 0x5C, CHR ''f'']
         else if n = 10 then [CHR 0x5C, CHR ''n''] else if n = 13 then [CHR 0x5C, CHR ''r''] else if n = 9 then [CHR 0x5C, CHR ''t'']
         else if n = 11 then [CHR 0x5C, CHR ''v'']
         else if n < 32 \<or> n = 127 then [CHR 0x5C, CHR ''x'', hex_digit (n div 16), hex_digit (n mod 16)] else [c])"

definition go_quote :: "string \<Rightarrow> string" where
  "go_quote s = [CHR 0x22] @ concat (map quote_byte s) @ [CHR 0x22]"

definition field_line :: "sight_field \<Rightarrow> string" where
  "field_line f = (if sg_Sensitive f then [] else ''  '' @ sg_Key f @ '': '' @ sg_Value f @ nl)"

definition hidden_fields :: "sight_field list \<Rightarrow> nat" where
  "hidden_fields fs = length (filter sg_Sensitive fs)"

definition FormatPrompt :: "cell_sight \<Rightarrow> string" where
  "FormatPrompt fc =
     (if sight_empty fc then []
      else ''<cell-sight>'' @ nl @ ''  Panel: '' @ cs_PanelID fc @ nl @
        (if cs_CellID fc \<noteq> [] then ''  Selected: '' @ cs_CellID fc @ (if cs_CellTitle fc \<noteq> [] then '' '' @ go_quote (cs_CellTitle fc) else []) @ nl else []) @
        (if cs_Kind fc \<noteq> [] then ''  Kind: '' @ cs_Kind fc @ nl else []) @
        concat (map field_line (cs_Fields fc)) @
        (if hidden_fields (cs_Fields fc) > 0
         then ''  ['' @ nat_dec (hidden_fields (cs_Fields fc)) @ '' fields hidden '' @ [CHR 0xE2, CHR 0x80, CHR 0x94] @ '' :sight reveal panel.field]'' @ nl else []) @
        ''</cell-sight>'')"

record sight_manager =
  sm_gates :: "(string, bool) gomap"
  sm_reveals :: "(string, bool) gomap"

definition NewSightManager :: sight_manager where "NewSightManager = \<lparr>sm_gates = [], sm_reveals = []\<rparr>"

definition SetGate :: "string \<Rightarrow> bool \<Rightarrow> sight_manager \<Rightarrow> sight_manager" where
  "SetGate panelID on m = m\<lparr>sm_gates := mset_at (sm_gates m) panelID on\<rparr>"

definition IsGateOpen :: "string \<Rightarrow> sight_manager \<Rightarrow> bool" where
  "IsGateOpen panelID m = (case map_of (sm_gates m) panelID of Some v \<Rightarrow> v | None \<Rightarrow> True)"

definition sight_key :: "string \<Rightarrow> string \<Rightarrow> string" where "sight_key panelID fld = panelID @ ''.'' @ fld"

definition Reveal :: "string \<Rightarrow> string \<Rightarrow> sight_manager \<Rightarrow> sight_manager" where
  "Reveal panelID fld m = m\<lparr>sm_reveals := mset_at (sm_reveals m) (sight_key panelID fld) True\<rparr>"

definition Hide :: "string \<Rightarrow> string \<Rightarrow> sight_manager \<Rightarrow> sight_manager" where
  "Hide panelID fld m = m\<lparr>sm_reveals := mset_at (sm_reveals m) (sight_key panelID fld) False\<rparr>"

definition IsRevealed :: "string \<Rightarrow> string \<Rightarrow> sight_manager \<Rightarrow> bool" where
  "IsRevealed panelID fld m = mget False (sm_reveals m) (sight_key panelID fld)"

definition trim_right_nl :: "string \<Rightarrow> string" where
  "trim_right_nl s = rev (dropWhile (\<lambda>c. c = CHR 10) (rev s))"

definition sight_Status :: "sight_manager \<Rightarrow> string" where
  "sight_Status m =
     (if sm_gates m = [] \<and> sm_reveals m = [] then ''sight:'' @ nl @ ''  all panels open (defaults)'' @ nl @ ''  no field overrides''
      else trim_right_nl (''sight:'' @ nl @
        (if length (sm_gates m) > 0 then ''  gates:'' @ nl @
           concat (map (\<lambda>p. ''    '' @ p @ '': '' @ (if \<not> mget False (sm_gates m) p then ''off'' else ''on'') @ nl) (sort (map fst (sm_gates m)))) else []) @
        (if length (sm_reveals m) > 0 then ''  fields:'' @ nl @
           concat (map (\<lambda>k. ''    '' @ k @ '': '' @ (if mget False (sm_reveals m) k then ''revealed'' else ''hidden'') @ nl) (sort (map fst (sm_reveals m)))) else [])))"

definition apply_field :: "sight_manager \<Rightarrow> string \<Rightarrow> sight_field \<Rightarrow> sight_field" where
  "apply_field m panelID f =
     (case map_of (sm_reveals m) (sight_key panelID (sg_Key f)) of
        Some override \<Rightarrow> if override then f\<lparr>sg_Sensitive := False\<rparr> else f\<lparr>sg_Sensitive := True\<rparr>
      | None \<Rightarrow> f)"

definition ApplyCellSight :: "sight_manager \<Rightarrow> cell_sight \<Rightarrow> cell_sight" where
  "ApplyCellSight m cs =
     (if length (cs_Fields cs) = 0 then cs else cs\<lparr>cs_Fields := map (apply_field m (cs_PanelID cs)) (cs_Fields cs)\<rparr>)"

text \<open>The prompt of a submission, when the active panel offers a gate and a sight.\<close>

definition sight_prompt :: "sight_manager \<Rightarrow> (bool \<times> cell_sight) option \<Rightarrow> string \<Rightarrow> string" where
  "sight_prompt m provider value =
     (case provider of
        None \<Rightarrow> value
      | Some (panelGate, cs) \<Rightarrow>
          if panelGate \<and> IsGateOpen (cs_PanelID cs) m
          then if \<not> sight_empty cs then FormatPrompt (ApplyCellSight m cs) @ nl @ nl @ value else value
          else value)"

subsection \<open>Alerts\<close>

datatype andon_level = AndonGreen | AndonYellow | AndonRed

fun andon_rank :: "andon_level \<Rightarrow> nat" where
  "andon_rank AndonGreen = 0"
| "andon_rank AndonYellow = Suc 0"
| "andon_rank AndonRed = Suc (Suc 0)"

fun andon_text :: "andon_level \<Rightarrow> string" where
  "andon_text AndonGreen = ''green''"
| "andon_text AndonYellow = ''yellow''"
| "andon_text AndonRed = ''red''"

definition ShouldCordon :: "andon_level \<Rightarrow> bool" where "ShouldCordon level = (level = AndonRed)"

record alert =
  al_Level :: andon_level
  al_Source :: string
  al_Message :: string
  al_Timestamp :: gotime
  al_Acked :: bool

record alert_queue =
  aq_alerts :: "alert list"
  aq_max :: nat

definition NewAlertQueue :: "int \<Rightarrow> alert_queue" where
  "NewAlertQueue capacity = \<lparr>aq_alerts = [], aq_max = (if capacity \<le> 0 then 50 else nat capacity)\<rparr>"

text \<open>At capacity the others move one place down; an empty queue of capacity 0 panics.\<close>

definition PushAlert :: "alert \<Rightarrow> alert_queue \<Rightarrow> alert_queue option" where
  "PushAlert a q =
     (if length (aq_alerts q) \<ge> aq_max q
      then (if aq_alerts q = [] then None
            else let shifted = tl (aq_alerts q) @ [last (aq_alerts q)]
              in Some (q\<lparr>aq_alerts := shifted[length shifted - 1 := a]\<rparr>))
      else Some (q\<lparr>aq_alerts := aq_alerts q @ [a]\<rparr>))"

definition AckAlert :: "int \<Rightarrow> alert_queue \<Rightarrow> alert_queue" where
  "AckAlert index q =
     (if index \<ge> 0 \<and> index < int (length (aq_alerts q))
      then q\<lparr>aq_alerts := (aq_alerts q)[nat index := (aq_alerts q ! nat index)\<lparr>al_Acked := True\<rparr>]\<rparr> else q)"

definition UnackedAlerts :: "alert_queue \<Rightarrow> nat" where
  "UnackedAlerts q = length (filter (\<lambda>a. \<not> al_Acked a) (aq_alerts q))"

definition WorstAlert :: "alert_queue \<Rightarrow> andon_level" where
  "WorstAlert q = foldl (\<lambda>worst a. if \<not> al_Acked a \<and> andon_rank (al_Level a) > andon_rank worst then al_Level a else worst) AndonGreen (aq_alerts q)"

definition alerts_ok :: "alert_queue \<Rightarrow> bool" where
  "alerts_ok q = (0 < aq_max q \<and> length (aq_alerts q) \<le> aq_max q)"

lemma push_shift: "xs \<noteq> [] \<Longrightarrow> (tl xs @ [last xs])[length xs - Suc 0 := a] = tl xs @ [a]"
  by (cases xs) simp_all

lemma PushAlert_result:
  "alerts_ok q \<Longrightarrow> PushAlert a q = Some (q\<lparr>aq_alerts := last_n (aq_max q) (aq_alerts q @ [a])\<rparr>)"
  by (cases "aq_alerts q") (auto simp: PushAlert_def alerts_ok_def last_n_def Let_def)

interpretation aq: bounded_log PushAlert aq_alerts aq_max alerts_ok
  by unfold_locales (auto simp: PushAlert_result, auto simp: alerts_ok_def)

lemma WorstAlert_rank:
  "andon_rank (WorstAlert q) = Max (insert 0 ((andon_rank \<circ> al_Level) ` {a \<in> set (aq_alerts q). \<not> al_Acked a}))"
proof -
  have "andon_rank (foldl (\<lambda>worst a. if \<not> al_Acked a \<and> andon_rank (al_Level a) > andon_rank worst then al_Level a else worst) w as)
      = Max (insert (andon_rank w) ((andon_rank \<circ> al_Level) ` {a \<in> set as. \<not> al_Acked a}))" for w as
  proof (induction "as" arbitrary: w)
    case (Cons a "as")
    have "{x \<in> set (a # as). \<not> al_Acked x} = (if al_Acked a then {} else {a}) \<union> {x \<in> set as. \<not> al_Acked x}" by auto
    then show ?case using Cons by (cases "{x \<in> set as. \<not> al_Acked x} = {}") (auto simp: max_def)
  qed simp
  from this [of AndonGreen "aq_alerts q"] show ?thesis by (simp add: WorstAlert_def)
qed

subsection \<open>Annotations\<close>

record turn_annotation =
  an_TurnIdx :: int
  an_Kind :: string
  an_Time :: gotime

fun annotate_in :: "turn_annotation \<Rightarrow> turn_annotation list \<Rightarrow> turn_annotation list" where
  "annotate_in n [] = [n]"
| "annotate_in n (a # as) = (if an_TurnIdx a = an_TurnIdx n then n # as else a # annotate_in n as)"

definition Annotate :: "gotime \<Rightarrow> int \<Rightarrow> string \<Rightarrow> turn_annotation list \<Rightarrow> turn_annotation list" where
  "Annotate now turnIdx kind as = annotate_in \<lparr>an_TurnIdx = turnIdx, an_Kind = kind, an_Time = now\<rparr> as"

definition GetAnnotation :: "int \<Rightarrow> turn_annotation list \<Rightarrow> string option" where
  "GetAnnotation turnIdx as = map_option an_Kind (List.find (\<lambda>a. an_TurnIdx a = turnIdx) as)"

definition annotation_stats :: "turn_annotation list \<Rightarrow> (string, nat) gomap" where
  "annotation_stats as = foldl (\<lambda>counts a. mset_at counts (an_Kind a) (mget 0 counts (an_Kind a) + 1)) [] as"

lemma annotate_distinct: "distinct (map an_TurnIdx as) \<Longrightarrow> distinct (map an_TurnIdx (Annotate now t k as))"
proof -
  have "an_TurnIdx ` set (annotate_in n as) = insert (an_TurnIdx n) (an_TurnIdx ` set as)" for n "as"
    by (induction "as") auto
  then have "distinct (map an_TurnIdx as) \<Longrightarrow> distinct (map an_TurnIdx (annotate_in n as))" for n
    by (induction "as") auto
  then show "distinct (map an_TurnIdx as) \<Longrightarrow> ?thesis" by (simp add: Annotate_def)
qed

lemma get_annotate: "GetAnnotation u (Annotate now t k as) = (if u = t then Some k else GetAnnotation u as)"
  by (induction "as") (auto simp: GetAnnotation_def Annotate_def)

subsection \<open>Keys\<close>

record key_command =
  kc_Name :: string
  kc_Description :: string

record key_binding =
  kb_Key :: string
  kb_Command :: string

definition bind_key :: "string \<Rightarrow> string \<Rightarrow> key_binding" where "bind_key k c = \<lparr>kb_Key = k, kb_Command = c\<rparr>"

definition defaultBindings :: "key_binding list" where
  "defaultBindings = [bind_key ''ctrl+c'' ''quit'', bind_key ''alt+m'' ''cycle-mode'', bind_key ''up'' ''history-prev'',
     bind_key ''down'' ''history-next'', bind_key ''enter'' ''submit'', bind_key ''tab'' ''complete'', bind_key ''shift+tab'' ''focus-next'',
     bind_key ''pgup'' ''scroll-up'', bind_key ''pgdown'' ''scroll-down'', bind_key ''escape'' ''back'', bind_key ''alt+enter'' ''newline'',
     bind_key ''ctrl+r'' ''review-edits'']"

definition defaultKeyCommands :: "(string, key_command) gomap" where
  "defaultKeyCommands = map (\<lambda>(n, d). (n, \<lparr>kc_Name = n, kc_Description = d\<rparr>))
     [(''quit'', ''Exit the REPL''), (''cycle-mode'', ''Cycle agent mode''), (''history-prev'', ''Previous input from history''),
      (''history-next'', ''Next input from history''), (''submit'', ''Submit current input''),
      (''complete'', ''Tab-complete slash command or accept prediction''), (''focus-next'', ''Focus next panel''),
      (''focus-prev'', ''Focus previous panel''), (''focus-up'', ''Focus previous panel''), (''focus-down'', ''Focus next panel''),
      (''dive'', ''Enter child panel''), (''climb'', ''Return to parent panel''), (''back'', ''Go back: cancel, climb, or dismiss''),
      (''scroll-up'', ''Scroll output up''), (''scroll-down'', ''Scroll output down''), (''newline'', ''Insert newline in input''),
      (''review-edits'', ''Review pending file edits'')]"

definition normalBindings :: "key_binding list" where
  "normalBindings = [bind_key ''j'' ''focus-down'', bind_key ''k'' ''focus-up'', bind_key ''i'' ''enter-insert'', bind_key ''enter'' ''dive'',
     bind_key ''escape'' ''climb'', bind_key ''q'' ''quit'']"

record mode_table =
  mt_mode :: string
  mt_bindings :: "(string, key_binding list) gomap"
  mt_commands :: "(string, key_command) gomap"

definition NewModeTable :: mode_table where
  "NewModeTable = \<lparr>mt_mode = ''insert'', mt_bindings = [(''insert'', defaultBindings), (''normal'', normalBindings)], mt_commands = defaultKeyCommands\<rparr>"

definition SetKeyMode :: "string \<Rightarrow> mode_table \<Rightarrow> mode_table" where "SetKeyMode md t = t\<lparr>mt_mode := md\<rparr>"

fun lookup_binding :: "(string, key_command) gomap \<Rightarrow> string \<Rightarrow> key_binding list \<Rightarrow> key_command option" where
  "lookup_binding cmds key [] = None"
| "lookup_binding cmds key (b # bs) = (if kb_Key b = key then map_of cmds (kb_Command b) else lookup_binding cmds key bs)"

definition mode_Lookup :: "string \<Rightarrow> mode_table \<Rightarrow> key_command option" where
  "mode_Lookup key t = lookup_binding (mt_commands t) key (mget [] (mt_bindings t) (mt_mode t))"

definition default_Lookup :: "string \<Rightarrow> key_command option" where
  "default_Lookup key = lookup_binding defaultKeyCommands key defaultBindings"

text \<open>The mode that enters insertion is bound to a command that is not declared, so \<^verbatim>\<open>i\<close> does nothing.\<close>

lemma insert_key_dead: "mode_Lookup ''i'' (SetKeyMode ''normal'' NewModeTable) = None"
  by (simp add: mode_Lookup_def NewModeTable_def SetKeyMode_def mget_def normalBindings_def bind_key_def defaultKeyCommands_def)

text \<open>Handlers of keys: \<^verbatim>\<open>sort.Slice\<close> puts those of equal priority in any order, so sorting is an argument.\<close>

record ('m, 'c) key_handler =
  kh_Name :: string
  kh_Priority :: int
  kh_Handle :: "'m \<Rightarrow> 'c option"

record ('m, 'c) key_router =
  kr_handlers :: "('m, 'c) key_handler list"
  kr_sorted :: bool

definition register_key :: "('m, 'c) key_handler \<Rightarrow> ('m, 'c) key_router \<Rightarrow> ('m, 'c) key_router" where
  "register_key h r = r\<lparr>kr_handlers := kr_handlers r @ [h], kr_sorted := False\<rparr>"

fun first_consumer :: "'m \<Rightarrow> ('m, 'c) key_handler list \<Rightarrow> 'c option" where
  "first_consumer msg [] = None"
| "first_consumer msg (h # hs) = (case kh_Handle h msg of Some cmd \<Rightarrow> Some cmd | None \<Rightarrow> first_consumer msg hs)"

definition handle_key :: "(('m, 'c) key_handler list \<Rightarrow> ('m, 'c) key_handler list) \<Rightarrow> 'm \<Rightarrow> ('m, 'c) key_router \<Rightarrow> ('m, 'c) key_router \<times> 'c option" where
  "handle_key srt msg r =
     (let r1 = (if \<not> kr_sorted r then r\<lparr>kr_handlers := srt (kr_handlers r), kr_sorted := True\<rparr> else r)
      in (r1, first_consumer msg (kr_handlers r1)))"

lemma first_consumer_priority:
  assumes "sorted_wrt (\<lambda>a b. kh_Priority a \<ge> kh_Priority b) hs" "first_consumer msg hs = Some c"
  shows "\<exists>h \<in> set hs. kh_Handle h msg = Some c \<and> (\<forall>g \<in> set hs. kh_Handle g msg \<noteq> None \<longrightarrow> kh_Priority g \<le> kh_Priority h)"
  using assms by (induction hs) (auto split: option.splits)

subsection \<open>Hints\<close>

definition MaxSightHintsPerTurn :: nat where "MaxSightHintsPerTurn = 3"

text \<open>The handler counts the hints of a turn; what it sends is returned.\<close>

datatype handler_call = CallHint | CallDone | CallError | CallOther

definition EmitSightHint :: "nat \<Rightarrow> nat \<times> bool" where
  "EmitSightHint hintCount = (if hintCount \<ge> MaxSightHintsPerTurn then (hintCount, False) else (hintCount + 1, True))"

fun handler_step :: "nat \<Rightarrow> handler_call \<Rightarrow> nat" where
  "handler_step n CallHint = fst (EmitSightHint n)"
| "handler_step n CallDone = 0"
| "handler_step n CallError = 0"
| "handler_step n CallOther = n"

lemma hints_limited: "n \<le> MaxSightHintsPerTurn \<Longrightarrow> foldl handler_step n calls \<le> MaxSightHintsPerTurn"
proof (induction calls arbitrary: n)
  case (Cons c calls)
  have "handler_step n c \<le> MaxSightHintsPerTurn" using Cons.prems by (cases c) (auto simp: EmitSightHint_def)
  then show ?case using Cons.IH by simp
qed simp

end
