(* ===== verification/Tui_Layout.thy ===== *)
theory Tui_Layout
  imports Go_Format Tui_Focus "HOL-Library.Signed_Division"
begin

text \<open>
  The layout of the terminal (\<^verbatim>\<open>tui/layout/\<close>): breakpoints, constraints, thirds, and the engine that gives
  panels their heights and widths and renders them; and the wrapping of text (\<^verbatim>\<open>tui/render.go\<close>). The state of the
  panels, their views, the borders and the joining of blocks are arguments. Fractions are exact rationals.
\<close>

subsection \<open>Breakpoints\<close>

datatype breakpoint = BpSmall | BpMedium | BpLarge | BpMassive

record layout_config =
  lc_Breakpoint :: breakpoint
  lc_InputHeight :: int
  lc_ShowLogo :: bool
  lc_MaxContentWidth :: int
  lc_DashboardStyle :: string
  lc_BorderWidth :: int

definition layout_for :: "breakpoint \<Rightarrow> int \<Rightarrow> bool \<Rightarrow> int \<Rightarrow> string \<Rightarrow> layout_config" where
  "layout_for bp inp logo w style = \<lparr>lc_Breakpoint = bp, lc_InputHeight = inp, lc_ShowLogo = logo, lc_MaxContentWidth = w,
     lc_DashboardStyle = style, lc_BorderWidth = 2\<rparr>"

definition ComputeLayout :: "int \<Rightarrow> int \<Rightarrow> layout_config" where
  "ComputeLayout width height =
     (let cfg = (if width \<le> 80 then layout_for BpSmall 1 False width ''compact''
                 else if width \<le> 120 then layout_for BpMedium 3 True width ''full''
                 else if width \<le> 200 then layout_for BpLarge 3 True width ''full''
                 else layout_for BpMassive 3 True 200 ''full'')
      in if height < 20 \<and> lc_InputHeight cfg > 1 then cfg\<lparr>lc_InputHeight := 1\<rparr> else cfg)"

definition InnerWidth :: "layout_config \<Rightarrow> int" where
  "InnerWidth c = (let w = lc_MaxContentWidth c - lc_BorderWidth c in if w < 10 then 10 else w)"

definition FixedHeight :: "layout_config \<Rightarrow> int" where
  "FixedHeight c = 2 + lc_InputHeight c + 2 + 1 + 2"

datatype height_breakpoint = HeightTiny | HeightSmall | HeightMedium | HeightLarge

definition ClassifyHeight :: "int \<Rightarrow> height_breakpoint" where
  "ClassifyHeight height = (if height < 15 then HeightTiny else if height < 25 then HeightSmall else if height < 40 then HeightMedium else HeightLarge)"

subsection \<open>Constraints\<close>

record panel_constraints =
  pc_Min :: int
  pc_Max :: int
  pc_Fill :: int
  pc_Pct :: rat

definition clampHeight :: "int \<Rightarrow> int \<Rightarrow> int \<Rightarrow> int" where
  "clampHeight h lower upper =
     (let h1 = (if lower > 0 \<and> h < lower then lower else h) in if upper > 0 \<and> h1 > upper then upper else h1)"

definition fixed_height :: "int \<Rightarrow> panel_constraints \<Rightarrow> int" where
  "fixed_height available c =
     (if pc_Pct c > 0 then clampHeight (int_trunc (pc_Pct c * of_int available)) (pc_Min c) (pc_Max c)
      else if pc_Fill c = 0 then (if pc_Min c = 0 then 1 else pc_Min c) else 0)"

definition flex_at :: "panel_constraints \<times> int \<Rightarrow> bool" where
  "flex_at ch = (pc_Fill (fst ch) > 0 \<and> snd ch = 0)"

definition SolveLayout :: "panel_constraints list \<Rightarrow> int \<Rightarrow> int list" where
  "SolveLayout constraints available =
     (let heights = map (fixed_height available) constraints;
          left = available - sum_list heights;
          remaining = (if left < 0 then 0 else left);
          totalWeight = sum_list (map (pc_Fill \<circ> fst) (filter flex_at (zip constraints heights)))
      in if totalWeight > 0
         then map (\<lambda>ch. if flex_at ch then clampHeight ((remaining * pc_Fill (fst ch)) sdiv totalWeight) (pc_Min (fst ch)) (pc_Max (fst ch)) else snd ch) (zip constraints heights)
         else heights)"

subsection \<open>Thirds\<close>

record thirds_layout =
  th_OutputHeight :: int
  th_InputHeight :: int
  th_DashboardHeight :: int

definition MinOutputHeight :: int where "MinOutputHeight = 3"
definition MinInputHeight :: int where "MinInputHeight = 1"
definition MinDashboardHeight :: int where "MinDashboardHeight = 3"

definition ComputeThirdsLayout :: "int \<Rightarrow> int \<Rightarrow> thirds_layout" where
  "ComputeThirdsLayout termHeight inputLines0 =
     (if termHeight \<le> 0 then \<lparr>th_OutputHeight = MinOutputHeight, th_InputHeight = MinInputHeight, th_DashboardHeight = MinDashboardHeight\<rparr>
      else
        let inputLines = (if inputLines0 < MinInputHeight then MinInputHeight else inputLines0);
            dash0 = int_trunc (of_int termHeight * (1 / 4));
            dash1 = (if dash0 < MinDashboardHeight then MinDashboardHeight else dash0);
            inputBottom = int_trunc (of_int termHeight * (3 / 5));
            inputTop0 = inputBottom - inputLines;
            inputTop = (if inputTop0 < MinOutputHeight then MinOutputHeight else inputTop0);
            actualInputHeight = inputBottom - inputTop;
            total = inputTop + actualInputHeight + dash1
        in if total > termHeight
           then (let dash2 = termHeight - inputTop - actualInputHeight
                 in if dash2 < MinDashboardHeight
                    then (let out = termHeight - actualInputHeight - MinDashboardHeight
                          in \<lparr>th_OutputHeight = (if out < MinOutputHeight then MinOutputHeight else out),
                              th_InputHeight = actualInputHeight, th_DashboardHeight = MinDashboardHeight\<rparr>)
                    else \<lparr>th_OutputHeight = inputTop, th_InputHeight = actualInputHeight, th_DashboardHeight = dash2\<rparr>)
           else \<lparr>th_OutputHeight = inputTop, th_InputHeight = actualInputHeight, th_DashboardHeight = dash1\<rparr>)"

subsection \<open>The engine\<close>

datatype border_mode = BorderFocusDepth | BorderOnly | BorderNone
datatype split_dir = DirVertical | DirHorizontal

record panel_slot =
  pl_Panel :: nat
  pl_Visible :: bool
  pl_Weight :: int
  pl_MinHeight :: int
  pl_Border :: border_mode
  pl_Focusable :: bool
  pl_Direction :: split_dir
  pl_Group :: string

record layout_engine =
  le_slots :: "panel_slot list"
  le_focus :: focus_manager
  le_width :: int
  le_height :: int

definition NewLayoutEngine :: "focus_manager \<Rightarrow> layout_engine" where
  "NewLayoutEngine fm = \<lparr>le_slots = [], le_focus = fm, le_width = 0, le_height = 0\<rparr>"

definition register_slot :: "panel_slot \<Rightarrow> layout_engine \<Rightarrow> layout_engine" where
  "register_slot s e = e\<lparr>le_slots := le_slots e @ [s]\<rparr>"

definition resize_engine :: "int \<Rightarrow> int \<Rightarrow> layout_engine \<Rightarrow> layout_engine" where
  "resize_engine w h e = e\<lparr>le_width := w, le_height := h\<rparr>"

fun set_min_first :: "(nat \<Rightarrow> string) \<Rightarrow> string \<Rightarrow> int \<Rightarrow> panel_slot list \<Rightarrow> panel_slot list" where
  "set_min_first pid i h [] = []"
| "set_min_first pid i h (s # ss) = (if pid (pl_Panel s) = i then s\<lparr>pl_MinHeight := h\<rparr> # ss else s # set_min_first pid i h ss)"

definition SetMinHeight :: "(nat \<Rightarrow> string) \<Rightarrow> nat \<Rightarrow> int \<Rightarrow> layout_engine \<Rightarrow> layout_engine" where
  "SetMinHeight pid p h e = e\<lparr>le_slots := set_min_first pid (pid p) h (le_slots e)\<rparr>"

definition VisibleSlots :: "layout_engine \<Rightarrow> panel_slot list" where
  "VisibleSlots e = filter pl_Visible (le_slots e)"

definition FocusablePanels :: "layout_engine \<Rightarrow> nat list" where
  "FocusablePanels e = map pl_Panel (filter pl_Focusable (VisibleSlots e))"

definition border_height :: "panel_slot \<Rightarrow> int" where
  "border_height s = (if pl_Border s \<noteq> BorderNone then 2 else 0)"

definition own_height :: "(nat \<Rightarrow> int) \<Rightarrow> panel_slot \<Rightarrow> int" where
  "own_height ph s = (let h = ph (pl_Panel s) in if h = 0 then 1 else h)"

definition fixed_total :: "(nat \<Rightarrow> int) \<Rightarrow> panel_slot list \<Rightarrow> int" where
  "fixed_total ph visible =
     sum_list (map (\<lambda>s. own_height ph s + border_height s) (filter (\<lambda>s. pl_Weight s = 0) visible)) +
     (if length visible > 1 then int (length visible) - 1 else 0)"

definition flex_total :: "panel_slot list \<Rightarrow> int" where
  "flex_total visible = sum_list (map pl_Weight (filter (\<lambda>s. pl_Weight s \<noteq> 0) visible))"

definition flex_height :: "int \<Rightarrow> int \<Rightarrow> panel_slot \<Rightarrow> int" where
  "flex_height remaining flexTotal s =
     (let h = (if flexTotal > 0 then (remaining * pl_Weight s) sdiv flexTotal else remaining)
      in if h < pl_MinHeight s then pl_MinHeight s else h)"

definition ComputeHeights :: "(nat \<Rightarrow> string) \<Rightarrow> (nat \<Rightarrow> int) \<Rightarrow> layout_engine \<Rightarrow> (string, int) gomap" where
  "ComputeHeights pid ph e =
     (let visible = VisibleSlots e;
          fixed = foldl (\<lambda>hs s. if pl_Weight s = 0 then mset_at hs (pid (pl_Panel s)) (own_height ph s) else hs) [] visible;
          left = le_height e - fixed_total ph visible;
          remaining = (if left < 0 then 0 else left)
      in foldl (\<lambda>hs s. if pl_Weight s > 0 then mset_at hs (pid (pl_Panel s)) (flex_height remaining (flex_total visible) s) else hs) fixed visible)"

text \<open>The widths of panels side by side: shares by weight, the last one taking what is left.\<close>

definition share_weight :: "panel_slot \<Rightarrow> int" where
  "share_weight s = (if pl_Weight s \<le> 0 then 1 else pl_Weight s)"

fun share_widths :: "int \<Rightarrow> int \<Rightarrow> int \<Rightarrow> panel_slot list \<Rightarrow> int list" where
  "share_widths totalWidth totalWeight allocated [] = []"
| "share_widths totalWidth totalWeight allocated [s] = [totalWidth - allocated]"
| "share_widths totalWidth totalWeight allocated (s # s' # ss) =
     (let w = (totalWidth * share_weight s) sdiv totalWeight
      in w # share_widths totalWidth totalWeight (allocated + w) (s' # ss))"

definition group_widths :: "int \<Rightarrow> panel_slot list \<Rightarrow> int list" where
  "group_widths totalWidth slots = share_widths totalWidth (sum_list (map share_weight slots)) 0 slots"

text \<open>
  Rendering. A panel is updated with its size and viewed at a width; \<open>'p\<close> is the state of all panels.
\<close>

record 'p renderer =
  rn_resize :: "nat \<Rightarrow> int \<Rightarrow> int \<Rightarrow> 'p \<Rightarrow> 'p"
  rn_view :: "nat \<Rightarrow> int \<Rightarrow> 'p \<Rightarrow> string"
  rn_depth :: "string \<Rightarrow> int \<Rightarrow> int \<Rightarrow> string"
  rn_border :: "string \<Rightarrow> bool \<Rightarrow> int \<Rightarrow> string"
  rn_join :: "string list \<Rightarrow> string"

definition slot_depth :: "int list \<Rightarrow> panel_slot \<times> int \<Rightarrow> int option" where
  "slot_depth depths vs =
     (case vs of (s, focusIdx) \<Rightarrow>
        if pl_Focusable s \<and> focusIdx \<ge> 0 \<and> focusIdx < int (length depths) then Some (depths ! nat focusIdx) else None)"

definition render_slot :: "'p renderer \<Rightarrow> int list \<Rightarrow> int \<Rightarrow> int \<Rightarrow> int \<Rightarrow> panel_slot \<times> int \<Rightarrow> 'p \<Rightarrow> 'p \<times> string" where
  "render_slot rn depths innerW height outerW vs ps =
     (let s = fst vs; ps1 = (if pl_Weight s > 0 then rn_resize rn (pl_Panel s) innerW height ps else ps);
          content = rn_view rn (pl_Panel s) innerW ps1
      in (ps1, case pl_Border s of
                 BorderFocusDepth \<Rightarrow> rn_depth rn content (case slot_depth depths vs of Some d \<Rightarrow> d | None \<Rightarrow> 1) outerW
               | BorderOnly \<Rightarrow> rn_border rn content (slot_depth depths vs = Some 0) outerW
               | BorderNone \<Rightarrow> content))"

fun render_row :: "'p renderer \<Rightarrow> int list \<Rightarrow> int \<Rightarrow> ((panel_slot \<times> int) \<times> int) list \<Rightarrow> 'p \<Rightarrow> 'p \<times> string list" where
  "render_row rn depths height [] ps = (ps, [])"
| "render_row rn depths height ((vs, w) # rest) ps =
     (let innerW = (if w - 2 < 4 then 4 else w - 2); (ps1, out) = render_slot rn depths innerW height w vs ps;
          (ps2, outs) = render_row rn depths height rest ps1
      in (ps2, out # outs))"

definition renderHorizontalGroup :: "'p renderer \<Rightarrow> (panel_slot \<times> int) list \<Rightarrow> int \<Rightarrow> int \<Rightarrow> int list \<Rightarrow> 'p \<Rightarrow> 'p \<times> string" where
  "renderHorizontalGroup rn slots totalWidth height depths ps =
     (if length slots = 0 then (ps, [])
      else (case render_row rn depths height (zip slots (group_widths totalWidth (map fst slots))) ps of (ps', rendered) \<Rightarrow> (ps', rn_join rn rendered)))"

fun render_column :: "'p renderer \<Rightarrow> int list \<Rightarrow> int \<Rightarrow> int \<Rightarrow> (panel_slot \<Rightarrow> int) \<Rightarrow> (panel_slot \<times> int) list \<Rightarrow> 'p \<Rightarrow> 'p \<times> string list" where
  "render_column rn depths innerWidth width hs [] ps = (ps, [])"
| "render_column rn depths innerWidth width hs (vs # rest) ps =
     (let (ps1, out) = render_slot rn depths innerWidth (hs (fst vs)) width vs ps;
          (ps2, outs) = render_column rn depths innerWidth width hs rest ps1
      in (ps2, out # outs))"

fun number_focus :: "int \<Rightarrow> panel_slot list \<Rightarrow> (panel_slot \<times> int) list" where
  "number_focus i [] = []"
| "number_focus i (s # ss) = (if pl_Focusable s then (s, i) # number_focus (i + 1) ss else (s, - 1) # number_focus i ss)"

definition add_group :: "(string \<times> (panel_slot \<times> int) list) list \<Rightarrow> panel_slot \<times> int \<Rightarrow> (string \<times> (panel_slot \<times> int) list) list" where
  "add_group groups vs =
     (if pl_Group (fst vs) \<noteq> [] \<and> groups \<noteq> [] \<and> fst (last groups) = pl_Group (fst vs)
      then butlast groups @ [(fst (last groups), snd (last groups) @ [vs])]
      else groups @ [(pl_Group (fst vs), [vs])])"

definition is_horizontal :: "string \<times> (panel_slot \<times> int) list \<Rightarrow> bool" where
  "is_horizontal g = (fst g \<noteq> [] \<and> length (snd g) > 1 \<and> (\<forall>vs \<in> set (snd g). pl_Direction (fst vs) = DirHorizontal))"

fun render_groups :: "'p renderer \<Rightarrow> int list \<Rightarrow> int \<Rightarrow> int \<Rightarrow> (panel_slot \<Rightarrow> int) \<Rightarrow> (string \<times> (panel_slot \<times> int) list) list \<Rightarrow> 'p \<Rightarrow> 'p \<times> string list" where
  "render_groups rn depths innerWidth width hs [] ps = (ps, [])"
| "render_groups rn depths innerWidth width hs (g # gs) ps =
     (let (ps1, out) = (if is_horizontal g then renderHorizontalGroup rn (snd g) width (hs (fst (hd (snd g)))) depths ps
                        else (case render_column rn depths innerWidth width hs (snd g) ps of (ps', outs) \<Rightarrow> (ps', str_join outs nl)));
          (ps2, outs) = render_groups rn depths innerWidth width hs gs ps1
      in (ps2, out # outs))"

definition RenderEngine :: "(nat \<Rightarrow> string) \<Rightarrow> (nat \<Rightarrow> int) \<Rightarrow> 'p renderer \<Rightarrow> layout_engine \<Rightarrow> 'p \<Rightarrow> (layout_engine \<times> 'p \<times> string) option" where
  "RenderEngine pid ph rn e ps =
     (let visible = VisibleSlots e
      in if length visible = 0 then Some (e, ps, [])
         else (case fm_SetPanels pid (FocusablePanels e) (le_focus e) of
                 None \<Rightarrow> None
               | Some fm \<Rightarrow>
                   let innerWidth = (if le_width e - 2 < 10 then 10 else le_width e - 2); heights = ComputeHeights pid ph e;
                       depths = FocusDepths (fm_Count fm) (fm_active fm); groups = foldl add_group [] (number_focus 0 visible);
                       (ps', outs) = render_groups rn depths innerWidth (le_width e) (\<lambda>s. mget 0 heights (pid (pl_Panel s))) groups ps
                   in Some (e\<lparr>le_focus := fm\<rparr>, ps', str_join outs nl)))"

subsection \<open>Wrapping\<close>

text \<open>The last space between half the width and the width, or the width.\<close>

fun break_at :: "string \<Rightarrow> nat \<Rightarrow> nat \<Rightarrow> nat \<Rightarrow> nat" where
  "break_at line width 0 lo = (if 0 \<ge> lo \<and> line ! 0 = CHR '' '' then 0 else width)"
| "break_at line width (Suc i) lo =
     (if Suc i < lo then width else if line ! Suc i = CHR '' '' then Suc i else break_at line width i lo)"

definition wrap_break :: "string \<Rightarrow> nat \<Rightarrow> nat" where
  "wrap_break line width = break_at line width width (width div 2)"

definition trim_left_sp :: "string \<Rightarrow> string" where "trim_left_sp s = dropWhile (\<lambda>c. c = CHR '' '') s"

lemma break_at_le: "i \<le> width \<Longrightarrow> break_at line width i lo \<le> width"
  by (induction line width i lo rule: break_at.induct) auto

lemma break_at_space: "0 < width \<Longrightarrow> break_at line width i lo = 0 \<Longrightarrow> line ! 0 = CHR '' ''"
  by (induction line width i lo rule: break_at.induct) (auto split: if_splits)

lemma wrap_progress:
  assumes "0 < width" "width < length line"
  shows "length (trim_left_sp (drop (wrap_break line width) line)) < length line"
proof (cases "wrap_break line width")
  case 0
  then have "line ! 0 = CHR '' ''" using break_at_space assms(1) by (simp add: wrap_break_def)
  then show ?thesis using assms 0 by (cases line) (auto simp: trim_left_sp_def le_imp_less_Suc length_dropWhile_le)
next
  case (Suc n)
  have "length (trim_left_sp (drop (Suc n) line)) \<le> length (drop (Suc n) line)"
    unfolding trim_left_sp_def by (rule length_dropWhile_le)
  then show ?thesis using assms Suc by simp
qed

function wrap_line :: "string \<Rightarrow> nat \<Rightarrow> string list" where
  "wrap_line line width =
     (if length line > width \<and> width > 0
      then take (wrap_break line width) line # wrap_line (trim_left_sp (drop (wrap_break line width) line)) width
      else if line \<noteq> [] then [line] else [])"
  by pat_completeness auto
termination by (relation "measure (\<lambda>(line, width). length line)") (auto simp: wrap_progress)

declare wrap_line.simps [simp del]

text \<open>A newline comes before a piece only when something was written.\<close>

definition write_piece :: "string \<Rightarrow> string \<Rightarrow> string" where
  "write_piece result piece = (if length result > 0 then result @ nl @ piece else result @ piece)"

definition wrap_pieces :: "nat \<Rightarrow> string \<Rightarrow> string list" where
  "wrap_pieces width line = (if length line \<le> width then [line] else wrap_line line width)"

definition WrapText :: "string \<Rightarrow> int \<Rightarrow> string" where
  "WrapText text width =
     (if width \<le> 0 \<or> int (length text) \<le> width then text
      else foldl write_piece [] (concat (map (wrap_pieces (nat width)) (str_split text (CHR 0x0A)))))"

end
