(* ===== verification/Tui_Properties.thy ===== *)
theory Tui_Properties
  imports Tui_Layout
begin

text \<open>
  The terminal: one panel has the focus, hidden fields do not reach the agent, the screen is shared out
  completely, and wrapped text stays within its width.
\<close>

subsection \<open>Focus\<close>

definition frame_ok :: "nat list \<times> int \<Rightarrow> bool" where
  "frame_ok fr = (0 \<le> snd fr \<and> snd fr < int (length (fst fr)))"

definition focus_ok :: "focus_manager \<Rightarrow> bool" where
  "focus_ok f = ((\<forall>fr \<in> set (fm_stack f). frame_ok fr) \<and> (fm_panels f = [] \<longrightarrow> fm_active f = 0) \<and>
     (fm_panels f \<noteq> [] \<longrightarrow> frame_ok (fm_panels f, fm_active f)) \<and> (\<forall>p. fm_focused f p \<longleftrightarrow> panel_at f = Some p))"

lemma set_focus_sel [simp]:
  "fm_panels (set_focus p b f) = fm_panels f" "fm_active (set_focus p b f) = fm_active f" "fm_stack (set_focus p b f) = fm_stack f"
  "fm_focused (set_focus p b f) = (fm_focused f)(p := b)" "panel_at (set_focus p b f) = panel_at f"
  by (simp_all add: set_focus_def panel_at_def)

lemma panel_at_frame: "frame_ok (fm_panels f, fm_active f) \<Longrightarrow> panel_at f = Some (fm_panels f ! nat (fm_active f))"
  by (simp add: panel_at_def frame_ok_def)

text \<open>Moving within range, with frames that were in range, keeps the focus on one panel.\<close>

lemma refocus_ok:
  assumes "focus_ok f" "fm_panels f \<noteq> []" "\<And>g. fm_focused (move g) = fm_focused g"
    and "\<And>b p. frame_ok (fm_panels (move (set_focus p b f)), fm_active (move (set_focus p b f)))"
    and "\<And>b p fr. fr \<in> set (fm_stack (move (set_focus p b f))) \<Longrightarrow> frame_ok fr"
  shows "\<exists>f'. refocus move f = Some f' \<and> focus_ok f'"
proof -
  have fr: "frame_ok (fm_panels f, fm_active f)" using assms(1,2) by (simp add: focus_ok_def)
  let ?p = "fm_panels f ! nat (fm_active f)"
  let ?g = "move (set_focus ?p False f)"
  have p: "panel_at f = Some ?p" by (rule panel_at_frame [OF fr])
  have g: "frame_ok (fm_panels ?g, fm_active ?g)" by (rule assms(4))
  let ?q = "fm_panels ?g ! nat (fm_active ?g)"
  have q: "panel_at ?g = Some ?q" by (rule panel_at_frame [OF g])
  have r: "refocus move f = Some (set_focus ?q True ?g)" by (simp add: refocus_def p q Let_def)
  have "focus_ok (set_focus ?q True ?g)"
    using assms(1) assms(3) [of "set_focus ?p False f"] assms(5) [of _ ?p False] g p q by (auto simp: focus_ok_def frame_ok_def)
  with r show ?thesis by blast
qed

lemma focus_ok_frame: "focus_ok f \<Longrightarrow> fm_panels f \<noteq> [] \<Longrightarrow> 0 \<le> fm_active f \<and> fm_active f < int (length (fm_panels f))"
  by (simp add: focus_ok_def frame_ok_def)

lemma focus_ok_stack: "focus_ok f \<Longrightarrow> fr \<in> set (fm_stack f) \<Longrightarrow> frame_ok fr"
  by (simp add: focus_ok_def)

lemma index_of_lt: "index_of P xs = Some i \<Longrightarrow> i < length xs \<and> P (xs ! i)"
  by (induction xs arbitrary: i) (auto split: if_splits)

lemma focus_new: "focus_ok (NewFocusManager ps)"
  by (auto simp: focus_ok_def NewFocusManager_def Let_def set_focus_def panel_at_def frame_ok_def)

lemma focus_cycle: "focus_ok f \<Longrightarrow> \<exists>f'. fm_Cycle f = Some f' \<and> focus_ok f'"
  using focus_ok_frame [of f] focus_ok_stack [of f]
  by (cases "fm_panels f = []") (auto simp: fm_Cycle_def frame_ok_def intro!: refocus_ok)

lemma focus_up: "focus_ok f \<Longrightarrow> \<exists>f'. fm_FocusUp f = Some f' \<and> focus_ok f'"
  using focus_ok_frame [of f] focus_ok_stack [of f]
  by (cases "fm_panels f = []") (auto simp: fm_FocusUp_def frame_ok_def Let_def intro!: refocus_ok)

lemma focus_panel: "focus_ok f \<Longrightarrow> \<exists>f'. fm_FocusPanel i f = Some f' \<and> focus_ok f'"
  using focus_ok_frame [of f] focus_ok_stack [of f] by (auto simp: fm_FocusPanel_def frame_ok_def intro!: refocus_ok)

lemma focus_set: assumes "focus_ok f" shows "\<exists>f'. fm_SetPanels pid ps f = Some f' \<and> focus_ok f'"
proof -
  have "\<exists>c f1. (if fm_active f < int (length (fm_panels f)) then map_option (\<lambda>p. (pid p, set_focus p False f)) (panel_at f) else Some ([], f)) = Some (c, f1)
      \<and> (\<forall>p. \<not> fm_focused f1 p) \<and> fm_stack f1 = fm_stack f"
  proof (cases "fm_panels f = []")
    case True
    then show ?thesis using assms by (simp add: focus_ok_def panel_at_def)
  next
    case False
    then have "frame_ok (fm_panels f, fm_active f)" using assms by (simp add: focus_ok_def)
    then show ?thesis using assms panel_at_frame [of f] by (simp add: focus_ok_def frame_ok_def)
  qed
  then obtain c f1 where s: "(if fm_active f < int (length (fm_panels f)) then map_option (\<lambda>p. (pid p, set_focus p False f)) (panel_at f) else Some ([], f)) = Some (c, f1)"
    and u: "\<forall>p. \<not> fm_focused f1 p" and st: "fm_stack f1 = fm_stack f" by blast
  let ?f2 = "f1\<lparr>fm_panels := ps, fm_active := (case index_of (\<lambda>p. pid p = c) ps of Some i \<Rightarrow> int i | None \<Rightarrow> 0)\<rparr>"
  have e: "fm_SetPanels pid ps f = (if length ps > 0 then map_option (\<lambda>p. set_focus p True ?f2) (panel_at ?f2) else Some ?f2)"
    unfolding fm_SetPanels_def s by (simp add: Let_def)
  have k: "\<forall>fr \<in> set (fm_stack f1). frame_ok fr" using assms st by (simp add: focus_ok_def)
  show ?thesis
  proof (cases "ps = []")
    case True
    then show ?thesis using e u k by (auto simp: focus_ok_def panel_at_def)
  next
    case False
    have fr: "frame_ok (fm_panels ?f2, fm_active ?f2)"
      using False index_of_lt [of "\<lambda>p. pid p = c" ps] by (auto simp: frame_ok_def split: option.split)
    show ?thesis using e False u k fr panel_at_frame [OF fr] by (auto simp: focus_ok_def)
  qed
qed

lemma focus_dive: "focus_ok f \<Longrightarrow> \<exists>f' b. fm_Dive kids f = Some (f', b) \<and> focus_ok f'"
proof -
  assume f: "focus_ok f"
  show ?thesis
  proof (cases "fm_panels f = []")
    case True
    then have "fm_Dive kids f = Some (f, False)" using f by (simp add: fm_Dive_def focus_ok_def)
    then show ?thesis using f by blast
  next
    case False
    then have fr: "frame_ok (fm_panels f, fm_active f)" and p: "panel_at f = Some (fm_panels f ! nat (fm_active f))"
      using f panel_at_frame by (auto simp: focus_ok_def)
    let ?p = "fm_panels f ! nat (fm_active f)"
    have g: "focus_ok (f\<lparr>fm_stack := fm_stack f @ [(fm_panels f, fm_active f)]\<rparr>)"
      using f fr by (auto simp: focus_ok_def panel_at_def)
    show ?thesis
    proof (cases "kids ?p = []")
      case True
      then show ?thesis using f fr p by (auto simp: fm_Dive_def frame_ok_def)
    next
      case k: False
      have "\<exists>f'. refocus (\<lambda>f. f\<lparr>fm_panels := kids ?p, fm_active := 0\<rparr>) (f\<lparr>fm_stack := fm_stack f @ [(fm_panels f, fm_active f)]\<rparr>) = Some f' \<and> focus_ok f'"
        using g k False focus_ok_stack [OF g] by (intro refocus_ok) (auto simp: frame_ok_def)
      then show ?thesis using fr p k by (auto simp: fm_Dive_def frame_ok_def)
    qed
  qed
qed

lemma focus_climb:
  assumes f: "focus_ok f" and ne: "fm_panels f \<noteq> [] \<or> fm_stack f = []"
  shows "\<exists>f' b. fm_Climb f = Some (f', b) \<and> focus_ok f'"
proof (cases "fm_stack f = []")
  case True
  then have "fm_Climb f = Some (f, False)" by (simp add: fm_Climb_def)
  then show ?thesis using f by blast
next
  case False
  obtain ps a where l: "last (fm_stack f) = (ps, a)" by force
  have fr: "frame_ok (ps, a)" using f False l last_in_set [OF False] by (auto simp: focus_ok_def)
  have "\<exists>f'. refocus (\<lambda>f. case last (fm_stack f) of (panels, active) \<Rightarrow>
      f\<lparr>fm_stack := butlast (fm_stack f), fm_panels := panels, fm_active := active\<rparr>) f = Some f' \<and> focus_ok f'"
    using f ne False l fr focus_ok_stack [OF f] by (intro refocus_ok) (auto split: prod.split dest: in_set_butlastD)
  then show ?thesis using False by (auto simp: fm_Climb_def)
qed

lemma climb_panics: "fm_panels f = [] \<Longrightarrow> fm_stack f \<noteq> [] \<Longrightarrow> fm_Climb f = None"
  by (auto simp: fm_Climb_def refocus_def panel_at_def)

lemma focus_step_total:
  assumes "focus_ok f"
  shows "focus_step pid kids x f = None \<longleftrightarrow> x = FClimb \<and> fm_panels f = [] \<and> fm_stack f \<noteq> []"
    and "focus_step pid kids x f = Some f' \<Longrightarrow> focus_ok f'"
proof -
  have "(focus_step pid kids x f = None \<longleftrightarrow> x = FClimb \<and> fm_panels f = [] \<and> fm_stack f \<noteq> []) \<and> (focus_step pid kids x f = Some f' \<longrightarrow> focus_ok f')"
  proof (cases x)
    case FCycle
    then show ?thesis using focus_cycle [OF assms] by auto
  next
    case FUp
    then show ?thesis using focus_up [OF assms] by auto
  next
    case (FPanel i)
    then show ?thesis using focus_panel [OF assms, of i] by auto
  next
    case (FSet ps)
    then show ?thesis using focus_set [OF assms, of pid ps] by auto
  next
    case FDive
    then show ?thesis using focus_dive [OF assms, of kids] by auto
  next
    case FClimb
    then show ?thesis using focus_climb [OF assms] climb_panics [of f] by (cases "fm_panels f = [] \<and> fm_stack f \<noteq> []") auto
  qed
  then show "focus_step pid kids x f = None \<longleftrightarrow> x = FClimb \<and> fm_panels f = [] \<and> fm_stack f \<noteq> []"
    and "focus_step pid kids x f = Some f' \<Longrightarrow> focus_ok f'" by auto
qed

lemma focus_run_ok: "focus_ok f \<Longrightarrow> focus_run pid kids xs f = Some f' \<Longrightarrow> focus_ok f'"
  by (induction xs arbitrary: f) (auto simp: bind_eq_Some_conv intro: focus_step_total(2))

text \<open>Property C32: after any operations exactly the active panel has the focus, the active index is in range, and the next
  operation panics only if it climbs while the list of panels was emptied below.\<close>

theorem focus_single:
  assumes "focus_run pid kids xs (NewFocusManager ps) = Some f"
  shows "(\<forall>p. fm_focused f p \<longleftrightarrow> fm_Active f = Some p) \<and> 0 \<le> fm_active f \<and> (fm_active f < int (length (fm_panels f)) \<or> fm_panels f = [] \<and> fm_active f = 0)
    \<and> (focus_step pid kids x f = None \<longleftrightarrow> x = FClimb \<and> fm_panels f = [] \<and> fm_stack f \<noteq> [])"
proof -
  have f: "focus_ok f" by (rule focus_run_ok [OF focus_new assms])
  have "fm_Active f = panel_at f" by (simp add: fm_Active_def panel_at_def)
  then show ?thesis using f focus_step_total(1) [OF f] by (auto simp: focus_ok_def frame_ok_def)
qed

definition demo_kids :: "nat \<Rightarrow> nat list" where "demo_kids p = (if p = 1 then [5, 6] else [])"
definition demo_pid :: "nat \<Rightarrow> string" where "demo_pid p = nat_dec p"

lemma focus_single_witness: "fm_focused (the (focus_run demo_pid demo_kids [FCycle, FDive, FCycle] (NewFocusManager [0, 1]))) 6"
proof -
  obtain f where f: "focus_run demo_pid demo_kids [FCycle, FDive, FCycle] (NewFocusManager [0, 1]) = Some f" and a: "fm_Active f = Some 6"
    by (simp add: demo_kids_def NewFocusManager_def set_focus_def fm_Cycle_def refocus_def panel_at_def Let_def fm_Dive_def fm_Active_def)
  show ?thesis using focus_single [OF f] a f by simp
qed

text \<open>Each rendering sets the panels to those of the top level, so the panels dived into are lost at once, and the depth stays.\<close>

lemma render_undoes_dive:
  "focus_run demo_pid demo_kids [FCycle, FDive, FSet [0, 1]] (NewFocusManager [0, 1]) =
     Some \<lparr>fm_panels = [0, 1], fm_active = 0, fm_stack = [([0, 1], 1)],
       fm_focused = (fm_focused (NewFocusManager []))(0 := False, 1 := True, 1 := False, 5 := True, 5 := False, 0 := True)\<rparr>"
  by (simp add: demo_kids_def demo_pid_def NewFocusManager_def set_focus_def fm_Cycle_def refocus_def panel_at_def Let_def fm_Dive_def fm_SetPanels_def fun_eq_iff)

subsection \<open>Sight\<close>

text \<open>Two sights that differ at most in the values of fields the agent may not see.\<close>

definition same_to_agent :: "sight_manager \<Rightarrow> cell_sight \<Rightarrow> cell_sight \<Rightarrow> bool" where
  "same_to_agent m cs cs' =
     (cs_PanelID cs = cs_PanelID cs' \<and> cs_CellID cs = cs_CellID cs' \<and> cs_CellTitle cs = cs_CellTitle cs' \<and> cs_Kind cs = cs_Kind cs' \<and>
      list_all2 (\<lambda>f f'. sg_Key f = sg_Key f' \<and> sg_Sensitive f = sg_Sensitive f' \<and>
        (sg_Value f = sg_Value f' \<or> sg_Sensitive (apply_field m (cs_PanelID cs) f))) (cs_Fields cs) (cs_Fields cs'))"

lemma apply_field_sel [simp]:
  "sg_Key (apply_field m p f) = sg_Key f" "sg_Value (apply_field m p f) = sg_Value f"
  "sg_Sensitive (apply_field m p f) = (case map_of (sm_reveals m) (sight_key p (sg_Key f)) of Some b \<Rightarrow> \<not> b | None \<Rightarrow> sg_Sensitive f)"
  by (simp_all add: apply_field_def split: option.split)

lemma ApplyCellSight_sel [simp]:
  "cs_PanelID (ApplyCellSight m cs) = cs_PanelID cs" "cs_CellID (ApplyCellSight m cs) = cs_CellID cs" "cs_CellTitle (ApplyCellSight m cs) = cs_CellTitle cs"
  "cs_Kind (ApplyCellSight m cs) = cs_Kind cs" "cs_Fields (ApplyCellSight m cs) = map (apply_field m (cs_PanelID cs)) (cs_Fields cs)"
  by (simp_all add: ApplyCellSight_def)

lemma shown_field:
  assumes "sg_Key f = sg_Key f'" "sg_Sensitive f = sg_Sensitive f'" "sg_Value f = sg_Value f' \<or> sg_Sensitive (apply_field m p f)"
  shows "sg_Sensitive (apply_field m p f) = sg_Sensitive (apply_field m p f')" "field_line (apply_field m p f) = field_line (apply_field m p f')"
proof -
  show e: "sg_Sensitive (apply_field m p f) = sg_Sensitive (apply_field m p f')" using assms(1,2) by (simp split: option.split)
  have k: "sg_Key (apply_field m p f) = sg_Key (apply_field m p f')" using assms by simp
  show "field_line (apply_field m p f) = field_line (apply_field m p f')"
  proof (cases "sg_Sensitive (apply_field m p f)")
    case True
    then show ?thesis using e unfolding field_line_def by metis
  next
    case False
    then have "sg_Value (apply_field m p f) = sg_Value (apply_field m p f')" using assms(3) by simp
    then show ?thesis unfolding field_line_def e k by metis
  qed
qed

lemma shown_fields:
  assumes "list_all2 (\<lambda>f f'. sg_Key f = sg_Key f' \<and> sg_Sensitive f = sg_Sensitive f' \<and> (sg_Value f = sg_Value f' \<or> sg_Sensitive (apply_field m p f))) fs fs'"
  shows "map field_line (map (apply_field m p) fs) = map field_line (map (apply_field m p) fs') \<and>
    hidden_fields (map (apply_field m p) fs) = hidden_fields (map (apply_field m p) fs')"
  using assms
proof (induction rule: list_all2_induct)
  case (Cons f fs f' fs')
  then have "sg_Sensitive (apply_field m p f) = sg_Sensitive (apply_field m p f')" "field_line (apply_field m p f) = field_line (apply_field m p f')"
    using shown_field [of f f' m p] by blast+
  then show ?case using Cons.IH by (simp add: hidden_fields_def del: apply_field_sel map_map)
qed simp

lemma same_prompt:
  assumes "same_to_agent m cs cs'" shows "FormatPrompt (ApplyCellSight m cs) = FormatPrompt (ApplyCellSight m cs')"
proof -
  note same = assms [unfolded same_to_agent_def]
  have "map field_line (cs_Fields (ApplyCellSight m cs)) = map field_line (cs_Fields (ApplyCellSight m cs')) \<and>
      hidden_fields (cs_Fields (ApplyCellSight m cs)) = hidden_fields (cs_Fields (ApplyCellSight m cs'))"
    using shown_fields [of m "cs_PanelID cs" "cs_Fields cs" "cs_Fields cs'"] same by (metis ApplyCellSight_sel(5))
  then show ?thesis using same unfolding FormatPrompt_def sight_empty_def by (simp only: ApplyCellSight_sel(1-4))
qed

text \<open>Property C33: the prompt the agent gets does not depend on the values of the fields that are sensitive and not revealed, or
  hidden by the operator; and a closed gate of the panel or of the operator leaves the prompt as it was typed.\<close>

theorem sight_noninterference:
  "(same_to_agent m cs cs' \<longrightarrow> sight_prompt m (Some (g, cs)) value = sight_prompt m (Some (g, cs')) value)
   \<and> (\<not> g \<or> \<not> IsGateOpen (cs_PanelID cs) m \<longrightarrow> sight_prompt m (Some (g, cs)) value = value)
   \<and> IsGateOpen p (SetGate p b m) = b \<and> (f \<in> set (cs_Fields (ApplyCellSight (Hide (cs_PanelID cs) k m) cs)) \<and> sg_Key f = k \<longrightarrow> sg_Sensitive f)"
proof (intro conjI impI)
  assume s: "same_to_agent m cs cs'"
  show "sight_prompt m (Some (g, cs)) value = sight_prompt m (Some (g, cs')) value"
    using s same_prompt [OF s] by (simp add: sight_prompt_def same_to_agent_def sight_empty_def)
next
  assume "f \<in> set (cs_Fields (ApplyCellSight (Hide (cs_PanelID cs) k m) cs)) \<and> sg_Key f = k"
  then have "f \<in> apply_field (Hide (cs_PanelID cs) k m) (cs_PanelID cs) ` set (cs_Fields cs)" and k: "sg_Key f = k" by simp_all
  then obtain x where x: "f = apply_field (Hide (cs_PanelID cs) k m) (cs_PanelID cs) x" by blast
  with k have "sg_Key x = k" by simp
  with x show "sg_Sensitive f" by (simp add: Hide_def)
qed (auto simp: sight_prompt_def IsGateOpen_def SetGate_def split: option.splits)

definition secret_sight :: "string \<Rightarrow> cell_sight" where
  "secret_sight v = \<lparr>cs_PanelID = ''env'', cs_CellID = ''c'', cs_CellTitle = [], cs_Kind = [], cs_Fields = [\<lparr>sg_Key = ''token'', sg_Value = v, sg_Sensitive = True\<rparr>]\<rparr>"

lemma sight_noninterference_witness:
  "sight_prompt NewSightManager (Some (True, secret_sight ''hunter2'')) ''hi'' = sight_prompt NewSightManager (Some (True, secret_sight ''x'')) ''hi''
   \<and> sg_Sensitive (hd (cs_Fields (ApplyCellSight (Hide ''env'' ''token'' NewSightManager) (secret_sight ''x''))))"
proof -
  have "same_to_agent NewSightManager (secret_sight ''hunter2'') (secret_sight ''x'')" by code_simp
  moreover have "hd (cs_Fields (ApplyCellSight (Hide ''env'' ''token'' NewSightManager) (secret_sight ''x'')))
      \<in> set (cs_Fields (ApplyCellSight (Hide (cs_PanelID (secret_sight ''x'')) ''token'' NewSightManager) (secret_sight ''x''))) \<and>
    sg_Key (hd (cs_Fields (ApplyCellSight (Hide ''env'' ''token'' NewSightManager) (secret_sight ''x'')))) = ''token''"
    by code_simp
  ultimately show ?thesis using sight_noninterference by blast
qed

text \<open>Field names are joined to panel names by a dot, which either may contain: revealing a field of one panel reveals one of another.\<close>

lemma reveal_leaks: "IsRevealed ''a.b'' ''c'' (Reveal ''a'' ''b.c'' NewSightManager)"
  by code_simp

subsection \<open>Shares of the screen\<close>

lemma sdiv_nonneg: "0 \<le> a \<Longrightarrow> 0 < b \<Longrightarrow> a sdiv b = a div (b :: int)"
  by (cases "a = 0") (simp_all add: signed_divide_int_def)













definition demo_slot :: "nat \<Rightarrow> int \<Rightarrow> panel_slot" where
  "demo_slot p w = \<lparr>pl_Panel = p, pl_Visible = True, pl_Weight = w, pl_MinHeight = 0, pl_Border = BorderOnly, pl_Focusable = True, pl_Direction = DirVertical, pl_Group = []\<rparr>"




text \<open>The border of a flexible panel is not counted: alone on a screen of ten lines it gets ten lines and two more for its border.\<close>

lemma flex_border_overflows:
  "mget 0 (ComputeHeights demo_pid (\<lambda>_. 0) (resize_engine 80 10 (register_slot (demo_slot 0 1) (NewLayoutEngine (NewFocusManager []))))) (demo_pid 0) = 10"
  by (simp add: ComputeHeights_def resize_engine_def register_slot_def NewLayoutEngine_def VisibleSlots_def demo_slot_def fixed_total_def flex_total_def
      flex_height_def sdiv_nonneg mget_def Let_def)

subsection \<open>Constraints and thirds\<close>

lemma clampHeight_bounds:
  "(0 < upper \<longrightarrow> clampHeight h lower upper \<le> upper) \<and> (0 < lower \<and> (upper \<le> 0 \<or> lower \<le> upper) \<longrightarrow> lower \<le> clampHeight h lower upper)"
  by (auto simp: clampHeight_def Let_def)

lemma SolveLayout_length: "length (SolveLayout cs n) = length cs"
  by (simp add: SolveLayout_def Let_def)

lemma int_trunc_div:
  assumes "0 \<le> k" "0 < d" "0 < n"
  shows "int_trunc (of_int k * (of_int n / of_int d)) = k * n div d"
proof -
  have "of_int k * (of_int n / of_int d :: rat) = of_int (k * n) / of_int d" by simp
  moreover have "\<not> of_int (k * n) / of_int d < (0 :: rat)" using assms by (simp add: not_less divide_nonneg_pos)
  ultimately show ?thesis unfolding int_trunc_def by (simp only: floor_divide_of_int_eq if_False)
qed

lemma thirds_step:
  assumes "0 < h" "int_trunc (of_int h * (1 / 4)) = q" "int_trunc (of_int h * (3 / 5)) = b" "b + max 3 q \<le> h"
  shows "ComputeThirdsLayout h n = \<lparr>th_OutputHeight = max (b - max n 1) 3, th_InputHeight = b - max (b - max n 1) 3, th_DashboardHeight = max 3 q\<rparr>"
  using assms(1,4) unfolding ComputeThirdsLayout_def assms(2,3) Let_def MinOutputHeight_def MinInputHeight_def MinDashboardHeight_def
  by (simp add: max_def split: if_splits)

lemma thirds_values:
  assumes "7 \<le> h"
  shows "ComputeThirdsLayout h n = (let i = min (max n 1) (h * 3 div 5 - 3) in
    \<lparr>th_OutputHeight = h * 3 div 5 - i, th_InputHeight = i, th_DashboardHeight = max 3 (h div 4)\<rparr>)"
proof -
  have q: "int_trunc (of_int h * (1 / 4)) = h div 4" using int_trunc_div [of h 4 1] assms by simp
  have o: "int_trunc (of_int h * (3 / 5)) = h * 3 div 5" using int_trunc_div [of h 5 3] assms by simp
  have o3: "5 * (h * 3 div 5) \<le> h * 3" "h * 3 < 5 * (h * 3 div 5) + 5" and q4: "4 * (h div 4) \<le> h" by simp_all
  have le: "h * 3 div 5 + max 3 (h div 4) \<le> h" using assms o3(1) q4 by (simp add: max_def)
  have four: "4 \<le> h * 3 div 5" using assms o3(2) by linarith
  have i: "h * 3 div 5 - max (h * 3 div 5 - max n 1) 3 = min (max n 1) (h * 3 div 5 - 3)" by (simp add: max_def min_def)
  have t: "max (h * 3 div 5 - max n 1) 3 = h * 3 div 5 - min (max n 1) (h * 3 div 5 - 3)" by (simp add: max_def min_def)
  show ?thesis using thirds_step [OF _ q o le, of n] assms unfolding Let_def i t by simp
qed

text \<open>On a screen of six lines or fewer the input gets none, and on four lines fewer than none.\<close>

lemma thirds_lose_input: "th_InputHeight (ComputeThirdsLayout 6 1) = 0" "th_InputHeight (ComputeThirdsLayout 4 1) = - 1"
  by (code_simp, code_simp)

subsection \<open>Wrapping\<close>

definition ink :: "char \<Rightarrow> bool" where "ink c = (c \<noteq> CHR '' '' \<and> c \<noteq> CHR 0x0A)"

lemma ink_trim_left: "filter ink (trim_left_sp s) = filter ink s"
  unfolding trim_left_sp_def by (induction s) (auto simp: ink_def)

lemma wrap_line_ink: "0 < w \<Longrightarrow> filter ink (concat (wrap_line line w)) = filter ink line"
proof (induction line w rule: wrap_line.induct)
  case (1 line w)
  let ?b = "wrap_break line w"
  show ?case
  proof (cases "length line > w")
    case True
    have "filter ink (concat (wrap_line line w)) = filter ink (take ?b line) @ filter ink (drop ?b line)"
      using 1 True by (simp add: wrap_line.simps [of line] ink_trim_left)
    then show ?thesis by (simp flip: filter_append)
  next
    case False
    then show ?thesis by (simp add: wrap_line.simps [of line])
  qed
qed

lemma wrap_line_short: "0 < w \<Longrightarrow> x \<in> set (wrap_line line w) \<Longrightarrow> length x \<le> w \<and> set x \<subseteq> set line"
proof (induction line w rule: wrap_line.induct)
  case (1 line w)
  let ?b = "wrap_break line w"
  have sub: "set (trim_left_sp (drop ?b line)) \<subseteq> set line"
    unfolding trim_left_sp_def by (meson order_trans set_drop_subset set_dropWhileD subsetI)
  have b: "?b \<le> w" by (simp add: wrap_break_def break_at_le)
  show ?case
  proof (cases "length line > w")
    case True
    then consider "x = take ?b line" | "x \<in> set (wrap_line (trim_left_sp (drop ?b line)) w)"
      using 1 by (auto simp: wrap_line.simps [of line])
    then show ?thesis
    proof cases
      case 1
      then show ?thesis using b set_take_subset [of ?b line] by auto
    next
      case 2
      with "1.IH" True "1.prems" sub show ?thesis by blast
    qed
  next
    case False
    then show ?thesis using 1 by (simp add: wrap_line.simps [of line] split: if_splits)
  qed
qed

lemma pieces_result:
  assumes "\<forall>p \<in> set ps. length p \<le> w \<and> CHR 0x0A \<notin> set p" "\<forall>l \<in> set (str_split r (CHR 0x0A)). length l \<le> w"
  shows "(\<forall>l \<in> set (str_split (foldl write_piece r ps) (CHR 0x0A)). length l \<le> w) \<and>
    filter ink (foldl write_piece r ps) = filter ink r @ filter ink (concat ps)"
  using assms
proof (induction ps arbitrary: r)
  case (Cons p ps)
  have split: "str_split (a @ CHR 0x0A # b) (CHR 0x0A) = str_split a (CHR 0x0A) @ str_split b (CHR 0x0A)" for a b
    unfolding str_split_def by (induction a) (auto split: list.split)
  have "str_split p (CHR 0x0A) = [p]" if "CHR 0x0A \<notin> set p" for p
    using that unfolding str_split_def by (induction p) auto
  then have "\<forall>l \<in> set (str_split (write_piece r p) (CHR 0x0A)). length l \<le> w"
    using Cons.prems by (auto simp: write_piece_def split)
  moreover have "filter ink (write_piece r p) = filter ink r @ filter ink p" by (simp add: write_piece_def ink_def)
  ultimately show ?case using Cons by simp
qed simp

lemma ink_split: "filter ink (concat (str_split s (CHR 0x0A))) = filter ink s"
  unfolding str_split_def by (induction s) (auto simp: ink_def split: list.split)

lemma split_line: "l \<in> set (str_split s c) \<Longrightarrow> c \<notin> set l \<and> length l \<le> length s"
  unfolding str_split_def by (induction s arbitrary: l) (fastforce split: list.splits if_splits)+

text \<open>No line of wrapped text is longer than the width, and wrapping changes nothing but spaces and line ends.\<close>

lemma wrap_bounded:
  assumes "0 < width"
  shows "(\<forall>l \<in> set (str_split (WrapText text width) (CHR 0x0A)). int (length l) \<le> width) \<and> filter ink (WrapText text width) = filter ink text"
proof (cases "int (length text) \<le> width")
  case True
  then show ?thesis using split_line by (fastforce simp: WrapText_def)
next
  case False
  let ?w = "nat width" and ?ls = "str_split text (CHR 0x0A)"
  have "\<forall>p \<in> set (concat (map (wrap_pieces ?w) ?ls)). length p \<le> ?w \<and> CHR 0x0A \<notin> set p"
    using assms split_line wrap_line_short [of ?w] by (fastforce simp: wrap_pieces_def split: if_splits)
  from pieces_result [OF this, of "[]"] have
    "(\<forall>l \<in> set (str_split (WrapText text width) (CHR 0x0A)). length l \<le> ?w) \<and> filter ink (WrapText text width) = filter ink (concat (concat (map (wrap_pieces ?w) ?ls)))"
    using False assms by (simp add: WrapText_def str_split_def)
  moreover have "filter ink (concat (concat (map (wrap_pieces ?w) ls))) = filter ink (concat ls)" for ls
    using assms by (induction ls) (simp_all add: wrap_pieces_def wrap_line_ink)
  ultimately show ?thesis using ink_split assms by (simp add: zless_nat_eq_int_zless le_nat_iff)
qed

lemma wrap_bounded_witness: "filter ink (WrapText ''ab cd efg'' 4) = filter ink ''ab cd efg''"
  using wrap_bounded [of 4 "''ab cd efg''"] by simp

text \<open>An empty first line is lost.\<close>

lemma wrap_loses_first_line: "WrapText (nl @ ''ab cd efg'') 9 = ''ab cd efg''"
  by (simp add: WrapText_def str_split_def wrap_pieces_def write_piece_def)

end
