(* ===== verification/Tool_Commands.thy ===== *)
theory Tool_Commands
  imports Artifact_Lifecycle Artifact_Topo Tool_Stores Tool_Reports Quality_Monitor Sandbox_Rooms Go_Int64
begin

text \<open>
  The tools an agent calls by name and JSON input (\<^verbatim>\<open>tools/builtin/shell.go\<close>, \<^verbatim>\<open>assignment.go\<close>, \<^verbatim>\<open>render.go\<close>,
  \<^verbatim>\<open>bash.go\<close>, \<^verbatim>\<open>grep.go\<close>, \<^verbatim>\<open>glob.go\<close>, \<^verbatim>\<open>symbol.go\<close>): each reads its request and calls the component it stands for. The JSON codec is a
  pair of arguments per type, and so are the programs that are run. The cached answers of package
  canon are an argument of the git tool, which may be missing.
\<close>

datatype cmd_error =
  CmdParse string
| CmdRequired string
| CmdUnknownAction string
| CmdMissing string string
| CmdGraph art_error
| CmdDiscourse discourse_error
| CmdFailed string
| CmdPanic

subsection \<open>Plans\<close>

record plan_request =
  pr_Action :: string
  pr_Title :: string
  pr_ID :: string
  pr_Status :: string

definition new_task :: "string \<Rightarrow> 'ann artifact" where
  "new_task title = \<lparr>a_ID = [], a_Kind = KindTask, a_Title = title, a_Status = StatusPending, a_Owner = [], a_Content = [],
     a_Sections = None, a_Files = [], a_DependsOn = [], a_Children = [], a_Parent = [], a_Labels = [], a_Annotations = [],
     a_Version = 0, a_Priority = 0, a_Created = zero_time, a_Updated = zero_time\<rparr>"

text \<open>The errors of storing and looking up are ignored; a missing task is printed as null.\<close>

definition plan_create :: "gotime \<Rightarrow> ('ann artifact \<Rightarrow> string) \<Rightarrow> string \<Rightarrow> 'ann graph \<Rightarrow> 'ann graph \<times> string" where
  "plan_create now json title g =
     (case (case graph_add now g (new_task title) of Inl _ \<Rightarrow> (g, []) | Inr (i, g') \<Rightarrow> (g', i)) of
        (g1, i) \<Rightarrow> (g1, case graph_get g1 i of Inl _ \<Rightarrow> ''null'' | Inr task \<Rightarrow> json task))"

definition PlanExecute :: "gotime \<Rightarrow> (string \<Rightarrow> string + plan_request) \<Rightarrow> ('ann artifact \<Rightarrow> string) \<Rightarrow> ('ann artifact list \<Rightarrow> string) \<Rightarrow>
    string \<Rightarrow> 'ann graph \<Rightarrow> 'ann graph \<times> (cmd_error + string)" where
  "PlanExecute now parse json jsons inp g =
     (case parse inp of
        Inl err \<Rightarrow> (g, Inl (CmdParse err))
      | Inr req \<Rightarrow>
          if pr_Action req = ''create'' then
            (if pr_Title req = [] then (g, Inl (CmdRequired ''plan create: title required''))
             else case plan_create now json (pr_Title req) g of (g1, out) \<Rightarrow> (g1, Inr out))
          else if pr_Action req = ''get'' then
            (if pr_ID req = [] then (g, Inl (CmdRequired ''plan get: id required''))
             else case graph_get g (pr_ID req) of Inl _ \<Rightarrow> (g, Inl (CmdMissing ''plan get'' (pr_ID req))) | Inr task \<Rightarrow> (g, Inr (json task)))
          else if pr_Action req = ''update'' then
            (if pr_ID req = [] \<or> pr_Status req = [] then (g, Inl (CmdRequired ''plan update: id and status required''))
             else case graph_update_status now g (pr_ID req) (pr_Status req) of
                    Inl e \<Rightarrow> (g, Inl (CmdGraph e)) | Inr g1 \<Rightarrow> (g1, Inr (''updated '' @ pr_ID req @ '' to '' @ pr_Status req)))
          else if pr_Action req = ''list'' then (g, Inr (jsons (graph_list_sorted g)))
          else if pr_Action req = ''topo_sort'' then (g, case topo_sort g of None \<Rightarrow> Inl CmdPanic | Some tasks \<Rightarrow> Inr (jsons tasks))
          else (g, Inl (CmdUnknownAction (pr_Action req))))"

subsection \<open>Tests\<close>

record test_request =
  tq_Action :: string
  tq_Args :: "string list"
  tq_Data :: string
  tq_Package :: string

definition test_args :: "string list \<Rightarrow> string list" where
  "test_args args = [''test'', ''-json''] @ (if length args > 0 then args else [''./...''])"

text \<open>An answer may carry output beside its error.\<close>

definition TestExecute :: "(string \<Rightarrow> string + test_request) \<Rightarrow> (string \<Rightarrow> string option) option \<Rightarrow> (string list \<Rightarrow> string \<times> string option) \<Rightarrow>
    (string \<Rightarrow> test_event option) \<Rightarrow> (string \<Rightarrow> rat option) \<Rightarrow> (test_result \<Rightarrow> string) \<Rightarrow> string \<Rightarrow> string \<times> cmd_error option" where
  "TestExecute parse litmus go decode flt json inp =
     (case parse inp of
        Inl err \<Rightarrow> ([], Some (CmdParse err))
      | Inr req \<Rightarrow>
          if tq_Action req = ''status'' then
            (case litmus of
               None \<Rightarrow> ([], Some (CmdRequired ''test status: Litmus not configured''))
             | Some cached \<Rightarrow>
                 (case cached (if tq_Package req = [] then ''./...'' else tq_Package req) of
                    None \<Rightarrow> ([CHR ''{'', CHR 0x22] @ ''cached'' @ [CHR 0x22] @ '': false}'', None) | Some r \<Rightarrow> (r, None)))
          else if tq_Action req = ''run'' then
            (case go (test_args (tq_Args req)) of (out, err) \<Rightarrow>
               (case ParseGoTestJSON decode flt out of
                  None \<Rightarrow> (out, Some (case err of Some e \<Rightarrow> CmdFailed e | None \<Rightarrow> CmdParse ''test parse''))
                | Some r \<Rightarrow> (json r, None)))
          else if tq_Action req = ''parse'' then
            (if tq_Data req = [] then ([], Some (CmdRequired ''test parse: data required''))
             else case ParseGoTestJSON decode flt (tq_Data req) of None \<Rightarrow> ([], Some (CmdParse ''test parse'')) | Some r \<Rightarrow> (json r, None))
          else ([], Some (CmdUnknownAction (tq_Action req))))"

subsection \<open>Git\<close>

record git_request =
  gq_Action :: string
  gq_N :: int
  gq_File :: string

text \<open>The answers of canon and of git, as JSON where they are printed so; \<^const>\<open>None\<close> is an error.\<close>

record canon_answers =
  ca_DirtyFiles :: "string option"
  ca_RecentCommits :: "int \<Rightarrow> string option"
  ca_Blame :: "string \<Rightarrow> string option"

definition git_answer :: "('a \<Rightarrow> string) \<Rightarrow> git_error + 'a \<Rightarrow> cmd_error + string" where
  "git_answer json r = (case r of Inl GitPanic \<Rightarrow> Inl CmdPanic | Inl GitFailed \<Rightarrow> Inl (CmdFailed ''git'') | Inr x \<Rightarrow> Inr (json x))"

definition GitExecute :: "(string \<Rightarrow> string + git_request) \<Rightarrow> canon_answers option \<Rightarrow> (string list \<Rightarrow> string option) \<Rightarrow> (git_status \<Rightarrow> string) \<Rightarrow>
    (commit list \<Rightarrow> string) \<Rightarrow> string \<Rightarrow> cmd_error + string" where
  "GitExecute parse canon git jstatus jlog inp =
     (let branch = git [''rev-parse'', ''--abbrev-ref'', ''HEAD'']
      in case parse inp of
        Inl err \<Rightarrow> Inl (CmdParse err)
      | Inr req \<Rightarrow>
          if gq_Action req = ''status'' then
            (case Option.bind canon ca_DirtyFiles of
               Some j \<Rightarrow> Inr j
             | None \<Rightarrow> git_answer jstatus (git_status_of branch (git [''status'', ''--porcelain=v1'', ''-b''])))
          else if gq_Action req = ''diff'' then (case git [''diff''] of None \<Rightarrow> Inl (CmdFailed ''git diff'') | Some d \<Rightarrow> Inr d)
          else if gq_Action req = ''log'' then
            (let n = (if gq_N req \<le> 0 then 10 else gq_N req)
             in case Option.bind canon (\<lambda>c. ca_RecentCommits c n) of
                  Some j \<Rightarrow> Inr j
                | None \<Rightarrow> git_answer jlog (git_log_of (git [''log'', CHR ''-'' # int_dec n, ''--format=%H'' @ [CHR 9] @ ''%an'' @ [CHR 9] @ ''%at'' @ [CHR 9] @ ''%s''])))
          else if gq_Action req = ''branch'' then (case branch of None \<Rightarrow> Inl (CmdFailed ''git branch'') | Some s \<Rightarrow> Inr (trim_space s))
          else if gq_Action req = ''blame'' then
            (if gq_File req = [] then Inl (CmdRequired ''git blame: file is required'')
             else case Option.bind canon (\<lambda>c. ca_Blame c (gq_File req)) of
                    Some j \<Rightarrow> Inr j | None \<Rightarrow> Inl (CmdRequired ''git blame: Canon required (no fallback implemented)''))
          else Inl (CmdUnknownAction (gq_Action req)))"

subsection \<open>Architecture and drift\<close>

record arch_request =
  aq_Action :: string
  aq_Layers :: "string list"

definition ArchExecute :: "(string \<Rightarrow> string + arch_request) \<Rightarrow> string option \<Rightarrow> (string \<Rightarrow> (go_list_package \<times> string) option) \<Rightarrow> (arch_report \<Rightarrow> string) \<Rightarrow>
    (string list \<Rightarrow> string) \<Rightarrow> string \<Rightarrow> cmd_error + string" where
  "ArchExecute parse listed decode jreport jlist inp =
     (case parse inp of
        Inl err \<Rightarrow> Inl (CmdParse err)
      | Inr req \<Rightarrow>
          if aq_Action req = ''analyze'' then
            (case AnalyzeImports listed decode of None \<Rightarrow> Inl (CmdFailed ''arch analyze'') | Some report \<Rightarrow> Inr (jreport report))
          else if aq_Action req = ''violations'' then
            (if length (aq_Layers req) < 2 then Inl (CmdRequired ''arch violations: at least 2 layers required'')
             else case AnalyzeImports listed decode of
                    None \<Rightarrow> Inl (CmdFailed ''arch violations'') | Some report \<Rightarrow> Inr (jlist (CheckLayerViolations report (aq_Layers req))))
          else Inl (CmdUnknownAction (aq_Action req)))"

definition no_tests :: test_result where "no_tests = ts_result test_scan_start"

definition ReconcileExecute :: "(string \<Rightarrow> string + string) \<Rightarrow> 'ann graph option \<Rightarrow> string option \<Rightarrow> (string \<Rightarrow> (go_list_package \<times> string) option) \<Rightarrow>
    string \<times> bool \<Rightarrow> (string \<Rightarrow> test_event option) \<Rightarrow> (string \<Rightarrow> rat option) \<Rightarrow> (drift_report \<Rightarrow> string) \<Rightarrow> string \<Rightarrow> cmd_error + string" where
  "ReconcileExecute parse plan listed decode tested tdecode flt json inp =
     (case parse inp of
        Inl err \<Rightarrow> Inl (CmdParse err)
      | Inr action \<Rightarrow>
          if action = ''drift'' then
            (let arch = AnalyzeImports listed decode;
                 tests = (case tested of (out, ok) \<Rightarrow> if ok then (case ParseGoTestJSON tdecode flt out of Some r \<Rightarrow> r | None \<Rightarrow> no_tests) else no_tests)
             in Inr (json (ComputeDrift plan arch (Some tests))))
          else Inl (CmdUnknownAction action))"

subsection \<open>Discourse\<close>

record disc_request =
  dq_Action :: string
  dq_Scope :: string
  dq_TopicID :: string
  dq_ThreadID :: string
  dq_Title :: string
  dq_Kind :: string
  dq_Role :: string
  dq_Content :: string

definition day_ns :: int where "day_ns = 24 * 60 * 60 * 1000000000"

definition disc_scope :: "disc_request \<Rightarrow> string" where
  "disc_scope req = (if dq_Scope req = [] then ''/'' else dq_Scope req)"

definition DiscourseExecute :: "gotime \<Rightarrow> (string \<Rightarrow> string + disc_request) \<Rightarrow> (disc_topic \<Rightarrow> string) \<Rightarrow> (disc_thread \<Rightarrow> string) \<Rightarrow> (disc_topic list \<Rightarrow> string) \<Rightarrow>
    string \<Rightarrow> discourse \<Rightarrow> discourse \<times> (cmd_error + string)" where
  "DiscourseExecute now parse jtopic jthread jtopics inp d =
     (case parse inp of
        Inl err \<Rightarrow> (d, Inl (CmdParse err))
      | Inr req \<Rightarrow>
          let scope = disc_scope req in
          if dq_Action req = ''create_topic'' then
            (if dq_Title req = [] then (d, Inl (CmdRequired ''discourse create_topic: title required''))
             else case CreateTopic now scope (dq_Title req) (if dq_Kind req = [] then ''discussion'' else dq_Kind req) d of (d1, topic) \<Rightarrow> (d1, Inr (jtopic topic)))
          else if dq_Action req = ''get_topic'' then
            (if dq_TopicID req = [] then (d, Inl (CmdRequired ''discourse get_topic: topic_id required''))
             else (d, case GetTopic scope (dq_TopicID req) d of None \<Rightarrow> Inl (CmdMissing scope (dq_TopicID req)) | Some topic \<Rightarrow> Inr (jtopic topic)))
          else if dq_Action req = ''create_thread'' then
            (if dq_TopicID req = [] then (d, Inl (CmdRequired ''discourse create_thread: topic_id required''))
             else case CreateThread now scope (dq_TopicID req) d of (d1, r) \<Rightarrow> (d1, case r of Inl e \<Rightarrow> Inl (CmdDiscourse e) | Inr th \<Rightarrow> Inr (jthread th)))
          else if dq_Action req = ''append'' then
            (if dq_TopicID req = [] \<or> dq_ThreadID req = [] \<or> dq_Content req = []
             then (d, Inl (CmdRequired ''discourse append: topic_id, thread_id, and content required''))
             else case AppendMessage now scope (dq_TopicID req) (dq_ThreadID req) (if dq_Role req = [] then ''assistant'' else dq_Role req) (dq_Content req) d of
                    (d1, r) \<Rightarrow> (d1, case r of Inl e \<Rightarrow> Inl (CmdDiscourse e) | Inr _ \<Rightarrow> Inr ''ok''))
          else if dq_Action req = ''stale'' then (d, Inr (jtopics (StaleTopics now scope day_ns d)))
          else if dq_Action req = ''open_count'' then (d, Inr (nat_dec (OpenTopicCount scope d)))
          else (d, Inl (CmdUnknownAction (dq_Action req))))"

subsection \<open>Latencies\<close>

record latency_entry =
  ly_Name :: string
  ly_P50 :: string
  ly_P95 :: string
  ly_Count :: nat

definition LatencyExecute :: "(string \<Rightarrow> string + (string \<times> string)) \<Rightarrow> (int \<Rightarrow> string) \<Rightarrow> (latency_entry list \<Rightarrow> string) \<Rightarrow> string \<Rightarrow> latency_tracker \<Rightarrow> cmd_error + string" where
  "LatencyExecute parse dur json inp t =
     (case parse inp of
        Inl err \<Rightarrow> Inl (CmdParse err)
      | Inr (action, tool) \<Rightarrow>
          if action = ''report'' then
            Inr (json (map (\<lambda>name. \<lparr>ly_Name = name, ly_P50 = dur (P50 name t), ly_P95 = dur (P95 name t), ly_Count = latency_count name t\<rparr>) (AllTools t)))
          else if action = ''p50'' then (if tool = [] then Inl (CmdRequired ''latency p50: tool required'') else Inr (dur (P50 tool t)))
          else if action = ''p95'' then (if tool = [] then Inl (CmdRequired ''latency p95: tool required'') else Inr (dur (P95 tool t)))
          else Inl (CmdUnknownAction action))"

subsection \<open>Assignments\<close>

record asg_request =
  sq_Action :: string
  sq_AgentID :: string
  sq_Task :: string
  sq_ID :: string
  sq_Status :: string
  sq_Result :: string
  sq_Comment :: string

definition assignment_line :: "agent_assignment \<Rightarrow> string" where
  "assignment_line a = as_ID a @ '' | '' @ as_AgentID a @ '' | '' @ as_Task a @ '' | '' @ as_Status a @ nl"

definition AssignmentExecute :: "(nat \<Rightarrow> string) \<Rightarrow> (string \<Rightarrow> string + asg_request) \<Rightarrow> string \<Rightarrow> assign_manager \<Rightarrow> assign_manager \<times> (cmd_error + string)" where
  "AssignmentExecute utf8 parse inp m =
     (case parse inp of
        Inl err \<Rightarrow> (m, Inl (CmdParse err))
      | Inr req \<Rightarrow>
          if sq_Action req = ''assign'' then
            (if sq_AgentID req = [] \<or> sq_Task req = [] then (m, Inl (CmdRequired ''assignment assign: agent_id and task required''))
             else case assign_task utf8 (sq_AgentID req) (sq_Task req) m of
                    (m1, i) \<Rightarrow> (m1, Inr (''Assigned '' @ sq_Task req @ '' to '' @ sq_AgentID req @ '' (id: '' @ i @ '')'')))
          else if sq_Action req = ''update'' then
            (if sq_ID req = [] \<or> sq_Status req = [] then (m, Inl (CmdRequired ''assignment update: id and status required''))
             else if sq_Comment req = [] then (m, Inl (CmdRequired ''assignment update: comment required on state change''))
             else (update_assignment (sq_ID req) (sq_Status req) (sq_Result req) m, Inr (''Updated '' @ sq_ID req @ '' to '' @ sq_Status req)))
          else if sq_Action req = ''list'' then
            (let st = (if sq_Status req \<noteq> [] then sq_Status req else Assigned); items = list_assignments st m
             in (m, Inr (if length items = 0 then ''No assignments with status: '' @ st else concat (map assignment_line items))))
          else (m, Inl (CmdUnknownAction (sq_Action req))))"

subsection \<open>Rendering\<close>

definition validRenderTypes :: "string list" where
  "validRenderTypes = [''table'', ''tree'', ''progress'', ''chart'', ''diff'', ''diagram'', ''timeline'', ''code'']"

datatype render_error = RenderParse string | ErrRenderMissingField | ErrRenderUnknownType string | ErrRenderInvalidData

definition RenderExecute :: "(string \<Rightarrow> string + (string \<times> string \<times> string)) \<Rightarrow> (string \<Rightarrow> bool) \<Rightarrow> string \<Rightarrow> render_error + string" where
  "RenderExecute parse valid inp =
     (case parse inp of
        Inl err \<Rightarrow> Inl (RenderParse err)
      | Inr (ty, title, data) \<Rightarrow>
          if ty = [] \<or> title = [] then Inl ErrRenderMissingField
          else if ty \<notin> set validRenderTypes then Inl (ErrRenderUnknownType ty)
          else if data \<noteq> [] \<and> \<not> valid data then Inl ErrRenderInvalidData
          else Inr inp)"

subsection \<open>Shell commands\<close>

record bash_input =
  bi_Command :: string
  bi_Timeout :: int64

datatype bash_error = BashParse string | BashEmpty | BashExec string

definition second_ns :: int64 where "second_ns = 1000000000"

definition bash_timeout :: "int64 \<Rightarrow> int64" where
  "bash_timeout t = (if sint t > 0 then t * second_ns else 120 * second_ns)"

definition BashExecute :: "(string \<Rightarrow> string + bash_input) \<Rightarrow> (string \<Rightarrow> int64 \<Rightarrow> run_error \<times> string \<times> string) \<Rightarrow> string \<Rightarrow> bash_error + string" where
  "BashExecute parse run inp =
     (case parse inp of
        Inl err \<Rightarrow> Inl (BashParse err)
      | Inr i \<Rightarrow>
          if bi_Command i = [] then Inl BashEmpty
          else (case run (bi_Command i) (bash_timeout (bi_Timeout i)) of
                  (RunFailed s, out, errs) \<Rightarrow> Inl (BashExec s)
                | (end, out, errs) \<Rightarrow>
                    let exitCode = (case end of RunExit n \<Rightarrow> n | _ \<Rightarrow> 0);
                        r1 = (if length errs > 0 then out @ nl @ ''STDERR:'' @ nl @ errs else out)
                    in Inr (if exitCode \<noteq> 0 then r1 @ nl @ ''EXIT CODE: '' @ int_dec exitCode else r1)))"

subsection \<open>Searching\<close>

record grep_input =
  gi_Pattern :: string
  gi_Path :: string
  gi_Limit :: int

datatype search_error = SearchParse string | SearchEmpty | SearchRegex string | SearchOpen string | SearchGlob string | SearchRequired string | SearchUnknown string

definition maxGrepResults :: int where "maxGrepResults = 100"

definition grep_limit :: "grep_input \<Rightarrow> int" where
  "grep_limit i = (if gi_Limit i > 0 then gi_Limit i else maxGrepResults)"

definition grep_line :: "string \<Rightarrow> nat \<Rightarrow> string \<Rightarrow> string" where
  "grep_line path n l = path @ '':'' @ nat_dec n @ '': '' @ l @ nl"

text \<open>The loop, with the number of the line and the matches left before it stops.\<close>

fun grep_loop :: "(string \<Rightarrow> bool) \<Rightarrow> string \<Rightarrow> int \<Rightarrow> nat \<Rightarrow> int \<Rightarrow> string list \<Rightarrow> string \<times> int" where
  "grep_loop hit path limit n cnt [] = ([], cnt)"
| "grep_loop hit path limit n cnt (l # ls) =
     (if hit l then
        (if cnt + 1 \<ge> limit then (grep_line path n l @ ''... (truncated at '' @ int_dec limit @ '' matches)'' @ nl, cnt + 1)
         else case grep_loop hit path limit (n + 1) (cnt + 1) ls of (out, c) \<Rightarrow> (grep_line path n l @ out, c))
      else grep_loop hit path limit (n + 1) cnt ls)"

definition grep_path :: "string \<Rightarrow> string \<Rightarrow> string" where
  "grep_path workDir path = (if workDir \<noteq> [] \<and> \<not> is_rooted path then path_join [workDir, path] else path)"

definition GrepExecute :: "(string \<Rightarrow> string + grep_input) \<Rightarrow> (string \<Rightarrow> string + (string \<Rightarrow> bool)) \<Rightarrow> (string \<Rightarrow> string option) \<Rightarrow> string \<Rightarrow> string \<Rightarrow> search_error + string" where
  "GrepExecute parse compile open_file workDir inp =
     (case parse inp of
        Inl err \<Rightarrow> Inl (SearchParse err)
      | Inr i \<Rightarrow>
          if gi_Pattern i = [] \<or> gi_Path i = [] then Inl SearchEmpty
          else let path = grep_path workDir (gi_Path i)
            in (case compile (gi_Pattern i) of
                  Inl err \<Rightarrow> Inl (SearchRegex err)
                | Inr hit \<Rightarrow>
                    (case open_file path of
                       None \<Rightarrow> Inl (SearchOpen path)
                     | Some text \<Rightarrow>
                         (case grep_loop hit path (grep_limit i) 1 0 (scan_lines text) of
                            (out, cnt) \<Rightarrow> Inr (if cnt = 0 then ''no matches found'' else out)))))"

definition glob_pattern :: "string \<Rightarrow> string \<Rightarrow> string \<Rightarrow> string" where
  "glob_pattern workDir path pat =
     (let base = (if path = [] \<and> workDir \<noteq> [] then workDir else path) in if base \<noteq> [] then path_join [base, pat] else pat)"

definition GlobExecute :: "(string \<Rightarrow> string + (string \<times> string)) \<Rightarrow> (string \<Rightarrow> string list option) \<Rightarrow> string \<Rightarrow> string \<Rightarrow> search_error + string" where
  "GlobExecute parse glob workDir inp =
     (case parse inp of
        Inl err \<Rightarrow> Inl (SearchParse err)
      | Inr (pat, path) \<Rightarrow>
          if pat = [] then Inl SearchEmpty
          else (case glob (glob_pattern workDir path pat) of
                  None \<Rightarrow> Inl (SearchGlob (glob_pattern workDir path pat))
                | Some matches \<Rightarrow> Inr (if length matches = 0 then ''no files found'' else str_join matches nl)))"

record symbol_request =
  yq_Action :: string
  yq_Query :: string
  yq_File :: string
  yq_Scope :: string

text \<open>The index is an argument: the fuzzy searches, and the symbols of a file after it was read.\<close>

record ('f, 's) lector_index =
  li_FuzzyFiles :: "string \<Rightarrow> 'f list"
  li_FuzzySymbols :: "string \<Rightarrow> 's list"
  li_SymbolsForFile :: "string \<Rightarrow> 's list"

definition SymbolExecute :: "(string \<Rightarrow> string + symbol_request) \<Rightarrow> ('f, 's) lector_index \<Rightarrow> ('f list \<times> 's list \<Rightarrow> string) \<Rightarrow> ('s list \<Rightarrow> string) \<Rightarrow> ('f list \<Rightarrow> string) \<Rightarrow>
    string \<Rightarrow> search_error + string" where
  "SymbolExecute parse ix jboth jsyms jfiles inp =
     (case parse inp of
        Inl err \<Rightarrow> Inl (SearchParse err)
      | Inr r \<Rightarrow>
          if yq_Action r = ''search'' then
            (if yq_Query r = [] then Inl (SearchRequired ''symbol search: query is required'')
             else let scope = (if yq_Scope r = [] then ''both'' else yq_Scope r)
               in Inr (jboth ((if scope = ''files'' \<or> scope = ''both'' then li_FuzzyFiles ix (yq_Query r) else []),
                              (if scope = ''symbols'' \<or> scope = ''both'' then li_FuzzySymbols ix (yq_Query r) else []))))
          else if yq_Action r = ''symbols'' then
            (if yq_File r = [] then Inl (SearchRequired ''symbol symbols: file is required'') else Inr (jsyms (li_SymbolsForFile ix (yq_File r))))
          else if yq_Action r = ''files'' then
            (if yq_Query r = [] then Inl (SearchRequired ''symbol files: query is required'') else Inr (jfiles (li_FuzzyFiles ix (yq_Query r))))
          else Inl (SearchUnknown (yq_Action r)))"

subsection \<open>Facts\<close>

text \<open>A line too long for the buffer ends the search without an error, whatever comes after it.\<close>

lemma grep_stops_at_long_line:
  "65536 \<le> int (length l) \<Longrightarrow> CHR 0x0A \<notin> set l \<Longrightarrow> scan_lines (l @ CHR 0x0A # rest) = []"
proof -
  assume l: "65536 \<le> int (length l)" "CHR 0x0A \<notin> set l"
  have "str_split (l @ CHR 0x0A # rest) (CHR 0x0A) = l # str_split rest (CHR 0x0A)"
    using l(2) unfolding str_split_def by (induction l) auto
  then show ?thesis using l(1) unfolding scan_lines_def Let_def
    by (cases "str_split rest (CHR 0x0A)") (auto simp: str_split_def)
qed

lemma grep_count: "snd (grep_loop hit path limit n cnt ls) = (if cnt < limit then min limit (cnt + int (length (filter hit ls)))
    else if filter hit ls = [] then cnt else cnt + 1)"
  by (induction ls arbitrary: n cnt) (auto simp: case_prod_beta)

text \<open>The search for names does not resolve a relative path against the work directory, as the search in a file does.\<close>

lemma glob_ignores_workdir: "glob_pattern ''/w'' ''src'' ''x'' = ''src/x'' \<and> grep_path ''/w'' ''src/x'' = ''/w/src/x''"
  by code_simp

text \<open>A timeout of some three hundred years or more wraps around and has run out before the command starts.\<close>

lemma bash_timeout_wraps: "sint (bash_timeout 10000000000) = - 8446744073709551616"
proof -
  have t: "sint (10000000000 :: int64) = 10000000000" using sint64_of_int [of 10000000000] by simp
  have "bash_timeout 10000000000 = of_int (10000000000 * 1000000000)" by (simp add: bash_timeout_def second_ns_def t)
  then show ?thesis by (simp only: sint64_of_int_mod) simp
qed

lemma bash_timeout_exact: "0 < sint t \<Longrightarrow> sint t \<le> 9223372036 \<Longrightarrow> sint (bash_timeout t) = sint t * 1000000000"
proof -
  assume t: "0 < sint t" "sint t \<le> 9223372036"
  have "bash_timeout t = of_int (sint t * 1000000000)" using t(1) by (simp add: bash_timeout_def second_ns_def)
  then show "sint (bash_timeout t) = sint t * 1000000000" using t sint64_of_int [of "sint t * 1000000000"] by simp
qed

text \<open>The action the schema offers for giving an assignment back is not one the tool knows.\<close>

lemma unassign_unknown:
  "sq_Action req = ''unassign'' \<Longrightarrow> AssignmentExecute utf8 (\<lambda>_. Inr req) inp m = (m, Inl (CmdUnknownAction ''unassign''))"
  by (simp add: AssignmentExecute_def)

text \<open>A status no assignment has is accepted and hides the assignment from every list the schema knows; an unknown name is accepted too.\<close>

lemma update_unchecked:
  "map_of (am_assignments m) i = None \<Longrightarrow> sq_Action req = ''update'' \<Longrightarrow> sq_ID req = i \<Longrightarrow> i \<noteq> [] \<Longrightarrow> sq_Status req = ''done'' \<Longrightarrow> sq_Comment req = ''c'' \<Longrightarrow>
   AssignmentExecute utf8 (\<lambda>_. Inr req) inp m = (m, Inr (''Updated '' @ i @ '' to done''))"
  by (simp add: AssignmentExecute_def update_assignment_def)

text \<open>Each call of the plan tool is an operation of the graph or leaves it alone.\<close>

definition plan_op :: "plan_request \<Rightarrow> 'ann art_op option" where
  "plan_op req =
     (if pr_Action req = ''create'' \<and> pr_Title req \<noteq> [] then Some (OpAdd (new_task (pr_Title req)))
      else if pr_Action req = ''update'' \<and> pr_ID req \<noteq> [] \<and> pr_Status req \<noteq> [] then Some (OpUpdateStatus (pr_ID req) (pr_Status req)) else None)"

lemma plan_create_graph: "fst (plan_create now json title g) = fst (stored_on_success g (graph_add now g (new_task title)))"
  by (auto simp: plan_create_def stored_on_success_def split: sum.split)

lemma plan_execute_op:
  "fst (PlanExecute now parse json jsons inp g) =
     (case parse inp of Inl _ \<Rightarrow> g | Inr req \<Rightarrow> (case plan_op req of None \<Rightarrow> g | Some x \<Rightarrow> fst (apply_op ord now g x)))"
  by (auto simp: PlanExecute_def plan_op_def plan_create_graph [where json = json, symmetric] keep_on_error_def split: sum.split prod.split)

lemma plan_error_keeps: "snd (PlanExecute now parse json jsons inp g) = Inl e \<Longrightarrow> fst (PlanExecute now parse json jsons inp g) = g"
  by (auto simp: PlanExecute_def split: sum.splits if_splits prod.splits option.splits)

text \<open>Each call of the discourse tool is an operation of the store or leaves it alone.\<close>

definition disc_op :: "gotime \<Rightarrow> disc_request \<Rightarrow> discourse_op option" where
  "disc_op now req =
     (if dq_Action req = ''create_topic'' \<and> dq_Title req \<noteq> [] then Some (DTopic now (disc_scope req) (dq_Title req) (if dq_Kind req = [] then ''discussion'' else dq_Kind req))
      else if dq_Action req = ''create_thread'' \<and> dq_TopicID req \<noteq> [] then Some (DThread now (disc_scope req) (dq_TopicID req))
      else if dq_Action req = ''append'' \<and> dq_TopicID req \<noteq> [] \<and> dq_ThreadID req \<noteq> [] \<and> dq_Content req \<noteq> []
      then Some (DMessage now (disc_scope req) (dq_TopicID req) (dq_ThreadID req) (if dq_Role req = [] then ''assistant'' else dq_Role req) (dq_Content req))
      else None)"

lemma disc_execute_op:
  "fst (DiscourseExecute now parse jtopic jthread jtopics inp d) =
     (case parse inp of Inl _ \<Rightarrow> d | Inr req \<Rightarrow> (case disc_op now req of None \<Rightarrow> d | Some x \<Rightarrow> discourse_step d x))"
  by (auto simp: DiscourseExecute_def disc_op_def Let_def split: sum.split prod.split option.split)

end
