(* ===== verification/Command_Properties.thy ===== *)
theory Command_Properties
  imports Tool_Commands
begin

text \<open>
  What the tools called by name guarantee: the plan tool acts on its graph only through the operations of the graph,
  so what holds of all runs of operations holds of all runs of calls.
\<close>

lemma new_task_added:
  assumes "g_registry g = default_registry"
  obtains i g' where "graph_add now g (new_task title) = Inr (i, g')"
proof -
  have "registry_check (g_registry g) (normalize_content (new_task title)) = None"
    by (simp add: assms registry_check_def registry_get_def default_registry_map new_task_def normalize_content_def section_text_def
        task_template_def template_check_def KindTask_def KindScratchPaper_def StatusPending_def)
  then have "\<exists>r. graph_add now g (new_task title) = Inr r" by (simp add: graph_add_def Let_def split: prod.split)
  then show ?thesis using that by auto
qed

lemma plan_create_new:
  fixes g :: "'a graph"
  assumes "gen_inv g"
  shows "\<exists>i a. map_of (g_items g) i = None \<and> map_of (g_items (fst (plan_create now json title g))) = (map_of (g_items g))(i \<mapsto> a)
    \<and> a_ID a = i \<and> a_Title a = title \<and> a_Status a = StatusPending \<and> snd (plan_create now json title g) = json a"
proof -
  from assms obtain i g' where add: "graph_add now g (new_task title) = Inr (i, g')"
    using new_task_added [of g now title] by (auto simp: gen_inv_def)
  have n: "map_of (g_items g) i = None"
    using generated_fresh [OF assms add] by (simp add: new_task_def map_of_eq_None_keys)
  define a :: "'a artifact" where a: "a = add_defaults now ((normalize_content (new_task title))\<lparr>a_ID := i\<rparr>)"
  have m: "g_items g' = mset_at (g_items g) i a" unfolding a using add by (rule graph_add_cases)
  have f: "a_ID a = i" "a_Title a = title" "a_Status a = StatusPending"
    by (simp_all add: a add_defaults_def normalize_content_def new_task_def section_text_def StatusPending_def)
  have "plan_create now json title g = (g', json a)" using add m by (simp add: plan_create_def graph_get_def)
  then show ?thesis using n m f by (intro exI [of _ i] exI [of _ a]) simp
qed

text \<open>A run of calls of the plan tool, each with its time.\<close>

fun plan_calls :: "(string \<Rightarrow> string + plan_request) \<Rightarrow> ('ann artifact \<Rightarrow> string) \<Rightarrow> ('ann artifact list \<Rightarrow> string) \<Rightarrow> (gotime \<times> string) list \<Rightarrow> 'ann graph \<Rightarrow> 'ann graph" where
  "plan_calls parse json jsons [] g = g"
| "plan_calls parse json jsons ((now, inp) # cs) g = plan_calls parse json jsons cs (fst (PlanExecute now parse json jsons inp g))"

lemma plan_op_generates: "plan_op req = Some x \<Longrightarrow> no_explicit_id x"
  by (auto simp: plan_op_def new_task_def split: if_splits)

lemma plan_calls_ops:
  fixes g :: "'a graph"
  shows "\<exists>ops. plan_calls parse json jsons cs g = fst (run_ops ord g ops) \<and> list_all (\<lambda>(now, x). no_explicit_id x) ops"
proof (induction cs arbitrary: g)
  case Nil
  show ?case by (intro exI [of _ "[]"]) simp
next
  case (Cons c cs)
  obtain now inp where c: "c = (now, inp)" by force
  let ?g1 = "fst (PlanExecute now parse json jsons inp g)"
  obtain ops where ops: "plan_calls parse json jsons cs ?g1 = fst (run_ops ord ?g1 ops)" "list_all (\<lambda>(now, x). no_explicit_id x) ops"
    using Cons by blast
  show ?case
  proof (cases "\<exists>req x. parse inp = Inr req \<and> plan_op req = (Some x :: 'a art_op option)")
    case True
    then obtain req and x :: "'a art_op" where x: "parse inp = Inr req" "plan_op req = Some x" by blast
    then have "?g1 = fst (apply_op ord now g x)" by (simp add: plan_execute_op [where ord = ord])
    then have "fst (run_ops ord g ((now, x) # ops)) = fst (run_ops ord ?g1 ops)" by (simp add: Let_def split: prod.split)
    then show ?thesis using ops x plan_op_generates by (intro exI [of _ "(now, x) # ops"]) (simp add: c)
  next
    case False
    then have "?g1 = g" by (auto simp: plan_execute_op [where ord = ord] split: sum.split option.split)
    then show ?thesis using ops by (intro exI [of _ ops]) (simp add: c)
  qed
qed

text \<open>Property C40: whatever the agent sends, after any calls of the plan tool the graph is one that operations of the graph give, well
  formed and with the names the counters gave out; a call that fails changes nothing; and creating a task stores it, pending, under
  a name no other has, leaves the others alone and answers with what was stored.\<close>

theorem plan_tool_refines:
  assumes "is_order ord" and g_def: "g = plan_calls parse json jsons cs (new_graph t default_registry)"
  shows "(\<exists>ops. g = fst (run_ops ord (new_graph t default_registry) ops)) \<and> wf_graph g \<and> gen_inv g
    \<and> (snd (PlanExecute now parse json jsons inp g) = Inl e \<longrightarrow> fst (PlanExecute now parse json jsons inp g) = g)
    \<and> (parse inp = Inr req \<and> pr_Action req = ''create'' \<and> pr_Title req \<noteq> [] \<longrightarrow>
       (\<exists>i a. map_of (g_items g) i = None \<and> map_of (g_items (fst (PlanExecute now parse json jsons inp g))) = (map_of (g_items g))(i \<mapsto> a)
         \<and> a_ID a = i \<and> a_Title a = pr_Title req \<and> a_Status a = StatusPending \<and> snd (PlanExecute now parse json jsons inp g) = Inr (json a)))"
proof -
  obtain ops where ops: "g = fst (run_ops ord (new_graph t default_registry) ops)" "list_all (\<lambda>(now, x). no_explicit_id x) ops"
    using plan_calls_ops [of parse json jsons cs "new_graph t default_registry" ord] unfolding g_def by blast
  have wf: "wf_graph g" unfolding ops(1) by (rule wf_run_ops [OF wf_new_graph assms(1)])
  have gi: "gen_inv g" unfolding ops(1) by (rule gen_inv_run_ops [OF gen_inv_new wf_new_graph assms(1) ops(2)])
  have "PlanExecute now parse json jsons inp g = (fst (plan_create now json (pr_Title req) g), Inr (snd (plan_create now json (pr_Title req) g)))"
    if "parse inp = Inr req \<and> pr_Action req = ''create'' \<and> pr_Title req \<noteq> []"
    using that by (simp add: PlanExecute_def split: prod.split)
  then show ?thesis using ops(1) wf gi plan_error_keeps plan_create_new [OF gi, of now json "pr_Title req"] by auto
qed

definition demo_parse :: "string \<Rightarrow> string + plan_request" where
  "demo_parse inp = Inr \<lparr>pr_Action = ''create'', pr_Title = inp, pr_ID = [], pr_Status = []\<rparr>"

lemma plan_tool_refines_witness:
  "\<exists>i. map_of (g_items (plan_calls demo_parse a_ID (\<lambda>_. []) [(1, ''x'')] (new_graph ''p'' default_registry :: unit graph))) i = None \<and>
     snd (PlanExecute 2 demo_parse a_ID (\<lambda>_. []) ''y'' (plan_calls demo_parse a_ID (\<lambda>_. []) [(1, ''x'')] (new_graph ''p'' default_registry :: unit graph))) = Inr i"
proof -
  have "is_order (\<lambda>aff ks. ks)" by (simp add: is_order_def)
  from plan_tool_refines [OF this refl, where parse = demo_parse and json = a_ID and jsons = "\<lambda>_. []" and cs = "[(1, ''x'')]" and t = "''p''"
      and inp = "''y''" and now = 2 and req = "\<lparr>pr_Action = ''create'', pr_Title = ''y'', pr_ID = [], pr_Status = []\<rparr>"]
  show ?thesis by (auto simp: demo_parse_def)
qed

text \<open>The discourse tool keeps its store well typed, whatever it is sent.\<close>

lemma discourse_tool_ok: "discourse_ok d \<Longrightarrow> discourse_ok (fst (DiscourseExecute now parse jtopic jthread jtopics inp d))"
  using discourse_step_ok by (auto simp: disc_execute_op split: sum.split option.split)

text \<open>On a registry without the kind the plan tool answers null and reports no error.\<close>

lemma plan_create_null:
  "PlanExecute now (\<lambda>_. Inr \<lparr>pr_Action = ''create'', pr_Title = ''x'', pr_ID = [], pr_Status = []\<rparr>) json jsons inp (new_graph t new_template_registry)
     = (new_graph t new_template_registry, Inr ''null'')"
  by (simp add: PlanExecute_def plan_create_def graph_add_def Let_def registry_check_def registry_get_def new_graph_def new_template_registry_def graph_get_def)

end
