(* ===== verification/Review_Budget.thy ===== *)
theory Review_Budget
  imports Go_Format Go_Paths Review_Circuits Telemetry_Signals
begin

text \<open>
  The budget of a review (\<^verbatim>\<open>review/\<close>): the heuristics of the four tiers that judge a change, the monitor that runs them, the anchor of the
  scope, the comparison of symbols, and the window, a state machine from working to a decision. Reading files, the parsers of numbers and
  the language server are arguments.
\<close>

subsection \<open>Signals and changes\<close>

record breach_signal =
  bs_Metric :: string
  bs_Value :: rat
  bs_Threshold :: rat
  bs_Exceeded :: bool
  bs_Detail :: string

record diff_snapshot =
  ds_ChangedFiles :: "string list"
  ds_AddedFiles :: "string list"
  ds_DeletedFiles :: "string list"
  ds_LOCDelta :: int
  ds_PackagesHit :: "string list"
  ds_WorkDir :: string

record review_config =
  rv_MaxFiles :: int
  rv_MaxLOCDelta :: int
  rv_MaxPackages :: int
  rv_MaxNewFiles :: int
  rv_MaxDeletedFiles :: int
  rv_OnNewDependency :: bool
  rv_MaxExportedChanges :: int
  rv_MaxInterfacesIntroduced :: int
  rv_OnInterfaceChange :: bool
  rv_MaxStructFieldChanges :: int
  rv_MaxSignatureChanges :: int
  rv_ScopeAnchor :: bool
  rv_AgentNarration :: bool

definition DefaultReviewConfig :: review_config where
  "DefaultReviewConfig =
     \<lparr>rv_MaxFiles = 10, rv_MaxLOCDelta = 500, rv_MaxPackages = 4, rv_MaxNewFiles = 5, rv_MaxDeletedFiles = 3, rv_OnNewDependency = True,
      rv_MaxExportedChanges = 5, rv_MaxInterfacesIntroduced = 2, rv_OnInterfaceChange = True, rv_MaxStructFieldChanges = 10, rv_MaxSignatureChanges = 5,
      rv_ScopeAnchor = True, rv_AgentNarration = False\<rparr>"

text \<open>A measure that exceeds when it reaches its limit.\<close>

definition reach_signal :: "string \<Rightarrow> int \<Rightarrow> int \<Rightarrow> string \<Rightarrow> breach_signal" where
  "reach_signal metric n limit detail = \<lparr>bs_Metric = metric, bs_Value = of_int n, bs_Threshold = of_int limit, bs_Exceeded = (n \<ge> limit), bs_Detail = detail\<rparr>"

subsection \<open>Tier 1: files, packages and dependencies\<close>

definition files_touched :: "diff_snapshot \<Rightarrow> int" where
  "files_touched d = int (length (ds_ChangedFiles d)) + int (length (ds_AddedFiles d)) + int (length (ds_DeletedFiles d))"

definition FilesEvaluate :: "review_config \<Rightarrow> diff_snapshot \<Rightarrow> breach_signal list" where
  "FilesEvaluate cfg d =
     (if rv_MaxFiles cfg > 0
      then [reach_signal ''files_touched'' (files_touched d) (rv_MaxFiles cfg)
              (int_dec (files_touched d) @ '' files (changed:'' @ nat_dec (length (ds_ChangedFiles d)) @ '', added:'' @ nat_dec (length (ds_AddedFiles d)) @
               '', deleted:'' @ nat_dec (length (ds_DeletedFiles d)) @ '')'')] else []) @
     (if rv_MaxLOCDelta cfg > 0
      then [reach_signal ''loc_delta'' (if ds_LOCDelta d < 0 then - ds_LOCDelta d else ds_LOCDelta d) (rv_MaxLOCDelta cfg) (int_dec (ds_LOCDelta d) @ '' lines changed'')] else [])"

definition PackagesEvaluate :: "review_config \<Rightarrow> diff_snapshot \<Rightarrow> breach_signal list" where
  "PackagesEvaluate cfg d =
     (if rv_MaxPackages cfg > 0
      then [reach_signal ''packages_touched'' (int (length (ds_PackagesHit d))) (rv_MaxPackages cfg) (nat_dec (length (ds_PackagesHit d)) @ '' packages'')] else []) @
     (if rv_MaxNewFiles cfg > 0
      then [reach_signal ''new_files'' (int (length (ds_AddedFiles d))) (rv_MaxNewFiles cfg) (nat_dec (length (ds_AddedFiles d)) @ '' new files'')] else []) @
     (if rv_MaxDeletedFiles cfg > 0
      then [reach_signal ''deleted_files'' (int (length (ds_DeletedFiles d))) (rv_MaxDeletedFiles cfg) (nat_dec (length (ds_DeletedFiles d)) @ '' deleted files'')] else [])"

definition dependencyFiles :: "string list" where
  "dependencyFiles = [''go.mod'', ''go.sum'', ''package.json'', ''package-lock.json'', ''yarn.lock'', ''pnpm-lock.yaml'', ''Cargo.toml'', ''Cargo.lock'',
     ''requirements.txt'', ''pyproject.toml'', ''poetry.lock'', ''pom.xml'', ''build.gradle'', ''build.gradle.kts'']"

definition configExtensions :: "string list" where
  "configExtensions = [''.yaml'', ''.yml'', ''.toml'', ''.json'', ''.env'']"

definition isConfigFile :: "string \<Rightarrow> bool" where
  "isConfigFile path =
     (path_ext path \<in> set configExtensions \<and> (path_dir path = ''.'' \<or> str_contains (path_dir path) ''config'' \<or> has_prefix (path_base path) ''.''))"

definition is_dep_file :: "string \<Rightarrow> bool" where "is_dep_file f = (path_base f \<in> set dependencyFiles)"

definition presence_signal :: "string \<Rightarrow> string \<Rightarrow> string list \<Rightarrow> breach_signal list" where
  "presence_signal metric what fs =
     (if length fs > 0 then [\<lparr>bs_Metric = metric, bs_Value = of_nat (length fs), bs_Threshold = 1, bs_Exceeded = True, bs_Detail = what @ str_join fs '', ''\<rparr>] else [])"

definition DepsEvaluate :: "review_config \<Rightarrow> diff_snapshot \<Rightarrow> breach_signal list" where
  "DepsEvaluate cfg d =
     (if \<not> rv_OnNewDependency cfg then []
      else let fs = ds_ChangedFiles d @ ds_AddedFiles d @ ds_DeletedFiles d
        in presence_signal ''dependency_changed'' ''dependency files: '' (filter is_dep_file fs) @
           presence_signal ''config_changed'' ''config files: '' (filter (\<lambda>f. \<not> is_dep_file f \<and> isConfigFile f) fs))"

subsection \<open>Tier 2: symbols\<close>

text \<open>The kinds of symbols by their numbers in the protocol.\<close>

definition SymbolClass :: nat where "SymbolClass = 5"
definition SymbolMethod :: nat where "SymbolMethod = 6"
definition SymbolInterface :: nat where "SymbolInterface = 11"
definition SymbolFunction :: nat where "SymbolFunction = 12"
definition SymbolStruct :: nat where "SymbolStruct = 23"

definition IsExportable :: "nat \<Rightarrow> bool" where "IsExportable k = (k \<in> {12, 6, 5, 11, 23, 10, 14, 13, 7, 8, 26})"

record symbol_info =
  si_Name :: string
  si_Kind :: nat
  si_Detail :: string
  si_Exported :: bool
  si_Children :: nat

record symbol_change =
  sc_Name :: string
  sc_Kind :: nat
  sc_Exported :: bool
  sc_DetailBefore :: string
  sc_DetailAfter :: string
  sc_ChildrenBefore :: nat
  sc_ChildrenAfter :: nat

record symbol_diff =
  sd_Added :: "symbol_info list"
  sd_Removed :: "symbol_info list"
  sd_Modified :: "symbol_change list"

text \<open>A later symbol of a name replaces an earlier one in the map.\<close>

definition symbols_by_name :: "symbol_info list \<Rightarrow> string \<Rightarrow> symbol_info option" where
  "symbols_by_name ss = map_of (rev (map (\<lambda>s. (si_Name s, s)) ss))"

definition symbol_changed :: "symbol_info \<Rightarrow> symbol_info \<Rightarrow> symbol_change option" where
  "symbol_changed b a =
     (if si_Detail b \<noteq> si_Detail a \<or> si_Children b \<noteq> si_Children a \<or> si_Kind b \<noteq> si_Kind a
      then Some \<lparr>sc_Name = si_Name a, sc_Kind = si_Kind a, sc_Exported = si_Exported a, sc_DetailBefore = si_Detail b, sc_DetailAfter = si_Detail a,
                 sc_ChildrenBefore = si_Children b, sc_ChildrenAfter = si_Children a\<rparr>
      else None)"

definition DiffSymbolSets :: "symbol_info list \<Rightarrow> symbol_info list \<Rightarrow> symbol_diff" where
  "DiffSymbolSets before after =
     \<lparr>sd_Added = filter (\<lambda>s. symbols_by_name before (si_Name s) = None) after, sd_Removed = filter (\<lambda>s. symbols_by_name after (si_Name s) = None) before,
      sd_Modified = List.map_filter (\<lambda>a. case symbols_by_name before (si_Name a) of None \<Rightarrow> None | Some b \<Rightarrow> symbol_changed b a) after\<rparr>"

definition isExportedSymbol :: "string \<Rightarrow> nat \<Rightarrow> bool" where
  "isExportedSymbol name kind =
     (if \<not> IsExportable kind \<or> name = [] then False
      else let c = of_char (hd name) :: nat in \<not> (97 \<le> c \<and> c \<le> 122) \<and> hd name \<noteq> CHR ''_'')"

record lsp_symbol =
  ls_Name :: string
  ls_Detail :: string
  ls_Kind :: nat
  ls_Children :: nat

definition SymbolsFromLSP :: "lsp_symbol list \<Rightarrow> symbol_info list" where
  "SymbolsFromLSP ss =
     map (\<lambda>s. \<lparr>si_Name = ls_Name s, si_Kind = ls_Kind s, si_Detail = ls_Detail s, si_Exported = isExportedSymbol (ls_Name s) (ls_Kind s), si_Children = ls_Children s\<rparr>) ss"

text \<open>The comparison of a file by the language server may fail or not know the file.\<close>

type_synonym symbol_differ = "string \<Rightarrow> string \<Rightarrow> symbol_diff option"

definition diffs_of :: "symbol_differ \<Rightarrow> diff_snapshot \<Rightarrow> symbol_diff list" where
  "diffs_of differ d = List.map_filter (differ (ds_WorkDir d)) (ds_ChangedFiles d)"

definition exported_changes :: "symbol_diff \<Rightarrow> int" where
  "exported_changes s = int (length (filter si_Exported (sd_Added s))) + int (length (filter si_Exported (sd_Removed s))) + int (length (filter sc_Exported (sd_Modified s)))"

definition ExportsEvaluate :: "review_config \<Rightarrow> symbol_differ option \<Rightarrow> diff_snapshot \<Rightarrow> breach_signal list" where
  "ExportsEvaluate cfg differ d =
     (case differ of
        None \<Rightarrow> []
      | Some f \<Rightarrow>
          if rv_MaxExportedChanges cfg \<le> 0 then []
          else let n = sum_list (map exported_changes (diffs_of f d))
            in [reach_signal ''exported_symbols_changed'' n (rv_MaxExportedChanges cfg) (int_dec n @ '' exported symbol changes'')])"

definition new_interfaces :: "symbol_diff \<Rightarrow> int" where
  "new_interfaces s = int (length (filter (\<lambda>x. si_Kind x = SymbolInterface) (sd_Added s)))"

definition method_changes :: "symbol_diff \<Rightarrow> int" where
  "method_changes s = int (length (filter (\<lambda>x. sc_Kind x = SymbolInterface \<and> sc_ChildrenBefore x \<noteq> sc_ChildrenAfter x) (sd_Modified s)))"

definition field_changes :: "symbol_diff \<Rightarrow> int" where
  "field_changes s =
     sum_list (map (\<lambda>x. \<bar>int (sc_ChildrenAfter x) - int (sc_ChildrenBefore x)\<bar>)
       (filter (\<lambda>x. (sc_Kind x = SymbolStruct \<or> sc_Kind x = SymbolClass) \<and> sc_ChildrenBefore x \<noteq> sc_ChildrenAfter x) (sd_Modified s)))"

definition InterfaceEvaluate :: "review_config \<Rightarrow> symbol_differ option \<Rightarrow> diff_snapshot \<Rightarrow> breach_signal list" where
  "InterfaceEvaluate cfg differ d =
     (case differ of
        None \<Rightarrow> []
      | Some f \<Rightarrow>
          let ds = diffs_of f d; ni = sum_list (map new_interfaces ds); mc = sum_list (map method_changes ds); fc = sum_list (map field_changes ds)
          in (if rv_MaxInterfacesIntroduced cfg > 0 then [reach_signal ''interfaces_introduced'' ni (rv_MaxInterfacesIntroduced cfg) (int_dec ni @ '' new interfaces'')] else []) @
             (if rv_OnInterfaceChange cfg
              then [\<lparr>bs_Metric = ''interface_methods_changed'', bs_Value = of_int mc, bs_Threshold = 1, bs_Exceeded = (mc > 0), bs_Detail = int_dec mc @ '' interfaces had method changes''\<rparr>] else []) @
             (if rv_MaxStructFieldChanges cfg > 0 then [reach_signal ''struct_field_changes'' fc (rv_MaxStructFieldChanges cfg) (int_dec fc @ '' struct/class field changes'')] else []))"

definition sig_changes :: "symbol_diff \<Rightarrow> int" where
  "sig_changes s = int (length (filter (\<lambda>x. (sc_Kind x = SymbolFunction \<or> sc_Kind x = SymbolMethod) \<and> sc_DetailBefore x \<noteq> sc_DetailAfter x) (sd_Modified s)))"

definition SignatureEvaluate :: "review_config \<Rightarrow> symbol_differ option \<Rightarrow> diff_snapshot \<Rightarrow> breach_signal list" where
  "SignatureEvaluate cfg differ d =
     (case differ of
        None \<Rightarrow> []
      | Some f \<Rightarrow>
          if rv_MaxSignatureChanges cfg \<le> 0 then []
          else let n = sum_list (map sig_changes (diffs_of f d))
            in [reach_signal ''signature_changes'' n (rv_MaxSignatureChanges cfg) (int_dec n @ '' function signature changes'')])"

subsection \<open>Tier 4: text\<close>

text \<open>The work directory as it is, and the last commit, by path.\<close>

record repo_files =
  rf_read :: "string \<Rightarrow> string option"
  rf_head :: "string \<Rightarrow> string option"

definition isSourceFile :: "string \<Rightarrow> bool" where
  "isSourceFile path =
     (path_ext path \<in> {''.go'', ''.py'', ''.ts'', ''.tsx'', ''.js'', ''.jsx'', ''.rs'', ''.java'', ''.c'', ''.cpp'', ''.cc'', ''.h'', ''.hpp'', ''.cs'', ''.kt'', ''.swift'',
        ''.rb'', ''.lua'', ''.zig''})"

definition complexity_tokens :: "string list" where
  "complexity_tokens = [''if '', ''for '', ''switch '', ''case '', ''select {'', ''catch '', ''except '', ''elif '', ''else if '', '' && '', '' || '']"

definition countComplexityTokens :: "string \<Rightarrow> nat" where
  "countComplexityTokens line = sum_list (map (str_count line) complexity_tokens)"

definition skip_line :: "string \<Rightarrow> bool" where
  "skip_line line = (line = [] \<or> has_prefix line ''//'' \<or> has_prefix line ''#'' \<or> has_prefix line ''*'')"

definition countComplexity :: "string \<Rightarrow> nat" where
  "countComplexity src = sum_list (map countComplexityTokens (filter (\<lambda>l. \<not> skip_line l) (map trim_space (scan_lines src))))"

definition complexity_of :: "string option \<Rightarrow> int" where
  "complexity_of text = (case text of None \<Rightarrow> 0 | Some s \<Rightarrow> int (countComplexity s))"

definition in_work :: "diff_snapshot \<Rightarrow> string \<Rightarrow> string" where "in_work d f = path_join [ds_WorkDir d, f]"

definition complexity_delta :: "repo_files \<Rightarrow> diff_snapshot \<Rightarrow> int" where
  "complexity_delta fs d =
     sum_list (map (\<lambda>f. max 0 (complexity_of (rf_read fs (in_work d f)) - complexity_of (rf_head fs f))) (filter isSourceFile (ds_ChangedFiles d))) +
     sum_list (map (\<lambda>f. complexity_of (rf_read fs (in_work d f))) (filter isSourceFile (ds_AddedFiles d)))"

definition ComplexityEvaluate :: "int \<Rightarrow> repo_files \<Rightarrow> diff_snapshot \<Rightarrow> breach_signal list" where
  "ComplexityEvaluate maxDelta fs d =
     (if maxDelta \<le> 0 \<or> ds_WorkDir d = [] then []
      else [reach_signal ''complexity_delta'' (complexity_delta fs d) maxDelta (''+'' @ int_dec (complexity_delta fs d) @ '' complexity points'')])"

definition parseFuncName :: "string \<Rightarrow> string" where
  "parseFuncName line =
     (let rest = trim_prefix line ''func '';
          body = (if has_prefix rest ''('' then map_option (\<lambda>i. drop (i + 2) rest) (str_index rest '') '') else Some rest)
      in case body of
           None \<Rightarrow> []
         | Some r \<Rightarrow> (case str_index r ''('' of None \<Rightarrow> [] | Some p \<Rightarrow> trim_space (take p r)))"

definition func_lines :: "string \<Rightarrow> string list" where
  "func_lines content = filter (\<lambda>l. has_prefix l ''func '') (map trim_space (str_split content (CHR 0x0A)))"

definition extractFuncNames :: "string \<Rightarrow> string list" where
  "extractFuncNames content = filter (\<lambda>n. n \<noteq> []) (map parseFuncName (func_lines content))"

definition isExportedName :: "string \<Rightarrow> bool" where
  "isExportedName name = (name \<noteq> [] \<and> (let c = of_char (hd name) :: nat in 65 \<le> c \<and> c \<le> 90))"

definition all_content :: "repo_files \<Rightarrow> diff_snapshot \<Rightarrow> (string, string) gomap" where
  "all_content fs d =
     foldl (\<lambda>m f. case rf_read fs (in_work d f) of None \<Rightarrow> m | Some s \<Rightarrow> mset_at m f s) [] (filter isSourceFile (ds_ChangedFiles d @ ds_AddedFiles d))"

definition isReferencedElsewhere :: "string \<Rightarrow> string \<Rightarrow> (string, string) gomap \<Rightarrow> bool" where
  "isReferencedElsewhere name sourceFile content = list_ex (\<lambda>(f, s). f \<noteq> sourceFile \<and> str_contains s name) content"

definition detectDeadCode :: "repo_files \<Rightarrow> diff_snapshot \<Rightarrow> int" where
  "detectDeadCode fs d =
     (let content = all_content fs d
      in sum_list (map (\<lambda>f. case map_of content f of
             None \<Rightarrow> 0
           | Some s \<Rightarrow> int (length (filter (\<lambda>n. \<not> isExportedName n \<and> \<not> isReferencedElsewhere n f content) (extractFuncNames s)))) (ds_AddedFiles d)))"

definition new_go_funcs :: "repo_files \<Rightarrow> diff_snapshot \<Rightarrow> string list" where
  "new_go_funcs fs d =
     concat (map (\<lambda>f. case rf_read fs (in_work d f) of None \<Rightarrow> [] | Some s \<Rightarrow> func_lines s)
       (filter (\<lambda>f. isSourceFile f \<and> has_suffix f ''.go'') (ds_AddedFiles d)))"

definition DeadCodeEvaluate :: "int \<Rightarrow> rat \<Rightarrow> repo_files \<Rightarrow> diff_snapshot \<Rightarrow> breach_signal list" where
  "DeadCodeEvaluate maxDead minRatio fs d =
     (if ds_WorkDir d = [] then []
      else (if maxDead > 0 then [reach_signal ''dead_code'' (detectDeadCode fs d) maxDead (int_dec (detectDeadCode fs d) @ '' potentially unreferenced symbols in new files'')] else []) @
        (let n = length (new_go_funcs fs d); e = length (filter (\<lambda>l. str_contains l ''error'') (new_go_funcs fs d)); ratio = of_nat e / of_nat n
         in if minRatio > 0 \<and> n > 0
            then [\<lparr>bs_Metric = ''error_handling_ratio'', bs_Value = ratio, bs_Threshold = minRatio, bs_Exceeded = (ratio < minRatio),
                   bs_Detail = nat_dec e @ ''/'' @ nat_dec n @ '' functions return error ('' @ fmt_fixed 0 (ratio * 100) @ ''%)''\<rparr>] else []))"

definition todoMarkers :: "string list" where "todoMarkers = [''TODO'', ''FIXME'', ''HACK'', ''XXX'', ''NOCOMMIT'']"

definition readFileContent :: "repo_files \<Rightarrow> diff_snapshot \<Rightarrow> string \<Rightarrow> string" where
  "readFileContent fs d f = (if ds_WorkDir d = [] then [] else case rf_read fs (in_work d f) of None \<Rightarrow> [] | Some s \<Rightarrow> s)"

definition countMarkers :: "repo_files \<Rightarrow> diff_snapshot \<Rightarrow> nat" where
  "countMarkers fs d =
     sum_list (map (\<lambda>f. sum_list (map (str_count (readFileContent fs d f)) todoMarkers)) (filter isSourceFile (ds_ChangedFiles d @ ds_AddedFiles d)))"

definition commonNumbers :: "string list" where
  "commonNumbers = [''0'', ''1'', ''2'', ''-1'', ''100'', ''200'', ''201'', ''204'', ''400'', ''401'', ''403'', ''404'', ''500'', ''1024'', ''4096'', ''8192'',
     ''0o600'', ''0o644'', ''0o700'', ''0o755'', ''0.0'', ''1.0'', ''0.5'']"

text \<open>Whether a word reads as a number, with a fraction or without.\<close>

definition scanMagicNumbers :: "(string \<Rightarrow> bool) \<Rightarrow> (string \<Rightarrow> bool) \<Rightarrow> string \<Rightarrow> nat" where
  "scanMagicNumbers is_float is_int content =
     sum_list (map (\<lambda>w0. let w = trim_by (\<lambda>c. c \<in> set ''(),;:{}'') w0
       in if w \<in> set commonNumbers then 0 else (if is_float w then 1 else 0) + (if is_int w then 1 else 0)) (str_fields content))"

definition countMagicNumbers :: "(string \<Rightarrow> bool) \<Rightarrow> (string \<Rightarrow> bool) \<Rightarrow> repo_files \<Rightarrow> diff_snapshot \<Rightarrow> nat" where
  "countMagicNumbers is_float is_int fs d =
     sum_list (map (\<lambda>f. scanMagicNumbers is_float is_int (readFileContent fs d f)) (filter isSourceFile (ds_AddedFiles d)))"

definition MarkersEvaluate :: "(string \<Rightarrow> bool) \<Rightarrow> (string \<Rightarrow> bool) \<Rightarrow> int \<Rightarrow> int \<Rightarrow> repo_files \<Rightarrow> diff_snapshot \<Rightarrow> breach_signal list" where
  "MarkersEvaluate is_float is_int maxTodos maxMagic fs d =
     (if maxTodos > 0 then [reach_signal ''todos_introduced'' (int (countMarkers fs d)) maxTodos (nat_dec (countMarkers fs d) @ '' TODO/FIXME/HACK markers'')] else []) @
     (if maxMagic > 0
      then [reach_signal ''magic_numbers'' (int (countMagicNumbers is_float is_int fs d)) maxMagic (nat_dec (countMagicNumbers is_float is_int fs d) @ '' magic numbers'')] else [])"

definition isTestFile :: "string \<Rightarrow> bool" where
  "isTestFile path =
     (let base = path_base path; name = trim_suffix base (path_ext base)
      in has_suffix base ''_test.go'' \<or> has_suffix name ''.test'' \<or> has_suffix name ''.spec'' \<or> has_prefix name ''test_'' \<or> str_contains path ''tests/'' \<or> str_contains path ''test/'')"

definition TestRatioEvaluate :: "rat \<Rightarrow> diff_snapshot \<Rightarrow> breach_signal list" where
  "TestRatioEvaluate minRatio d =
     (let src = filter isSourceFile (ds_AddedFiles d); t = length (filter isTestFile src); s = length (filter (\<lambda>f. \<not> isTestFile f) src); ratio = of_nat t / of_nat s
      in if minRatio \<le> 0 \<or> s = 0 then []
         else [\<lparr>bs_Metric = ''test_coverage_ratio'', bs_Value = ratio, bs_Threshold = minRatio, bs_Exceeded = (ratio < minRatio),
                bs_Detail = nat_dec s @ '' new source files, '' @ nat_dec t @ '' test files (ratio: '' @ fmt_fixed 1 ratio @ '')''\<rparr>])"

subsection \<open>The monitor\<close>

record budget_heuristic =
  bh_Name :: string
  bh_Evaluate :: "diff_snapshot \<Rightarrow> string + breach_signal list"

definition NewBudgetMonitor :: "budget_heuristic list" where "NewBudgetMonitor = []"
definition bm_Register :: "budget_heuristic \<Rightarrow> budget_heuristic list \<Rightarrow> budget_heuristic list" where "bm_Register h bm = bm @ [h]"

definition bm_Check :: "budget_heuristic list \<Rightarrow> diff_snapshot \<Rightarrow> breach_signal list" where
  "bm_Check bm d =
     concat (map (\<lambda>h. case bh_Evaluate h d of
         Inl err \<Rightarrow> [\<lparr>bs_Metric = bh_Name h @ ''_error'', bs_Value = 0, bs_Threshold = 0, bs_Exceeded = False, bs_Detail = ''heuristic failed: '' @ err\<rparr>]
       | Inr signals \<Rightarrow> signals) bm)"

definition Exceeded :: "breach_signal list \<Rightarrow> breach_signal list" where "Exceeded ss = filter bs_Exceeded ss"

definition budget_detail :: "breach_signal \<Rightarrow> string" where
  "budget_detail s = bs_Metric s @ '': '' @ fmt_fixed 0 (bs_Value s) @ '' (threshold: '' @ fmt_fixed 0 (bs_Threshold s) @ '')''"

definition EmitBudgetSignals :: "gotime \<Rightarrow> string \<Rightarrow> breach_signal list \<Rightarrow> signal_bus \<Rightarrow> signal_bus option" where
  "EmitBudgetSignals now ws signals bus =
     (let ex = Exceeded signals
      in if length ex = 0 then Some bus
         else bus_Emit now (zero_signal\<lparr>sg_Workstream := ws, sg_Level := (if length ex \<ge> 3 then Red else Yellow), sg_Source := ''review-budget'',
                sg_Category := ''budget'', sg_Message := ''budget exceeded: '' @ str_join (map budget_detail ex) '', ''\<rparr>) bus)"

subsection \<open>The scope\<close>

datatype drift_verdict = VerdictOnScope | VerdictDrift | VerdictUnknown

record scope_anchor =
  an_OriginalRequest :: string
  an_ExpectedPackages :: "string list"

definition punctuation :: "char list" where "punctuation = ''.,;:!?'' @ [CHR 0x22, CHR 0x27, CHR 0x60] @ ''()[]{}''"

text \<open>The directory of a word that names a path.\<close>

definition word_package :: "string \<Rightarrow> string option" where
  "word_package w0 =
     (let w = trim_by (\<lambda>c. c \<in> set punctuation) w0
      in if \<not> str_contains w ''/'' \<or> has_prefix w ''http'' then None else if path_dir w = ''.'' then None else Some (path_dir w))"

definition add_new :: "string list \<Rightarrow> string \<Rightarrow> string list" where "add_new seen x = (if x \<in> set seen then seen else seen @ [x])"

definition extractPackages :: "string \<Rightarrow> string list" where
  "extractPackages request = foldl add_new [] (List.map_filter word_package (str_fields request))"

definition NewScopeAnchor :: "string \<Rightarrow> scope_anchor" where
  "NewScopeAnchor request = \<lparr>an_OriginalRequest = request, an_ExpectedPackages = extractPackages request\<rparr>"

definition isInScope :: "scope_anchor \<Rightarrow> string \<Rightarrow> bool" where
  "isInScope sa file = list_ex (\<lambda>pkg. path_dir file = pkg \<or> has_prefix (path_dir file) (pkg @ ''/'')) (an_ExpectedPackages sa)"

definition CheckDrift :: "scope_anchor \<Rightarrow> string list \<Rightarrow> drift_verdict \<times> string list" where
  "CheckDrift sa changedFiles =
     (if length (an_ExpectedPackages sa) = 0 then (VerdictUnknown, [])
      else let drifted = filter (\<lambda>f. \<not> isInScope sa f) changedFiles
        in if length drifted = 0 then (VerdictOnScope, []) else (VerdictDrift, drifted))"

definition verdict_text :: "drift_verdict \<Rightarrow> string" where
  "verdict_text v = (case v of VerdictOnScope \<Rightarrow> ''ON_SCOPE'' | VerdictDrift \<Rightarrow> ''DRIFT_DETECTED'' | VerdictUnknown \<Rightarrow> ''SCOPE_UNKNOWN'')"

definition FormatScopeDriftPrompt :: "scope_anchor \<Rightarrow> string list \<Rightarrow> string" where
  "FormatScopeDriftPrompt sa driftedFiles =
     ''SCOPE DRIFT INTERPRETATION REQUEST'' @ nl @ nl @ ''Original request: '' @ an_OriginalRequest sa @ nl @ ''Expected packages: '' @ str_join (an_ExpectedPackages sa) '', '' @ nl @
     ''Files outside scope: '' @ str_join driftedFiles '', '' @ nl @ nl @ ''Is this drift acceptable (the change requires touching related packages) '' @
     ''or is it scope creep (the agent wandered into unrelated code)?'' @ nl @ nl @
     ''Respond with JSON: {'' @ [CHR 0x22] @ ''action'' @ [CHR 0x22] @ '': '' @ [CHR 0x22] @ ''continue|re_scope|cordon'' @ [CHR 0x22] @ '', '' @ [CHR 0x22] @ ''reason'' @ [CHR 0x22] @
     '': '' @ [CHR 0x22] @ ''...'' @ [CHR 0x22] @ '', '' @ [CHR 0x22] @ ''confidence'' @ [CHR 0x22] @ '': 0.N}''"

subsection \<open>The window\<close>

datatype window_state = WindowWorking | WindowReviewing | WindowApproved | WindowRejected | WindowSplit
datatype window_error = ErrNotWorking | ErrNotReviewing

definition window_text :: "window_state \<Rightarrow> string" where
  "window_text s = (case s of WindowWorking \<Rightarrow> ''working'' | WindowReviewing \<Rightarrow> ''reviewing'' | WindowApproved \<Rightarrow> ''approved''
     | WindowRejected \<Rightarrow> ''rejected'' | WindowSplit \<Rightarrow> ''split'')"

record review_window =
  rw_State :: window_state
  rw_Anchor :: scope_anchor
  rw_Budget :: "budget_heuristic list option"
  rw_Signals :: "breach_signal list"
  rw_ChangedFiles :: "string list"
  rw_StartedAt :: gotime

definition NewReviewWindow :: "gotime \<Rightarrow> string \<Rightarrow> budget_heuristic list option \<Rightarrow> review_window" where
  "NewReviewWindow now request budget =
     \<lparr>rw_State = WindowWorking, rw_Anchor = NewScopeAnchor request, rw_Budget = budget, rw_Signals = [], rw_ChangedFiles = [], rw_StartedAt = now\<rparr>"

definition RecordChange :: "string \<Rightarrow> review_window \<Rightarrow> review_window" where
  "RecordChange file w = (if file \<in> set (rw_ChangedFiles w) then w else w\<lparr>rw_ChangedFiles := rw_ChangedFiles w @ [file]\<rparr>)"

definition parentDir :: "string \<Rightarrow> string" where
  "parentDir path = (case last_index (\<lambda>c. c = CHR ''/'') path of Some i \<Rightarrow> take i path | None \<Rightarrow> ''.'')"

definition uniqueDirs :: "string list \<Rightarrow> string list" where
  "uniqueDirs files = foldl add_new [] (map parentDir files)"

definition window_diff :: "review_window \<Rightarrow> diff_snapshot" where
  "window_diff w =
     \<lparr>ds_ChangedFiles = rw_ChangedFiles w, ds_AddedFiles = [], ds_DeletedFiles = [], ds_LOCDelta = 0, ds_PackagesHit = uniqueDirs (rw_ChangedFiles w), ds_WorkDir = []\<rparr>"

definition CheckBudget :: "review_window \<Rightarrow> review_window \<times> bool \<times> breach_signal list" where
  "CheckBudget w =
     (case rw_Budget w of
        None \<Rightarrow> (w, False, [])
      | Some bm \<Rightarrow>
          let signals = bm_Check bm (window_diff w); ex = Exceeded signals
          in (w\<lparr>rw_Signals := rw_Signals w @ signals\<rparr>, length ex > 0, ex))"

definition EnterReview :: "review_window \<Rightarrow> review_window \<times> window_error option" where
  "EnterReview w = (if rw_State w \<noteq> WindowWorking then (w, Some ErrNotWorking) else (w\<lparr>rw_State := WindowReviewing\<rparr>, None))"

definition decide_window :: "window_state \<Rightarrow> review_window \<Rightarrow> review_window \<times> window_error option" where
  "decide_window s w = (if rw_State w \<noteq> WindowReviewing then (w, Some ErrNotReviewing) else (w\<lparr>rw_State := s\<rparr>, None))"

definition window_Approve :: "review_window \<Rightarrow> review_window \<times> window_error option" where "window_Approve w = decide_window WindowApproved w"
definition window_Reject :: "review_window \<Rightarrow> review_window \<times> window_error option" where "window_Reject w = decide_window WindowRejected w"

text \<open>The two sets of files are not looked at.\<close>

definition window_Split :: "string list \<Rightarrow> string list \<Rightarrow> review_window \<Rightarrow> review_window \<times> window_error option" where
  "window_Split approve reject w = decide_window WindowSplit w"

end
