(* ===== verification/Review_Windows.thy ===== *)
theory Review_Windows
  imports Review_Budget
begin

text \<open>
  Reviews as runs: the steps of a window, what a breach of the budget lasts, the tours of circuits and what is told to the agent
  (\<^verbatim>\<open>review/window.go\<close>, \<^verbatim>\<open>tour_modes.go\<close>, \<^verbatim>\<open>cursor.go\<close>, \<^verbatim>\<open>context.go\<close>, \<^verbatim>\<open>narration.go\<close>, \<^verbatim>\<open>commands.go\<close>).
\<close>

subsection \<open>Steps of a window\<close>

inductive window_step :: "review_window \<Rightarrow> review_window \<Rightarrow> bool" where
  record_file: "window_step w (RecordChange f w)"
| check_budget: "window_step w (fst (CheckBudget w))"
| enter: "window_step w (fst (EnterReview w))"
| approve: "window_step w (fst (window_Approve w))"
| reject: "window_step w (fst (window_Reject w))"
| split_up: "window_step w (fst (window_Split as rs w))"

inductive_cases window_stepE: "window_step w w'"

definition decided :: "review_window \<Rightarrow> bool" where "decided w \<longleftrightarrow> rw_State w \<notin> {WindowWorking, WindowReviewing}"

lemma check_fields [simp]: "rw_State (fst (CheckBudget w)) = rw_State w" "rw_ChangedFiles (fst (CheckBudget w)) = rw_ChangedFiles w"
  "rw_Budget (fst (CheckBudget w)) = rw_Budget w"
  by (simp_all add: CheckBudget_def Let_def split: option.split)

lemma decide_fields [simp]: "rw_ChangedFiles (fst (decide_window s w)) = rw_ChangedFiles w" "rw_Budget (fst (decide_window s w)) = rw_Budget w"
  by (simp_all add: decide_window_def)

lemma enter_review_fields [simp]: "rw_ChangedFiles (fst (EnterReview w)) = rw_ChangedFiles w" "rw_Budget (fst (EnterReview w)) = rw_Budget w"
  by (simp_all add: EnterReview_def)

lemma record_fields [simp]: "rw_State (RecordChange f w) = rw_State w" "rw_Budget (RecordChange f w) = rw_Budget w"
  by (simp_all add: RecordChange_def)

lemmas window_ops = window_Approve_def window_Reject_def window_Split_def

text \<open>One step: the files grow at their end, the budget stays, and the state moves along the graph of the machine.\<close>

definition state_moves :: "window_state \<Rightarrow> window_state \<Rightarrow> bool" where
  "state_moves s s' \<longleftrightarrow> s' = s \<or> (s = WindowWorking \<and> s' = WindowReviewing) \<or> (s = WindowReviewing \<and> s' \<in> {WindowApproved, WindowRejected, WindowSplit})"

lemma window_step_files: "window_step w w' \<Longrightarrow> \<exists>fs. rw_ChangedFiles w' = rw_ChangedFiles w @ fs \<and> distinct fs \<and> set fs \<inter> set (rw_ChangedFiles w) = {}"
proof (induction rule: window_step.induct)
  case (record_file w f)
  show ?case by (intro exI [of _ "if f \<in> set (rw_ChangedFiles w) then [] else [f]"]) (simp add: RecordChange_def)
qed (simp_all add: window_ops)

lemma window_step_budget: "window_step w w' \<Longrightarrow> rw_Budget w' = rw_Budget w"
  by (induction rule: window_step.induct) (simp_all add: window_ops)

lemma window_step_state: "window_step w w' \<Longrightarrow> state_moves (rw_State w) (rw_State w')"
  by (induction rule: window_step.induct) (auto simp: state_moves_def EnterReview_def window_ops decide_window_def)

definition window_reach :: "review_window \<Rightarrow> review_window \<Rightarrow> bool" where "window_reach = window_step\<^sup>*\<^sup>*"

lemma window_reach_refl: "window_reach w w" by (simp add: window_reach_def)
lemma window_reach_step: "window_reach w v \<Longrightarrow> window_step v x \<Longrightarrow> window_reach w x" by (simp add: window_reach_def)

lemma reach_files: "window_reach w w' \<Longrightarrow> \<exists>fs. rw_ChangedFiles w' = rw_ChangedFiles w @ fs \<and> distinct fs \<and> set fs \<inter> set (rw_ChangedFiles w) = {}"
  unfolding window_reach_def
proof (induction rule: rtranclp_induct)
  case base
  show ?case by (intro exI [of _ "[]"]) simp
next
  case (step y z)
  then obtain fs gs where "rw_ChangedFiles y = rw_ChangedFiles w @ fs" "distinct fs" "set fs \<inter> set (rw_ChangedFiles w) = {}"
    "rw_ChangedFiles z = rw_ChangedFiles y @ gs" "distinct gs" "set gs \<inter> set (rw_ChangedFiles y) = {}"
    using window_step_files by blast
  then show ?case by (intro exI [of _ "fs @ gs"]) auto
qed

lemma reach_budget: "window_reach w w' \<Longrightarrow> rw_Budget w' = rw_Budget w"
  unfolding window_reach_def by (induction rule: rtranclp_induct) (simp_all add: window_step_budget)

lemma reach_decided: "window_reach w w' \<Longrightarrow> decided w \<Longrightarrow> rw_State w' = rw_State w"
  unfolding window_reach_def
proof (induction rule: rtranclp_induct)
  case (step y z)
  then have "rw_State y = rw_State w" by simp
  then show ?case using window_step_state [OF step(2)] step.prems by (auto simp: state_moves_def decided_def)
qed simp

text \<open>No decision without a review before it.\<close>

lemma reach_reviewed: "window_reach w w' \<Longrightarrow> rw_State w = WindowWorking \<Longrightarrow> decided w' \<Longrightarrow>
    \<exists>v. window_reach w v \<and> window_reach v w' \<and> rw_State v = WindowReviewing"
  unfolding window_reach_def
proof (induction rule: rtranclp_induct)
  case (step y z)
  show ?case
  proof (cases "decided y")
    case True
    then obtain v where "window_step\<^sup>*\<^sup>* w v" "window_step\<^sup>*\<^sup>* v y" "rw_State v = WindowReviewing" using step by blast
    then show ?thesis using step(2) by (meson rtranclp.rtrancl_into_rtrancl)
  next
    case False
    then have "rw_State y = WindowReviewing" using window_step_state [OF step(2)] step.prems by (auto simp: state_moves_def decided_def)
    then show ?thesis using step(1,2) by blast
  qed
qed (auto simp: decided_def)

subsection \<open>Heuristics as interfaces\<close>

text \<open>What most heuristics promise, as \<^verbatim>\<open>budget.go\<close> says: a signal is exceeded exactly when its value reaches its threshold.\<close>

locale over_threshold =
  fixes evaluate :: "diff_snapshot \<Rightarrow> breach_signal list"
  assumes exceeded_iff: "s \<in> set (evaluate d) \<Longrightarrow> bs_Exceeded s \<longleftrightarrow> bs_Value s \<ge> bs_Threshold s"
begin

lemma exceeded_filter: "Exceeded (evaluate d) = filter (\<lambda>s. bs_Value s \<ge> bs_Threshold s) (evaluate d)"
  unfolding Exceeded_def by (intro filter_cong refl exceeded_iff)

end

text \<open>A change that grew: more files and packages at the end of the lists.\<close>

definition grown :: "diff_snapshot \<Rightarrow> diff_snapshot \<Rightarrow> bool" where
  "grown d d' \<longleftrightarrow> (\<exists>fs ps. d' = d\<lparr>ds_ChangedFiles := ds_ChangedFiles d @ fs, ds_PackagesHit := ds_PackagesHit d @ ps\<rparr>)"

text \<open>Those of the first tier promise more: what was exceeded stays so as the change grows.\<close>

locale lasting_heuristic = over_threshold +
  assumes lasts: "grown d d' \<Longrightarrow> s \<in> set (evaluate d) \<Longrightarrow> bs_Exceeded s \<Longrightarrow> \<exists>s' \<in> set (evaluate d'). bs_Metric s' = bs_Metric s \<and> bs_Exceeded s'"
begin

definition breaches :: "diff_snapshot \<Rightarrow> string set" where "breaches d = bs_Metric ` set (Exceeded (evaluate d))"

lemma breaches_grow: "grown d d' \<Longrightarrow> breaches d \<subseteq> breaches d'"
proof
  fix m
  assume g: "grown d d'" and "m \<in> breaches d"
  then obtain s where "s \<in> set (evaluate d)" "bs_Exceeded s" "m = bs_Metric s" by (auto simp: breaches_def Exceeded_def)
  then obtain s' where "s' \<in> set (evaluate d')" "bs_Metric s' = m" "bs_Exceeded s'" using lasts [OF g] by metis
  then show "m \<in> breaches d'" by (force simp: breaches_def Exceeded_def)
qed

end

lemma reach_signal_iff: "bs_Exceeded (reach_signal m n l t) \<longleftrightarrow> bs_Value (reach_signal m n l t) \<ge> bs_Threshold (reach_signal m n l t)"
  by (simp add: reach_signal_def)

lemma presence_iff: "s \<in> set (presence_signal m w fs) \<Longrightarrow> bs_Exceeded s \<longleftrightarrow> bs_Value s \<ge> bs_Threshold s"
  by (cases fs) (auto simp: presence_signal_def)

lemma presence_lasts:
  assumes "s \<in> set (presence_signal m w fs)" "set fs \<subseteq> set fs'"
  shows "\<exists>s' \<in> set (presence_signal m w fs'). bs_Metric s' = bs_Metric s \<and> bs_Exceeded s'"
proof -
  have "fs \<noteq> []" "bs_Metric s = m" using assms(1) by (auto simp: presence_signal_def split: if_splits)
  moreover from this have "fs' \<noteq> []" using assms(2) by auto
  ultimately show ?thesis by (simp add: presence_signal_def)
qed

interpretation files: lasting_heuristic "FilesEvaluate cfg" for cfg
proof (unfold_locales, goal_cases)
  case (1 s d)
  then show ?case using reach_signal_iff by (auto simp: FilesEvaluate_def split: if_splits)
next
  case (2 d d' s)
  then show ?case by (auto simp: FilesEvaluate_def grown_def files_touched_def reach_signal_def split: if_splits)
qed

interpretation packages: lasting_heuristic "PackagesEvaluate cfg" for cfg
proof (unfold_locales, goal_cases)
  case (1 s d)
  then show ?case using reach_signal_iff by (auto simp: PackagesEvaluate_def split: if_splits)
next
  case (2 d d' s)
  then show ?case by (auto simp: PackagesEvaluate_def grown_def reach_signal_def split: if_splits)
qed

interpretation deps: lasting_heuristic "DepsEvaluate cfg" for cfg
proof (unfold_locales, goal_cases)
  case (1 s d)
  then show ?case using presence_iff by (auto simp: DepsEvaluate_def Let_def split: if_splits)
next
  case (2 d d' s)
  let ?fs = "\<lambda>e. ds_ChangedFiles e @ ds_AddedFiles e @ ds_DeletedFiles e"
  have sub: "set (filter P (?fs d)) \<subseteq> set (filter P (?fs d'))" for P using 2(1) by (auto simp: grown_def)
  have on: "rv_OnNewDependency cfg" using 2(2) by (auto simp: DepsEvaluate_def split: if_splits)
  from 2(2) on consider "s \<in> set (presence_signal ''dependency_changed'' ''dependency files: '' (filter is_dep_file (?fs d)))"
    | "s \<in> set (presence_signal ''config_changed'' ''config files: '' (filter (\<lambda>f. \<not> is_dep_file f \<and> isConfigFile f) (?fs d)))"
    unfolding DepsEvaluate_def Let_def by (simp only: if_False if_True not_True_eq_False set_append Un_iff) blast
  then show ?case
  proof cases
    case 1
    from presence_lasts [OF this sub] show ?thesis unfolding DepsEvaluate_def Let_def using on by (simp only: if_False not_True_eq_False set_append) blast
  next
    case 2
    from presence_lasts [OF this sub] show ?thesis unfolding DepsEvaluate_def Let_def using on by (simp only: if_False not_True_eq_False set_append) blast
  qed
qed

interpretation exports: over_threshold "ExportsEvaluate cfg differ" for cfg differ
  by unfold_locales (use reach_signal_iff in \<open>auto simp: ExportsEvaluate_def Let_def split: if_splits option.splits\<close>)

interpretation ifaces: over_threshold "InterfaceEvaluate cfg differ" for cfg differ
  by unfold_locales (use reach_signal_iff in \<open>auto simp: InterfaceEvaluate_def Let_def split: if_splits option.splits\<close>)

interpretation sigs: over_threshold "SignatureEvaluate cfg differ" for cfg differ
  by unfold_locales (use reach_signal_iff in \<open>auto simp: SignatureEvaluate_def Let_def split: if_splits option.splits\<close>)

interpretation complexity: over_threshold "ComplexityEvaluate m fs" for m fs
  by unfold_locales (use reach_signal_iff in \<open>auto simp: ComplexityEvaluate_def split: if_splits\<close>)

interpretation markers: over_threshold "MarkersEvaluate is_float is_int mt mm fs" for is_float is_int mt mm fs
  by unfold_locales (use reach_signal_iff in \<open>auto simp: MarkersEvaluate_def split: if_splits\<close>)

subsection \<open>A breach lasts\<close>

lemma add_new_append: "\<exists>ps. foldl add_new seen xs = seen @ ps"
proof (induction xs arbitrary: seen)
  case (Cons x xs)
  obtain ps where "foldl add_new (add_new seen x) xs = add_new seen x @ ps" using Cons by blast
  then show ?case by (auto simp: add_new_def [of seen x])
qed simp

lemma uniqueDirs_grow: "\<exists>ps. uniqueDirs (fs @ gs) = uniqueDirs fs @ ps"
  using add_new_append [of "foldl add_new [] (map parentDir fs)"] by (auto simp: uniqueDirs_def)

lemma add_new_set: "set (foldl add_new seen xs) = set seen \<union> set xs" by (induction xs arbitrary: seen) (auto simp: add_new_def)
lemma add_new_distinct: "distinct seen \<Longrightarrow> distinct (foldl add_new seen xs)" by (induction xs arbitrary: seen) (auto simp: add_new_def)

lemma window_grown: "rw_ChangedFiles w' = rw_ChangedFiles w @ fs \<Longrightarrow> grown (window_diff w) (window_diff w')"
  using uniqueDirs_grow [of "rw_ChangedFiles w" fs] by (auto simp: grown_def window_diff_def)

text \<open>The monitor of the first tier.\<close>

definition tier1 :: "review_config \<Rightarrow> budget_heuristic list" where
  "tier1 cfg =
     [\<lparr>bh_Name = ''tier1_files'', bh_Evaluate = \<lambda>d. Inr (FilesEvaluate cfg d)\<rparr>, \<lparr>bh_Name = ''tier1_packages'', bh_Evaluate = \<lambda>d. Inr (PackagesEvaluate cfg d)\<rparr>,
      \<lparr>bh_Name = ''tier1_deps'', bh_Evaluate = \<lambda>d. Inr (DepsEvaluate cfg d)\<rparr>]"

definition breach_metrics :: "review_window \<Rightarrow> string set" where "breach_metrics w = bs_Metric ` set (snd (snd (CheckBudget w)))"

lemma tier1_breaches: "rw_Budget w = Some (tier1 cfg) \<Longrightarrow>
    breach_metrics w = files.breaches cfg (window_diff w) \<union> packages.breaches cfg (window_diff w) \<union> deps.breaches cfg (window_diff w)"
  by (auto simp: breach_metrics_def CheckBudget_def Let_def bm_Check_def tier1_def files.breaches_def packages.breaches_def deps.breaches_def Exceeded_def)

lemma breaches_last:
  assumes "window_reach w w'" "rw_Budget w = Some (tier1 cfg)"
  shows "breach_metrics w \<subseteq> breach_metrics w'"
proof -
  obtain fs where "rw_ChangedFiles w' = rw_ChangedFiles w @ fs" using reach_files [OF assms(1)] by blast
  then have g: "grown (window_diff w) (window_diff w')" by (rule window_grown)
  have b: "rw_Budget w' = Some (tier1 cfg)" using reach_budget [OF assms(1)] assms(2) by simp
  show ?thesis unfolding tier1_breaches [OF assms(2)] tier1_breaches [OF b]
    using files.breaches_grow [OF g] packages.breaches_grow [OF g] deps.breaches_grow [OF g] by blast
qed

text \<open>A check tells of every heuristic that its change exceeds, and records all signals.\<close>

lemma check_exact: "rw_Budget w = Some bm \<Longrightarrow>
    CheckBudget w = (w\<lparr>rw_Signals := rw_Signals w @ bm_Check bm (window_diff w)\<rparr>, Exceeded (bm_Check bm (window_diff w)) \<noteq> [], Exceeded (bm_Check bm (window_diff w)))"
  by (simp add: CheckBudget_def Let_def)

text \<open>The window tells of no file that was added and of no lines, and gives no directory to read from: three kinds of limits can not be exceeded.\<close>

lemma window_blind:
  "ComplexityEvaluate m fs (window_diff w) = []" "DeadCodeEvaluate md mr fs (window_diff w) = []" "TestRatioEvaluate r (window_diff w) = []"
  "s \<in> set (FilesEvaluate cfg (window_diff w)) \<Longrightarrow> bs_Metric s = ''loc_delta'' \<Longrightarrow> \<not> bs_Exceeded s"
  "s \<in> set (PackagesEvaluate cfg (window_diff w)) \<Longrightarrow> bs_Metric s \<in> {''new_files'', ''deleted_files''} \<Longrightarrow> \<not> bs_Exceeded s"
  by (auto simp: ComplexityEvaluate_def DeadCodeEvaluate_def TestRatioEvaluate_def FilesEvaluate_def PackagesEvaluate_def window_diff_def reach_signal_def Let_def
      split: if_splits)

text \<open>Two tiers count the same thing twice, and the ratios of the fourth exceed below their thresholds, unlike the rest.\<close>

lemma else_if_twice: "countComplexityTokens ''} else if x {'' = 2" "countComplexityTokens ''elif x:'' = 2" "countComplexityTokens ''if x {'' = 1" by code_simp+

lemma integer_twice: "is_float ''42'' \<Longrightarrow> is_int ''42'' \<Longrightarrow> scanMagicNumbers is_float is_int ''x = 42'' = 2 + (if is_float ''x'' then 1 else 0) + (if is_int ''x'' then 1 else 0)
    + (if is_float ''='' then 1 else 0) + (if is_int ''='' then 1 else 0)"
  by (simp add: scanMagicNumbers_def str_fields_def is_space_def trim_by_def commonNumbers_def Let_def)

lemma ratio_below: "\<exists>s \<in> set (TestRatioEvaluate (1 / 2) \<lparr>ds_ChangedFiles = [], ds_AddedFiles = [''a.go''], ds_DeletedFiles = [], ds_LOCDelta = 0, ds_PackagesHit = [], ds_WorkDir = []\<rparr>).
    bs_Exceeded s \<and> bs_Value s < bs_Threshold s"
  by code_simp

subsection \<open>Tours\<close>

text \<open>The walker fills in five fields of a stop; the others are empty.\<close>

record full_stop = circuit_stop +
  st_SignatureBefore :: string
  st_SignatureAfter :: string
  st_InputType :: string
  st_OutputType :: string

definition walked_stop :: "circuit_stop \<Rightarrow> full_stop" where
  "walked_stop s = circuit_stop.extend s \<lparr>st_SignatureBefore = [], st_SignatureAfter = [], st_InputType = [], st_OutputType = []\<rparr>"

datatype tour_mode = ModeSummary | ModeSignatures | ModeIO | ModeImpact | ModeDiagram

record stop_view =
  sv_Name :: string
  sv_Detail :: string
  sv_Changed :: bool
  sv_PassThrough :: bool
  sv_CrossRef :: string

record circuit_view =
  cv_Title :: string
  cv_Stops :: "stop_view list"

record tour_view =
  tv_Circuits :: "circuit_view list"
  tv_DeadCode :: "string list"

definition qualifiedName :: "string \<Rightarrow> string \<Rightarrow> string" where "qualifiedName pkg name = (if pkg \<noteq> [] then pkg @ ''.'' @ name else name)"

definition arrow :: string where "arrow = '' '' @ [CHR 0xE2, CHR 0x86, CHR 0x92] @ '' ''"

definition formatStopDetail :: "tour_mode \<Rightarrow> full_stop \<Rightarrow> string" where
  "formatStopDetail md s =
     (case md of
        ModeSignatures \<Rightarrow>
          if st_SignatureBefore s \<noteq> [] \<and> st_SignatureAfter s \<noteq> [] \<and> st_SignatureBefore s \<noteq> st_SignatureAfter s
          then ''was: '' @ st_SignatureBefore s @ arrow @ ''now: '' @ st_SignatureAfter s
          else if st_SignatureAfter s \<noteq> [] then st_SignatureAfter s else st_SignatureBefore s
      | ModeIO \<Rightarrow> str_join ((if st_InputType s \<noteq> [] then [''in: '' @ st_InputType s] else []) @ (if st_OutputType s \<noteq> [] then [''out: '' @ st_OutputType s] else [])) arrow
      | ModeImpact \<Rightarrow> if st_Changed s then ''CHANGED'' else ''pass-through''
      | _ \<Rightarrow> [])"

definition view_stop :: "tour_mode \<Rightarrow> string list \<Rightarrow> full_stop \<Rightarrow> stop_view" where
  "view_stop md shared s =
     \<lparr>sv_Name = qualifiedName (st_Package s) (st_Name s), sv_Detail = formatStopDetail md s, sv_Changed = st_Changed s, sv_PassThrough = st_PassThrough s,
      sv_CrossRef = (if st_ID s \<in> set shared then ''shared across circuits'' else [])\<rparr>"

definition FormatTour :: "circuit list \<Rightarrow> tour_mode \<Rightarrow> tour_view" where
  "FormatTour circuits md =
     \<lparr>tv_Circuits = map (\<lambda>c. \<lparr>cv_Title = ci_Title c, cv_Stops = map (\<lambda>s. view_stop md (ci_Shared c) (walked_stop s)) (ci_Stops c)\<rparr>) circuits, tv_DeadCode = []\<rparr>"

definition ParseTourMode :: "string \<Rightarrow> tour_mode" where
  "ParseTourMode args =
     (let s = trim_space (to_lower args)
      in if s \<in> {''sigs'', ''signatures''} then ModeSignatures else if s = ''io'' then ModeIO else if s = ''impact'' then ModeImpact
         else if s \<in> {''diagram'', ''d''} then ModeDiagram else ModeSummary)"

lemma walked_simps [simp]: "st_SignatureBefore (walked_stop s) = []" "st_SignatureAfter (walked_stop s) = []" "st_InputType (walked_stop s) = []"
  "st_OutputType (walked_stop s) = []" "st_ID (walked_stop s) = st_ID s" "st_Changed (walked_stop s) = st_Changed s"
  by (simp_all add: walked_stop_def circuit_stop.defs)

text \<open>So the tours of signatures and of types show nothing.\<close>

lemma signatures_show_nothing:
  "md \<in> {ModeSignatures, ModeIO} \<Longrightarrow> c \<in> set (tv_Circuits (FormatTour cs md)) \<Longrightarrow> s \<in> set (cv_Stops c) \<Longrightarrow> sv_Detail s = []"
  by (auto simp: FormatTour_def view_stop_def formatStopDetail_def)

lemma debug_mode_is_summary: "ParseTourMode ''debug'' = ModeSummary" by code_simp

subsection \<open>What the agent is told\<close>

record review_cursor =
  rcu_CircuitIndex :: int
  rcu_StopIndex :: int
  rcu_File :: string

definition NewReviewCursor :: review_cursor where "NewReviewCursor = \<lparr>rcu_CircuitIndex = - 1, rcu_StopIndex = - 1, rcu_File = []\<rparr>"
definition cursor_MoveTo :: "int \<Rightarrow> int \<Rightarrow> review_cursor \<Rightarrow> review_cursor" where "cursor_MoveTo c s k = k\<lparr>rcu_CircuitIndex := c, rcu_StopIndex := s\<rparr>"
definition cursor_FocusFile :: "string \<Rightarrow> review_cursor \<Rightarrow> review_cursor" where "cursor_FocusFile f k = k\<lparr>rcu_File := f\<rparr>"
definition cursor_Reset :: "review_cursor \<Rightarrow> review_cursor" where "cursor_Reset k = k\<lparr>rcu_CircuitIndex := - 1, rcu_StopIndex := - 1, rcu_File := []\<rparr>"

lemma cursor_reset_new: "cursor_Reset k = NewReviewCursor" by (simp add: cursor_Reset_def NewReviewCursor_def)

record review_context =
  rx_ScopeAnchor :: string
  rx_DriftVerdict :: string
  rx_TriggerReason :: string
  rx_ChangedFiles :: "string list"
  rx_FocusedFile :: string
  rx_Annotations :: "(string \<times> string \<times> string) list"

text \<open>Annotations are file, kind and comment.\<close>

definition review_FormatPrompt :: "review_context \<Rightarrow> string" where
  "review_FormatPrompt rc =
     ''[REVIEW MODE]'' @ nl @ ''Scope: '' @ rx_ScopeAnchor rc @ nl @ ''Drift: '' @ rx_DriftVerdict rc @ nl @
     (if rx_TriggerReason rc \<noteq> [] then ''Trigger: '' @ rx_TriggerReason rc @ nl else []) @ ''Files: '' @ nat_dec (length (rx_ChangedFiles rc)) @ '' changed'' @ nl @
     (if rx_FocusedFile rc \<noteq> [] then ''Focus: '' @ rx_FocusedFile rc @ nl else []) @
     (if length (rx_Annotations rc) > 0 then ''Annotations:'' @ nl @ concat (map (\<lambda>(f, k, c). ''  '' @ k @ '' '' @ f @ '': '' @ c @ nl) (rx_Annotations rc)) else [])"

definition FormatNarrationPrompt :: "review_context \<Rightarrow> string \<Rightarrow> string" where
  "FormatNarrationPrompt rc stopName =
     ''NARRATION REQUEST'' @ nl @ nl @ ''The operator is reviewing changes and is now looking at: '' @ stopName @ nl @ ''Scope: '' @ rx_ScopeAnchor rc @ nl @
     ''Drift: '' @ rx_DriftVerdict rc @ nl @ nl @ ''Provide a ONE LINE explanation of why this stop was changed '' @ ''and how it relates to the original request. Be concise.''"

definition em_dash_text :: string where "em_dash_text = '' '' @ [CHR 0xE2, CHR 0x80, CHR 0x94] @ '' ''"

definition CommandHelp :: "string \<Rightarrow> string" where
  "CommandHelp cmd =
     (if cmd = ''review'' then '':review'' @ em_dash_text @ ''halt agent and enter review mode''
      else if cmd = ''approve'' then '':approve [message]'' @ em_dash_text @ ''commit reviewed changes and resume''
      else if cmd = ''reject'' then '':reject [reason]'' @ em_dash_text @ ''discard changes, agent retries with feedback''
      else if cmd = ''split'' then '':split <approve-glob>'' @ em_dash_text @ ''approve matching files, reject rest''
      else if cmd = ''tour'' then '':tour [mode]'' @ em_dash_text @ ''visual review via data flow circuits (summary|sigs|io|impact|debug|diagram)''
      else [])"

end
