(* ===== verification/Budget_Properties.thy ===== *)
theory Budget_Properties
  imports Review_Windows
begin

text \<open>
  What the reviews guarantee: the life of a window, how long a breach of the budget lasts, and what the comparison of symbols finds.
\<close>

text \<open>Property C20: whatever is called on a review window, in any order, no file is listed twice and none is dropped; a decision is
  taken once, only on a window that was in review, and is never taken back; a call that answers with an error leaves the window as it was.\<close>

theorem review_window_lifecycle:
  assumes "window_reach (NewReviewWindow now request budget) w" "window_reach w w'"
  shows "distinct (rw_ChangedFiles w) \<and> set (rw_ChangedFiles w) \<subseteq> set (rw_ChangedFiles w')
    \<and> (decided w \<longrightarrow> rw_State w' = rw_State w \<and> (\<exists>v. window_reach (NewReviewWindow now request budget) v \<and> window_reach v w \<and> rw_State v = WindowReviewing))
    \<and> (snd (EnterReview w) = Some e \<longrightarrow> fst (EnterReview w) = w) \<and> (snd (window_Approve w) = Some e \<longrightarrow> fst (window_Approve w) = w)
    \<and> (snd (window_Reject w) = Some e \<longrightarrow> fst (window_Reject w) = w) \<and> (snd (window_Split as rs w) = Some e \<longrightarrow> fst (window_Split as rs w) = w)"
proof -
  have d: "distinct (rw_ChangedFiles w)" using reach_files [OF assms(1)] by (auto simp: NewReviewWindow_def)
  have s: "set (rw_ChangedFiles w) \<subseteq> set (rw_ChangedFiles w')" using reach_files [OF assms(2)] by auto
  have r: "decided w \<Longrightarrow> \<exists>v. window_reach (NewReviewWindow now request budget) v \<and> window_reach v w \<and> rw_State v = WindowReviewing"
    using reach_reviewed [OF assms(1)] by (simp add: NewReviewWindow_def)
  show ?thesis using d s r reach_decided [OF assms(2)] by (simp add: EnterReview_def window_ops decide_window_def)
qed

definition demo_review :: review_window where
  "demo_review = fst (window_Approve (fst (EnterReview (RecordChange ''auth/a.go'' (NewReviewWindow 1 ''fix auth/a.go'' None)))))"

lemma demo_reached: "window_reach (NewReviewWindow 1 ''fix auth/a.go'' None) demo_review"
  unfolding demo_review_def by (intro window_reach_step [OF _ approve] window_reach_step [OF _ enter] window_reach_step [OF _ record_file] window_reach_refl)

lemma demo_rejected: "window_reach demo_review (fst (window_Reject demo_review))"
  by (rule window_reach_step [OF window_reach_refl reject])

lemma demo_decided: "decided demo_review" by code_simp

lemma review_window_lifecycle_witness: "rw_State (fst (window_Reject demo_review)) = rw_State demo_review \<and> distinct (rw_ChangedFiles demo_review)"
  using review_window_lifecycle [OF demo_reached demo_rejected, where e = ErrNotWorking and as = "[]" and rs = "[]"] demo_decided by blast




subsection \<open>Symbols\<close>

lemma symbols_by_name_None: "symbols_by_name ss n = None \<longleftrightarrow> n \<notin> si_Name ` set ss"
  by (simp add: symbols_by_name_def map_of_eq_None_iff image_image)

lemma symbols_by_name_Some: "distinct (map si_Name ss) \<Longrightarrow> symbols_by_name ss n = Some s \<longleftrightarrow> s \<in> set ss \<and> si_Name s = n"
proof -
  assume d: "distinct (map si_Name ss)"
  have "distinct (map fst (rev (map (\<lambda>s. (si_Name s, s)) ss)))" using d by (simp add: rev_map [symmetric] comp_def)
  from map_of_eq_Some_iff [OF this, of n s] show ?thesis by (auto simp: symbols_by_name_def)
qed

definition symbol_key :: "symbol_info \<Rightarrow> string \<times> nat \<times> string \<times> nat" where
  "symbol_key s = (si_Name s, si_Kind s, si_Detail s, si_Children s)"

lemma symbol_changed_None: "si_Name b = si_Name a \<Longrightarrow> symbol_changed b a = None \<longleftrightarrow> symbol_key b = symbol_key a"
  by (auto simp: symbol_changed_def symbol_key_def)

lemma modified_set:
  assumes "distinct (map si_Name before)"
  shows "set (sd_Modified (DiffSymbolSets before after)) = {c. \<exists>b \<in> set before. \<exists>a \<in> set after. si_Name b = si_Name a \<and> symbol_changed b a = Some c}"
proof -
  have "(case symbols_by_name before (si_Name a) of None \<Rightarrow> None | Some b \<Rightarrow> symbol_changed b a) = Some c \<longleftrightarrow>
      (\<exists>b \<in> set before. si_Name b = si_Name a \<and> symbol_changed b a = Some c)" for a c
  proof (cases "symbols_by_name before (si_Name a)")
    case None
    then have "\<not> (b \<in> set before \<and> si_Name b = si_Name a)" for b using symbols_by_name_Some [OF assms, of "si_Name a" b] by simp
    then show ?thesis using None by auto
  next
    case (Some x)
    then have x: "x \<in> set before" "si_Name x = si_Name a" using symbols_by_name_Some [OF assms, of "si_Name a" x] by simp_all
    have u: "b = x" if "b \<in> set before" "si_Name b = si_Name a" for b using symbols_by_name_Some [OF assms, of "si_Name a" b] that Some by simp
    show ?thesis unfolding Some option.case using x u by metis
  qed
  then show ?thesis by (auto simp: DiffSymbolSets_def map_filter_set)
qed

lemma symbol_changed_Some: "si_Name b = si_Name a \<Longrightarrow> symbol_changed b a = Some c \<longleftrightarrow> symbol_key b \<noteq> symbol_key a
    \<and> c = \<lparr>sc_Name = si_Name a, sc_Kind = si_Kind a, sc_Exported = si_Exported a, sc_DetailBefore = si_Detail b, sc_DetailAfter = si_Detail a,
           sc_ChildrenBefore = si_Children b, sc_ChildrenAfter = si_Children a\<rparr>"
  by (auto simp: symbol_changed_def symbol_key_def)

lemma modified_none:
  assumes "distinct (map si_Name before)"
  shows "sd_Modified (DiffSymbolSets before after) = [] \<longleftrightarrow> (\<forall>b \<in> set before. \<forall>a \<in> set after. si_Name b = si_Name a \<longrightarrow> symbol_key b = symbol_key a)"
proof -
  have "sd_Modified (DiffSymbolSets before after) = [] \<longleftrightarrow> set (sd_Modified (DiffSymbolSets before after)) = {}" by simp
  also have "\<dots> \<longleftrightarrow> (\<forall>b \<in> set before. \<forall>a \<in> set after. si_Name b = si_Name a \<longrightarrow> symbol_changed b a = None)"
  proof -
    have n: "symbol_changed b a = None \<longleftrightarrow> \<not> (\<exists>c. symbol_changed b a = Some c)" for a b by simp
    show ?thesis unfolding modified_set [OF assms] n by blast
  qed
  finally show ?thesis using symbol_changed_None by metis
qed

lemma sub_keys:
  assumes "distinct (map si_Name before)" "distinct (map si_Name after)"
  shows "sd_Added (DiffSymbolSets before after) = [] \<and> sd_Modified (DiffSymbolSets before after) = [] \<longleftrightarrow> symbol_key ` set after \<subseteq> symbol_key ` set before"
proof
  assume e: "sd_Added (DiffSymbolSets before after) = [] \<and> sd_Modified (DiffSymbolSets before after) = []"
  show "symbol_key ` set after \<subseteq> symbol_key ` set before"
  proof
    fix k
    assume "k \<in> symbol_key ` set after"
    then obtain a where a: "a \<in> set after" "k = symbol_key a" by blast
    have "symbols_by_name before (si_Name a) \<noteq> None" using e a(1) by (auto simp: DiffSymbolSets_def filter_empty_conv)
    then obtain b where b: "b \<in> set before" "si_Name b = si_Name a" by (auto simp: symbols_by_name_None image_iff)
    have "symbol_changed b a = None"
    proof (rule ccontr)
      assume "symbol_changed b a \<noteq> None"
      then obtain c where "symbol_changed b a = Some c" by blast
      then have "c \<in> set (sd_Modified (DiffSymbolSets before after))" using a(1) b modified_set [OF assms(1)] by blast
      then show False using e by simp
    qed
    then show "k \<in> symbol_key ` set before" using a(2) b symbol_changed_None by (metis imageI)
  qed
next
  assume s: "symbol_key ` set after \<subseteq> symbol_key ` set before"
  have f: "\<exists>b \<in> set before. symbol_key b = symbol_key a" if "a \<in> set after" for a using s that by (metis image_iff subsetD imageI)
  have "sd_Added (DiffSymbolSets before after) = []"
  proof -
    have "symbols_by_name before (si_Name a) \<noteq> None" if "a \<in> set after" for a
      using f [OF that] by (auto simp: symbols_by_name_None symbol_key_def image_iff intro: sym)
    then show ?thesis by (simp add: DiffSymbolSets_def filter_empty_conv)
  qed
  moreover have "sd_Modified (DiffSymbolSets before after) = []" unfolding modified_none [OF assms(1)]
  proof (intro ballI impI)
    fix b a
    assume m: "b \<in> set before" "a \<in> set after" "si_Name b = si_Name a"
    from f [OF m(2)] obtain b' where b': "b' \<in> set before" "symbol_key b' = symbol_key a" by blast
    then have "si_Name b' = si_Name b" using m(3) by (simp add: symbol_key_def)
    then have "b' = b" using assms(1) b'(1) m(1) by (simp add: distinct_map inj_on_def)
    then show "symbol_key b = symbol_key a" using b'(2) by simp
  qed
  ultimately show "sd_Added (DiffSymbolSets before after) = [] \<and> sd_Modified (DiffSymbolSets before after) = []" by simp
qed

text \<open>Property C22: the comparison of two sets of symbols with different names is exact: added are those whose name is new, removed those the
  comparison the other way round adds, modified the pairs of one name that differ in kind, detail or number of parts, with both values;
  and it is empty exactly when both sets have the same names with the same kinds, details and numbers of parts.\<close>

theorem symbol_diff_exact:
  assumes "distinct (map si_Name before)" "distinct (map si_Name after)"
  shows "sd_Added (DiffSymbolSets before after) = filter (\<lambda>s. si_Name s \<notin> si_Name ` set before) after
    \<and> sd_Removed (DiffSymbolSets before after) = sd_Added (DiffSymbolSets after before)
    \<and> set (sd_Modified (DiffSymbolSets before after)) = {c. \<exists>b \<in> set before. \<exists>a \<in> set after. si_Name b = si_Name a \<and> symbol_key b \<noteq> symbol_key a
         \<and> c = \<lparr>sc_Name = si_Name a, sc_Kind = si_Kind a, sc_Exported = si_Exported a, sc_DetailBefore = si_Detail b, sc_DetailAfter = si_Detail a,
                sc_ChildrenBefore = si_Children b, sc_ChildrenAfter = si_Children a\<rparr>}
    \<and> (DiffSymbolSets before after = \<lparr>sd_Added = [], sd_Removed = [], sd_Modified = []\<rparr> \<longleftrightarrow> symbol_key ` set before = symbol_key ` set after)"
proof -
  have 1: "sd_Added (DiffSymbolSets before after) = filter (\<lambda>s. si_Name s \<notin> si_Name ` set before) after" by (simp add: DiffSymbolSets_def symbols_by_name_None)
  have 2: "sd_Removed (DiffSymbolSets before after) = sd_Added (DiffSymbolSets after before)" by (simp add: DiffSymbolSets_def)
  have 3: "set (sd_Modified (DiffSymbolSets before after)) = {c. \<exists>b \<in> set before. \<exists>a \<in> set after. si_Name b = si_Name a \<and> symbol_key b \<noteq> symbol_key a
         \<and> c = \<lparr>sc_Name = si_Name a, sc_Kind = si_Kind a, sc_Exported = si_Exported a, sc_DetailBefore = si_Detail b, sc_DetailAfter = si_Detail a,
                sc_ChildrenBefore = si_Children b, sc_ChildrenAfter = si_Children a\<rparr>}"
    unfolding modified_set [OF assms(1)] using symbol_changed_Some by (intro Collect_cong bex_cong refl conj_cong) metis
  have e: "d = \<lparr>sd_Added = [], sd_Removed = [], sd_Modified = []\<rparr> \<longleftrightarrow> sd_Added d = [] \<and> sd_Removed d = [] \<and> sd_Modified d = []" for d by (cases d) simp
  have m: "sd_Modified (DiffSymbolSets before after) = [] \<longleftrightarrow> sd_Modified (DiffSymbolSets after before) = []"
    unfolding modified_none [OF assms(1)] modified_none [OF assms(2)] by metis
  have "(DiffSymbolSets before after = \<lparr>sd_Added = [], sd_Removed = [], sd_Modified = []\<rparr>) \<longleftrightarrow>
      sd_Added (DiffSymbolSets before after) = [] \<and> sd_Added (DiffSymbolSets after before) = [] \<and> sd_Modified (DiffSymbolSets before after) = []"
    using 2 e [of "DiffSymbolSets before after"] by auto
  then have 4: "(DiffSymbolSets before after = \<lparr>sd_Added = [], sd_Removed = [], sd_Modified = []\<rparr>) \<longleftrightarrow> symbol_key ` set before = symbol_key ` set after"
    using sub_keys [OF assms] sub_keys [OF assms(2,1)] m by auto
  show ?thesis using 1 2 3 4 by blast
qed

definition demo_symbol :: "string \<Rightarrow> string \<Rightarrow> symbol_info" where
  "demo_symbol n t = \<lparr>si_Name = n, si_Kind = 12, si_Detail = t, si_Exported = True, si_Children = 0\<rparr>"

lemma symbol_diff_exact_witness:
  "sd_Removed (DiffSymbolSets [demo_symbol ''a'' ''x'', demo_symbol ''b'' ''x''] [demo_symbol ''b'' ''y'']) =
   sd_Added (DiffSymbolSets [demo_symbol ''b'' ''y''] [demo_symbol ''a'' ''x'', demo_symbol ''b'' ''x''])"
  using symbol_diff_exact [of "[demo_symbol ''a'' ''x'', demo_symbol ''b'' ''x'']" "[demo_symbol ''b'' ''y'']"] by (simp add: demo_symbol_def)

text \<open>A window goes on recording after it was decided, so a decision covers files nobody looked at.\<close>

lemma decided_window_records: "rw_State demo_review = WindowApproved \<and> rw_ChangedFiles (RecordChange ''late.go'' demo_review) = [''auth/a.go'', ''late.go'']"
  by code_simp

text \<open>The scope of a request that names a directory without a slash at its end is the directory above.\<close>

lemma scope_too_wide: "extractPackages ''fix src/auth'' = [''src''] \<and> isInScope (NewScopeAnchor ''fix src/auth'') ''src/billing/pay.go''"
  by code_simp

end
