(* ===== verification/Tui_Widgets.thy ===== *)
theory Tui_Widgets
  imports Tui_Focus
begin

text \<open>
  The lists of the terminal: panels with a cursor (\<^verbatim>\<open>tui/widgets/list.go\<close>, \<^verbatim>\<open>agents.go\<close>, \<^verbatim>\<open>commands.go\<close>, \<^verbatim>\<open>onboarding.go\<close>), the queue of
  prompts, dialogs and the dashboard. What moves a cursor is one interface, the locale \<open>cursor_list\<close>, of which each list is an
  interpretation. Styles are arguments: a style is a function of its name.
\<close>

subsection \<open>Panels, keys and styles\<close>

record base_panel =
  bp_id :: string
  bp_focused :: bool
  bp_collapsed :: bool
  bp_height :: int

definition NewBasePanel :: "string \<Rightarrow> int \<Rightarrow> base_panel" where
  "NewBasePanel i h = \<lparr>bp_id = i, bp_focused = False, bp_collapsed = False, bp_height = h\<rparr>"

definition panel_SetFocus :: "bool \<Rightarrow> base_panel \<Rightarrow> base_panel" where "panel_SetFocus f b = b\<lparr>bp_focused := f\<rparr>"
definition panel_Toggle :: "base_panel \<Rightarrow> base_panel" where "panel_Toggle b = b\<lparr>bp_collapsed := \<not> bp_collapsed b\<rparr>"
definition panel_SetCollapsed :: "bool \<Rightarrow> base_panel \<Rightarrow> base_panel" where "panel_SetCollapsed v b = b\<lparr>bp_collapsed := v\<rparr>"

text \<open>A key as the terminal library delivers it: its type, and its text.\<close>

datatype key_type = KeyUp | KeyDown | KeyTab | KeyEnter | KeyEsc | KeyElse

record tea_key =
  k_Type :: key_type
  k_Alt :: bool
  k_String :: string

datatype tui_style = DimStyle | UserStyle | StatusStyle | ToolNameStyle | ToolArgStyle | ToolSuccessStyle | ErrorStyle | OtherStyle string | BoldColor string

type_synonym styling = "tui_style \<Rightarrow> string \<Rightarrow> string"

text \<open>Symbols outside ASCII are written as their bytes.\<close>

definition glyph_cursor :: string where "glyph_cursor = [CHR 0xE2, CHR 0x96, CHR 0xB8]"
definition glyph_dot :: string where "glyph_dot = [CHR 0xE2, CHR 0x97, CHR 0x8F]"
definition LabelUser :: string where "LabelUser = ''> ''"
definition spinner_first :: string where "spinner_first = [CHR 0xE2, CHR 0x97, CHR 0x86]"

subsection \<open>Moving a cursor\<close>

text \<open>What the four lists promise: a key up or down moves the cursor by one inside the list and leaves the list alone.\<close>

locale cursor_list =
  fixes size_of :: "'w \<Rightarrow> nat" and cur :: "'w \<Rightarrow> int" and up :: "'w \<Rightarrow> 'w" and down :: "'w \<Rightarrow> 'w"
  assumes size_up: "size_of (up w) = size_of w"
    and size_down: "size_of (down w) = size_of w"
    and cur_up: "cur (up w) = (if cur w > 0 then cur w - 1 else cur w)"
    and cur_down: "cur (down w) = (if cur w < int (size_of w) - 1 then cur w + 1 else cur w)"
begin

definition on_item :: "'w \<Rightarrow> bool" where
  "on_item w \<longleftrightarrow> 0 \<le> cur w \<and> (cur w < int (size_of w) \<or> cur w = 0)"

lemma on_item_up: "on_item w \<Longrightarrow> on_item (up w)" by (auto simp: on_item_def size_up cur_up)
lemma on_item_down: "on_item w \<Longrightarrow> on_item (down w)" by (auto simp: on_item_def size_down cur_down)

lemma size_ups: "size_of ((up ^^ n) w) = size_of w" by (induction n) (simp_all add: size_up)
lemma size_downs: "size_of ((down ^^ n) w) = size_of w" by (induction n) (simp_all add: size_down)

lemma cur_ups: "0 \<le> cur w \<Longrightarrow> cur ((up ^^ n) w) = max 0 (cur w - int n)" by (induction n) (auto simp: cur_up)

lemma cur_downs: "cur w < int (size_of w) \<Longrightarrow> cur ((down ^^ n) w) = min (int (size_of w) - 1) (cur w + int n)"
  by (induction n) (auto simp: cur_down size_downs)

text \<open>Every item can be selected: up to the top, and down to it.\<close>

lemma reach: "on_item w \<Longrightarrow> i < size_of w \<Longrightarrow> cur ((down ^^ i) ((up ^^ size_of w) w)) = int i"
proof -
  assume w: "on_item w" and i: "i < size_of w"
  have "cur ((up ^^ size_of w) w) = 0" using w by (auto simp: cur_ups on_item_def)
  then show ?thesis using i cur_downs [of "(up ^^ size_of w) w" i] by (simp add: size_ups)
qed

lemma up_undoes_down: "0 \<le> cur w \<Longrightarrow> cur w < int (size_of w) - 1 \<Longrightarrow> cur (up (down w)) = cur w"
  by (simp add: cur_up cur_down)

end

subsection \<open>The list\<close>

record 'p list_panel =
  lp_base :: base_panel
  lp_items :: "'p list"
  lp_cursor :: int
  lp_scrollOff :: int
  lp_visibleMax :: int

datatype 'p list_msg = ListSetItems "'p list" | ListKey tea_key | ListOther

definition NewListPanel :: "string \<Rightarrow> 'p list \<Rightarrow> 'p list_panel" where
  "NewListPanel i items = \<lparr>lp_base = NewBasePanel i 0, lp_items = items, lp_cursor = 0, lp_scrollOff = 0, lp_visibleMax = 20\<rparr>"

definition list_Selected :: "'p list_panel \<Rightarrow> 'p option" where
  "list_Selected p = (if lp_cursor p \<ge> 0 \<and> lp_cursor p < int (length (lp_items p)) then Some (lp_items p ! nat (lp_cursor p)) else None)"

definition list_Children :: "('p \<Rightarrow> 'p list) \<Rightarrow> 'p list_panel \<Rightarrow> 'p list" where
  "list_Children children p = (case list_Selected p of Some x \<Rightarrow> children x | None \<Rightarrow> [])"

definition list_SetItems :: "'p list \<Rightarrow> 'p list_panel \<Rightarrow> 'p list_panel" where
  "list_SetItems items p =
     p\<lparr>lp_items := items, lp_cursor := (if lp_cursor p \<ge> int (length items) then max 0 (int (length items) - 1) else lp_cursor p), lp_scrollOff := 0\<rparr>"

definition ensureVisible :: "'p list_panel \<Rightarrow> 'p list_panel" where
  "ensureVisible p =
     (if lp_visibleMax p \<le> 0 then p
      else let p1 = (if lp_cursor p < lp_scrollOff p then p\<lparr>lp_scrollOff := lp_cursor p\<rparr> else p)
        in if lp_cursor p1 \<ge> lp_scrollOff p1 + lp_visibleMax p1 then p1\<lparr>lp_scrollOff := lp_cursor p1 - lp_visibleMax p1 + 1\<rparr> else p1)"

definition list_up :: "'p list_panel \<Rightarrow> 'p list_panel" where
  "list_up p = (if lp_cursor p > 0 then ensureVisible (p\<lparr>lp_cursor := lp_cursor p - 1\<rparr>) else p)"

definition list_down :: "'p list_panel \<Rightarrow> 'p list_panel" where
  "list_down p = (if lp_cursor p < int (length (lp_items p)) - 1 then ensureVisible (p\<lparr>lp_cursor := lp_cursor p + 1\<rparr>) else p)"

fun list_Update :: "'p list_msg \<Rightarrow> 'p list_panel \<Rightarrow> 'p list_panel" where
  "list_Update (ListSetItems items) p = list_SetItems items p"
| "list_Update (ListKey k) p =
     (if \<not> bp_focused (lp_base p) then p else if k_Type k = KeyUp then list_up p else if k_Type k = KeyDown then list_down p else p)"
| "list_Update ListOther p = p"

definition view_range :: "'p list_panel \<Rightarrow> int \<times> int" where
  "view_range p = (if lp_visibleMax p > 0 then (lp_scrollOff p, min (lp_scrollOff p + lp_visibleMax p) (int (length (lp_items p)))) else (0, int (length (lp_items p))))"

definition list_View :: "styling \<Rightarrow> ('p \<Rightarrow> int \<Rightarrow> string) \<Rightarrow> int \<Rightarrow> 'p list_panel \<Rightarrow> string" where
  "list_View sty view width p =
     (if lp_items p = [] then sty DimStyle ''  (empty)''
      else case view_range p of (start, stop) \<Rightarrow>
        str_join (map (\<lambda>i. (if i = lp_cursor p then glyph_cursor @ '' '' else ''  '') @ view (lp_items p ! nat i) (width - 2)) [start..stop - 1]) nl)"

lemma ensure_keeps [simp]: "lp_items (ensureVisible p) = lp_items p" "lp_cursor (ensureVisible p) = lp_cursor p" "lp_visibleMax (ensureVisible p) = lp_visibleMax p"
  "lp_base (ensureVisible p) = lp_base p"
  by (simp_all add: ensureVisible_def Let_def)

interpretation li: cursor_list "\<lambda>p. length (lp_items p)" lp_cursor list_up list_down
  by unfold_locales (simp_all add: list_up_def list_down_def)

subsection \<open>The queue of prompts\<close>

datatype queue_msg = QueueAdd string | QueueDrain | QueueClear | QueueRemove int

fun queue_Update :: "queue_msg \<Rightarrow> string list \<Rightarrow> string list" where
  "queue_Update (QueueAdd prompt) q = q @ [prompt]"
| "queue_Update QueueDrain q = (if length q > 0 then drop 1 q else q)"
| "queue_Update QueueClear q = []"
| "queue_Update (QueueRemove i) q = (if i \<ge> 0 \<and> i < int (length q) then take (nat i) q @ drop (nat i + 1) q else q)"

text \<open>Cutting a string: below a width of three the slice has a negative end and panics, which is \<open>None\<close>.\<close>

definition cut_at :: "string \<Rightarrow> int \<Rightarrow> string option" where
  "cut_at s maxLen = (if maxLen - 3 < 0 then None else Some (take (nat (maxLen - 3)) s @ ''...''))"

definition truncateQueue :: "string \<Rightarrow> int \<Rightarrow> string option" where
  "truncateQueue s maxLen = (if maxLen \<le> 0 \<or> int (length s) \<le> maxLen then Some s else cut_at s maxLen)"

fun queue_lines :: "styling \<Rightarrow> int \<Rightarrow> nat \<Rightarrow> string list \<Rightarrow> string option" where
  "queue_lines sty width i [] = Some []"
| "queue_lines sty width i (item # q) =
     (case truncateQueue item (width - 6) of
        None \<Rightarrow> None
      | Some t \<Rightarrow> map_option (\<lambda>more. nl @ ''  '' @ sty DimStyle (nat_dec (i + 1) @ ''.'') @ '' '' @ sty UserStyle t @ more) (queue_lines sty width (i + 1) q))"

definition queue_View :: "styling \<Rightarrow> int \<Rightarrow> string list \<Rightarrow> string option" where
  "queue_View sty width q = (if q = [] then Some [] else map_option (\<lambda>r. sty DimStyle ''  queued:'' @ r) (queue_lines sty width 0 q))"

subsection \<open>The commands\<close>

record commands_panel =
  cp_base :: base_panel
  cp_commands :: "string list"
  cp_matches :: "string list"
  cp_visible :: bool
  cp_cursor :: int

datatype commands_msg = CommandsShow string | CommandsHide | CommandsKey tea_key | CommandsOther

definition NewCommandsPanel :: "string list \<Rightarrow> commands_panel" where
  "NewCommandsPanel cs = \<lparr>cp_base = NewBasePanel ''commands'' 0, cp_commands = cs, cp_matches = [], cp_visible = False, cp_cursor = 0\<rparr>"

definition filterCommands :: "string list \<Rightarrow> string \<Rightarrow> string list" where
  "filterCommands commands pre = filter (\<lambda>c. has_prefix c pre) commands"

definition commands_Active :: "commands_panel \<Rightarrow> bool" where
  "commands_Active p \<longleftrightarrow> cp_visible p \<and> length (cp_matches p) > 0"

definition commands_Selected :: "commands_panel \<Rightarrow> string" where
  "commands_Selected p = (if cp_cursor p \<ge> 0 \<and> cp_cursor p < int (length (cp_matches p)) then cp_matches p ! nat (cp_cursor p) else [])"

definition commands_up :: "commands_panel \<Rightarrow> commands_panel" where
  "commands_up p = (if cp_cursor p > 0 then p\<lparr>cp_cursor := cp_cursor p - 1\<rparr> else p)"

definition commands_down :: "commands_panel \<Rightarrow> commands_panel" where
  "commands_down p = (if cp_cursor p < int (length (cp_matches p)) - 1 then p\<lparr>cp_cursor := cp_cursor p + 1\<rparr> else p)"

fun commands_Update :: "commands_msg \<Rightarrow> commands_panel \<Rightarrow> commands_panel" where
  "commands_Update (CommandsShow pre) p = p\<lparr>cp_visible := True, cp_matches := filterCommands (cp_commands p) pre, cp_cursor := 0\<rparr>"
| "commands_Update CommandsHide p = p\<lparr>cp_visible := False, cp_matches := [], cp_cursor := 0\<rparr>"
| "commands_Update (CommandsKey k) p =
     (if \<not> cp_visible p \<or> \<not> bp_focused (cp_base p) then p
      else if k_Type k = KeyUp then commands_up p else if k_Type k = KeyDown then commands_down p else p)"
| "commands_Update CommandsOther p = p"

definition commands_View :: "styling \<Rightarrow> commands_panel \<Rightarrow> string" where
  "commands_View sty p =
     (if \<not> cp_visible p \<or> length (cp_matches p) = 0 then []
      else str_join (map (\<lambda>(i, c). (if int i = cp_cursor p then sty DimStyle (glyph_cursor @ '' '') else ''  '') @ sty DimStyle c) (enumerate 0 (cp_matches p))) nl)"

interpretation ci: cursor_list "\<lambda>p. length (cp_matches p)" cp_cursor commands_up commands_down
  by unfold_locales (simp_all add: commands_up_def commands_down_def)

subsection \<open>The output\<close>

text \<open>The viewport is of another module: its operations are an argument.\<close>

record 'v viewport_lib =
  vl_New :: "int \<Rightarrow> int \<Rightarrow> 'v"
  vl_Width :: "'v \<Rightarrow> int"
  vl_Height :: "'v \<Rightarrow> int"
  vl_SetSize :: "int \<Rightarrow> int \<Rightarrow> 'v \<Rightarrow> 'v"
  vl_SetContent :: "string \<Rightarrow> 'v \<Rightarrow> 'v"
  vl_GotoBottom :: "'v \<Rightarrow> 'v"
  vl_View :: "'v \<Rightarrow> string"

record 'v output_panel =
  op_base :: base_panel
  op_vp :: "'v option"
  op_lines :: "string list"
  op_overlay :: string
  op_dirty :: bool
  op_lastContent :: string
  op_streamBuf :: string

datatype 'm output_msg = OutputAppend string | OutputSetLine int string | OutputAppendLast string | OutputClear | OutputSetOverlay string
  | OutputResize int int | OutputText string | FlushStream | OutputOther 'm

definition NewOutputPanel :: "'v output_panel" where
  "NewOutputPanel = \<lparr>op_base = NewBasePanel ''output'' 0, op_vp = None, op_lines = [], op_overlay = [], op_dirty = True, op_lastContent = [], op_streamBuf = []\<rparr>"

definition InitViewport :: "'v viewport_lib \<Rightarrow> int \<Rightarrow> int \<Rightarrow> 'v output_panel \<Rightarrow> 'v output_panel" where
  "InitViewport vl width height p =
     (let h = (if height < 3 then 3 else height)
      in case op_vp p of
           None \<Rightarrow> p\<lparr>op_vp := Some (vl_New vl width h), op_dirty := True\<rparr>
         | Some v \<Rightarrow> if vl_Width vl v \<noteq> width \<or> vl_Height vl v \<noteq> h then p\<lparr>op_vp := Some (vl_SetSize vl width h v), op_dirty := True\<rparr> else p)"

definition output_Append :: "string \<Rightarrow> 'v output_panel \<Rightarrow> 'v output_panel" where
  "output_Append line p = p\<lparr>op_lines := op_lines p @ [line], op_dirty := True\<rparr>"

definition output_SetLine :: "int \<Rightarrow> string \<Rightarrow> 'v output_panel \<Rightarrow> 'v output_panel" where
  "output_SetLine i line p = (if i \<ge> 0 \<and> i < int (length (op_lines p)) then p\<lparr>op_lines := (op_lines p)[nat i := line], op_dirty := True\<rparr> else p)"

definition output_SetOverlay :: "string \<Rightarrow> 'v output_panel \<Rightarrow> 'v output_panel" where
  "output_SetOverlay text p = (if op_overlay p \<noteq> text then p\<lparr>op_overlay := text, op_dirty := True\<rparr> else p)"

definition AppendToLast :: "string \<Rightarrow> 'v output_panel \<Rightarrow> 'v output_panel" where
  "AppendToLast text p = (if length (op_lines p) > 0 then p\<lparr>op_lines := butlast (op_lines p) @ [last (op_lines p) @ text], op_dirty := True\<rparr> else p)"

definition output_Clear :: "'v output_panel \<Rightarrow> 'v output_panel" where
  "output_Clear p = p\<lparr>op_lines := [], op_dirty := True\<rparr>"

fun output_Update :: "'v viewport_lib \<Rightarrow> ('m \<Rightarrow> 'v \<Rightarrow> 'v) \<Rightarrow> 'm output_msg \<Rightarrow> 'v output_panel \<Rightarrow> 'v output_panel" where
  "output_Update vl vupd (OutputAppend line) p = output_Append line p"
| "output_Update vl vupd (OutputSetLine i line) p = output_SetLine i line p"
| "output_Update vl vupd (OutputAppendLast text) p = AppendToLast text p"
| "output_Update vl vupd OutputClear p = output_Clear p"
| "output_Update vl vupd (OutputSetOverlay text) p = output_SetOverlay text p"
| "output_Update vl vupd (OutputResize w h) p = InitViewport vl w h p"
| "output_Update vl vupd (OutputText text) p = p\<lparr>op_streamBuf := op_streamBuf p @ text\<rparr>"
| "output_Update vl vupd FlushStream p = (if length (op_streamBuf p) > 0 then (AppendToLast (op_streamBuf p) p)\<lparr>op_streamBuf := []\<rparr> else p)"
| "output_Update vl vupd (OutputOther m) p =
     (case op_vp p of Some v \<Rightarrow> if bp_focused (op_base p) then p\<lparr>op_vp := Some (vupd m v)\<rparr> else p | None \<Rightarrow> p)"

definition output_content :: "'v output_panel \<Rightarrow> string" where
  "output_content p = str_join (op_lines p) nl @ (if op_overlay p \<noteq> [] then nl @ op_overlay p else [])"

definition anchor_bottom :: "int \<Rightarrow> string \<Rightarrow> string" where
  "anchor_bottom h content =
     (let n = int (str_count content nl) + 1 in if n < h then replicate (nat (h - n)) (CHR 0x0A) @ content else content)"

definition output_View :: "'v viewport_lib \<Rightarrow> 'v output_panel \<Rightarrow> 'v output_panel \<times> string" where
  "output_View vl p =
     (case op_vp p of
        None \<Rightarrow> (p, output_content p)
      | Some v \<Rightarrow>
          let content = anchor_bottom (vl_Height vl v) (output_content p);
              v1 = (if op_dirty p \<or> content \<noteq> op_lastContent p then vl_GotoBottom vl (vl_SetContent vl content v) else v)
          in ((if op_dirty p \<or> content \<noteq> op_lastContent p then p\<lparr>op_vp := Some v1, op_lastContent := content, op_dirty := False\<rparr> else p), vl_View vl v1))"

subsection \<open>The roster of agents\<close>

record 'v agent_status =
  as_base :: base_panel
  as_AgentID :: string
  as_Role :: string
  as_State :: string
  as_TokensIn :: int
  as_TokensOut :: int
  as_Color :: string
  as_output :: "'v output_panel"

record agent_status_msg =
  am_AgentID :: string
  am_Role :: string
  am_State :: string
  am_TokensIn :: int
  am_TokensOut :: int
  am_Color :: string

definition NewAgentStatusPanel :: "string \<Rightarrow> string \<Rightarrow> string \<Rightarrow> 'v agent_status" where
  "NewAgentStatusPanel agentID role color =
     \<lparr>as_base = NewBasePanel (''agent-'' @ agentID) 1, as_AgentID = agentID, as_Role = role, as_State = ''idle'', as_TokensIn = 0, as_TokensOut = 0,
      as_Color = color, as_output = NewOutputPanel\<rparr>"

definition status_Update :: "agent_status_msg \<Rightarrow> 'v agent_status \<Rightarrow> 'v agent_status" where
  "status_Update m a =
     (if am_AgentID m = as_AgentID a
      then a\<lparr>as_State := am_State m, as_Role := am_Role m, as_TokensIn := am_TokensIn m, as_TokensOut := am_TokensOut m,
             as_Color := (if am_Color m \<noteq> [] then am_Color m else as_Color a)\<rparr>
      else a)"

definition status_Output :: "string \<Rightarrow> string \<Rightarrow> 'v agent_status \<Rightarrow> 'v agent_status" where
  "status_Output agentID text a = (if agentID = as_AgentID a then a\<lparr>as_output := output_Append text (as_output a)\<rparr> else a)"

record 'v agents_panel =
  ap_base :: base_panel
  ap_agents :: "'v agent_status list"
  ap_cursor :: int

datatype agents_msg = AgentStatusMsg agent_status_msg | AgentOutputMsg string string | AgentsKey tea_key | AgentsOther

definition NewAgentsPanel :: "'v agents_panel" where
  "NewAgentsPanel = \<lparr>ap_base = NewBasePanel ''agents'' 5, ap_agents = [], ap_cursor = 0\<rparr>"

definition AddAgent :: "string \<Rightarrow> string \<Rightarrow> string \<Rightarrow> 'v agents_panel \<Rightarrow> 'v agents_panel" where
  "AddAgent agentID role color p = p\<lparr>ap_agents := ap_agents p @ [NewAgentStatusPanel agentID role color]\<rparr>"

definition agent_index :: "string \<Rightarrow> 'v agents_panel \<Rightarrow> nat option" where
  "agent_index agentID p = index_of (\<lambda>a. as_AgentID a = agentID) (ap_agents p)"

definition RemoveAgent :: "string \<Rightarrow> 'v agents_panel \<Rightarrow> 'v agents_panel" where
  "RemoveAgent agentID p =
     (case agent_index agentID p of
        None \<Rightarrow> p
      | Some i \<Rightarrow>
          let agents = take i (ap_agents p) @ drop (i + 1) (ap_agents p)
          in p\<lparr>ap_agents := agents, ap_cursor := (if ap_cursor p \<ge> int (length agents) \<and> ap_cursor p > 0 then ap_cursor p - 1 else ap_cursor p)\<rparr>)"

definition update_first :: "agent_status_msg \<Rightarrow> 'v agents_panel \<Rightarrow> 'v agents_panel option" where
  "update_first m p = map_option (\<lambda>i. p\<lparr>ap_agents := (ap_agents p)[i := status_Update m (ap_agents p ! i)]\<rparr>) (agent_index (am_AgentID m) p)"

text \<open>The call of itself after the agent was added finds it, so it is one level deep.\<close>

definition UpdateAgent :: "agent_status_msg \<Rightarrow> 'v agents_panel \<Rightarrow> 'v agents_panel" where
  "UpdateAgent m p =
     (case update_first m p of
        Some p1 \<Rightarrow> p1
      | None \<Rightarrow> the (update_first m (AddAgent (am_AgentID m) (am_Role m) (if am_Color m \<noteq> [] then am_Color m else ''7'') p)))"

definition GetAgent :: "string \<Rightarrow> 'v agents_panel \<Rightarrow> 'v agent_status option" where
  "GetAgent agentID p = map_option (\<lambda>i. ap_agents p ! i) (agent_index agentID p)"

definition agents_Selected :: "'v agents_panel \<Rightarrow> 'v agent_status option" where
  "agents_Selected p = (if ap_cursor p \<ge> 0 \<and> ap_cursor p < int (length (ap_agents p)) then Some (ap_agents p ! nat (ap_cursor p)) else None)"

definition agents_CellSight :: "'v agents_panel \<Rightarrow> cell_sight" where
  "agents_CellSight p =
     (case agents_Selected p of
        None \<Rightarrow> \<lparr>cs_PanelID = ''agents'', cs_CellID = [], cs_CellTitle = [], cs_Kind = ''agent'', cs_Fields = []\<rparr>
      | Some a \<Rightarrow> \<lparr>cs_PanelID = ''agents'', cs_CellID = as_Role a, cs_CellTitle = [], cs_Kind = ''agent'',
          cs_Fields = [\<lparr>sg_Key = ''role'', sg_Value = as_Role a, sg_Sensitive = False\<rparr>, \<lparr>sg_Key = ''state'', sg_Value = as_State a, sg_Sensitive = False\<rparr>,
                       \<lparr>sg_Key = ''cost'', sg_Value = int_dec (as_TokensIn a) @ ''/'' @ int_dec (as_TokensOut a), sg_Sensitive = True\<rparr>]\<rparr>)"

definition agents_up :: "'v agents_panel \<Rightarrow> 'v agents_panel" where
  "agents_up p = (if ap_cursor p > 0 then p\<lparr>ap_cursor := ap_cursor p - 1\<rparr> else p)"

definition agents_down :: "'v agents_panel \<Rightarrow> 'v agents_panel" where
  "agents_down p = (if ap_cursor p < int (length (ap_agents p)) - 1 then p\<lparr>ap_cursor := ap_cursor p + 1\<rparr> else p)"

fun agents_Update :: "agents_msg \<Rightarrow> 'v agents_panel \<Rightarrow> 'v agents_panel" where
  "agents_Update (AgentStatusMsg m) p = UpdateAgent m p"
| "agents_Update (AgentOutputMsg agentID text) p = p\<lparr>ap_agents := map (status_Output agentID text) (ap_agents p)\<rparr>"
| "agents_Update (AgentsKey k) p = (if k_Type k = KeyUp then agents_up p else if k_Type k = KeyDown then agents_down p else p)"
| "agents_Update AgentsOther p = p"

definition state_style :: "string \<Rightarrow> tui_style" where
  "state_style s = (if s = ''streaming'' then OtherStyle ''green'' else if s = ''tool-wait'' then OtherStyle ''yellow'' else if s = ''error'' then ErrorStyle else DimStyle)"

definition status_View :: "styling \<Rightarrow> 'v agent_status \<Rightarrow> string" where
  "status_View sty a =
     sty (BoldColor (as_Color a)) (as_Role a) @ '' ('' @ sty (state_style (as_State a)) (as_State a) @
     sty DimStyle (if as_TokensIn a > 0 \<or> as_TokensOut a > 0 then '' '' @ int_dec (as_TokensIn a) @ ''/'' @ int_dec (as_TokensOut a) @ '' tok'' else []) @ '')''"

definition agents_View :: "styling \<Rightarrow> 'v agents_panel \<Rightarrow> string" where
  "agents_View sty p =
     (if ap_agents p = [] then sty DimStyle ''no agents''
      else str_join (map (\<lambda>(i, a). (if int i = ap_cursor p then ''> '' else ''  '') @ status_View sty a) (enumerate 0 (ap_agents p))) nl)"

interpretation ai: cursor_list "\<lambda>p. length (ap_agents p)" ap_cursor agents_up agents_down
  by unfold_locales (simp_all add: agents_up_def agents_down_def)

subsection \<open>The choice of a driver\<close>

record detected_cli =
  dc_Name :: string
  dc_Binary :: string
  dc_Version :: string
  dc_Source :: string

record onboarding_model =
  om_drivers :: "detected_cli list"
  om_cursor :: int
  om_width :: int
  om_height :: int
  om_Selected :: "detected_cli option"
  om_Quit :: bool
  om_done :: bool

datatype onboarding_msg = WindowSize int int | OnboardingKey tea_key | OnboardingOther

definition NewOnboardingModel :: "detected_cli list \<Rightarrow> onboarding_model" where
  "NewOnboardingModel drivers = \<lparr>om_drivers = drivers, om_cursor = 0, om_width = 0, om_height = 0, om_Selected = None, om_Quit = False, om_done = False\<rparr>"

definition onboarding_up :: "onboarding_model \<Rightarrow> onboarding_model" where
  "onboarding_up m = (if om_cursor m > 0 then m\<lparr>om_cursor := om_cursor m - 1\<rparr> else m)"

definition onboarding_down :: "onboarding_model \<Rightarrow> onboarding_model" where
  "onboarding_down m = (if om_cursor m < int (length (om_drivers m)) - 1 then m\<lparr>om_cursor := om_cursor m + 1\<rparr> else m)"

text \<open>The new model, and whether the program is told to quit.\<close>

fun onboarding_Update :: "onboarding_msg \<Rightarrow> onboarding_model \<Rightarrow> onboarding_model \<times> bool" where
  "onboarding_Update (WindowSize w h) m = (m\<lparr>om_width := w, om_height := h\<rparr>, False)"
| "onboarding_Update (OnboardingKey k) m =
     (if k_String k \<in> {''j'', ''down''} then (onboarding_down m, False)
      else if k_String k \<in> {''k'', ''up''} then (onboarding_up m, False)
      else if k_String k = ''enter'' then
        (if length (om_drivers m) > 0 \<and> om_cursor m < int (length (om_drivers m))
         then (m\<lparr>om_Selected := Some (om_drivers m ! nat (om_cursor m)), om_Quit := False, om_done := True\<rparr>, True) else (m, False))
      else if k_String k \<in> {''q'', ''esc'', ''ctrl+c''} then (m\<lparr>om_Selected := None, om_Quit := True, om_done := True\<rparr>, True)
      else (m, False))"
| "onboarding_Update OnboardingOther m = (m, False)"

definition padDriverName :: "string \<Rightarrow> string" where
  "padDriverName name = (if length name \<ge> 10 then name else name @ replicate (10 - length name) (CHR '' ''))"

definition driver_version :: "string \<Rightarrow> string" where
  "driver_version v = (let l = hd (str_split v (CHR 0x0A)) in if length l > 30 then take 27 l @ ''...'' else l)"

definition driver_row :: "styling \<Rightarrow> bool \<Rightarrow> detected_cli \<Rightarrow> string" where
  "driver_row sty selected d =
     (if selected then ''  '' @ glyph_dot @ '' '' else ''    '') @ sty (OtherStyle ''bold'') (padDriverName (dc_Name d)) @ ''  '' @
     (if dc_Source d = ''api-key'' then sty DimStyle ''(API key set)'' else sty DimStyle (dc_Binary d)) @
     (if dc_Version d \<noteq> [] then sty DimStyle (''  '' @ driver_version (dc_Version d)) else []) @ nl"

definition renderDriverList :: "styling \<Rightarrow> onboarding_model \<Rightarrow> string" where
  "renderDriverList sty m =
     sty (OtherStyle ''bold'') ''  Select your agent backend:'' @ nl @ nl @
     concat (map (\<lambda>(i, d). driver_row sty (int i = om_cursor m) d) (enumerate 0 (om_drivers m))) @ nl @
     sty DimStyle (''  j/k navigate '' @ [CHR 0xC2, CHR 0xB7] @ '' enter select '' @ [CHR 0xC2, CHR 0xB7] @ '' q quit'') @ nl"

definition installs :: "(string \<times> string) list" where
  "installs = [(''cursor'', ''https://cursor.com/downloads''), (''claude'', ''https://docs.anthropic.com/claude-code''), (''gemini'', ''https://cloud.google.com/gemini''),
               (''codex'', ''https://openai.com/codex''), (''ollama'', ''https://ollama.com'')]"

definition renderNoDrivers :: "styling \<Rightarrow> string" where
  "renderNoDrivers sty =
     ''  No agent CLI found on PATH.'' @ nl @ nl @ ''  Install one of:'' @ nl @ nl @
     concat (map (\<lambda>(n, u). ''    '' @ sty (OtherStyle ''bold'') (padDriverName n) @ ''  '' @ sty DimStyle u @ nl) installs) @ nl @
     ''  Or set ANTHROPIC_API_KEY for direct Claude API access.'' @ nl @ nl @ sty DimStyle ''  q quit'' @ nl"

definition onboarding_View :: "styling \<Rightarrow> string \<Rightarrow> onboarding_model \<Rightarrow> string" where
  "onboarding_View sty logo m =
     (if om_done m then []
      else sty (OtherStyle ''logo'') logo @ nl @ nl @ (if length (om_drivers m) = 0 then renderNoDrivers sty else renderDriverList sty m))"

interpretation oi: cursor_list "\<lambda>m. length (om_drivers m)" om_cursor onboarding_up onboarding_down
  by unfold_locales (simp_all add: onboarding_up_def onboarding_down_def)

subsection \<open>Dialogs\<close>

record dialog_panel =
  dp_base :: base_panel
  dp_title :: string
  dp_message :: string
  dp_actions :: "(string \<times> string) list"
  dp_actionIdx :: nat

definition NewDialogPanel :: "string \<Rightarrow> string \<Rightarrow> (string \<times> string) list \<Rightarrow> dialog_panel" where
  "NewDialogPanel title message actions = \<lparr>dp_base = NewBasePanel ''dialog'' 0, dp_title = title, dp_message = message, dp_actions = actions, dp_actionIdx = 0\<rparr>"

text \<open>The index is read without a check.\<close>

definition SelectedAction :: "dialog_panel \<Rightarrow> string option" where
  "SelectedAction p =
     (if length (dp_actions p) = 0 then Some []
      else if dp_actionIdx p < length (dp_actions p) then Some (fst (dp_actions p ! dp_actionIdx p)) else None)"

text \<open>The command a key gives is run later, on the panel as it is then.\<close>

datatype dialog_cmd = DialogConfirm | DialogCancel

definition dialog_Update :: "tea_key \<Rightarrow> dialog_panel \<Rightarrow> dialog_panel \<times> dialog_cmd option" where
  "dialog_Update k p =
     (if \<not> bp_focused (dp_base p) then (p, None)
      else case k_Type k of
             KeyTab \<Rightarrow> ((if length (dp_actions p) > 0 then p\<lparr>dp_actionIdx := (dp_actionIdx p + 1) mod length (dp_actions p)\<rparr> else p), None)
           | KeyEnter \<Rightarrow> (p, Some DialogConfirm)
           | KeyEsc \<Rightarrow> (p, Some DialogCancel)
           | _ \<Rightarrow> (p, None))"

fun dialog_result :: "dialog_cmd \<Rightarrow> dialog_panel \<Rightarrow> string option" where
  "dialog_result DialogConfirm p = SelectedAction p"
| "dialog_result DialogCancel p = Some ''cancel''"

text \<open>Centred and bordered boxes are of another module.\<close>

definition dialog_View :: "styling \<Rightarrow> (int \<Rightarrow> string \<Rightarrow> string) \<Rightarrow> (int \<Rightarrow> string \<Rightarrow> string) \<Rightarrow> int \<Rightarrow> dialog_panel \<Rightarrow> string" where
  "dialog_View sty center border width p =
     (let innerWidth = (if width - 2 < 10 then 10 else width - 2);
          buttons = map (\<lambda>(i, a). sty (OtherStyle (if i = dp_actionIdx p then ''selected'' else ''faint'')) (snd a)) (enumerate 0 (dp_actions p))
      in border innerWidth (str_join [sty (OtherStyle ''bold'') (dp_title p), [], center innerWidth (dp_message p), [], center innerWidth (str_join buttons ''  '')] nl))"

lemma dialog_index: "dp_actionIdx p < length (dp_actions p) \<or> dp_actionIdx p = 0 \<Longrightarrow>
    dp_actionIdx (fst (dialog_Update k p)) < length (dp_actions p) \<or> dp_actionIdx (fst (dialog_Update k p)) = 0"
  by (auto simp: dialog_Update_def split: key_type.split)

end
