(* ===== verification/Tui_Charts.thy ===== *)
theory Tui_Charts
  imports Tui_Widgets Tui_Layout
begin

text \<open>
  What the terminal draws: the elements and components (\<^verbatim>\<open>tui/elements/\<close>, \<^verbatim>\<open>tui/components.go\<close>), the panels an agent asks for by the render
  tool (\<^verbatim>\<open>tui/render_panel.go\<close>, \<^verbatim>\<open>tui/diff.go\<close>), the status line and the gauges. Styles and the decoders of JSON are arguments. Where the
  code repeats a string a negative number of times it panics, which is \<open>None\<close>.
\<close>

subsection \<open>Elements\<close>

definition u_bar :: string where "u_bar = [CHR 0xE2, CHR 0x94, CHR 0x82]"
definition u_rule :: string where "u_rule = [CHR 0xE2, CHR 0x94, CHR 0x80]"
definition u_full :: string where "u_full = [CHR 0xE2, CHR 0x96, CHR 0x88]"
definition u_light :: string where "u_light = [CHR 0xE2, CHR 0x96, CHR 0x91]"
definition u_hex :: string where "u_hex = [CHR 0xE2, CHR 0xAC, CHR 0xA2]"
definition u_hexlight :: string where "u_hexlight = [CHR 0xE2, CHR 0xAC, CHR 0xA1]"
definition u_ring :: string where "u_ring = [CHR 0xE2, CHR 0x97, CHR 0x8B]"
definition u_dash :: string where "u_dash = [CHR 0xE2, CHR 0x80, CHR 0x94]"
definition u_mid :: string where "u_mid = [CHR 0xC2, CHR 0xB7]"

text \<open>The negation of the least integer is itself, so that one alone recurses for ever; it is no count of anything.\<close>

definition compact_abs :: "int \<Rightarrow> string" where
  "compact_abs n =
     (if n \<ge> 1000000 then fmt_fixed 1 (of_int n / 1000000) @ ''M''
      else if n \<ge> 1000 then fmt_fixed 1 (of_int n / 1000) @ ''k'' else int_dec n)"

definition CompactNumber :: "int \<Rightarrow> string" where
  "CompactNumber n = (if n < 0 then ''-'' @ compact_abs (- n) else compact_abs n)"

definition Badge :: "string \<Rightarrow> int \<Rightarrow> string" where "Badge label value = CompactNumber value @ '' '' @ label"

definition Glyph :: "styling \<Rightarrow> string \<Rightarrow> string" where
  "Glyph sty state =
     (if state = ''done'' then sty ToolSuccessStyle u_hex else if state = ''active'' then sty ToolNameStyle u_hexlight
      else if state = ''error'' then sty ErrorStyle glyph_dot else sty DimStyle u_ring)"

definition Hint :: "styling \<Rightarrow> string list \<Rightarrow> string" where
  "Hint sty bindings = (if length bindings = 0 then [] else sty DimStyle (str_join bindings ('' '' @ u_mid @ '' '')))"

definition times :: "string \<Rightarrow> nat \<Rightarrow> string" where "times s n = concat (replicate n s)"

definition HorizontalRule :: "styling \<Rightarrow> int \<Rightarrow> string" where
  "HorizontalRule sty width = (if width \<le> 0 then [] else sty DimStyle (times u_rule (nat width)))"

subsection \<open>Components\<close>

definition SectionHeader :: "styling \<Rightarrow> string \<Rightarrow> int \<Rightarrow> string" where
  "SectionHeader sty title width =
     (let w = (if width < 6 then 6 else width); label = '' '' @ title @ '' '';
          remaining = w - int (length label) - 2; r = (if remaining < 2 then 2 else remaining); right = (if r - 1 < 0 then 0 else r - 1)
      in sty DimStyle ([CHR 0xE2, CHR 0x94, CHR 0x8C] @ u_rule @ label @ times u_rule (nat right) @ [CHR 0xE2, CHR 0x94, CHR 0x90]))"

definition StatusLine :: "styling \<Rightarrow> string \<Rightarrow> rat \<Rightarrow> int \<Rightarrow> string" where
  "StatusLine sty model contextPct filesEdited =
     sty DimStyle (str_join ([model] @ (if contextPct > 0 then [fmt_fixed 1 contextPct @ ''%''] else []) @
       (if filesEdited > 0 then [int_dec filesEdited @ '' '' @ (if filesEdited \<noteq> 1 then ''files'' else ''file'') @ '' edited''] else [])) ('' '' @ u_mid @ '' ''))"

definition ToolStatus :: "styling \<Rightarrow> string \<Rightarrow> string \<Rightarrow> int \<Rightarrow> string" where
  "ToolStatus sty name state tokens = Glyph sty state @ '' '' @ name @ (if tokens > 0 then '' ('' @ Badge ''tokens'' tokens @ '')'' else [])"

definition LabeledBorder :: "styling \<Rightarrow> string \<Rightarrow> string \<Rightarrow> int \<Rightarrow> string" where
  "LabeledBorder sty title content width =
     (let w = (if width < 10 then 10 else width); inner = w - 4; label = '' '' @ title @ '' '';
          top0 = inner - int (length label); top = (if top0 < 2 then 2 else top0); left = top div 2
      in sty DimStyle ([CHR 0xE2, CHR 0x95, CHR 0xAD] @ times u_rule (nat left) @ label @ times u_rule (nat (top - left)) @ [CHR 0xE2, CHR 0x95, CHR 0xAE]) @ nl @
         concat (map (\<lambda>l. if l = [] then [] else sty DimStyle (u_bar @ '' '') @ l @ nl) (str_split content (CHR 0x0A))) @
         sty DimStyle ([CHR 0xE2, CHR 0x95, CHR 0xB0] @ times u_rule (nat inner) @ [CHR 0xE2, CHR 0x95, CHR 0xAF]))"

subsection \<open>Tables\<close>

text \<open>The cells are as the table prints them.\<close>

record table_data =
  td_Columns :: "string list"
  td_Rows :: "string list list"

definition pad :: "string \<Rightarrow> nat \<Rightarrow> string" where "pad s width = (if length s \<ge> width then s else s @ replicate (width - length s) (CHR '' ''))"

fun widen :: "nat list \<Rightarrow> string list \<Rightarrow> nat list" where
  "widen (w # ws) (c # cs) = (if length c > w then length c else w) # widen ws cs"
| "widen ws cs = ws"

definition col_widths :: "table_data \<Rightarrow> nat list" where
  "col_widths t = fold (\<lambda>row ws. widen ws row) (td_Rows t) (map length (td_Columns t))"

definition table_row :: "styling \<Rightarrow> (string \<Rightarrow> string) \<Rightarrow> nat list \<Rightarrow> string list \<Rightarrow> string" where
  "table_row sty cell ws row = str_join (map (\<lambda>(c, w). cell (pad c w)) (zip row ws)) (sty DimStyle ('' '' @ u_bar @ '' ''))"

definition renderTable :: "styling \<Rightarrow> (string \<Rightarrow> table_data option) \<Rightarrow> string \<Rightarrow> string" where
  "renderTable sty decode data =
     (case decode data of
        None \<Rightarrow> sty DimStyle ''[invalid table data]''
      | Some t \<Rightarrow>
          if length (td_Columns t) = 0 then sty DimStyle ''[empty table]''
          else let ws = col_widths t
            in table_row sty (sty ToolNameStyle) ws (td_Columns t) @ nl @
               str_join (map (\<lambda>w. sty DimStyle (times u_rule w)) ws) (sty DimStyle (u_rule @ [CHR 0xE2, CHR 0x94, CHR 0xBC] @ u_rule)) @ nl @
               concat (map (\<lambda>row. table_row sty (\<lambda>c. c) ws row @ nl) (td_Rows t)))"

subsection \<open>Trees\<close>

datatype tree_node = TreeNode (tn_Label: string) (tn_Children: "tree_node list")

definition branch :: "bool \<Rightarrow> string" where
  "branch isLast = (if isLast then [CHR 0xE2, CHR 0x94, CHR 0x94] else [CHR 0xE2, CHR 0x94, CHR 0x9C]) @ u_rule @ u_rule @ '' ''"

fun tree_line :: "styling \<Rightarrow> string \<Rightarrow> bool \<Rightarrow> tree_node \<Rightarrow> string" and tree_lines :: "styling \<Rightarrow> string \<Rightarrow> tree_node list \<Rightarrow> string" where
  "tree_line sty pre isLast (TreeNode label children) =
     sty DimStyle (pre @ branch isLast) @ label @ nl @ tree_lines sty (pre @ (if isLast then ''    '' else u_bar @ ''   '')) children"
| "tree_lines sty pre [] = []"
| "tree_lines sty pre (c # cs) = tree_line sty pre (cs = []) c @ tree_lines sty pre cs"

definition renderTree :: "styling \<Rightarrow> (string \<Rightarrow> tree_node option) \<Rightarrow> string \<Rightarrow> string" where
  "renderTree sty decode data =
     (case decode data of
        None \<Rightarrow> sty DimStyle ''[invalid tree data]''
      | Some t \<Rightarrow> sty ToolNameStyle (tn_Label t) @ nl @ tree_lines sty [] (tn_Children t))"

subsection \<open>Progress\<close>

record progress_data =
  pg_Done :: int
  pg_Total :: int
  pg_Items :: "string list"

definition round_away :: "rat \<Rightarrow> int" where "round_away x = (if x < 0 then - \<lfloor>- x + 1 / 2\<rfloor> else \<lfloor>x + 1 / 2\<rfloor>)"

definition two_part_bar :: "styling \<Rightarrow> tui_style \<Rightarrow> int \<Rightarrow> int \<Rightarrow> string option" where
  "two_part_bar sty st filled left =
     (case str_repeat u_full filled of None \<Rightarrow> None | Some f \<Rightarrow> map_option (\<lambda>e. sty st f @ sty DimStyle e) (str_repeat u_light left))"

definition progress_filled :: "int \<Rightarrow> int \<Rightarrow> int \<Rightarrow> int" where
  "progress_filled barWidth dn tot =
     (let f = round_away (of_int barWidth * of_int dn / of_int tot) in if f > barWidth then barWidth else f)"

definition check_line :: "styling \<Rightarrow> int \<Rightarrow> nat \<times> string \<Rightarrow> string" where
  "check_line sty dn = (\<lambda>(i, item).
     (if int i < dn then sty ToolSuccessStyle (''  '' @ [CHR 0xE2, CHR 0x98, CHR 0x91] @ '' '') else sty DimStyle (''  '' @ [CHR 0xE2, CHR 0x98, CHR 0x90] @ '' '')) @ item @ nl)"

definition progress_total :: "progress_data \<Rightarrow> int" where "progress_total pd = (if pg_Total pd \<le> 0 then 1 else pg_Total pd)"

definition renderProgress :: "styling \<Rightarrow> (string \<Rightarrow> progress_data option) \<Rightarrow> string \<Rightarrow> int \<Rightarrow> string option" where
  "renderProgress sty decode data width =
     (case decode data of
        None \<Rightarrow> Some (sty DimStyle ''[invalid progress data]'')
      | Some pd \<Rightarrow>
          let tot = progress_total pd; pct = of_int (pg_Done pd) / of_int tot * 100;
              barWidth = (if width - 12 < 10 then 10 else width - 12); filled = progress_filled barWidth (pg_Done pd) tot
          in map_option (\<lambda>bar. bar @ '' '' @ fill_left 3 (CHR '' '') (fmt_fixed 0 pct) @ ''%'' @
               sty DimStyle ('' ('' @ int_dec (pg_Done pd) @ ''/'' @ int_dec tot @ '')'') @ nl @
               concat (map (check_line sty (pg_Done pd)) (enumerate 0 (pg_Items pd))))
             (two_part_bar sty ToolSuccessStyle filled (barWidth - filled)))"

subsection \<open>Charts\<close>

record chart_data =
  cd_Kind :: string
  cd_Values :: "rat list"
  cd_Labels :: "string list"

definition sparkBlocks :: "string list" where
  "sparkBlocks = map (\<lambda>i. [CHR 0xE2, CHR 0x96, char_of (0x81 + i)]) [0..<8::nat]"

definition spark_index :: "rat \<Rightarrow> rat \<Rightarrow> rat \<Rightarrow> int" where
  "spark_index lo rng v = (let i = int_trunc ((v - lo) / rng * 7) in if i > 7 then 7 else i)"

definition spark_range :: "rat list \<Rightarrow> rat \<times> rat" where
  "spark_range vs =
     (let lo = fold (\<lambda>v a. if v < a then v else a) vs (hd vs); hi = fold (\<lambda>v a. if v > a then v else a) vs (hd vs); r = hi - lo
      in (lo, if r = 0 then 1 else r))"

definition renderSparkline :: "styling \<Rightarrow> chart_data \<Rightarrow> string" where
  "renderSparkline sty cd =
     (case spark_range (cd_Values cd) of (lo, r) \<Rightarrow> concat (map (\<lambda>v. sparkBlocks ! nat (spark_index lo r v)) (cd_Values cd))) @
     (if length (cd_Labels cd) > 0 then nl @ sty DimStyle (str_join (cd_Labels cd) '' '') else [])"

definition bar_label :: "chart_data \<Rightarrow> nat \<Rightarrow> string" where
  "bar_label cd i = (if i < length (cd_Labels cd) then cd_Labels cd ! i else nat_dec i)"

fun bar_lines :: "styling \<Rightarrow> nat \<Rightarrow> int \<Rightarrow> rat \<Rightarrow> chart_data \<Rightarrow> (nat \<times> rat) list \<Rightarrow> string option" where
  "bar_lines sty labelWidth barMax hi cd [] = Some []"
| "bar_lines sty labelWidth barMax hi cd ((i, v) # vs) =
     (case str_repeat u_full (int_trunc (v / hi * of_int barMax)) of
        None \<Rightarrow> None
      | Some b \<Rightarrow> map_option (\<lambda>more. pad (bar_label cd i) labelWidth @ '' '' @ sty ToolSuccessStyle b @ '' '' @ fmt_fixed 1 v @ nl @ more)
                    (bar_lines sty labelWidth barMax hi cd vs))"

definition bar_max :: "int \<Rightarrow> int" where "bar_max room = (if room < 5 then 5 else room)"

definition renderBarChart :: "styling \<Rightarrow> chart_data \<Rightarrow> int \<Rightarrow> string option" where
  "renderBarChart sty cd width =
     (let hi0 = fold (\<lambda>v a. if v > a then v else a) (cd_Values cd) (hd (cd_Values cd)); hi = (if hi0 = 0 then 1 else hi0);
          labelWidth = fold (\<lambda>i w. if length (bar_label cd i) > w then length (bar_label cd i) else w) [0..<length (cd_Values cd)] 0;
          barMax = bar_max (width - int labelWidth - 10)
      in bar_lines sty labelWidth barMax hi cd (enumerate 0 (cd_Values cd)))"

definition renderChart :: "styling \<Rightarrow> (string \<Rightarrow> chart_data option) \<Rightarrow> string \<Rightarrow> int \<Rightarrow> string option" where
  "renderChart sty decode data width =
     (case decode data of
        None \<Rightarrow> Some (sty DimStyle ''[invalid chart data]'')
      | Some cd \<Rightarrow> if length (cd_Values cd) = 0 then Some (sty DimStyle ''[no data]'')
                   else if cd_Kind cd = ''bar'' then renderBarChart sty cd width else Some (renderSparkline sty cd))"

subsection \<open>Diffs\<close>

definition diff_line :: "styling \<Rightarrow> string \<Rightarrow> string" where
  "diff_line sty l =
     (if has_prefix l ''+++'' \<or> has_prefix l ''---'' then sty (OtherStyle ''diffMeta'') l
      else if has_prefix l ''@@'' then sty (OtherStyle ''diffHeader'') l
      else if has_prefix l ''+'' then sty (OtherStyle ''diffAdd'') l
      else if has_prefix l ''-'' then sty (OtherStyle ''diffDel'') l
      else if has_prefix l ''diff '' \<or> has_prefix l ''index '' then sty (OtherStyle ''diffMeta'') l else l)"

definition RenderDiff :: "styling \<Rightarrow> string \<Rightarrow> string" where
  "RenderDiff sty diff = trim_right_nl (concat (map (\<lambda>l. diff_line sty l @ nl) (str_split diff (CHR 0x0A))))"

definition word_at :: "string list \<Rightarrow> nat \<Rightarrow> string" where "word_at ws i = (if i < length ws then ws ! i else [])"

definition word_diff :: "styling \<Rightarrow> string \<Rightarrow> string \<Rightarrow> string" where
  "word_diff sty oldW newW =
     (if oldW = newW then newW else if oldW = [] then sty (OtherStyle ''diffAdd'') newW else if newW = [] then sty (OtherStyle ''diffDel'') oldW
      else sty (OtherStyle ''diffDel'') oldW @ '' '' @ sty (OtherStyle ''diffAdd'') newW)"

definition RenderWordDiff :: "styling \<Rightarrow> string \<Rightarrow> string \<Rightarrow> string" where
  "RenderWordDiff sty oldLine newLine =
     (let os = str_fields oldLine; ns = str_fields newLine
      in str_join (map (\<lambda>i. word_diff sty (word_at os i) (word_at ns i)) [0..<max (length os) (length ns)]) '' '')"

definition renderDiffPanel :: "styling \<Rightarrow> (string \<Rightarrow> (string \<times> string list) option) \<Rightarrow> string \<Rightarrow> string" where
  "renderDiffPanel sty decode data =
     (case decode data of
        None \<Rightarrow> sty DimStyle ''[invalid diff data]''
      | Some (file, hunks) \<Rightarrow> (if file \<noteq> [] then sty ToolNameStyle file @ nl else []) @ concat (map (\<lambda>h. RenderDiff sty h @ nl) hunks))"

subsection \<open>Diagrams, timelines and code\<close>

record diagram_edge =
  de_From :: string
  de_To :: string
  de_Label :: string

definition diagram_arrow :: "styling \<Rightarrow> (string \<times> string) list \<Rightarrow> diagram_edge \<Rightarrow> string" where
  "diagram_arrow sty nodes e =
     (let t = (case map_of (rev nodes) (de_To e) of Some l \<Rightarrow> l | None \<Rightarrow> []); target = (if t = [] then de_To e else t)
      in sty DimStyle (''  '' @ u_rule @ u_rule @ [CHR 0xE2, CHR 0x86, CHR 0x92] @ '' '' @ target @ (if de_Label e \<noteq> [] then '' ('' @ de_Label e @ '')'' else [])) @ nl)"

definition diagram_box :: "string \<Rightarrow> string" where
  "diagram_box label =
     [CHR 0xE2, CHR 0x94, CHR 0x8C] @ times u_rule (length label + 2) @ [CHR 0xE2, CHR 0x94, CHR 0x90] @ nl @ u_bar @ '' '' @ label @ '' '' @ u_bar @ nl @
     [CHR 0xE2, CHR 0x94, CHR 0x94] @ times u_rule (length label + 2) @ [CHR 0xE2, CHR 0x94, CHR 0x98]"

definition renderDiagram :: "styling \<Rightarrow> (string \<Rightarrow> ((string \<times> string) list \<times> diagram_edge list) option) \<Rightarrow> string \<Rightarrow> string" where
  "renderDiagram sty decode data =
     (case decode data of
        None \<Rightarrow> sty DimStyle ''[invalid diagram data]''
      | Some (nodes, edges) \<Rightarrow>
          if length nodes = 0 then sty DimStyle ''[empty diagram]''
          else concat (map (\<lambda>(i, label). diagram_box label @ nl @ concat (map (diagram_arrow sty nodes) (filter (\<lambda>e. de_From e = i) edges))) nodes))"

record timeline_event =
  te_Time :: string
  te_Label :: string
  te_State :: string

definition timeline_marker :: "styling \<Rightarrow> string \<Rightarrow> string" where
  "timeline_marker sty state =
     (if state = ''done'' then sty ToolSuccessStyle glyph_dot else if state = ''active'' then sty ToolNameStyle glyph_dot
      else if state = ''error'' then sty ErrorStyle glyph_dot else sty DimStyle u_ring)"

definition renderTimeline :: "styling \<Rightarrow> (string \<Rightarrow> timeline_event list option) \<Rightarrow> string \<Rightarrow> string" where
  "renderTimeline sty decode data =
     (case decode data of
        None \<Rightarrow> sty DimStyle ''[invalid timeline data]''
      | Some events \<Rightarrow>
          if length events = 0 then sty DimStyle ''[no events]''
          else concat (map (\<lambda>e. ''  '' @ timeline_marker sty (te_State e) @ '' '' @ te_Label e @
                 (if te_Time e \<noteq> [] then sty DimStyle ('' '' @ u_dash @ '' '' @ te_Time e) else []) @ nl) events))"

definition renderCode :: "styling \<Rightarrow> (string \<Rightarrow> string \<Rightarrow> string option) \<Rightarrow> (string \<Rightarrow> (string \<times> string) option) \<Rightarrow> string \<Rightarrow> string" where
  "renderCode sty highlight decode data =
     (case decode data of
        None \<Rightarrow> sty DimStyle ''[invalid code data]''
      | Some (language, source) \<Rightarrow>
          if source = [] then sty DimStyle ''[empty source]''
          else (case highlight source (if language = [] then ''text'' else language) of
                  Some h \<Rightarrow> if h \<noteq> [] then h else concat (map (\<lambda>(i, l). sty DimStyle (fill_left 3 (CHR '' '') (nat_dec (i + 1)) @ '' '') @ l @ nl) (enumerate 0 (str_split source (CHR 0x0A))))
                | None \<Rightarrow> concat (map (\<lambda>(i, l). sty DimStyle (fill_left 3 (CHR '' '') (nat_dec (i + 1)) @ '' '') @ l @ nl) (enumerate 0 (str_split source (CHR 0x0A))))))"

subsection \<open>The panel an agent asks for\<close>

text \<open>The decoders of the eight kinds of data.\<close>

record render_codec =
  rc_table :: "string \<Rightarrow> table_data option"
  rc_tree :: "string \<Rightarrow> tree_node option"
  rc_progress :: "string \<Rightarrow> progress_data option"
  rc_chart :: "string \<Rightarrow> chart_data option"
  rc_diff :: "string \<Rightarrow> (string \<times> string list) option"
  rc_diagram :: "string \<Rightarrow> ((string \<times> string) list \<times> diagram_edge list) option"
  rc_timeline :: "string \<Rightarrow> timeline_event list option"
  rc_code :: "string \<Rightarrow> (string \<times> string) option"

record render_msg =
  rm_Type :: string
  rm_Title :: string
  rm_Data :: string

definition render_content :: "styling \<Rightarrow> (string \<Rightarrow> string \<Rightarrow> string option) \<Rightarrow> render_codec \<Rightarrow> render_msg \<Rightarrow> int \<Rightarrow> string option" where
  "render_content sty highlight c m inner =
     (if rm_Type m = ''table'' then Some (renderTable sty (rc_table c) (rm_Data m))
      else if rm_Type m = ''tree'' then Some (renderTree sty (rc_tree c) (rm_Data m))
      else if rm_Type m = ''progress'' then renderProgress sty (rc_progress c) (rm_Data m) inner
      else if rm_Type m = ''chart'' then renderChart sty (rc_chart c) (rm_Data m) inner
      else if rm_Type m = ''diff'' then Some (renderDiffPanel sty (rc_diff c) (rm_Data m))
      else if rm_Type m = ''diagram'' then Some (renderDiagram sty (rc_diagram c) (rm_Data m))
      else if rm_Type m = ''timeline'' then Some (renderTimeline sty (rc_timeline c) (rm_Data m))
      else if rm_Type m = ''code'' then Some (renderCode sty highlight (rc_code c) (rm_Data m))
      else Some (sty DimStyle (''[unknown render type: '' @ rm_Type m @ '']'')))"

definition RenderPanel :: "styling \<Rightarrow> (string \<Rightarrow> string \<Rightarrow> string option) \<Rightarrow> render_codec \<Rightarrow> render_msg \<Rightarrow> int \<Rightarrow> string option" where
  "RenderPanel sty highlight c m width =
     (let w = (if width < 20 then 20 else width)
      in map_option (\<lambda>content. LabeledBorder sty (rm_Title m) content w) (render_content sty highlight c m (w - 4)))"

subsection \<open>Facts\<close>

lemma fold_high: "(a::rat) \<le> fold (\<lambda>v a. if v > a then v else a) vs a \<and> (\<forall>v \<in> set vs. v \<le> fold (\<lambda>v a. if v > a then v else a) vs a)"
proof (induction vs arbitrary: a)
  case (Cons w vs)
  have "(if w > a then w else a) \<le> fold (\<lambda>v a. if v > a then v else a) vs (if w > a then w else a)" using Cons.IH by blast
  moreover have "\<forall>v \<in> set vs. v \<le> fold (\<lambda>v a. if v > a then v else a) vs (if w > a then w else a)" using Cons.IH by blast
  ultimately show ?case by (auto split: if_splits)
qed simp

lemma fold_low: "fold (\<lambda>v a. if v < a then v else a) vs a \<le> (a::rat) \<and> (\<forall>v \<in> set vs. fold (\<lambda>v a. if v < a then v else a) vs a \<le> v)"
proof (induction vs arbitrary: a)
  case (Cons w vs)
  have "fold (\<lambda>v a. if v < a then v else a) vs (if w < a then w else a) \<le> (if w < a then w else a)" using Cons.IH by blast
  moreover have "\<forall>v \<in> set vs. fold (\<lambda>v a. if v < a then v else a) vs (if w < a then w else a) \<le> v" using Cons.IH by blast
  ultimately show ?case by (auto split: if_splits)
qed simp

text \<open>Every value of a sparkline has one of the eight blocks.\<close>

lemma spark_index_range:
  assumes "v \<in> set vs"
  shows "0 \<le> spark_index (fst (spark_range vs)) (snd (spark_range vs)) v \<and> spark_index (fst (spark_range vs)) (snd (spark_range vs)) v \<le> 7"
proof -
  let ?lo = "fold (\<lambda>v a. if v < a then v else a) vs (hd vs)" and ?hi = "fold (\<lambda>v a. if v > a then v else a) vs (hd vs)"
  have lo: "?lo \<le> v" and h: "?lo \<le> hd vs" "hd vs \<le> ?hi" using fold_low [of vs "hd vs"] fold_high [of "hd vs" vs] assms by auto
  define r where "r = (if ?hi - ?lo = 0 then 1 else ?hi - ?lo)"
  have r: "0 < r" using h by (auto simp: r_def)
  have e: "spark_range vs = (?lo, r)" by (simp add: spark_range_def Let_def r_def)
  have "0 \<le> (v - ?lo) / r * 7" using lo r by simp
  then show ?thesis unfolding e spark_index_def Let_def fst_conv snd_conv using int_trunc_bounds by auto
qed

lemma bar_lines_some: "\<forall>(i, v) \<in> set vs. 0 \<le> int_trunc (v / hi * of_int barMax) \<Longrightarrow> bar_lines sty w barMax hi cd vs \<noteq> None"
proof (induction vs)
  case (Cons x vs)
  then show ?case by (cases x) (auto split: option.split)
qed simp

lemma bar_chart_some:
  assumes "\<forall>v \<in> set (cd_Values cd). 0 \<le> v"
  shows "renderBarChart sty cd width \<noteq> None"
proof -
  let ?vs = "cd_Values cd"
  define hi0 where "hi0 = fold (\<lambda>v a. if v > a then v else a) ?vs (hd ?vs)"
  define hi where "hi = (if hi0 = 0 then 1 else hi0)"
  have "\<forall>v \<in> set ?vs. v \<le> hi0" using fold_high [of "hd ?vs" ?vs] by (auto simp: hi0_def)
  then have hi: "\<forall>v \<in> set ?vs. 0 \<le> v / hi" using assms by (force simp: hi_def)
  have b: "0 \<le> int_trunc (v / hi * of_int (bar_max room))" if "v \<in> set ?vs" for v room
  proof -
    have "0 \<le> v / hi * of_int (bar_max room)" using hi that by (intro mult_nonneg_nonneg) (auto simp: bar_max_def)
    then show ?thesis using int_trunc_bounds by blast
  qed
  then show ?thesis unfolding renderBarChart_def Let_def hi0_def [symmetric] hi_def [symmetric]
    by (intro bar_lines_some) (auto simp: enumerate_eq_zip simp del: times_divide_eq_left dest: set_zip_rightD intro: b)
qed

text \<open>A bar of a progress that is not negative is whole.\<close>

lemma round_away_nonneg: "0 \<le> x \<Longrightarrow> 0 \<le> round_away x" by (simp add: round_away_def)

lemma progress_filled_range: "0 \<le> dn \<Longrightarrow> 0 < t \<Longrightarrow> 0 \<le> b \<Longrightarrow> 0 \<le> progress_filled b dn t \<and> progress_filled b dn t \<le> b"
  using round_away_nonneg [of "of_int b * of_int dn / of_int t"] by (auto simp: progress_filled_def Let_def)

lemma progress_filled_full: "0 \<le> b \<Longrightarrow> 0 < t \<Longrightarrow> t \<le> dn \<Longrightarrow> progress_filled b dn t = b"
proof -
  assume a: "0 \<le> b" "0 < t" "t \<le> dn"
  have "of_int b * of_int t \<le> (of_int b :: rat) * of_int dn" using a by (intro mult_left_mono) auto
  then have "(of_int b :: rat) \<le> of_int b * of_int dn / of_int t" using a(2) by (simp add: pos_le_divide_eq)
  then have "b \<le> round_away (of_int b * of_int dn / of_int t)" using a(1) unfolding round_away_def by (auto simp: le_floor_iff)
  then show ?thesis by (simp add: progress_filled_def Let_def)
qed

lemma bar_some: "0 \<le> f \<Longrightarrow> f \<le> b \<Longrightarrow> two_part_bar sty st f (b - f) \<noteq> None"
  by (simp add: two_part_bar_def str_repeat_def)

lemma progress_some:
  assumes "\<And>pd. decode data = Some pd \<Longrightarrow> 0 \<le> pg_Done pd"
  shows "renderProgress sty decode data width \<noteq> None"
proof (cases "decode data")
  case (Some pd)
  define b where "b = (if width - 12 < 10 then 10 else width - 12)"
  have "0 \<le> progress_filled b (pg_Done pd) (progress_total pd) \<and> progress_filled b (pg_Done pd) (progress_total pd) \<le> b"
    using assms [OF Some] by (intro progress_filled_range) (auto simp: progress_total_def b_def)
  then show ?thesis using bar_some unfolding renderProgress_def Some Let_def b_def [symmetric] by auto
qed (simp add: renderProgress_def)

lemma render_some:
  assumes "\<And>pd. rc_progress c (rm_Data m) = Some pd \<Longrightarrow> 0 \<le> pg_Done pd"
    and "\<And>cd v. rc_chart c (rm_Data m) = Some cd \<Longrightarrow> v \<in> set (cd_Values cd) \<Longrightarrow> 0 \<le> v"
  shows "RenderPanel sty highlight c m width \<noteq> None"
proof -
  have p: "renderProgress sty (rc_progress c) (rm_Data m) w \<noteq> None" for w using assms(1) by (rule progress_some)
  have ch: "renderChart sty (rc_chart c) (rm_Data m) w \<noteq> None" for w
    using assms(2) bar_chart_some unfolding renderChart_def by (auto split: option.split)
  show ?thesis using p ch by (auto simp: RenderPanel_def render_content_def Let_def)
qed

text \<open>An agent that asks for a progress below zero, or a bar below zero beside one above, crashes the terminal.\<close>

lemma negative_progress_panics:
  "rc_progress c d = Some \<lparr>pg_Done = - 1, pg_Total = 2, pg_Items = []\<rparr> \<Longrightarrow> RenderPanel sty highlight c \<lparr>rm_Type = ''progress'', rm_Title = t, rm_Data = d\<rparr> 80 = None"
proof -
  have "\<lfloor>65 / 2 :: rat\<rfloor> = 32" by (simp add: floor_eq_iff)
  then show "rc_progress c d = Some \<lparr>pg_Done = - 1, pg_Total = 2, pg_Items = []\<rparr> \<Longrightarrow> RenderPanel sty highlight c \<lparr>rm_Type = ''progress'', rm_Title = t, rm_Data = d\<rparr> 80 = None"
    by (simp add: RenderPanel_def render_content_def renderProgress_def progress_total_def Let_def two_part_bar_def progress_filled_def round_away_def str_repeat_def)
qed

lemma negative_bar_panics:
  "rc_chart c d = Some \<lparr>cd_Kind = ''bar'', cd_Values = [- 1, 1], cd_Labels = [''a'', ''b'']\<rparr> \<Longrightarrow>
   RenderPanel sty highlight c \<lparr>rm_Type = ''chart'', rm_Title = t, rm_Data = d\<rparr> 80 = None"
  by (simp add: RenderPanel_def render_content_def renderChart_def renderBarChart_def Let_def bar_label_def bar_max_def enumerate_eq_zip upt_rec int_trunc_def str_repeat_def)

end
