(* ===== verification/Tui_Gauges.thy ===== *)
theory Tui_Gauges
  imports Tui_Charts Telemetry_Trace
begin

text \<open>
  The panels that show the state of the session (\<^verbatim>\<open>tui/widgets/\<close>): the dashboard with the status line (\<^verbatim>\<open>tui/statusline.go\<close>), the gauges, the
  turns with their tools, the debugger over the ring of traces, the tour of circuits and the notes of a workstation.
\<close>

subsection \<open>The status line\<close>

datatype health_status = StatusGreen | StatusYellow | StatusRed | StatusOffline

record tui_health =
  hr_Component :: string
  hr_Status :: health_status
  hr_Message :: string

definition health_mark :: "styling \<Rightarrow> tui_health \<Rightarrow> string" where
  "health_mark sty r =
     (case hr_Status r of
        StatusGreen \<Rightarrow> sty (OtherStyle ''healthGreen'') ([CHR 0xE2, CHR 0x9C, CHR 0x93] @ hr_Component r)
      | StatusYellow \<Rightarrow> sty (OtherStyle ''healthYellow'') ([CHR 0xE2, CHR 0x9A, CHR 0xA0] @ hr_Component r)
      | StatusRed \<Rightarrow> sty (OtherStyle ''healthRed'') ([CHR 0xE2, CHR 0x9C, CHR 0x97] @ hr_Component r)
      | StatusOffline \<Rightarrow> sty (OtherStyle ''fieldKey'') (u_mid @ hr_Component r))"

definition RenderHealth :: "styling \<Rightarrow> tui_health list \<Rightarrow> string" where
  "RenderHealth sty reports = (if length reports = 0 then [] else str_join (map (health_mark sty) reports) '' '')"

definition RenderHealthCompact :: "styling \<Rightarrow> tui_health list \<Rightarrow> string" where
  "RenderHealthCompact sty reports =
     (if length reports = 0 then []
      else let green = length (filter (\<lambda>r. hr_Status r = StatusGreen) reports)
        in if green = length reports then sty (OtherStyle ''healthGreen'') ([CHR 0xE2, CHR 0x9C, CHR 0x93] @ nat_dec green)
           else nat_dec green @ ''/'' @ nat_dec (length reports))"

text \<open>No field of the program has a style of its own.\<close>

definition FormatField :: "styling \<Rightarrow> string \<times> string \<Rightarrow> string" where
  "FormatField sty = (\<lambda>(k, v). sty (OtherStyle ''fieldKey'') (k @ '':'') @ sty (OtherStyle ''fieldValue'') v)"

definition FormatStatusLine :: "styling \<Rightarrow> (string \<times> string) list \<Rightarrow> string" where
  "FormatStatusLine sty fs = ''  '' @ str_join (map (FormatField sty) fs) (sty (OtherStyle ''fieldSep'') ('' '' @ u_bar @ '' ''))"

definition RenderStatusLine :: "styling \<Rightarrow> string \<Rightarrow> string \<Rightarrow> string \<Rightarrow> string \<Rightarrow> int \<Rightarrow> int \<Rightarrow> int \<Rightarrow> tui_health list \<Rightarrow> string" where
  "RenderStatusLine sty ws driverName model md tokensIn tokensOut turns reports =
     (let driverModel = (if driverName \<noteq> [] \<and> driverName \<noteq> ''claude'' then driverName @ ''/'' @ model else model); h = RenderHealth sty reports
      in sty StatusStyle (FormatStatusLine sty
           ([(''scope'', if ws = [] then ''general'' else ws), (''model'', driverModel), (''mode'', md),
             (''tok'', int_dec tokensIn @ ''/'' @ int_dec tokensOut), (''turns'', int_dec turns)] @ (if h \<noteq> [] then [(''mcp'', h)] else []))))"

subsection \<open>The dashboard\<close>

record andon_state =
  an_Level :: andon_level
  an_Source :: string
  an_Message :: string

record dashboard =
  db_workspace :: string
  db_driver :: string
  db_model :: string
  db_mode :: string
  db_tokensIn :: int
  db_tokensOut :: int
  db_turns :: int
  db_agentCount :: int
  db_activeRole :: string
  db_operation :: string
  db_agentCap :: int
  db_health :: "tui_health list"
  db_uiState :: string
  db_andon :: andon_state

record dashboard_metrics =
  dm_TokensIn :: int
  dm_TokensOut :: int
  dm_Turns :: int
  dm_AgentCount :: int
  dm_ActiveRole :: string
  dm_Operation :: string
  dm_AgentCap :: int

record cordon_msg =
  cm_Reason :: string
  cm_AgentID :: string
  cm_Detail :: string

datatype dashboard_msg = DashboardIdentity string string string string | DashboardMetrics dashboard_metrics | DashboardHealth "tui_health list"
  | DashboardUIState string | AndonUpdate andon_state | DashboardOther

definition NewDashboardPanel :: dashboard where
  "NewDashboardPanel =
     \<lparr>db_workspace = [], db_driver = [], db_model = [], db_mode = [], db_tokensIn = 0, db_tokensOut = 0, db_turns = 0, db_agentCount = 0, db_activeRole = [],
      db_operation = [], db_agentCap = 0, db_health = [], db_uiState = ''INSERT'', db_andon = \<lparr>an_Level = AndonGreen, an_Source = [], an_Message = []\<rparr>\<rparr>"

fun dashboard_Update :: "dashboard_msg \<Rightarrow> dashboard \<Rightarrow> dashboard \<times> cordon_msg option" where
  "dashboard_Update (DashboardIdentity w d m md) p = (p\<lparr>db_workspace := w, db_driver := d, db_model := m, db_mode := md\<rparr>, None)"
| "dashboard_Update (DashboardMetrics m) p =
     (p\<lparr>db_tokensIn := dm_TokensIn m, db_tokensOut := dm_TokensOut m, db_turns := dm_Turns m, db_agentCount := dm_AgentCount m,
        db_activeRole := dm_ActiveRole m, db_operation := dm_Operation m, db_agentCap := dm_AgentCap m\<rparr>, None)"
| "dashboard_Update (DashboardHealth rs) p = (p\<lparr>db_health := rs\<rparr>, None)"
| "dashboard_Update (DashboardUIState s) p = (p\<lparr>db_uiState := s\<rparr>, None)"
| "dashboard_Update (AndonUpdate s) p =
     (p\<lparr>db_andon := s\<rparr>,
      if ShouldCordon (an_Level s) then Some \<lparr>cm_Reason = an_Message s, cm_AgentID = an_Source s, cm_Detail = ''andon red: auto-cordon''\<rparr> else None)"
| "dashboard_Update DashboardOther p = (p, None)"

definition dashboard_CellSight :: "dashboard \<Rightarrow> cell_sight" where
  "dashboard_CellSight p =
     \<lparr>cs_PanelID = ''dashboard'', cs_CellID = [], cs_CellTitle = [], cs_Kind = ''status'',
      cs_Fields = [\<lparr>sg_Key = ''operation'', sg_Value = db_operation p, sg_Sensitive = False\<rparr>, \<lparr>sg_Key = ''turns'', sg_Value = int_dec (db_turns p), sg_Sensitive = False\<rparr>,
        \<lparr>sg_Key = ''agents'', sg_Value = int_dec (db_agentCount p), sg_Sensitive = False\<rparr>,
        \<lparr>sg_Key = ''tokens'', sg_Value = int_dec (db_tokensIn p) @ ''/'' @ int_dec (db_tokensOut p), sg_Sensitive = True\<rparr>]\<rparr>"

definition mode_indicator :: "styling \<Rightarrow> string \<Rightarrow> string" where
  "mode_indicator sty s =
     (if s = ''STREAMING'' then sty (OtherStyle ''modeStream'') ''-- STREAMING --'' else if s = ''APPROVAL'' then sty (OtherStyle ''modeApproval'') ''-- APPROVAL --''
      else sty (OtherStyle ''modeInsert'') ''-- INSERT --'')"

definition agent_info :: "styling \<Rightarrow> dashboard \<Rightarrow> string" where
  "agent_info sty p =
     (if db_agentCap p > 0 then
        sty StatusStyle (''agents:'' @ int_dec (db_agentCount p) @ ''/'' @ int_dec (db_agentCap p) @ (if db_activeRole p \<noteq> [] then '' active:'' @ db_activeRole p else []) @ '' '')
      else if db_agentCount p > 1 then sty StatusStyle (''agents:'' @ int_dec (db_agentCount p) @ '' active:'' @ db_activeRole p @ '' | '')
      else [])"

definition andon_mark :: "styling \<Rightarrow> andon_level \<Rightarrow> string" where
  "andon_mark sty l =
     (case l of AndonGreen \<Rightarrow> sty (OtherStyle ''healthGreen'') glyph_dot | AndonYellow \<Rightarrow> sty (OtherStyle ''healthYellow'') [CHR 0xE2, CHR 0x97, CHR 0x89]
      | AndonRed \<Rightarrow> sty (OtherStyle ''healthRed'') [CHR 0xE2, CHR 0xAC, CHR 0xA4])"

text \<open>The width on the screen is a function of another module.\<close>

definition dashboard_View :: "styling \<Rightarrow> (string \<Rightarrow> int) \<Rightarrow> int \<Rightarrow> dashboard \<Rightarrow> string" where
  "dashboard_View sty screen width p =
     (let indicator = mode_indicator sty (db_uiState p);
          line0 = RenderStatusLine sty (db_workspace p) (db_driver p) (db_model p) (db_mode p) (db_tokensIn p) (db_tokensOut p) (db_turns p) (db_health p);
          line = andon_mark sty (an_Level (db_andon p)) @ '' '' @ agent_info sty p @ (if db_operation p \<noteq> [] then sty StatusStyle (''['' @ db_operation p @ ''] '') else []) @ line0;
          gap0 = width - screen indicator - screen line; gap = (if gap0 < 1 then 1 else gap0)
      in ''  '' @ indicator @ replicate (nat gap) (CHR '' '') @ line)"

subsection \<open>Gauges\<close>

definition clampDrift :: "rat \<Rightarrow> rat" where "clampDrift v = (if v < 0 then 0 else if v > 100 then 100 else v)"

record drift_panel =
  dr_funcScore :: rat
  dr_funcLabel :: string
  dr_archScore :: rat
  dr_archLabel :: string
  dr_perfScore :: rat
  dr_perfLabel :: string
  dr_tasksLeft :: int

definition NewDriftPanel :: drift_panel where
  "NewDriftPanel = \<lparr>dr_funcScore = 0, dr_funcLabel = [], dr_archScore = 0, dr_archLabel = [], dr_perfScore = 0, dr_perfLabel = [], dr_tasksLeft = 0\<rparr>"

definition SetDrift :: "drift_panel \<Rightarrow> drift_panel \<Rightarrow> drift_panel" where
  "SetDrift m d = m\<lparr>dr_funcScore := clampDrift (dr_funcScore m), dr_archScore := clampDrift (dr_archScore m), dr_perfScore := clampDrift (dr_perfScore m)\<rparr>"

definition drift_CellSight :: "drift_panel \<Rightarrow> cell_sight" where
  "drift_CellSight d =
     \<lparr>cs_PanelID = ''drift'', cs_CellID = [], cs_CellTitle = [], cs_Kind = ''reconciliation'',
      cs_Fields = [\<lparr>sg_Key = ''functionality'', sg_Value = fmt_fixed 0 (dr_funcScore d) @ ''%'', sg_Sensitive = False\<rparr>,
        \<lparr>sg_Key = ''structure'', sg_Value = fmt_fixed 0 (dr_archScore d) @ ''%'', sg_Sensitive = False\<rparr>,
        \<lparr>sg_Key = ''performance'', sg_Value = fmt_fixed 0 (dr_perfScore d) @ ''%'', sg_Sensitive = False\<rparr>]\<rparr>"

definition pillarStyle :: "rat \<Rightarrow> tui_style" where
  "pillarStyle score = OtherStyle (if score \<ge> 80 then ''driftGood'' else if score \<ge> 50 then ''driftMid'' else ''driftBad'')"

definition gauge_filled :: "int \<Rightarrow> rat \<Rightarrow> int" where
  "gauge_filled barWidth share = (let f = int_trunc (of_int barWidth * share) in if f > barWidth then barWidth else f)"

definition gauge_width :: "int \<Rightarrow> int" where "gauge_width room = (if room < 4 then 4 else room)"

definition renderPillarBar :: "styling \<Rightarrow> string \<Rightarrow> rat \<Rightarrow> string \<Rightarrow> int \<Rightarrow> string option" where
  "renderPillarBar sty name score label width =
     (let pre = fill_right 4 (CHR '' '') name @ '' ''; pctStr = '' '' @ fill_left 3 (CHR '' '') (fmt_fixed 0 score) @ ''%'';
          labelStr = (if label \<noteq> [] then ''  '' @ label else []);
          barWidth = gauge_width (width - int (length pre) - int (length pctStr) - int (length labelStr)); filled = gauge_filled barWidth (score / 100)
      in map_option (\<lambda>b. pre @ b @ pctStr @ sty DimStyle labelStr) (two_part_bar sty (pillarStyle score) filled (barWidth - filled)))"

definition drift_View :: "styling \<Rightarrow> int \<Rightarrow> drift_panel \<Rightarrow> string option" where
  "drift_View sty width d =
     (case (renderPillarBar sty ''Func'' (dr_funcScore d) (dr_funcLabel d) width, renderPillarBar sty ''Arch'' (dr_archScore d) (dr_archLabel d) width,
            renderPillarBar sty ''Perf'' (dr_perfScore d) (dr_perfLabel d) width) of
        (Some f, Some a, Some p) \<Rightarrow> Some (f @ nl @ a @ nl @ p @ nl @ sty DimStyle (''Drift: '' @ int_dec (dr_tasksLeft d) @ '' tasks to convergence''))
      | _ \<Rightarrow> None)"

definition SetUsage :: "rat \<Rightarrow> rat" where "SetUsage u = (let u1 = (if u < 0 then 0 else u) in if u1 > 1 then 1 else u1)"

definition coherence_zone :: "rat \<Rightarrow> string" where
  "coherence_zone u =
     (if u < 20 / 100 then ''cold'' else if u < 40 / 100 then ''warm'' else if u < 65 / 100 then ''focused'' else if u < 85 / 100 then ''hot'' else ''redline'')"

definition coherence_View :: "styling \<Rightarrow> int \<Rightarrow> rat \<Rightarrow> string option" where
  "coherence_View sty width u =
     (let pct = '' '' @ int_dec (int_trunc (u * 100)) @ ''% '' @ coherence_zone u; barWidth = gauge_width (width - 5 - int (length pct) - 2); filled = gauge_filled barWidth u
      in map_option (\<lambda>b. ''ctx: '' @ b @ pct) (two_part_bar sty (OtherStyle (coherence_zone u)) filled (barWidth - filled)))"

definition SetSpent :: "rat \<Rightarrow> rat" where "SetSpent s = (if s < 0 then 0 else s)"

definition budgetStyle :: "rat \<Rightarrow> rat \<Rightarrow> tui_style" where
  "budgetStyle spent limit =
     (if limit \<le> 0 then DimStyle
      else if spent / limit > 90 / 100 then OtherStyle ''budgetOver'' else if spent / limit > 70 / 100 then OtherStyle ''budgetWarn'' else OtherStyle ''budgetOK'')"

definition budget_ratio :: "rat \<Rightarrow> rat \<Rightarrow> rat" where
  "budget_ratio spent limit = (if limit > 0 then (if spent / limit > 1 then 1 else spent / limit) else 0)"

definition budget_View :: "styling \<Rightarrow> int \<Rightarrow> rat \<Rightarrow> rat \<Rightarrow> string option" where
  "budget_View sty width spent limit =
     (let ratio = budget_ratio spent limit; costStr = ''$'' @ fmt_fixed 2 spent @ ''/$'' @ fmt_fixed 2 limit @ '' ''; pctStr = '' '' @ int_dec (int_trunc (ratio * 100)) @ ''%'';
          barWidth = gauge_width (width - int (length costStr) - int (length pctStr) - 2); filled = gauge_filled barWidth ratio
      in map_option (\<lambda>b. costStr @ b @ pctStr) (two_part_bar sty (budgetStyle spent limit) filled (barWidth - filled)))"

lemma gauge_filled_range: "0 \<le> b \<Longrightarrow> 0 \<le> f \<Longrightarrow> 0 \<le> gauge_filled b f \<and> gauge_filled b f \<le> b"
  using int_trunc_bounds [of "of_int b * f"] by (auto simp: gauge_filled_def Let_def)

lemma gauge_width_pos: "4 \<le> gauge_width room" by (simp add: gauge_width_def)

lemma gauge_some: "0 \<le> f \<Longrightarrow> two_part_bar sty st (gauge_filled (gauge_width r) f) (gauge_width r - gauge_filled (gauge_width r) f) \<noteq> None"
  using gauge_filled_range [of "gauge_width r" f] gauge_width_pos [of r] by (intro bar_some) auto

end
