(* ===== verification/Tui_Panels.thy ===== *)
theory Tui_Panels
  imports Tui_Gauges Review_Windows Artifact_Template
begin

text \<open>
  More panels of the terminal (\<^verbatim>\<open>tui/widgets/\<close>): the turns of the conversation with their tools, the signals of the budget, the tour of the
  circuits, the notes of a workstation, the graph of symbols, the debugger over the ring of traces; and the themes (\<^verbatim>\<open>tui/design/theme.go\<close>,
  \<^verbatim>\<open>tokens.go\<close>). Panels inside a panel are functions of the width.
\<close>

subsection \<open>Tools and turns\<close>

record envelope =
  ev_base :: base_panel
  ev_toolName :: string
  ev_args :: string
  ev_output :: string
  ev_isError :: bool
  ev_done :: bool

datatype envelope_msg = ToolResultMsg string bool | EnvelopeOther

definition NewEnvelopePanel :: "string \<Rightarrow> string \<Rightarrow> string \<Rightarrow> envelope" where
  "NewEnvelopePanel i toolName args =
     \<lparr>ev_base = NewBasePanel i 0, ev_toolName = toolName, ev_args = args, ev_output = [], ev_isError = False, ev_done = False\<rparr>"

definition SetResult :: "string \<Rightarrow> bool \<Rightarrow> envelope \<Rightarrow> envelope" where
  "SetResult output isError p = p\<lparr>ev_output := output, ev_isError := isError, ev_done := True, ev_base := panel_SetCollapsed True (ev_base p)\<rparr>"

fun envelope_Update :: "envelope_msg \<Rightarrow> envelope \<Rightarrow> envelope" where
  "envelope_Update (ToolResultMsg output isError) p = SetResult output isError p"
| "envelope_Update EnvelopeOther p = p"

definition envelope_summary :: "styling \<Rightarrow> envelope \<Rightarrow> string" where
  "envelope_summary sty p =
     ''  '' @ ToolStatus sty (ev_toolName p) (if \<not> ev_done p then ''active'' else if ev_isError p then ''error'' else ''done'') (int (str_count (ev_output p) nl) + 1)"

definition envelope_expanded :: "styling \<Rightarrow> int \<Rightarrow> envelope \<Rightarrow> string" where
  "envelope_expanded sty width p =
     trim_right_nl
       (''  '' @ ToolStatus sty (ev_toolName p) (if ev_isError p then ''error'' else if ev_done p then ''done'' else ''active'') 0 @ '' '' @ sty ToolArgStyle (ev_args p) @ nl @
        (if ev_output p \<noteq> [] then concat (map (\<lambda>l. ''    '' @ sty DimStyle l @ nl) (str_split (WrapText (ev_output p) (width - 4)) (CHR 0x0A))) else []))"

definition envelope_View :: "styling \<Rightarrow> int \<Rightarrow> envelope \<Rightarrow> string" where
  "envelope_View sty width p = (if bp_collapsed (ev_base p) then envelope_summary sty p else envelope_expanded sty width p)"

record turn_panel =
  tp_base :: base_panel
  tp_userPrompt :: string
  tp_agentText :: string
  tp_thinking :: string
  tp_toolCalls :: "(int \<Rightarrow> string) list"
  tp_tokenIn :: int
  tp_tokenOut :: int

definition NewTurnPanel :: "string \<Rightarrow> string \<Rightarrow> string \<Rightarrow> string \<Rightarrow> (int \<Rightarrow> string) list \<Rightarrow> int \<Rightarrow> int \<Rightarrow> turn_panel" where
  "NewTurnPanel i userPrompt agentText thinking toolCalls tokIn tokOut =
     \<lparr>tp_base = NewBasePanel i 1, tp_userPrompt = userPrompt, tp_agentText = agentText, tp_thinking = thinking, tp_toolCalls = toolCalls,
      tp_tokenIn = tokIn, tp_tokenOut = tokOut\<rparr>"

definition turn_summary :: "styling \<Rightarrow> int \<Rightarrow> turn_panel \<Rightarrow> string option" where
  "turn_summary sty width p =
     map_option (\<lambda>prompt. sty UserStyle LabelUser @ '' '' @ prompt @ '' '' @
         sty DimStyle (''['' @ int_dec (tp_tokenIn p + tp_tokenOut p) @ '' tok, '' @ nat_dec (length (tp_toolCalls p)) @ '' tools]''))
       (truncateQueue (tp_userPrompt p) (width - 30))"

definition turn_expanded :: "styling \<Rightarrow> int \<Rightarrow> turn_panel \<Rightarrow> string" where
  "turn_expanded sty width p =
     sty UserStyle LabelUser @ tp_userPrompt p @ concat (map (\<lambda>view. nl @ view width) (tp_toolCalls p)) @
     (if tp_agentText p \<noteq> [] then nl @ tp_agentText p else []) @
     (if tp_thinking p \<noteq> [] then nl @ sty DimStyle (spinner_first @ '' '' @ tp_thinking p) else []) @
     (if tp_tokenIn p > 0 \<or> tp_tokenOut p > 0
      then nl @ sty StatusStyle (''[tokens: '' @ int_dec (tp_tokenIn p) @ '' in, '' @ int_dec (tp_tokenOut p) @ '' out]'') else [])"

definition turn_View :: "styling \<Rightarrow> int \<Rightarrow> turn_panel \<Rightarrow> string option" where
  "turn_View sty width p = (if bp_collapsed (tp_base p) then turn_summary sty width p else Some (turn_expanded sty width p))"

record turn_envelope =
  te_base :: base_panel
  te_turnIdx :: int
  te_userInput :: string
  te_response :: string
  te_tools :: "envelope list"
  te_thinking :: string
  te_complete :: bool

definition NewTurnEnvelope :: "int \<Rightarrow> string \<Rightarrow> turn_envelope" where
  "NewTurnEnvelope turnIdx userInput =
     \<lparr>te_base = NewBasePanel (''turn-'' @ int_dec turnIdx) 0, te_turnIdx = turnIdx, te_userInput = userInput, te_response = [], te_tools = [],
      te_thinking = [], te_complete = False\<rparr>"

definition turn_AddText :: "string \<Rightarrow> turn_envelope \<Rightarrow> turn_envelope" where "turn_AddText text t = t\<lparr>te_response := te_response t @ text\<rparr>"
definition turn_AddThinking :: "string \<Rightarrow> turn_envelope \<Rightarrow> turn_envelope" where "turn_AddThinking text t = t\<lparr>te_thinking := text\<rparr>"
definition turn_AddTool :: "envelope \<Rightarrow> turn_envelope \<Rightarrow> turn_envelope" where "turn_AddTool env t = t\<lparr>te_tools := te_tools t @ [env]\<rparr>"
definition turn_Complete :: "turn_envelope \<Rightarrow> turn_envelope" where "turn_Complete t = t\<lparr>te_complete := True\<rparr>"

definition turn_collapsedView :: "styling \<Rightarrow> turn_envelope \<Rightarrow> string" where
  "turn_collapsedView sty t =
     sty DimStyle (''Turn #'' @ int_dec (te_turnIdx t) @ '': '' @ (if length (te_userInput t) > 50 then take 47 (te_userInput t) @ ''...'' else te_userInput t))"

definition turn_box :: "styling \<Rightarrow> (int \<Rightarrow> string \<Rightarrow> string) \<Rightarrow> int \<Rightarrow> turn_envelope \<Rightarrow> string" where
  "turn_box sty border width t =
     border (if width - 2 < 1 then 1 else width - 2)
       ('' Turn #'' @ int_dec (te_turnIdx t) @ '' '' @ nl @ sty UserStyle LabelUser @ te_userInput t @
        concat (map (\<lambda>tool. nl @ envelope_View sty (width - 4) tool) (te_tools t)) @
        (if te_response t \<noteq> [] then nl @ te_response t else []) @
        (if te_thinking t \<noteq> [] then nl @ sty DimStyle (spinner_first @ '' '' @ te_thinking t) else []))"

definition turn_envelope_View :: "styling \<Rightarrow> (int \<Rightarrow> string \<Rightarrow> string) \<Rightarrow> int \<Rightarrow> turn_envelope \<Rightarrow> string" where
  "turn_envelope_View sty border width t = (if bp_collapsed (te_base t) then turn_collapsedView sty t else turn_box sty border width t)"

text \<open>The summary shows the number of lines of the output, counted even before there is one, as a number of tokens.\<close>

lemma lines_shown_as_tokens:
  "envelope_summary (\<lambda>s t. t) (SetResult ''ok'' False (NewEnvelopePanel i ''Bash'' a)) = ''  '' @ u_hex @ '' Bash (1 tokens)''"
  by (simp add: envelope_summary_def ToolStatus_def Badge_def CompactNumber_def compact_abs_def SetResult_def NewEnvelopePanel_def Glyph_def str_count.simps) code_simp

subsection \<open>Small panels\<close>

definition sep_char :: "int \<Rightarrow> string" where
  "sep_char depth = (if depth \<le> 0 then [CHR 0xE2, CHR 0x94, CHR 0x81] else if depth = 1 then u_rule else if depth = 2 then [CHR 0xE2, CHR 0x94, CHR 0x84] else u_mid)"

definition sparse_line :: "int \<Rightarrow> string" where
  "sparse_line width = concat (map (\<lambda>i. u_mid @ (if 2 * i + 1 < width then '' '' else [])) [0..(width + 1) div 2 - 1])"

definition Separator :: "styling \<Rightarrow> int \<Rightarrow> int \<Rightarrow> bool \<Rightarrow> string" where
  "Separator sty width depth focused =
     (if width \<le> 0 then []
      else sty (if focused then OtherStyle ''sepFocus'' else DimStyle) (if depth > 2 then sparse_line width else times (sep_char depth) (nat width)))"

record odometer =
  od_roundTrips :: int
  od_cost :: rat
  od_tasks :: int
  od_relays :: int

definition NewOdometerLine :: odometer where "NewOdometerLine = \<lparr>od_roundTrips = 0, od_cost = 0, od_tasks = 0, od_relays = 0\<rparr>"
definition odometer_Update :: "odometer option \<Rightarrow> odometer \<Rightarrow> odometer" where "odometer_Update msg o1 = (case msg of Some m \<Rightarrow> m | None \<Rightarrow> o1)"

definition odometer_View :: "odometer \<Rightarrow> string" where
  "odometer_View o1 =
     ''round-trips:'' @ int_dec (od_roundTrips o1) @ '' | $'' @ fmt_fixed 2 (od_cost o1) @ '' spent | '' @ int_dec (od_tasks o1) @ '' tasks | '' @ int_dec (od_relays o1) @ '' relays''"

datatype thinking_msg = ThinkingMsg string | ThinkingClearMsg | ThinkingOther

record thinking_panel =
  th_text :: string
  th_active :: bool

definition thinking_Active :: "thinking_panel \<Rightarrow> bool" where "thinking_Active p \<longleftrightarrow> th_active p \<and> th_text p \<noteq> []"

fun thinking_Update :: "thinking_msg \<Rightarrow> thinking_panel \<Rightarrow> thinking_panel" where
  "thinking_Update (ThinkingMsg text) p = p\<lparr>th_text := text, th_active := True\<rparr>"
| "thinking_Update ThinkingClearMsg p = p\<lparr>th_text := [], th_active := False\<rparr>"
| "thinking_Update ThinkingOther p = p"

definition thinking_View :: "styling \<Rightarrow> thinking_panel \<Rightarrow> string" where
  "thinking_View sty p = (if \<not> th_active p \<or> th_text p = [] then [] else sty DimStyle (''  '' @ spinner_first @ '' '' @ th_text p))"

definition server_View :: "styling \<Rightarrow> string \<Rightarrow> health_status \<Rightarrow> nat \<Rightarrow> string" where
  "server_View sty name status tools =
     (case status of
        StatusGreen \<Rightarrow> Glyph sty ''done'' | StatusYellow \<Rightarrow> Glyph sty ''pending'' | StatusRed \<Rightarrow> Glyph sty ''error'' | StatusOffline \<Rightarrow> sty DimStyle u_mid) @
     '' '' @ name @ '' '' @ sty DimStyle (''('' @ nat_dec tools @ '' tools)'')"

subsection \<open>The notes of a workstation\<close>

record scratch_panel =
  sp_understanding :: string
  sp_plan :: "string list"
  sp_risks :: "string list"
  sp_notes :: string

definition NewScratchPaperPanel :: scratch_panel where
  "NewScratchPaperPanel = \<lparr>sp_understanding = [], sp_plan = [], sp_risks = [], sp_notes = []\<rparr>"

definition SetUnderstanding :: "string \<Rightarrow> scratch_panel \<Rightarrow> scratch_panel" where "SetUnderstanding text p = p\<lparr>sp_understanding := text\<rparr>"
definition SetPlan :: "string list \<Rightarrow> scratch_panel \<Rightarrow> scratch_panel" where "SetPlan steps p = p\<lparr>sp_plan := steps\<rparr>"
definition SetRisks :: "string list \<Rightarrow> scratch_panel \<Rightarrow> scratch_panel" where "SetRisks rs p = p\<lparr>sp_risks := rs\<rparr>"
definition SetNotes :: "string \<Rightarrow> scratch_panel \<Rightarrow> scratch_panel" where "SetNotes text p = p\<lparr>sp_notes := text\<rparr>"

definition scratch_isEmpty :: "scratch_panel \<Rightarrow> bool" where
  "scratch_isEmpty p \<longleftrightarrow> sp_understanding p = [] \<and> length (sp_plan p) = 0 \<and> length (sp_risks p) = 0 \<and> sp_notes p = []"

definition scratch_title :: "styling \<Rightarrow> string \<Rightarrow> string" where "scratch_title sty t = ''  '' @ sty ToolNameStyle t @ nl"

definition scratch_View :: "styling \<Rightarrow> scratch_panel \<Rightarrow> string" where
  "scratch_View sty p =
     (if scratch_isEmpty p then sty DimStyle ''No scratch paper''
      else (if sp_understanding p \<noteq> [] then scratch_title sty ''Understanding'' @ ''  '' @ sp_understanding p @ nl @ nl else []) @
        (if length (sp_plan p) > 0
         then scratch_title sty ''Plan'' @ concat (map (\<lambda>(i, s). ''  '' @ nat_dec (i + 1) @ ''. '' @ s @ nl) (enumerate 0 (sp_plan p))) @ nl else []) @
        (if length (sp_risks p) > 0
         then scratch_title sty ''Risks'' @ concat (map (\<lambda>r. ''  '' @ [CHR 0xE2, CHR 0x9A, CHR 0xA0] @ '' '' @ r @ nl) (sp_risks p)) @ nl else []) @
        (if sp_notes p \<noteq> [] then scratch_title sty ''Notes'' @ ''  '' @ sp_notes p @ nl else []))"

definition open_field :: "string \<Rightarrow> string \<Rightarrow> sight_field" where "open_field k v = \<lparr>sg_Key = k, sg_Value = v, sg_Sensitive = False\<rparr>"
definition secret_field :: "string \<Rightarrow> string \<Rightarrow> sight_field" where "secret_field k v = \<lparr>sg_Key = k, sg_Value = v, sg_Sensitive = True\<rparr>"

definition scratch_CellSight :: "scratch_panel \<Rightarrow> cell_sight" where
  "scratch_CellSight p =
     (if scratch_isEmpty p then \<lparr>cs_PanelID = KindScratchPaper, cs_CellID = [], cs_CellTitle = [], cs_Kind = [], cs_Fields = []\<rparr>
      else \<lparr>cs_PanelID = KindScratchPaper, cs_CellID = [], cs_CellTitle = ''Scratch Paper'', cs_Kind = KindScratchPaper,
        cs_Fields = (if sp_understanding p \<noteq> [] then [open_field ''understanding'' (sp_understanding p)] else []) @
          (if length (sp_plan p) > 0 then [open_field ''plan_steps'' (nat_dec (length (sp_plan p)))] else []) @
          (if length (sp_risks p) > 0 then [open_field ''risks'' (nat_dec (length (sp_risks p)))] else []) @
          (if sp_notes p \<noteq> [] then [open_field ''notes'' (sp_notes p)] else [])\<rparr>)"

subsection \<open>The graph of symbols\<close>

record symbol_panel =
  gp_content :: string
  gp_file :: string

definition SetSymbolContent :: "string \<Rightarrow> string \<Rightarrow> symbol_panel \<Rightarrow> symbol_panel" where "SetSymbolContent file content p = p\<lparr>gp_file := file, gp_content := content\<rparr>"

definition symbols_View :: "styling \<Rightarrow> int \<Rightarrow> symbol_panel \<Rightarrow> string" where
  "symbols_View sty width p =
     (if gp_content p = [] then sty DimStyle ''No symbol graph loaded''
      else str_join (map (\<lambda>l. if width > 0 \<and> int (length l) > width then take (nat width) l else l) (str_split (gp_content p) (CHR 0x0A))) nl)"

definition symbols_CellSight :: "symbol_panel \<Rightarrow> cell_sight" where
  "symbols_CellSight p =
     (if gp_file p \<noteq> [] then \<lparr>cs_PanelID = ''symbol-graph'', cs_CellID = gp_file p, cs_CellTitle = gp_file p, cs_Kind = ''symbol-graph'', cs_Fields = [open_field ''file'' (gp_file p)]\<rparr>
      else \<lparr>cs_PanelID = ''symbol-graph'', cs_CellID = [], cs_CellTitle = [], cs_Kind = ''symbol-graph'', cs_Fields = []\<rparr>)"

subsection \<open>The signals of the budget\<close>

definition padRight :: "string \<Rightarrow> nat \<Rightarrow> string" where
  "padRight s width = (if length s \<ge> width then take width s else s @ replicate (width - length s) (CHR '' ''))"

definition padLeft :: "string \<Rightarrow> nat \<Rightarrow> string" where
  "padLeft s width = (if length s \<ge> width then s else replicate (width - length s) (CHR '' '') @ s)"

definition signal_ratio :: "breach_signal \<Rightarrow> rat" where
  "signal_ratio s = (if bs_Value s / bs_Threshold s > 1 then 1 else bs_Value s / bs_Threshold s)"

definition signal_value :: "breach_signal \<Rightarrow> string" where
  "signal_value s = fmt_fixed 0 (bs_Value s) @ ''/'' @ fmt_fixed 0 (bs_Threshold s)"

definition renderBar :: "styling \<Rightarrow> breach_signal \<Rightarrow> int \<Rightarrow> string option" where
  "renderBar sty s maxWidth =
     (let barWidth = (if maxWidth - 30 < 10 then 10 else maxWidth - 30); filled = int_trunc (signal_ratio s * of_int barWidth);
          st = (if bs_Exceeded s then ErrorStyle else if signal_ratio s \<ge> 7 / 10 then ToolNameStyle else ToolSuccessStyle)
      in map_option (\<lambda>bar. padRight (bs_Metric s) 20 @ bar @ '' '' @ signal_value s) (two_part_bar sty st filled (barWidth - filled)))"

fun signal_lines :: "styling \<Rightarrow> int \<Rightarrow> breach_signal list \<Rightarrow> string option" where
  "signal_lines sty width [] = Some []"
| "signal_lines sty width (s # ss) =
     (if bs_Threshold s \<le> 0 then signal_lines sty width ss
      else case renderBar sty s (width - 4) of
             None \<Rightarrow> None | Some line \<Rightarrow> map_option (\<lambda>more. ''  '' @ line @ nl @ more) (signal_lines sty width ss))"

definition signals_View :: "styling \<Rightarrow> int \<Rightarrow> breach_signal list \<Rightarrow> string option" where
  "signals_View sty width ss = (if length ss = 0 then Some (sty DimStyle ''No budget signals'') else signal_lines sty width ss)"

definition signals_CellSight :: "breach_signal list \<Rightarrow> cell_sight" where
  "signals_CellSight ss =
     \<lparr>cs_PanelID = ''budget'', cs_CellID = [], cs_CellTitle = [], cs_Kind = ''cost'',
      cs_Fields = open_field ''signals'' (nat_dec (length ss)) # map (\<lambda>s. secret_field (bs_Metric s) (signal_value s)) ss\<rparr>"

subsection \<open>The tour of the circuits\<close>

record tour_panel =
  up_tour :: "tour_view option"
  up_focused :: bool
  up_circuit :: nat
  up_stop :: nat

definition NewTourPanel :: tour_panel where "NewTourPanel = \<lparr>up_tour = None, up_focused = False, up_circuit = 0, up_stop = 0\<rparr>"

definition SetTour :: "tour_view option \<Rightarrow> tour_panel \<Rightarrow> tour_panel" where "SetTour t p = p\<lparr>up_tour := t, up_circuit := 0, up_stop := 0\<rparr>"

definition tour_circuits :: "tour_panel \<Rightarrow> circuit_view list" where
  "tour_circuits p = (case up_tour p of None \<Rightarrow> [] | Some t \<Rightarrow> tv_Circuits t)"

definition tour_stops :: "tour_panel \<Rightarrow> stop_view list" where
  "tour_stops p = (if tour_circuits p = [] then [] else cv_Stops (tour_circuits p ! up_circuit p))"

definition nextStop :: "tour_panel \<Rightarrow> tour_panel" where
  "nextStop p = (if int (up_stop p) < int (length (tour_stops p)) - 1 then p\<lparr>up_stop := up_stop p + 1\<rparr> else p)"

definition prevStop :: "tour_panel \<Rightarrow> tour_panel" where "prevStop p = (if up_stop p > 0 then p\<lparr>up_stop := up_stop p - 1\<rparr> else p)"

definition nextCircuit :: "tour_panel \<Rightarrow> tour_panel" where
  "nextCircuit p = (if int (up_circuit p) < int (length (tour_circuits p)) - 1 then p\<lparr>up_circuit := up_circuit p + 1, up_stop := 0\<rparr> else p)"

definition prevCircuit :: "tour_panel \<Rightarrow> tour_panel" where
  "prevCircuit p = (if up_circuit p > 0 then p\<lparr>up_circuit := up_circuit p - 1, up_stop := 0\<rparr> else p)"

definition tour_Update :: "tea_key \<Rightarrow> tour_panel \<Rightarrow> tour_panel" where
  "tour_Update k p =
     (if \<not> up_focused p \<or> up_tour p = None then p
      else if k_String k \<in> {''j'', ''down''} then nextStop p
      else if k_String k \<in> {''k'', ''up''} then prevStop p
      else if k_String k = ''tab'' then nextCircuit p
      else if k_String k = ''shift+tab'' then prevCircuit p else p)"

definition tour_stop_line :: "styling \<Rightarrow> nat \<Rightarrow> nat \<times> stop_view \<Rightarrow> string" where
  "tour_stop_line sty cur = (\<lambda>(i, sv).
     (if i = cur then glyph_cursor @ '' '' else ''  '') @
     (if sv_Changed sv then sty ToolSuccessStyle (glyph_dot @ '' '') @ sv_Name sv
      else if sv_PassThrough sv then sty DimStyle (u_ring @ '' '' @ sv_Name sv) else sv_Name sv) @
     (if sv_Detail sv \<noteq> [] then '' '' @ u_dash @ '' '' @ sty DimStyle (sv_Detail sv) else []) @
     (if sv_CrossRef sv \<noteq> [] then '' '' @ sty DimStyle (''['' @ sv_CrossRef sv @ '']'') else []) @ nl)"

definition tour_View :: "styling \<Rightarrow> tour_panel \<Rightarrow> string" where
  "tour_View sty p =
     (case up_tour p of
        None \<Rightarrow> sty DimStyle ''No circuits to display. Run :tour to generate.''
      | Some t \<Rightarrow>
          if length (tv_Circuits t) = 0 then sty DimStyle ''No circuits to display. Run :tour to generate.''
          else ''Circuit '' @ nat_dec (up_circuit p + 1) @ ''/'' @ nat_dec (length (tv_Circuits t)) @ '': '' @ cv_Title (tv_Circuits t ! up_circuit p) @ nl @
            concat (map (tour_stop_line sty (up_stop p)) (enumerate 0 (tour_stops p))) @
            (if length (tv_DeadCode t) > 0
             then nl @ [CHR 0xE2, CHR 0x9A, CHR 0xA0] @ '' '' @ nat_dec (length (tv_DeadCode t)) @ '' unreachable changes (dead code)'' @ nl else []))"

interpretation si: cursor_list "\<lambda>p. length (tour_stops p)" "\<lambda>p. int (up_stop p)" prevStop nextStop
  by unfold_locales (auto simp: prevStop_def nextStop_def tour_stops_def tour_circuits_def)

interpretation ki: cursor_list "\<lambda>p. length (tour_circuits p)" "\<lambda>p. int (up_circuit p)" prevCircuit nextCircuit
  by unfold_locales (auto simp: prevCircuit_def nextCircuit_def tour_circuits_def)

text \<open>Whatever keys come, both indices are of things that are there, so that no slice of the view panics.\<close>

definition tour_ok :: "tour_panel \<Rightarrow> bool" where
  "tour_ok p \<longleftrightarrow> ki.on_item p \<and> si.on_item p"

lemma tour_ok_set: "tour_ok (SetTour t p)" by (simp add: tour_ok_def ki.on_item_def si.on_item_def SetTour_def)

lemma tour_ok_update: "tour_ok p \<Longrightarrow> tour_ok (tour_Update k p)"
proof -
  assume p: "tour_ok p"
  have stops: "tour_circuits (nextStop p) = tour_circuits p" "up_circuit (nextStop p) = up_circuit p" "tour_circuits (prevStop p) = tour_circuits p" "up_circuit (prevStop p) = up_circuit p"
    by (simp_all add: nextStop_def prevStop_def tour_circuits_def)
  have "tour_ok (nextStop p)" "tour_ok (prevStop p)"
    using p si.on_item_down [of p] si.on_item_up [of p] by (auto simp: tour_ok_def ki.on_item_def stops)
  moreover have "tour_ok (nextCircuit p)" "tour_ok (prevCircuit p)"
    using p ki.on_item_down [of p] ki.on_item_up [of p] by (auto simp: tour_ok_def si.on_item_def nextCircuit_def prevCircuit_def split: if_splits)
  ultimately show ?thesis using p by (simp add: tour_Update_def)
qed

lemma tour_ok_circuit: "tour_ok p \<Longrightarrow> tour_circuits p \<noteq> [] \<Longrightarrow> up_circuit p < length (tour_circuits p)"
  by (auto simp: tour_ok_def ki.on_item_def)

subsection \<open>The debugger\<close>

record debug_panel =
  dp_focused :: bool
  dp_scroll :: int

definition debug_limit :: int where "debug_limit = 20"

definition NewDebugPanel :: debug_panel where "NewDebugPanel = \<lparr>dp_focused = False, dp_scroll = 0\<rparr>"

text \<open>Without a ring, the key for the oldest event panics.\<close>

definition debug_Update :: "projection option \<Rightarrow> tea_key \<Rightarrow> debug_panel \<Rightarrow> debug_panel option" where
  "debug_Update ring k p =
     (if \<not> dp_focused p then Some p
      else if k_String k \<in> {''j'', ''down''} then Some (if dp_scroll p > 0 then p\<lparr>dp_scroll := dp_scroll p - 1\<rparr> else p)
      else if k_String k \<in> {''k'', ''up''} then Some (p\<lparr>dp_scroll := dp_scroll p + 1\<rparr>)
      else if k_String k = ''G'' then Some (p\<lparr>dp_scroll := 0\<rparr>)
      else if k_String k = ''g''
           then (case ring of
                   None \<Rightarrow> None
                 | Some r \<Rightarrow> map_option (\<lambda>st. let s = int (st_Count st) - debug_limit in p\<lparr>dp_scroll := if s < 0 then 0 else s\<rparr>) (trace_stats r))
      else Some p)"

text \<open>The events in view. The slice ends before it starts once more events are scrolled past than there are.\<close>

definition debug_slice :: "projection \<Rightarrow> debug_panel \<Rightarrow> trace_event list option" where
  "debug_slice r p =
     (case trace_last (debug_limit + dp_scroll p) r of
        None \<Rightarrow> None
      | Some events \<Rightarrow>
          if dp_scroll p > 0 \<and> int (length events) > debug_limit
          then (if int (length events) - dp_scroll p < 0 then None else Some (take (nat (int (length events) - dp_scroll p)) events))
          else Some events)"

definition debug_events :: "projection \<Rightarrow> debug_panel \<Rightarrow> trace_event list option" where
  "debug_events r p =
     map_option (\<lambda>events. if int (length events) > debug_limit then drop (length events - nat debug_limit) events else events) (debug_slice r p)"

definition formatDuration :: "int \<Rightarrow> string" where
  "formatDuration d =
     (if d \<ge> 1000000000 then fmt_fixed 1 (of_int d / 1000000000) @ ''s''
      else if d \<ge> 1000000 then int_dec (d div 1000000) @ ''ms'' else int_dec (d div 1000) @ [CHR 0xC2, CHR 0xB5] @ ''s'')"

definition formatTraceEvent :: "styling \<Rightarrow> trace_event \<Rightarrow> string" where
  "formatTraceEvent sty e =
     ''  '' @ padRight (e_Component e) 6 @ '' '' @ padRight (e_Action e) 7 @ '' '' @
     padRight (if e_Server e \<noteq> [] \<and> e_Tool e \<noteq> [] then e_Server e @ ''  '' @ e_Tool e else e_Detail e) 30 @ '' '' @
     (if e_Latency e > 0 then padLeft (formatDuration (e_Latency e)) 5 else ''     '') @ '' '' @
     (if e_Error e then sty ErrorStyle [CHR 0xE2, CHR 0x9C, CHR 0x97] else if e_Action e = ''result'' then sty ToolSuccessStyle [CHR 0xE2, CHR 0x9C, CHR 0x93] else '' '')"

definition debug_View :: "styling \<Rightarrow> projection option \<Rightarrow> debug_panel \<Rightarrow> string option" where
  "debug_View sty ring p =
     (case ring of
        None \<Rightarrow> Some (sty DimStyle ''No trace ring attached'')
      | Some r \<Rightarrow>
          (case debug_events r p of
             None \<Rightarrow> None
           | Some events \<Rightarrow>
               if length events = 0 then Some (sty DimStyle ''No trace events yet'')
               else map_option (\<lambda>st. concat (map (\<lambda>e. formatTraceEvent sty e @ nl) events) @
                      sty DimStyle (''  '' @ nat_dec (st_Count st) @ ''/'' @ nat_dec (st_Capacity st) @ '' events'')) (trace_stats r)))"

definition event_fields :: "trace_event \<Rightarrow> sight_field list" where
  "event_fields e =
     [open_field ''component'' (e_Component e), open_field ''action'' (e_Action e)] @
     (if e_Server e \<noteq> [] then [open_field ''server'' (e_Server e)] else []) @ (if e_Tool e \<noteq> [] then [open_field ''tool'' (e_Tool e)] else []) @
     (if e_Latency e > 0 then [secret_field ''latency'' (formatDuration (e_Latency e))] else []) @ (if e_Error e then [secret_field ''error'' ''true''] else [])"

definition debug_CellSight :: "projection option \<Rightarrow> debug_panel \<Rightarrow> cell_sight option" where
  "debug_CellSight ring p =
     (case ring of
        None \<Rightarrow> Some \<lparr>cs_PanelID = ''debug'', cs_CellID = [], cs_CellTitle = [], cs_Kind = [], cs_Fields = []\<rparr>
      | Some r \<Rightarrow> map_option (\<lambda>events.
          if length events = 0 then \<lparr>cs_PanelID = ''debug'', cs_CellID = [], cs_CellTitle = [], cs_Kind = [], cs_Fields = []\<rparr>
          else \<lparr>cs_PanelID = ''debug'', cs_CellID = e_ID (last events), cs_CellTitle = e_Detail (last events), cs_Kind = e_Component (last events),
                cs_Fields = event_fields (last events)\<rparr>) (debug_slice r p))"

end
