(* ===== verification/Tui_Recorder.thy ===== *)
theory Tui_Recorder
  imports Tui_Panels
begin

text \<open>
  The recorder of frames (\<^verbatim>\<open>tui/debugtap.go\<close>), which is a bounded log, and the themes (\<^verbatim>\<open>tui/design/theme.go\<close>, \<^verbatim>\<open>tokens.go\<close>,
  \<^verbatim>\<open>tui/theme.go\<close>). The file of frames is the list of what was written to it.
\<close>

subsection \<open>Frames\<close>

record 'c recording_frame =
  rf_Timestamp :: gotime
  rf_Frame :: string
  rf_Width :: int
  rf_Height :: int
  rf_State :: string
  rf_Role :: string
  rf_Components :: "'c option"

record 'c tui_recorder =
  tr_frames :: "'c recording_frame list"
  tr_max :: nat
  tr_written :: "'c recording_frame list option"
  tr_state :: string
  tr_role :: string
  tr_width :: int
  tr_height :: int

text \<open>\<open>created\<close> tells whether the file of the given path could be made.\<close>

definition NewTUIRecorder :: "nat \<Rightarrow> string \<Rightarrow> bool \<Rightarrow> 'c tui_recorder option" where
  "NewTUIRecorder capacity path created =
     (if path \<noteq> [] \<and> \<not> created then None
      else Some \<lparr>tr_frames = [], tr_max = capacity, tr_written = (if path \<noteq> [] then Some [] else None), tr_state = [], tr_role = [], tr_width = 0, tr_height = 0\<rparr>)"

text \<open>A recorder of capacity 0 slices its empty list from 1 and panics.\<close>

definition capture_frame :: "'c recording_frame \<Rightarrow> 'c tui_recorder \<Rightarrow> 'c tui_recorder option" where
  "capture_frame df dt =
     (if length (tr_frames dt) \<ge> tr_max dt \<and> tr_frames dt = [] then None
      else let kept = (if length (tr_frames dt) \<ge> tr_max dt then drop 1 (tr_frames dt) else tr_frames dt)
        in Some (dt\<lparr>tr_frames := kept @ [df], tr_written := map_option (\<lambda>w. w @ [df]) (tr_written dt),
                    tr_state := rf_State df, tr_role := rf_Role df, tr_width := rf_Width df, tr_height := rf_Height df\<rparr>))"

definition Capture :: "gotime \<Rightarrow> string \<Rightarrow> string \<Rightarrow> string \<Rightarrow> int \<Rightarrow> int \<Rightarrow> 'c list \<Rightarrow> 'c tui_recorder \<Rightarrow> 'c tui_recorder option" where
  "Capture now frame state role width height components =
     capture_frame \<lparr>rf_Timestamp = now, rf_Frame = frame, rf_Width = width, rf_Height = height, rf_State = state, rf_Role = role,
       rf_Components = (if length components > 0 then Some (hd components) else None)\<rparr>"

definition recorder_Last :: "'c tui_recorder \<Rightarrow> 'c recording_frame option" where
  "recorder_Last dt = (if length (tr_frames dt) = 0 then None else Some (last (tr_frames dt)))"

text \<open>A negative number makes a slice of negative length, which panics.\<close>

definition recorder_LastN :: "int \<Rightarrow> 'c tui_recorder \<Rightarrow> 'c recording_frame list option" where
  "recorder_LastN n0 dt =
     (let n = (if n0 > int (length (tr_frames dt)) then int (length (tr_frames dt)) else n0)
      in if n < 0 then None else Some (drop (length (tr_frames dt) - nat n) (tr_frames dt)))"

definition SearchFrames :: "string \<Rightarrow> 'c tui_recorder \<Rightarrow> 'c recording_frame list" where
  "SearchFrames pattern dt = filter (\<lambda>f. str_contains (rf_Frame f) pattern) (tr_frames dt)"

record frame_transition =
  tn_FromIndex :: nat
  tn_ToIndex :: nat
  tn_FromState :: string
  tn_ToState :: string
  tn_FromRole :: string
  tn_ToRole :: string
  tn_Timestamp :: gotime

definition transition_at :: "'c recording_frame list \<Rightarrow> nat \<Rightarrow> frame_transition option" where
  "transition_at frames i =
     (let prev = frames ! (i - 1); curr = frames ! i
      in if rf_State prev \<noteq> rf_State curr \<or> rf_Role prev \<noteq> rf_Role curr
         then Some \<lparr>tn_FromIndex = i - 1, tn_ToIndex = i, tn_FromState = rf_State prev, tn_ToState = rf_State curr,
                    tn_FromRole = rf_Role prev, tn_ToRole = rf_Role curr, tn_Timestamp = rf_Timestamp curr\<rparr>
         else None)"

definition DetectTransitions :: "'c tui_recorder \<Rightarrow> frame_transition list" where
  "DetectTransitions dt = List.map_filter (transition_at (tr_frames dt)) [1..<length (tr_frames dt)]"

subsection \<open>What the debug server answers\<close>

definition ansi_rest :: "string \<Rightarrow> string option" where
  "ansi_rest s =
     (case s of
        c # s1 \<Rightarrow> if c = CHR ''['' then (case dropWhile (\<lambda>d. d \<in> set ''0123456789;'') s1 of d # s2 \<Rightarrow> if d = CHR ''m'' then Some s2 else None | [] \<Rightarrow> None) else None
      | [] \<Rightarrow> None)"

lemma ansi_rest_shorter: "ansi_rest s = Some r \<Longrightarrow> length r < length s"
proof -
  assume a: "ansi_rest s = Some r"
  obtain c s1 where s: "s = c # s1" using a by (cases s) (auto simp: ansi_rest_def)
  have "length (dropWhile (\<lambda>d. d \<in> set ''0123456789;'') s1) \<le> length s1" by (rule length_dropWhile_le)
  then show ?thesis using a unfolding s ansi_rest_def by (auto split: if_splits list.splits)
qed

function stripANSI :: "string \<Rightarrow> string" where
  "stripANSI [] = []"
| "stripANSI (c # s) =
     (if c = CHR 0x1B then (case ansi_rest s of Some r \<Rightarrow> stripANSI r | None \<Rightarrow> c # stripANSI s) else c # stripANSI s)"
  by pat_completeness auto
termination by (relation "measure length") (auto dest: ansi_rest_shorter)

datatype debug_answer = NotFound string | Answer string

definition serve_view :: "bool \<Rightarrow> 'c tui_recorder \<Rightarrow> debug_answer" where
  "serve_view plain dt =
     (case recorder_Last dt of
        None \<Rightarrow> NotFound ''no frames captured''
      | Some f \<Rightarrow> Answer (if plain then stripANSI (rf_Frame f) else rf_Frame f))"

text \<open>The number is what \<^verbatim>\<open>Sscanf\<close> reads of the query, or 5.\<close>

definition serve_frames :: "int option \<Rightarrow> 'c tui_recorder \<Rightarrow> 'c recording_frame list option" where
  "serve_frames n dt = recorder_LastN (case n of Some i \<Rightarrow> i | None \<Rightarrow> 5) dt"

subsection \<open>Facts\<close>

definition recorder_ok :: "'c tui_recorder \<Rightarrow> bool" where
  "recorder_ok dt \<longleftrightarrow> 0 < tr_max dt \<and> length (tr_frames dt) \<le> tr_max dt"

lemma capture_result:
  "recorder_ok dt \<Longrightarrow> \<exists>dt'. capture_frame df dt = Some dt' \<and> tr_max dt' = tr_max dt \<and> tr_frames dt' = last_n (tr_max dt) (tr_frames dt @ [df])"
proof -
  assume ok: "recorder_ok dt"
  have d: "drop 1 (tr_frames dt) @ [df] = last_n (tr_max dt) (tr_frames dt @ [df])" if "tr_max dt \<le> length (tr_frames dt)"
    using that ok by (auto simp: recorder_ok_def last_n_def)
  have "tr_frames dt @ [df] = last_n (tr_max dt) (tr_frames dt @ [df])" if "\<not> tr_max dt \<le> length (tr_frames dt)"
    using that by (simp add: last_n_def)
  then show ?thesis using d ok by (cases "tr_max dt \<le> length (tr_frames dt)") (auto simp: capture_frame_def Let_def recorder_ok_def)
qed

lemma capture_some:
  "recorder_ok dt \<Longrightarrow> capture_frame df dt = Some dt' \<Longrightarrow> tr_max dt' = tr_max dt \<and> tr_frames dt' = last_n (tr_max dt) (tr_frames dt @ [df])"
  using capture_result [of dt df] by auto

interpretation fr: bounded_log capture_frame tr_frames tr_max recorder_ok
proof unfold_locales
  fix s :: "'c tui_recorder" and e s'
  assume ok: "recorder_ok s"
  show "\<exists>s'. capture_frame e s = Some s'" using capture_result [OF ok, of e] by blast
  show "length (tr_frames s) \<le> tr_max s" using ok by (simp add: recorder_ok_def)
  assume c: "capture_frame e s = Some s'"
  show "tr_max s' = tr_max s" "tr_frames s' = last_n (tr_max s) (tr_frames s @ [e])" using capture_some [OF ok c] by simp_all
  show "recorder_ok s'" using capture_some [OF ok c] ok by (simp add: recorder_ok_def)
qed

lemma transitions_exact:
  "t \<in> set (DetectTransitions dt) \<longleftrightarrow> (\<exists>i. 0 < i \<and> i < length (tr_frames dt) \<and> transition_at (tr_frames dt) i = Some t)"
  by (auto simp: DetectTransitions_def map_filter_set Suc_le_eq)

lemma strip_plain: "CHR 0x1B \<notin> set s \<Longrightarrow> stripANSI s = s" by (induction s) auto

lemma strip_no_more: "set (stripANSI s) \<subseteq> set s"
proof (induction s rule: stripANSI.induct)
  case (2 c s)
  have r: "set r \<subseteq> set s" if a: "ansi_rest s = Some r" for r
  proof -
    obtain d s1 where s: "s = d # s1" using a by (cases s) (auto simp: ansi_rest_def)
    have "set (dropWhile (\<lambda>d. d \<in> set ''0123456789;'') s1) \<subseteq> set s1" by (auto dest: set_dropWhileD)
    then show ?thesis using a unfolding s ansi_rest_def by (auto split: if_splits list.splits)
  qed
  show ?case
  proof (cases "c = CHR 0x1B")
    case True
    show ?thesis
    proof (cases "ansi_rest s")
      case None
      then show ?thesis using 2(1) [OF True None] True by auto
    next
      case (Some q)
      then show ?thesis using 2(2) [OF True Some] r [OF Some] True by auto
    qed
  next
    case False
    then show ?thesis using 2(3) by auto
  qed
qed simp

text \<open>The handler passes a negative number of frames on, and panics.\<close>

lemma negative_frames: "serve_frames (Some (- 1)) dt = None" by (simp add: serve_frames_def recorder_LastN_def)

subsection \<open>Themes\<close>

type_synonym adaptive_color = "string \<times> string"

record theme =
  tm_User :: adaptive_color
  tm_Assistant :: adaptive_color
  tm_ToolName :: adaptive_color
  tm_ToolArg :: adaptive_color
  tm_Success :: adaptive_color
  tm_Error :: adaptive_color
  tm_Accent :: adaptive_color
  tm_FocusDim :: adaptive_color

definition DefaultTheme :: theme where
  "DefaultTheme = \<lparr>tm_User = (''#22c55e'', ''#4ade80''), tm_Assistant = (''#3b82f6'', ''#60a5fa''), tm_ToolName = (''#eab308'', ''#facc15''),
     tm_ToolArg = (''#a855f7'', ''#c084fc''), tm_Success = (''#22c55e'', ''#4ade80''), tm_Error = (''#ef4444'', ''#f87171''),
     tm_Accent = (''#CC0000'', ''#EE0000''), tm_FocusDim = (''#808080'', ''#505050'')\<rparr>"

definition ClaudeTheme :: theme where
  "ClaudeTheme = \<lparr>tm_User = (''#d97706'', ''#f59e0b''), tm_Assistant = (''#7c3aed'', ''#a78bfa''), tm_ToolName = (''#059669'', ''#34d399''),
     tm_ToolArg = (''#6b7280'', ''#9ca3af''), tm_Success = (''#059669'', ''#34d399''), tm_Error = (''#dc2626'', ''#f87171''),
     tm_Accent = (''#d97706'', ''#f59e0b''), tm_FocusDim = (''#9ca3af'', ''#6b7280'')\<rparr>"

definition GeminiTheme :: theme where
  "GeminiTheme = \<lparr>tm_User = (''#2563eb'', ''#60a5fa''), tm_Assistant = (''#7c3aed'', ''#a78bfa''), tm_ToolName = (''#0891b2'', ''#22d3ee''),
     tm_ToolArg = (''#6b7280'', ''#9ca3af''), tm_Success = (''#16a34a'', ''#4ade80''), tm_Error = (''#dc2626'', ''#f87171''),
     tm_Accent = (''#2563eb'', ''#60a5fa''), tm_FocusDim = (''#94a3b8'', ''#64748b'')\<rparr>"

definition CodexTheme :: theme where
  "CodexTheme = \<lparr>tm_User = (''#16a34a'', ''#4ade80''), tm_Assistant = (''#16a34a'', ''#86efac''), tm_ToolName = (''#059669'', ''#34d399''),
     tm_ToolArg = (''#6b7280'', ''#9ca3af''), tm_Success = (''#16a34a'', ''#4ade80''), tm_Error = (''#dc2626'', ''#f87171''),
     tm_Accent = (''#16a34a'', ''#4ade80''), tm_FocusDim = (''#6b7280'', ''#4b5563'')\<rparr>"

definition theme_registry :: "(string, theme) gomap" where
  "theme_registry = [(''djinn'', DefaultTheme), (''claude'', ClaudeTheme), (''gemini'', GeminiTheme), (''codex'', CodexTheme)]"

definition RegisterTheme :: "string \<Rightarrow> theme \<Rightarrow> (string, theme) gomap \<Rightarrow> (string, theme) gomap" where "RegisterTheme name t reg = mset_at reg name t"

definition ThemeByName :: "(string, theme) gomap \<Rightarrow> string \<Rightarrow> theme" where
  "ThemeByName reg name = (case map_of reg name of Some t \<Rightarrow> t | None \<Rightarrow> DefaultTheme)"

definition ThemeNames :: "(string, theme) gomap \<Rightarrow> string list" where "ThemeNames reg = keys reg"

record token_set =
  tk_UserFg :: adaptive_color
  tk_AssistantFg :: adaptive_color
  tk_ToolNameFg :: adaptive_color
  tk_ToolArgFg :: adaptive_color
  tk_SuccessFg :: adaptive_color
  tk_ErrorFg :: adaptive_color
  tk_WarningFg :: adaptive_color
  tk_AccentFg :: adaptive_color
  tk_FocusDimFg :: adaptive_color
  tk_DiffAddFg :: adaptive_color
  tk_DiffDelFg :: adaptive_color
  tk_DiffHeaderFg :: adaptive_color
  tk_HealthGreenFg :: adaptive_color
  tk_HealthYellowFg :: adaptive_color
  tk_HealthRedFg :: adaptive_color
  tk_ZoneColdFg :: adaptive_color
  tk_ZoneFocusedFg :: adaptive_color

definition TokensFromTheme :: "theme \<Rightarrow> token_set" where
  "TokensFromTheme t =
     \<lparr>tk_UserFg = tm_User t, tk_AssistantFg = tm_Assistant t, tk_ToolNameFg = tm_ToolName t, tk_ToolArgFg = tm_ToolArg t,
      tk_SuccessFg = tm_Success t, tk_ErrorFg = tm_Error t, tk_WarningFg = tm_ToolName t, tk_AccentFg = tm_Accent t, tk_FocusDimFg = tm_FocusDim t,
      tk_DiffAddFg = tm_Success t, tk_DiffDelFg = tm_Error t, tk_DiffHeaderFg = (''#005f60'', ''#a2d9d9''),
      tk_HealthGreenFg = tm_Success t, tk_HealthYellowFg = tm_ToolName t, tk_HealthRedFg = tm_Error t,
      tk_ZoneColdFg = tm_Assistant t, tk_ZoneFocusedFg = (''#3e8635'', ''#5ba352'')\<rparr>"

lemma theme_last_registered: "ThemeByName (RegisterTheme n t reg) m = (if m = n then t else ThemeByName reg m)"
  by (simp add: ThemeByName_def RegisterTheme_def)

end
