(* ===== verification/Tui_Input.thy ===== *)
theory Tui_Input
  imports Tui_Widgets
begin

text \<open>
  The input of the terminal (\<^verbatim>\<open>tui/widgets/input.go\<close>): the history of prompts, the prediction from it and the completion of commands.
  The text area is of another module: its operations are an argument.
\<close>

subsection \<open>State\<close>

record ('t, 'm) textarea_lib =
  tl_Value :: "'t \<Rightarrow> string"
  tl_SetValue :: "string \<Rightarrow> 't \<Rightarrow> 't"
  tl_Reset :: "'t \<Rightarrow> 't"
  tl_Focus :: "bool \<Rightarrow> 't \<Rightarrow> 't"
  tl_SetWidth :: "int \<Rightarrow> 't \<Rightarrow> 't"
  tl_SetHeight :: "int \<Rightarrow> 't \<Rightarrow> 't"
  tl_SetPlaceholder :: "string \<Rightarrow> 't \<Rightarrow> 't"
  tl_Update :: "'m \<Rightarrow> 't \<Rightarrow> 't"
  tl_View :: "'t \<Rightarrow> string"

record 't input_panel =
  ip_base :: base_panel
  ip_text :: 't
  ip_history :: "string list"
  ip_histIdx :: int
  ip_visible :: bool
  ip_completions :: "string list"
  ip_matches :: "string list"
  ip_compPrefix :: string
  ip_compIdx :: int
  ip_lastCompletion :: string
  ip_prediction :: string
  ip_sandboxed :: bool

definition NewInputPanel :: "'t \<Rightarrow> 't input_panel" where
  "NewInputPanel ta =
     \<lparr>ip_base = NewBasePanel ''input'' 1, ip_text = ta, ip_history = [], ip_histIdx = - 1, ip_visible = True, ip_completions = [], ip_matches = [],
      ip_compPrefix = [], ip_compIdx = - 1, ip_lastCompletion = [], ip_prediction = [], ip_sandboxed = False\<rparr>"

definition ip_set :: "('t, 'm) textarea_lib \<Rightarrow> string \<Rightarrow> 't input_panel \<Rightarrow> 't input_panel" where
  "ip_set lib s p = p\<lparr>ip_text := tl_SetValue lib s (ip_text p)\<rparr>"

definition ip_reset :: "('t, 'm) textarea_lib \<Rightarrow> 't input_panel \<Rightarrow> 't input_panel" where
  "ip_reset lib p = p\<lparr>ip_text := tl_Reset lib (ip_text p)\<rparr>"

abbreviation ip_value :: "('t, 'm) textarea_lib \<Rightarrow> 't input_panel \<Rightarrow> string" where "ip_value lib p \<equiv> tl_Value lib (ip_text p)"

subsection \<open>History\<close>

definition AddHistory :: "string \<Rightarrow> 't input_panel \<Rightarrow> 't input_panel" where
  "AddHistory s p = p\<lparr>ip_history := ip_history p @ [s], ip_histIdx := - 1\<rparr>"

definition HistoryUp :: "('t, 'm) textarea_lib \<Rightarrow> 't input_panel \<Rightarrow> 't input_panel" where
  "HistoryUp lib p =
     (if length (ip_history p) = 0 then p
      else let i = (if ip_histIdx p = - 1 then int (length (ip_history p)) - 1 else if ip_histIdx p > 0 then ip_histIdx p - 1 else ip_histIdx p)
        in ip_set lib (ip_history p ! nat i) (p\<lparr>ip_histIdx := i\<rparr>))"

definition HistoryDown :: "('t, 'm) textarea_lib \<Rightarrow> 't input_panel \<Rightarrow> 't input_panel" where
  "HistoryDown lib p =
     (if ip_histIdx p < 0 then p
      else let i = ip_histIdx p + 1
        in if i \<ge> int (length (ip_history p)) then ip_set lib [] (p\<lparr>ip_histIdx := - 1\<rparr>)
           else ip_set lib (ip_history p ! nat i) (p\<lparr>ip_histIdx := i\<rparr>))"

subsection \<open>Prediction\<close>

definition predict :: "string list \<Rightarrow> string \<Rightarrow> string" where
  "predict history val =
     (if val = [] \<or> has_prefix val ''/'' then []
      else case find (\<lambda>h. has_prefix h val \<and> h \<noteq> val) (rev history) of Some h \<Rightarrow> h | None \<Rightarrow> [])"

definition updatePrediction :: "('t, 'm) textarea_lib \<Rightarrow> 't input_panel \<Rightarrow> 't input_panel" where
  "updatePrediction lib p = p\<lparr>ip_prediction := predict (ip_history p) (ip_value lib p)\<rparr>"

definition AcceptPrediction :: "('t, 'm) textarea_lib \<Rightarrow> 't input_panel \<Rightarrow> 't input_panel \<times> bool" where
  "AcceptPrediction lib p =
     (if ip_prediction p = [] then (p, False) else ((ip_set lib (ip_prediction p) p)\<lparr>ip_prediction := []\<rparr>, True))"

subsection \<open>Completion\<close>

definition filterPrefix :: "string list \<Rightarrow> string \<Rightarrow> string list" where
  "filterPrefix names pre = filter (\<lambda>n. has_prefix n pre) names"

text \<open>The panel, whether the key was used, and the command that is submitted.\<close>

definition TabComplete :: "('t, 'm) textarea_lib \<Rightarrow> 't input_panel \<Rightarrow> 't input_panel \<times> bool \<times> string option" where
  "TabComplete lib p =
     (let val = ip_value lib p
      in if \<not> has_prefix val ''/'' then (p\<lparr>ip_compPrefix := [], ip_lastCompletion := []\<rparr>, False, None)
         else let p1 = (if val = ip_lastCompletion p \<and> ip_compPrefix p \<noteq> [] then p
                        else p\<lparr>ip_compPrefix := val, ip_compIdx := - 1, ip_matches := filterPrefix (ip_completions p) val\<rparr>)
           in if length (ip_matches p1) = 0 then (p1, True, None)
              else if length (ip_matches p1) = 1 \<and> ip_lastCompletion p1 = []
              then ((ip_reset lib p1)\<lparr>ip_compPrefix := [], ip_lastCompletion := []\<rparr>, True, Some (ip_matches p1 ! 0))
              else let i = (ip_compIdx p1 + 1) mod int (length (ip_matches p1)); c = ip_matches p1 ! nat i
                in ((ip_set lib c (p1\<lparr>ip_compIdx := i\<rparr>))\<lparr>ip_lastCompletion := c\<rparr>, True, None))"

subsection \<open>Messages\<close>

datatype 'm input_msg = InputSetValue string | InputReset | InputFocus | InputBlur | InputAddHistory string | InputSetCompletions "string list"
  | InputSetPlaceholder string | SandboxState bool | InputResize int int | InputKey tea_key 'm | InputOther 'm

definition input_SetFocus :: "('t, 'm) textarea_lib \<Rightarrow> bool \<Rightarrow> 't input_panel \<Rightarrow> 't input_panel" where
  "input_SetFocus lib f p = p\<lparr>ip_base := panel_SetFocus f (ip_base p), ip_text := tl_Focus lib f (ip_text p)\<rparr>"

definition input_pass :: "('t, 'm) textarea_lib \<Rightarrow> 'm \<Rightarrow> 't input_panel \<Rightarrow> 't input_panel" where
  "input_pass lib m p = (if \<not> bp_focused (ip_base p) then p else updatePrediction lib (p\<lparr>ip_text := tl_Update lib m (ip_text p)\<rparr>))"

text \<open>The new panel and the prompt that is submitted.\<close>

fun input_Update :: "('t, 'm) textarea_lib \<Rightarrow> 'm input_msg \<Rightarrow> 't input_panel \<Rightarrow> 't input_panel \<times> string option" where
  "input_Update lib (InputSetValue s) p = (ip_set lib s p, None)"
| "input_Update lib InputReset p = (ip_reset lib p, None)"
| "input_Update lib InputFocus p = (let p1 = input_SetFocus lib True p in (p1\<lparr>ip_text := tl_Focus lib True (ip_text p1)\<rparr>, None))"
| "input_Update lib InputBlur p = (let p1 = input_SetFocus lib False p in (p1\<lparr>ip_text := tl_Focus lib False (ip_text p1)\<rparr>, None))"
| "input_Update lib (InputAddHistory s) p = (AddHistory s p, None)"
| "input_Update lib (InputSetCompletions names) p = (p\<lparr>ip_completions := names\<rparr>, None)"
| "input_Update lib (InputSetPlaceholder s) p = (p\<lparr>ip_text := tl_SetPlaceholder lib s (ip_text p)\<rparr>, None)"
| "input_Update lib (SandboxState b) p = (p\<lparr>ip_sandboxed := b\<rparr>, None)"
| "input_Update lib (InputResize w h) p =
     (let t1 = (if w > 0 then tl_SetWidth lib w (ip_text p) else ip_text p) in (p\<lparr>ip_text := (if h > 0 then tl_SetHeight lib h t1 else t1)\<rparr>, None))"
| "input_Update lib (InputKey k m) p =
     (if \<not> bp_focused (ip_base p) then (p, None)
      else if k_Type k = KeyEnter \<and> \<not> k_Alt k
      then (let val = trim_space (ip_value lib p) in if val \<noteq> [] then (ip_reset lib p, Some val) else (p, None))
      else (input_pass lib m p, None))"
| "input_Update lib (InputOther m) p = (input_pass lib m p, None)"

definition input_View :: "('t, 'm) textarea_lib \<Rightarrow> styling \<Rightarrow> (string \<Rightarrow> int) \<Rightarrow> int \<Rightarrow> 't input_panel \<Rightarrow> 't input_panel \<times> string" where
  "input_View lib sty runes width p =
     (if \<not> ip_visible p then (p, [])
      else let prompt = (if ip_sandboxed p then ''[>] '' else LabelUser);
               p1 = (if width > 0 then p\<lparr>ip_text := tl_SetWidth lib (width - runes prompt) (ip_text p)\<rparr> else p);
               val = ip_value lib p1;
               ghost = (if ip_prediction p \<noteq> [] \<and> has_prefix (ip_prediction p) val \<and> drop (length val) (ip_prediction p) \<noteq> []
                        then sty DimStyle (drop (length val) (ip_prediction p)) else []);
               ms = filterPrefix (ip_completions p) val;
               hints = (if has_prefix val ''/'' \<and> length (ip_completions p) > 0 \<and> length ms > 0 \<and> \<not> (length ms = 1 \<and> ms ! 0 = val)
                        then nl @ sty DimStyle (str_join ms ''  '') else [])
           in (p1, sty UserStyle prompt @ tl_View lib (ip_text p1) @ ghost @ hints))"

subsection \<open>Facts\<close>

text \<open>What the code relies on of the text area: it holds the text it was given, and none after a reset.\<close>

definition keeps_text :: "('t, 'm) textarea_lib \<Rightarrow> bool" where
  "keeps_text lib \<longleftrightarrow> (\<forall>s t. tl_Value lib (tl_SetValue lib s t) = s) \<and> (\<forall>t. tl_Value lib (tl_Reset lib t) = [])"

definition hist_ok :: "'t input_panel \<Rightarrow> bool" where
  "hist_ok p \<longleftrightarrow> - 1 \<le> ip_histIdx p \<and> ip_histIdx p < int (length (ip_history p))"

lemma ip_set_simps [simp]: "ip_history (ip_set lib s p) = ip_history p" "ip_histIdx (ip_set lib s p) = ip_histIdx p" "ip_completions (ip_set lib s p) = ip_completions p"
  "ip_matches (ip_set lib s p) = ip_matches p" "ip_compIdx (ip_set lib s p) = ip_compIdx p" "ip_compPrefix (ip_set lib s p) = ip_compPrefix p"
  "ip_lastCompletion (ip_set lib s p) = ip_lastCompletion p" "ip_base (ip_set lib s p) = ip_base p" "ip_prediction (ip_set lib s p) = ip_prediction p"
  by (simp_all add: ip_set_def)

lemma ip_reset_simps [simp]: "ip_history (ip_reset lib p) = ip_history p" "ip_histIdx (ip_reset lib p) = ip_histIdx p" "ip_prediction (ip_reset lib p) = ip_prediction p"
  "ip_lastCompletion (ip_reset lib p) = ip_lastCompletion p"
  by (simp_all add: ip_reset_def)

lemma ip_value_set [simp]: "keeps_text lib \<Longrightarrow> ip_value lib (ip_set lib s p) = s" by (simp add: keeps_text_def ip_set_def)
lemma ip_value_reset [simp]: "keeps_text lib \<Longrightarrow> ip_value lib (ip_reset lib p) = []" by (simp add: keeps_text_def ip_reset_def)

lemma up_history [simp]: "ip_history (HistoryUp lib p) = ip_history p" by (simp add: HistoryUp_def Let_def)
lemma down_history [simp]: "ip_history (HistoryDown lib p) = ip_history p" by (simp add: HistoryDown_def Let_def)

lemma ups_history [simp]: "ip_history ((HistoryUp lib ^^ n) p) = ip_history p" by (induction n) simp_all
lemma downs_history [simp]: "ip_history ((HistoryDown lib ^^ n) p) = ip_history p" by (induction n) simp_all

text \<open>The place in the history counted from its end: 0 is the prompt being written.\<close>

definition hist_back :: "'t input_panel \<Rightarrow> int" where
  "hist_back p = (if ip_histIdx p = - 1 then 0 else int (length (ip_history p)) - ip_histIdx p)"

lemma hist_up: "hist_ok p \<Longrightarrow> hist_ok (HistoryUp lib p) \<and> hist_back (HistoryUp lib p) = min (hist_back p + 1) (int (length (ip_history p)))"
  by (cases "ip_history p") (auto simp: hist_ok_def hist_back_def HistoryUp_def Let_def)

lemma hist_down: "hist_ok p \<Longrightarrow> hist_ok (HistoryDown lib p) \<and> hist_back (HistoryDown lib p) = max (hist_back p - 1) 0"
  by (auto simp: hist_ok_def hist_back_def HistoryDown_def Let_def)

lemma hist_ups: "hist_ok p \<Longrightarrow> hist_ok ((HistoryUp lib ^^ n) p) \<and> hist_back ((HistoryUp lib ^^ n) p) = min (hist_back p + int n) (max (hist_back p) (int (length (ip_history p))))"
proof (induction n)
  case 0 then show ?case by simp
next
  case (Suc n)
  then have a: "hist_ok ((HistoryUp lib ^^ n) p)" "hist_back ((HistoryUp lib ^^ n) p) = min (hist_back p + int n) (max (hist_back p) (int (length (ip_history p))))" by auto
  have "hist_back p \<le> int (length (ip_history p))" using Suc.prems by (auto simp: hist_back_def hist_ok_def)
  then show ?case using hist_up [OF a(1), where lib = lib] a(2) by (auto simp: min_def max_def)
qed

lemma hist_downs: "hist_ok p \<Longrightarrow> hist_ok ((HistoryDown lib ^^ n) p) \<and> hist_back ((HistoryDown lib ^^ n) p) = max (hist_back p - int n) 0"
proof (induction n)
  case 0 then show ?case by (auto simp: hist_ok_def hist_back_def)
next
  case (Suc n)
  then have "hist_ok ((HistoryDown lib ^^ n) p)" "hist_back ((HistoryDown lib ^^ n) p) = max (hist_back p - int n) 0" by auto
  then show ?case using hist_down [where lib = lib] by (simp add: max_def)
qed

lemma up_value: "keeps_text lib \<Longrightarrow> hist_ok p \<Longrightarrow> ip_history p \<noteq> [] \<Longrightarrow>
    ip_value lib (HistoryUp lib p) = rev (ip_history p) ! nat (hist_back (HistoryUp lib p) - 1)"
proof -
  assume a: "keeps_text lib" "hist_ok p" "ip_history p \<noteq> []"
  have i: "0 \<le> ip_histIdx (HistoryUp lib p)" "ip_histIdx (HistoryUp lib p) < int (length (ip_history p))"
    using a(2,3) by (cases "ip_history p"; auto simp: HistoryUp_def Let_def hist_ok_def)+
  have v: "ip_value lib (HistoryUp lib p) = ip_history p ! nat (ip_histIdx (HistoryUp lib p))" using a(1,3) by (simp add: HistoryUp_def Let_def)
  have "length (ip_history p) - Suc (nat (hist_back (HistoryUp lib p) - 1)) = nat (ip_histIdx (HistoryUp lib p))"
    using i by (simp add: hist_back_def)
  moreover have "nat (hist_back (HistoryUp lib p) - 1) < length (ip_history p)" using i by (simp add: hist_back_def)
  ultimately show ?thesis using v by (simp add: rev_nth)
qed

text \<open>Once a completion is in the text, each further tab puts the next match there and comes round.\<close>

definition cycling :: "('t, 'm) textarea_lib \<Rightarrow> string list \<Rightarrow> nat \<Rightarrow> 't input_panel \<Rightarrow> bool" where
  "cycling lib ms i p \<longleftrightarrow> ip_matches p = ms \<and> ip_compIdx p = int i \<and> ip_value lib p = ms ! i \<and> ip_lastCompletion p = ms ! i \<and> ip_compPrefix p \<noteq> []"

lemma slash_prefix: "has_prefix m val \<Longrightarrow> has_prefix val ''/'' \<Longrightarrow> has_prefix m ''/''"
  by (cases val; cases m) (auto simp: has_prefix_def)

lemma matches_slash: "has_prefix val ''/'' \<Longrightarrow> m \<in> set (filterPrefix names val) \<Longrightarrow> has_prefix m ''/''"
  using slash_prefix by (auto simp: filterPrefix_def)

lemma tab_first:
  assumes "keeps_text lib" "has_prefix (ip_value lib p) ''/''" "ip_value lib p \<noteq> ip_lastCompletion p \<or> ip_compPrefix p = []"
    and "filterPrefix (ip_completions p) (ip_value lib p) = ms" "1 < length ms"
  shows "cycling lib ms 0 (fst (TabComplete lib p)) \<and> snd (TabComplete lib p) = (True, None)"
proof -
  have n: "ip_value lib p \<noteq> []" using assms(2) by (auto simp: has_prefix_def)
  have l: "length ms \<noteq> 1" "length ms \<noteq> 0" "ms \<noteq> []" using assms(5) by (cases ms; auto)+
  have o: "(- 1 + 1) mod int (length ms) = 0" by simp
  show ?thesis using assms(1-4) n l by (auto simp: TabComplete_def Let_def cycling_def)
qed

lemma tab_next:
  assumes "keeps_text lib" "cycling lib ms i p" "i < length ms" "1 < length ms" "\<forall>m \<in> set ms. has_prefix m ''/''"
  shows "cycling lib ms ((i + 1) mod length ms) (fst (TabComplete lib p)) \<and> snd (TabComplete lib p) = (True, None)"
proof -
  have v: "has_prefix (ms ! i) ''/''" using assms(3,5) by simp
  have l: "length ms \<noteq> 1" "length ms \<noteq> 0" "ms \<noteq> []" using assms(4) by (cases ms; auto)+
  have m: "nat ((1 + int i) mod int (length ms)) = Suc i mod length ms" by (metis nat_int of_nat_Suc zmod_int)
  have m2: "(1 + int i) mod int (length ms) = int (Suc i mod length ms)" by (simp add: zmod_int)
  show ?thesis using assms(1,2) v l m m2 by (auto simp: TabComplete_def Let_def cycling_def add.commute)
qed

lemma tabs_cycle:
  assumes "keeps_text lib" "cycling lib ms i p" "i < length ms" "1 < length ms" "\<forall>m \<in> set ms. has_prefix m ''/''"
  shows "cycling lib ms ((i + n) mod length ms) (((\<lambda>q. fst (TabComplete lib q)) ^^ n) p)"
proof (induction n)
  case 0 then show ?case using assms(2,3) by simp
next
  case (Suc n)
  have "(i + n) mod length ms < length ms" using assms(4) by (cases ms) auto
  from tab_next [OF assms(1) Suc this assms(4,5)] show ?case by (simp add: mod_Suc_eq)
qed

text \<open>A prompt that was sent leaves its prediction behind: it is shown on the empty line, and accepting it puts it there.\<close>

lemma prediction_outlives_submit:
  assumes "keeps_text lib" "bp_focused (ip_base p)" "k_Type k = KeyEnter" "\<not> k_Alt k" "trim_space (ip_value lib p) \<noteq> []"
  shows "ip_value lib (fst (input_Update lib (InputKey k m) p)) = [] \<and> ip_prediction (fst (input_Update lib (InputKey k m) p)) = ip_prediction p"
  using assms by (simp add: Let_def)

text \<open>After commands were cycled through, a prefix with a single match is no longer run at once.\<close>

lemma single_match_runs:
  "has_prefix (ip_value lib p) ''/'' \<Longrightarrow> ip_lastCompletion p = [] \<Longrightarrow> filterPrefix (ip_completions p) (ip_value lib p) = [c] \<Longrightarrow>
   snd (TabComplete lib p) = (True, Some c)"
  by (auto simp: TabComplete_def Let_def has_prefix_def)

lemma single_match_stale:
  "has_prefix (ip_value lib p) ''/'' \<Longrightarrow> ip_lastCompletion p \<noteq> [] \<Longrightarrow> ip_value lib p \<noteq> ip_lastCompletion p \<Longrightarrow>
   filterPrefix (ip_completions p) (ip_value lib p) = [c] \<Longrightarrow> snd (TabComplete lib p) = (True, None)"
  by (simp add: TabComplete_def Let_def)

end
