(* ===== verification/Tui_Plans.thy ===== *)
theory Tui_Plans
  imports Tui_Widgets Artifact_Properties
begin

text \<open>
  The view of the plan (\<^verbatim>\<open>tui/widgets/plan_panel.go\<close>): three levels over the graph of artifacts, and the graphs drawn from it
  (\<^verbatim>\<open>tui/render_graph.go\<close>, \<^verbatim>\<open>render_plan_adapter.go\<close>, \<^verbatim>\<open>render_api.go\<close>, \<^verbatim>\<open>render_renderer.go\<close>, \<^verbatim>\<open>render_mermaid.go\<close>). The panel reads the graph that
  the agents change meanwhile; a panel without a graph has none.
\<close>

subsection \<open>State and navigation\<close>

datatype plan_view = PlanViewOverview | PlanViewGoal | PlanViewSegment

record plan_panel =
  pp_base :: base_panel
  pp_view :: plan_view
  pp_cursor :: int
  pp_goalID :: string
  pp_segID :: string

definition NewPlanPanel :: plan_panel where
  "NewPlanPanel = \<lparr>pp_base = NewBasePanel ''plan'' 0, pp_view = PlanViewOverview, pp_cursor = 0, pp_goalID = [], pp_segID = []\<rparr>"

definition childArtifacts :: "'ann graph \<Rightarrow> string \<Rightarrow> 'ann artifact list" where
  "childArtifacts g parentID = filter (\<lambda>a. a_Parent a = parentID) (graph_list_sorted g)"

definition plan_items :: "'ann graph \<Rightarrow> plan_panel \<Rightarrow> 'ann artifact list" where
  "plan_items g p = (case pp_view p of PlanViewOverview \<Rightarrow> graph_list_sorted g | PlanViewGoal \<Rightarrow> childArtifacts g (pp_goalID p) | PlanViewSegment \<Rightarrow> [])"

text \<open>Without a graph the list is read all the same in the first two views, which panics.\<close>

definition itemCount :: "'ann graph option \<Rightarrow> plan_panel \<Rightarrow> int option" where
  "itemCount og p =
     (case pp_view p of
        PlanViewSegment \<Rightarrow> Some 0
      | _ \<Rightarrow> map_option (\<lambda>g. int (length (plan_items g p))) og)"

definition clampCursor :: "'ann graph option \<Rightarrow> plan_panel \<Rightarrow> plan_panel option" where
  "clampCursor og p = map_option (\<lambda>n. if n > 0 \<and> pp_cursor p \<ge> n then p\<lparr>pp_cursor := n - 1\<rparr> else p) (itemCount og p)"

definition plan_dive :: "'ann graph option \<Rightarrow> plan_panel \<Rightarrow> plan_panel option" where
  "plan_dive og p =
     (case pp_view p of
        PlanViewOverview \<Rightarrow>
          map_option (\<lambda>g. let all = graph_list_sorted g
            in if pp_cursor p < int (length all) then p\<lparr>pp_goalID := a_ID (all ! nat (pp_cursor p)), pp_view := PlanViewGoal, pp_cursor := 0\<rparr> else p) og
      | PlanViewGoal \<Rightarrow>
          map_option (\<lambda>g. let children = childArtifacts g (pp_goalID p)
            in if pp_cursor p < int (length children) then p\<lparr>pp_segID := a_ID (children ! nat (pp_cursor p)), pp_view := PlanViewSegment, pp_cursor := 0\<rparr> else p) og
      | PlanViewSegment \<Rightarrow> Some p)"

definition plan_climb :: "plan_panel \<Rightarrow> plan_panel" where
  "plan_climb p =
     (case pp_view p of
        PlanViewSegment \<Rightarrow> p\<lparr>pp_view := PlanViewGoal, pp_cursor := 0\<rparr>
      | PlanViewGoal \<Rightarrow> p\<lparr>pp_view := PlanViewOverview, pp_cursor := 0\<rparr>
      | PlanViewOverview \<Rightarrow> p)"

definition plan_Update :: "'ann graph option \<Rightarrow> tea_key \<Rightarrow> plan_panel \<Rightarrow> plan_panel option" where
  "plan_Update og k p =
     (if \<not> bp_focused (pp_base p) then Some p
      else if k_String k \<in> {''j'', ''down''} then clampCursor og (p\<lparr>pp_cursor := pp_cursor p + 1\<rparr>)
      else if k_String k \<in> {''k'', ''up''} then Some (if pp_cursor p > 0 then p\<lparr>pp_cursor := pp_cursor p - 1\<rparr> else p)
      else if k_String k = ''enter'' then plan_dive og p
      else if k_String k \<in> {''q'', ''esc''} then Some (plan_climb p)
      else if k_String k = ''tab'' then (if pp_view p = PlanViewOverview then clampCursor og (p\<lparr>pp_cursor := pp_cursor p + 1\<rparr>) else Some p)
      else Some p)"

subsection \<open>What the agent is told\<close>

definition plan_sight_of :: "string \<Rightarrow> 'ann artifact \<Rightarrow> cell_sight \<Rightarrow> cell_sight" where
  "plan_sight_of view a fc =
     fc\<lparr>cs_CellTitle := a_Title a, cs_Kind := a_Kind a,
        cs_Fields := [\<lparr>sg_Key = ''status'', sg_Value = a_Status a, sg_Sensitive = False\<rparr>, \<lparr>sg_Key = ''view'', sg_Value = view, sg_Sensitive = False\<rparr>]\<rparr>"

definition plan_CellSight :: "'ann graph option \<Rightarrow> plan_panel \<Rightarrow> cell_sight option" where
  "plan_CellSight og p =
     (let fc = \<lparr>cs_PanelID = bp_id (pp_base p), cs_CellID = [], cs_CellTitle = [], cs_Kind = [], cs_Fields = []\<rparr>
      in map_option (\<lambda>g.
           (case pp_view p of
              PlanViewOverview \<Rightarrow>
                (let all = graph_list_sorted g
                 in if pp_cursor p < int (length all)
                    then plan_sight_of ''overview'' (all ! nat (pp_cursor p)) (fc\<lparr>cs_CellID := a_ID (all ! nat (pp_cursor p))\<rparr>) else fc)
            | PlanViewGoal \<Rightarrow>
                (case graph_get g (pp_goalID p) of
                   Inr a \<Rightarrow> plan_sight_of ''goal'' a (fc\<lparr>cs_CellID := pp_goalID p\<rparr>) | Inl _ \<Rightarrow> fc\<lparr>cs_CellID := pp_goalID p\<rparr>)
            | PlanViewSegment \<Rightarrow>
                (case graph_get g (pp_segID p) of
                   Inr a \<Rightarrow> plan_sight_of ''segment'' a (fc\<lparr>cs_CellID := pp_segID p\<rparr>) | Inl _ \<Rightarrow> fc\<lparr>cs_CellID := pp_segID p\<rparr>))) og)"

subsection \<open>Data flow graphs\<close>

record flow_node =
  fn_ID :: string
  fn_Name :: string
  fn_Kind :: string
  fn_Package :: string
  fn_Signature :: string
  fn_Changed :: bool
  fn_PassThrough :: bool

record flow_edge =
  fe_From :: string
  fe_To :: string
  fe_Label :: string
  fe_Violation :: bool

record flow_graph =
  fg_Title :: string
  fg_Nodes :: "flow_node list"
  fg_Edges :: "flow_edge list"

definition NewFlowGraph :: "string \<Rightarrow> flow_graph" where "NewFlowGraph title = \<lparr>fg_Title = title, fg_Nodes = [], fg_Edges = []\<rparr>"
definition AddNode :: "flow_node \<Rightarrow> flow_graph \<Rightarrow> flow_graph" where "AddNode n g = g\<lparr>fg_Nodes := fg_Nodes g @ [n]\<rparr>"
definition AddEdge :: "flow_edge \<Rightarrow> flow_graph \<Rightarrow> flow_graph" where "AddEdge e g = g\<lparr>fg_Edges := fg_Edges g @ [e]\<rparr>"
definition NodeByID :: "string \<Rightarrow> flow_graph \<Rightarrow> flow_node option" where "NodeByID i g = find (\<lambda>n. fn_ID n = i) (fg_Nodes g)"
definition ChangedNodes :: "flow_graph \<Rightarrow> flow_node list" where "ChangedNodes g = filter fn_Changed (fg_Nodes g)"

definition artifact_node :: "'ann artifact \<Rightarrow> flow_node" where
  "artifact_node a =
     \<lparr>fn_ID = a_ID a, fn_Name = a_Title a, fn_Kind = ''package'', fn_Package = a_Kind a, fn_Signature = [],
      fn_Changed = (a_Status a = StatusInProgress \<or> a_Status a = StatusActive), fn_PassThrough = (a_Status a = StatusComplete \<or> a_Status a = StatusDone)\<rparr>"

definition artifact_edges :: "'ann artifact \<Rightarrow> flow_edge list" where
  "artifact_edges a = map (\<lambda>d. \<lparr>fe_From = d, fe_To = a_ID a, fe_Label = a_Status a, fe_Violation = False\<rparr>) (a_DependsOn a)"

definition ArtifactGraphToDataFlow :: "'ann graph \<Rightarrow> string \<Rightarrow> flow_graph" where
  "ArtifactGraphToDataFlow g title =
     (let all = graph_list_sorted g
      in fold AddEdge (concat (map artifact_edges all)) (fold AddNode (map artifact_node all) (NewFlowGraph title)))"

record tui_stop =
  ct_ID :: string
  ct_Name :: string
  ct_Package :: string
  ct_SignatureBefore :: string
  ct_SignatureAfter :: string
  ct_Changed :: bool
  ct_PassThrough :: bool
  ct_InputType :: string
  ct_OutputType :: string

definition stop_node :: "tui_stop \<Rightarrow> flow_node" where
  "stop_node s =
     \<lparr>fn_ID = ct_ID s, fn_Name = ct_Name s, fn_Kind = ''function'', fn_Package = ct_Package s,
      fn_Signature = (if ct_SignatureAfter s = [] then ct_SignatureBefore s else ct_SignatureAfter s), fn_Changed = ct_Changed s, fn_PassThrough = ct_PassThrough s\<rparr>"

fun add_stops :: "tui_stop option \<Rightarrow> tui_stop list \<Rightarrow> flow_graph \<Rightarrow> flow_graph" where
  "add_stops prev [] g = g"
| "add_stops prev (s # ss) g =
     add_stops (Some s) ss
       (let g1 = AddNode (stop_node s) g
        in case prev of None \<Rightarrow> g1 | Some q \<Rightarrow> AddEdge \<lparr>fe_From = ct_ID q, fe_To = ct_ID s, fe_Label = ct_InputType s, fe_Violation = False\<rparr> g1)"

definition CircuitToGraph :: "string \<Rightarrow> tui_stop list \<Rightarrow> flow_graph" where
  "CircuitToGraph title stops = add_stops None stops (NewFlowGraph title)"

end
