(* ===== verification/Tui_Plan_Views.thy ===== *)
theory Tui_Plan_Views
  imports Tui_Plans Tui_Charts
begin

text \<open>
  The three views of the plan as text, and the renderers of data flow graphs (\<^verbatim>\<open>tui/render_renderer.go\<close>, \<^verbatim>\<open>render_mermaid.go\<close>). Then the
  panel beside the graph that the agents change: keys and operations in any order, as a step relation, and what holds in every state.
\<close>

subsection \<open>Text of the views\<close>

text \<open>A verb with a width fills in characters, of which the bytes of a continuation are no part.\<close>

definition is_continuation :: "char \<Rightarrow> bool" where
  "is_continuation c \<longleftrightarrow> 128 \<le> (of_char c :: nat) \<and> (of_char c :: nat) < 192"

definition fmt_left :: "nat \<Rightarrow> string \<Rightarrow> string" where
  "fmt_left w s = s @ replicate (w - length (filter (\<lambda>c. \<not> is_continuation c) s)) (CHR '' '')"

definition statusGlyph :: "styling \<Rightarrow> status \<Rightarrow> string" where
  "statusGlyph sty s =
     (if s = StatusComplete \<or> s = StatusDone then sty ToolSuccessStyle u_hex
      else if s = StatusInProgress \<or> s = StatusActive then sty ToolNameStyle u_hexlight
      else if s = StatusClaimed then sty ToolNameStyle spinner_first
      else if s = StatusInvalidated then sty ErrorStyle glyph_dot
      else sty DimStyle u_ring)"

definition u_arrow :: string where "u_arrow = [CHR 0xE2, CHR 0x86, CHR 0x92]"
definition u_up :: string where "u_up = [CHR 0xE2, CHR 0x96, CHR 0xB2]"

definition renderDepChain :: "styling \<Rightarrow> 'ann artifact list \<Rightarrow> string" where
  "renderDepChain sty all = ''  '' @ sty DimStyle (str_join (map a_ID all) ('' '' @ u_rule @ u_rule @ u_arrow @ '' '')) @ nl"

definition orDash :: "string \<Rightarrow> string" where "orDash s = (if s = [] then u_dash else s)"

definition truncate_text :: "string \<Rightarrow> nat \<Rightarrow> string" where
  "truncate_text s limit = (if length s \<le> limit then s else take (limit - 3) s @ ''...'')"

definition plan_done :: "'ann artifact list \<Rightarrow> nat" where
  "plan_done all = length (filter (\<lambda>a. a_Status a = StatusComplete \<or> a_Status a = StatusDone) all)"

definition plan_prefix :: "plan_panel \<Rightarrow> nat \<Rightarrow> string" where
  "plan_prefix p i = (if int i = pp_cursor p then glyph_cursor @ '' '' else ''  '')"

definition overview_line :: "styling \<Rightarrow> plan_panel \<Rightarrow> nat \<times> 'ann artifact \<Rightarrow> string" where
  "overview_line sty p = (\<lambda>(i, a).
     plan_prefix p i @ statusGlyph sty (a_Status a) @ '' '' @ fmt_left 40 (truncate_text (a_Title a) 40) @ '' '' @ sty DimStyle (a_Status a) @ nl)"

definition renderOverview :: "styling \<Rightarrow> 'ann graph \<Rightarrow> plan_panel \<Rightarrow> string" where
  "renderOverview sty g p =
     (let all = graph_list_sorted g
      in if length all = 0 then sty DimStyle ''Empty plan''
         else ''  '' @ nat_dec (plan_done all) @ ''/'' @ nat_dec (length all) @ '' segments  '' @ nat_dec (plan_done all * 100 div length all) @ ''%'' @ nl @ nl @
           concat (map (overview_line sty p) (enumerate 0 all)) @
           (if length (fg_Edges (ArtifactGraphToDataFlow g [])) > 0 then nl @ renderDepChain sty all else []) @
           nl @ Hint sty [''j/k navigate'', ''enter drill'', ''q back''])"

text \<open>The directories and symbols of an artifact are types of another module, and so are annotations: arguments.\<close>

record 'ann plan_parts =
  pt_Directories :: "'ann artifact \<Rightarrow> string list"
  pt_Symbols :: "'ann artifact \<Rightarrow> string list"
  pt_note :: "'ann \<Rightarrow> string \<times> string"
  pt_tree :: "tree_node \<Rightarrow> string"

definition child_line :: "styling \<Rightarrow> 'ann plan_parts \<Rightarrow> plan_panel \<Rightarrow> nat \<times> 'ann artifact \<Rightarrow> string" where
  "child_line sty pt p = (\<lambda>(i, c).
     let files = length (a_Files c) + length (pt_Directories pt c)
     in plan_prefix p i @ statusGlyph sty (a_Status c) @ '' '' @ fmt_left 6 (a_ID c) @ '' '' @ a_Title c @
        (if files > 0 then sty DimStyle ('' ('' @ nat_dec files @ '' files)'') else []) @ nl)"

definition renderGoalDetail :: "styling \<Rightarrow> 'ann plan_parts \<Rightarrow> 'ann graph \<Rightarrow> plan_panel \<Rightarrow> string" where
  "renderGoalDetail sty pt g p =
     (case graph_get g (pp_goalID p) of
        Inl _ \<Rightarrow> sty DimStyle (''Goal not found: '' @ pp_goalID p)
      | Inr a \<Rightarrow>
          ''  '' @ statusGlyph sty (a_Status a) @ '' '' @ a_Title a @ nl @
          ''  Status: '' @ a_Status a @ ''  Owner: '' @ orDash (a_Owner a) @ nl @ nl @
          concat (map (child_line sty pt p) (enumerate 0 (childArtifacts g (pp_goalID p)))) @
          (if length (a_DependsOn a) > 0 then nl @ ''  '' @ u_up @ '' depends: '' @ sty DimStyle (str_join (a_DependsOn a) '', '') @ nl else []) @
          (if a_Content a \<noteq> [] then nl @ sty DimStyle (''  '' @ truncate_text (a_Content a) 200) @ nl else []) @
          nl @ Hint sty [''j/k navigate'', ''enter drill'', ''q overview''])"

definition buildComponentTree :: "'ann plan_parts \<Rightarrow> 'ann artifact \<Rightarrow> string" where
  "buildComponentTree pt a =
     pt_tree pt (TreeNode ''Components''
       (map (\<lambda>d. TreeNode ([CHR 0xF0, CHR 0x9F, CHR 0x93, CHR 0x81] @ '' '' @ d) []) (pt_Directories pt a) @
        map (\<lambda>f. TreeNode ([CHR 0xF0, CHR 0x9F, CHR 0x93, CHR 0x84] @ '' '' @ f) []) (a_Files a) @
        map (\<lambda>s. TreeNode ([CHR 0xCE, CHR 0xBB] @ '' '' @ s) []) (pt_Symbols pt a)))"

definition segment_components :: "styling \<Rightarrow> (string \<Rightarrow> string \<Rightarrow> string option) \<Rightarrow> render_codec \<Rightarrow> 'ann plan_parts \<Rightarrow> int \<Rightarrow> 'ann artifact \<Rightarrow> string option" where
  "segment_components sty hl c pt width a =
     (if length (a_Files a) > 0 \<or> length (pt_Directories pt a) > 0
      then map_option (\<lambda>r. r @ nl) (RenderPanel sty hl c \<lparr>rm_Type = ''tree'', rm_Title = ''Components'', rm_Data = buildComponentTree pt a\<rparr> width)
      else Some [])"

definition segment_sections :: "styling \<Rightarrow> 'ann artifact \<Rightarrow> string" where
  "segment_sections sty a =
     concat (map (\<lambda>(name, text). if name = ''content'' then [] else nl @ ''  '' @ sty ToolNameStyle name @ '':'' @ nl @ ''  '' @ truncate_text text 300 @ nl)
       (case a_Sections a of None \<Rightarrow> [] | Some m \<Rightarrow> m))"

definition segment_rest :: "styling \<Rightarrow> 'ann plan_parts \<Rightarrow> 'ann artifact \<Rightarrow> string" where
  "segment_rest sty pt a =
     (if a_Content a \<noteq> [] then ''  Content:'' @ nl @ concat (map (\<lambda>l. ''  '' @ l @ nl) (str_split (a_Content a) (CHR 0x0A))) else []) @
     segment_sections sty a @
     (if length (a_DependsOn a) > 0 then nl @ ''  '' @ u_up @ '' depends: '' @ sty DimStyle (str_join (a_DependsOn a) '', '') @ nl else []) @
     (if length (a_Annotations a) > 0
      then nl @ ''  Annotations:'' @ nl @ concat (map (\<lambda>x. ''    '' @ fst (pt_note pt x) @ '' '' @ snd (pt_note pt x) @ nl) (a_Annotations a)) else []) @
     nl @ Hint sty [''q back'', '':claim'', '':+ :- :~ annotate'']"

definition renderSegmentDetail :: "styling \<Rightarrow> (string \<Rightarrow> string \<Rightarrow> string option) \<Rightarrow> render_codec \<Rightarrow> 'ann plan_parts \<Rightarrow> int \<Rightarrow> 'ann graph \<Rightarrow> plan_panel \<Rightarrow> string option" where
  "renderSegmentDetail sty hl c pt width g p =
     (case graph_get g (pp_segID p) of
        Inl _ \<Rightarrow> Some (sty DimStyle (''Segment not found: '' @ pp_segID p))
      | Inr a \<Rightarrow>
          map_option (\<lambda>comps. ''  '' @ statusGlyph sty (a_Status a) @ '' '' @ a_Title a @ nl @
              ''  ID: '' @ a_ID a @ ''  Status: '' @ a_Status a @ ''  Owner: '' @ orDash (a_Owner a) @ nl @ nl @ comps @ segment_rest sty pt a)
            (segment_components sty hl c pt width a))"

definition plan_View :: "styling \<Rightarrow> (string \<Rightarrow> string \<Rightarrow> string option) \<Rightarrow> render_codec \<Rightarrow> 'ann plan_parts \<Rightarrow> int \<Rightarrow> 'ann graph option \<Rightarrow> plan_panel \<Rightarrow> string option" where
  "plan_View sty hl c pt width og p =
     (case og of
        None \<Rightarrow> Some (sty DimStyle ''No plan loaded'')
      | Some g \<Rightarrow>
          (case pp_view p of
             PlanViewOverview \<Rightarrow> Some (renderOverview sty g p)
           | PlanViewGoal \<Rightarrow> Some (renderGoalDetail sty pt g p)
           | PlanViewSegment \<Rightarrow> renderSegmentDetail sty hl c pt width g p))"

subsection \<open>Renderers of graphs\<close>

record render_opts =
  ro_Width :: int
  ro_Highlight :: bool
  ro_CollapseAt :: int

definition formatNode :: "render_opts \<Rightarrow> flow_node \<Rightarrow> string" where
  "formatNode opts n =
     (if fn_Changed n \<and> ro_Highlight opts then glyph_dot @ '' '' else if fn_PassThrough n then u_ring @ '' '' else ''  '') @
     (if fn_Package n \<noteq> [] then fn_Package n @ ''.'' @ fn_Name n else fn_Name n) @
     (if fn_Signature n \<noteq> [] then '' '' @ u_dash @ '' '' @ fn_Signature n else [])"

definition edge_text :: "flow_edge \<Rightarrow> string" where
  "edge_text e =
     (if fe_Violation e then ''  '' @ [CHR 0xE2, CHR 0x9A, CHR 0xA0] @ u_arrow @ '' '' else ''  '' @ u_arrow @ '' '') @ fe_To e @
     (if fe_Label e \<noteq> [] then '' ('' @ fe_Label e @ '')'' else []) @ nl"

definition node_block :: "flow_graph \<Rightarrow> render_opts \<Rightarrow> flow_node \<Rightarrow> string" where
  "node_block g opts n = formatNode opts n @ nl @ concat (map edge_text (filter (\<lambda>e. fe_From e = fn_ID n) (fg_Edges g)))"

definition node_limit :: "flow_graph \<Rightarrow> render_opts \<Rightarrow> nat" where
  "node_limit g opts = (if ro_CollapseAt opts > 0 \<and> int (length (fg_Nodes g)) > ro_CollapseAt opts then nat (ro_CollapseAt opts) else length (fg_Nodes g))"

definition render_tui :: "flow_graph option \<Rightarrow> render_opts \<Rightarrow> string" where
  "render_tui og opts =
     (case og of
        None \<Rightarrow> []
      | Some g \<Rightarrow>
          if length (fg_Nodes g) = 0 then []
          else (if fg_Title g \<noteq> [] then [CHR 0xE2, CHR 0x95, CHR 0xAD] @ u_rule @ '' '' @ fg_Title g @ '' '' @ u_rule @ [CHR 0xE2, CHR 0x95, CHR 0xAE] @ nl else []) @
            concat (map (node_block g opts) (take (node_limit g opts) (fg_Nodes g))) @
            (let collapsed = length (fg_Nodes g) - node_limit g opts in if collapsed > 0 then ''  ... and '' @ nat_dec collapsed @ '' more nodes'' @ nl else []))"

definition quote_mark :: string where "quote_mark = [CHR 0x22]"

definition mermaid_node :: "flow_node \<Rightarrow> string" where
  "mermaid_node n =
     ''    '' @ fn_ID n @ ''['' @ quote_mark @ fn_Name n @ (if fn_Signature n \<noteq> [] then ''<br/>'' @ fn_Signature n else []) @ quote_mark @ '']'' @
     (if fn_Changed n then '':::changed'' else if fn_PassThrough n then '':::passthrough'' else []) @ nl"

definition mermaid_edge :: "flow_edge \<Rightarrow> string" where
  "mermaid_edge e =
     (let arrow = (if fe_Violation e then '' -.-> '' else '' --> '')
      in if fe_Label e \<noteq> [] then ''    '' @ fe_From e @ arrow @ ''|'' @ quote_mark @ fe_Label e @ quote_mark @ ''| '' @ fe_To e @ nl
         else ''    '' @ fe_From e @ arrow @ fe_To e @ nl)"

definition render_mermaid :: "flow_graph option \<Rightarrow> string" where
  "render_mermaid og =
     (case og of
        None \<Rightarrow> []
      | Some g \<Rightarrow>
          if length (fg_Nodes g) = 0 then []
          else ''graph TD'' @ nl @
            ''    classDef changed fill:#f9a8a8,stroke:#ee0000,color:#3f0000'' @ nl @
            ''    classDef passthrough fill:#f2f2f2,stroke:#c7c7c7,color:#707070'' @ nl @
            concat (map mermaid_node (fg_Nodes g)) @ concat (map mermaid_edge (fg_Edges g)))"

text \<open>A label with a quotation mark ends the label of the diagram early; nothing is escaped.\<close>

lemma mermaid_unescaped:
  "mermaid_node \<lparr>fn_ID = ''n'', fn_Name = ''a'' @ quote_mark @ ''b'', fn_Kind = [], fn_Package = [], fn_Signature = [], fn_Changed = False, fn_PassThrough = False\<rparr> =
   ''    n['' @ quote_mark @ ''a'' @ quote_mark @ ''b'' @ quote_mark @ '']'' @ nl"
  by (simp add: mermaid_node_def)

subsection \<open>The panel beside the graph\<close>

inductive plan_step :: "(string list \<Rightarrow> string list \<Rightarrow> string list) \<Rightarrow> 'ann graph \<times> plan_panel \<Rightarrow> 'ann graph \<times> plan_panel \<Rightarrow> bool"
  for ord :: "string list \<Rightarrow> string list \<Rightarrow> string list" where
  plan_key: "plan_Update (Some g) k p = Some p' \<Longrightarrow> plan_step ord (g, p) (g, p')"
| plan_focus: "plan_step ord (g, p) (g, p\<lparr>pp_base := panel_SetFocus f (pp_base p)\<rparr>)"
| plan_change: "plan_step ord (g, p) (fst (apply_op ord now g x), p)"

inductive_cases plan_stepE: "plan_step ord (g, p) s"

inductive plan_reach :: "(string list \<Rightarrow> string list \<Rightarrow> string list) \<Rightarrow> 'ann graph \<times> plan_panel \<Rightarrow> 'ann graph \<times> plan_panel \<Rightarrow> bool"
  for ord :: "string list \<Rightarrow> string list \<Rightarrow> string list" where
  plan_reach_refl: "plan_reach ord s s"
| plan_reach_step: "plan_reach ord s t \<Longrightarrow> plan_step ord t u \<Longrightarrow> plan_reach ord s u"

definition known :: "'ann graph \<Rightarrow> string \<Rightarrow> bool" where "known g i \<longleftrightarrow> i \<in> dom (map_of (g_items g))"

definition plan_ok :: "'ann graph \<times> plan_panel \<Rightarrow> bool" where
  "plan_ok s = (case s of (g, p) \<Rightarrow> wf_graph g \<and> 0 \<le> pp_cursor p
     \<and> (pp_view p \<noteq> PlanViewOverview \<longrightarrow> known g (pp_goalID p)) \<and> (pp_view p = PlanViewSegment \<longrightarrow> known g (pp_segID p)))"

definition plan_on_item :: "'ann graph \<times> plan_panel \<Rightarrow> bool" where
  "plan_on_item s = (case s of (g, p) \<Rightarrow> g_items g \<noteq> [] \<and> (pp_view p = PlanViewOverview \<longrightarrow> pp_cursor p < int (length (graph_list_sorted g))))"

lemma sorted_members: "keyed (g_items g) \<Longrightarrow> a \<in> set (graph_list_sorted g) \<longleftrightarrow> map_of (g_items g) (a_ID a) = Some a"
proof -
  assume k: "keyed (g_items g)"
  have d: "distinct (map fst (g_items g))" using k by (simp add: keyed_def)
  show ?thesis
  proof
    assume "a \<in> set (graph_list_sorted g)"
    then obtain i where "(i, a) \<in> set (g_items g)" by (auto simp: graph_list_sorted_def)
    then have "map_of (g_items g) i = Some a" using d by simp
    then show "map_of (g_items g) (a_ID a) = Some a" using keyed_lookup [OF k] by metis
  next
    assume "map_of (g_items g) (a_ID a) = Some a"
    then show "a \<in> set (graph_list_sorted g)" by (auto simp: graph_list_sorted_def dest!: map_of_SomeD intro: image_eqI [rotated])
  qed
qed

lemma list_sorted_length [simp]: "length (graph_list_sorted g) = length (g_items g)" by (simp add: graph_list_sorted_def)

lemma listed_known: "keyed (g_items g) \<Longrightarrow> i < length (graph_list_sorted g) \<Longrightarrow> known g (a_ID (graph_list_sorted g ! i))"
  using sorted_members nth_mem unfolding known_def by blast

lemma children_known: "keyed (g_items g) \<Longrightarrow> i < length (childArtifacts g q) \<Longrightarrow> known g (a_ID (childArtifacts g q ! i))"
proof -
  assume k: "keyed (g_items g)" and i: "i < length (childArtifacts g q)"
  have "childArtifacts g q ! i \<in> set (graph_list_sorted g)" using nth_mem [OF i] by (simp add: childArtifacts_def)
  then show ?thesis using sorted_members [OF k] by (auto simp: known_def)
qed

lemma op_keeps:
  assumes "wf_graph g" "is_order ord"
  shows "dom (map_of (g_items g)) \<subseteq> dom (map_of (g_items (fst (apply_op ord now g x)))) \<and> length (g_items g) \<le> length (g_items (fst (apply_op ord now g x)))"
  using apply_op_cases [OF assms, of now x]
proof
  assume "snd (apply_op ord now g x) = None \<and> items_change g (fst (apply_op ord now g x))"
  then have k: "keys (g_items (fst (apply_op ord now g x))) = keys (g_items g)" by (simp add: items_change_def)
  from arg_cong [OF k, of length] have "length (g_items (fst (apply_op ord now g x))) = length (g_items g)" by simp
  moreover from arg_cong [OF k, of set] have "dom (map_of (g_items (fst (apply_op ord now g x)))) = dom (map_of (g_items g))" by (simp add: dom_map_of_conv_image_fst)
  ultimately show ?thesis by simp
next
  assume "\<exists>a i g'. apply_op ord now g x = (g', Some i) \<and> graph_add now g a = Inr (i, g') \<and>
     (\<forall>c. x = OpAdd c \<longrightarrow> a_ID a = a_ID c \<and> a_Kind a = a_Kind c) \<and> (\<forall>p c. x = OpInject p c \<longrightarrow> a_ID a = a_ID c \<and> a_Kind a = a_Kind c)"
  then obtain a i g' where r: "apply_op ord now g x = (g', Some i)" "graph_add now g a = Inr (i, g')" by blast
  obtain m v where m: "g_items g' = mset_at (g_items g) m v"
    using r(2) by (auto simp: graph_add_def Let_def generate_id_def split: option.splits prod.splits if_splits)
  have "length (g_items g) \<le> length (mset_at (g_items g) m v)" using arg_cong [OF keys_mset_at [where m = "g_items g" and k = m and v = v], of length] by (auto split: if_splits)
  then show ?thesis using r(1) m by auto
qed

lemma plan_clamp: "0 \<le> pp_cursor p \<Longrightarrow> clampCursor (Some g) p = Some q \<Longrightarrow>
    q = p\<lparr>pp_cursor := pp_cursor q\<rparr> \<and> 0 \<le> pp_cursor q \<and> (pp_view p = PlanViewOverview \<and> g_items g \<noteq> [] \<longrightarrow> pp_cursor q < int (length (g_items g)))"
  by (auto simp: clampCursor_def itemCount_def plan_items_def split: plan_view.splits if_splits)

lemma key_keeps:
  assumes u: "plan_Update (Some g) k p = Some p'" and ok: "plan_ok (g, p)"
  shows "plan_ok (g, p') \<and> (plan_on_item (g, p) \<longrightarrow> plan_on_item (g, p'))"
proof -
  have kd: "keyed (g_items g)" using ok by (simp add: plan_ok_def wf_graph_def)
  have dive: "plan_ok (g, q) \<and> (plan_on_item (g, p) \<longrightarrow> plan_on_item (g, q))" if "plan_dive (Some g) p = Some q" for q
    using that ok listed_known [OF kd, of "nat (pp_cursor p)"] children_known [OF kd, of "nat (pp_cursor p)" "pp_goalID p"]
    by (auto simp: plan_dive_def plan_ok_def plan_on_item_def Let_def split: plan_view.splits if_splits)
  have climb: "plan_ok (g, plan_climb p) \<and> (plan_on_item (g, p) \<longrightarrow> plan_on_item (g, plan_climb p))"
    using ok by (auto simp: plan_climb_def plan_ok_def plan_on_item_def split: plan_view.splits)
  have clamp: "plan_ok (g, q) \<and> (plan_on_item (g, p) \<longrightarrow> plan_on_item (g, q))" if "clampCursor (Some g) (p\<lparr>pp_cursor := pp_cursor p + 1\<rparr>) = Some q" for q
  proof -
    have "q = p\<lparr>pp_cursor := pp_cursor q\<rparr>" "0 \<le> pp_cursor q" "pp_view p = PlanViewOverview \<and> g_items g \<noteq> [] \<longrightarrow> pp_cursor q < int (length (g_items g))"
      using plan_clamp [OF _ that] ok by (auto simp: plan_ok_def)
    then show ?thesis using ok by (cases q; cases p) (auto simp: plan_ok_def plan_on_item_def)
  qed
  have up: "plan_ok (g, p\<lparr>pp_cursor := pp_cursor p - 1\<rparr>) \<and> (plan_on_item (g, p) \<longrightarrow> plan_on_item (g, p\<lparr>pp_cursor := pp_cursor p - 1\<rparr>))" if "pp_cursor p > 0"
    using that ok by (auto simp: plan_ok_def plan_on_item_def)
  have "p' = p \<or> clampCursor (Some g) (p\<lparr>pp_cursor := pp_cursor p + 1\<rparr>) = Some p' \<or> pp_cursor p > 0 \<and> p' = p\<lparr>pp_cursor := pp_cursor p - 1\<rparr>
      \<or> plan_dive (Some g) p = Some p' \<or> p' = plan_climb p"
    using u unfolding plan_Update_def by (simp split: if_split_asm)
  then show ?thesis using ok dive climb clamp up by (elim disjE) simp_all
qed

lemma step_keeps: "plan_step ord s t \<Longrightarrow> is_order ord \<Longrightarrow> plan_ok s \<Longrightarrow> plan_ok t \<and> (plan_on_item s \<longrightarrow> plan_on_item t)"
proof (induction rule: plan_step.induct)
  case (plan_key g k p p')
  then show ?case using key_keeps by blast
next
  case (plan_focus g p f)
  then show ?case by (simp add: plan_ok_def plan_on_item_def)
next
  case (plan_change g p now x)
  have w: "wf_graph g" using plan_change by (simp add: plan_ok_def)
  show ?case using plan_change op_keeps [OF w plan_change(1), of now x] wf_apply_op [OF w plan_change(1), of now x]
    by (auto simp: plan_ok_def plan_on_item_def known_def)
qed

lemma reach_keeps: "plan_reach ord s t \<Longrightarrow> is_order ord \<Longrightarrow> plan_ok s \<Longrightarrow> plan_ok t \<and> (plan_on_item s \<longrightarrow> plan_on_item t)"
  by (induction rule: plan_reach.induct) (auto dest: step_keeps)

text \<open>In any such state the panel shows and tells of artifacts that are in the graph.\<close>

lemma sight_grounded:
  assumes "plan_ok (g, p)"
  shows "\<exists>s. plan_CellSight (Some g) p = Some s \<and> (cs_CellID s = [] \<and> cs_Fields s = [] \<and> pp_view p = PlanViewOverview \<and> int (length (g_items g)) \<le> pp_cursor p
    \<or> (\<exists>a v. graph_get g (cs_CellID s) = Inr a \<and> a_ID a = cs_CellID s \<and> cs_CellTitle s = a_Title a \<and> cs_Kind s = a_Kind a \<and>
          cs_Fields s = [\<lparr>sg_Key = ''status'', sg_Value = a_Status a, sg_Sensitive = False\<rparr>, \<lparr>sg_Key = ''view'', sg_Value = v, sg_Sensitive = False\<rparr>]))"
proof -
  have kd: "keyed (g_items g)" using assms by (simp add: plan_ok_def wf_graph_def)
  show ?thesis
  proof (cases "pp_view p")
    case PlanViewOverview
    show ?thesis
    proof (cases "pp_cursor p < int (length (g_items g))")
      case True
      have "nat (pp_cursor p) < length (graph_list_sorted g)" using True assms by (auto simp: plan_ok_def)
      then have "map_of (g_items g) (a_ID (graph_list_sorted g ! nat (pp_cursor p))) = Some (graph_list_sorted g ! nat (pp_cursor p))"
        using sorted_members [OF kd] nth_mem by blast
      then show ?thesis using True PlanViewOverview by (simp add: plan_CellSight_def Let_def plan_sight_of_def graph_get_def)
    next
      case False
      then show ?thesis using PlanViewOverview by (simp add: plan_CellSight_def Let_def)
    qed
  next
    case PlanViewGoal
    then obtain a where a: "map_of (g_items g) (pp_goalID p) = Some a" using assms by (auto simp: plan_ok_def known_def)
    then show ?thesis using PlanViewGoal keyed_lookup [OF kd a] by (simp add: plan_CellSight_def Let_def plan_sight_of_def graph_get_def)
  next
    case PlanViewSegment
    then obtain a where a: "map_of (g_items g) (pp_segID p) = Some a" using assms by (auto simp: plan_ok_def known_def)
    then show ?thesis using PlanViewSegment keyed_lookup [OF kd a] by (simp add: plan_CellSight_def Let_def plan_sight_of_def graph_get_def)
  qed
qed

text \<open>The panel may be given no graph: the view says so, the key does not, and panics.\<close>

lemma no_graph_panics:
  "plan_View sty hl c pt w None NewPlanPanel = Some (sty DimStyle ''No plan loaded'')"
  "plan_Update None \<lparr>k_Type = KeyElse, k_Alt = False, k_String = ''j''\<rparr> (NewPlanPanel\<lparr>pp_base := panel_SetFocus True (pp_base NewPlanPanel)\<rparr>) = None"
  by (simp_all add: plan_View_def plan_Update_def NewPlanPanel_def panel_SetFocus_def clampCursor_def itemCount_def)

text \<open>Over an empty list the cursor runs on, so that a first artifact added later is not selected.\<close>

lemma cursor_runs_on:
  "g_items g = [] \<Longrightarrow> pp_view p = PlanViewOverview \<Longrightarrow> clampCursor (Some g) (p\<lparr>pp_cursor := pp_cursor p + 1\<rparr>) = Some (p\<lparr>pp_cursor := pp_cursor p + 1\<rparr>)"
  by (simp add: clampCursor_def itemCount_def plan_items_def graph_list_sorted_def)

end
