(* ===== verification/Widget_Properties.thy ===== *)
theory Widget_Properties
  imports Tui_Recorder Tui_Input Tui_Plan_Views
begin

text \<open>
  What the panels of the terminal guarantee: lists, the input line, what agents have drawn, the plan beside its graph, and the debugger.
\<close>

subsection \<open>Lists\<close>






definition in_view :: "'p list_panel \<Rightarrow> bool" where
  "in_view p \<longleftrightarrow> fst (view_range p) \<le> lp_cursor p \<and> lp_cursor p < snd (view_range p)"




text \<open>New items put the view back to the top but keep the cursor, which is then out of sight.\<close>

lemma set_items_hides: "\<not> in_view (list_SetItems [0..<30] (NewListPanel i [0..<30::nat]\<lparr>lp_cursor := 25, lp_scrollOff := 6\<rparr>))"
  by (simp add: in_view_def view_range_def list_SetItems_def NewListPanel_def)

subsection \<open>The input line\<close>

lemma down_idle: "ip_histIdx p = - 1 \<Longrightarrow> (HistoryDown lib ^^ m) p = p"
  by (induction m) (simp_all add: HistoryDown_def)

lemma down_empty:
  "keeps_text lib \<Longrightarrow> hist_ok p \<Longrightarrow> 0 < hist_back p \<Longrightarrow> hist_back p \<le> int m \<Longrightarrow> ip_value lib ((HistoryDown lib ^^ m) p) = []"
proof (induction m arbitrary: p)
  case (Suc m)
  have s: "(HistoryDown lib ^^ Suc m) p = (HistoryDown lib ^^ m) (HistoryDown lib p)" by (simp only: funpow_Suc_right o_apply)
  have h: "hist_ok (HistoryDown lib p)" "hist_back (HistoryDown lib p) = hist_back p - 1" using hist_down [OF Suc.prems(2), where lib = lib] Suc.prems(3) by simp_all
  show ?case
  proof (cases "hist_back p = 1")
    case True
    then have "ip_histIdx p = int (length (ip_history p)) - 1" "0 \<le> ip_histIdx p" using Suc.prems(2) by (auto simp: hist_back_def hist_ok_def split: if_splits)
    then have e: "ip_histIdx (HistoryDown lib p) = - 1" "ip_value lib (HistoryDown lib p) = []" using Suc.prems(1) by (simp_all add: HistoryDown_def Let_def)
    show ?thesis unfolding s down_idle [OF e(1)] by (rule e(2))
  next
    case False
    then have "0 < hist_back (HistoryDown lib p)" "hist_back (HistoryDown lib p) \<le> int m" using Suc.prems(3,4) h(2) by simp_all
    then show ?thesis unfolding s by (rule Suc.IH [OF Suc.prems(1) h(1)])
  qed
qed simp

text \<open>Property C36: in the input line the key up shows the prompts sent before from the latest to the first, where it stays, and as many keys
  down lead back to an empty line; tabs put the commands that start as the text does into the line in turn and come round, and a single one is run.\<close>

theorem input_recall:
  assumes "keeps_text lib" "ip_history p \<noteq> []" "ip_histIdx p = - 1" "0 < n"
    and "has_prefix (ip_value lib q) ''/''" "filterPrefix (ip_completions q) (ip_value lib q) = cs" "ip_lastCompletion q = []"
  shows "ip_value lib ((HistoryUp lib ^^ n) p) = rev (ip_history p) ! (min n (length (ip_history p)) - 1)
    \<and> (length (ip_history p) \<le> m \<longrightarrow> ip_value lib ((HistoryDown lib ^^ m) ((HistoryUp lib ^^ n) p)) = [])
    \<and> (1 < length cs \<longrightarrow> ip_value lib (((\<lambda>r. fst (TabComplete lib r)) ^^ Suc k) q) = cs ! (k mod length cs))
    \<and> (\<forall>c. cs = [c] \<longrightarrow> snd (TabComplete lib q) = (True, Some c))"
proof -
  have h: "hist_ok p" "hist_back p = 0" using assms(2,3) by (auto simp: hist_ok_def hist_back_def)
  obtain n1 where n: "n = Suc n1" using assms(4) by (cases n) auto
  have u: "hist_ok ((HistoryUp lib ^^ n1) p)" "hist_back ((HistoryUp lib ^^ n) p) = min (int n) (int (length (ip_history p)))" "hist_ok ((HistoryUp lib ^^ n) p)"
    using hist_ups [OF h(1), where lib = lib and n = n1] hist_ups [OF h(1), where lib = lib and n = n] h(2) by simp_all
  have "ip_value lib ((HistoryUp lib ^^ n) p) = rev (ip_history p) ! nat (hist_back ((HistoryUp lib ^^ n) p) - 1)"
    using up_value [OF assms(1) u(1)] assms(2) by (simp add: n)
  moreover have "nat (min (int n) (int (length (ip_history p))) - 1) = min n (length (ip_history p)) - 1" by (simp add: min_def nat_diff_distrib')
  ultimately have v: "ip_value lib ((HistoryUp lib ^^ n) p) = rev (ip_history p) ! (min n (length (ip_history p)) - 1)" using u(2) by simp
  have d: "length (ip_history p) \<le> m \<longrightarrow> ip_value lib ((HistoryDown lib ^^ m) ((HistoryUp lib ^^ n) p)) = []"
    using down_empty [OF assms(1) u(3), of m] u(2) assms(2,4) by (auto simp: min_def)
  have t: "ip_value lib (((\<lambda>r. fst (TabComplete lib r)) ^^ Suc k) q) = cs ! (k mod length cs)" if l: "1 < length cs"
  proof -
    have ne: "ip_value lib q \<noteq> ip_lastCompletion q \<or> ip_compPrefix q = []" using assms(5,7) by (auto simp: has_prefix_def)
    have s: "\<forall>c \<in> set cs. has_prefix c ''/''" using matches_slash [OF assms(5)] assms(6) by blast
    have z: "(0 :: nat) < length cs" using l by linarith
    have f: "cycling lib cs 0 (fst (TabComplete lib q))" using tab_first [OF assms(1,5) ne assms(6) l] by blast
    have "((\<lambda>r. fst (TabComplete lib r)) ^^ Suc k) q = ((\<lambda>r. fst (TabComplete lib r)) ^^ k) (fst (TabComplete lib q))" by (simp only: funpow_Suc_right o_apply)
    then show ?thesis using tabs_cycle [OF assms(1) f z l s, of k] by (simp add: cycling_def)
  qed
  show ?thesis using v d t single_match_runs [OF assms(5,7)] assms(6) by blast
qed

text \<open>A text area that is its text, to try it on.\<close>

definition plain_area :: "(string, unit) textarea_lib" where
  "plain_area = \<lparr>tl_Value = (\<lambda>t. t), tl_SetValue = (\<lambda>s t. s), tl_Reset = (\<lambda>t. []), tl_Focus = (\<lambda>f t. t),
     tl_SetWidth = (\<lambda>w t. t), tl_SetHeight = (\<lambda>h t. t), tl_SetPlaceholder = (\<lambda>s t. t), tl_Update = (\<lambda>m t. t), tl_View = (\<lambda>t. t)\<rparr>"

definition typed_line :: "string input_panel" where
  "typed_line = (NewInputPanel ''/h'')\<lparr>ip_history := [''a'', ''b''], ip_completions := [''/help'', ''/quit'', ''/history'']\<rparr>"

lemma input_recall_witness:
  "ip_value plain_area ((HistoryUp plain_area ^^ 5) typed_line) = ''a'' \<and> ip_value plain_area ((HistoryDown plain_area ^^ 2) ((HistoryUp plain_area ^^ 5) typed_line)) = []
   \<and> ip_value plain_area (((\<lambda>r. fst (TabComplete plain_area r)) ^^ Suc 3) typed_line) = ''/history''"
proof -
  have k: "keeps_text plain_area" by (simp add: keeps_text_def plain_area_def)
  have t: "ip_history typed_line = [''a'', ''b'']" "ip_histIdx typed_line = - 1" "ip_lastCompletion typed_line = []" by (simp_all add: typed_line_def NewInputPanel_def)
  have v: "has_prefix (ip_value plain_area typed_line) ''/''" "filterPrefix (ip_completions typed_line) (ip_value plain_area typed_line) = [''/help'', ''/history'']"
    by (simp_all add: typed_line_def NewInputPanel_def plain_area_def has_prefix_def filterPrefix_def)
  have h: "ip_history typed_line \<noteq> []" using t(1) by simp
  have c: "rev (ip_history typed_line) ! (min 5 (length (ip_history typed_line)) - 1) = ''a''" by (simp add: t(1))
  have e: "[''/help'', ''/history''] ! (3 mod length [''/help'', ''/history'']) = ''/history''" by code_simp
  have d: "length (ip_history typed_line) \<le> 2" "1 < length [''/help'', ''/history'']" "(0 :: nat) < 5" by (simp_all add: t(1))
  show ?thesis using input_recall [OF k h t(2) d(3) v t(3), where m = 2 and k = 3] d(1,2) unfolding c e by blast
qed

subsection \<open>What agents have drawn\<close>




subsection \<open>The plan\<close>







subsection \<open>The debugger\<close>

lemma scrolled_window:
  assumes "20 < length es" "n = min (length es) (20 + k)" "k \<le> length es" "0 < k"
  shows "take (n - k) (last_n n es) = last_n 20 (take (length es - k) es)"
proof (cases "length es \<le> 20 + k")
  case True
  then have n: "n = length es" using assms(2) by simp
  have "length es - k \<le> 20" using True by simp
  then show ?thesis by (simp add: n)
next
  case False
  then have n: "n = 20 + k" using assms(2) by simp
  have "take 20 (drop (length es - (20 + k)) es) = drop (length es - k - 20) (take (length es - k) es)"
    using False by (simp add: take_drop add.commute)
  moreover have "length (take (length es - k) es) = length es - k" by simp
  ultimately show ?thesis unfolding n last_n_def by simp
qed

lemma debug_slice_window:
  assumes "ring_inv (p_ring r)" "0 \<le> dp_scroll p"
  shows "debug_slice r p = (let es = ring_snapshot (p_ring r); k = nat (dp_scroll p)
    in if length es \<le> 20 then Some es else if k > length es then None else Some (last_n 20 (take (length es - k) es)))"
proof -
  define es where "es = ring_snapshot (p_ring r)"
  define k where "k = nat (dp_scroll p)"
  have k: "dp_scroll p = int k" using assms(2) by (simp add: k_def)
  have l: "trace_last (debug_limit + dp_scroll p) r = Some (last_n (20 + k) es)"
    using ring_last_snapshot [OF assms(1), of "20 + int k"] by (simp add: trace_last_def debug_limit_def k es_def nat_add_distrib)
  have m: "last_n (20 + k) es = last_n (min (length es) (20 + k)) es" by (simp add: last_n_def min_def)
  show ?thesis
  proof (cases "20 < length es \<and> 0 < k \<and> k \<le> length es")
    case True
    then have "take (min (length es) (20 + k) - k) (last_n (20 + k) es) = last_n 20 (take (length es - k) es)"
      using scrolled_window [of es "min (length es) (20 + k)" k] m by simp
    moreover have "nat (int (length (last_n (20 + k) es)) - int k) = min (length es) (20 + k) - k" by (simp add: nat_diff_distrib' min.commute)
    ultimately show ?thesis using True l unfolding debug_slice_def es_def [symmetric] k_def [symmetric] Let_def by (simp add: k debug_limit_def min_def)
  next
    case False
    then show ?thesis using l unfolding debug_slice_def es_def [symmetric] k_def [symmetric] Let_def by (auto simp: k debug_limit_def min_def)
  qed
qed

lemma event_fields_open: "set (map sg_Key (filter (\<lambda>f. \<not> sg_Sensitive f) (event_fields e))) \<subseteq> {''component'', ''action'', ''server'', ''tool''}"
  by (auto simp: event_fields_def open_field_def secret_field_def)

text \<open>Property C39: the debugger shows, of the events a trace has kept, the twenty that end as far back as was scrolled, all when there are no more
  than twenty, and panics exactly when more was scrolled past than is kept; the agent is told of the last one shown, and openly of neither its latency nor its error.\<close>

theorem debug_window:
  fixes ops :: "trace_op list" and c :: nat and p :: debug_panel
  assumes "0 < c" "0 \<le> dp_scroll p"
  defines "kept \<equiv> last_n c (full_log ops)" and "k \<equiv> nat (dp_scroll p)"
  shows "\<exists>r. trace_run ops (new_projection c) = Some r
    \<and> debug_events r p = (if length kept \<le> 20 then Some kept else if k > length kept then None else Some (last_n 20 (take (length kept - k) kept)))
    \<and> (debug_View sty (Some r) p = None \<longleftrightarrow> 20 < length kept \<and> length kept < k)
    \<and> (\<forall>es. debug_events r p = Some es \<and> es \<noteq> [] \<longrightarrow> (\<exists>s. debug_CellSight (Some r) p = Some s \<and> cs_CellID s = e_ID (last es)
          \<and> set (map sg_Key (filter (\<lambda>f. \<not> sg_Sensitive f) (cs_Fields s))) \<subseteq> {''component'', ''action'', ''server'', ''tool''}))"
proof -
  obtain r where r: "trace_run ops (new_projection c) = Some r" "ring_inv (p_ring r)" "ring_snapshot (p_ring r) = kept"
    unfolding kept_def by (rule trace_run_new [OF assms(1)]) blast
  have s: "debug_slice r p = (if length kept \<le> 20 then Some kept else if k > length kept then None else Some (last_n 20 (take (length kept - k) kept)))"
    using debug_slice_window [OF r(2) assms(2)] by (simp add: r(3) k_def Let_def)
  have e: "debug_events r p = debug_slice r p" by (simp add: debug_events_def s debug_limit_def)
  obtain st where st: "trace_stats r = Some st" using trace_stats_log [OF r(2)] by blast
  have v: "debug_View sty (Some r) p = None \<longleftrightarrow> 20 < length kept \<and> length kept < k"
    by (simp add: debug_View_def e s st not_le)
  have g: "\<exists>t. debug_CellSight (Some r) p = Some t \<and> cs_CellID t = e_ID (last es)
      \<and> set (map sg_Key (filter (\<lambda>f. \<not> sg_Sensitive f) (cs_Fields t))) \<subseteq> {''component'', ''action'', ''server'', ''tool''}"
    if a: "debug_events r p = Some es" "es \<noteq> []" for es
    using a event_fields_open [of "last es"] unfolding e by (simp add: debug_CellSight_def)
  have s': "debug_events r p = (if length kept \<le> 20 then Some kept else if k > length kept then None else Some (last_n 20 (take (length kept - k) kept)))"
    unfolding e by (rule s)
  show ?thesis by (intro exI [of _ r] conjI allI impI r(1) s' v) (elim conjE, rule g)
qed

lemma debug_window_witness:
  "\<exists>r. trace_run [TAppend 1 zero_event, TAppend 2 zero_event] (new_projection 4) = Some r \<and> debug_View (\<lambda>s t. t) (Some r) NewDebugPanel \<noteq> None"
proof -
  have d: "0 \<le> dp_scroll NewDebugPanel" "\<not> 20 < length (last_n 4 (full_log [TAppend 1 zero_event, TAppend 2 zero_event]))" by (simp_all add: NewDebugPanel_def full_log_def)
  show ?thesis using debug_window [OF _ d(1), where c = 4 and ops = "[TAppend 1 zero_event, TAppend 2 zero_event]" and sty = "\<lambda>s t. t"] d(2) by auto
qed

subsection \<open>Narrow screens and early text\<close>

lemma narrow_queue_panics: "queue_View sty 7 [''fix the bug''] = None"
  by (simp add: queue_View_def truncateQueue_def cut_at_def)

lemma narrow_turn_panics: "turn_summary sty 31 (NewTurnPanel i ''fix the bug'' [] [] [] 0 0) = None"
  by (simp add: turn_summary_def NewTurnPanel_def truncateQueue_def cut_at_def)

lemma flush_loses_text:
  "let p = output_Update vl vupd FlushStream (output_Update vl vupd (OutputText ''hello'') NewOutputPanel) in op_lines p = [] \<and> op_streamBuf p = []"
  by (simp add: NewOutputPanel_def AppendToLast_def Let_def)

end
