(* ===== verification/Spec2Isabelle.thy ===== *)
theory Spec2Isabelle
  imports Artifact_Properties Telemetry_Properties Broker_Properties Cortex_Properties Runtime_Properties
    Review_Properties Tool_Properties Exec_Properties Uniform_Properties
    Uniform_Plans Monitor_Properties Control_Properties Report_Properties Agent_Properties Support_Properties Tui_Properties Command_Properties Budget_Properties Widget_Properties
begin

text \<open>
  A verification library for djinn, an environment in which language-model agents work on a code
  base. The program is a set of Go packages under \<^verbatim>\<open>src/\<close>. An operator's intent reaches the
  broker, which scopes it and starts workstreams; each agent of a workstream runs the loop of
  package \<^verbatim>\<open>agent\<close> over a driver, whose tool calls pass the policy gate to the tools; its
  conversation is a session of package \<^verbatim>\<open>cortex\<close>, trimmed, compacted and handed to a fresh session
  when the context fills up; the work it plans is a graph of artifacts; what it does is traced, and
  the traces and measurements raise signals, on which an interpreter, watchdogs and cordons act;
  packages \<^verbatim>\<open>review\<close> and \<^verbatim>\<open>tools\<close> report on the code that results. Shell and backend are two
  processes that a hub connects, so that the backend can be swapped while they run.

  \<^bold>\<open>Conventions.\<close> Every operation of a Go type is a function of its record, which it returns updated.
  An operation that holds a lock throughout is one atomic step; where the lock is released in
  between (the driver pool, the relays of the hub, the workstream registry) each critical section is
  a step of its own, and a run is a sequence of steps of any callers. Errors are values: an option,
  or a sum with the error on the left; a panic is a value too. A Go map is an association list with distinct
  keys, whose order stands for the iteration order, so a theorem holds for every order. Strings
  are byte strings. \<^verbatim>\<open>time.Now()\<close>, the environment, the answers of the operating system, of
  programs that are run, of JSON and YAML codecs, of drivers and of other modules are arguments.
  \<^verbatim>\<open>float64\<close> is an exact rational. Integers are unbounded where they count things in memory,
  and words of 64 bits where the code does arithmetic that can wrap (\<^verbatim>\<open>Go_Int64\<close>, the
  hand-written printing in \<^verbatim>\<open>Telemetry_Health\<close>).

  \<^bold>\<open>The library.\<close>
  \<^item> \<^verbatim>\<open>Djinn_Prelude\<close>, \<^verbatim>\<open>Go_Strings\<close>, \<^verbatim>\<open>Go_Paths\<close>, \<^verbatim>\<open>Go_Int64\<close>: Go maps, strings, file paths and
    integers, and the lemma collections all components share. \<^verbatim>\<open>Bounded_Log\<close> has the locale of a
    log that keeps its latest entries, interpreted on the ring buffer of the traces; \<^verbatim>\<open>Graph_Walk\<close>
    the depth-first walk that reviews and role composition share, with its reachability lemma.
  \<^item> \<^verbatim>\<open>Artifact_Template\<close>, \<^verbatim>\<open>Artifact_Graph\<close>, \<^verbatim>\<open>Artifact_Cascade\<close>, \<^verbatim>\<open>Artifact_Topo\<close>,
    \<^verbatim>\<open>Artifact_Lifecycle\<close> (\<^verbatim>\<open>artifact/\<close>): templates and their registry, the graph with its
    operations, the cascade of a change, the topological order, runs of operations and their
    invariants. \<^verbatim>\<open>Artifact_Properties\<close>: what a cascade affects, ownership, order, saving and loading.
  \<^item> \<^verbatim>\<open>Telemetry_Trace\<close>, \<^verbatim>\<open>Telemetry_Health\<close>, \<^verbatim>\<open>Telemetry_Signals\<close> (\<^verbatim>\<open>telemetry/\<close>): traces, the
    alerts found in them, and the signal bus with its watchdogs. A watchdog may emit inside an
    emission; the fuel of \<^verbatim>\<open>bus_emit\<close> is the number of reports its watchdogs have left plus one,
    which is enough because each report is made once. \<^verbatim>\<open>Telemetry_Properties\<close> refines the trace to
    a log, characterises the alerts and shows that emitting returns.
  \<^item> \<^verbatim>\<open>Broker_Scopes\<close>, \<^verbatim>\<open>Broker_Workstreams\<close>, \<^verbatim>\<open>Broker_Properties\<close> (\<^verbatim>\<open>broker/\<close>): scopes, cordons,
    formations and budgets; the registry of workstreams and its queue.
  \<^item> \<^verbatim>\<open>Cortex_History\<close>, \<^verbatim>\<open>Cortex_Relay\<close>, \<^verbatim>\<open>Cortex_Properties\<close> (\<^verbatim>\<open>cortex/\<close>, \<^verbatim>\<open>driver/message.go\<close>):
    conversations with their token budget, compaction and repair, and the relay to a fresh session.
  \<^item> \<^verbatim>\<open>Cache_Layers\<close>, \<^verbatim>\<open>Key_Store\<close>, \<^verbatim>\<open>Hotswap_Hub\<close>, \<^verbatim>\<open>Hotswap_Order\<close>, \<^verbatim>\<open>Runtime_Properties\<close>
    (\<^verbatim>\<open>cache/\<close>, \<^verbatim>\<open>store/\<close>, \<^verbatim>\<open>hotswap/\<close>): the contract of a cache as a locale, extended by eviction
    and composed by write-through; the contract of a key-value store as a locale, interpreted on
    the map and on the directory of files; the hub between shell and backend. A run of the
    relay of one message takes at most five units of fuel, one for each of its critical sections.
  \<^item> \<^verbatim>\<open>Policy_Enforcer\<close>, \<^verbatim>\<open>Tool_Files\<close>, \<^verbatim>\<open>Tool_Properties\<close> (\<^verbatim>\<open>policy/\<close>, \<^verbatim>\<open>tools/builtin/\<close>): the gate of tool
    calls and the file tools behind it. \<^verbatim>\<open>Tool_Stores\<close>, \<^verbatim>\<open>Tool_Reports\<close>, \<^verbatim>\<open>Import_Cycles\<close>,
    \<^verbatim>\<open>Report_Properties\<close> (\<^verbatim>\<open>tools/\<close>): forums and clipboard, test and drift reports, git output, the import graph,
    and the proof that its cycle search is a correct algorithm for strongly connected components.
  \<^item> \<^verbatim>\<open>Agent_Loop\<close>, \<^verbatim>\<open>Agent_Properties\<close> (\<^verbatim>\<open>agent/\<close>): the loop of an agent and the protocol it keeps
    with driver, tools, policy and operator. The loop recurses on the turns it has left.
  \<^item> \<^verbatim>\<open>Exec_Staffing\<close>, \<^verbatim>\<open>Exec_Pool\<close>, \<^verbatim>\<open>Exec_Properties\<close>, \<^verbatim>\<open>Uniform_Rbac\<close>, \<^verbatim>\<open>Uniform_Staff\<close>,
    \<^verbatim>\<open>Uniform_Properties\<close>, \<^verbatim>\<open>Uniform_Memory\<close>, \<^verbatim>\<open>Uniform_Control\<close>, \<^verbatim>\<open>Control_Properties\<close>, \<^verbatim>\<open>Uniform_Plans\<close>,
    \<^verbatim>\<open>Quality_Monitor\<close>, \<^verbatim>\<open>Monitor_Properties\<close> (\<^verbatim>\<open>uniform/\<close>): gears and capacity, the driver pool,
    capabilities, roles and clearances, memories, the signal interpreter (two units of fuel are
    enough, for it ignores what it emits itself), assignments, gates and plans, and measurements.
  \<^item> \<^verbatim>\<open>Review_Circuits\<close>, \<^verbatim>\<open>Review_Properties\<close> (\<^verbatim>\<open>review/\<close>): the circuits a review walks.
  \<^item> \<^verbatim>\<open>Hook_Dispatch\<close>, \<^verbatim>\<open>Watch_Scores\<close>, \<^verbatim>\<open>Sandbox_Rooms\<close>, \<^verbatim>\<open>Support_Properties\<close> (\<^verbatim>\<open>hook/\<close>, \<^verbatim>\<open>observe/\<close>,
    \<^verbatim>\<open>referee/\<close>, \<^verbatim>\<open>undo/\<close>, \<^verbatim>\<open>sandbox/\<close>, \<^verbatim>\<open>discourse/\<close>, \<^verbatim>\<open>assignment/\<close>): hooks and their dispatcher, the readers of the event
    log, sandboxes and workstations. The properties give the verdict of the hooks, when reactions
    to events come to an end, the tenancy of workstations in every interleaving, and the balance of a score.
  \<^item> \<^verbatim>\<open>Tui_Focus\<close>, \<^verbatim>\<open>Tui_Layout\<close>, \<^verbatim>\<open>Tui_Properties\<close> (\<^verbatim>\<open>tui/\<close>): the focus over nested panels, what of it the agent is told, alerts (an
    interpretation of \<open>bounded_log\<close>), annotations and keys; breakpoints, the heights and widths of panels, their rendering over given borders and
    views, and the wrapping of text, whose recursion ends because every break makes the line shorter.
  \<^item> \<^verbatim>\<open>Tool_Commands\<close>, \<^verbatim>\<open>Command_Properties\<close> (\<^verbatim>\<open>tools/builtin/\<close>): the tools that act on the graph, the tests, git, the imports,
    the forum and the assignments, the shell with its timeout, and the searches in files, over given decoders and commands; the plan tool
    refines the operations of \<^verbatim>\<open>Artifact_Graph\<close>.
  \<^item> \<^verbatim>\<open>Review_Budget\<close>, \<^verbatim>\<open>Review_Windows\<close>, \<^verbatim>\<open>Budget_Properties\<close> (\<^verbatim>\<open>review/\<close>): the heuristics that judge a change, the monitor, the anchor of the
    scope and the comparison of symbols; the window of a review as a state machine. What a heuristic promises is the locale \<open>over_threshold\<close>,
    extended by \<open>lasting_heuristic\<close>; each heuristic of the first, second and fourth tier that keeps the contract interprets it.
  \<^item> \<^verbatim>\<open>Tui_Widgets\<close>, \<^verbatim>\<open>Tui_Input\<close>, \<^verbatim>\<open>Tui_Charts\<close>, \<^verbatim>\<open>Tui_Gauges\<close>, \<^verbatim>\<open>Tui_Plans\<close>, \<^verbatim>\<open>Tui_Plan_Views\<close>, \<^verbatim>\<open>Tui_Panels\<close>,
    \<^verbatim>\<open>Tui_Recorder\<close>, \<^verbatim>\<open>Widget_Properties\<close> (\<^verbatim>\<open>tui/widgets/\<close>, \<^verbatim>\<open>tui/\<close>): the panels of the terminal. What moves a cursor is the locale
    \<open>cursor_list\<close>, interpreted on lists, commands, agents, drivers and the two levels of a tour; the recorder of frames interprets \<open>bounded_log\<close>. A
    view is the string it draws, over styles given as a function; a slice or a repetition that panics is \<open>None\<close>. The panel of the plan and the graph
    the agents change are one state (\<open>plan_step\<close>).

  The theories named \<^verbatim>\<open>_Properties\<close> hold the properties, each after a text that states it; a
  property with a hypothesis is followed by a witness that applies it to concrete data.

  \<^bold>\<open>Not modelled.\<close> Terminal, rendering and key handling (\<^verbatim>\<open>tui/\<close>, \<^verbatim>\<open>repl/\<close>, \<^verbatim>\<open>terminal/\<close>), the wiring of
  entry points (\<^verbatim>\<open>app/\<close>, \<^verbatim>\<open>cmd/\<close>), clients of processes and servers (\<^verbatim>\<open>mcp/\<close>, \<^verbatim>\<open>driver/troupe\<close>, the
  sockets of \<^verbatim>\<open>hotswap/\<close>, \<^verbatim>\<open>review/lsp\<close>), the tools that run programs, and the test kit: they
  are input and output on types of other modules, with little of their own to decide. Logging is
  left out everywhere. What remains of a package is listed with its reason in the manifest.
\<close>

end
